(* ===== verification/Prelude.thy ===== *)
theory Prelude
  imports Main "HOL-Library.Word" "HOL-Library.Monad_Syntax" "HOL-Library.Signed_Division"
begin

unbundle bit_operations_syntax

text \<open>
  Shared vocabulary of the development: machine integer types, byte buffers with a write
  cursor, big-endian integer values and the generic lemmas the components use.

  The option type carries C's undefined behaviour. A function of type \<open>\<dots> \<Rightarrow> 'a option\<close>
  returns \<open>None\<close> exactly where the C code would read or write outside the object it was
  given, or follow a null pointer; everything else, error codes included, is an ordinary
  value under \<open>Some\<close>. Programs are composed with the monad syntax of
  \<open>HOL-Library.Monad_Syntax\<close>.
\<close>

named_theorems buf_simps \<open>equations of the buffer and cursor operations\<close>
named_theorems byte_simps \<open>equations of byte and big-endian integer values\<close>

section \<open>Machine integers\<close>

type_synonym u8 = "8 word"
type_synonym u16 = "16 word"
type_synonym u32 = "32 word"
type_synonym u64 = "64 word"

text \<open>A C string: the bytes before the terminating zero.\<close>

type_synonym cstr = "u8 list"

definition wrap16 :: "int \<Rightarrow> int" where
  "wrap16 x = signed_take_bit 15 x"

lemma wrap16_id: "- (2 ^ 15) \<le> x \<Longrightarrow> x < 2 ^ 15 \<Longrightarrow> wrap16 x = x"
  unfolding wrap16_def by (rule signed_take_bit_int_eq_self) simp_all

text \<open>Signed 32-bit arithmetic on the mathematical integers, wrap-around written out.\<close>

definition wrap32 :: "int \<Rightarrow> int" where
  "wrap32 x = signed_take_bit 31 x"

lemma wrap32_id: "- (2 ^ 31) \<le> x \<Longrightarrow> x < 2 ^ 31 \<Longrightarrow> wrap32 x = x"
  unfolding wrap32_def by (rule signed_take_bit_int_eq_self) simp_all

lemma wrap32_bounds: "- (2 ^ 31) \<le> wrap32 x" "wrap32 x < 2 ^ 31"
  unfolding wrap32_def
  using signed_take_bit_int_greater_eq_minus_exp [of 31 x] signed_take_bit_int_less_exp [of 31 x]
  by simp_all

lemma wrap32_over: "2 ^ 31 \<le> x \<Longrightarrow> x < 2 ^ 32 \<Longrightarrow> wrap32 x = x - 2 ^ 32"
proof -
  assume lo: "2 ^ 31 \<le> x" and hi: "x < 2 ^ 32"
  have "wrap32 x = (x + 2 ^ 31) mod 2 ^ 32 - 2 ^ 31"
    unfolding wrap32_def signed_take_bit_eq_take_bit_shift by (simp add: take_bit_eq_mod)
  also have "(x + 2 ^ 31) mod 2 ^ 32 = (x - 2 ^ 31 + 2 ^ 32) mod 2 ^ 32"
    by (simp add: add.commute)
  also have "\<dots> = (x - 2 ^ 31) mod 2 ^ 32"
    by (rule mod_add_self2)
  also have "\<dots> = x - 2 ^ 31"
    using lo hi by (intro mod_pos_pos_trivial) simp_all
  finally show ?thesis by simp
qed

section \<open>Loops\<close>

text \<open>\<open>for\<close> over the elements of a list, with a state and a body that may fail.\<close>

fun for_each :: "'a list \<Rightarrow> ('a \<Rightarrow> 's \<Rightarrow> 's option) \<Rightarrow> 's \<Rightarrow> 's option" where
  "for_each [] f s = Some s"
| "for_each (x # xs) f s = do { s \<leftarrow> f x s; for_each xs f s }"

lemma for_each_append: "for_each (xs @ ys) f s = do { s \<leftarrow> for_each xs f s; for_each ys f s }"
  by (induction xs f s rule: for_each.induct) (auto split: Option.bind_splits)

text \<open>Invariant rule: a body that succeeds and keeps the invariant makes a loop that does.\<close>

lemma for_each_invariant:
  assumes "I 0 s" "\<And>i s. i < length xs \<Longrightarrow> I i s \<Longrightarrow> \<exists>s'. f (xs ! i) s = Some s' \<and> I (Suc i) s'"
  shows "\<exists>s'. for_each xs f s = Some s' \<and> I (length xs) s'"
  using assms
proof (induction xs arbitrary: s I)
  case Nil
  then show ?case by simp
next
  case (Cons x xs)
  obtain s1 where s1: "f x s = Some s1" "I 1 s1"
    using Cons.prems(2) [of 0 s] Cons.prems(1) by auto
  have "\<exists>s'. for_each xs f s1 = Some s' \<and> I (Suc (length xs)) s'"
  proof (rule Cons.IH [of "\<lambda>i. I (Suc i)"])
    show "I (Suc 0) s1" using s1 by simp
    show "\<exists>s'. f (xs ! i) s = Some s' \<and> I (Suc (Suc i)) s'" if "i < length xs" "I (Suc i) s" for i s
      using Cons.prems(2) [of "Suc i" s] that by simp
  qed
  with s1 show ?case by simp
qed

section \<open>Byte buffers\<close>

text \<open>\<open>buffer[i]\<close> and \<open>buffer[i] = b\<close>; \<open>None\<close> outside the object.\<close>

definition rd :: "'a list \<Rightarrow> nat \<Rightarrow> 'a option" where
  "rd xs i = (if i < length xs then Some (xs ! i) else None)"

definition wr :: "'a list \<Rightarrow> nat \<Rightarrow> 'a \<Rightarrow> 'a list option" where
  "wr xs i x = (if i < length xs then Some (xs[i := x]) else None)"

text \<open>The same with a C \<open>int\<close> index, which may be negative.\<close>

definition rdi :: "'a list \<Rightarrow> int \<Rightarrow> 'a option" where
  "rdi xs i = (if 0 \<le> i then rd xs (nat i) else None)"

lemma rd_Some [buf_simps]: "i < length xs \<Longrightarrow> rd xs i = Some (xs ! i)"
  by (simp add: rd_def)

lemma rd_eq_Some: "rd xs i = Some x \<longleftrightarrow> i < length xs \<and> xs ! i = x"
  by (auto simp: rd_def)

lemma rd_None: "rd xs i = None \<longleftrightarrow> length xs \<le> i"
  by (auto simp: rd_def)

lemma wr_Some [buf_simps]: "i < length xs \<Longrightarrow> wr xs i x = Some (xs[i := x])"
  by (simp add: wr_def)

lemma rdi_Some [buf_simps]: "0 \<le> i \<Longrightarrow> i < int (length xs) \<Longrightarrow> rdi xs i = Some (xs ! nat i)"
  by (auto simp: rdi_def rd_def nat_less_iff)

lemma rdi_eq_Some: "rdi xs i = Some x \<longleftrightarrow> 0 \<le> i \<and> i < int (length xs) \<and> xs ! nat i = x"
  by (auto simp: rdi_def rd_def)

text \<open>
  A buffer with its write position: the pair that \<open>buffer[bufPos++] = b\<close> advances.
\<close>

type_synonym cursor = "u8 list \<times> nat"

definition put :: "u8 \<Rightarrow> cursor \<Rightarrow> cursor option" where
  "put b c = (case c of (buf, p) \<Rightarrow>
     (if p < length buf then Some (buf[p := b], Suc p) else None))"

fun puts :: "u8 list \<Rightarrow> cursor \<Rightarrow> cursor option" where
  "puts [] c = Some c"
| "puts (b # bs) c = do { c \<leftarrow> put b c; puts bs c }"

text \<open>\<open>for (i = \<dots>; \<dots>; i++) buffer[bufPos++] = src[i]\<close>, \<open>k\<close> rounds from index \<open>i\<close>.\<close>

fun put_from :: "u8 list \<Rightarrow> nat \<Rightarrow> nat \<Rightarrow> cursor \<Rightarrow> cursor option" where
  "put_from src i 0 c = Some c"
| "put_from src i (Suc k) c = do { b \<leftarrow> rd src i; c \<leftarrow> put b c; put_from src (Suc i) k c }"

text \<open>What a buffer holds after \<open>bs\<close> was written at \<open>p\<close>.\<close>

definition splice :: "'a list \<Rightarrow> nat \<Rightarrow> 'a list \<Rightarrow> 'a list" where
  "splice buf p bs = take p buf @ bs @ drop (p + length bs) buf"

lemma splice_Nil [buf_simps]: "splice buf p [] = buf"
  by (simp add: splice_def)

lemma length_splice [buf_simps]:
  "p + length bs \<le> length buf \<Longrightarrow> length (splice buf p bs) = length buf"
  by (simp add: splice_def)

lemma splice_read: "p + length bs \<le> length buf \<Longrightarrow> take (length bs) (drop p (splice buf p bs)) = bs"
  by (simp add: splice_def)

lemma splice_before: "p \<le> length buf \<Longrightarrow> take p (splice buf p bs) = take p buf"
  by (simp add: splice_def)

lemma splice_after:
  "p + length bs \<le> length buf \<Longrightarrow> drop (p + length bs) (splice buf p bs) = drop (p + length bs) buf"
  by (simp add: splice_def)

lemma splice_nth:
  "p + length bs \<le> length buf \<Longrightarrow> i < length bs \<Longrightarrow> splice buf p bs ! (p + i) = bs ! i"
  by (simp add: splice_def nth_append)

lemma splice_Cons:
  "p < length buf \<Longrightarrow> splice (buf[p := b]) (Suc p) bs = splice buf p (b # bs)"
  by (simp add: splice_def take_Suc_conv_app_nth)

lemma splice_append:
  "p + length xs \<le> length buf \<Longrightarrow>
   splice (splice buf p xs) (p + length xs) ys = splice buf p (xs @ ys)"
  by (simp add: splice_def ac_simps)

lemma put_splice [buf_simps]:
  "p < length buf \<Longrightarrow> put b (buf, p) = Some (splice buf p [b], Suc p)"
  by (simp add: put_def splice_def upd_conv_take_nth_drop)

lemma puts_fun: "puts [] = Some" "puts (b # bs) = (\<lambda>c. put b c \<bind> puts bs)"
  by (simp_all add: fun_eq_iff)

lemma puts_append: "puts (xs @ ys) c = do { c \<leftarrow> puts xs c; puts ys c }"
  by (induction xs c rule: puts.induct) (auto split: Option.bind_splits)

lemma puts_eq [buf_simps]:
  "p + length bs \<le> length buf \<Longrightarrow> puts bs (buf, p) = Some (splice buf p bs, p + length bs)"
proof (induction bs arbitrary: buf p)
  case Nil
  then show ?case by (simp add: splice_def)
next
  case (Cons b bs)
  then have "puts (b # bs) (buf, p) = puts bs (buf[p := b], Suc p)"
    by (simp add: put_def)
  also have "\<dots> = Some (splice (buf[p := b]) (Suc p) bs, Suc p + length bs)"
    using Cons.prems by (subst Cons.IH) auto
  finally show ?case using Cons.prems by (simp add: splice_Cons)
qed

lemma puts_None: "bs \<noteq> [] \<Longrightarrow> length buf < p + length bs \<Longrightarrow> puts bs (buf, p) = None"
proof (induction bs arbitrary: buf p)
  case (Cons b bs)
  then show ?case by (cases "bs = []") (auto simp: put_def)
qed simp

text \<open>A write succeeds exactly when it fits.\<close>

lemma puts_iff:
  "bs \<noteq> [] \<Longrightarrow> puts bs (buf, p) =
     (if p + length bs \<le> length buf then Some (splice buf p bs, p + length bs) else None)"
  by (simp add: puts_eq puts_None)

lemma puts_length: "puts bs (buf, p) = Some (buf', p') \<Longrightarrow> length buf' = length buf \<and> p' = p + length bs"
  by (cases "bs = []") (auto simp: puts_iff buf_simps split: if_splits)

lemma put_from_puts:
  "i + k \<le> length src \<Longrightarrow> put_from src i k c = puts (take k (drop i src)) c"
proof (induction src i k c rule: put_from.induct)
  case (2 src i k c)
  then have "take (Suc k) (drop i src) = src ! i # take k (drop (Suc i) src)"
    by (metis Cons_nth_drop_Suc Suc_le_lessD add_Suc_right le_add1 le_trans not_less_eq_eq take_Suc_Cons)
  then show ?case using 2 by (auto simp: rd_def split: Option.bind_splits)
qed simp

section \<open>Big-endian integer values\<close>

definition be_uint :: "u8 list \<Rightarrow> int" where
  "be_uint bs = foldl (\<lambda>a b. a * 256 + uint b) 0 bs"

definition be_sint :: "u8 list \<Rightarrow> int" where
  "be_sint bs = be_uint bs - (if bs \<noteq> [] \<and> 128 \<le> uint (hd bs) then 256 ^ length bs else 0)"

lemma be_uint_Nil [byte_simps]: "be_uint [] = 0"
  by (simp add: be_uint_def)

lemma be_uint_snoc [byte_simps]: "be_uint (bs @ [b]) = be_uint bs * 256 + uint b"
  by (simp add: be_uint_def)

lemma be_uint_Cons: "be_uint (b # bs) = uint b * 256 ^ length bs + be_uint bs"
proof (induction bs rule: rev_induct)
  case (snoc x xs)
  have "be_uint (b # xs @ [x]) = be_uint (b # xs) * 256 + uint x"
    using be_uint_snoc [of "b # xs" x] by simp
  then show ?case using snoc.IH by (simp add: byte_simps algebra_simps)
qed (simp add: be_uint_def)

lemma be_uint_append: "be_uint (xs @ ys) = be_uint xs * 256 ^ length ys + be_uint ys"
  by (induction xs) (simp_all add: be_uint_Cons byte_simps power_add algebra_simps)

lemma uint_u8_bounds: "0 \<le> uint (b :: u8)" "uint (b :: u8) < 256"
  using uint_lt2p [of b] by simp_all

lemma be_uint_nonneg: "0 \<le> be_uint bs"
  by (induction bs) (simp_all add: be_uint_Cons byte_simps)

lemma be_uint_less: "be_uint bs < 256 ^ length bs"
proof (induction bs)
  case (Cons b bs)
  have "uint b \<le> 255" using uint_u8_bounds [of b] by simp
  then have "uint b * 256 ^ length bs \<le> 255 * 256 ^ length bs"
    by (rule mult_right_mono) simp
  moreover have "256 ^ length (b # bs) = (256 :: int) * 256 ^ length bs" by simp
  ultimately show ?case using Cons.IH unfolding be_uint_Cons by linarith
qed (simp add: byte_simps)

lemma be_sint_Cons:
  "be_sint (b # bs) =
     (if 128 \<le> uint b then uint b - 256 else uint b) * 256 ^ length bs + be_uint bs"
  by (simp add: be_sint_def be_uint_Cons algebra_simps)

text \<open>A nonempty list of \<open>n\<close> bytes denotes a value of the \<open>8 n\<close>-bit two's complement range.\<close>

lemma be_sint_bounds:
  assumes "bs \<noteq> []"
  shows "- (128 * 256 ^ (length bs - 1)) \<le> be_sint bs" "be_sint bs < 128 * 256 ^ (length bs - 1)"
proof -
  obtain b cs where bs: "bs = b # cs" using assms by (cases bs) auto
  define h where "h = (if 128 \<le> uint b then uint b - 256 else uint b)"
  have "h = uint b - 256 \<and> 128 \<le> uint b \<or> h = uint b \<and> uint b < 128"
    by (auto simp: h_def)
  then have h: "- 128 \<le> h" "h \<le> 127"
    using uint_u8_bounds [of b] by (elim disjE conjE; linarith)+
  have eq: "be_sint bs = h * 256 ^ length cs + be_uint cs"
    by (simp add: bs be_sint_Cons h_def)
  have lo: "- 128 * 256 ^ length cs \<le> h * 256 ^ length cs"
    using h(1) by (intro mult_right_mono) simp_all
  have hi: "h * 256 ^ length cs \<le> 127 * 256 ^ length cs"
    using h(2) by (intro mult_right_mono) simp_all
  have len: "length bs - 1 = length cs" by (simp add: bs)
  show "- (128 * 256 ^ (length bs - 1)) \<le> be_sint bs"
    using eq lo be_uint_nonneg [of cs] unfolding len by linarith
  show "be_sint bs < 128 * 256 ^ (length bs - 1)"
    using eq hi be_uint_less [of cs] unfolding len by linarith
qed

lemma u8_msb: "bit (b :: u8) 7 \<longleftrightarrow> 128 \<le> uint b"
proof -
  have "bit b 7 \<longleftrightarrow> odd (uint b div 128)"
    using bit_iff_odd [of "uint b" 7] by (simp add: bit_uint_iff)
  moreover have "uint b div 128 = 0 \<and> uint b < 128 \<or> uint b div 128 = 1 \<and> 128 \<le> uint b"
    using uint_u8_bounds [of b] by linarith
  ultimately show ?thesis by auto
qed

lemma u8_and_0x80: "(b :: u8) AND 0x80 = 0 \<longleftrightarrow> uint b < 128"
  using and_exp_eq_0_iff_not_bit [of b 7] by (simp add: u8_msb not_le)

section \<open>Object representation\<close>

text \<open>The bytes \<open>(uint8_t*) &w\<close> of an integer object on a little-endian target.\<close>

definition le_bytes :: "nat \<Rightarrow> 'a::len word \<Rightarrow> u8 list" where
  "le_bytes n w = map (\<lambda>i. ucast (drop_bit (8 * i) w)) [0..<n]"

lemma length_le_bytes: "length (le_bytes n w) = n"
  by (simp add: le_bytes_def)

lemma uint_byte: "uint (ucast (drop_bit (8 * i) (w :: 'a::len word)) :: u8) = uint w div 256 ^ i mod 256"
proof -
  have "uint (drop_bit (8 * i) w) = drop_bit (8 * i) (uint w)"
    by (simp add: unsigned_drop_bit_eq bintr_uint)
  moreover have "drop_bit (8 * i) (uint w) = uint w div 256 ^ i"
    by (simp add: drop_bit_eq_div power_mult)
  ultimately show ?thesis
    unfolding unsigned_ucast_eq by (simp only: take_bit_eq_mod) simp
qed

lemma be_uint_le_bytes: "be_uint (rev (le_bytes n (w :: 'a::len word))) = uint w mod 256 ^ n"
proof (induction n)
  case (Suc n)
  have "rev (le_bytes (Suc n) w) = ucast (drop_bit (8 * n) w) # rev (le_bytes n w)"
    by (simp add: le_bytes_def)
  then have "be_uint (rev (le_bytes (Suc n) w)) =
      (uint w div 256 ^ n mod 256) * 256 ^ n + uint w mod 256 ^ n"
    using Suc.IH by (simp add: be_uint_Cons uint_byte length_le_bytes)
  also have "\<dots> = uint w mod (256 ^ n * 256)"
    by (subst zmod_zmult2_eq) (simp_all add: mult.commute)
  finally show ?case by (simp add: mult.commute)
qed (simp add: le_bytes_def byte_simps)

lemma be_uint_hd:
  assumes "bs \<noteq> []"
  shows "128 \<le> uint (hd bs) \<longleftrightarrow> 128 * 256 ^ (length bs - 1) \<le> be_uint bs"
proof -
  obtain b cs where bs: "bs = b # cs" using assms by (cases bs) auto
  have u: "be_uint bs = uint b * 256 ^ length cs + be_uint cs" by (simp add: bs be_uint_Cons)
  have "128 * 256 ^ length cs \<le> be_uint bs" if "128 \<le> uint b"
  proof -
    from that have "128 * 256 ^ length cs \<le> uint b * 256 ^ length cs" by (rule mult_right_mono) simp
    then show ?thesis using u be_uint_nonneg [of cs] by linarith
  qed
  moreover have "be_uint bs < 128 * 256 ^ length cs" if "uint b \<le> 127"
  proof -
    from that have "uint b * 256 ^ length cs \<le> 127 * 256 ^ length cs" by (rule mult_right_mono) simp
    then show ?thesis using u be_uint_less [of cs] by linarith
  qed
  ultimately show ?thesis by (cases "128 \<le> uint b") (auto simp: bs)
qed

lemma be_sint_le_bytes:
  assumes "LENGTH('a) = 8 * n"
  shows "be_sint (rev (le_bytes n (w :: 'a::len word))) = sint w"
proof -
  let ?bs = "rev (le_bytes n w)"
  have n: "0 < n" using assms len_gt_0 [where 'a = 'a] by linarith
  have p: "(256 :: int) ^ n = 2 ^ LENGTH('a)" by (simp add: assms power_mult)
  have ne: "?bs \<noteq> []" and len: "length ?bs = n" using n by (auto simp: length_le_bytes le_bytes_def)
  have "uint w mod 256 ^ n = uint w"
    unfolding p using uint_lt2p [of w] by (intro mod_pos_pos_trivial) simp_all
  then have u: "be_uint ?bs = uint w" by (simp add: be_uint_le_bytes)
  have "word_of_int (be_sint ?bs) = w"
    using ne len by (simp add: be_sint_def u p word_of_int_2p_len)
  then have "sint w = signed_take_bit (LENGTH('a) - 1) (be_sint ?bs)"
    by (metis sint_sbintrunc')
  moreover have "(128 :: int) * 256 ^ (n - 1) = 2 ^ (LENGTH('a) - 1)"
  proof -
    have "LENGTH('a) - 1 = 7 + 8 * (n - 1)" using n assms by simp
    then show ?thesis by (simp add: power_add power_mult)
  qed
  then have "signed_take_bit (LENGTH('a) - 1) (be_sint ?bs) = be_sint ?bs"
    using be_sint_bounds [OF ne] len by (intro signed_take_bit_int_eq_self) simp_all
  ultimately show ?thesis by simp
qed
section \<open>What a buffer holds\<close>

definition holds :: "u8 list \<Rightarrow> nat \<Rightarrow> u8 list \<Rightarrow> bool" where
  "holds buf p bs \<longleftrightarrow> p + length bs \<le> length buf \<and> take (length bs) (drop p buf) = bs"

lemma holds_append: "holds buf p (xs @ ys) \<longleftrightarrow> holds buf p xs \<and> holds buf (p + length xs) ys"
  by (auto simp: holds_def take_add add.assoc) (metis append_eq_append_conv length_drop length_take min.absorb2 le_diff_conv2 nat_le_linear add.commute add_leD1)+

lemma holds_puts: "holds buf p bs \<Longrightarrow> puts bs (buf, p) = Some (buf, p + length bs)"
proof -
  assume h: "holds buf p bs"
  have "drop p buf = take (length bs) (drop p buf) @ drop (p + length bs) buf"
    by (metis append_take_drop_id drop_drop add.commute)
  then have "splice buf p bs = buf" using h unfolding splice_def holds_def by (metis append_take_drop_id)
  then show ?thesis using h puts_eq [of p bs buf] by (simp add: holds_def)
qed

lemma holds_splice: "p + length bs \<le> length buf \<Longrightarrow> holds (splice buf p bs) p bs"
  by (simp add: holds_def splice_read length_splice)

lemma holds_Cons: "holds buf p (b # bs) \<longleftrightarrow> p < length buf \<and> buf ! p = b \<and> holds buf (Suc p) bs"
proof -
  have "holds buf p [b] \<longleftrightarrow> p < length buf \<and> buf ! p = b"
    by (cases "p < length buf") (auto simp: holds_def take_Suc_conv_app_nth Cons_nth_drop_Suc [symmetric])
  then show ?thesis using holds_append [of buf p "[b]" bs] by simp
qed

lemma holds_drop: "holds buf p bs \<Longrightarrow> take (length bs) (drop p buf) = bs \<and> p + length bs \<le> length buf"
  by (simp add: holds_def)

end
