(* ===== verification/LinkedList.thy ===== *)
theory LinkedList
  imports Prelude
begin

text \<open>
  \<^verbatim>\<open>libmms/src/common/linked_list.c\<close>: singly linked lists with a header element, on an
  explicit heap.

  A heap maps addresses to elements; a pointer is an optional address and \<open>None\<close> is NULL.
  \<open>GLOBAL_MALLOC\<close> is not part of the repository's own logic: its result is an argument of
  the operations that allocate, NULL included. Loops follow pointers and could run for ever on
  a cyclic chain, so they are \<open>partial_function (option)\<close>: \<open>None\<close> means a dangling or null
  dereference or no return. Every theorem about them states that they do return.

  \<open>list_at h l ds\<close> says that the header at \<open>l\<close> heads an acyclic chain with data \<open>ds\<close>.
\<close>

type_synonym addr = nat

record 'd lnode =
  ln_data :: "'d option"
  ln_next :: "addr option"

type_synonym 'd lheap = "addr \<Rightarrow> 'd lnode option"

section \<open>Operations\<close>

partial_function (option) LinkedList_getLastElement :: "'d lheap \<Rightarrow> addr \<Rightarrow> addr option" where
  "LinkedList_getLastElement h l = do {
     n \<leftarrow> h l;
     case ln_next n of None \<Rightarrow> Some l | Some q \<Rightarrow> LinkedList_getLastElement h q }"

definition LinkedList_create :: "addr option \<Rightarrow> 'd lheap \<Rightarrow> 'd lheap \<times> addr option" where
  "LinkedList_create malloc h =
     (case malloc of
        Some p \<Rightarrow> (h(p \<mapsto> \<lparr>ln_data = None, ln_next = None\<rparr>), Some p)
      | None \<Rightarrow> (h, None))"

text \<open>
  Both destroy loops; the deep one also lists the data handed to the delete function, in order.
\<close>

partial_function (option) destroy_loop :: "'d lheap \<Rightarrow> addr \<Rightarrow> 'd list \<Rightarrow> ('d lheap \<times> 'd list) option" where
  "destroy_loop h currentElement deleted = do {
     n \<leftarrow> h currentElement;
     let deleted = (case ln_data n of Some d \<Rightarrow> deleted @ [d] | None \<Rightarrow> deleted);
     let h = h(currentElement := None);
     case ln_next n of None \<Rightarrow> Some (h, deleted) | Some nextElement \<Rightarrow> destroy_loop h nextElement deleted }"

definition LinkedList_destroyDeep :: "'d lheap \<Rightarrow> addr \<Rightarrow> ('d lheap \<times> 'd list) option" where
  "LinkedList_destroyDeep h l = destroy_loop h l []"

partial_function (option) LinkedList_destroyStatic :: "'d lheap \<Rightarrow> addr \<Rightarrow> 'd lheap option" where
  "LinkedList_destroyStatic h currentElement = do {
     n \<leftarrow> h currentElement;
     let h = h(currentElement := None);
     case ln_next n of None \<Rightarrow> Some h | Some nextElement \<Rightarrow> LinkedList_destroyStatic h nextElement }"

partial_function (option) size_loop :: "'d lheap \<Rightarrow> addr \<Rightarrow> nat \<Rightarrow> nat option" where
  "size_loop h nextElement sz = do {
     n \<leftarrow> h nextElement;
     case ln_next n of None \<Rightarrow> Some sz | Some q \<Rightarrow> size_loop h q (sz + 1) }"

definition LinkedList_size :: "'d lheap \<Rightarrow> addr \<Rightarrow> nat option" where
  "LinkedList_size h l = size_loop h l 0"

definition LinkedList_append ::
    "addr option \<Rightarrow> 'd lheap \<Rightarrow> addr \<Rightarrow> 'd \<Rightarrow> ('d lheap \<times> addr option) option" where
  "LinkedList_append malloc h l d =
     (let (h, newElement) = LinkedList_create malloc h in
      case newElement of
        Some p \<Rightarrow> do {
          n \<leftarrow> h p;
          let h = h(p \<mapsto> n\<lparr>ln_data := Some d\<rparr>);
          listEnd \<leftarrow> LinkedList_getLastElement h l;
          e \<leftarrow> h listEnd;
          Some (h(listEnd \<mapsto> e\<lparr>ln_next := Some p\<rparr>), Some p) }
      | None \<Rightarrow> Some (h, None))"

definition LinkedList_add :: "addr option \<Rightarrow> 'd lheap \<Rightarrow> addr \<Rightarrow> 'd \<Rightarrow> 'd lheap option" where
  "LinkedList_add malloc h l d = map_option fst (LinkedList_append malloc h l d)"

definition LinkedList_addEx :: "addr option \<Rightarrow> 'd lheap \<Rightarrow> addr \<Rightarrow> 'd \<Rightarrow> ('d lheap \<times> bool) option" where
  "LinkedList_addEx malloc h l d =
     map_option (\<lambda>(h, p). (h, p \<noteq> None)) (LinkedList_append malloc h l d)"

partial_function (option) contains_loop :: "'d lheap \<Rightarrow> addr option \<Rightarrow> 'd \<Rightarrow> bool option" where
  "contains_loop h currentElement d =
     (case currentElement of
        None \<Rightarrow> Some False
      | Some p \<Rightarrow> do {
          n \<leftarrow> h p;
          if ln_data n = Some d then Some True else contains_loop h (ln_next n) d })"

definition LinkedList_contains :: "'d lheap \<Rightarrow> addr \<Rightarrow> 'd \<Rightarrow> bool option" where
  "LinkedList_contains h l d = do {
     n \<leftarrow> h l;
     contains_loop h (ln_next n) d }"

partial_function (option) remove_loop ::
    "'d lheap \<Rightarrow> addr \<Rightarrow> addr option \<Rightarrow> 'd \<Rightarrow> ('d lheap \<times> bool) option" where
  "remove_loop h lastElement currentElement d =
     (case currentElement of
        None \<Rightarrow> Some (h, False)
      | Some p \<Rightarrow> do {
          n \<leftarrow> h p;
          if ln_data n = Some d then do {
            e \<leftarrow> h lastElement;
            Some ((h(lastElement \<mapsto> e\<lparr>ln_next := ln_next n\<rparr>))(p := None), True) }
          else remove_loop h p (ln_next n) d })"

definition LinkedList_remove :: "'d lheap \<Rightarrow> addr \<Rightarrow> 'd \<Rightarrow> ('d lheap \<times> bool) option" where
  "LinkedList_remove h l d = do {
     n \<leftarrow> h l;
     remove_loop h l (ln_next n) d }"

definition LinkedList_getNext :: "'d lheap \<Rightarrow> addr \<Rightarrow> addr option option" where
  "LinkedList_getNext h l = map_option ln_next (h l)"

text \<open>\<open>LinkedList_insertAfter\<close> uses the new element without a NULL check.\<close>

definition LinkedList_insertAfter ::
    "addr option \<Rightarrow> 'd lheap \<Rightarrow> addr \<Rightarrow> 'd \<Rightarrow> ('d lheap \<times> addr) option" where
  "LinkedList_insertAfter malloc h l d = do {
     originalNextElement \<leftarrow> LinkedList_getNext h l;
     let (h, newElement) = LinkedList_create malloc h;
     p \<leftarrow> newElement;
     let h = h(p \<mapsto> \<lparr>ln_data = Some d, ln_next = originalNextElement\<rparr>);
     n \<leftarrow> h l;
     Some (h(l \<mapsto> n\<lparr>ln_next := Some p\<rparr>), p) }"

text \<open>
  \<open>LinkedList_get\<close>: \<open>k\<close> rounds of the loop are left; the next element is taken before it is
  tested, so the first step of a too short list dereferences NULL.
\<close>

fun get_loop :: "'d lheap \<Rightarrow> addr option \<Rightarrow> nat \<Rightarrow> addr option option" where
  "get_loop h element 0 = Some element"
| "get_loop h element (Suc k) = do {
     p \<leftarrow> element;
     element \<leftarrow> LinkedList_getNext h p;
     case element of None \<Rightarrow> Some None | Some q \<Rightarrow> get_loop h (Some q) k }"

definition LinkedList_get :: "'d lheap \<Rightarrow> addr \<Rightarrow> nat \<Rightarrow> addr option option" where
  "LinkedList_get h l index = do {
     element \<leftarrow> LinkedList_getNext h l;
     get_loop h element index }"

definition LinkedList_getData :: "'d lheap \<Rightarrow> addr \<Rightarrow> 'd option option" where
  "LinkedList_getData h p = map_option ln_data (h p)"

section \<open>Representation\<close>

fun chain :: "'d lheap \<Rightarrow> addr option \<Rightarrow> addr list \<Rightarrow> 'd list \<Rightarrow> bool" where
  "chain h p [] [] \<longleftrightarrow> p = None"
| "chain h p (a # as) (d # ds) \<longleftrightarrow> p = Some a \<and>
     (case h a of Some n \<Rightarrow> ln_data n = Some d \<and> chain h (ln_next n) as ds | None \<Rightarrow> False)"
| "chain h p _ _ \<longleftrightarrow> False"

definition list_cells :: "'d lheap \<Rightarrow> addr \<Rightarrow> addr list \<Rightarrow> 'd list \<Rightarrow> bool" where
  "list_cells h l as ds \<longleftrightarrow> distinct (l # as) \<and>
     (case h l of Some n \<Rightarrow> ln_data n = None \<and> chain h (ln_next n) as ds | None \<Rightarrow> False)"

definition list_at :: "'d lheap \<Rightarrow> addr \<Rightarrow> 'd list \<Rightarrow> bool" where
  "list_at h l ds \<longleftrightarrow> (\<exists>as. list_cells h l as ds)"

text \<open>Writing outside the chain does not change it.\<close>

lemma chain_frame: "a \<notin> set as \<Longrightarrow> chain (h(a := x)) p as ds = chain h p as ds"
  by (induction h p as ds rule: chain.induct) (auto split: option.splits)

lemma chain_length: "chain h p as ds \<Longrightarrow> length as = length ds"
  by (induction h p as ds rule: chain.induct) (auto split: option.splits)

lemma chain_allocated: "chain h p as ds \<Longrightarrow> a \<in> set as \<Longrightarrow> h a \<noteq> None"
  by (induction h p as ds rule: chain.induct) (auto split: option.splits)

lemma chain_Nil [simp]: "chain h p [] ds \<longleftrightarrow> p = None \<and> ds = []"
  by (cases ds) auto

lemma chain_ConsE:
  assumes "chain h p (a # as) ds"
  obtains n d ds' where "ds = d # ds'" "p = Some a" "h a = Some n" "ln_data n = Some d"
    "chain h (ln_next n) as ds'"
  using assms by (cases ds) (auto split: option.splits)

section \<open>Each operation against the list it represents\<close>

lemma getLast_chain:
  "h l = Some n \<Longrightarrow> chain h (ln_next n) as ds \<Longrightarrow> LinkedList_getLastElement h l = Some (last (l # as))"
proof (induction as arbitrary: l n ds)
  case Nil
  then show ?case by (simp add: LinkedList_getLastElement.simps)
next
  case (Cons a as)
  then obtain m ds' where m: "ln_next n = Some a" "h a = Some m" "chain h (ln_next m) as ds'"
    by (auto elim: chain_ConsE)
  with Cons.IH [OF m(2,3)] Cons.prems(1) show ?case
    by (simp add: LinkedList_getLastElement.simps [of h l])
qed

lemma chain_snoc:
  fixes d :: 'd
  assumes "h l = Some n" "chain h (ln_next n) as ds" "distinct (l # as)" "q \<notin> set (l # as)"
    "h (last (l # as)) = Some e"
  defines "h' \<equiv> h(q \<mapsto> \<lparr>ln_data = Some d, ln_next = None\<rparr>, last (l # as) \<mapsto> e\<lparr>ln_next := Some q\<rparr>)"
  shows "\<exists>n'. h' l = Some n' \<and> ln_data n' = ln_data n \<and> chain h' (ln_next n') (as @ [q]) (ds @ [d])"
  using assms(1-5) unfolding h'_def
proof (induction as arbitrary: l n ds)
  case Nil
  then show ?case by auto
next
  case (Cons a as)
  obtain m x ds' where m: "ds = x # ds'" "ln_next n = Some a" "h a = Some m" "ln_data m = Some x"
    "chain h (ln_next m) as ds'"
    using Cons.prems(2) by (auto elim: chain_ConsE)
  have l: "l \<noteq> last (a # as)" "l \<noteq> q" using Cons.prems(3,4) by (auto split: if_splits)
  from Cons.IH [OF m(3,5)] Cons.prems l m show ?case by auto
qed

lemma LinkedList_append_list_at:
  assumes "list_at h l ds" "h p = None"
  shows "\<exists>h'. LinkedList_append (Some p) h l d = Some (h', Some p) \<and> list_at h' l (ds @ [d])"
proof -
  obtain as n where c: "distinct (l # as)" "h l = Some n" "ln_data n = None" "chain h (ln_next n) as ds"
    using assms(1) by (auto simp: list_at_def list_cells_def split: option.splits)
  let ?g = "h(p \<mapsto> \<lparr>ln_data = Some d, ln_next = None\<rparr>)"
  have p: "p \<notin> set (l # as)" using c(2) chain_allocated [OF c(4), of p] assms(2) by auto
  have g: "?g l = Some n" "chain ?g (ln_next n) as ds" using c p by (auto simp: chain_frame)
  have last: "LinkedList_getLastElement ?g l = Some (last (l # as))"
    by (rule getLast_chain [OF g])
  have "last (l # as) \<in> set (l # as)" by (rule last_in_set) simp
  then obtain e where e: "h (last (l # as)) = Some e" "last (l # as) \<noteq> p"
    using c(2) chain_allocated [OF c(4)] p by (cases "last (l # as) = l") auto
  obtain n' where
    "(?g(last (l # as) \<mapsto> e\<lparr>ln_next := Some p\<rparr>)) l = Some n'" "ln_data n' = ln_data n"
    "chain (?g(last (l # as) \<mapsto> e\<lparr>ln_next := Some p\<rparr>)) (ln_next n') (as @ [p]) (ds @ [d])"
    using chain_snoc [OF c(2,4,1) p e(1), of d] by blast
  moreover have "distinct (l # as @ [p])" using c(1) p by auto
  ultimately have "list_at (?g(last (l # as) \<mapsto> e\<lparr>ln_next := Some p\<rparr>)) l (ds @ [d])"
    unfolding list_at_def list_cells_def by (intro exI [of _ "as @ [p]"]) (simp add: c(3) del: last.simps fun_upd_apply)
  then show ?thesis using last e
    by (simp add: LinkedList_append_def LinkedList_create_def del: last.simps)
qed

lemma size_loop_chain:
  "h l = Some n \<Longrightarrow> chain h (ln_next n) as ds \<Longrightarrow> size_loop h l k = Some (k + length ds)"
proof (induction as arbitrary: l n ds k)
  case Nil
  then show ?case by (simp add: size_loop.simps)
next
  case (Cons a as)
  then obtain m x ds' where m: "ds = x # ds'" "ln_next n = Some a" "h a = Some m"
    "chain h (ln_next m) as ds'"
    by (auto elim: chain_ConsE)
  with Cons.IH [OF m(3,4)] Cons.prems(1) show ?case by (simp add: size_loop.simps [of h l])
qed

lemma contains_loop_chain: "chain h p as ds \<Longrightarrow> contains_loop h p d = Some (d \<in> set ds)"
  by (induction as arbitrary: p ds) (auto simp: contains_loop.simps elim!: chain_ConsE)

lemma remove_loop_chain:
  assumes "h l = Some n" "chain h (ln_next n) as ds" "distinct (l # as)"
  shows "\<exists>h' n' as'. remove_loop h l (ln_next n) d = Some (h', d \<in> set ds) \<and> h' l = Some n' \<and>
    ln_data n' = ln_data n \<and> chain h' (ln_next n') as' (remove1 d ds) \<and> set as' \<subseteq> set as \<and>
    distinct as' \<and> (\<forall>a. a \<notin> set (l # as) \<longrightarrow> h' a = h a)"
  using assms
proof (induction as arbitrary: l n ds)
  case Nil
  then show ?case by (auto simp: remove_loop.simps)
next
  case (Cons a as)
  obtain m x ds' where m: "ds = x # ds'" "ln_next n = Some a" "h a = Some m" "ln_data m = Some x"
    "chain h (ln_next m) as ds'"
    using Cons.prems(2) by (auto elim: chain_ConsE)
  show ?case
  proof (cases "x = d")
    case True
    define g where "g = (h(l \<mapsto> n\<lparr>ln_next := ln_next m\<rparr>))(a := None)"
    have "remove_loop h l (ln_next n) d = Some (g, True)"
      using m True Cons.prems(1) by (simp add: remove_loop.simps g_def)
    moreover have "chain g (ln_next m) as ds'"
      unfolding g_def using m(5) Cons.prems(3) by (subst chain_frame, simp)+
    moreover have "g l = Some (n\<lparr>ln_next := ln_next m\<rparr>)" "\<forall>b. b \<notin> set (l # a # as) \<longrightarrow> g b = h b"
      using Cons.prems(3) by (auto simp: g_def)
    ultimately show ?thesis using Cons.prems m True
      by (intro exI [of _ g] exI [of _ "n\<lparr>ln_next := ln_next m\<rparr>"] exI [of _ as]) auto
  next
    case False
    from Cons.IH [OF m(3,5)] Cons.prems(3) obtain h' n' as' where
      "remove_loop h a (ln_next m) d = Some (h', d \<in> set ds')" "h' a = Some n'" "ln_data n' = ln_data m"
      "chain h' (ln_next n') as' (remove1 d ds')" "set as' \<subseteq> set as" "distinct as'"
      "\<forall>b. b \<notin> set (a # as) \<longrightarrow> h' b = h b" by auto
    then show ?thesis using Cons.prems m False
      by (intro exI [of _ h'] exI [of _ n] exI [of _ "a # as'"])
        (auto simp: remove_loop.simps [of h l])
  qed
qed

lemma destroy_loop_chain:
  assumes "h l = Some n" "chain h (ln_next n) as ds" "distinct (l # as)"
  shows "destroy_loop h l del =
    Some (h |` (- set (l # as)), (case ln_data n of Some d \<Rightarrow> del @ [d] | None \<Rightarrow> del) @ ds)"
  using assms
proof (induction as arbitrary: h l n ds del)
  case Nil
  then show ?case
    by (auto simp: destroy_loop.simps restrict_map_def fun_eq_iff Let_def split: option.splits)
next
  case (Cons a as)
  obtain m x ds' where m: "ds = x # ds'" "ln_next n = Some a" "h a = Some m" "ln_data m = Some x"
    "chain h (ln_next m) as ds'"
    using Cons.prems(2) by (auto elim: chain_ConsE)
  define g where "g = h(l := None)"
  have "g a = Some m" "chain g (ln_next m) as ds'" "distinct (a # as)"
    using m Cons.prems(3) by (auto simp: g_def chain_frame)
  note IH = Cons.IH [OF this]
  have g: "g |` (- set (a # as)) = h |` (- set (l # a # as))"
    by (auto simp: restrict_map_def fun_eq_iff g_def)
  have "destroy_loop h l del = destroy_loop g a (case ln_data n of Some d \<Rightarrow> del @ [d] | None \<Rightarrow> del)"
    using m Cons.prems(1) by (simp add: destroy_loop.simps [of h l] g_def)
  also have "\<dots> = Some (h |` (- set (l # a # as)), (case ln_data n of Some d \<Rightarrow> del @ [d] | None \<Rightarrow> del) @ ds)"
    unfolding IH g using m by simp
  finally show ?case .
qed

lemma list_cells_cases:
  assumes "list_at h l ds"
  obtains as n where "distinct (l # as)" "h l = Some n" "ln_data n = None" "chain h (ln_next n) as ds"
  using assms by (auto simp: list_at_def list_cells_def split: option.splits)

lemma get_loop_chain:
  "chain h p as ds \<Longrightarrow> i < length ds \<Longrightarrow> get_loop h p i = Some (Some (as ! i))"
proof (induction i arbitrary: p as ds)
  case 0
  then show ?case by (cases as) (auto elim: chain_ConsE)
next
  case (Suc i)
  then obtain a as' where as: "as = a # as'" by (cases as) auto
  obtain n d ds' where c: "ds = d # ds'" "p = Some a" "h a = Some n" "chain h (ln_next n) as' ds'"
    using Suc.prems(1) as by (auto elim: chain_ConsE)
  obtain b as'' where "as' = b # as''" using c Suc.prems by (cases as') auto
  then have "ln_next n = Some b" using c(4) by (auto elim: chain_ConsE)
  then show ?case using Suc.IH [OF c(4)] Suc.prems c as by (simp add: LinkedList_getNext_def)
qed

lemma chain_nth:
  "chain h p as ds \<Longrightarrow> i < length ds \<Longrightarrow> \<exists>n. h (as ! i) = Some n \<and> ln_data n = Some (ds ! i)"
proof (induction i arbitrary: p as ds)
  case 0
  then show ?case by (cases as) (auto elim: chain_ConsE)
next
  case (Suc i)
  then show ?case by (cases as) (auto elim!: chain_ConsE)
qed


lemma LinkedList_remove_list_at:
  assumes "list_at h l ds"
  shows "\<exists>h'. LinkedList_remove h l d = Some (h', d \<in> set ds) \<and> list_at h' l (remove1 d ds)"
proof -
  from assms obtain as n where c: "distinct (l # as)" "h l = Some n" "ln_data n = None"
    "chain h (ln_next n) as ds" by (rule list_cells_cases)
  obtain h' n' as' where r: "remove_loop h l (ln_next n) d = Some (h', d \<in> set ds)" "h' l = Some n'"
    "ln_data n' = ln_data n" "chain h' (ln_next n') as' (remove1 d ds)" "set as' \<subseteq> set as" "distinct as'"
    using remove_loop_chain [OF c(2,4,1)] by blast
  then have "list_cells h' l as' (remove1 d ds)" using c by (auto simp: list_cells_def)
  with r c(2) show ?thesis by (auto simp: LinkedList_remove_def list_at_def)
qed

text \<open>
  C21: Every list operation implements the operation on the sequence of data a well-formed
  list represents: \<open>LinkedList_append\<close> at a fresh element adds at the end, \<open>LinkedList_size\<close>
  is the length, \<open>LinkedList_contains\<close> membership, \<open>LinkedList_remove\<close> removes the first
  occurrence and reports whether there was one, \<open>LinkedList_get\<close> with \<open>LinkedList_getData\<close>
  reads by index, and \<open>LinkedList_destroyDeep\<close> hands every datum to the delete function
  exactly once, in order. All of them return.
\<close>

theorem LinkedList_refines_sequence:
  assumes "list_at h l ds"
  shows "LinkedList_size h l = Some (length ds) \<and>
    LinkedList_contains h l d = Some (d \<in> set ds) \<and>
    (h p = None \<longrightarrow> (\<exists>h'. LinkedList_append (Some p) h l d = Some (h', Some p) \<and> list_at h' l (ds @ [d]))) \<and>
    (\<exists>h'. LinkedList_remove h l d = Some (h', d \<in> set ds) \<and> list_at h' l (remove1 d ds)) \<and>
    (i < length ds \<longrightarrow>
      (\<exists>a. LinkedList_get h l i = Some (Some a) \<and> LinkedList_getData h a = Some (Some (ds ! i)))) \<and>
    (\<exists>h'. LinkedList_destroyDeep h l = Some (h', ds) \<and> h' l = None)"
proof -
  from assms obtain as n where c: "distinct (l # as)" "h l = Some n" "ln_data n = None"
    "chain h (ln_next n) as ds" by (rule list_cells_cases)
  have "LinkedList_size h l = Some (length ds)"
    using size_loop_chain [OF c(2,4)] by (simp add: LinkedList_size_def)
  moreover have "LinkedList_contains h l d = Some (d \<in> set ds)"
    using contains_loop_chain [OF c(4)] c(2) by (simp add: LinkedList_contains_def)
  moreover have "\<exists>a. LinkedList_get h l i = Some (Some a) \<and> LinkedList_getData h a = Some (Some (ds ! i))"
    if "i < length ds"
    using get_loop_chain [OF c(4) that] chain_nth [OF c(4) that] c(2)
    by (auto simp: LinkedList_get_def LinkedList_getNext_def LinkedList_getData_def)
  moreover have "\<exists>h'. LinkedList_destroyDeep h l = Some (h', ds) \<and> h' l = None"
    using destroy_loop_chain [OF c(2,4,1), of "[]"] c(3)
    by (simp add: LinkedList_destroyDeep_def)
  ultimately show ?thesis using LinkedList_append_list_at [OF assms] LinkedList_remove_list_at [OF assms]
    by blast
qed

text \<open>A list of two elements, for the witnesses.\<close>

definition two_element_heap :: "nat lheap" where
  "two_element_heap =
     [1 \<mapsto> \<lparr>ln_data = None, ln_next = Some 2\<rparr>,
      2 \<mapsto> \<lparr>ln_data = Some 7, ln_next = Some 3\<rparr>,
      3 \<mapsto> \<lparr>ln_data = Some 8, ln_next = None\<rparr>]"

lemma two_element_list: "list_at two_element_heap 1 [7, 8]"
  unfolding list_at_def list_cells_def
  by (intro exI [of _ "[2, 3]"]) (simp add: two_element_heap_def)

theorem LinkedList_refines_sequence_witness:
  "LinkedList_size two_element_heap 1 = Some 2 \<and>
   LinkedList_contains two_element_heap 1 8 = Some True \<and>
   (\<exists>h'. LinkedList_append (Some 4) two_element_heap 1 8 = Some (h', Some 4) \<and> list_at h' 1 [7, 8, 8]) \<and>
   (\<exists>h'. LinkedList_remove two_element_heap 1 8 = Some (h', True) \<and> list_at h' 1 [7])"
  using LinkedList_refines_sequence [OF two_element_list, of 8 4 0]
  by (simp add: two_element_heap_def)

section \<open>The interface its users rely on\<close>

text \<open>
  A container of pointers as the libraries use it: elements are added with an answer of the
  allocator, counted, looked up and removed.
\<close>

locale pointer_list =
  fixes rep :: "'s \<Rightarrow> 'd list \<Rightarrow> bool"
    and fresh :: "'a \<Rightarrow> 's \<Rightarrow> bool"
    and add :: "'a \<Rightarrow> 's \<Rightarrow> 'd \<Rightarrow> 's option"
    and count :: "'s \<Rightarrow> nat option"
    and member :: "'s \<Rightarrow> 'd \<Rightarrow> bool option"
    and remove :: "'s \<Rightarrow> 'd \<Rightarrow> ('s \<times> bool) option"
  assumes add: "rep s ds \<Longrightarrow> fresh a s \<Longrightarrow> \<exists>s'. add a s d = Some s' \<and> rep s' (ds @ [d])"
    and count: "rep s ds \<Longrightarrow> count s = Some (length ds)"
    and member: "rep s ds \<Longrightarrow> member s d = Some (d \<in> set ds)"
    and remove: "rep s ds \<Longrightarrow> \<exists>s'. remove s d = Some (s', d \<in> set ds) \<and> rep s' (remove1 d ds)"
begin

lemma add_then_member:
  "rep s ds \<Longrightarrow> fresh a s \<Longrightarrow> \<exists>s'. add a s d = Some s' \<and> member s' d = Some True"
  using add [of s ds a d] member by fastforce

lemma remove_added:
  assumes "rep s ds" "fresh a s" "d \<notin> set ds"
  shows "\<exists>s' s''. add a s d = Some s' \<and> count s' = Some (Suc (length ds)) \<and>
    remove s' d = Some (s'', True) \<and> rep s'' ds"
proof -
  obtain s' where s': "add a s d = Some s'" "rep s' (ds @ [d])" using add [OF assms(1,2)] by blast
  obtain s'' where "remove s' d = Some (s'', d \<in> set (ds @ [d]))" "rep s'' (remove1 d (ds @ [d]))"
    using remove [OF s'(2)] by blast
  moreover have "remove1 d (ds @ [d]) = ds" using assms(3) by (simp add: remove1_append)
  ultimately show ?thesis using s' count [OF s'(2)] by auto
qed

lemma remove_absent:
  "rep s ds \<Longrightarrow> d \<notin> set ds \<Longrightarrow> \<exists>s'. remove s d = Some (s', False) \<and> rep s' ds"
  using remove [of s ds d] by (auto simp: remove1_idem)

end

interpretation linked_list: pointer_list
  "\<lambda>h ds. list_at h l ds" "\<lambda>p h. h p = None" "\<lambda>p h d. LinkedList_add (Some p) h l d"
  "\<lambda>h. LinkedList_size h l" "\<lambda>h d. LinkedList_contains h l d" "\<lambda>h d. LinkedList_remove h l d" for l
proof (unfold_locales, goal_cases)
  case (1 s ds a d)
  then show ?case using LinkedList_append_list_at [of s l ds a d] by (auto simp: LinkedList_add_def)
next
  case (2 s ds)
  then obtain as n where "distinct (l # as)" "s l = Some n" "ln_data n = None" "chain s (ln_next n) as ds"
    by (rule list_cells_cases)
  then show ?case using size_loop_chain [of s l n as ds] by (simp add: LinkedList_size_def)
next
  case (3 s ds d)
  then obtain as n where "distinct (l # as)" "s l = Some n" "ln_data n = None" "chain s (ln_next n) as ds"
    by (rule list_cells_cases)
  then show ?case using contains_loop_chain [of s "ln_next n" as ds] by (simp add: LinkedList_contains_def)
next
  case (4 s ds d)
  then show ?case by (rule LinkedList_remove_list_at)
qed

text \<open>
  Adding a pointer that is not yet in the list and removing it again leaves the list's
  contents as they were, whatever elements were there: the way connections, transfer sets and
  reports enter and leave the server's lists.
\<close>

theorem LinkedList_add_remove:
  assumes "list_at h l ds" "h p = None" "d \<notin> set ds"
  shows "\<exists>h' h''. LinkedList_add (Some p) h l d = Some h' \<and>
    LinkedList_size h' l = Some (Suc (length ds)) \<and>
    LinkedList_remove h' l d = Some (h'', True) \<and> list_at h'' l ds"
  using assms by (rule linked_list.remove_added)

theorem LinkedList_add_remove_witness:
  "\<exists>h' h''. LinkedList_add (Some 4) two_element_heap 1 9 = Some h' \<and>
    LinkedList_size h' 1 = Some (Suc (length [7, 8 :: nat])) \<and>
    LinkedList_remove h' 1 9 = Some (h'', True) \<and> list_at h'' 1 [7, 8]"
  by (rule LinkedList_add_remove [OF two_element_list]) (simp_all add: two_element_heap_def)

end
