(* ===== verification/AvlTree.thy ===== *)
theory AvlTree
  imports Prelude
begin

text \<open>
  \<^verbatim>\<open>libmms/src/common/avl_tree.c\<close>: the balanced search tree keyed by addresses that holds the
  entries of the bilateral tables and of the data model.

  A tree is a pointer to a node or NULL; nodes are owned by one parent, so the tree is a
  datatype. \<open>void*\<close> keys are any linear order, values any type. Rotations follow child pointers
  without a test: on a missing child the result is \<open>None\<close>. The theorems show this cannot happen
  on a tree built by \<open>AvlTree_add\<close> with distinct keys, that lookups answer what was added, and
  that the depth is logarithmic.
\<close>

datatype ('k, 'v) AvlTreeNode =
    NullNode
  | AvlNode (avl_left: "('k, 'v) AvlTreeNode") (avl_key: 'k) (avl_value: 'v)
      (avl_right: "('k, 'v) AvlTreeNode") (avl_height: nat)

text \<open>
  A missing value is replaced by the key itself; \<open>key_pointer\<close> is the conversion of the key
  pointer to a value pointer.
\<close>

definition AvlTreeNode_create :: "('k \<Rightarrow> 'v) \<Rightarrow> 'k \<Rightarrow> 'v option \<Rightarrow> ('k, 'v) AvlTreeNode" where
  "AvlTreeNode_create key_pointer key val =
     AvlNode NullNode key (case val of Some v \<Rightarrow> v | None \<Rightarrow> key_pointer key) NullNode 1"

definition AvlTree_create :: "('k, 'v) AvlTreeNode" where
  "AvlTree_create = NullNode"

definition getMax :: "nat \<Rightarrow> nat \<Rightarrow> nat" where
  "getMax a b = (if a > b then a else b)"

fun nodeHeight :: "('k, 'v) AvlTreeNode \<Rightarrow> nat" where
  "nodeHeight NullNode = 0"
| "nodeHeight (AvlNode _ _ _ _ h) = h"

text \<open>A node with its height recomputed from its children.\<close>

definition set_height :: "('k, 'v) AvlTreeNode \<Rightarrow> 'k \<Rightarrow> 'v \<Rightarrow> ('k, 'v) AvlTreeNode \<Rightarrow> ('k, 'v) AvlTreeNode" where
  "set_height l k v r = AvlNode l k v r (1 + getMax (nodeHeight l) (nodeHeight r))"

fun rightRotate :: "('k, 'v) AvlTreeNode \<Rightarrow> ('k, 'v) AvlTreeNode option" where
  "rightRotate (AvlNode (AvlNode xl xk xv t2 _) yk yv yr _) =
     Some (set_height xl xk xv (set_height t2 yk yv yr))"
| "rightRotate _ = None"

fun leftRotate :: "('k, 'v) AvlTreeNode \<Rightarrow> ('k, 'v) AvlTreeNode option" where
  "leftRotate (AvlNode xl xk xv (AvlNode t2 yk yv yr _) _) =
     Some (set_height (set_height xl xk xv t2) yk yv yr)"
| "leftRotate _ = None"

fun node_key :: "('k, 'v) AvlTreeNode \<Rightarrow> 'k option" where
  "node_key NullNode = None"
| "node_key (AvlNode _ k _ _ _) = Some k"

text \<open>
  The part of \<open>AvlTreeNode_add\<close> after the recursive call: new height, balance and the four
  rotation cases, tried in the code's order. The key of a child is read only when the balance
  is off on that side.
\<close>

definition rebalance ::
    "('k::linorder, 'v) AvlTreeNode \<Rightarrow> 'k \<Rightarrow> 'v \<Rightarrow> ('k, 'v) AvlTreeNode \<Rightarrow> 'k \<Rightarrow> ('k, 'v) AvlTreeNode option" where
  "rebalance l k v r nkey =
     (let self = set_height l k v r;
          balance = int (nodeHeight l) - int (nodeHeight r) in
      if balance > 1 then do {
        lkey \<leftarrow> node_key l;
        if nkey < lkey then rightRotate self
        else if nkey > lkey then do {
          l \<leftarrow> leftRotate l;
          rightRotate (AvlNode l k v r (nodeHeight self)) }
        else Some self }
      else if balance < - 1 then do {
        rkey \<leftarrow> node_key r;
        if nkey > rkey then leftRotate self
        else if nkey < rkey then do {
          r \<leftarrow> rightRotate r;
          leftRotate (AvlNode l k v r (nodeHeight self)) }
        else Some self }
      else Some self)"

fun AvlTreeNode_add ::
    "('k::linorder, 'v) AvlTreeNode \<Rightarrow> 'k \<Rightarrow> 'v \<Rightarrow> ('k, 'v) AvlTreeNode option" where
  "AvlTreeNode_add NullNode nkey nval = Some (AvlNode NullNode nkey nval NullNode 1)"
| "AvlTreeNode_add (AvlNode l k v r h) nkey nval =
     (if nkey < k then do {
        l \<leftarrow> AvlTreeNode_add l nkey nval;
        rebalance l k v r nkey }
      else do {
        r \<leftarrow> AvlTreeNode_add r nkey nval;
        rebalance l k v r nkey })"

definition AvlTree_add ::
    "('k::linorder \<Rightarrow> 'v) \<Rightarrow> ('k, 'v) AvlTreeNode \<Rightarrow> 'k \<Rightarrow> 'v option \<Rightarrow> ('k, 'v) AvlTreeNode option" where
  "AvlTree_add key_pointer root key val =
     (let node = AvlTreeNode_create key_pointer key val in
      AvlTreeNode_add root (avl_key node) (avl_value node))"

fun AvlTreeNode_find :: "('k::linorder, 'v) AvlTreeNode \<Rightarrow> 'k \<Rightarrow> 'v option" where
  "AvlTreeNode_find NullNode key = None"
| "AvlTreeNode_find (AvlNode l k v r _) key =
     (if k = key then Some v
      else if k > key then AvlTreeNode_find l key
      else AvlTreeNode_find r key)"

definition AvlTree_find :: "('k::linorder, 'v) AvlTreeNode \<Rightarrow> 'k \<Rightarrow> 'v option" where
  "AvlTree_find root key = AvlTreeNode_find root key"

definition AvlTree_getMaxDepth :: "('k, 'v) AvlTreeNode \<Rightarrow> nat" where
  "AvlTree_getMaxDepth root = nodeHeight root"

text \<open>The values handed to the delete function, in order: right subtree, left subtree, node.\<close>

fun AvlTreeNode_destroyDeep :: "('k, 'v) AvlTreeNode \<Rightarrow> 'v list" where
  "AvlTreeNode_destroyDeep NullNode = []"
| "AvlTreeNode_destroyDeep (AvlNode l _ v r _) =
     AvlTreeNode_destroyDeep r @ AvlTreeNode_destroyDeep l @ [v]"

section \<open>Invariant\<close>

fun entries :: "('k, 'v) AvlTreeNode \<Rightarrow> ('k \<times> 'v) list" where
  "entries NullNode = []"
| "entries (AvlNode l k v r _) = entries l @ (k, v) # entries r"

fun balanced :: "('k, 'v) AvlTreeNode \<Rightarrow> bool" where
  "balanced NullNode \<longleftrightarrow> True"
| "balanced (AvlNode l _ _ r h) \<longleftrightarrow> balanced l \<and> balanced r \<and>
     h = 1 + max (nodeHeight l) (nodeHeight r) \<and>
     nodeHeight l \<le> nodeHeight r + 1 \<and> nodeHeight r \<le> nodeHeight l + 1"

definition avl_ok :: "('k::linorder, 'v) AvlTreeNode \<Rightarrow> bool" where
  "avl_ok t \<longleftrightarrow> balanced t \<and> sorted_wrt (<) (map fst (entries t))"

lemma getMax_max [simp]: "getMax a b = max a b"
  by (simp add: getMax_def)

lemma entries_set_height [simp]: "entries (set_height l k v r) = entries l @ (k, v) # entries r"
  by (simp add: set_height_def)

lemma nodeHeight_set_height [simp]:
  "nodeHeight (set_height l k v r) = 1 + max (nodeHeight l) (nodeHeight r)"
  by (simp add: set_height_def)

lemma balanced_set_height [simp]:
  "balanced (set_height l k v r) \<longleftrightarrow> balanced l \<and> balanced r \<and>
     nodeHeight l \<le> nodeHeight r + 1 \<and> nodeHeight r \<le> nodeHeight l + 1"
  by (simp add: set_height_def)

lemma nodeHeight_0 [simp]: "balanced t \<Longrightarrow> nodeHeight t = 0 \<longleftrightarrow> t = NullNode"
  by (cases t) auto

section \<open>Insertion\<close>

text \<open>Where the new key went: the list of entries with it at its place.\<close>

fun insert_entry :: "'k::linorder \<Rightarrow> 'v \<Rightarrow> ('k \<times> 'v) list \<Rightarrow> ('k \<times> 'v) list" where
  "insert_entry k v [] = [(k, v)]"
| "insert_entry k v (e # es) = (if k < fst e then (k, v) # e # es else e # insert_entry k v es)"

lemma insert_entry_append:
  "\<forall>e \<in> set xs. \<not> k < fst e \<Longrightarrow> insert_entry k v (xs @ ys) = xs @ insert_entry k v ys"
  by (induction xs) auto

lemma insert_entry_left:
  "k < k' \<Longrightarrow> insert_entry k v (xs @ (k', v') # ys) = insert_entry k v xs @ (k', v') # ys"
  by (induction xs) auto

text \<open>
  A tree one of whose subtrees grew by one is rebalanced by the rotations, provided the new
  key tells which grandchild grew.
\<close>

lemma rebalance_ok:
  assumes "balanced l" "balanced r"
    "nodeHeight l \<le> nodeHeight r + 2" "nodeHeight r \<le> nodeHeight l + 2"
    and left: "\<And>ll lk lv lr lh. l = AvlNode ll lk lv lr lh \<Longrightarrow> nodeHeight l = nodeHeight r + 2 \<Longrightarrow>
      nkey \<noteq> lk \<and> (nkey < lk \<longrightarrow> nodeHeight lr < nodeHeight ll) \<and> (nkey > lk \<longrightarrow> nodeHeight ll < nodeHeight lr)"
    and right: "\<And>rl rk rv rr rh. r = AvlNode rl rk rv rr rh \<Longrightarrow> nodeHeight r = nodeHeight l + 2 \<Longrightarrow>
      nkey \<noteq> rk \<and> (nkey < rk \<longrightarrow> nodeHeight rr < nodeHeight rl) \<and> (nkey > rk \<longrightarrow> nodeHeight rl < nodeHeight rr)"
  shows "\<exists>t. rebalance l k v r nkey = Some t \<and> balanced t \<and>
    entries t = entries l @ (k, v) # entries r \<and>
    (nodeHeight l \<le> nodeHeight r + 1 \<and> nodeHeight r \<le> nodeHeight l + 1 \<longrightarrow> t = set_height l k v r) \<and>
    (nodeHeight l = nodeHeight r + 2 \<longrightarrow> nodeHeight t = nodeHeight r + 2) \<and>
    (nodeHeight r = nodeHeight l + 2 \<longrightarrow> nodeHeight t = nodeHeight l + 2)"
proof -
  consider "nodeHeight l \<le> nodeHeight r + 1 \<and> nodeHeight r \<le> nodeHeight l + 1"
    | "nodeHeight l = nodeHeight r + 2" | "nodeHeight r = nodeHeight l + 2"
    using assms(3,4) by linarith
  then show ?thesis
  proof cases
    case 1
    then show ?thesis using assms(1,2) by (simp add: rebalance_def Let_def)
  next
    case 2
    then obtain ll lk lv lr lh where l: "l = AvlNode ll lk lv lr lh" by (cases l) auto
    note L = left [OF l 2]
    consider "nkey < lk" | "nkey > lk" using L by force
    then show ?thesis
    proof cases
      case a: 1
      then show ?thesis using 2 L assms(1,2) l
        by (auto simp: rebalance_def Let_def set_height_def max_def)
    next
      case b: 2
      with L have "nodeHeight lr \<noteq> 0" by linarith
      then obtain a k' v' b h where lr: "lr = AvlNode a k' v' b h" by (cases lr) auto
      show ?thesis using 2 L assms(1,2) l lr b
        by (auto simp: rebalance_def Let_def set_height_def max_def split: if_splits)
    qed
  next
    case 3
    then obtain rl rk rv rr rh where r: "r = AvlNode rl rk rv rr rh" by (cases r) auto
    note R = right [OF r 3]
    consider "nkey > rk" | "nkey < rk" using R by force
    then show ?thesis
    proof cases
      case a: 1
      then show ?thesis using 3 R assms(1,2) r
        by (auto simp: rebalance_def Let_def set_height_def max_def)
    next
      case b: 2
      with R have "nodeHeight rl \<noteq> 0" by linarith
      then obtain a k' v' b h where rl: "rl = AvlNode a k' v' b h" by (cases rl) auto
      show ?thesis using 3 R assms(1,2) r rl b
        by (auto simp: rebalance_def Let_def set_height_def max_def split: if_splits)
    qed
  qed
qed


definition grown :: "('k::linorder, 'v) AvlTreeNode \<Rightarrow> 'k \<Rightarrow> bool" where
  "grown t nkey \<longleftrightarrow> (\<forall>l k v r h. t = AvlNode l k v r h \<longrightarrow> nkey \<noteq> k \<and>
     (nkey < k \<longrightarrow> nodeHeight r < nodeHeight l) \<and> (nkey > k \<longrightarrow> nodeHeight l < nodeHeight r))"

lemma AvlTreeNode_add_ok:
  assumes "balanced t" "sorted_wrt (<) (map fst (entries t))" "nkey \<notin> fst ` set (entries t)"
  shows "\<exists>t'. AvlTreeNode_add t nkey nval = Some t' \<and> balanced t' \<and>
    entries t' = insert_entry nkey nval (entries t) \<and>
    (nodeHeight t' = nodeHeight t \<or> nodeHeight t' = nodeHeight t + 1) \<and>
    (nodeHeight t' = nodeHeight t + 1 \<longrightarrow> t \<noteq> NullNode \<longrightarrow> grown t' nkey)"
  using assms
proof (induction t)
  case NullNode
  then show ?case by simp
next
  case (AvlNode l k v r h)
  have bal: "balanced l" "balanced r" "nodeHeight l \<le> nodeHeight r + 1" "nodeHeight r \<le> nodeHeight l + 1"
    and srt: "sorted_wrt (<) (map fst (entries l))" "sorted_wrt (<) (map fst (entries r))"
    and sep: "\<forall>e \<in> set (entries l). fst e < k"
    and new: "nkey \<noteq> k" "nkey \<notin> fst ` set (entries l)" "nkey \<notin> fst ` set (entries r)"
    using AvlNode.prems by (auto simp: sorted_wrt_append)
  show ?case
  proof (cases "nkey < k")
    case True
    obtain l' where l': "AvlTreeNode_add l nkey nval = Some l'" "balanced l'"
      "entries l' = insert_entry nkey nval (entries l)"
      "nodeHeight l' = nodeHeight l \<or> nodeHeight l' = nodeHeight l + 1"
      "nodeHeight l' = nodeHeight l + 1 \<longrightarrow> l \<noteq> NullNode \<longrightarrow> grown l' nkey"
      using AvlNode.IH(1) [OF bal(1) srt(1) new(2)] by blast
    obtain t where t: "rebalance l' k v r nkey = Some t" "balanced t" "entries t = entries l' @ (k, v) # entries r"
      "nodeHeight l' \<le> nodeHeight r + 1 \<and> nodeHeight r \<le> nodeHeight l' + 1 \<longrightarrow> t = set_height l' k v r"
      "nodeHeight l' = nodeHeight r + 2 \<longrightarrow> nodeHeight t = nodeHeight r + 2"
      using rebalance_ok [of l' r nkey k v] l' bal by (fastforce simp: grown_def)
    have "entries t = insert_entry nkey nval (entries (AvlNode l k v r h))"
      using t(3) l'(3) True by (simp add: insert_entry_left)
    moreover have "nodeHeight t = nodeHeight (AvlNode l k v r h) \<or>
        nodeHeight t = nodeHeight (AvlNode l k v r h) + 1 \<and> grown t nkey"
    proof (cases "nodeHeight l' = nodeHeight r + 2")
      case True
      then show ?thesis using t(5) l'(4) bal AvlNode.prems(1) by auto
    next
      case False
      then have "t = set_height l' k v r" using t(4) l'(4) bal by linarith
      then show ?thesis using l'(4) bal AvlNode.prems(1) True
        by (auto simp: grown_def set_height_def max_def)
    qed
    ultimately show ?thesis using True l'(1) t(1,2) by auto
  next
    case False
    then have gt: "nkey > k" using new(1) by simp
    obtain r' where r': "AvlTreeNode_add r nkey nval = Some r'" "balanced r'"
      "entries r' = insert_entry nkey nval (entries r)"
      "nodeHeight r' = nodeHeight r \<or> nodeHeight r' = nodeHeight r + 1"
      "nodeHeight r' = nodeHeight r + 1 \<longrightarrow> r \<noteq> NullNode \<longrightarrow> grown r' nkey"
      using AvlNode.IH(2) [OF bal(2) srt(2) new(3)] by blast
    obtain t where t: "rebalance l k v r' nkey = Some t" "balanced t" "entries t = entries l @ (k, v) # entries r'"
      "nodeHeight l \<le> nodeHeight r' + 1 \<and> nodeHeight r' \<le> nodeHeight l + 1 \<longrightarrow> t = set_height l k v r'"
      "nodeHeight r' = nodeHeight l + 2 \<longrightarrow> nodeHeight t = nodeHeight l + 2"
      using rebalance_ok [of l r' nkey k v] r' bal by (fastforce simp: grown_def)
    have "\<forall>e \<in> set (entries l). \<not> nkey < fst e" using sep gt by fastforce
    moreover have "\<not> nkey < k" using gt by simp
    ultimately have "entries t = insert_entry nkey nval (entries (AvlNode l k v r h))"
      using t(3) r'(3) gt insert_entry_append [of "entries l" nkey nval "(k, v) # entries r"] by simp
    moreover have "nodeHeight t = nodeHeight (AvlNode l k v r h) \<or>
        nodeHeight t = nodeHeight (AvlNode l k v r h) + 1 \<and> grown t nkey"
    proof (cases "nodeHeight r' = nodeHeight l + 2")
      case True
      then show ?thesis using t(5) r'(4) bal AvlNode.prems(1) by auto
    next
      case False
      then have "t = set_height l k v r'" using t(4) r'(4) bal by linarith
      then show ?thesis using r'(4) bal AvlNode.prems(1) gt
        by (auto simp: grown_def set_height_def max_def)
    qed
    ultimately show ?thesis using False r'(1) t(1,2) by auto
  qed
qed

lemma map_of_insert_entry:
  "nkey \<notin> fst ` set es \<Longrightarrow> map_of (insert_entry nkey v es) = (map_of es)(nkey \<mapsto> v)"
  by (induction es) (auto simp: fun_eq_iff)

lemma set_insert_entry: "set (insert_entry k v es) = insert (k, v) (set es)"
  by (induction es) auto

lemma sorted_insert_entry:
  "sorted_wrt (<) (map fst es) \<Longrightarrow> k \<notin> fst ` set es \<Longrightarrow> sorted_wrt (<) (map fst (insert_entry k v es))"
  by (induction es) (fastforce simp: set_insert_entry)+

lemma find_map_of:
  "sorted_wrt (<) (map fst (entries t)) \<Longrightarrow> AvlTreeNode_find t key = map_of (entries t) key"
proof (induction t)
  case (AvlNode l k v r h)
  have "\<forall>e \<in> set (entries l). fst e < k" "\<forall>e \<in> set (entries r). k < fst e"
    using AvlNode.prems by (auto simp: sorted_wrt_append)
  then have "key \<ge> k \<Longrightarrow> map_of (entries l) key = None" "key \<le> k \<Longrightarrow> map_of (entries r) key = None"
    by (force simp: map_of_eq_None_iff)+
  then show ?case using AvlNode
    by (auto simp: sorted_wrt_append map_add_def split: option.splits)
qed simp

lemma balanced_size: "balanced t \<Longrightarrow> 2 ^ (nodeHeight t div 2) \<le> length (entries t) + 1"
proof (induction t)
  case (AvlNode l k v r h)
  have IH: "2 ^ ((nodeHeight l) div 2) \<le> length (entries l) + 1" "2 ^ ((nodeHeight r) div 2) \<le> length (entries r) + 1"
    using AvlNode by simp_all
  show ?case
  proof (cases "h \<le> 1")
    case True
    then have "h div 2 = 0" by simp
    then show ?thesis by simp
  next
    case False
    then obtain m where m: "h = m + 2" by (metis add.commute le_Suc_ex not_less_eq_eq numeral_2_eq_2 One_nat_def)
    then have "m \<le> nodeHeight l" "m \<le> nodeHeight r" using AvlNode.prems by auto
    then have "(2 :: nat) ^ (m div 2) \<le> 2 ^ (nodeHeight l div 2)" "(2 :: nat) ^ (m div 2) \<le> 2 ^ (nodeHeight r div 2)"
      by (intro power_increasing div_le_mono; simp)+
    moreover have "2 ^ (h div 2) = 2 * (2 :: nat) ^ (m div 2)" by (simp add: m)
    ultimately show ?thesis using IH unfolding entries.simps length_append list.size nodeHeight.simps by linarith
  qed
qed simp


section \<open>The store interface\<close>

text \<open>
  What the bilateral tables ask of their stores: an empty store, insertion under a key that is
  not there yet, lookup.
\<close>

locale keyed_store =
  fixes store_ok :: "'t \<Rightarrow> bool"
    and empty :: 't
    and insert :: "'t \<Rightarrow> 'k \<Rightarrow> 'v \<Rightarrow> 't option"
    and lookup :: "'t \<Rightarrow> 'k \<Rightarrow> 'v option"
  assumes empty_ok: "store_ok empty"
    and lookup_empty: "lookup empty k = None"
    and insert_new: "store_ok t \<Longrightarrow> lookup t k = None \<Longrightarrow>
      \<exists>t'. insert t k v = Some t' \<and> store_ok t' \<and> (\<forall>k'. lookup t' k' = (if k' = k then Some v else lookup t k'))"
begin

text \<open>A store filled from a list of entries with distinct keys answers exactly these entries.\<close>

lemma insert_all:
  assumes "store_ok t" "distinct (map fst es)" "\<forall>k \<in> fst ` set es. lookup t k = None"
  shows "\<exists>t'. for_each es (\<lambda>(k, v) t. insert t k v) t = Some t' \<and> store_ok t' \<and>
    (\<forall>k. lookup t' k = (case map_of es k of Some v \<Rightarrow> Some v | None \<Rightarrow> lookup t k))"
  using assms
proof (induction es arbitrary: t)
  case (Cons e es)
  obtain k v where e: "e = (k, v)" by (cases e)
  obtain t1 where t1: "insert t k v = Some t1" "store_ok t1"
    "\<forall>k'. lookup t1 k' = (if k' = k then Some v else lookup t k')"
    using insert_new [of t k v] Cons.prems e by auto
  have "\<forall>k' \<in> fst ` set es. lookup t1 k' = None" using Cons.prems t1(3) e by auto
  from Cons.IH [OF t1(2) _ this] Cons.prems(2) obtain t' where
    "for_each es (\<lambda>(k, v) t. insert t k v) t1 = Some t'" "store_ok t'"
    "\<forall>k'. lookup t' k' = (case map_of es k' of Some v \<Rightarrow> Some v | None \<Rightarrow> lookup t1 k')" by auto
  moreover have "map_of es k = None" using Cons.prems(2) e by (simp add: map_of_eq_None_iff)
  ultimately show ?case using t1 e by (auto split: option.splits)
qed simp

lemma fill_empty:
  assumes "distinct (map fst es)"
  shows "\<exists>t. for_each es (\<lambda>(k, v) t. insert t k v) empty = Some t \<and> store_ok t \<and> lookup t = map_of es"
  using insert_all [OF empty_ok assms] lookup_empty by (fastforce split: option.splits)

end

lemma add_new:
  assumes "avl_ok t" "AvlTree_find t k = None"
  shows "\<exists>t'. AvlTree_add kp t k (Some v) = Some t' \<and> avl_ok t' \<and>
    (\<forall>k'. AvlTree_find t' k' = (if k' = k then Some v else AvlTree_find t k'))"
proof -
  have t: "balanced t" "sorted_wrt (<) (map fst (entries t))" using assms(1) by (simp_all add: avl_ok_def)
  then have new: "k \<notin> fst ` set (entries t)"
    using assms(2) by (simp add: AvlTree_find_def find_map_of map_of_eq_None_iff)
  obtain t' where t': "AvlTreeNode_add t k v = Some t'" "balanced t'" "entries t' = insert_entry k v (entries t)"
    using AvlTreeNode_add_ok [OF t new] by blast
  have s: "sorted_wrt (<) (map fst (entries t'))" unfolding t'(3) by (rule sorted_insert_entry [OF t(2) new])
  show ?thesis
    using t' s t(2) new
    by (auto simp: AvlTree_add_def AvlTreeNode_create_def avl_ok_def AvlTree_find_def find_map_of
        map_of_insert_entry)
qed

interpretation avl: keyed_store avl_ok AvlTree_create "\<lambda>t k v. AvlTree_add kp t k (Some v)" AvlTree_find for kp
proof
  show "avl_ok AvlTree_create" by (simp add: avl_ok_def AvlTree_create_def)
  show "AvlTree_find AvlTree_create k = None" for k by (simp add: AvlTree_create_def AvlTree_find_def)
  show "\<exists>t'. AvlTree_add kp t k (Some v) = Some t' \<and> avl_ok t' \<and>
      (\<forall>k'. AvlTree_find t' k' = (if k' = k then Some v else AvlTree_find t k'))"
    if "avl_ok t" "AvlTree_find t k = None" for t k v
    using add_new [OF that] by blast
qed

text \<open>
  C22: Trees filled by \<open>AvlTree_add\<close> with distinct keys: every insertion succeeds (no rotation
  follows a missing child), the tree stays ordered and height-balanced,
  \<open>AvlTree_find\<close> answers exactly the values added, and \<open>AvlTree_getMaxDepth\<close> is at most twice
  the binary logarithm of the number of entries plus one.
\<close>

theorem AvlTree_filled:
  assumes "distinct (map fst es)"
  shows "\<exists>t. for_each es (\<lambda>(k, v) t. AvlTree_add kp t k (Some v)) AvlTree_create = Some t \<and> avl_ok t \<and>
    AvlTree_find t = map_of es \<and> 2 ^ (AvlTree_getMaxDepth t div 2) \<le> length (entries t) + 1"
proof -
  obtain t where t: "for_each es (\<lambda>(k, v) t. AvlTree_add kp t k (Some v)) AvlTree_create = Some t" "avl_ok t"
    "AvlTree_find t = map_of es" using avl.fill_empty [OF assms, of kp] by blast
  moreover have "2 ^ (AvlTree_getMaxDepth t div 2) \<le> length (entries t) + 1"
    using t(2) balanced_size [of t] by (simp add: avl_ok_def AvlTree_getMaxDepth_def)
  ultimately show ?thesis by blast
qed

theorem AvlTree_filled_witness:
  "\<exists>t. for_each [(3 :: nat, CHR ''c''), (2, CHR ''b''), (1, CHR ''a'')]
      (\<lambda>(k, v) t. AvlTree_add (\<lambda>_. CHR ''-'') t k (Some v)) AvlTree_create = Some t \<and>
    avl_ok t \<and> AvlTree_find t = map_of [(3, CHR ''c''), (2, CHR ''b''), (1, CHR ''a'')] \<and>
    2 ^ (AvlTree_getMaxDepth t div 2) \<le> length (entries t) + 1"
  by (rule AvlTree_filled) simp

text \<open>
  A key added twice: the first entry answers lookups, until the insertion of an unrelated
  key rotates the tree and the second entry answers.
\<close>

theorem AvlTree_duplicate_key:
  "map_option (\<lambda>t. AvlTree_find t 1)
     (for_each [(1 :: nat, CHR ''a''), (1, CHR ''b'')]
       (\<lambda>(k, v) t. AvlTree_add (\<lambda>_. CHR ''-'') t k (Some v)) AvlTree_create) = Some (Some (CHR ''a'')) \<and>
   map_option (\<lambda>t. AvlTree_find t 1)
     (for_each [(1 :: nat, CHR ''a''), (1, CHR ''b''), (2, CHR ''c'')]
       (\<lambda>(k, v) t. AvlTree_add (\<lambda>_. CHR ''-'') t k (Some v)) AvlTree_create) = Some (Some (CHR ''b''))"
  by (simp add: AvlTree_add_def AvlTreeNode_create_def AvlTree_create_def AvlTree_find_def
      rebalance_def set_height_def)

end
