(* ===== verification/HashTree.thy ===== *)
theory HashTree
  imports AvlTree
begin

text \<open>
  \<^verbatim>\<open>libmms/src/common/hash_tree.c\<close>: the search tree keyed by the 32-bit hash of a string, in which
  a domain finds its data points by name.

  The tree algorithm (\<open>HashTreeNode_add\<close> with its rotations) is the one of \<^verbatim>\<open>avl_tree.c\<close> over hash
  codes, so the nodes are those of \<open>AvlTree\<close> whose key is the hash and whose value is the
  original key with the value. \<open>unsigned long\<close> has 64 bits and \<open>char\<close> is signed, as on the
  Linux targets of the library.
\<close>

section \<open>Operations\<close>

fun hash_loop :: "cstr \<Rightarrow> u64 \<Rightarrow> u64" where
  "hash_loop [] hash = hash"
| "hash_loop (c # str) hash =
     hash_loop str (scast c + push_bit 6 hash + push_bit 16 hash - hash)"

definition hash_string :: "cstr \<Rightarrow> u32" where
  "hash_string str =
     (let hash = hash_loop str 0;
          hash = (if hash mod 2 \<noteq> 0 then NOT hash else hash);
          hash = (if hash mod 3 \<noteq> 0 then NOT (drop_bit 1 hash) else hash);
          hash = (if hash mod 4 \<noteq> 0 then NOT (push_bit 1 hash) else hash)
      in ucast hash)"

type_synonym 'v HashTreeNode = "(u32, cstr \<times> 'v) AvlTreeNode"

definition HashTreeNode_create :: "(cstr \<Rightarrow> 'v) \<Rightarrow> u32 \<Rightarrow> cstr \<Rightarrow> 'v option \<Rightarrow> 'v HashTreeNode" where
  "HashTreeNode_create key_pointer hashCode originalKey val =
     AvlNode NullNode hashCode (originalKey, case val of Some v \<Rightarrow> v | None \<Rightarrow> key_pointer originalKey) NullNode 1"

definition HashTree_create :: "'v HashTreeNode" where
  "HashTree_create = NullNode"

definition HashTree_add :: "(cstr \<Rightarrow> 'v) \<Rightarrow> 'v HashTreeNode \<Rightarrow> cstr \<Rightarrow> 'v option \<Rightarrow> 'v HashTreeNode option" where
  "HashTree_add key_pointer root key val =
     (let node = HashTreeNode_create key_pointer (hash_string key) key val in
      AvlTreeNode_add root (avl_key node) (avl_value node))"

text \<open>Keys are compared only when the right child has the same hash code.\<close>

fun HashTreeNode_find :: "'v HashTreeNode \<Rightarrow> u32 \<Rightarrow> cstr \<Rightarrow> 'v option" where
  "HashTreeNode_find NullNode hashCode key = None"
| "HashTreeNode_find (AvlNode l hashKey (originalKey, v) r _) hashCode key =
     (if hashKey = hashCode then
        case node_key r of
          Some right_hashKey \<Rightarrow>
            if hashKey = right_hashKey then
              if originalKey = key then Some v else HashTreeNode_find r hashCode key
            else Some v
        | None \<Rightarrow> Some v
      else if hashKey > hashCode then HashTreeNode_find l hashCode key
      else HashTreeNode_find r hashCode key)"

definition HashTree_find :: "'v HashTreeNode \<Rightarrow> cstr \<Rightarrow> 'v option" where
  "HashTree_find root key =
     (case root of NullNode \<Rightarrow> None | _ \<Rightarrow> HashTreeNode_find root (hash_string key) key)"

definition HashTree_getMaxDepth :: "'v HashTreeNode \<Rightarrow> nat" where
  "HashTree_getMaxDepth root = nodeHeight root"

fun HashTreeNode_destroyDeep :: "'v HashTreeNode \<Rightarrow> 'v list" where
  "HashTreeNode_destroyDeep NullNode = []"
| "HashTreeNode_destroyDeep (AvlNode l _ (_, v) r _) =
     HashTreeNode_destroyDeep r @ HashTreeNode_destroyDeep l @ [v]"

section \<open>Lookup\<close>

lemma find_by_hash:
  "sorted_wrt (<) (map fst (entries t)) \<Longrightarrow>
   HashTreeNode_find t hc key = map_option snd (AvlTreeNode_find t hc)"
proof (induction t hc key rule: HashTreeNode_find.induct)
  case (2 l hashKey originalKey v r h hashCode key)
  have "node_key r = Some rk \<Longrightarrow> hashKey < rk" for rk
    using "2.prems" by (cases r) (auto simp: sorted_wrt_append)
  then have "\<not> (node_key r = Some hashKey)" by blast
  then show ?case using 2 by (auto simp: sorted_wrt_append split: option.splits)
qed simp

lemma HashTree_find_eq:
  "avl_ok t \<Longrightarrow> HashTree_find t key = map_option snd (AvlTree_find t (hash_string key))"
  by (cases t) (simp_all add: HashTree_find_def AvlTree_find_def avl_ok_def find_by_hash)

definition hashed :: "(cstr \<times> 'v) list \<Rightarrow> (u32 \<times> cstr \<times> 'v) list" where
  "hashed es = map (\<lambda>(k, v). (hash_string k, k, v)) es"

lemma HashTree_add_eq:
  "HashTree_add kp t k (Some v) = AvlTree_add kp' t (hash_string k) (Some (k, v))"
  by (simp add: HashTree_add_def HashTreeNode_create_def AvlTree_add_def AvlTreeNode_create_def)

lemma for_each_hashed:
  "for_each es (\<lambda>(k, v) t. HashTree_add kp t k (Some v)) t =
   for_each (hashed es) (\<lambda>(k, v) t. AvlTree_add kp' t k (Some v)) t"
proof (induction es arbitrary: t)
  case (Cons e es)
  obtain k v where e: "e = (k, v)" by (cases e)
  show ?case
    unfolding e hashed_def list.map for_each.simps prod.case HashTree_add_eq [of kp _ _ _ kp']
    by (rule Option.bind_cong [OF refl]) (use Cons.IH in \<open>simp add: hashed_def HashTree_add_eq [of kp _ _ _ kp']\<close>)
qed (simp add: hashed_def)

lemma map_of_hashed:
  assumes "distinct (map (\<lambda>e. hash_string (fst e)) es)"
  shows "(k, v) \<in> set es \<Longrightarrow> map_of (hashed es) (hash_string k) = Some (k, v)"
    and "hc \<notin> (\<lambda>e. hash_string (fst e)) ` set es \<Longrightarrow> map_of (hashed es) hc = None"
proof -
  have "distinct (map fst (hashed es))" using assms by (simp add: hashed_def comp_def case_prod_unfold)
  then show "(k, v) \<in> set es \<Longrightarrow> map_of (hashed es) (hash_string k) = Some (k, v)"
    by (intro map_of_is_SomeI) (force simp: hashed_def)+
  show "hc \<notin> (\<lambda>e. hash_string (fst e)) ` set es \<Longrightarrow> map_of (hashed es) hc = None"
    by (force simp: map_of_eq_None_iff hashed_def)
qed

text \<open>
  Names whose hash codes are distinct: every \<open>HashTree_add\<close> succeeds, \<open>HashTree_find\<close>
  answers the value of every name added, and nothing for a name whose hash code no added name
  has; the depth stays logarithmic.
\<close>

theorem HashTree_lookup:
  assumes "distinct (map (\<lambda>e. hash_string (fst e)) es)"
  shows "\<exists>t. for_each es (\<lambda>(k, v) t. HashTree_add kp t k (Some v)) HashTree_create = Some t \<and>
    (\<forall>k v. (k, v) \<in> set es \<longrightarrow> HashTree_find t k = Some v) \<and>
    (\<forall>k. hash_string k \<notin> (\<lambda>e. hash_string (fst e)) ` set es \<longrightarrow> HashTree_find t k = None) \<and>
    2 ^ (HashTree_getMaxDepth t div 2) \<le> length (entries t) + 1"
proof -
  let ?kp = "\<lambda>_ :: u32. undefined :: cstr \<times> 'a"
  have "distinct (map fst (hashed es))" using assms by (simp add: hashed_def comp_def case_prod_unfold)
  then obtain t where t: "for_each (hashed es) (\<lambda>(k, v) t. AvlTree_add ?kp t k (Some v)) AvlTree_create = Some t"
    "avl_ok t" "AvlTree_find t = map_of (hashed es)"
    using avl.fill_empty by blast
  have "for_each es (\<lambda>(k, v) t. HashTree_add kp t k (Some v)) HashTree_create = Some t"
    using t(1) by (simp add: for_each_hashed [of es kp _ ?kp] HashTree_create_def AvlTree_create_def)
  moreover have "HashTree_find t k = Some v" if "(k, v) \<in> set es" for k v
    using t map_of_hashed(1) [OF assms that] by (simp add: HashTree_find_eq)
  moreover have "HashTree_find t k = None" if "hash_string k \<notin> (\<lambda>e. hash_string (fst e)) ` set es" for k
    using t map_of_hashed(2) [OF assms that] by (simp add: HashTree_find_eq)
  moreover have "2 ^ (HashTree_getMaxDepth t div 2) \<le> length (entries t) + 1"
    using t(2) balanced_size [of t] by (simp add: avl_ok_def HashTree_getMaxDepth_def)
  ultimately show ?thesis by blast
qed

theorem HashTree_lookup_witness:
  "\<exists>t. for_each [([98, 98, 105], 1 :: nat), ([98, 98, 106], 2)] (\<lambda>(k, v) t. HashTree_add (\<lambda>_. 0) t k (Some v)) HashTree_create = Some t \<and>
    HashTree_find t [98, 98, 106] = Some 2 \<and> HashTree_find t [120] = None"
proof -
  have h: "hash_string [98, 98, 105] = 408028148" "hash_string [98, 98, 106] = 816056299"
    "hash_string [120] = 120"
    by (simp_all add: hash_string_def)
  have "distinct (map (\<lambda>e. hash_string (fst e)) [([98, 98, 105], 1 :: nat), ([98, 98, 106], 2)])"
    by (simp add: h)
  from HashTree_lookup [OF this, of "\<lambda>_. 0"] show ?thesis by (auto simp: h)
qed

text \<open>
  A name that was never added is found when its hash code is that of an added name:
  after adding \<^verbatim>\<open>bbi\<close> only, looking up \<^verbatim>\<open>114\<close> answers the value of \<^verbatim>\<open>bbi\<close>.
\<close>

theorem HashTree_collision:
  "do { t \<leftarrow> HashTree_add (\<lambda>_. 0) HashTree_create [98, 98, 105] (Some (7 :: nat));
        Some (HashTree_find t [49, 49, 52]) } = Some (Some 7)"
proof -
  have h: "hash_string [98, 98, 105] = 408028148" "hash_string [49, 49, 52] = 408028148"
    by (simp_all add: hash_string_def)
  show ?thesis
    by (simp add: HashTree_add_def HashTreeNode_create_def HashTree_create_def HashTree_find_def h)
qed

end
