(* ===== verification/BerEncoder.thy ===== *)
theory BerEncoder
  imports Prelude
begin

text \<open>
  \<^verbatim>\<open>libmms/src/mms/asn1/ber_encoder.c\<close>: BER encoding into a caller's buffer.

  Every \<open>BerEncoder_encodeX(\<dots>, buffer, bufPos)\<close> is a function to \<open>cursor option\<close>:
  the buffer after the call with the returned position, or \<open>None\<close> when a write falls
  outside the buffer (the C code has no bounds check; the caller sizes the buffer with the
  \<open>determine\<dots>Size\<close> functions). Positions and sizes the callers keep non-negative are
  \<open>nat\<close>. Bytes are in the little-endian layout of the target
  (\<open>ORDER_LITTLE_ENDIAN == 1\<close>).
\<close>

section \<open>Lengths, tags, strings\<close>

definition BerEncoder_encodeLength :: "u32 \<Rightarrow> cursor \<Rightarrow> cursor option" where
  "BerEncoder_encodeLength len c =
     (if len < 128 then put (ucast len) c
      else if len < 256 then do {
        c \<leftarrow> put 0x81 c;
        put (ucast len) c }
      else if len < 65535 then do {
        c \<leftarrow> put 0x82 c;
        c \<leftarrow> put (ucast (len div 256)) c;
        put (ucast (len mod 256)) c }
      else do {
        c \<leftarrow> put 0x83 c;
        c \<leftarrow> put (ucast (len div 0x10000)) c;
        c \<leftarrow> put (ucast ((len AND 0xffff) div 0x100)) c;
        put (ucast (len mod 256)) c })"

definition BerEncoder_encodeTL :: "u8 \<Rightarrow> u32 \<Rightarrow> cursor \<Rightarrow> cursor option" where
  "BerEncoder_encodeTL tag len c = do {
     c \<leftarrow> put tag c;
     BerEncoder_encodeLength len c }"

definition BerEncoder_encodeBoolean :: "u8 \<Rightarrow> bool \<Rightarrow> cursor \<Rightarrow> cursor option" where
  "BerEncoder_encodeBoolean tag value c = do {
     c \<leftarrow> put tag c;
     c \<leftarrow> put 1 c;
     if value then put 0xff c else put 0x00 c }"

definition BerEncoder_encodeStringWithTag :: "u8 \<Rightarrow> cstr option \<Rightarrow> cursor \<Rightarrow> cursor option" where
  "BerEncoder_encodeStringWithTag tag string c = do {
     c \<leftarrow> put tag c;
     case string of
       Some s \<Rightarrow> do {
         c \<leftarrow> BerEncoder_encodeLength (of_nat (length s)) c;
         put_from s 0 (length s) c }
     | None \<Rightarrow> put 0 c }"

definition BerEncoder_encodeOctetString :: "u8 \<Rightarrow> u8 list \<Rightarrow> u32 \<Rightarrow> cursor \<Rightarrow> cursor option" where
  "BerEncoder_encodeOctetString tag octetString octetStringSize c = do {
     c \<leftarrow> put tag c;
     c \<leftarrow> BerEncoder_encodeLength octetStringSize c;
     put_from octetString 0 (unat octetStringSize) c }"

text \<open>
  \<^verbatim>\<open>asn1_ber_primitive_value.h\<close>: an integer's content octets. \<open>asn1_octets\<close> is the allocated
  array (\<open>asn1_maxSize\<close> bytes), of which the first \<open>asn1_size\<close> hold the value.
\<close>

record Asn1PrimitiveValue =
  asn1_size :: nat
  asn1_maxSize :: nat
  asn1_octets :: "u8 list"

definition BerEncoder_encodeAsn1PrimitiveValue ::
    "u8 \<Rightarrow> Asn1PrimitiveValue \<Rightarrow> cursor \<Rightarrow> cursor option" where
  "BerEncoder_encodeAsn1PrimitiveValue tag value c = do {
     c \<leftarrow> put tag c;
     c \<leftarrow> BerEncoder_encodeLength (of_nat (asn1_size value)) c;
     put_from (asn1_octets value) 0 (asn1_size value) c }"

section \<open>Bit strings\<close>

text \<open>The \<open>for\<close> loop that builds the mask of the unused low bits of the last byte.\<close>

definition padding_mask :: "nat \<Rightarrow> u8" where
  "padding_mask padding = NOT (foldl (\<lambda>m i. m + push_bit i 1) 0 [0..<padding])"

definition bitString_byteSize :: "nat \<Rightarrow> nat" where
  "bitString_byteSize bitStringSize =
     (let byteSize = bitStringSize div 8 in
      if bitStringSize mod 8 \<noteq> 0 then byteSize + 1 else byteSize)"

definition BerEncoder_encodeBitString :: "u8 \<Rightarrow> nat \<Rightarrow> u8 list \<Rightarrow> cursor \<Rightarrow> cursor option" where
  "BerEncoder_encodeBitString tag bitStringSize bitString c = do {
     c \<leftarrow> put tag c;
     let byteSize = bitString_byteSize bitStringSize;
     let padding = byteSize * 8 - bitStringSize;
     c \<leftarrow> BerEncoder_encodeLength (of_nat (byteSize + 1)) c;
     c \<leftarrow> put (of_nat padding) c;
     (buffer, bufPos) \<leftarrow> put_from bitString 0 byteSize c;
     b \<leftarrow> rd buffer (bufPos - 1);
     buffer \<leftarrow> wr buffer (bufPos - 1) (b AND padding_mask padding);
     Some (buffer, bufPos) }"

section \<open>Sizes\<close>

definition BerEncoder_determineLengthSize :: "u32 \<Rightarrow> nat" where
  "BerEncoder_determineLengthSize len =
     (if len < 128 then 1
      else if len < 256 then 2
      else if len < 65536 then 3
      else 4)"

definition BerEncoder_determineEncodedStringSize :: "cstr option \<Rightarrow> nat" where
  "BerEncoder_determineEncodedStringSize string =
     (case string of
        Some s \<Rightarrow> 1 + BerEncoder_determineLengthSize (of_nat (length s)) + length s
      | None \<Rightarrow> 2)"

definition BerEncoder_determineEncodedBitStringSize :: "nat \<Rightarrow> nat" where
  "BerEncoder_determineEncodedBitStringSize bitStringSize =
     (let byteSize = bitString_byteSize bitStringSize in
      2 + BerEncoder_determineLengthSize (of_nat byteSize) + byteSize)"

section \<open>Integers\<close>

text \<open>
  \<open>BerEncoder_revertByteOrder\<close>: swaps \<open>octets[i]\<close> and \<open>octets[(size - 1) - i]\<close> for
  \<open>i < size / 2\<close>, in place.
\<close>

fun revert_loop :: "u8 list \<Rightarrow> nat \<Rightarrow> nat \<Rightarrow> nat \<Rightarrow> u8 list option" where
  "revert_loop octets sz i 0 = Some octets"
| "revert_loop octets sz i (Suc k) = do {
     temp \<leftarrow> rd octets i;
     other \<leftarrow> rd octets ((sz - 1) - i);
     octets \<leftarrow> wr octets i other;
     octets \<leftarrow> wr octets ((sz - 1) - i) temp;
     revert_loop octets sz (Suc i) k }"

definition BerEncoder_revertByteOrder :: "u8 list \<Rightarrow> nat \<Rightarrow> u8 list option" where
  "BerEncoder_revertByteOrder octets sz = revert_loop octets sz 0 (sz div 2)"

text \<open>
  \<open>BerEncoder_compressInteger\<close>: first loop, from \<open>bytePosition\<close> with \<open>k\<close> bytes left
  before \<open>integerEnd\<close>.
\<close>

fun compress_scan :: "u8 list \<Rightarrow> nat \<Rightarrow> nat \<Rightarrow> nat option" where
  "compress_scan integer bytePosition 0 = Some bytePosition"
| "compress_scan integer bytePosition (Suc k) = do {
     b0 \<leftarrow> rd integer bytePosition;
     if b0 = 0x00 then do {
       b1 \<leftarrow> rd integer (bytePosition + 1);
       if b1 AND 0x80 = 0 then compress_scan integer (bytePosition + 1) k
       else Some bytePosition }
     else if b0 = 0xff then do {
       b1 \<leftarrow> rd integer (bytePosition + 1);
       if b1 AND 0x80 \<noteq> 0 then compress_scan integer (bytePosition + 1) k
       else Some bytePosition }
     else Some bytePosition }"

text \<open>Second loop: \<open>*newBytePosition++ = *bytePosition++\<close>, \<open>k\<close> rounds.\<close>

fun compress_shift :: "u8 list \<Rightarrow> nat \<Rightarrow> nat \<Rightarrow> nat \<Rightarrow> u8 list option" where
  "compress_shift integer newBytePosition bytePosition 0 = Some integer"
| "compress_shift integer newBytePosition bytePosition (Suc k) = do {
     b \<leftarrow> rd integer bytePosition;
     integer \<leftarrow> wr integer newBytePosition b;
     compress_shift integer (newBytePosition + 1) (bytePosition + 1) k }"

definition BerEncoder_compressInteger :: "u8 list \<Rightarrow> nat \<Rightarrow> (u8 list \<times> nat) option" where
  "BerEncoder_compressInteger integer originalSize = do {
     bytesToDelete \<leftarrow> compress_scan integer 0 (originalSize - 1);
     if bytesToDelete \<noteq> 0 then do {
       let newSize = originalSize - bytesToDelete;
       integer \<leftarrow> compress_shift integer 0 bytesToDelete newSize;
       Some (integer, newSize) }
     else Some (integer, originalSize) }"

text \<open>
  The buffer \<open>valueBuffer[5]\<close> of the unsigned encoders: a zero byte, then the value's
  bytes reversed in place.
\<close>

definition uint32_valueBuffer :: "u32 \<Rightarrow> u8 list option" where
  "uint32_valueBuffer value = do {
     reverted \<leftarrow> BerEncoder_revertByteOrder (le_bytes 4 value) 4;
     Some (0 # reverted) }"

definition BerEncoder_encodeUInt32 :: "u32 \<Rightarrow> cursor \<Rightarrow> cursor option" where
  "BerEncoder_encodeUInt32 value c = do {
     valueBuffer \<leftarrow> uint32_valueBuffer value;
     (valueBuffer, sz) \<leftarrow> BerEncoder_compressInteger valueBuffer 5;
     put_from valueBuffer 0 sz c }"

text \<open>\<open>int32_t\<close> parameters are their 32-bit pattern.\<close>

definition BerEncoder_encodeInt32 :: "u32 \<Rightarrow> cursor \<Rightarrow> cursor option" where
  "BerEncoder_encodeInt32 value c = do {
     let valueBuffer = map (\<lambda>i. le_bytes 4 value ! (3 - i)) [0, 1, 2, 3];
     (valueBuffer, sz) \<leftarrow> BerEncoder_compressInteger valueBuffer 4;
     put_from valueBuffer 0 sz c }"

definition BerEncoder_encodeUInt32WithTL :: "u8 \<Rightarrow> u32 \<Rightarrow> cursor \<Rightarrow> cursor option" where
  "BerEncoder_encodeUInt32WithTL tag value c = do {
     valueBuffer \<leftarrow> uint32_valueBuffer value;
     (valueBuffer, sz) \<leftarrow> BerEncoder_compressInteger valueBuffer 5;
     c \<leftarrow> put tag c;
     c \<leftarrow> put (of_nat sz) c;
     put_from valueBuffer 0 sz c }"

definition BerEncoder_UInt32determineEncodedSize :: "u32 \<Rightarrow> nat option" where
  "BerEncoder_UInt32determineEncodedSize value = do {
     valueBuffer \<leftarrow> uint32_valueBuffer value;
     (_, sz) \<leftarrow> BerEncoder_compressInteger valueBuffer 5;
     Some sz }"

text \<open>The signed variant pads with a zero byte, as the unsigned one does.\<close>

definition BerEncoder_Int32determineEncodedSize :: "u32 \<Rightarrow> nat option" where
  "BerEncoder_Int32determineEncodedSize value = do {
     valueBuffer \<leftarrow> uint32_valueBuffer value;
     (_, sz) \<leftarrow> BerEncoder_compressInteger valueBuffer 5;
     Some sz }"

text \<open>
  \<open>valueBuffer\<close> has 9 bytes: one for the exponent width, at most 8 for the float's bytes.
\<close>

definition BerEncoder_encodeFloat :: "u8 list \<Rightarrow> u8 \<Rightarrow> u8 \<Rightarrow> cursor \<Rightarrow> cursor option" where
  "BerEncoder_encodeFloat floatValue formatWidth exponentWidth c = do {
     let byteSize = unat formatWidth div 8;
     (valueBuffer, _) \<leftarrow> put_from floatValue 0 byteSize (exponentWidth # replicate 8 0, 1);
     reverted \<leftarrow> BerEncoder_revertByteOrder (drop 1 valueBuffer) byteSize;
     put_from (exponentWidth # reverted) 0 (byteSize + 1) c }"

section \<open>What the encoders are to write\<close>

text \<open>
  The length octets, and the shortest two's complement octets of a value: \<open>strip\<close> drops a
  leading byte while it only repeats the sign of the next one.
\<close>

definition ber_length_bytes :: "u32 \<Rightarrow> u8 list" where
  "ber_length_bytes len =
     (if len < 128 then [ucast len]
      else if len < 256 then [0x81, ucast len]
      else if len < 65535 then [0x82, ucast (len div 256), ucast len]
      else [0x83, ucast (len div 65536), ucast (len div 256), ucast len])"

definition redundant :: "u8 \<Rightarrow> u8 \<Rightarrow> bool" where
  "redundant a b \<longleftrightarrow> a = 0 \<and> uint b < 128 \<or> a = 0xff \<and> 128 \<le> uint b"

fun strip :: "u8 list \<Rightarrow> u8 list" where
  "strip (a # b # bs) = (if redundant a b then strip (b # bs) else a # b # bs)"
| "strip bs = bs"

section \<open>Byte order and integer compression\<close>

lemma revert_loop_rev:
  "sz = 2 * i + length mid \<Longrightarrow> k = length mid div 2 \<Longrightarrow> length pre = i \<Longrightarrow>
   revert_loop (pre @ mid @ post) sz i k = Some (pre @ rev mid @ post)"
proof (induction k arbitrary: i pre mid post)
  case 0
  then have "rev mid = mid" by (cases mid; cases "tl mid") auto
  then show ?case by simp
next
  case (Suc k)
  then have "2 \<le> length mid" by linarith
  then obtain a m z where mid: "mid = a # m @ [z]"
    by (cases mid; cases "tl mid" rule: rev_cases) auto
  have "revert_loop (pre @ mid @ post) sz i (Suc k)
      = revert_loop ((pre @ [z]) @ m @ (a # post)) sz (Suc i) k"
    using Suc.prems by (simp add: mid rd_def wr_def nth_append list_update_append)
  also have "\<dots> = Some ((pre @ [z]) @ rev m @ (a # post))"
    using Suc.prems by (intro Suc.IH) (simp_all add: mid)
  finally show ?case by (simp add: mid)
qed

lemma BerEncoder_revertByteOrder_rev [buf_simps]:
  "sz \<le> length octets \<Longrightarrow>
   BerEncoder_revertByteOrder octets sz = Some (rev (take sz octets) @ drop sz octets)"
  using revert_loop_rev [of sz 0 "take sz octets" "sz div 2" "[]" "drop sz octets"]
  by (simp add: BerEncoder_revertByteOrder_def)

lemma strip_suffix: "\<exists>ys. bs = ys @ strip bs"
proof (induction bs rule: strip.induct)
  case (1 a b bs)
  then show ?case by (auto intro: exI [of _ "[]"]) (metis append_Cons)
qed auto

lemma strip_length_le: "length (strip bs) \<le> length bs"
  using strip_suffix [of bs] by (metis length_append le_add2)

lemma strip_eq_Nil [simp]: "strip bs = [] \<longleftrightarrow> bs = []"
  by (induction bs rule: strip.induct) auto

lemma strip_drop: "strip bs = drop (length bs - length (strip bs)) bs"
  using strip_suffix [of bs] by (metis append_eq_conv_conj diff_add_inverse2 length_append)

lemma compress_scan_strip:
  "cs \<noteq> [] \<Longrightarrow> k = length cs - 1 \<Longrightarrow> length pre = p \<Longrightarrow>
   compress_scan (pre @ cs @ post) p k = Some (p + (length cs - length (strip cs)))"
proof (induction cs arbitrary: pre p k rule: strip.induct)
  case (1 a b bs)
  have rest: "compress_scan (pre @ (a # b # bs) @ post) (Suc p) (length bs)
      = Some (Suc p + (length (b # bs) - length (strip (b # bs))))" if "redundant a b"
    using "1.IH" [OF that, of "length bs" "pre @ [a]" "Suc p"] "1.prems" by simp
  show ?case
  proof (cases "redundant a b")
    case True
    with rest strip_length_le [of "b # bs"] "1.prems" show ?thesis
      by (auto simp: redundant_def rd_def nth_append u8_and_0x80 Suc_diff_le)
  next
    case False
    with "1.prems" show ?thesis
      by (auto simp: redundant_def rd_def nth_append u8_and_0x80)
  qed
qed auto

lemma compress_shift_eq:
  "d + j + k \<le> length xs \<Longrightarrow> 
   compress_shift xs j (d + j) k = Some (take j xs @ take k (drop (d + j) xs) @ drop (j + k) xs)"
proof (induction k arbitrary: xs j)
  case 0
  then show ?case by simp
next
  case (Suc k)
  let ?xs = "xs[j := xs ! (d + j)]"
  have "compress_shift xs j (d + j) (Suc k) = compress_shift ?xs (Suc j) (d + Suc j) k"
    using Suc.prems by (simp add: rd_def wr_def)
  also have "\<dots> = Some (take (Suc j) ?xs @ take k (drop (d + Suc j) ?xs) @ drop (Suc j + k) ?xs)"
    using Suc.prems by (intro Suc.IH) simp
  also have "take (Suc j) ?xs = take j xs @ [xs ! (d + j)]"
    using Suc.prems by (simp add: take_Suc_conv_app_nth)
  also have "drop (d + Suc j) ?xs = drop (d + Suc j) xs" by simp
  also have "drop (Suc j + k) ?xs = drop (Suc j + k) xs" by simp
  also have "(take j xs @ [xs ! (d + j)]) @ take k (drop (d + Suc j) xs) @ drop (Suc j + k) xs
      = take j xs @ take (Suc k) (drop (d + j) xs) @ drop (j + Suc k) xs"
    using Suc.prems by (simp add: Cons_nth_drop_Suc [symmetric])
  finally show ?case .
qed

lemma BerEncoder_compressInteger_strip:
  assumes "cs \<noteq> []"
  shows "BerEncoder_compressInteger (cs @ post) (length cs) =
     Some (strip cs @ drop (length (strip cs)) (cs @ post), length (strip cs))"
proof -
  let ?d = "length cs - length (strip cs)"
  have scan: "compress_scan (cs @ post) 0 (length cs - 1) = Some ?d"
    using compress_scan_strip [of cs "length cs - 1" "[]" 0 post] assms by simp
  show ?thesis
  proof (cases "?d = 0")
    case True
    obtain ys where ys: "cs = ys @ strip cs" using strip_suffix by blast
    then have "length cs = length ys + length (strip cs)" by (metis length_append)
    with True have "ys = []" by simp
    with ys have "strip cs = cs" by simp
    with scan show ?thesis by (simp add: BerEncoder_compressInteger_def)
  next
    case False
    have "compress_shift (cs @ post) 0 ?d (length cs - ?d) =
        Some (take (length cs - ?d) (drop ?d (cs @ post)) @ drop (length cs - ?d) (cs @ post))"
      using compress_shift_eq [of ?d 0 "length cs - ?d" "cs @ post"] by simp
    moreover have "length cs - ?d = length (strip cs)" using strip_length_le [of cs] by simp
    moreover have "take (length (strip cs)) (drop ?d (cs @ post)) = strip cs"
    proof -
      obtain ys where ys: "cs = ys @ strip cs" using strip_suffix by blast
      then have "?d = length ys" by (metis diff_add_inverse2 length_append)
      moreover have "drop (length ys) (cs @ post) = strip cs @ post"
        by (subst (1) ys) simp
      ultimately show ?thesis by simp
    qed
    ultimately show ?thesis using scan False by (simp add: BerEncoder_compressInteger_def Let_def)
  qed
qed


lemma redundant_uint:
  "redundant a b \<longleftrightarrow> uint a = 0 \<and> uint b < 128 \<or> uint a = 255 \<and> 128 \<le> uint b"
  by (simp add: redundant_def word_uint_eq_iff)

lemma be_sint_strip: "be_sint (strip bs) = be_sint bs"
proof (induction bs rule: strip.induct)
  case (1 a b bs)
  then show ?case
    by (auto simp: redundant_uint be_sint_Cons be_uint_Cons algebra_simps)
qed auto

lemma not_redundant_range:
  assumes "\<not> redundant a b"
  shows "be_sint (a # b # bs) < - (128 * 256 ^ length bs) \<or>
    128 * 256 ^ length bs \<le> be_sint (a # b # bs)"
proof -
  define h where "h = (if 128 \<le> uint a then uint a - 256 else uint a)"
  define t where "t = h * 256 + uint b"
  have v: "be_sint (a # b # bs) = t * 256 ^ length bs + be_uint bs"
    by (simp add: be_sint_Cons be_uint_Cons h_def t_def algebra_simps)
  have "h = uint a - 256 \<and> 128 \<le> uint a \<or> h = uint a \<and> uint a < 128"
    by (auto simp: h_def)
  then have "t \<le> - 129 \<or> 128 \<le> t"
    using assms uint_u8_bounds [of a] uint_u8_bounds [of b]
    unfolding redundant_uint t_def by linarith
  then show ?thesis
  proof
    assume "t \<le> - 129"
    then have "t * 256 ^ length bs \<le> - 129 * 256 ^ length bs" by (rule mult_right_mono) simp
    then show ?thesis using v be_uint_less [of bs] by linarith
  next
    assume "128 \<le> t"
    then have "128 * 256 ^ length bs \<le> t * 256 ^ length bs" by (rule mult_right_mono) simp
    then show ?thesis using v be_uint_nonneg [of bs] by linarith
  qed
qed

lemma strip_minimal:
  assumes "bs \<noteq> []" "cs \<noteq> []" "be_sint cs = be_sint bs"
  shows "length (strip bs) \<le> length cs"
  using assms(1,3)
proof (induction bs rule: strip.induct)
  case (1 a b bs)
  show ?case
  proof (cases "redundant a b")
    case True
    with 1 be_sint_strip [of "a # b # bs"] be_sint_strip [of "b # bs"] show ?thesis by simp
  next
    case False
    let ?n = "length bs"
    have "be_sint (a # b # bs) < - (128 * 256 ^ ?n) \<or> 128 * 256 ^ ?n \<le> be_sint (a # b # bs)"
      using False by (rule not_redundant_range)
    moreover have False if "length cs \<le> Suc ?n"
      and "be_sint cs < - (128 * 256 ^ ?n) \<or> 128 * 256 ^ ?n \<le> be_sint cs"
    proof -
      from that(1) have "256 ^ (length cs - 1) \<le> (256 :: int) ^ ?n"
        by (intro power_increasing) auto
      with that(2) be_sint_bounds [OF assms(2)] show False by linarith
    qed
    ultimately have "\<not> length cs \<le> Suc ?n"
      using "1.prems"(2) by auto
    with False show ?thesis by simp
  qed
qed (use assms(2) in \<open>auto simp: Suc_le_eq\<close>)


section \<open>The encoders write their specification\<close>

lemma ucast_mod_256: "(ucast (len mod 256) :: u8) = ucast (len :: u32)"
proof -
  have "len mod 256 = take_bit 8 len" by (simp add: take_bit_eq_mod)
  then show ?thesis by (auto intro!: bit_word_eqI simp: bit_simps)
qed
lemma ucast_middle_byte: "(ucast ((len AND 0xffff) div 0x100) :: u8) = ucast ((len::u32) div 256)"
proof -
  have "len AND 0xffff = take_bit 16 len" by (simp add: take_bit_eq_mask mask_eq_exp_minus_1)
  moreover have "x div 256 = drop_bit 8 x" for x :: u32 by (simp add: drop_bit_eq_div)
  ultimately show ?thesis by (auto intro!: bit_word_eqI simp: bit_simps)
qed

lemma encodeLength_puts [buf_simps]:
  "BerEncoder_encodeLength len c = puts (ber_length_bytes len) c"
  unfolding BerEncoder_encodeLength_def ber_length_bytes_def ucast_mod_256 ucast_middle_byte
  by (simp add: puts_fun)

lemma unat_eq_65535: "unat (len :: u32) = 65535 \<Longrightarrow> len = 65535"
  by (simp add: word_unat_eq_iff)

lemma length_ber_length_bytes:
  assumes "len \<noteq> 65535"
  shows "length (ber_length_bytes len) = BerEncoder_determineLengthSize len"
proof -
  have "unat len \<noteq> 65535"
    using assms using unat_eq_65535 by blast
  then show ?thesis
    by (auto simp: ber_length_bytes_def BerEncoder_determineLengthSize_def word_less_nat_alt)
qed

lemma uint32_valueBuffer_eq [buf_simps]:
  "uint32_valueBuffer value = Some (0 # rev (le_bytes 4 value))"
  by (simp add: uint32_valueBuffer_def buf_simps length_le_bytes)

lemma compress_whole:
  assumes "n = length cs" "cs \<noteq> []"
  shows "BerEncoder_compressInteger cs n = Some (strip cs @ drop (length (strip cs)) cs, length (strip cs))"
  using BerEncoder_compressInteger_strip [OF assms(2), of "[]"] assms(1) by simp

lemma put_stripped:
  "put_from (strip cs @ post) 0 (length (strip cs)) c = puts (strip cs) c"
  by (subst put_from_puts) auto

lemma encodeUInt32_puts [buf_simps]:
  "BerEncoder_encodeUInt32 value c = puts (strip (0 # rev (le_bytes 4 value))) c"
  by (simp add: BerEncoder_encodeUInt32_def buf_simps compress_whole length_le_bytes put_stripped)

lemma le_bytes_4_ne: "le_bytes 4 v \<noteq> []"
  using length_le_bytes [of 4 v] by auto

lemma encodeInt32_buffer: "map (\<lambda>i. le_bytes 4 (v :: u32) ! (3 - i)) [0, 1, 2, 3] = rev (le_bytes 4 v)"
  by (simp add: le_bytes_def upt_rec numeral_eq_Suc)

lemma encodeInt32_puts [buf_simps]:
  "BerEncoder_encodeInt32 value c = puts (strip (rev (le_bytes 4 value))) c"
  unfolding BerEncoder_encodeInt32_def encodeInt32_buffer Let_def
  by (simp add: compress_whole length_le_bytes le_bytes_4_ne put_stripped)

lemma encodeUInt32WithTL_puts [buf_simps]:
  "BerEncoder_encodeUInt32WithTL tag value c =
   (let bs = strip (0 # rev (le_bytes 4 value)) in puts (tag # of_nat (length bs) # bs) c)"
proof -
  let ?cs = "0 # rev (le_bytes 4 value)"
  have "put_from (strip ?cs @ post) 0 (length (strip ?cs)) = puts (strip ?cs)" for post
    by (rule ext) (rule put_stripped)
  then show ?thesis
    by (simp add: BerEncoder_encodeUInt32WithTL_def buf_simps compress_whole length_le_bytes
        puts_fun Let_def)
qed

lemma UInt32determineEncodedSize_eq:
  "BerEncoder_UInt32determineEncodedSize value = Some (length (strip (0 # rev (le_bytes 4 value))))"
  by (simp add: BerEncoder_UInt32determineEncodedSize_def buf_simps compress_whole length_le_bytes)

lemma Int32determineEncodedSize_eq:
  "BerEncoder_Int32determineEncodedSize value = Some (length (strip (0 # rev (le_bytes 4 value))))"
  by (simp add: BerEncoder_Int32determineEncodedSize_def buf_simps compress_whole length_le_bytes)

text \<open>An element: tag, length, content.\<close>

definition tlv :: "u8 \<Rightarrow> u8 list \<Rightarrow> u8 list" where
  "tlv tag bs = tag # ber_length_bytes (of_nat (length bs)) @ bs"

end
