(* ===== verification/BerInteger.thy ===== *)
theory BerInteger
  imports BerEncoder
begin

text \<open>
  \<^verbatim>\<open>asn1_ber_primitive_value.c\<close> and \<^verbatim>\<open>ber_integer.c\<close>: the object that holds the content
  octets of a BER INTEGER, its setters from machine integers and its getters.

  \<open>ber_integer_ok\<close> is the well-formedness every constructor establishes and every setter
  keeps; \<open>ber_value\<close> is the integer an object denotes. Setters return the object after the
  call with the C return value (\<open>True\<close> for 1); getters return \<open>None\<close> inside the outer
  \<open>Some\<close> where C returns 0 and leaves the output untouched.
\<close>

section \<open>The object\<close>

text \<open>The two size fields are \<open>uint8_t\<close>; the array is allocated with the full \<open>int\<close>.\<close>

definition Asn1PrimitiveValue_create :: "nat \<Rightarrow> Asn1PrimitiveValue" where
  "Asn1PrimitiveValue_create sz =
     \<lparr>asn1_size = 1, asn1_maxSize = sz mod 256, asn1_octets = replicate sz 0\<rparr>"

definition Asn1PrimitiveValue_clone :: "Asn1PrimitiveValue \<Rightarrow> Asn1PrimitiveValue option" where
  "Asn1PrimitiveValue_clone self = do {
     (os, _) \<leftarrow> put_from (asn1_octets self) 0 (asn1_maxSize self) (replicate (asn1_maxSize self) 0, 0);
     Some \<lparr>asn1_size = asn1_size self, asn1_maxSize = asn1_maxSize self, asn1_octets = os\<rparr> }"

text \<open>\<open>memcmp(a, b, k) == 0\<close>.\<close>

fun memcmp_eq :: "u8 list \<Rightarrow> u8 list \<Rightarrow> nat \<Rightarrow> nat \<Rightarrow> bool option" where
  "memcmp_eq a b i 0 = Some True"
| "memcmp_eq a b i (Suc k) = do {
     x \<leftarrow> rd a i;
     y \<leftarrow> rd b i;
     if x = y then memcmp_eq a b (Suc i) k else Some False }"

definition Asn1PrimitivaValue_compare ::
    "Asn1PrimitiveValue \<Rightarrow> Asn1PrimitiveValue \<Rightarrow> bool option" where
  "Asn1PrimitivaValue_compare self otherValue =
     (if asn1_size self = asn1_size otherValue
      then memcmp_eq (asn1_octets self) (asn1_octets otherValue) 0 (asn1_size self)
      else Some False)"

section \<open>Setters\<close>

text \<open>\<open>memcpy(self->octets, src, k)\<close>.\<close>

definition copy_octets :: "Asn1PrimitiveValue \<Rightarrow> u8 list \<Rightarrow> nat \<Rightarrow> Asn1PrimitiveValue option" where
  "copy_octets self src k = do {
     (os, _) \<leftarrow> put_from src 0 k (asn1_octets self, 0);
     Some (self\<lparr>asn1_octets := os\<rparr>) }"

definition setIntegerValue ::
    "Asn1PrimitiveValue \<Rightarrow> u8 list \<Rightarrow> nat \<Rightarrow> (Asn1PrimitiveValue \<times> bool) option" where
  "setIntegerValue self valueBuffer bufferSize = do {
     valueBuffer \<leftarrow> BerEncoder_revertByteOrder valueBuffer bufferSize;
     (valueBuffer, sz) \<leftarrow> BerEncoder_compressInteger valueBuffer bufferSize;
     if sz \<le> asn1_maxSize self then do {
       self \<leftarrow> copy_octets (self\<lparr>asn1_size := sz\<rparr>) valueBuffer sz;
       Some (self, True) }
     else Some (self, False) }"

definition BerInteger_createInt32 :: "Asn1PrimitiveValue" where
  "BerInteger_createInt32 = Asn1PrimitiveValue_create 5"

definition BerInteger_createFromBuffer :: "u8 list \<Rightarrow> nat \<Rightarrow> Asn1PrimitiveValue option" where
  "BerInteger_createFromBuffer buf sz = do {
     let maxSize = (if sz > 8 then sz else 8);
     self \<leftarrow> copy_octets (Asn1PrimitiveValue_create maxSize) buf sz;
     Some (self\<lparr>asn1_size := sz mod 256\<rparr>) }"

definition BerInteger_setFromBerInteger ::
    "Asn1PrimitiveValue \<Rightarrow> Asn1PrimitiveValue \<Rightarrow> (Asn1PrimitiveValue \<times> bool) option" where
  "BerInteger_setFromBerInteger self value =
     (if asn1_maxSize self \<ge> asn1_size value then do {
        self \<leftarrow> copy_octets (self\<lparr>asn1_size := asn1_size value\<rparr>) (asn1_octets value) (asn1_size value);
        Some (self, True) }
      else Some (self, False))"

definition BerInteger_setInt32 :: "Asn1PrimitiveValue \<Rightarrow> u32 \<Rightarrow> (Asn1PrimitiveValue \<times> bool) option" where
  "BerInteger_setInt32 self value = setIntegerValue self (le_bytes 4 value) 4"

definition BerInteger_createFromInt32 :: "u32 \<Rightarrow> Asn1PrimitiveValue option" where
  "BerInteger_createFromInt32 value = do {
     (asn1Value, _) \<leftarrow> BerInteger_setInt32 BerInteger_createInt32 value;
     Some asn1Value }"

definition BerInteger_setUint16 :: "Asn1PrimitiveValue \<Rightarrow> u16 \<Rightarrow> (Asn1PrimitiveValue \<times> bool) option" where
  "BerInteger_setUint16 self value = setIntegerValue self (le_bytes 2 value) 2"

definition BerInteger_setUint8 :: "Asn1PrimitiveValue \<Rightarrow> u8 \<Rightarrow> (Asn1PrimitiveValue \<times> bool) option" where
  "BerInteger_setUint8 self value = setIntegerValue self (le_bytes 1 value) 1"

definition BerInteger_setUint32 :: "Asn1PrimitiveValue \<Rightarrow> u32 \<Rightarrow> (Asn1PrimitiveValue \<times> bool) option" where
  "BerInteger_setUint32 self value =
     (let byteBuffer = le_bytes 4 value @ [0] in setIntegerValue self byteBuffer 5)"

definition BerInteger_createFromUint32 :: "u32 \<Rightarrow> Asn1PrimitiveValue option" where
  "BerInteger_createFromUint32 value = do {
     (asn1Value, _) \<leftarrow> BerInteger_setUint32 BerInteger_createInt32 value;
     Some asn1Value }"

definition BerInteger_createInt64 :: "Asn1PrimitiveValue" where
  "BerInteger_createInt64 = Asn1PrimitiveValue_create 9"

definition BerInteger_setInt64 :: "Asn1PrimitiveValue \<Rightarrow> u64 \<Rightarrow> (Asn1PrimitiveValue \<times> bool) option" where
  "BerInteger_setInt64 self value = setIntegerValue self (le_bytes 8 value) 8"

definition BerInteger_createFromInt64 :: "u64 \<Rightarrow> Asn1PrimitiveValue option" where
  "BerInteger_createFromInt64 value = do {
     (asn1Value, _) \<leftarrow> BerInteger_setInt64 BerInteger_createInt64 value;
     Some asn1Value }"

section \<open>Getters\<close>

text \<open>\<open>for (i = 0; i < size; i++) value = (value << 8) | buf[i]\<close>, at the width of \<open>value\<close>.\<close>

fun accumulate_or :: "u8 list \<Rightarrow> nat \<Rightarrow> nat \<Rightarrow> 'a::len word \<Rightarrow> 'a word option" where
  "accumulate_or buf i 0 value = Some value"
| "accumulate_or buf i (Suc k) value = do {
     b \<leftarrow> rd buf i;
     accumulate_or buf (Suc i) k (push_bit 8 value OR ucast b) }"

definition BerInteger_toInt32 :: "Asn1PrimitiveValue \<Rightarrow> u32 option option" where
  "BerInteger_toInt32 self =
     (if asn1_size self < 5 then do {
        b \<leftarrow> rd (asn1_octets self) 0;
        let nativeValue = (if b AND 0x80 \<noteq> 0 then 0xffffffff else 0);
        v \<leftarrow> accumulate_or (asn1_octets self) 0 (asn1_size self) nativeValue;
        Some (Some v) }
      else Some None)"

definition BerInteger_toUint32 :: "Asn1PrimitiveValue \<Rightarrow> u32 option option" where
  "BerInteger_toUint32 self =
     (if asn1_size self < 6 then do {
        v \<leftarrow> accumulate_or (asn1_octets self) 0 (asn1_size self) 0;
        Some (Some v) }
      else Some None)"

definition BerInteger_toInt64 :: "Asn1PrimitiveValue \<Rightarrow> u64 option option" where
  "BerInteger_toInt64 self =
     (if asn1_size self < 9 then do {
        b \<leftarrow> rd (asn1_octets self) 0;
        let nativeValue = (if b AND 0x80 \<noteq> 0 then 0xffffffffffffffff else 0);
        v \<leftarrow> accumulate_or (asn1_octets self) 0 (asn1_size self) nativeValue;
        Some (Some v) }
      else Some None)"

section \<open>Invariant and denotation\<close>

definition ber_integer_ok :: "Asn1PrimitiveValue \<Rightarrow> bool" where
  "ber_integer_ok v \<longleftrightarrow> length (asn1_octets v) = asn1_maxSize v \<and>
     1 \<le> asn1_size v \<and> asn1_size v \<le> asn1_maxSize v"

definition ber_content :: "Asn1PrimitiveValue \<Rightarrow> u8 list" where
  "ber_content v = take (asn1_size v) (asn1_octets v)"

definition ber_value :: "Asn1PrimitiveValue \<Rightarrow> int" where
  "ber_value v = be_sint (ber_content v)"

lemma length_ber_content: "ber_integer_ok v \<Longrightarrow> length (ber_content v) = asn1_size v"
  by (simp add: ber_integer_ok_def ber_content_def)

lemma copy_octets_eq [buf_simps]:
  "k \<le> length src \<Longrightarrow> k \<le> length (asn1_octets self) \<Longrightarrow>
   copy_octets self src k =
     Some (self\<lparr>asn1_octets := take k src @ drop k (asn1_octets self)\<rparr>)"
  by (simp add: copy_octets_def put_from_puts puts_eq splice_def)

lemma memcmp_eq_take:
  "i + k \<le> length a \<Longrightarrow> i + k \<le> length b \<Longrightarrow>
   memcmp_eq a b i k = Some (take k (drop i a) = take k (drop i b))"
proof (induction a b i k rule: memcmp_eq.induct)
  case (2 a b i k)
  then have "take (Suc k) (drop i a) = a ! i # take k (drop (Suc i) a)"
    "take (Suc k) (drop i b) = b ! i # take k (drop (Suc i) b)"
    by (simp_all add: Cons_nth_drop_Suc [symmetric])
  then show ?case using 2 by (simp add: rd_def)
qed simp

text \<open>A setter stores the stripped octets when they fit and leaves the object alone otherwise.\<close>

lemma setIntegerValue_eq:
  assumes "cs \<noteq> []" "n = length cs" "ber_integer_ok self"
  shows "setIntegerValue self cs n =
    Some (let bs = strip (rev cs) in
      if length bs \<le> asn1_maxSize self
      then (self\<lparr>asn1_size := length bs, asn1_octets := bs @ drop (length bs) (asn1_octets self)\<rparr>, True)
      else (self, False))"
  using assms compress_whole [of n "rev cs"]
  by (simp add: setIntegerValue_def buf_simps Let_def ber_integer_ok_def)

lemma setIntegerValue_ok:
  assumes "cs \<noteq> []" "n = length cs" "ber_integer_ok self"
    and fits: "length (strip (rev cs)) \<le> asn1_maxSize self"
  obtains self' where "setIntegerValue self cs n = Some (self', True)" "ber_integer_ok self'"
    "ber_content self' = strip (rev cs)" "asn1_maxSize self' = asn1_maxSize self"
proof -
  let ?bs = "strip (rev cs)"
  let ?s = "self\<lparr>asn1_size := length ?bs, asn1_octets := ?bs @ drop (length ?bs) (asn1_octets self)\<rparr>"
  have "1 \<le> length ?bs" using assms(1) by (simp add: Suc_le_eq)
  then have "ber_integer_ok ?s" using assms(3) fits by (simp add: ber_integer_ok_def)
  moreover have "ber_content ?s = ?bs" by (simp add: ber_content_def)
  ultimately show ?thesis
    using that [of ?s] setIntegerValue_eq [OF assms(1-3)] fits by (simp add: Let_def)
qed

section \<open>What the getters read\<close>

lemma word_shift_or:
  assumes "8 \<le> LENGTH('a)"
  shows "push_bit 8 v OR ucast (b :: u8) = (word_of_int (uint v * 256 + uint b) :: 'a::len word)"
proof -
  have "push_bit 8 v AND ucast b = 0"
    by (rule bit_word_eqI) (auto simp: bit_simps dest: bit_imp_le_length)
  then have "push_bit 8 v OR ucast b = push_bit 8 v + ucast b"
    using word_plus_and_or [of "push_bit 8 v" "ucast b"] by simp
  also have "\<dots> = word_of_int (uint v * 256 + uint b)"
    by (simp add: push_bit_eq_mult ucast_eq [symmetric])
  finally show ?thesis .
qed

lemma accumulate_or_eq:
  assumes "8 \<le> LENGTH('a)" "i + k \<le> length buf"
  shows "accumulate_or buf i k (v :: 'a::len word) =
    Some (word_of_int (uint v * 256 ^ k + be_uint (take k (drop i buf))))"
  using assms(2)
proof (induction k arbitrary: i v)
  case 0
  then show ?case by (simp add: byte_simps)
next
  case (Suc k)
  let ?w = "push_bit 8 v OR ucast (buf ! i)"
  have "accumulate_or buf i (Suc k) v = accumulate_or buf (Suc i) k ?w"
    using Suc.prems by (simp add: rd_def)
  also have "\<dots> = Some (word_of_int (uint ?w * 256 ^ k + be_uint (take k (drop (Suc i) buf))))"
    using Suc.prems by (intro Suc.IH) simp
  also have "(word_of_int (uint ?w * 256 ^ k + be_uint (take k (drop (Suc i) buf))) :: 'a word)
      = ?w * 256 ^ k + word_of_int (be_uint (take k (drop (Suc i) buf)))"
    by (simp add: of_int_add [symmetric])
  also have "\<dots> = word_of_int ((uint v * 256 + uint (buf ! i)) * 256 ^ k
        + be_uint (take k (drop (Suc i) buf)))"
    unfolding word_shift_or [OF assms(1)] by simp
  also have "(uint v * 256 + uint (buf ! i)) * 256 ^ k + be_uint (take k (drop (Suc i) buf))
      = uint v * 256 ^ Suc k + be_uint (take (Suc k) (drop i buf))"
  proof -
    have "length (take k (drop (Suc i) buf)) = k" using Suc.prems by simp
    then show ?thesis using Suc.prems
      by (simp add: Cons_nth_drop_Suc [symmetric] be_uint_Cons algebra_simps)
  qed
  finally show ?case .
qed

lemma be_sint_nonneg: "0 \<le> be_sint bs \<Longrightarrow> be_uint bs = be_sint bs"
  using be_uint_less [of bs] by (auto simp: be_sint_def split: if_splits)

text \<open>The sign extension turns the unsigned reading into the two's complement one.\<close>

lemma accumulate_signed:
  assumes "8 \<le> LENGTH('a)" "0 < k" "k \<le> length buf"
  shows "accumulate_or buf 0 k (if buf ! 0 AND 0x80 \<noteq> 0 then - 1 else 0) =
    Some (word_of_int (be_sint (take k buf)) :: 'a::len word)"
proof -
  obtain b cs where buf: "buf = b # cs" using assms by (cases buf) auto
  then have hd: "take k buf \<noteq> []" "hd (take k buf) = b" using assms by (cases k; auto)+
  have len: "length (take k buf) = k" using assms by simp
  show ?thesis
  proof (cases "128 \<le> uint b")
    case True
    have "word_of_int (uint (- 1 :: 'a word) * 256 ^ k + be_uint (take k buf))
       = (word_of_int (be_uint (take k buf) - 256 ^ k) :: 'a word)"
      by simp
    with True show ?thesis
      using accumulate_or_eq [of 0 k buf "- 1 :: 'a word"] assms hd len
      by (simp add: be_sint_def buf u8_and_0x80)
  next
    case False
    then show ?thesis
      using accumulate_or_eq [of 0 k buf "0 :: 'a word"] assms hd
      by (simp add: be_sint_def buf u8_and_0x80)
  qed
qed

lemma all_ones: "(0xffffffff :: u32) = - 1" "(0xffffffffffffffff :: u64) = - 1"
  by simp_all

lemma toInt32_value:
  assumes "ber_integer_ok v" "asn1_size v \<le> 4"
  shows "BerInteger_toInt32 v = Some (Some (word_of_int (ber_value v)))"
  using assms accumulate_signed [of "asn1_size v" "asn1_octets v", where 'a = 32]
  by (cases "asn1_octets v ! 0 AND 0x80 = 0")
    (simp_all add: BerInteger_toInt32_def ber_integer_ok_def rd_def ber_value_def ber_content_def
      all_ones)

lemma toInt64_value:
  assumes "ber_integer_ok v" "asn1_size v \<le> 8"
  shows "BerInteger_toInt64 v = Some (Some (word_of_int (ber_value v)))"
  using assms accumulate_signed [of "asn1_size v" "asn1_octets v", where 'a = 64]
  by (cases "asn1_octets v ! 0 AND 0x80 = 0")
    (simp_all add: BerInteger_toInt64_def ber_integer_ok_def rd_def ber_value_def ber_content_def
      all_ones)

lemma toUint32_value:
  assumes "ber_integer_ok v" "asn1_size v \<le> 5"
  shows "BerInteger_toUint32 v = Some (Some (word_of_int (be_uint (ber_content v))))"
  using assms accumulate_or_eq [of 0 "asn1_size v" "asn1_octets v" "0 :: u32"]
  by (simp add: BerInteger_toUint32_def ber_integer_ok_def ber_content_def)

lemma strip_le: "length (strip cs) \<le> n" if "length cs \<le> n"
  using strip_length_le [of cs] that by simp

lemma create_ok [simp]: "1 \<le> n \<Longrightarrow> n < 256 \<Longrightarrow> ber_integer_ok (Asn1PrimitiveValue_create n)"
  by (simp add: ber_integer_ok_def Asn1PrimitiveValue_create_def)

text \<open>
  Storing a 32-bit signed value and reading it back is the identity: on any well-formed
  object with room for 4 octets \<open>BerInteger_setInt32\<close> succeeds, keeps the object well-formed,
  makes it denote the value, and \<open>BerInteger_toInt32\<close> returns exactly the value stored.
\<close>

theorem toInt32_setInt32:
  assumes "ber_integer_ok self" "4 \<le> asn1_maxSize self"
  shows "\<exists>self'. BerInteger_setInt32 self w = Some (self', True) \<and> ber_integer_ok self' \<and>
    ber_value self' = sint w \<and> BerInteger_toInt32 self' = Some (Some w)"
proof -
  let ?bs = "rev (le_bytes 4 w)"
  have len: "length (strip ?bs) \<le> 4" by (rule strip_le) (simp add: length_le_bytes)
  obtain self' where s: "BerInteger_setInt32 self w = Some (self', True)" "ber_integer_ok self'"
    "ber_content self' = strip ?bs"
    using setIntegerValue_ok [of "le_bytes 4 w" 4 self] assms len le_bytes_4_ne
    unfolding BerInteger_setInt32_def by (auto simp: length_le_bytes)
  have v: "ber_value self' = sint w"
    by (simp add: ber_value_def s be_sint_strip be_sint_le_bytes)
  moreover have "asn1_size self' \<le> 4" using length_ber_content [OF s(2)] s(3) len by simp
  then have "BerInteger_toInt32 self' = Some (Some w)"
    using toInt32_value [OF s(2)] v by simp
  ultimately show ?thesis using s by blast
qed

theorem toInt32_setInt32_witness:
  "\<exists>self'. BerInteger_setInt32 BerInteger_createInt32 (- 129) = Some (self', True) \<and>
    ber_integer_ok self' \<and> ber_value self' = sint (- 129 :: u32) \<and>
    BerInteger_toInt32 self' = Some (Some (- 129))"
  by (rule toInt32_setInt32) (simp_all add: BerInteger_createInt32_def ber_integer_ok_def Asn1PrimitiveValue_create_def)

text \<open>
  The same for unsigned 32-bit values, whose encoding may need a fifth, zero octet:
  \<open>BerInteger_toUint32\<close> inverts \<open>BerInteger_setUint32\<close> on every object with room for 5.
\<close>

theorem toUint32_setUint32:
  assumes "ber_integer_ok self" "5 \<le> asn1_maxSize self"
  shows "\<exists>self'. BerInteger_setUint32 self w = Some (self', True) \<and> ber_integer_ok self' \<and>
    ber_value self' = uint w \<and> BerInteger_toUint32 self' = Some (Some w)"
proof -
  let ?bs = "0 # rev (le_bytes 4 w)"
  have len: "length (strip ?bs) \<le> 5" by (rule strip_le) (simp add: length_le_bytes)
  obtain self' where s: "BerInteger_setUint32 self w = Some (self', True)" "ber_integer_ok self'"
    "ber_content self' = strip ?bs"
    using setIntegerValue_ok [of "le_bytes 4 w @ [0]" 5 self] assms len
    unfolding BerInteger_setUint32_def Let_def by (auto simp: length_le_bytes)
  have "be_uint (rev (le_bytes 4 w)) = uint w"
    using be_uint_le_bytes [of 4 w] uint_lt2p [of w] by simp
  then have v: "ber_value self' = uint w"
    by (simp add: ber_value_def s be_sint_strip be_sint_Cons)
  then have "be_uint (ber_content self') = uint w"
    using be_sint_nonneg [of "ber_content self'"] by (simp add: ber_value_def)
  moreover have "asn1_size self' \<le> 5" using length_ber_content [OF s(2)] s(3) len by simp
  ultimately have "BerInteger_toUint32 self' = Some (Some w)"
    using toUint32_value [OF s(2)] by simp
  then show ?thesis using s v by blast
qed

theorem toUint32_setUint32_witness:
  "\<exists>self'. BerInteger_setUint32 BerInteger_createInt32 0xfffffff0 = Some (self', True) \<and>
    ber_integer_ok self' \<and> ber_value self' = uint (0xfffffff0 :: u32) \<and>
    BerInteger_toUint32 self' = Some (Some 0xfffffff0)"
  by (rule toUint32_setUint32) (simp_all add: BerInteger_createInt32_def ber_integer_ok_def Asn1PrimitiveValue_create_def)

lemma toInt64_setInt64:
  assumes "ber_integer_ok self" "8 \<le> asn1_maxSize self"
  shows "\<exists>self'. BerInteger_setInt64 self w = Some (self', True) \<and> ber_integer_ok self' \<and>
    ber_value self' = sint w \<and> BerInteger_toInt64 self' = Some (Some w)"
proof -
  let ?bs = "rev (le_bytes 8 w)"
  have len: "length (strip ?bs) \<le> 8" by (rule strip_le) (simp add: length_le_bytes)
  have ne: "le_bytes 8 w \<noteq> []" using length_le_bytes [of 8 w] by auto
  obtain self' where s: "BerInteger_setInt64 self w = Some (self', True)" "ber_integer_ok self'"
    "ber_content self' = strip ?bs"
    using setIntegerValue_ok [of "le_bytes 8 w" 8 self] assms len ne
    unfolding BerInteger_setInt64_def by (auto simp: length_le_bytes)
  have v: "ber_value self' = sint w"
    by (simp add: ber_value_def s be_sint_strip be_sint_le_bytes)
  moreover have "asn1_size self' \<le> 8" using length_ber_content [OF s(2)] s(3) len by simp
  then have "BerInteger_toInt64 self' = Some (Some w)"
    using toInt64_value [OF s(2)] v by simp
  ultimately show ?thesis using s by blast
qed

text \<open>
  What an unsigned 16-bit value becomes. \<open>BerInteger_setUint16\<close> and
  \<open>BerInteger_setUint8\<close> hand the bytes to the signed compression without the leading zero
  \<open>BerInteger_setUint32\<close> adds, so the object denotes the value read as a signed 16-bit
  (8-bit) number: 65535 is stored as the single octet of -1, and \<open>BerInteger_toUint32\<close> then
  answers 255.
\<close>

theorem setUint16_signed:
  assumes "ber_integer_ok self" "2 \<le> asn1_maxSize self"
  shows "(\<exists>self'. BerInteger_setUint16 self v16 = Some (self', True) \<and> ber_integer_ok self' \<and>
      ber_value self' = sint v16) \<and>
    (\<exists>self'. BerInteger_setUint8 self v8 = Some (self', True) \<and> ber_integer_ok self' \<and>
      ber_value self' = sint v8) \<and>
    (\<exists>self'. BerInteger_setUint16 BerInteger_createInt32 65535 = Some (self', True) \<and>
      BerInteger_toUint32 self' = Some (Some 255))"
proof (intro conjI)
  have ne: "le_bytes 2 v16 \<noteq> []" "le_bytes 1 v8 \<noteq> []"
    using length_le_bytes [of 2 v16] length_le_bytes [of 1 v8] by auto
  have len: "length (strip (rev (le_bytes 2 v16))) \<le> 2" "length (strip (rev (le_bytes 1 v8))) \<le> 2"
    by (rule strip_le; simp add: length_le_bytes)+
  show "\<exists>self'. BerInteger_setUint16 self v16 = Some (self', True) \<and> ber_integer_ok self' \<and>
      ber_value self' = sint v16"
  proof (rule setIntegerValue_ok [of "le_bytes 2 v16" 2 self])
    fix t assume t: "setIntegerValue self (le_bytes 2 v16) 2 = Some (t, True)" "ber_integer_ok t"
      "ber_content t = strip (rev (le_bytes 2 v16))"
    have "ber_value t = sint v16"
      unfolding ber_value_def t(3) be_sint_strip by (rule be_sint_le_bytes) simp
    with t(1,2) show ?thesis unfolding BerInteger_setUint16_def by blast
  qed (use assms len ne in \<open>simp_all add: length_le_bytes\<close>)
  show "\<exists>self'. BerInteger_setUint8 self v8 = Some (self', True) \<and> ber_integer_ok self' \<and>
      ber_value self' = sint v8"
  proof (rule setIntegerValue_ok [of "le_bytes 1 v8" 1 self])
    fix t assume t: "setIntegerValue self (le_bytes 1 v8) 1 = Some (t, True)" "ber_integer_ok t"
      "ber_content t = strip (rev (le_bytes 1 v8))"
    have "ber_value t = sint v8"
      unfolding ber_value_def t(3) be_sint_strip by (rule be_sint_le_bytes) simp
    with t(1,2) show ?thesis unfolding BerInteger_setUint8_def by blast
  qed (use assms len ne in \<open>simp_all add: length_le_bytes\<close>)
  show "\<exists>self'. BerInteger_setUint16 BerInteger_createInt32 65535 = Some (self', True) \<and>
      BerInteger_toUint32 self' = Some (Some 255)"
  proof -
    have "le_bytes 2 (65535 :: u16) = [255, 255]"
      by (simp add: le_bytes_def upt_conv_Cons drop_bit_eq_div)
    moreover have ok: "ber_integer_ok BerInteger_createInt32" "asn1_maxSize BerInteger_createInt32 = 5"
      by (simp_all add: BerInteger_createInt32_def ber_integer_ok_def Asn1PrimitiveValue_create_def)
    moreover have "strip (rev [255, 255]) = [255]"
      by (simp add: redundant_uint)
    ultimately obtain self' where s: "BerInteger_setUint16 BerInteger_createInt32 65535 = Some (self', True)"
      "ber_integer_ok self'" "ber_content self' = [255]"
      using setIntegerValue_ok [of "[255, 255]" 2 BerInteger_createInt32]
      unfolding BerInteger_setUint16_def by auto
    moreover have "asn1_size self' \<le> 5"
      using length_ber_content [OF s(2)] s(3) by simp
    ultimately show ?thesis
      using toUint32_value [of self'] by (simp add: be_uint_def)
  qed
qed

theorem setUint16_signed_witness:
  "(\<exists>self'. BerInteger_setUint16 BerInteger_createInt32 40000 = Some (self', True) \<and>
      ber_integer_ok self' \<and> ber_value self' = sint (40000 :: u16)) \<and>
    (\<exists>self'. BerInteger_setUint8 BerInteger_createInt32 200 = Some (self', True) \<and>
      ber_integer_ok self' \<and> ber_value self' = sint (200 :: u8))"
  using setUint16_signed [of BerInteger_createInt32 40000 200]
  by (simp add: BerInteger_createInt32_def ber_integer_ok_def Asn1PrimitiveValue_create_def)

lemma clone_eq: "ber_integer_ok v \<Longrightarrow> Asn1PrimitiveValue_clone v = Some v"
  by (simp add: Asn1PrimitiveValue_clone_def ber_integer_ok_def put_from_puts puts_eq splice_def)

lemma compare_iff:
  "ber_integer_ok v \<Longrightarrow> ber_integer_ok w \<Longrightarrow>
   Asn1PrimitivaValue_compare v w = Some (ber_content v = ber_content w)"
  using memcmp_eq_take [of 0 "asn1_size v" "asn1_octets v" "asn1_octets w"]
  by (auto simp: Asn1PrimitivaValue_compare_def ber_integer_ok_def ber_content_def
      dest!: arg_cong [where f = length])

lemma setFromBerInteger_content:
  assumes "ber_integer_ok self" "ber_integer_ok v"
  shows "\<exists>self'. BerInteger_setFromBerInteger self v = Some (self', asn1_size v \<le> asn1_maxSize self) \<and>
    ber_integer_ok self' \<and>
    ber_content self' = (if asn1_size v \<le> asn1_maxSize self then ber_content v else ber_content self)"
  using assms
  by (auto simp: BerInteger_setFromBerInteger_def ber_integer_ok_def buf_simps ber_content_def)

end
