(* ===== verification/MmsValue.thy ===== *)
theory MmsValue
  imports BerInteger
begin

text \<open>
  \<^verbatim>\<open>libmms/src/mms/iso_mms/common/mms_value.c\<close>: the dynamically typed value every MMS service
  exchanges, with \<^verbatim>\<open>mms_types.h\<close>'s variable specifications.

  The tagged union is the datatype \<open>MmsValue\<close>, one constructor per tag, with the fields of the
  union member as arguments. Components of arrays and structures are pointers, so they are
  optional; values do not share components. Reading a union member other than the one the tag
  announces, a null component or a byte outside a buffer is \<open>None\<close>. Memory allocation is
  taken to succeed, and bytes an allocation leaves indeterminate are zero in the model.
  The character array of a string is represented by the C string in it (\<open>None\<close> for a null
  pointer) and by its \<open>int16_t\<close> capacity field.
\<close>

datatype MmsType =
  MMS_ARRAY | MMS_STRUCTURE | MMS_BOOLEAN | MMS_BIT_STRING | MMS_INTEGER | MMS_UNSIGNED |
  MMS_FLOAT | MMS_OCTET_STRING | MMS_VISIBLE_STRING | MMS_GENERALIZED_TIME | MMS_BINARY_TIME |
  MMS_BCD | MMS_OBJ_ID | MMS_STRING | MMS_UTC_TIME | MMS_DATA_ACCESS_ERROR

datatype MmsValue =
    ValArray "MmsValue option list"
  | ValStructure "MmsValue option list"
  | ValBoolean bool
  | ValBitString nat "u8 list" \<comment> \<open>size in bits, buf\<close>
  | ValInteger Asn1PrimitiveValue
  | ValUnsigned Asn1PrimitiveValue
  | ValFloat nat nat "u8 list" \<comment> \<open>exponentWidth, formatWidth, buf\<close>
  | ValOctetString nat nat "u8 list" \<comment> \<open>size, maxSize, buf\<close>
  | ValVisibleString int "cstr option" \<comment> \<open>size, buf\<close>
  | ValMmsString int "cstr option"
  | ValUtcTime "u8 list"
  | ValBinaryTime nat "u8 list" \<comment> \<open>size, buf\<close>
  | ValDataAccessError int

fun MmsValue_getType :: "MmsValue \<Rightarrow> MmsType" where
  "MmsValue_getType (ValArray _) = MMS_ARRAY"
| "MmsValue_getType (ValStructure _) = MMS_STRUCTURE"
| "MmsValue_getType (ValBoolean _) = MMS_BOOLEAN"
| "MmsValue_getType (ValBitString _ _) = MMS_BIT_STRING"
| "MmsValue_getType (ValInteger _) = MMS_INTEGER"
| "MmsValue_getType (ValUnsigned _) = MMS_UNSIGNED"
| "MmsValue_getType (ValFloat _ _ _) = MMS_FLOAT"
| "MmsValue_getType (ValOctetString _ _ _) = MMS_OCTET_STRING"
| "MmsValue_getType (ValVisibleString _ _) = MMS_VISIBLE_STRING"
| "MmsValue_getType (ValMmsString _ _) = MMS_STRING"
| "MmsValue_getType (ValUtcTime _) = MMS_UTC_TIME"
| "MmsValue_getType (ValBinaryTime _ _) = MMS_BINARY_TIME"
| "MmsValue_getType (ValDataAccessError _) = MMS_DATA_ACCESS_ERROR"

definition MmsValue_getTypeString :: "MmsValue \<Rightarrow> string" where
  "MmsValue_getTypeString self =
     (case MmsValue_getType self of
        MMS_ARRAY \<Rightarrow> ''array''
      | MMS_BCD \<Rightarrow> ''bcd''
      | MMS_BINARY_TIME \<Rightarrow> ''binary-time''
      | MMS_BIT_STRING \<Rightarrow> ''bit-string''
      | MMS_BOOLEAN \<Rightarrow> ''boolean''
      | MMS_DATA_ACCESS_ERROR \<Rightarrow> ''access-error''
      | MMS_FLOAT \<Rightarrow> ''float''
      | MMS_GENERALIZED_TIME \<Rightarrow> ''generalized-time''
      | MMS_INTEGER \<Rightarrow> ''integer''
      | MMS_OBJ_ID \<Rightarrow> ''oid''
      | MMS_STRING \<Rightarrow> ''mms-string''
      | MMS_STRUCTURE \<Rightarrow> ''structure''
      | MMS_OCTET_STRING \<Rightarrow> ''octet-string''
      | MMS_UNSIGNED \<Rightarrow> ''unsigned''
      | MMS_UTC_TIME \<Rightarrow> ''utc-time''
      | MMS_VISIBLE_STRING \<Rightarrow> ''visible-string'')"

section \<open>Bit strings\<close>

definition bitStringByteSize :: "nat \<Rightarrow> nat" where
  "bitStringByteSize bitSize = bitSize div 8 + (if bitSize mod 8 > 0 then 1 else 0)"

definition MmsValue_newBitString :: "int \<Rightarrow> MmsValue" where
  "MmsValue_newBitString bitSize =
     (let sz = nat \<bar>bitSize\<bar> in ValBitString sz (replicate (bitStringByteSize sz) 0))"

fun MmsValue_setBitStringBit :: "MmsValue \<Rightarrow> nat \<Rightarrow> bool \<Rightarrow> MmsValue option" where
  "MmsValue_setBitStringBit (ValBitString sz buf) bitPos val =
     (if bitPos < sz then do {
        let bytePos = bitPos div 8;
        let bitPosInByte = 7 - bitPos mod 8;
        let bitMask = push_bit bitPosInByte 1;
        b \<leftarrow> rd buf bytePos;
        buf \<leftarrow> wr buf bytePos (if val then b OR bitMask else b AND NOT bitMask);
        Some (ValBitString sz buf) }
      else Some (ValBitString sz buf))"
| "MmsValue_setBitStringBit _ bitPos val = None"

fun MmsValue_getBitStringBit :: "MmsValue \<Rightarrow> nat \<Rightarrow> bool option" where
  "MmsValue_getBitStringBit (ValBitString sz buf) bitPos =
     (if bitPos < sz then do {
        let bytePos = bitPos div 8;
        let bitPosInByte = 7 - bitPos mod 8;
        let bitMask = push_bit bitPosInByte 1;
        b \<leftarrow> rd buf bytePos;
        Some (b AND bitMask > 0) }
      else Some False)"
| "MmsValue_getBitStringBit _ bitPos = None"

fun MmsValue_getBitStringSize :: "MmsValue \<Rightarrow> nat option" where
  "MmsValue_getBitStringSize (ValBitString sz _) = Some sz"
| "MmsValue_getBitStringSize _ = None"

fun MmsValue_deleteAllBitStringBits :: "MmsValue \<Rightarrow> MmsValue option" where
  "MmsValue_deleteAllBitStringBits (ValBitString sz buf) = do {
     buf \<leftarrow> for_each [0..<bitStringByteSize sz] (\<lambda>i buf. wr buf i 0) buf;
     Some (ValBitString sz buf) }"
| "MmsValue_deleteAllBitStringBits _ = None"

text \<open>The mask of the bits in use in the last byte.\<close>

definition unused_bits_mask :: "nat \<Rightarrow> u8" where
  "unused_bits_mask padding = NOT (foldl (\<lambda>m i. m + push_bit i 1) 0 [0..<padding])"

text \<open>For size 0 the access to \<open>buf[byteSize - 1]\<close> is outside the buffer.\<close>

fun MmsValue_setAllBitStringBits :: "MmsValue \<Rightarrow> MmsValue option" where
  "MmsValue_setAllBitStringBits (ValBitString sz buf) = do {
     let byteSize = bitStringByteSize sz;
     buf \<leftarrow> for_each [0..<byteSize] (\<lambda>i buf. wr buf i 0xff) buf;
     let padding = byteSize * 8 - sz;
     b \<leftarrow> rdi buf (int byteSize - 1);
     buf \<leftarrow> wr buf (byteSize - 1) (b AND unused_bits_mask padding);
     Some (ValBitString sz buf) }"
| "MmsValue_setAllBitStringBits _ = None"

text \<open>\<open>while (currentByte != 0)\<close>: the bits of one byte.\<close>

function count_bits :: "u8 \<Rightarrow> nat" where
  "count_bits currentByte =
     (if currentByte \<noteq> 0
      then (if currentByte AND 1 = 1 then 1 else 0) + count_bits (drop_bit 1 currentByte)
      else 0)"
  by auto
termination
proof (relation "measure unat")
  fix b :: u8
  assume "b \<noteq> 0"
  then have "0 < unat b" by (simp add: unat_gt_0)
  then show "(drop_bit 1 b, b) \<in> measure unat"
    by (simp add: drop_bit_eq_div unat_div)
qed simp

declare count_bits.simps [simp del]

fun MmsValue_getNumberOfSetBits :: "MmsValue \<Rightarrow> (MmsValue \<times> nat) option" where
  "MmsValue_getNumberOfSetBits (ValBitString sz buf) = do {
     let byteSize = bitStringByteSize sz;
     (buf, setBitsCount) \<leftarrow> for_each [0..<byteSize]
       (\<lambda>i (buf, setBitsCount). do {
          buf \<leftarrow> (if i = byteSize - 1 then do {
                   b \<leftarrow> rd buf i;
                   wr buf i (b AND unused_bits_mask (byteSize * 8 - sz)) }
                 else Some buf);
          currentByte \<leftarrow> rd buf i;
          Some (buf, setBitsCount + count_bits currentByte) }) (buf, 0);
     Some (ValBitString sz buf, setBitsCount) }"
| "MmsValue_getNumberOfSetBits _ = None"

text \<open>\<open>1 << bitPos\<close> on \<open>int\<close> is undefined from the width of \<open>int\<close> on.\<close>

definition shift_one :: "nat \<Rightarrow> u32 option" where
  "shift_one k = (if k < 32 then Some (push_bit k 1) else None)"

definition add_bit :: "MmsValue \<Rightarrow> nat \<Rightarrow> nat \<Rightarrow> u32 \<Rightarrow> u32 option" where
  "add_bit self bitPos i val = do {
     b \<leftarrow> MmsValue_getBitStringBit self bitPos;
     if b then do { s \<leftarrow> shift_one i; Some (val + s) } else Some val }"

definition MmsValue_getBitStringAsInteger :: "MmsValue \<Rightarrow> u32 option" where
  "MmsValue_getBitStringAsInteger self = do {
     sz \<leftarrow> MmsValue_getBitStringSize self;
     for_each [0..<sz] (\<lambda>bitPos. add_bit self bitPos bitPos) 0 }"

definition MmsValue_getBitStringAsIntegerBigEndian :: "MmsValue \<Rightarrow> u32 option" where
  "MmsValue_getBitStringAsIntegerBigEndian self = do {
     sz \<leftarrow> MmsValue_getBitStringSize self;
     for_each [0..<sz] (\<lambda>i. add_bit self (sz - 1 - i) i) 0 }"

definition store_low_bit :: "nat \<Rightarrow> MmsValue \<times> u32 \<Rightarrow> (MmsValue \<times> u32) option" where
  "store_low_bit bitPos s = (case s of (self, intValue) \<Rightarrow> do {
     self \<leftarrow> MmsValue_setBitStringBit self bitPos (intValue AND 1 = 1);
     Some (self, drop_bit 1 intValue) })"

definition MmsValue_setBitStringFromInteger :: "MmsValue \<Rightarrow> u32 \<Rightarrow> MmsValue option" where
  "MmsValue_setBitStringFromInteger self intValue = do {
     sz \<leftarrow> MmsValue_getBitStringSize self;
     (self, _) \<leftarrow> for_each [0..<sz] store_low_bit (self, intValue);
     Some self }"

definition MmsValue_setBitStringFromIntegerBigEndian :: "MmsValue \<Rightarrow> u32 \<Rightarrow> MmsValue option" where
  "MmsValue_setBitStringFromIntegerBigEndian self intValue = do {
     sz \<leftarrow> MmsValue_getBitStringSize self;
     (self, _) \<leftarrow> for_each (rev [0..<sz]) store_low_bit (self, intValue);
     Some self }"

section \<open>Numbers\<close>

definition MmsValue_newBoolean :: "bool \<Rightarrow> MmsValue" where
  "MmsValue_newBoolean b = ValBoolean b"

fun MmsValue_setBoolean :: "MmsValue \<Rightarrow> bool \<Rightarrow> MmsValue option" where
  "MmsValue_setBoolean (ValBoolean _) b = Some (ValBoolean b)"
| "MmsValue_setBoolean _ b = None"

fun MmsValue_getBoolean :: "MmsValue \<Rightarrow> bool option" where
  "MmsValue_getBoolean (ValBoolean b) = Some b"
| "MmsValue_getBoolean _ = None"

definition MmsValue_newInteger :: "int \<Rightarrow> MmsValue" where
  "MmsValue_newInteger sz = ValInteger (if sz \<le> 32 then BerInteger_createInt32 else BerInteger_createInt64)"

definition MmsValue_newUnsigned :: "int \<Rightarrow> MmsValue" where
  "MmsValue_newUnsigned sz = ValUnsigned (if sz \<le> 32 then BerInteger_createInt32 else BerInteger_createInt64)"

definition MmsValue_newIntegerFromInt8 :: "u8 \<Rightarrow> MmsValue option" where
  "MmsValue_newIntegerFromInt8 integer = map_option ValInteger (BerInteger_createFromInt32 (scast integer))"

definition MmsValue_newIntegerFromInt16 :: "u16 \<Rightarrow> MmsValue option" where
  "MmsValue_newIntegerFromInt16 integer = map_option ValInteger (BerInteger_createFromInt32 (scast integer))"

definition MmsValue_newIntegerFromInt32 :: "u32 \<Rightarrow> MmsValue option" where
  "MmsValue_newIntegerFromInt32 integer = map_option ValInteger (BerInteger_createFromInt32 integer)"

definition MmsValue_newIntegerFromInt64 :: "u64 \<Rightarrow> MmsValue option" where
  "MmsValue_newIntegerFromInt64 integer = map_option ValInteger (BerInteger_createFromInt64 integer)"

definition MmsValue_newUnsignedFromUint32 :: "u32 \<Rightarrow> MmsValue option" where
  "MmsValue_newUnsignedFromUint32 integer = map_option ValUnsigned (BerInteger_createFromUint32 integer)"

text \<open>
  The setters change only a value of their type whose integer object has the given room, and
  ignore the result of the \<open>BerInteger\<close> setter.
\<close>

fun set_integer :: "MmsValue \<Rightarrow> nat \<Rightarrow> (Asn1PrimitiveValue \<Rightarrow> (Asn1PrimitiveValue \<times> bool) option) \<Rightarrow> MmsValue option" where
  "set_integer (ValInteger v) room f =
     (if asn1_maxSize v \<ge> room then map_option (\<lambda>(v, _). ValInteger v) (f v) else Some (ValInteger v))"
| "set_integer self room f = Some self"

fun set_unsigned :: "MmsValue \<Rightarrow> nat \<Rightarrow> (Asn1PrimitiveValue \<Rightarrow> (Asn1PrimitiveValue \<times> bool) option) \<Rightarrow> MmsValue option" where
  "set_unsigned (ValUnsigned v) room f =
     (if asn1_maxSize v \<ge> room then map_option (\<lambda>(v, _). ValUnsigned v) (f v) else Some (ValUnsigned v))"
| "set_unsigned self room f = Some self"

definition MmsValue_setInt8 :: "MmsValue \<Rightarrow> u8 \<Rightarrow> MmsValue option" where
  "MmsValue_setInt8 self integer = set_integer self 1 (\<lambda>v. BerInteger_setInt32 v (scast integer))"

definition MmsValue_setInt16 :: "MmsValue \<Rightarrow> u16 \<Rightarrow> MmsValue option" where
  "MmsValue_setInt16 self integer = set_integer self 1 (\<lambda>v. BerInteger_setInt32 v (scast integer))"

definition MmsValue_setInt32 :: "MmsValue \<Rightarrow> u32 \<Rightarrow> MmsValue option" where
  "MmsValue_setInt32 self integer = set_integer self 4 (\<lambda>v. BerInteger_setInt32 v integer)"

definition MmsValue_setInt64 :: "MmsValue \<Rightarrow> u64 \<Rightarrow> MmsValue option" where
  "MmsValue_setInt64 self integer = set_integer self 8 (\<lambda>v. BerInteger_setInt64 v integer)"

definition MmsValue_setUint32 :: "MmsValue \<Rightarrow> u32 \<Rightarrow> MmsValue option" where
  "MmsValue_setUint32 self integer = set_unsigned self 4 (\<lambda>v. BerInteger_setUint32 v integer)"

definition MmsValue_setUint16 :: "MmsValue \<Rightarrow> u16 \<Rightarrow> MmsValue option" where
  "MmsValue_setUint16 self integer = set_unsigned self 2 (\<lambda>v. BerInteger_setUint16 v integer)"

definition MmsValue_setUint8 :: "MmsValue \<Rightarrow> u8 \<Rightarrow> MmsValue option" where
  "MmsValue_setUint8 self integer = set_unsigned self 1 (\<lambda>v. BerInteger_setUint8 v integer)"

text \<open>\<open>self->value.integer\<close> where the code has tested for either integer tag.\<close>

fun integer_member :: "MmsValue \<Rightarrow> Asn1PrimitiveValue option" where
  "integer_member (ValInteger v) = Some v"
| "integer_member (ValUnsigned v) = Some v"
| "integer_member _ = None"

definition MmsValue_toInt32 :: "MmsValue \<Rightarrow> u32 option" where
  "MmsValue_toInt32 self =
     (case integer_member self of
        Some v \<Rightarrow> map_option (\<lambda>r. case r of Some i \<Rightarrow> i | None \<Rightarrow> 0) (BerInteger_toInt32 v)
      | None \<Rightarrow> Some 0)"

definition MmsValue_toUint32 :: "MmsValue \<Rightarrow> u32 option" where
  "MmsValue_toUint32 self =
     (case integer_member self of
        Some v \<Rightarrow> map_option (\<lambda>r. case r of Some i \<Rightarrow> i | None \<Rightarrow> 0) (BerInteger_toUint32 v)
      | None \<Rightarrow> Some 0)"

definition MmsValue_toInt64 :: "MmsValue \<Rightarrow> u64 option" where
  "MmsValue_toInt64 self =
     (case integer_member self of
        Some v \<Rightarrow> map_option (\<lambda>r. case r of Some i \<Rightarrow> i | None \<Rightarrow> 0) (BerInteger_toInt64 v)
      | None \<Rightarrow> Some 0)"

text \<open>A single-precision value from its bit pattern; \<open>buf\<close> holds the object's bytes.\<close>

definition MmsValue_newFloat :: "u32 \<Rightarrow> MmsValue" where
  "MmsValue_newFloat variable = ValFloat 8 32 (le_bytes 4 variable)"

definition MmsValue_newDouble :: "u64 \<Rightarrow> MmsValue" where
  "MmsValue_newDouble variable = ValFloat 11 64 (le_bytes 8 variable)"

section \<open>Octet strings and strings\<close>

definition MmsValue_newOctetString :: "nat \<Rightarrow> nat \<Rightarrow> MmsValue" where
  "MmsValue_newOctetString sz maxSize =
     ValOctetString (sz mod 65536) (maxSize mod 65536) (replicate maxSize 0)"

text \<open>\<open>memcpy(dest, src, k)\<close>.\<close>

definition memcpy :: "u8 list \<Rightarrow> u8 list \<Rightarrow> nat \<Rightarrow> u8 list option" where
  "memcpy dest src k = map_option fst (put_from src 0 k (dest, 0))"

fun MmsValue_setOctetString :: "MmsValue \<Rightarrow> u8 list \<Rightarrow> nat \<Rightarrow> MmsValue option" where
  "MmsValue_setOctetString (ValOctetString size0 maxSize buf) src sz =
     (if sz \<le> maxSize then do {
        buf \<leftarrow> memcpy buf src sz;
        Some (ValOctetString (sz mod 65536) maxSize buf) }
      else Some (ValOctetString size0 maxSize buf))"
| "MmsValue_setOctetString _ src sz = None"

text \<open>
  \<open>setVisibleStringValue\<close> on (size, buf). A longer string reallocates and sets \<open>size\<close>, an
  \<open>int16_t\<close>; \<open>strncpy(\<dots>, size + 1)\<close> and \<open>buf[size] = 0\<close> then keep the first \<open>size\<close> characters,
  and leave the buffer when \<open>size\<close> has wrapped to a negative number.
\<close>

fun setVisibleStringValue :: "int \<Rightarrow> cstr option \<Rightarrow> cstr option \<Rightarrow> (int \<times> cstr option) option" where
  "setVisibleStringValue sz None string = Some (sz, None)"
| "setVisibleStringValue sz (Some buf) None = Some (sz, Some [])"
| "setVisibleStringValue sz (Some buf) (Some string) =
     (let newStringSize = int (length string);
          sz = (if newStringSize > sz then wrap16 newStringSize else sz)
      in if sz < 0 then None else Some (sz, Some (take (nat sz) string)))"

definition string_value :: "MmsType \<Rightarrow> int \<Rightarrow> cstr option \<Rightarrow> MmsValue option" where
  "string_value type sz buf =
     (case type of MMS_VISIBLE_STRING \<Rightarrow> Some (ValVisibleString sz buf)
      | MMS_STRING \<Rightarrow> Some (ValMmsString sz buf) | _ \<Rightarrow> None)"

definition MmsValue_newString :: "cstr option \<Rightarrow> MmsType \<Rightarrow> MmsValue option" where
  "MmsValue_newString string type =
     (case string of
        None \<Rightarrow> string_value type 0 None
      | Some s \<Rightarrow> do {
          (sz, buf) \<leftarrow> setVisibleStringValue (wrap16 (int (length s))) (Some []) string;
          string_value type sz buf })"

definition MmsValue_newVisibleString :: "cstr option \<Rightarrow> MmsValue option" where
  "MmsValue_newVisibleString string = MmsValue_newString string MMS_VISIBLE_STRING"

definition MmsValue_newMmsString :: "cstr option \<Rightarrow> MmsValue option" where
  "MmsValue_newMmsString string = MmsValue_newString string MMS_STRING"

definition MmsValue_newStringWithSize :: "nat \<Rightarrow> MmsType \<Rightarrow> MmsValue option" where
  "MmsValue_newStringWithSize sz type = string_value type (wrap16 (int sz)) (Some [])"

definition MmsValue_newVisibleStringWithSize :: "nat \<Rightarrow> MmsValue option" where
  "MmsValue_newVisibleStringWithSize sz = MmsValue_newStringWithSize sz MMS_VISIBLE_STRING"

definition MmsValue_newMmsStringWithSize :: "nat \<Rightarrow> MmsValue option" where
  "MmsValue_newMmsStringWithSize sz = MmsValue_newStringWithSize sz MMS_STRING"

fun MmsValue_setVisibleString :: "MmsValue \<Rightarrow> cstr option \<Rightarrow> MmsValue option" where
  "MmsValue_setVisibleString (ValVisibleString sz buf) string =
     map_option (\<lambda>(sz, buf). ValVisibleString sz buf) (setVisibleStringValue sz buf string)"
| "MmsValue_setVisibleString self string = Some self"

fun MmsValue_setMmsString :: "MmsValue \<Rightarrow> cstr option \<Rightarrow> MmsValue option" where
  "MmsValue_setMmsString (ValMmsString sz buf) string =
     map_option (\<lambda>(sz, buf). ValMmsString sz buf) (setVisibleStringValue sz buf string)"
| "MmsValue_setMmsString self string = Some self"

fun MmsValue_toString :: "MmsValue \<Rightarrow> cstr option" where
  "MmsValue_toString (ValVisibleString _ buf) = buf"
| "MmsValue_toString (ValMmsString _ buf) = buf"
| "MmsValue_toString _ = None"

section \<open>Times\<close>

text \<open>\<open>memcpyReverseByteOrder(valueArray, (uint8_t*) &t, 4)\<close> into the eight bytes.\<close>

definition store_seconds :: "u8 list \<Rightarrow> u32 \<Rightarrow> u8 list option" where
  "store_seconds valueArray t = memcpy valueArray (rev (le_bytes 4 t)) 4"

definition MmsValue_newUtcTime :: "u32 \<Rightarrow> MmsValue option" where
  "MmsValue_newUtcTime timeval = map_option ValUtcTime (store_seconds (replicate 8 0) timeval)"

fun MmsValue_setUtcTime :: "MmsValue \<Rightarrow> u32 \<Rightarrow> MmsValue option" where
  "MmsValue_setUtcTime (ValUtcTime valueArray) timeval = map_option ValUtcTime (store_seconds valueArray timeval)"
| "MmsValue_setUtcTime _ timeval = None"

fun MmsValue_setUtcTimeMs :: "MmsValue \<Rightarrow> u64 \<Rightarrow> MmsValue option" where
  "MmsValue_setUtcTimeMs (ValUtcTime valueArray) timeval = do {
     let timeval32 = ucast (timeval div 1000);
     valueArray \<leftarrow> store_seconds valueArray timeval32;
     let remainder = (ucast (timeval mod 1000) :: u32);
     let fractionOfSecond = remainder * 16777 + (remainder * 216) div 1000;
     valueArray \<leftarrow> wr valueArray 4 (ucast (drop_bit 16 fractionOfSecond AND 0xff));
     valueArray \<leftarrow> wr valueArray 5 (ucast (drop_bit 8 fractionOfSecond AND 0xff));
     valueArray \<leftarrow> wr valueArray 6 (ucast (fractionOfSecond AND 0xff));
     valueArray \<leftarrow> wr valueArray 7 0x0a;
     Some (ValUtcTime valueArray) }"
| "MmsValue_setUtcTimeMs _ timeval = None"

definition MmsValue_newUtcTimeByMsTime :: "u64 \<Rightarrow> MmsValue option" where
  "MmsValue_newUtcTimeByMsTime timeval = MmsValue_setUtcTimeMs (ValUtcTime (replicate 8 0)) timeval"

text \<open>The 24-bit fraction of a second, at the width of the variable it is collected in.\<close>

definition read_fraction :: "u8 list \<Rightarrow> 'a::len word option" where
  "read_fraction valueArray = do {
     b4 \<leftarrow> rd valueArray 4;
     b5 \<leftarrow> rd valueArray 5;
     b6 \<leftarrow> rd valueArray 6;
     Some (push_bit 16 (ucast b4) + push_bit 8 (ucast b5) + ucast b6) }"

definition read_seconds :: "u8 list \<Rightarrow> u32 option" where
  "read_seconds valueArray = do {
     b0 \<leftarrow> rd valueArray 0;
     b1 \<leftarrow> rd valueArray 1;
     b2 \<leftarrow> rd valueArray 2;
     b3 \<leftarrow> rd valueArray 3;
     Some (word_of_int (be_uint [b0, b1, b2, b3])) }"

fun MmsValue_getUtcTimeInMs :: "MmsValue \<Rightarrow> u64 option" where
  "MmsValue_getUtcTimeInMs (ValUtcTime valueArray) = do {
     timeval32 \<leftarrow> read_seconds valueArray;
     fractionOfSecond \<leftarrow> (read_fraction valueArray :: u32 option);
     let remainder = fractionOfSecond div 16777;
     Some (ucast timeval32 * 1000 + ucast remainder) }"
| "MmsValue_getUtcTimeInMs _ = None"

fun MmsValue_getUtcTimeInMsWithUs :: "MmsValue \<Rightarrow> (u64 \<times> u32) option" where
  "MmsValue_getUtcTimeInMsWithUs (ValUtcTime valueArray) = do {
     timeval32 \<leftarrow> read_seconds valueArray;
     fractionOfSecond \<leftarrow> (read_fraction valueArray :: u64 option);
     let remainder = fractionOfSecond * 1000000 div 0x1000000;
     Some (ucast timeval32 * 1000 + remainder div 1000, ucast (remainder mod 1000)) }"
| "MmsValue_getUtcTimeInMsWithUs _ = None"

fun MmsValue_toUnixTimestamp :: "MmsValue \<Rightarrow> u32 option" where
  "MmsValue_toUnixTimestamp (ValUtcTime utcTime) = read_seconds utcTime"
| "MmsValue_toUnixTimestamp _ = None"

fun MmsValue_setUtcTimeQuality :: "MmsValue \<Rightarrow> u8 \<Rightarrow> MmsValue option" where
  "MmsValue_setUtcTimeQuality (ValUtcTime utcTime) timeQuality = map_option ValUtcTime (wr utcTime 7 timeQuality)"
| "MmsValue_setUtcTimeQuality _ timeQuality = None"

fun MmsValue_setUtcTimeByBuffer :: "MmsValue \<Rightarrow> u8 list \<Rightarrow> MmsValue option" where
  "MmsValue_setUtcTimeByBuffer (ValUtcTime valueArray) buffer = map_option ValUtcTime (memcpy valueArray buffer 8)"
| "MmsValue_setUtcTimeByBuffer _ buffer = None"

definition MmsValue_newBinaryTime :: "bool \<Rightarrow> MmsValue" where
  "MmsValue_newBinaryTime timeOfDay = ValBinaryTime (if timeOfDay then 4 else 6) (replicate 6 0)"

text \<open>Milliseconds between 1970-01-01 and the MMS epoch 1984-01-01.\<close>

definition mms_epoch :: u64 where
  "mms_epoch = 441763200000"

fun MmsValue_setBinaryTime :: "MmsValue \<Rightarrow> u64 \<Rightarrow> MmsValue option" where
  "MmsValue_setBinaryTime (ValBinaryTime sz buf) timestamp = do {
     let mmsTime = (if timestamp > mms_epoch then timestamp - mms_epoch else 0);
     buf \<leftarrow> (if sz = 6 then do {
               let daysDiff = (ucast (mmsTime div 86400000) :: u16);
               buf \<leftarrow> wr buf 4 (ucast (drop_bit 8 daysDiff));
               wr buf 5 (ucast daysDiff) }
             else Some buf);
     let msSinceMidnight = (ucast (mmsTime mod 86400000) :: u32);
     buf \<leftarrow> wr buf 0 (ucast (drop_bit 24 msSinceMidnight));
     buf \<leftarrow> wr buf 1 (ucast (drop_bit 16 msSinceMidnight));
     buf \<leftarrow> wr buf 2 (ucast (drop_bit 8 msSinceMidnight));
     buf \<leftarrow> wr buf 3 (ucast msSinceMidnight);
     Some (ValBinaryTime sz buf) }"
| "MmsValue_setBinaryTime _ timestamp = None"

fun MmsValue_getBinaryTimeAsUtcMs :: "MmsValue \<Rightarrow> u64 option" where
  "MmsValue_getBinaryTimeAsUtcMs (ValBinaryTime sz buf) = do {
     timestamp \<leftarrow> (if sz = 6 then do {
                     b4 \<leftarrow> rd buf 4;
                     b5 \<leftarrow> rd buf 5;
                     let daysDiff = (ucast b4 * 256 + ucast b5 :: u16);
                     Some (ucast daysDiff * 86400000 + mms_epoch) }
                   else Some 0);
     msSinceMidnight \<leftarrow> read_seconds buf;
     Some (timestamp + ucast msSinceMidnight) }"
| "MmsValue_getBinaryTimeAsUtcMs _ = None"

section \<open>Structured values\<close>

fun components :: "MmsValue \<Rightarrow> MmsValue option list option" where
  "components (ValArray cs) = Some cs"
| "components (ValStructure cs) = Some cs"
| "components _ = None"

definition MmsValue_getArraySize :: "MmsValue \<Rightarrow> nat option" where
  "MmsValue_getArraySize self = map_option length (components self)"

text \<open>The answer \<open>None\<close> is the null pointer the code returns for a bad type or index.\<close>

definition MmsValue_getElement :: "MmsValue \<Rightarrow> int \<Rightarrow> MmsValue option" where
  "MmsValue_getElement complexValue index =
     (case components complexValue of
        None \<Rightarrow> None
      | Some cs \<Rightarrow> if index < 0 \<or> index \<ge> int (length cs) then None else cs ! nat index)"

fun MmsValue_setElement :: "MmsValue \<Rightarrow> int \<Rightarrow> MmsValue option \<Rightarrow> MmsValue" where
  "MmsValue_setElement (ValArray cs) index elementValue =
     (if index < 0 \<or> index \<ge> int (length cs) then ValArray cs else ValArray (cs[nat index := elementValue]))"
| "MmsValue_setElement (ValStructure cs) index elementValue =
     (if index < 0 \<or> index \<ge> int (length cs) then ValStructure cs
      else ValStructure (cs[nat index := elementValue]))"
| "MmsValue_setElement complexValue index elementValue = complexValue"

definition MmsValue_createEmptyArray :: "nat \<Rightarrow> MmsValue" where
  "MmsValue_createEmptyArray sz = ValArray (replicate sz None)"

definition MmsValue_createEmptyStructure :: "nat \<Rightarrow> MmsValue" where
  "MmsValue_createEmptyStructure sz = ValStructure (replicate sz None)"

lemma size_component [termination_simp]:
  "x \<in> set cs \<Longrightarrow> x = Some v \<Longrightarrow> size v < Suc (size_list (size_option size) cs)"
  by (induction cs) auto

lemma components_size: "components v = Some xs \<Longrightarrow> size_list (size_option size) xs < size v"
  by (cases v) auto

text \<open>
  \<open>MmsValue_equals\<close> and its loop over the components; the loop stops at the first pair that
  differs.
\<close>

function MmsValue_equals :: "MmsValue \<Rightarrow> MmsValue \<Rightarrow> bool option"
and equal_components :: "MmsValue option list \<Rightarrow> MmsValue option list \<Rightarrow> bool option" where
  "MmsValue_equals self otherValue =
     (case (self, otherValue) of
        (ValArray xs, ValArray ys) \<Rightarrow>
          if length xs = length ys then equal_components xs ys else Some False
      | (ValStructure xs, ValStructure ys) \<Rightarrow>
          if length xs = length ys then equal_components xs ys else Some False
      | (ValBoolean a, ValBoolean b) \<Rightarrow> Some (a = b)
      | (ValFloat _ formatWidth a, ValFloat _ _ b) \<Rightarrow> memcmp_eq a b 0 (formatWidth div 8)
      | (ValInteger a, ValInteger b) \<Rightarrow> Asn1PrimitivaValue_compare a b
      | (ValUnsigned a, ValUnsigned b) \<Rightarrow> Asn1PrimitivaValue_compare a b
      | (ValUtcTime a, ValUtcTime b) \<Rightarrow> memcmp_eq a b 0 8
      | (ValBitString n a, ValBitString m b) \<Rightarrow>
          if n = m then memcmp_eq a b 0 (bitStringByteSize n) else Some False
      | (ValBinaryTime n a, ValBinaryTime m b) \<Rightarrow>
          if n = m then memcmp_eq a b 0 n else Some False
      | (ValOctetString n _ a, ValOctetString m _ b) \<Rightarrow>
          if n = m then memcmp_eq a b 0 n else Some False
      | (ValVisibleString _ a, ValVisibleString _ b) \<Rightarrow> Some (a = b)
      | (ValMmsString _ a, ValMmsString _ b) \<Rightarrow> Some (a = b)
      | (ValDataAccessError a, ValDataAccessError b) \<Rightarrow> Some (a = b)
      | _ \<Rightarrow> Some False)"
| "equal_components (x # xs) (y # ys) = do {
     a \<leftarrow> x;
     b \<leftarrow> y;
     e \<leftarrow> MmsValue_equals a b;
     if e then equal_components xs ys else Some False }"
| "equal_components [] ys = Some True"
| "equal_components (x # xs) [] = None"
  by pat_completeness auto
termination
  by (relation "measure (\<lambda>a. case a of Inl (v, _) \<Rightarrow> size v | Inr (xs, _) \<Rightarrow> size_list (size_option size) xs)")
    auto

function MmsValue_equalTypes :: "MmsValue \<Rightarrow> MmsValue \<Rightarrow> bool option"
and equal_component_types :: "MmsValue option list \<Rightarrow> MmsValue option list \<Rightarrow> bool option" where
  "MmsValue_equalTypes self otherValue =
     (if MmsValue_getType self = MmsValue_getType otherValue then
        case (components self, components otherValue) of
          (Some xs, Some ys) \<Rightarrow>
            if length xs = length ys then equal_component_types xs ys else Some False
        | _ \<Rightarrow> Some True
      else Some False)"
| "equal_component_types (x # xs) (y # ys) = do {
     a \<leftarrow> x;
     b \<leftarrow> y;
     e \<leftarrow> MmsValue_equalTypes a b;
     if e then equal_component_types xs ys else Some False }"
| "equal_component_types [] ys = Some True"
| "equal_component_types (x # xs) [] = None"
  by pat_completeness auto
termination
  by (relation "measure (\<lambda>a. case a of Inl (v, _) \<Rightarrow> size v | Inr (xs, _) \<Rightarrow> size_list (size_option size) xs)")
    (auto dest: components_size [OF sym])

text \<open>
  \<open>MmsValue_update\<close> returns the value after the call with its result. The components before
  the first one that cannot be updated have been changed when it returns \<open>False\<close>.
\<close>

function MmsValue_update :: "MmsValue \<Rightarrow> MmsValue \<Rightarrow> (MmsValue \<times> bool) option"
and update_components :: "MmsValue option list \<Rightarrow> MmsValue option list \<Rightarrow> (MmsValue option list \<times> bool) option" where
  "MmsValue_update self update =
     (case (self, update) of
        (ValArray xs, ValArray ys) \<Rightarrow>
          if length xs \<noteq> length ys then Some (self, False)
          else map_option (\<lambda>(xs, ok). (ValArray xs, ok)) (update_components xs ys)
      | (ValStructure xs, ValStructure ys) \<Rightarrow>
          if length xs \<noteq> length ys then Some (self, False)
          else map_option (\<lambda>(xs, ok). (ValStructure xs, ok)) (update_components xs ys)
      | (ValBoolean _, ValBoolean b) \<Rightarrow> Some (ValBoolean b, True)
      | (ValFloat _ fw a, ValFloat ew fw' b) \<Rightarrow>
          if fw = fw' then map_option (\<lambda>a. (ValFloat ew fw a, True)) (memcpy a b (fw div 8))
          else Some (self, False)
      | (ValInteger a, ValInteger b) \<Rightarrow>
          map_option (\<lambda>(a, ok). (ValInteger a, ok)) (BerInteger_setFromBerInteger a b)
      | (ValUnsigned a, ValUnsigned b) \<Rightarrow>
          map_option (\<lambda>(a, ok). (ValUnsigned a, ok)) (BerInteger_setFromBerInteger a b)
      | (ValUtcTime a, ValUtcTime b) \<Rightarrow> map_option (\<lambda>a. (ValUtcTime a, True)) (memcpy a b 8)
      | (ValBitString n a, ValBitString m b) \<Rightarrow>
          if n = m then map_option (\<lambda>a. (ValBitString n a, True)) (memcpy a b (bitStringByteSize n))
          else if m < n then
            map_option (\<lambda>v. (v, True))
              (for_each [0..<m] (\<lambda>i v. do {
                 bit \<leftarrow> MmsValue_getBitStringBit update i;
                 MmsValue_setBitStringBit v i bit }) self)
          else Some (self, False)
      | (ValOctetString _ mx a, ValOctetString m mx' b) \<Rightarrow>
          if mx = mx' then map_option (\<lambda>a. (ValOctetString m mx a, True)) (memcpy a b m)
          else Some (self, False)
      | (ValVisibleString _ _, ValVisibleString _ b) \<Rightarrow>
          map_option (\<lambda>v. (v, True)) (MmsValue_setVisibleString self b)
      | (ValMmsString _ _, ValMmsString _ b) \<Rightarrow>
          map_option (\<lambda>v. (v, True)) (MmsValue_setMmsString self b)
      | (ValBinaryTime _ a, ValBinaryTime m b) \<Rightarrow>
          map_option (\<lambda>a. (ValBinaryTime m a, True)) (memcpy a b m)
      | _ \<Rightarrow> Some (self, False))"
| "update_components (x # xs) (y # ys) = do {
     a \<leftarrow> x;
     b \<leftarrow> y;
     (a, ok) \<leftarrow> MmsValue_update a b;
     if ok then map_option (\<lambda>(xs, ok). (Some a # xs, ok)) (update_components xs ys)
     else Some (Some a # xs, False) }"
| "update_components [] ys = Some ([], True)"
| "update_components (x # xs) [] = None"
  by pat_completeness auto
termination
  by (relation "measure (\<lambda>a. case a of Inl (v, _) \<Rightarrow> size v | Inr (xs, _) \<Rightarrow> size_list (size_option size) xs)")
    auto

declare MmsValue_equals.simps [simp del] MmsValue_equalTypes.simps [simp del] MmsValue_update.simps [simp del]

fun MmsValue_clone :: "MmsValue \<Rightarrow> MmsValue option"
and clone_components :: "MmsValue option list \<Rightarrow> MmsValue option list option" where
  "MmsValue_clone (ValArray cs) = map_option ValArray (clone_components cs)"
| "MmsValue_clone (ValStructure cs) = map_option ValStructure (clone_components cs)"
| "MmsValue_clone (ValInteger v) = map_option ValInteger (Asn1PrimitiveValue_clone v)"
| "MmsValue_clone (ValUnsigned v) = map_option ValUnsigned (Asn1PrimitiveValue_clone v)"
| "MmsValue_clone (ValFloat ew fw buf) =
     map_option (ValFloat ew fw) (memcpy (replicate (fw div 8) 0) buf (fw div 8))"
| "MmsValue_clone (ValBitString sz buf) =
     map_option (ValBitString sz) (memcpy (replicate (bitStringByteSize sz) 0) buf (bitStringByteSize sz))"
| "MmsValue_clone (ValBoolean b) = Some (ValBoolean b)"
| "MmsValue_clone (ValOctetString sz maxSize buf) =
     map_option (ValOctetString sz maxSize) (memcpy (replicate maxSize 0) buf sz)"
| "MmsValue_clone (ValUtcTime buf) = map_option ValUtcTime (memcpy (replicate 8 0) buf 8)"
| "MmsValue_clone (ValBinaryTime sz buf) = map_option (ValBinaryTime sz) (memcpy (replicate 6 0) buf 6)"
| "MmsValue_clone (ValVisibleString sz buf) = do {
     s \<leftarrow> buf;
     if int (length s) \<le> sz then Some (ValVisibleString sz (Some s)) else None }"
| "MmsValue_clone (ValMmsString sz buf) = do {
     s \<leftarrow> buf;
     if int (length s) \<le> sz then Some (ValMmsString sz (Some s)) else None }"
| "MmsValue_clone (ValDataAccessError e) = Some (ValDataAccessError e)"
| "clone_components [] = Some []"
| "clone_components (c # cs) = do {
     v \<leftarrow> c;
     v \<leftarrow> MmsValue_clone v;
     cs \<leftarrow> clone_components cs;
     Some (Some v # cs) }"

section \<open>Default values of a type specification\<close>

datatype MmsVariableSpecification =
    SpecArray nat MmsVariableSpecification \<comment> \<open>elementCount, elementTypeSpec\<close>
  | SpecStructure "MmsVariableSpecification list"
  | SpecBoolean
  | SpecBitString int
  | SpecInteger int
  | SpecUnsigned int
  | SpecFloat nat nat
  | SpecOctetString int
  | SpecVisibleString int
  | SpecMmsString int
  | SpecUtcTime
  | SpecBinaryTime int
  | SpecUnsupported MmsType \<comment> \<open>the tags without a default value\<close>

text \<open>\<open>None\<close> is the null pointer; an array of elements without a default value is null too.\<close>

fun MmsValue_newDefaultValue :: "MmsVariableSpecification \<Rightarrow> MmsValue option" where
  "MmsValue_newDefaultValue (SpecInteger n) = Some (MmsValue_newInteger n)"
| "MmsValue_newDefaultValue (SpecUnsigned n) = Some (MmsValue_newUnsigned n)"
| "MmsValue_newDefaultValue (SpecFloat exponentWidth formatWidth) =
     Some (ValFloat exponentWidth formatWidth (replicate (formatWidth div 8) 0))"
| "MmsValue_newDefaultValue (SpecBitString n) = Some (MmsValue_newBitString n)"
| "MmsValue_newDefaultValue (SpecOctetString n) =
     Some (ValOctetString (if n < 0 then 0 else nat n mod 65536) (nat \<bar>n\<bar> mod 65536) (replicate (nat \<bar>n\<bar>) 0))"
| "MmsValue_newDefaultValue (SpecVisibleString n) = MmsValue_newVisibleStringWithSize (nat \<bar>n\<bar>)"
| "MmsValue_newDefaultValue (SpecMmsString n) = MmsValue_newMmsStringWithSize (nat \<bar>n\<bar>)"
| "MmsValue_newDefaultValue SpecBoolean = Some (MmsValue_newBoolean False)"
| "MmsValue_newDefaultValue SpecUtcTime = Some (ValUtcTime (replicate 8 0))"
| "MmsValue_newDefaultValue (SpecArray n elementType) =
     (case MmsValue_newDefaultValue elementType of
        Some v \<Rightarrow> Some (ValArray (replicate n (Some v)))
      | None \<Rightarrow> if n = 0 then Some (ValArray []) else None)"
| "MmsValue_newDefaultValue (SpecStructure elements) =
     Some (ValStructure (map MmsValue_newDefaultValue elements))"
| "MmsValue_newDefaultValue (SpecBinaryTime n) = Some (MmsValue_newBinaryTime (n = 4))"
| "MmsValue_newDefaultValue (SpecUnsupported _) = None"

end
