(* ===== verification/MmsValue_Laws.thy ===== *)
theory MmsValue_Laws
  imports MmsValue
begin

text \<open>
  What the operations of \<open>MmsValue\<close> guarantee: the well-formedness \<open>mms_ok\<close> of values (buffers
  as large as their size fields say, no null component, an \<open>int16_t\<close> string capacity that
  holds the string), equality, cloning, \<open>MmsValue_update\<close>, bit strings, times, and the default
  values of a type specification.
\<close>

lemma memcpy_eq [buf_simps]:
  "k \<le> length src \<Longrightarrow> k \<le> length dest \<Longrightarrow> memcpy dest src k = Some (take k src @ drop k dest)"
  by (simp add: memcpy_def put_from_puts puts_eq splice_def)

section \<open>Well-formed values\<close>

fun mms_ok :: "MmsValue \<Rightarrow> bool" where
  "mms_ok (ValArray cs) \<longleftrightarrow> (\<forall>c \<in> set cs. case c of Some v \<Rightarrow> mms_ok v | None \<Rightarrow> False)"
| "mms_ok (ValStructure cs) \<longleftrightarrow> (\<forall>c \<in> set cs. case c of Some v \<Rightarrow> mms_ok v | None \<Rightarrow> False)"
| "mms_ok (ValBitString sz buf) \<longleftrightarrow> length buf = bitStringByteSize sz"
| "mms_ok (ValInteger v) \<longleftrightarrow> ber_integer_ok v"
| "mms_ok (ValUnsigned v) \<longleftrightarrow> ber_integer_ok v"
| "mms_ok (ValFloat _ fw buf) \<longleftrightarrow> length buf = fw div 8"
| "mms_ok (ValOctetString sz maxSize buf) \<longleftrightarrow> sz \<le> maxSize \<and> length buf = maxSize"
| "mms_ok (ValVisibleString sz buf) \<longleftrightarrow> 0 \<le> sz \<and> sz < 2 ^ 15 \<and> (case buf of Some s \<Rightarrow> int (length s) \<le> sz | None \<Rightarrow> False)"
| "mms_ok (ValMmsString sz buf) \<longleftrightarrow> 0 \<le> sz \<and> sz < 2 ^ 15 \<and> (case buf of Some s \<Rightarrow> int (length s) \<le> sz | None \<Rightarrow> False)"
| "mms_ok (ValUtcTime buf) \<longleftrightarrow> length buf = 8"
| "mms_ok (ValBinaryTime sz buf) \<longleftrightarrow> length buf = 6 \<and> sz \<le> 6"
| "mms_ok _ \<longleftrightarrow> True"

lemma mms_ok_components:
  "(\<forall>c \<in> set cs. case c of Some v \<Rightarrow> mms_ok v | None \<Rightarrow> False) \<longleftrightarrow>
   (\<exists>vs. cs = map Some vs \<and> (\<forall>v \<in> set vs. mms_ok v))"
proof
  assume "\<forall>c \<in> set cs. case c of Some v \<Rightarrow> mms_ok v | None \<Rightarrow> False"
  then show "\<exists>vs. cs = map Some vs \<and> (\<forall>v \<in> set vs. mms_ok v)"
  proof (induction cs)
    case (Cons c cs)
    then obtain v vs where "c = Some v" "mms_ok v" "cs = map Some vs" "\<forall>v \<in> set vs. mms_ok v"
      by (cases c) auto
    then show ?case by (intro exI [of _ "v # vs"]) auto
  qed simp
qed auto

text \<open>What \<open>MmsValue_equals\<close> can see of a leaf, and an induction over well-formed values.\<close>

lemma mms_induct [consumes 1, case_names arr struct leaf]:
  assumes "mms_ok v"
    and "\<And>vs. (\<And>v. v \<in> set vs \<Longrightarrow> mms_ok v \<and> P v) \<Longrightarrow> P (ValArray (map Some vs))"
    and "\<And>vs. (\<And>v. v \<in> set vs \<Longrightarrow> mms_ok v \<and> P v) \<Longrightarrow> P (ValStructure (map Some vs))"
    and "\<And>v. components v = None \<Longrightarrow> mms_ok v \<Longrightarrow> P v"
  shows "P v"
  using assms(1)
proof (induction v rule: measure_induct_rule [of size])
  case (less v)
  have sub: "mms_ok w \<and> P w" if "components v = Some (map Some vs)" "\<forall>v \<in> set vs. mms_ok v" "w \<in> set vs" for w vs
  proof -
    have "size w < Suc (size_list (size_option size) (map Some vs))"
      using that(3) by (intro size_component [of "Some w"]) auto
    moreover have "size v = Suc (size_list (size_option size) (map Some vs))"
      using that(1) by (cases v) auto
    ultimately show ?thesis using less.IH [of w] that by simp
  qed
  show ?case
  proof (cases "components v")
    case None
    then show ?thesis using assms(4) less.prems by blast
  next
    case (Some cs)
    then obtain vs where vs: "cs = map Some vs" "\<forall>v \<in> set vs. mms_ok v"
      using less.prems mms_ok_components [of cs] by (cases v) auto
    then show ?thesis using Some sub assms(2,3) by (cases v) auto
  qed
qed

section \<open>Equality, types, clone\<close>

lemma equal_components_refl:
  "(\<And>v. v \<in> set vs \<Longrightarrow> MmsValue_equals v v = Some True) \<Longrightarrow>
   equal_components (map Some vs) (map Some vs) = Some True"
  by (induction vs) auto

lemma memcmp_eq_refl: "k \<le> length a \<Longrightarrow> memcmp_eq a a 0 k = Some True"
  by (simp add: memcmp_eq_take)

lemma equals_refl: "mms_ok v \<Longrightarrow> MmsValue_equals v v = Some True"
proof (induction v rule: mms_induct)
  case (leaf v)
  then show ?case
    by (cases v) (simp_all add: MmsValue_equals.simps memcmp_eq_refl compare_iff)
qed (simp_all add: MmsValue_equals.simps equal_components_refl)

lemma equal_component_types_refl:
  "(\<And>v. v \<in> set vs \<Longrightarrow> MmsValue_equalTypes v v = Some True) \<Longrightarrow>
   equal_component_types (map Some vs) (map Some vs) = Some True"
  by (induction vs) auto

lemma equalTypes_refl: "mms_ok v \<Longrightarrow> MmsValue_equalTypes v v = Some True"
  by (induction v rule: mms_induct)
    (simp_all add: MmsValue_equalTypes.simps equal_component_types_refl)

text \<open>A clone is equal to its original, and a well-formed value of its own.\<close>

lemma clone_components_map:
  "(\<And>v. v \<in> set vs \<Longrightarrow> \<exists>w. MmsValue_clone v = Some w \<and> mms_ok w \<and> MmsValue_equals v w = Some True) \<Longrightarrow>
   \<exists>ws. clone_components (map Some vs) = Some (map Some ws) \<and> length ws = length vs \<and>
     (\<forall>w \<in> set ws. mms_ok w) \<and> equal_components (map Some vs) (map Some ws) = Some True"
proof (induction vs)
  case (Cons v vs)
  from Cons.prems [of v] obtain w where w: "MmsValue_clone v = Some w" "mms_ok w" "MmsValue_equals v w = Some True"
    by auto
  from Cons obtain ws where "clone_components (map Some vs) = Some (map Some ws)" "length ws = length vs"
    "\<forall>w \<in> set ws. mms_ok w" "equal_components (map Some vs) (map Some ws) = Some True"
    by auto
  with w show ?case by (intro exI [of _ "w # ws"]) simp
qed simp

lemma clone_equal:
  "mms_ok v \<Longrightarrow> \<exists>w. MmsValue_clone v = Some w \<and> mms_ok w \<and> MmsValue_equals v w = Some True"
proof (induction v rule: mms_induct)
  case (arr vs)
  then show ?case using clone_components_map [of vs]
    by (auto simp: MmsValue_equals.simps mms_ok_components)
next
  case (struct vs)
  then show ?case using clone_components_map [of vs]
    by (auto simp: MmsValue_equals.simps mms_ok_components)
next
  case (leaf v)
  then show ?case
    by (cases v) (auto simp: MmsValue_equals.simps memcmp_eq_take compare_iff clone_eq memcpy_eq
        split: option.splits)
qed

section \<open>Update\<close>

text \<open>
  \<open>same_layout\<close>: no bit string of the new value is shorter than the one it updates. On such
  values a successful update makes the two equal.
\<close>

function same_layout :: "MmsValue \<Rightarrow> MmsValue \<Rightarrow> bool"
and same_layouts :: "MmsValue option list \<Rightarrow> MmsValue option list \<Rightarrow> bool" where
  "same_layout self update =
     (case (self, update) of
        (ValArray xs, ValArray ys) \<Rightarrow> same_layouts xs ys
      | (ValStructure xs, ValStructure ys) \<Rightarrow> same_layouts xs ys
      | (ValBitString n _, ValBitString m _) \<Rightarrow> n \<le> m
      | _ \<Rightarrow> True)"
| "same_layouts (x # xs) (y # ys) =
     ((case (x, y) of (Some a, Some b) \<Rightarrow> same_layout a b | _ \<Rightarrow> True) \<and> same_layouts xs ys)"
| "same_layouts [] ys = True"
| "same_layouts (x # xs) [] = True"
  by pat_completeness auto
termination
  by (relation "measure (\<lambda>a. case a of Inl (v, _) \<Rightarrow> size v | Inr (xs, _) \<Rightarrow> size_list (size_option size) xs)")
    auto

declare same_layout.simps [simp del]

text \<open>Setting bits in range keeps a bit string well-formed.\<close>

lemma byte_pos_less: "i < sz \<Longrightarrow> i div 8 < bitStringByteSize sz"
  by (auto simp: bitStringByteSize_def div_less_iff_less_mult)

lemma setBit_ok:
  assumes "mms_ok (ValBitString sz buf)"
  shows "\<exists>buf'. MmsValue_setBitStringBit (ValBitString sz buf) i b = Some (ValBitString sz buf') \<and>
    mms_ok (ValBitString sz buf')"
  using assms byte_pos_less [of i sz] by (auto simp: rd_def wr_def Let_def)

lemma getBit_ok: "mms_ok (ValBitString sz buf) \<Longrightarrow> \<exists>b. MmsValue_getBitStringBit (ValBitString sz buf) i = Some b"
  using byte_pos_less [of i sz] by (auto simp: rd_def Let_def)

lemma shorter_bits_ok:
  assumes "mms_ok (ValBitString n a)" "mms_ok (ValBitString m b)"
  shows "\<exists>a'. for_each xs (\<lambda>i v. do {
       bit \<leftarrow> MmsValue_getBitStringBit (ValBitString m b) i;
       MmsValue_setBitStringBit v i bit }) (ValBitString n a) = Some (ValBitString n a') \<and>
     mms_ok (ValBitString n a')"
  using assms(1)
proof (induction xs arbitrary: a)
  case (Cons i xs)
  obtain c where c: "MmsValue_getBitStringBit (ValBitString m b) i = Some c" using getBit_ok [OF assms(2)] by blast
  obtain a1 where a1: "MmsValue_setBitStringBit (ValBitString n a) i c = Some (ValBitString n a1)"
    "mms_ok (ValBitString n a1)" using setBit_ok [OF Cons.prems] by blast
  from Cons.IH [OF a1(2)] show ?case
    by (simp only: for_each.simps c a1 bind.simps) 
qed simp

definition update_result :: "MmsValue \<Rightarrow> MmsValue \<Rightarrow> bool" where
  "update_result self update \<longleftrightarrow> (\<exists>self' ok. MmsValue_update self update = Some (self', ok) \<and> mms_ok self' \<and>
     MmsValue_equalTypes self self' = Some True \<and>
     (ok \<longrightarrow> same_layout self update \<longrightarrow> MmsValue_equals self' update = Some True))"

lemma update_resultI:
  "MmsValue_update self update = Some (self', ok) \<Longrightarrow> mms_ok self' \<Longrightarrow>
   MmsValue_equalTypes self self' = Some True \<Longrightarrow>
   (ok \<Longrightarrow> same_layout self update \<Longrightarrow> MmsValue_equals self' update = Some True) \<Longrightarrow>
   update_result self update"
  by (auto simp: update_result_def)

lemma update_components_map:
  assumes "length us = length vs" "\<And>v u. v \<in> set vs \<Longrightarrow> mms_ok u \<Longrightarrow> update_result v u"
    "\<forall>u \<in> set us. mms_ok u" "\<forall>v \<in> set vs. mms_ok v"
  shows "\<exists>ws ok. update_components (map Some vs) (map Some us) = Some (map Some ws, ok) \<and>
     length ws = length vs \<and> (\<forall>w \<in> set ws. mms_ok w) \<and>
     equal_component_types (map Some vs) (map Some ws) = Some True \<and>
     (ok \<longrightarrow> same_layouts (map Some vs) (map Some us) \<longrightarrow>
       equal_components (map Some ws) (map Some us) = Some True)"
  using assms
proof (induction vs us rule: list_induct2')
  case (4 v vs u us)
  then have "update_result v u" by simp
  then obtain w ok where w: "MmsValue_update v u = Some (w, ok)" "mms_ok w"
    "MmsValue_equalTypes v w = Some True" "ok \<longrightarrow> same_layout v u \<longrightarrow> MmsValue_equals w u = Some True"
    by (auto simp: update_result_def)
  show ?case
  proof (cases ok)
    case True
    obtain ws ok' where "update_components (map Some vs) (map Some us) = Some (map Some ws, ok')"
      "length ws = length vs" "\<forall>w \<in> set ws. mms_ok w"
      "equal_component_types (map Some vs) (map Some ws) = Some True"
      "ok' \<longrightarrow> same_layouts (map Some vs) (map Some us) \<longrightarrow>
       equal_components (map Some ws) (map Some us) = Some True"
      using "4.IH" "4.prems" by auto
    with w True show ?thesis
      by (intro exI [of _ "w # ws"] exI [of _ ok']) simp
  next
    case False
    have "equal_component_types (map Some vs) (map Some vs) = Some True"
      using "4.prems" by (intro equal_component_types_refl equalTypes_refl) simp
    with w False "4.prems" show ?thesis
      by (intro exI [of _ "w # vs"] exI [of _ False]) simp
  qed
qed auto

lemma update_mismatch:
  "MmsValue_getType v \<noteq> MmsValue_getType u \<Longrightarrow> MmsValue_update v u = Some (v, False)"
  by (cases v; cases u) (simp_all add: MmsValue_update.simps)

lemma update_integers:
  assumes "ber_integer_ok a" "ber_integer_ok b"
  shows "update_result (ValInteger a) (ValInteger b)" "update_result (ValUnsigned a) (ValUnsigned b)"
proof -
  obtain a' where "BerInteger_setFromBerInteger a b = Some (a', asn1_size b \<le> asn1_maxSize a)"
    "ber_integer_ok a'" "asn1_size b \<le> asn1_maxSize a \<longrightarrow> ber_content a' = ber_content b"
    using setFromBerInteger_content [OF assms] by auto
  then show "update_result (ValInteger a) (ValInteger b)" "update_result (ValUnsigned a) (ValUnsigned b)"
    using assms by (simp_all add: update_result_def MmsValue_update.simps MmsValue_equalTypes.simps
        MmsValue_equals.simps compare_iff)
qed

lemma update_bit_strings:
  assumes "mms_ok (ValBitString n a)" "mms_ok (ValBitString m b)"
  shows "update_result (ValBitString n a) (ValBitString m b)"
proof -
  obtain a' where "for_each [0..<m] (\<lambda>i v. do {
       bit \<leftarrow> MmsValue_getBitStringBit (ValBitString m b) i;
       MmsValue_setBitStringBit v i bit }) (ValBitString n a) = Some (ValBitString n a')"
     "mms_ok (ValBitString n a')"
    using shorter_bits_ok [OF assms] by blast
  then show ?thesis using assms
    by (auto simp: update_result_def MmsValue_update.simps MmsValue_equalTypes.simps
        MmsValue_equals.simps same_layout.simps memcpy_eq memcmp_eq_take)
qed

lemma setVisibleStringValue_fits:
  assumes "0 \<le> sz" "sz < 2 ^ 15" "int (length s) < 2 ^ 15"
  shows "\<exists>sz'. setVisibleStringValue sz (Some b) (Some s) = Some (sz', Some s) \<and>
    int (length s) \<le> sz' \<and> 0 \<le> sz' \<and> sz' < 2 ^ 15"
  using assms wrap16_id [of "int (length s)"] by (auto simp: Let_def)

lemma update_strings:
  assumes "mms_ok (ValVisibleString n a)" "mms_ok (ValVisibleString m b)"
  shows "update_result (ValVisibleString n a) (ValVisibleString m b)"
    "update_result (ValMmsString n a) (ValMmsString m b)"
proof -
  obtain r s where rs: "a = Some r" "b = Some s" using assms by (auto split: option.splits)
  obtain sz' where sz': "setVisibleStringValue n (Some r) (Some s) = Some (sz', Some s)"
    "int (length s) \<le> sz'" "0 \<le> sz'" "sz' < 2 ^ 15"
    using setVisibleStringValue_fits [of n s r] assms rs by auto
  then show "update_result (ValVisibleString n a) (ValVisibleString m b)"
    by (intro update_resultI [of _ _ "ValVisibleString sz' (Some s)" True])
      (simp_all add: MmsValue_update.simps MmsValue_equalTypes.simps MmsValue_equals.simps rs
        del: setVisibleStringValue.simps)
  from sz' show "update_result (ValMmsString n a) (ValMmsString m b)"
    by (intro update_resultI [of _ _ "ValMmsString sz' (Some s)" True])
      (simp_all add: MmsValue_update.simps MmsValue_equalTypes.simps MmsValue_equals.simps rs
        del: setVisibleStringValue.simps)
qed

lemma update_leaf:
  assumes "components v = None" "mms_ok v" "mms_ok u"
  shows "update_result v u"
proof (cases "MmsValue_getType v = MmsValue_getType u")
  case False
  then show ?thesis using assms by (intro update_resultI [OF update_mismatch]) (simp_all add: equalTypes_refl)
next
  case True
  have *: "mms_ok (ValVisibleString n a) = mms_ok (ValMmsString n a)" for n a by simp
  show ?thesis
    using True assms
    by (cases v; cases u; simp only: MmsValue_getType.simps MmsType.distinct components.simps option.distinct)
      (auto simp: update_integers update_bit_strings update_strings,
       auto simp: update_result_def MmsValue_update.simps MmsValue_equalTypes.simps
        MmsValue_equals.simps memcpy_eq memcmp_eq_take)
qed

lemma update_total: "mms_ok v \<Longrightarrow> mms_ok u \<Longrightarrow> update_result v u"
proof (induction v arbitrary: u rule: mms_induct)
  case (arr vs)
  show ?case
  proof (cases "\<exists>us. u = ValArray (map Some us) \<and> length us = length vs \<and> (\<forall>u \<in> set us. mms_ok u)")
    case True
    then obtain us where us: "u = ValArray (map Some us)" "length us = length vs" "\<forall>u \<in> set us. mms_ok u"
      by auto
    have "\<And>v u. v \<in> set vs \<Longrightarrow> mms_ok u \<Longrightarrow> update_result v u" "\<forall>v \<in> set vs. mms_ok v"
      using arr.IH by auto
    from update_components_map [OF us(2) this(1) us(3) this(2)] us(1,2) show ?thesis
      unfolding update_result_def
      by (force simp: MmsValue_update.simps MmsValue_equalTypes.simps MmsValue_equals.simps
          same_layout.simps mms_ok_components)
  next
    case False
    have "\<exists>us. u = ValArray (map Some us) \<and> (\<forall>u \<in> set us. mms_ok u)" if "\<exists>cs. u = ValArray cs"
      using that arr.prems mms_ok_components by auto
    with False have "MmsValue_update (ValArray (map Some vs)) u = Some (ValArray (map Some vs), False)"
      by (cases u) (auto simp: MmsValue_update.simps)
    then show ?thesis
    proof (rule update_resultI)
      show ok: "mms_ok (ValArray (map Some vs))" using arr.IH by simp
      show "MmsValue_equalTypes (ValArray (map Some vs)) (ValArray (map Some vs)) = Some True"
        by (rule equalTypes_refl [OF ok])
    qed simp
  qed
next
  case (struct vs)
  show ?case
  proof (cases "\<exists>us. u = ValStructure (map Some us) \<and> length us = length vs \<and> (\<forall>u \<in> set us. mms_ok u)")
    case True
    then obtain us where us: "u = ValStructure (map Some us)" "length us = length vs" "\<forall>u \<in> set us. mms_ok u"
      by auto
    have "\<And>v u. v \<in> set vs \<Longrightarrow> mms_ok u \<Longrightarrow> update_result v u" "\<forall>v \<in> set vs. mms_ok v"
      using struct.IH by auto
    from update_components_map [OF us(2) this(1) us(3) this(2)] us(1,2) show ?thesis
      unfolding update_result_def
      by (force simp: MmsValue_update.simps MmsValue_equalTypes.simps MmsValue_equals.simps
          same_layout.simps mms_ok_components)
  next
    case False
    have "\<exists>us. u = ValStructure (map Some us) \<and> (\<forall>u \<in> set us. mms_ok u)" if "\<exists>cs. u = ValStructure cs"
      using that struct.prems mms_ok_components by auto
    with False have "MmsValue_update (ValStructure (map Some vs)) u = Some (ValStructure (map Some vs), False)"
      by (cases u) (auto simp: MmsValue_update.simps)
    then show ?thesis
    proof (rule update_resultI)
      show ok: "mms_ok (ValStructure (map Some vs))" using struct.IH by simp
      show "MmsValue_equalTypes (ValStructure (map Some vs)) (ValStructure (map Some vs)) = Some True"
        by (rule equalTypes_refl [OF ok])
    qed simp
  qed
next
  case (leaf v)
  then show ?case by (rule update_leaf)
qed
section \<open>Bit strings\<close>

definition bit_at :: "u8 list \<Rightarrow> nat \<Rightarrow> bool" where
  "bit_at buf i = bit (buf ! (i div 8)) (7 - i mod 8)"

text \<open>The bits a well-formed bit string denotes.\<close>

fun bits_of :: "MmsValue \<Rightarrow> bool list" where
  "bits_of (ValBitString sz buf) = map (bit_at buf) [0..<sz]"
| "bits_of _ = []"

lemma mask_test: "(b :: u8) AND 2 ^ k > 0 \<longleftrightarrow> bit b k"
  using and_exp_eq_0_iff_not_bit [of b k] by (simp add: word_gt_0)

lemma bit_masked:
  "k < 8 \<Longrightarrow> bit (if b then c OR push_bit k 1 else c AND NOT (push_bit k 1) :: u8) l = (if l = k then b else bit c l)"
  by (auto simp: bit_simps dest: bit_imp_le_length)

lemma bit_index_inj: "i div 8 = j div 8 \<Longrightarrow> 7 - i mod 8 = 7 - j mod 8 \<Longrightarrow> i = (j :: nat)"
proof -
  assume a: "i div 8 = j div 8" "7 - i mod 8 = 7 - j mod 8"
  have "i mod 8 < 8" "j mod 8 < 8" by simp_all
  with a(2) have "i mod 8 = j mod 8" by linarith
  with a(1) show "i = j" by (metis div_mult_mod_eq)
qed

lemma getBit_bits:
  "mms_ok (ValBitString sz buf) \<Longrightarrow>
   MmsValue_getBitStringBit (ValBitString sz buf) i = Some (i < sz \<and> bit_at buf i)"
  using byte_pos_less [of i sz] by (simp add: rd_def Let_def mask_test bit_at_def)

lemma setBit_bits:
  assumes "mms_ok (ValBitString sz buf)" "i < sz"
  shows "\<exists>buf'. MmsValue_setBitStringBit (ValBitString sz buf) i b = Some (ValBitString sz buf') \<and>
    mms_ok (ValBitString sz buf') \<and> (\<forall>j. bit_at buf' j = (if j = i then b else bit_at buf j))"
proof -
  have len: "i div 8 < length buf" using assms byte_pos_less [of i sz] by simp
  let ?c = "buf ! (i div 8)" and ?k = "7 - i mod 8"
  let ?buf = "buf[i div 8 := (if b then ?c OR push_bit ?k 1 else ?c AND NOT (push_bit ?k 1))]"
  have "MmsValue_setBitStringBit (ValBitString sz buf) i b = Some (ValBitString sz ?buf)"
    using len assms(2) by (simp add: rd_def wr_def Let_def)
  moreover have "bit_at ?buf j = (if j = i then b else bit_at buf j)" for j
  proof (cases "j div 8 = i div 8")
    case True
    then show ?thesis
      using len bit_masked [of ?k b ?c "7 - j mod 8"] bit_index_inj [of j i]
      by (auto simp: bit_at_def)
  next
    case False
    then show ?thesis by (auto simp: bit_at_def)
  qed
  ultimately show ?thesis using assms(1) by auto
qed

text \<open>
  \<open>MmsValue_setBitStringBit\<close> changes exactly the addressed bit: on a well-formed bit string
  every other bit reads as before, the addressed one reads as set, a position beyond the size
  changes nothing, and reading beyond the size answers false.
\<close>

theorem bit_string_get_set:
  assumes "mms_ok (ValBitString sz buf)"
  shows "\<exists>v. MmsValue_setBitStringBit (ValBitString sz buf) i b = Some v \<and> mms_ok v \<and>
    (\<forall>j. MmsValue_getBitStringBit v j =
      (if j = i \<and> i < sz then Some b else MmsValue_getBitStringBit (ValBitString sz buf) j))"
proof (cases "i < sz")
  case True
  from setBit_bits [OF assms True, of b] obtain buf' where
    "MmsValue_setBitStringBit (ValBitString sz buf) i b = Some (ValBitString sz buf')"
    "mms_ok (ValBitString sz buf')" "\<forall>j. bit_at buf' j = (if j = i then b else bit_at buf j)" by blast
  then show ?thesis using True assms
    by (intro exI [of _ "ValBitString sz buf'"])
      (auto simp: getBit_bits simp del: MmsValue_getBitStringBit.simps MmsValue_setBitStringBit.simps)
next
  case False
  then show ?thesis using assms by auto
qed

theorem bit_string_get_set_witness:
  "\<exists>v. MmsValue_setBitStringBit (ValBitString 10 [0xff, 0xc0]) 9 False = Some v \<and> mms_ok v \<and>
    MmsValue_getBitStringBit v 9 = Some False \<and> MmsValue_getBitStringBit v 8 = Some True"
proof -
  have "mms_ok (ValBitString 10 [0xff, 0xc0])" by (simp add: bitStringByteSize_def)
  from bit_string_get_set [OF this, of 9 False] obtain v where
    v: "MmsValue_setBitStringBit (ValBitString 10 [0xff, 0xc0]) 9 False = Some v" "mms_ok v"
    "\<forall>j. MmsValue_getBitStringBit v j =
      (if j = 9 \<and> (9::nat) < 10 then Some False else MmsValue_getBitStringBit (ValBitString 10 [0xff, 0xc0]) j)"
    by blast
  moreover have "MmsValue_getBitStringBit (ValBitString 10 [0xff, 0xc0]) 8 = Some True" by code_simp
  ultimately show ?thesis by auto
qed

lemma add_bit_eq:
  assumes "mms_ok (ValBitString sz buf)" "k < sz" "i < 32"
  shows "add_bit (ValBitString sz buf) k i v = Some (v + of_bool (bit_at buf k) * 2 ^ i)"
  using getBit_bits [OF assms(1), of k] assms(2,3)
  by (simp add: add_bit_def shift_one_def push_bit_eq_mult del: MmsValue_getBitStringBit.simps)

lemma add_bits_eq:
  assumes "mms_ok (ValBitString sz buf)" "sz \<le> 32" "\<And>i. i < sz \<Longrightarrow> g i < sz"
  shows "for_each [0..<sz] (\<lambda>i. add_bit (ValBitString sz buf) (g i) i) 0 =
    Some (horner_sum of_bool 2 (map (\<lambda>i. bit_at buf (g i)) [0..<sz]))"
proof -
  let ?I = "\<lambda>i v. v = horner_sum of_bool 2 (map (\<lambda>i. bit_at buf (g i)) [0..<i])"
  have "\<exists>v. for_each [0..<sz] (\<lambda>i. add_bit (ValBitString sz buf) (g i) i) 0 = Some v \<and> ?I (length [0..<sz]) v"
    using assms
    by (intro for_each_invariant [where I = ?I])
      (auto simp: add_bit_eq horner_sum_append)
  then show ?thesis by simp
qed

lemma getAsInteger_bits:
  assumes "mms_ok (ValBitString sz buf)" "sz \<le> 32"
  shows "MmsValue_getBitStringAsInteger (ValBitString sz buf) =
      Some (horner_sum of_bool 2 (bits_of (ValBitString sz buf)))"
    "MmsValue_getBitStringAsIntegerBigEndian (ValBitString sz buf) =
      Some (horner_sum of_bool 2 (rev (bits_of (ValBitString sz buf))))"
proof -
  have "map (\<lambda>i. bit_at buf (sz - 1 - i)) [0..<sz] = rev (map (bit_at buf) [0..<sz])"
    by (rule nth_equalityI) (simp_all add: rev_nth)
  then show "MmsValue_getBitStringAsInteger (ValBitString sz buf) =
      Some (horner_sum of_bool 2 (bits_of (ValBitString sz buf)))"
    "MmsValue_getBitStringAsIntegerBigEndian (ValBitString sz buf) =
      Some (horner_sum of_bool 2 (rev (bits_of (ValBitString sz buf))))"
    using add_bits_eq [OF assms, of "\<lambda>i. i"] add_bits_eq [OF assms, of "\<lambda>i. sz - 1 - i"]
    by (simp_all add: MmsValue_getBitStringAsInteger_def MmsValue_getBitStringAsIntegerBigEndian_def)
qed

lemma store_bits_eq:
  assumes "mms_ok (ValBitString sz buf)" "\<And>i. i < length ps \<Longrightarrow> ps ! i < sz" "distinct ps"
  shows "\<exists>buf' y. for_each ps store_low_bit (ValBitString sz buf, x) = Some (ValBitString sz buf', y) \<and>
    mms_ok (ValBitString sz buf') \<and> (\<forall>i < length ps. bit_at buf' (ps ! i) = bit x i)"
proof -
  let ?I = "\<lambda>i s. \<exists>buf'. s = (ValBitString sz buf', drop_bit i x) \<and> mms_ok (ValBitString sz buf') \<and>
    (\<forall>j < i. bit_at buf' (ps ! j) = bit x j)"
  have "\<exists>s. for_each ps store_low_bit (ValBitString sz buf, x) = Some s \<and> ?I (length ps) s"
  proof (rule for_each_invariant [where I = ?I])
    fix i s
    assume i: "i < length ps" and "?I i s"
    then obtain b where b: "s = (ValBitString sz b, drop_bit i x)" "mms_ok (ValBitString sz b)"
      "\<forall>j < i. bit_at b (ps ! j) = bit x j" by blast
    have odd: "drop_bit i x AND 1 = 1 \<longleftrightarrow> bit x i"
      by (simp add: and_one_eq bit_iff_odd_drop_bit odd_iff_mod_2_eq_one)
    obtain b' where b': "MmsValue_setBitStringBit (ValBitString sz b) (ps ! i) (bit x i) = Some (ValBitString sz b')"
      "mms_ok (ValBitString sz b')" "\<forall>j. bit_at b' j = (if j = ps ! i then bit x i else bit_at b j)"
      using setBit_bits [OF b(2) assms(2) [OF i]] by blast
    have "ps ! j \<noteq> ps ! i" if "j < i" for j
      using that i assms(3) by (simp add: nth_eq_iff_index_eq)
    with b b' have "store_low_bit (ps ! i) s = Some (ValBitString sz b', drop_bit (Suc i) x)"
      "\<forall>j < Suc i. bit_at b' (ps ! j) = bit x j"
      by (auto simp: store_low_bit_def odd less_Suc_eq simp del: MmsValue_setBitStringBit.simps)
    then show "\<exists>s'. store_low_bit (ps ! i) s = Some s' \<and> ?I (Suc i) s'" using b'(2) by auto
  qed (use assms(1) in auto)
  then show ?thesis by auto
qed

text \<open>
  Integers round trip through bit strings of up to 32 bits, in either bit order: after
  storing, reading answers the integer modulo 2 to the size of the string.
\<close>

theorem bit_string_integer_roundtrip:
  assumes "mms_ok (ValBitString sz buf)" "sz \<le> 32"
  shows "(\<exists>v. MmsValue_setBitStringFromInteger (ValBitString sz buf) x = Some v \<and> mms_ok v \<and>
      MmsValue_getBitStringAsInteger v = Some (take_bit sz x)) \<and>
    (\<exists>v. MmsValue_setBitStringFromIntegerBigEndian (ValBitString sz buf) x = Some v \<and> mms_ok v \<and>
      MmsValue_getBitStringAsIntegerBigEndian v = Some (take_bit sz x))"
proof
  obtain b y where b: "for_each [0..<sz] store_low_bit (ValBitString sz buf, x) = Some (ValBitString sz b, y)"
    "mms_ok (ValBitString sz b)" "\<forall>i < sz. bit_at b i = bit x i"
    using store_bits_eq [OF assms(1), of "[0..<sz]" x] by auto
  have eq: "map (bit_at b) [0..<sz] = map (bit x) [0..<sz]" using b(3) by simp
  have "MmsValue_getBitStringAsInteger (ValBitString sz b) = Some (take_bit sz x)"
    using getAsInteger_bits(1) [OF b(2) assms(2)]
    by (simp only: bits_of.simps eq horner_sum_bit_eq_take_bit)
  with b show "\<exists>v. MmsValue_setBitStringFromInteger (ValBitString sz buf) x = Some v \<and> mms_ok v \<and>
      MmsValue_getBitStringAsInteger v = Some (take_bit sz x)"
    by (auto simp: MmsValue_setBitStringFromInteger_def)
next
  obtain b y where b: "for_each (rev [0..<sz]) store_low_bit (ValBitString sz buf, x) = Some (ValBitString sz b, y)"
    "mms_ok (ValBitString sz b)" "\<forall>i < sz. bit_at b (rev [0..<sz] ! i) = bit x i"
    using store_bits_eq [OF assms(1), of "rev [0..<sz]" x] by (auto simp: rev_nth)
  have "rev (map (bit_at b) [0..<sz]) = map (bit x) [0..<sz]"
    using b(3) by (intro nth_equalityI) (simp_all add: rev_nth)
  then have "MmsValue_getBitStringAsIntegerBigEndian (ValBitString sz b) = Some (take_bit sz x)"
    using getAsInteger_bits(2) [OF b(2) assms(2)] by (simp add: horner_sum_bit_eq_take_bit)
  with b show "\<exists>v. MmsValue_setBitStringFromIntegerBigEndian (ValBitString sz buf) x = Some v \<and> mms_ok v \<and>
      MmsValue_getBitStringAsIntegerBigEndian v = Some (take_bit sz x)"
    by (auto simp: MmsValue_setBitStringFromIntegerBigEndian_def)
qed

theorem bit_string_integer_roundtrip_witness:
  "\<exists>v. MmsValue_setBitStringFromIntegerBigEndian (ValBitString 2 [0]) 2 = Some v \<and> mms_ok v \<and>
      MmsValue_getBitStringAsIntegerBigEndian v = Some (take_bit 2 2)"
  by (rule conjunct2 [OF bit_string_integer_roundtrip]) (simp_all add: bitStringByteSize_def)

section \<open>Times\<close>

lemma store_seconds_eq:
  "length a = 8 \<Longrightarrow> store_seconds a t = Some (rev (le_bytes 4 t) @ drop 4 a)"
  by (simp add: store_seconds_def memcpy_eq length_le_bytes)

lemma be_uint_seconds: "(word_of_int (be_uint (rev (le_bytes 4 t))) :: u32) = t"
proof -
  have "uint t mod 256 ^ 4 = uint t" using uint_lt2p [of t] by simp
  then show ?thesis by (simp add: be_uint_le_bytes)
qed

lemma list_of_4: "length a = 4 \<Longrightarrow> \<exists>a0 a1 a2 a3. a = [a0, a1, a2, a3]"
  by (auto simp: length_Suc_conv numeral_eq_Suc)

lemma read_seconds_stored: "read_seconds (rev (le_bytes 4 t) @ rest) = Some t"
proof -
  obtain a0 a1 a2 a3 where a: "rev (le_bytes 4 t) = [a0, a1, a2, a3]"
    using list_of_4 [of "rev (le_bytes 4 t)"] by (auto simp: length_le_bytes)
  show ?thesis
    unfolding a using be_uint_seconds [of t] by (simp add: read_seconds_def rd_def a)
qed

lemma ucast_nat: "ucast w = word_of_nat (unat w)"
  by simp

lemma unat_word_of_nat_small: "a < 2 ^ LENGTH('a) \<Longrightarrow> unat (word_of_nat a :: 'a::len word) = a"
  by (simp add: unat_of_nat)

lemma word_of_nat_div:
  "a < 2 ^ LENGTH('a) \<Longrightarrow> b < 2 ^ LENGTH('a) \<Longrightarrow>
   (word_of_nat a :: 'a::len word) div word_of_nat b = word_of_nat (a div b)"
  by (simp add: word_unat_eq_iff unat_div unat_word_of_nat_small le_less_trans [OF div_le_dividend]
      del: unsigned_of_nat)

lemma ucast_word_of_nat:
  "LENGTH('b) \<le> LENGTH('a) \<Longrightarrow> (ucast (word_of_nat n :: 'a::len word) :: 'b::len word) = word_of_nat n"
  by (rule bit_word_eqI) (simp add: bit_simps)

text \<open>The three fraction octets of a number below \<open>2 ^ 24\<close>.\<close>

lemma read_fraction_stored:
  assumes "f < 16777216" "24 < LENGTH('a)"
  shows "read_fraction [a0, a1, a2, a3, word_of_nat (f div 65536), word_of_nat (f div 256), word_of_nat f, q] =
    (Some (word_of_nat f) :: 'a::len word option)"
proof -
  have u: "unat (word_of_nat (f div 65536) :: u8) = f div 65536"
    "unat (word_of_nat (f div 256) :: u8) = f div 256 mod 256" "unat (word_of_nat f :: u8) = f mod 256"
    using assms(1) by (simp_all add: unat_of_nat)
  have "f div 256 div 256 = f div 65536" by (simp add: div_mult2_eq [symmetric])
  then have f: "f = (f div 65536) * 65536 + (f div 256 mod 256) * 256 + f mod 256"
    using div_mult_mod_eq [of f 256] div_mult_mod_eq [of "f div 256" 256] by linarith
  have "push_bit 16 (ucast (word_of_nat (f div 65536) :: u8)) + push_bit 8 (ucast (word_of_nat (f div 256) :: u8))
      + ucast (word_of_nat f :: u8)
    = (word_of_nat ((f div 65536) * 65536 + (f div 256 mod 256) * 256 + f mod 256) :: 'a word)"
    unfolding ucast_nat u push_bit_eq_mult of_nat_add of_nat_mult by simp
  also have "\<dots> = word_of_nat f" by (simp only: f [symmetric])
  finally have *: "push_bit 16 (ucast (word_of_nat (f div 65536) :: u8)) + push_bit 8 (ucast (word_of_nat (f div 256) :: u8))
      + ucast (word_of_nat f :: u8) = (word_of_nat f :: 'a word)" .
  show ?thesis unfolding read_fraction_def by (simp add: rd_def * del: of_nat_unat)
qed

text \<open>The fraction field for \<open>r\<close> milliseconds.\<close>

definition ms_fraction :: "nat \<Rightarrow> nat" where
  "ms_fraction r = r * 16777 + r * 216 div 1000"

lemma ms_fraction_word:
  assumes "r < 1000"
  shows "word_of_nat r * 16777 + (word_of_nat r * 216) div 1000 = (word_of_nat (ms_fraction r) :: u32)"
    "ms_fraction r < 16777216"
proof -
  have "(word_of_nat (r * 216) :: u32) div word_of_nat 1000 = word_of_nat (r * 216 div 1000)"
    using assms by (intro word_of_nat_div) simp_all
  then show "word_of_nat r * 16777 + (word_of_nat r * 216) div 1000 = (word_of_nat (ms_fraction r) :: u32)"
    by (simp add: ms_fraction_def)
  show "ms_fraction r < 16777216" using assms by (simp add: ms_fraction_def)
qed

lemma wr_8:
  "wr [a, b, c, d, e, f, g, h] 4 x = Some [a, b, c, d, x, f, g, h]"
  "wr [a, b, c, d, e, f, g, h] 5 x = Some [a, b, c, d, e, x, g, h]"
  "wr [a, b, c, d, e, f, g, h] 6 x = Some [a, b, c, d, e, f, x, h]"
  "wr [a, b, c, d, e, f, g, h] 7 x = Some [a, b, c, d, e, f, g, x]"
  by (simp_all add: wr_def numeral_eq_Suc)

lemma setUtcTimeMs_eq:
  assumes "length a = 8"
  shows "MmsValue_setUtcTimeMs (ValUtcTime a) t =
    Some (ValUtcTime (rev (le_bytes 4 (ucast (t div 1000) :: u32)) @
      (let f = ms_fraction (unat t mod 1000) in
       [word_of_nat (f div 65536), word_of_nat (f div 256), word_of_nat f, 0x0a])))"
proof -
  let ?f = "ms_fraction (unat t mod 1000)"
  have r: "(ucast (t mod 1000) :: u32) = word_of_nat (unat t mod 1000)"
    by (simp add: ucast_nat unat_mod_distrib)
  have "unat t mod 1000 < 1000" by simp
  note fr = ms_fraction_word [OF this]
  have b: "ucast (drop_bit k (word_of_nat ?f :: u32) AND 0xff) = (word_of_nat (?f div 2 ^ k) :: u8)" for k
  proof -
    have d: "drop_bit k (word_of_nat ?f :: u32) = word_of_nat (?f div 2 ^ k)"
    proof (rule word_unat_eq_iff [THEN iffD2])
      have "?f div 2 ^ k < 2 ^ 32" by (rule le_less_trans [OF div_le_dividend]) (use fr(2) in simp)
      then show "unat (drop_bit k (word_of_nat ?f :: u32)) = unat (word_of_nat (?f div 2 ^ k) :: u32)"
        unfolding unat_drop_bit_eq using fr(2)
        by (simp add: drop_bit_eq_div unat_word_of_nat_small del: unsigned_of_nat)
    qed
    have m: "(0xff :: u32) = mask 8" by (simp add: mask_eq_exp_minus_1)
    show ?thesis
      unfolding d m take_bit_eq_mask [symmetric] by (rule bit_word_eqI) (auto simp: bit_simps)
  qed
  obtain s0 s1 s2 s3 where s: "rev (le_bytes 4 (ucast (t div 1000) :: u32)) = [s0, s1, s2, s3]"
    using list_of_4 [of "rev (le_bytes 4 (ucast (t div 1000) :: u32))"] by (auto simp: length_le_bytes)
  obtain a4 a5 a6 a7 where d: "drop 4 a = [a4, a5, a6, a7]"
    using list_of_4 [of "drop 4 a"] assms by auto
  show ?thesis
    using b [of 16] b [of 8] b [of 0] assms
    by (simp add: store_seconds_eq s d r fr(1) wr_8 Let_def)
qed

lemma getUtcTimeInMs_eq:
  assumes "f < 16777216"
  shows "MmsValue_getUtcTimeInMs (ValUtcTime (rev (le_bytes 4 (t :: u32)) @
      [word_of_nat (f div 65536), word_of_nat (f div 256), word_of_nat f, q])) =
    Some (word_of_nat (unat t * 1000 + f div 16777))"
    "MmsValue_getUtcTimeInMsWithUs (ValUtcTime (rev (le_bytes 4 (t :: u32)) @
      [word_of_nat (f div 65536), word_of_nat (f div 256), word_of_nat f, q])) =
    (let us = f * 1000000 div 16777216 in
     Some (word_of_nat (unat t * 1000 + us div 1000), word_of_nat (us mod 1000)))"
proof -
  obtain s0 s1 s2 s3 where s: "rev (le_bytes 4 t) = [s0, s1, s2, s3]"
    using list_of_4 [of "rev (le_bytes 4 t)"] by (auto simp: length_le_bytes)
  note sec = read_seconds_stored [of t, unfolded s, simplified]
  have 1: "(word_of_nat f :: u32) div 16777 = word_of_nat (f div 16777)"
    using word_of_nat_div [of f 16777, where 'a = 32] assms by simp
  define us where "us = f * 1000000 div 16777216"
  have 2: "(word_of_nat f :: u64) * 1000000 div 16777216 = word_of_nat us"
    using word_of_nat_div [of "f * 1000000" 16777216, where 'a = 64] assms by (simp add: us_def)
  have us: "us < 1000000" using assms by (simp add: us_def div_less_iff_less_mult)
  have 3: "(word_of_nat us :: u64) div 1000 = word_of_nat (us div 1000)"
    using word_of_nat_div [of us 1000, where 'a = 64] us by simp
  have 4: "(word_of_nat us :: u64) mod 1000 = word_of_nat (us mod 1000)"
    using us by (simp add: word_unat_eq_iff unat_mod_distrib unat_word_of_nat_small del: unsigned_of_nat)
  have w: "(ucast (word_of_nat n :: u32) :: u64) = word_of_nat n" if "n < 2 ^ 32" for n
    using that by (simp add: ucast_nat unat_word_of_nat_small del: of_nat_unat unsigned_of_nat)
  have f: "f div 16777 < 2 ^ 32" using assms by (simp add: div_less_iff_less_mult)
  show "MmsValue_getUtcTimeInMs (ValUtcTime (rev (le_bytes 4 t) @
      [word_of_nat (f div 65536), word_of_nat (f div 256), word_of_nat f, q])) =
    Some (word_of_nat (unat t * 1000 + f div 16777))"
    using assms by (simp add: s sec read_fraction_stored 1 w [OF f])
  have "(ucast (word_of_nat (us mod 1000) :: u64) :: u32) = word_of_nat (us mod 1000)"
    by (rule ucast_word_of_nat) simp
  then show "MmsValue_getUtcTimeInMsWithUs (ValUtcTime (rev (le_bytes 4 t) @
      [word_of_nat (f div 65536), word_of_nat (f div 256), word_of_nat f, q])) =
    (let us = f * 1000000 div 16777216 in
     Some (word_of_nat (unat t * 1000 + us div 1000), word_of_nat (us mod 1000)))"
    unfolding Let_def us_def [symmetric] using assms
    by (simp add: s sec read_fraction_stored 2 3 4)
qed

lemma ms_fraction_decode:
  assumes "r < 1000"
  shows "ms_fraction r div 16777 = r"
    "ms_fraction r * 1000000 div 16777216 = (if r mod 125 = 0 then r * 1000 else r * 1000 - 1)"
proof -
  have "r * 216 div 1000 < 16777" using assms by (simp add: div_less_iff_less_mult)
  then show "ms_fraction r div 16777 = r" by (simp add: ms_fraction_def div_nat_eqI)
  define e where "e = r * 216 mod 1000"
  have e: "ms_fraction r * 1000 + e = 16777216 * r" "e < 1000"
    using div_mult_mod_eq [of "r * 216" 1000] by (simp_all add: ms_fraction_def e_def)
  have zero: "e = 0 \<longleftrightarrow> r mod 125 = 0"
  proof -
    have "e = 0 \<longleftrightarrow> 8 * 125 dvd 8 * (r * 27)" by (simp add: e_def mod_eq_0_iff_dvd mult.commute)
    also have "\<dots> \<longleftrightarrow> 125 dvd r * 27" by (subst nat_mult_dvd_cancel_disj) simp
    also have "\<dots> \<longleftrightarrow> 125 dvd r"
      by (rule coprime_dvd_mult_left_iff) code_simp
    finally show ?thesis by (simp add: mod_eq_0_iff_dvd)
  qed
  show "ms_fraction r * 1000000 div 16777216 = (if r mod 125 = 0 then r * 1000 else r * 1000 - 1)"
  proof (cases "e = 0")
    case True
    then have "ms_fraction r * 1000000 = 16777216 * (r * 1000)" using e by linarith
    then have "ms_fraction r * 1000000 div 16777216 = r * 1000" by simp
    with True zero show ?thesis by simp
  next
    case False
    then have "r \<noteq> 0" using zero by auto
    then have "Suc (r * 1000 - 1) = r * 1000" by simp
    then have "ms_fraction r * 1000000 < 16777216 * Suc (r * 1000 - 1)"
      using e False by (simp only:)
    moreover have "16777216 * (r * 1000 - 1) \<le> ms_fraction r * 1000000"
      using e by (simp add: diff_mult_distrib2)
    ultimately have "ms_fraction r * 1000000 div 16777216 = r * 1000 - 1"
      by (intro div_nat_eqI)
    with False zero show ?thesis by simp
  qed
qed

text \<open>
  UTC times round trip to the millisecond: a time up to the year 2106 stored by
  \<open>MmsValue_setUtcTimeMs\<close> is what \<open>MmsValue_getUtcTimeInMs\<close> returns. The variant
  \<open>MmsValue_getUtcTimeInMsWithUs\<close> answers the same instant only for multiples of 125 ms;
  otherwise its milliseconds and microseconds add up to one microsecond less.
\<close>

theorem utc_time_roundtrip:
  assumes "length a = 8" "unat t < 1000 * 2 ^ 32"
  shows "\<exists>v. MmsValue_setUtcTimeMs (ValUtcTime a) t = Some v \<and> mms_ok v \<and>
    MmsValue_getUtcTimeInMs v = Some t \<and>
    (\<exists>ms us. MmsValue_getUtcTimeInMsWithUs v = Some (ms, us) \<and>
      unat ms * 1000 + unat us = (if unat t mod 125 = 0 then unat t * 1000 else unat t * 1000 - 1))"
proof -
  define r where "r = unat t mod 1000"
  let ?f = "ms_fraction r"
  let ?s = "ucast (t div 1000) :: u32"
  let ?a = "rev (le_bytes 4 ?s) @ [word_of_nat (?f div 65536), word_of_nat (?f div 256), word_of_nat ?f, 0x0a]"
  have r: "r < 1000" by (simp add: r_def)
  have f: "?f < 16777216" by (rule ms_fraction_word [OF r])
  have set: "MmsValue_setUtcTimeMs (ValUtcTime a) t = Some (ValUtcTime ?a)"
    using setUtcTimeMs_eq [OF assms(1), of t] by (simp add: r_def Let_def)
  have sec: "unat ?s = unat t div 1000"
  proof -
    have "unat t div 1000 < 2 ^ 32" using assms(2) by (simp add: div_less_iff_less_mult)
    moreover have "?s = word_of_nat (unat t div 1000)"
      unfolding ucast_nat by (simp add: unat_div del: of_nat_unat)
    ultimately show ?thesis by (simp add: unat_word_of_nat_small del: unsigned_of_nat)
  qed
  have t: "unat t = unat t div 1000 * 1000 + r" by (simp add: r_def)
  have "MmsValue_getUtcTimeInMs (ValUtcTime ?a) = Some (word_of_nat (unat t div 1000 * 1000 + r))"
    unfolding getUtcTimeInMs_eq(1) [OF f] ms_fraction_decode(1) [OF r] sec ..
  also have "\<dots> = Some t" by (simp only: t [symmetric]) simp
  finally have ms: "MmsValue_getUtcTimeInMs (ValUtcTime ?a) = Some t" .
  define us where "us = (if r mod 125 = 0 then r * 1000 else r * 1000 - 1)"
  have us: "us < 1000000" "us div 1000 \<le> r" using r by (auto simp: us_def)
  have W: "MmsValue_getUtcTimeInMsWithUs (ValUtcTime ?a) =
      Some (word_of_nat (unat t div 1000 * 1000 + us div 1000), word_of_nat (us mod 1000))"
    unfolding getUtcTimeInMs_eq(2) [OF f] ms_fraction_decode(2) [OF r] sec us_def Let_def ..
  have "unat t div 1000 * 1000 + us div 1000 < 2 ^ 64"
  proof -
    have "unat t div 1000 * 1000 + us div 1000 \<le> unat t" using us(2) t by linarith
    also have "\<dots> < 2 ^ 64" using assms(2) by simp
    finally show ?thesis .
  qed
  then have "unat (word_of_nat (unat t div 1000 * 1000 + us div 1000) :: u64) = unat t div 1000 * 1000 + us div 1000"
    by (intro unat_word_of_nat_small) simp
  moreover have "unat (word_of_nat (us mod 1000) :: u32) = us mod 1000"
  proof (rule unat_word_of_nat_small)
    have "us mod 1000 < 1000" by simp
    then show "us mod 1000 < 2 ^ LENGTH(32)" by simp
  qed
  moreover have "(unat t div 1000 * 1000 + us div 1000) * 1000 + us mod 1000 =
      (if unat t mod 125 = 0 then unat t * 1000 else unat t * 1000 - 1)"
  proof -
    have m: "unat t mod 125 = r mod 125" unfolding r_def by (simp add: mod_mod_cancel)
    have "us div 1000 * 1000 + us mod 1000 = us" by simp
    then have "(unat t div 1000 * 1000 + us div 1000) * 1000 + us mod 1000 = unat t div 1000 * 1000000 + us"
      by (simp add: add_mult_distrib)
    moreover have "r mod 125 \<noteq> 0 \<longrightarrow> r \<noteq> 0" by auto
    ultimately show ?thesis using m t by (auto simp: us_def)
  qed
  moreover have "mms_ok (ValUtcTime ?a)" by (simp add: length_le_bytes)
  ultimately show ?thesis unfolding set using ms W by (intro exI [of _ "ValUtcTime ?a"]) auto
qed

theorem utc_time_roundtrip_witness:
  "\<exists>v. MmsValue_setUtcTimeMs (ValUtcTime (replicate 8 0)) 1500000000001 = Some v \<and> mms_ok v \<and>
    MmsValue_getUtcTimeInMs v = Some 1500000000001"
  using utc_time_roundtrip [of "replicate 8 0" 1500000000001] by auto

lemma binary_time_bytes:
  assumes "n < 4294967296"
  shows "word_of_int (be_uint [ucast (drop_bit 24 (word_of_nat n :: u32)), ucast (drop_bit 16 (word_of_nat n :: u32)),
     ucast (drop_bit 8 (word_of_nat n :: u32)), ucast (word_of_nat n :: u32)]) = (word_of_nat n :: u32)"
proof -
  have "[ucast (drop_bit 24 (word_of_nat n :: u32)), ucast (drop_bit 16 (word_of_nat n :: u32)),
     ucast (drop_bit 8 (word_of_nat n :: u32)), ucast (word_of_nat n :: u32)] = rev (le_bytes 4 (word_of_nat n :: u32))"
    by (simp add: le_bytes_def upt_conv_Cons)
  then show ?thesis using be_uint_seconds [of "word_of_nat n"] by simp
qed


lemma day_bytes: "(ucast (ucast (drop_bit 8 x) :: u8) * 256 + ucast (ucast x :: u8) :: u16) = x"
proof -
  have "push_bit 8 (ucast (ucast (drop_bit 8 x) :: u8)) AND ucast (ucast x :: u8) = (0 :: u16)"
    by (rule bit_word_eqI) (auto simp: bit_simps)
  then have "push_bit 8 (ucast (ucast (drop_bit 8 x) :: u8)) + ucast (ucast x :: u8)
      = push_bit 8 (ucast (ucast (drop_bit 8 x) :: u8)) OR (ucast (ucast x :: u8) :: u16)"
    using word_plus_and_or [of "push_bit 8 (ucast (ucast (drop_bit 8 x) :: u8))" "ucast (ucast x :: u8) :: u16"]
    by simp
  also have "\<dots> = x" by (rule bit_word_eqI) (auto simp: bit_simps)
  finally show ?thesis by (simp add: push_bit_eq_mult)
qed

lemma wr_6:
  "wr [a, b, c, d, e, f] 0 x = Some [x, b, c, d, e, f]"
  "wr [a, b, c, d, e, f] 1 x = Some [a, x, c, d, e, f]"
  "wr [a, b, c, d, e, f] (Suc 0) x = Some [a, x, c, d, e, f]"
  "wr [a, b, c, d, e, f] 2 x = Some [a, b, x, d, e, f]"
  "wr [a, b, c, d, e, f] 3 x = Some [a, b, c, x, e, f]"
  "wr [a, b, c, d, e, f] 4 x = Some [a, b, c, d, x, f]"
  "wr [a, b, c, d, e, f] 5 x = Some [a, b, c, d, e, x]"
  by (simp_all add: wr_def numeral_eq_Suc)

text \<open>
  Binary times (6 octets) round trip: a time in the 65536 days from the MMS epoch
  1984-01-01 stored by \<open>MmsValue_setBinaryTime\<close> is returned exactly by
  \<open>MmsValue_getBinaryTimeAsUtcMs\<close>, and an earlier time is stored as the epoch itself.
\<close>

theorem binary_time_roundtrip:
  assumes "length a = 6" "unat t < 441763200000 + 65536 * 86400000"
  shows "\<exists>v. MmsValue_setBinaryTime (ValBinaryTime 6 a) t = Some v \<and> mms_ok v \<and>
    MmsValue_getBinaryTimeAsUtcMs v = Some (if t > mms_epoch then t else mms_epoch)"
proof -
  define m where "m = (if t > mms_epoch then t - mms_epoch else 0)"
  define n where "n = unat m"
  have epoch: "unat mms_epoch = 441763200000" by (simp add: mms_epoch_def)
  have m: "m = word_of_nat n" "n < 65536 * 86400000"
  proof -
    show "m = word_of_nat n" by (simp add: n_def)
    show "n < 65536 * 86400000"
    proof (cases "t > mms_epoch")
      case True
      then have "mms_epoch \<le> t" by simp
      then have "n = unat t - 441763200000" using True by (simp add: n_def m_def unat_sub epoch)
      then show ?thesis using assms(2) by linarith
    qed (simp add: n_def m_def)
  qed
  define d r where "d = n div 86400000" and "r = n mod 86400000"
  have n: "n = d * 86400000 + r" "d < 65536" "r < 86400000"
    using m(2) by (simp_all add: d_def r_def div_less_iff_less_mult)
  have D: "(ucast (m div 86400000) :: u16) = word_of_nat d"
  proof -
    have "m div 86400000 = word_of_nat d"
      using word_of_nat_div [of n 86400000, where 'a = 64] m by (simp add: d_def)
    then show ?thesis by (simp only:) (rule ucast_word_of_nat, simp)
  qed
  have R: "(ucast (m mod 86400000) :: u32) = word_of_nat r"
  proof -
    have "unat (m mod 86400000) = r" by (simp add: unat_mod_distrib n_def r_def)
    then show ?thesis unfolding ucast_nat by (simp only:)
  qed
  have ud: "(ucast (word_of_nat d :: u16) :: u64) = word_of_nat d"
    "(ucast (word_of_nat r :: u32) :: u64) = word_of_nat r"
    using n(2,3) by (simp_all add: ucast_nat unat_word_of_nat_small del: of_nat_unat unsigned_of_nat)
  obtain a0 a1 a2 a3 a4 a5 where a: "a = [a0, a1, a2, a3, a4, a5]"
    using assms(1) by (auto simp: length_Suc_conv numeral_eq_Suc)
  let ?R = "word_of_nat r :: u32" and ?D = "word_of_nat d :: u16"
  let ?a = "[ucast (drop_bit 24 ?R), ucast (drop_bit 16 ?R), ucast (drop_bit 8 ?R), ucast ?R,
      ucast (drop_bit 8 ?D), ucast ?D] :: u8 list"
  have set: "MmsValue_setBinaryTime (ValBinaryTime 6 a) t = Some (ValBinaryTime 6 ?a)"
    by (simp only: MmsValue_setBinaryTime.simps Let_def m_def [symmetric] D R a)
      (simp add: wr_6)
  have sec: "read_seconds ?a = Some ?R"
    using binary_time_bytes [of r] n(3) by (simp add: read_seconds_def rd_def)
  have "word_of_nat d * 86400000 + mms_epoch + word_of_nat r = mms_epoch + m"
    unfolding m(1) n(1) by simp
  also have "\<dots> = (if t > mms_epoch then t else mms_epoch)" by (simp add: m_def)
  finally have "MmsValue_getBinaryTimeAsUtcMs (ValBinaryTime 6 ?a) =
      Some (if t > mms_epoch then t else mms_epoch)"
    using sec by (simp add: rd_def day_bytes ud)
  with set show ?thesis by (intro exI [of _ "ValBinaryTime 6 ?a"]) simp
qed

theorem binary_time_roundtrip_witness:
  "\<exists>v. MmsValue_setBinaryTime (ValBinaryTime 6 (replicate 6 0)) 1500000000001 = Some v \<and> mms_ok v \<and>
    MmsValue_getBinaryTimeAsUtcMs v = Some (if (1500000000001 :: u64) > mms_epoch then 1500000000001 else mms_epoch)"
  by (rule binary_time_roundtrip) simp_all

section \<open>The contracts of clone, equality and update\<close>

text \<open>
  C39: \<open>MmsValue_clone\<close> returns, for every well-formed value however deeply nested, a well-formed
  value that \<open>MmsValue_equals\<close> cannot tell from the original, and \<open>MmsValue_equals\<close> is
  reflexive on well-formed values.
\<close>

theorem clone_equals:
  assumes "mms_ok v"
  shows "MmsValue_equals v v = Some True \<and>
    (\<exists>w. MmsValue_clone v = Some w \<and> mms_ok w \<and> MmsValue_equals v w = Some True)"
  using equals_refl [OF assms] clone_equal [OF assms] by blast

definition sample_value :: MmsValue where
  "sample_value = ValStructure
     [Some (ValBoolean True), Some (ValArray [Some (ValVisibleString 3 (Some [65]))]),
      Some (ValBitString 3 [0xa0])]"

lemma sample_value_ok: "mms_ok sample_value"
  by (simp add: sample_value_def bitStringByteSize_def)

theorem clone_equals_witness:
  "\<exists>w. MmsValue_clone sample_value = Some w \<and> mms_ok w \<and> MmsValue_equals sample_value w = Some True"
  using clone_equals [OF sample_value_ok] by blast

text \<open>
  C23: \<open>MmsValue_update\<close>, the assignment of MMS writes, on well-formed values: it always returns,
  keeps the target well-formed and of the same type in every component, and when it reports
  success and no bit string of the source is shorter than the one it replaces, the target
  equals the source.
\<close>

theorem update_contract:
  assumes "mms_ok self" "mms_ok upd"
  shows "\<exists>self' ok. MmsValue_update self upd = Some (self', ok) \<and> mms_ok self' \<and>
     MmsValue_equalTypes self self' = Some True \<and>
     (ok \<longrightarrow> same_layout self upd \<longrightarrow> MmsValue_equals self' upd = Some True)"
  using update_total [OF assms] unfolding update_result_def .

theorem update_contract_witness:
  "\<exists>self' ok. MmsValue_update sample_value (ValBoolean False) = Some (self', ok) \<and> mms_ok self' \<and>
     MmsValue_equalTypes sample_value self' = Some True"
  using update_contract [OF sample_value_ok, of "ValBoolean False"] by auto

text \<open>
  \<open>MmsValue_update\<close> of a structure is not atomic: when a later component has another type,
  it returns false after the earlier components were already overwritten.
\<close>

theorem update_not_atomic:
  "MmsValue_update (ValStructure [Some (ValBoolean False), Some (ValBoolean False)])
     (ValStructure [Some (ValBoolean True), Some (ValDataAccessError 3)]) =
   Some (ValStructure [Some (ValBoolean True), Some (ValBoolean False)], False)"
  by (simp add: MmsValue_update.simps)

text \<open>
  The capacity of a string value is an \<open>int16_t\<close>: creating a visible string of up to 32767
  characters stores it whole, while for 32768 to 65535 characters the stored size is negative
  and the copy leaves the buffer.
\<close>

theorem string_capacity:
  "(length s < 32768 \<longrightarrow> MmsValue_newVisibleString (Some s) = Some (ValVisibleString (int (length s)) (Some s))) \<and>
   (32768 \<le> length s \<and> length s < 65536 \<longrightarrow> MmsValue_newVisibleString (Some s) = None)"
proof (intro conjI impI)
  assume "length s < 32768"
  then show "MmsValue_newVisibleString (Some s) = Some (ValVisibleString (int (length s)) (Some s))"
    using wrap16_id [of "int (length s)"]
    by (simp add: MmsValue_newVisibleString_def MmsValue_newString_def string_value_def Let_def)
next
  assume l: "32768 \<le> length s \<and> length s < 65536"
  have "wrap16 (int (length s)) = (int (length s) + 2 ^ 15) mod 2 ^ 16 - 2 ^ 15"
    unfolding wrap16_def signed_take_bit_eq_take_bit_shift by (simp add: take_bit_eq_mod)
  also have "(int (length s) + 2 ^ 15) mod 2 ^ 16 = (int (length s) - 2 ^ 15 + 2 ^ 16) mod 2 ^ 16"
    by (simp add: add.commute)
  also have "\<dots> = int (length s) - 2 ^ 15"
    unfolding mod_add_self2 using l by (intro mod_pos_pos_trivial) simp_all
  finally have "wrap16 (int (length s)) < 0" using l by simp
  then show "MmsValue_newVisibleString (Some s) = None"
    by (simp add: MmsValue_newVisibleString_def MmsValue_newString_def Let_def)
qed

theorem string_capacity_witness:
  "MmsValue_newVisibleString (Some [84, 97, 103]) = Some (ValVisibleString 3 (Some [84, 97, 103])) \<and>
   MmsValue_newVisibleString (Some (replicate 40000 65)) = None"
  using string_capacity [of "[84, 97, 103]"] string_capacity [of "replicate 40000 65"] by simp

section \<open>Values of a declared type\<close>

fun conforms :: "MmsVariableSpecification \<Rightarrow> MmsValue \<Rightarrow> bool"
and conform_all :: "MmsVariableSpecification list \<Rightarrow> MmsValue option list \<Rightarrow> bool" where
  "conforms (SpecArray n t) v \<longleftrightarrow> (case v of ValArray cs \<Rightarrow> length cs = n \<and>
     list_all (\<lambda>c. case c of Some v \<Rightarrow> conforms t v | None \<Rightarrow> False) cs | _ \<Rightarrow> False)"
| "conforms (SpecStructure ts) v \<longleftrightarrow> (case v of ValStructure cs \<Rightarrow> conform_all ts cs | _ \<Rightarrow> False)"
| "conforms SpecBoolean v \<longleftrightarrow> MmsValue_getType v = MMS_BOOLEAN"
| "conforms (SpecBitString _) v \<longleftrightarrow> MmsValue_getType v = MMS_BIT_STRING"
| "conforms (SpecInteger _) v \<longleftrightarrow> MmsValue_getType v = MMS_INTEGER"
| "conforms (SpecUnsigned _) v \<longleftrightarrow> MmsValue_getType v = MMS_UNSIGNED"
| "conforms (SpecFloat _ _) v \<longleftrightarrow> MmsValue_getType v = MMS_FLOAT"
| "conforms (SpecOctetString _) v \<longleftrightarrow> MmsValue_getType v = MMS_OCTET_STRING"
| "conforms (SpecVisibleString _) v \<longleftrightarrow> MmsValue_getType v = MMS_VISIBLE_STRING"
| "conforms (SpecMmsString _) v \<longleftrightarrow> MmsValue_getType v = MMS_STRING"
| "conforms SpecUtcTime v \<longleftrightarrow> MmsValue_getType v = MMS_UTC_TIME"
| "conforms (SpecBinaryTime _) v \<longleftrightarrow> MmsValue_getType v = MMS_BINARY_TIME"
| "conforms (SpecUnsupported _) v \<longleftrightarrow> False"
| "conform_all (t # ts) (c # cs) \<longleftrightarrow> (case c of Some v \<Rightarrow> conforms t v | None \<Rightarrow> False) \<and> conform_all ts cs"
| "conform_all [] [] \<longleftrightarrow> True"
| "conform_all _ _ \<longleftrightarrow> False"

text \<open>Specifications whose sizes fit the size fields of the values.\<close>

fun spec_ok :: "MmsVariableSpecification \<Rightarrow> bool" where
  "spec_ok (SpecArray _ t) \<longleftrightarrow> spec_ok t"
| "spec_ok (SpecStructure ts) \<longleftrightarrow> (\<forall>t \<in> set ts. spec_ok t)"
| "spec_ok (SpecOctetString n) \<longleftrightarrow> \<bar>n\<bar> < 2 ^ 16"
| "spec_ok (SpecVisibleString n) \<longleftrightarrow> \<bar>n\<bar> < 2 ^ 15"
| "spec_ok (SpecMmsString n) \<longleftrightarrow> \<bar>n\<bar> < 2 ^ 15"
| "spec_ok (SpecUnsupported _) \<longleftrightarrow> False"
| "spec_ok _ \<longleftrightarrow> True"

lemma conform_all_default:
  assumes "\<And>t. t \<in> set ts \<Longrightarrow> \<exists>v. MmsValue_newDefaultValue t = Some v \<and> mms_ok v \<and> conforms t v"
  shows "\<exists>vs. map MmsValue_newDefaultValue ts = map Some vs \<and> (\<forall>v \<in> set vs. mms_ok v) \<and>
    conform_all ts (map Some vs)"
  using assms
proof (induction ts)
  case (Cons t ts)
  obtain v where "MmsValue_newDefaultValue t = Some v" "mms_ok v" "conforms t v"
    using Cons.prems [of t] by auto
  moreover obtain vs where "map MmsValue_newDefaultValue ts = map Some vs" "\<forall>v \<in> set vs. mms_ok v"
    "conform_all ts (map Some vs)" using Cons by auto
  ultimately show ?case by (intro exI [of _ "v # vs"]) simp
qed simp

lemma default_conforms:
  "spec_ok t \<Longrightarrow> \<exists>v. MmsValue_newDefaultValue t = Some v \<and> mms_ok v \<and> conforms t v"
proof (induction t rule: MmsValue_newDefaultValue.induct)
  case (10 n t)
  then obtain v where "MmsValue_newDefaultValue t = Some v" "mms_ok v" "conforms t v" by auto
  then show ?case by (auto simp: list_all_iff)
next
  case (11 ts)
  then have "\<exists>vs. map MmsValue_newDefaultValue ts = map Some vs \<and> (\<forall>v \<in> set vs. mms_ok v) \<and>
    conform_all ts (map Some vs)" by (intro conform_all_default) auto
  then obtain vs where "map MmsValue_newDefaultValue ts = map Some vs" "\<forall>v \<in> set vs. mms_ok v"
    "conform_all ts (map Some vs)" by blast
  moreover from this(1) have "MmsValue_newDefaultValue (SpecStructure ts) = Some (ValStructure (map Some vs))"
    by simp
  ultimately show ?case by simp
next
  case (6 n)
  then show ?case using wrap16_id [of "\<bar>n\<bar>"]
    by (simp add: MmsValue_newVisibleStringWithSize_def MmsValue_newStringWithSize_def string_value_def)
next
  case (7 n)
  then show ?case using wrap16_id [of "\<bar>n\<bar>"]
    by (simp add: MmsValue_newMmsStringWithSize_def MmsValue_newStringWithSize_def string_value_def)
next
  case (5 n)
  then have "nat \<bar>n\<bar> < 65536" by simp
  then show ?case by (cases "n < 0") auto
qed (simp_all add: MmsValue_newInteger_def MmsValue_newUnsigned_def BerInteger_createInt32_def
    BerInteger_createInt64_def MmsValue_newBitString_def Let_def MmsValue_newBoolean_def
    MmsValue_newBinaryTime_def)

lemma equal_component_types_nth:
  "equal_component_types xs ys = Some True \<Longrightarrow> length xs = length ys \<Longrightarrow> i < length xs \<Longrightarrow>
   \<exists>a b. xs ! i = Some a \<and> ys ! i = Some b \<and> MmsValue_equalTypes a b = Some True"
proof (induction xs ys arbitrary: i rule: list_induct2')
  case (4 x xs y ys)
  then obtain a b e where ab: "x = Some a" "y = Some b" "MmsValue_equalTypes a b = Some e"
    "e" "equal_component_types xs ys = Some True"
    by (auto split: Option.bind_splits if_splits)
  then show ?case using "4.IH" "4.prems" by (cases i) auto
qed auto

lemma conform_all_nth:
  "conform_all ts cs \<longleftrightarrow> length ts = length cs \<and>
     (\<forall>i < length cs. case cs ! i of Some v \<Rightarrow> conforms (ts ! i) v | None \<Rightarrow> False)"
proof (induction ts cs rule: list_induct2')
  case (4 t ts c cs)
  show ?case by (auto simp: "4.IH" nth_Cons split: nat.splits option.splits)
qed auto

lemma equalTypes_getType: "MmsValue_equalTypes v w = Some True \<Longrightarrow> MmsValue_getType v = MmsValue_getType w"
  by (simp add: MmsValue_equalTypes.simps split: if_splits)

lemma equalTypes_array:
  "MmsValue_equalTypes (ValArray xs) w = Some True \<Longrightarrow>
   \<exists>ys. w = ValArray ys \<and> length xs = length ys \<and> equal_component_types xs ys = Some True"
  by (cases w) (simp_all add: MmsValue_equalTypes.simps split: if_splits)

lemma equalTypes_structure:
  "MmsValue_equalTypes (ValStructure xs) w = Some True \<Longrightarrow>
   \<exists>ys. w = ValStructure ys \<and> length xs = length ys \<and> equal_component_types xs ys = Some True"
  by (cases w) (simp_all add: MmsValue_equalTypes.simps split: if_splits)

lemma conforms_equalTypes:
  "conforms t v \<Longrightarrow> MmsValue_equalTypes v w = Some True \<Longrightarrow> conforms t w"
proof (induction t arbitrary: v w)
  case (SpecArray n t)
  then obtain xs where v: "v = ValArray xs" by (cases v) simp_all
  with SpecArray.prems equalTypes_array [of xs w] obtain ys where xs: "v = ValArray xs" "w = ValArray ys" "length xs = length ys"
    "equal_component_types xs ys = Some True" "length xs = n"
    "\<forall>i < length xs. case xs ! i of Some v \<Rightarrow> conforms t v | None \<Rightarrow> False"
    by (auto simp: list_all_length)
  have "case ys ! i of Some v \<Rightarrow> conforms t v | None \<Rightarrow> False" if "i < length ys" for i
    using equal_component_types_nth [OF xs(4,3), of i] xs(3,6) that SpecArray.IH by fastforce
  then show ?case using xs by (simp add: list_all_length)
next
  case (SpecStructure ts)
  then obtain xs where v: "v = ValStructure xs" by (cases v) simp_all
  with SpecStructure.prems equalTypes_structure [of xs w] obtain ys where xs: "v = ValStructure xs" "w = ValStructure ys" "length xs = length ys"
    "equal_component_types xs ys = Some True" "length ts = length xs"
    "\<forall>i < length xs. case xs ! i of Some v \<Rightarrow> conforms (ts ! i) v | None \<Rightarrow> False"
    by (auto simp: conform_all_nth)
  have "case ys ! i of Some v \<Rightarrow> conforms (ts ! i) v | None \<Rightarrow> False" if i: "i < length ys" for i
  proof -
    obtain a b where ab: "xs ! i = Some a" "ys ! i = Some b" "MmsValue_equalTypes a b = Some True"
      using equal_component_types_nth [OF xs(4,3), of i] xs(3) i by auto
    then have "conforms (ts ! i) a" using xs(3,6) i by fastforce
    with ab SpecStructure.IH [of "ts ! i" a b] xs(3,5) i show ?thesis by simp
  qed
  then show ?case using xs by (simp add: conform_all_nth)
qed (auto dest: equalTypes_getType)

text \<open>
  C8: A variable always holds a value of its declared type: \<open>MmsValue_newDefaultValue\<close> of a
  supported specification whose sizes fit the value's size fields yields a well-formed value
  that conforms to it at every level, and whatever well-formed value is written to it with
  \<open>MmsValue_update\<close>, successfully or not, the result conforms to it again.
\<close>

theorem declared_type_preserved:
  assumes "spec_ok t"
  shows "(\<exists>v. MmsValue_newDefaultValue t = Some v \<and> mms_ok v \<and> conforms t v) \<and>
    (\<forall>v u. mms_ok v \<longrightarrow> conforms t v \<longrightarrow> mms_ok u \<longrightarrow>
      (\<exists>v' ok. MmsValue_update v u = Some (v', ok) \<and> mms_ok v' \<and> conforms t v'))"
proof (intro conjI allI impI)
  show "\<exists>v. MmsValue_newDefaultValue t = Some v \<and> mms_ok v \<and> conforms t v"
    by (rule default_conforms [OF assms])
next
  fix v u
  assume "mms_ok v" "conforms t v" "mms_ok u"
  then show "\<exists>v' ok. MmsValue_update v u = Some (v', ok) \<and> mms_ok v' \<and> conforms t v'"
    using update_total [of v u] conforms_equalTypes [of t v] unfolding update_result_def by blast
qed

theorem declared_type_preserved_witness:
  "\<exists>v. MmsValue_newDefaultValue (SpecStructure [SpecInteger 32, SpecArray 2 SpecUtcTime]) = Some v \<and>
     mms_ok v \<and> conforms (SpecStructure [SpecInteger 32, SpecArray 2 SpecUtcTime]) v"
  by (rule conjunct1 [OF declared_type_preserved]) simp

end
