(* ===== verification/BerDecoder.thy ===== *)
theory BerDecoder
  imports BerInteger
begin

text \<open>
  \<^verbatim>\<open>libmms/src/mms/asn1/ber_decode.c\<close>: BER decoding from a received buffer.

  The length decoder is where untrusted input steers the read position, so positions and
  lengths are C \<open>int\<close>s here: mathematical integers with \<open>wrap32\<close> at every addition and
  shift, and a buffer access outside the received bytes is the outcome \<open>OOB\<close>.
  \<open>BerDecoder_decodeLength\<close> and \<open>getIndefiniteLength\<close> call each other and the latter
  loops, so they carry fuel; \<open>decodeLength_terminates\<close> gives the amount that is always
  enough. The value decoders take positions the length decoder has delivered.
\<close>

section \<open>Length octets\<close>

datatype 'a outcome = Ret 'a | OOB | NoFuel

text \<open>The loop that reads \<open>k\<close> length octets: \<open>Ret (returned position or -1, length)\<close>.\<close>

fun length_octets :: "u8 list \<Rightarrow> nat \<Rightarrow> int \<Rightarrow> int \<Rightarrow> int \<Rightarrow> ((int \<times> int) option) outcome" where
  "length_octets buffer 0 len bufPos maxBufPos = Ret (Some (bufPos, len))"
| "length_octets buffer (Suc k) len bufPos maxBufPos =
     (if bufPos \<ge> maxBufPos then Ret None
      else case rdi buffer bufPos of
        None \<Rightarrow> OOB
      | Some b \<Rightarrow>
          length_octets buffer k (wrap32 (wrap32 (len * 256) + uint b)) (wrap32 (bufPos + 1)) maxBufPos)"

text \<open>The checks after the form is known: \<open>Ret (return value, *length)\<close>.\<close>

definition check_length :: "int \<Rightarrow> int \<Rightarrow> int \<Rightarrow> int \<times> int" where
  "check_length len bufPos maxBufPos =
     (if len < 0 then (- 1, len)
      else if wrap32 (bufPos + len) > maxBufPos then (- 1, len)
      else (bufPos, len))"

fun getIndefiniteLength :: "nat \<Rightarrow> u8 list \<Rightarrow> int \<Rightarrow> int \<Rightarrow> int \<Rightarrow> int outcome"
and BerDecoder_decodeLength :: "nat \<Rightarrow> u8 list \<Rightarrow> int \<Rightarrow> int \<Rightarrow> int \<Rightarrow> (int \<times> int) outcome" where
  "getIndefiniteLength 0 buffer len bufPos maxBufPos = NoFuel"
| "getIndefiniteLength (Suc fuel) buffer len bufPos maxBufPos =
     (if bufPos < maxBufPos then
        case rdi buffer bufPos of
          None \<Rightarrow> OOB
        | Some b \<Rightarrow>
           (case (if b = 0 then map_option (\<lambda>b1. b1 = 0) (rdi buffer (wrap32 (bufPos + 1))) else Some False) of
              None \<Rightarrow> OOB
            | Some True \<Rightarrow> Ret (wrap32 (len + 2))
            | Some False \<Rightarrow>
               (let len = wrap32 (len + 1);
                    bufPos = wrap32 (bufPos + 1);
                    (bufPos, len) = (if b AND 0x1f = 0x1f then (wrap32 (bufPos + 1), wrap32 (len + 1))
                                     else (bufPos, len))
                in case BerDecoder_decodeLength fuel buffer (- 1) bufPos maxBufPos of
                     OOB \<Rightarrow> OOB
                   | NoFuel \<Rightarrow> NoFuel
                   | Ret (newBufPos, subLength) \<Rightarrow>
                       if newBufPos = - 1 then Ret (- 1)
                       else getIndefiniteLength fuel buffer
                              (wrap32 (len + wrap32 (wrap32 (subLength + newBufPos) - bufPos)))
                              (wrap32 (newBufPos + subLength)) maxBufPos))
      else Ret (- 1))"
| "BerDecoder_decodeLength 0 buffer len bufPos maxBufPos = NoFuel"
| "BerDecoder_decodeLength (Suc fuel) buffer len bufPos maxBufPos =
     (if bufPos \<ge> maxBufPos then Ret (- 1, len)
      else case rdi buffer bufPos of
        None \<Rightarrow> OOB
      | Some len1 \<Rightarrow>
         (let bufPos = wrap32 (bufPos + 1) in
          if len1 AND 0x80 \<noteq> 0 then
            (let lenLength = unat (len1 AND 0x7f) in
             if lenLength = 0 then
               (case getIndefiniteLength fuel buffer 0 bufPos maxBufPos of
                  OOB \<Rightarrow> OOB
                | NoFuel \<Rightarrow> NoFuel
                | Ret len \<Rightarrow> Ret (check_length len bufPos maxBufPos))
             else
               (case length_octets buffer lenLength 0 bufPos maxBufPos of
                  OOB \<Rightarrow> OOB
                | NoFuel \<Rightarrow> NoFuel
                | Ret None \<Rightarrow> Ret (- 1, len)
                | Ret (Some (bufPos, len)) \<Rightarrow> Ret (check_length len bufPos maxBufPos)))
          else Ret (check_length (uint len1) bufPos maxBufPos)))"

section \<open>Values\<close>

definition BerDecoder_decodeString :: "u8 list \<Rightarrow> nat \<Rightarrow> nat \<Rightarrow> nat \<Rightarrow> u8 list option" where
  "BerDecoder_decodeString buffer strlen bufPos maxBufPos = do {
     (string, p) \<leftarrow> put_from buffer bufPos strlen (replicate (strlen + 1) 0, 0);
     wr string strlen 0 }"

fun accumulate_add :: "u8 list \<Rightarrow> nat \<Rightarrow> nat \<Rightarrow> u32 \<Rightarrow> u32 option" where
  "accumulate_add buf i 0 val = Some val"
| "accumulate_add buf i (Suc k) val = do {
     b \<leftarrow> rd buf i;
     accumulate_add buf (Suc i) k (push_bit 8 val + ucast b) }"

definition BerDecoder_decodeUint32 :: "u8 list \<Rightarrow> nat \<Rightarrow> nat \<Rightarrow> u32 option" where
  "BerDecoder_decodeUint32 buffer intLen bufPos = accumulate_add buffer bufPos intLen 0"

definition BerDecoder_decodeInt32 :: "u8 list \<Rightarrow> nat \<Rightarrow> nat \<Rightarrow> u32 option" where
  "BerDecoder_decodeInt32 buffer intlen bufPos = do {
     b \<leftarrow> rd buffer bufPos;
     let isNegative = (b AND 0x80 = 0x80);
     accumulate_add buffer bufPos intlen (if isNegative then - 1 else 0) }"

text \<open>
  The bytes of a \<open>float\<close> or \<open>double\<close> object filled from index \<open>n - 1\<close> down; the result is
  the object's bit pattern.
\<close>

fun read_reversed :: "u8 list \<Rightarrow> nat \<Rightarrow> nat \<Rightarrow> u8 list \<Rightarrow> u8 list option" where
  "read_reversed buffer bufPos 0 valueBuf = Some valueBuf"
| "read_reversed buffer bufPos (Suc i) valueBuf = do {
     b \<leftarrow> rd buffer bufPos;
     valueBuf \<leftarrow> wr valueBuf i b;
     read_reversed buffer (bufPos + 1) i valueBuf }"

definition BerDecoder_decodeFloat :: "u8 list \<Rightarrow> nat \<Rightarrow> u32 option" where
  "BerDecoder_decodeFloat buffer bufPos = do {
     valueBuf \<leftarrow> read_reversed buffer (bufPos + 1) 4 (replicate 4 0);
     Some (word_of_int (be_uint (rev valueBuf))) }"

definition BerDecoder_decodeDouble :: "u8 list \<Rightarrow> nat \<Rightarrow> u64 option" where
  "BerDecoder_decodeDouble buffer bufPos = do {
     valueBuf \<leftarrow> read_reversed buffer (bufPos + 1) 8 (replicate 8 0);
     Some (word_of_int (be_uint (rev valueBuf))) }"

definition BerDecoder_decodeBoolean :: "u8 list \<Rightarrow> nat \<Rightarrow> bool option" where
  "BerDecoder_decodeBoolean buffer bufPos = do {
     b \<leftarrow> rd buffer bufPos;
     Some (b \<noteq> 0) }"

section \<open>Where the length decoder ends\<close>

text \<open>
  \<open>in_range p m\<close>: the position may be advanced by one and still is a non-negative \<open>int\<close>.
\<close>

lemma check_length_result:
  assumes "check_length len p m = (r, l)" "r \<noteq> - 1"
  shows "r = p \<and> l = len \<and> 0 \<le> len \<and> wrap32 (p + len) \<le> m"
  using assms by (auto simp: check_length_def split: if_splits)

lemma length_octets_result:
  assumes "length_octets buf k len p m = Ret (Some (r, l))" "0 \<le> p" "m < 2 ^ 31" "p \<le> m"
    "- (2 ^ 31) \<le> len" "len < 2 ^ 31"
  shows "r = p + int k \<and> r \<le> m \<and> l < 2 ^ 31"
  using assms
proof (induction buf k len p m rule: length_octets.induct)
  case (2 buf k len p m)
  then obtain b where b: "p < m" "rdi buf p = Some b"
    by (auto split: if_splits option.splits)
  have w: "wrap32 (p + 1) = p + 1" using "2.prems" b by (intro wrap32_id) auto
  let ?l = "wrap32 (wrap32 (len * 256) + uint b)"
  have "length_octets buf k ?l (p + 1) m = Ret (Some (r, l))"
    using "2.prems" b by (simp add: w)
  with "2.IH" [of b] b "2.prems" wrap32_bounds [of "wrap32 (len * 256) + uint b"]
  show ?case by (simp add: w)
qed auto

lemma length_octets_fuel: "length_octets buf k len p m \<noteq> NoFuel"
  by (induction buf k len p m rule: length_octets.induct) (auto split: option.splits)

lemma getIndefiniteLength_result:
  "getIndefiniteLength fuel buf len p m = Ret n \<Longrightarrow> n < 2 ^ 31"
proof (induction fuel arbitrary: len p)
  case (Suc f)
  then show ?case
    using wrap32_bounds(2)
    by (auto simp: Let_def split: if_splits option.splits bool.splits outcome.splits)
qed simp

text \<open>
  What a successful call guarantees: the position advances within the received bytes, and the
  length it returns keeps the (wrapped) end inside them too.
\<close>

lemma decodeLength_result:
  assumes "BerDecoder_decodeLength fuel buf len p m = Ret (r, l)" "r \<noteq> - 1" "0 \<le> p" "m < 2 ^ 31"
  shows "p < r \<and> r \<le> m \<and> 0 \<le> l \<and> l < 2 ^ 31 \<and> wrap32 (r + l) \<le> m"
proof -
  obtain f where f: "fuel = Suc f" using assms(1) by (cases fuel) auto
  have pm: "p < m" using assms(1,2) f by (auto split: if_splits)
  have w: "wrap32 (p + 1) = p + 1" using assms pm by (intro wrap32_id) auto
  obtain b where b: "rdi buf p = Some b" using assms(1) f pm by (auto split: option.splits)
  show ?thesis
  proof (cases "b AND 0x80 = 0")
    case True
    then have "check_length (uint b) (p + 1) m = (r, l)" using assms(1) f pm b w by simp
    from check_length_result [OF this assms(2)] pm uint_u8_bounds(2) [of b] show ?thesis by auto
  next
    case long: False
    show ?thesis
    proof (cases "unat (b AND 0x7f) = 0")
      case True
      then obtain i where i: "getIndefiniteLength f buf 0 (p + 1) m = Ret i"
        "check_length i (p + 1) m = (r, l)"
        using assms(1) f pm b w long by (auto simp: Let_def split: outcome.splits)
      from check_length_result [OF i(2) assms(2)] getIndefiniteLength_result [OF i(1)] pm
      show ?thesis by auto
    next
      case False
      then obtain r' l' where o': "length_octets buf (unat (b AND 0x7f)) 0 (p + 1) m = Ret (Some (r', l'))"
        "check_length l' r' m = (r, l)"
        using assms(1,2) f pm b w long by (auto simp: Let_def split: outcome.splits option.splits)
      from length_octets_result [OF o'(1)] assms pm
      have r: "r' = p + 1 + int (unat (b AND 0x7f))" "r' \<le> m" "l' < 2 ^ 31" by auto
      then have "p < r'" using of_nat_0_le_iff [of "unat (b AND 0x7f)", where 'a = int] by linarith
      with r check_length_result [OF o'(2) assms(2)] show ?thesis by simp
    qed
  qed
qed

text \<open>A position driven negative by overflow is caught by the next read.\<close>

lemma getIndefiniteLength_negative:
  "p < 0 \<Longrightarrow> getIndefiniteLength (Suc f) buf len p m \<noteq> NoFuel"
  by (simp add: rdi_def)

lemma wrap32_sum:
  assumes "0 \<le> a" "0 \<le> b" "a < 2 ^ 31" "b < 2 ^ 31"
  shows "wrap32 (a + b) = a + b \<or> wrap32 (a + b) < 0"
proof (cases "a + b < 2 ^ 31")
  case True
  then show ?thesis using assms by (simp add: wrap32_id)
next
  case False
  then show ?thesis using assms by (subst (2) wrap32_over) auto
qed

lemma fuel_enough:
  assumes "m < 2 ^ 31 - 1"
  shows "(0 \<le> p \<longrightarrow> nat (m - p) < fuel \<longrightarrow> getIndefiniteLength fuel buf len p m \<noteq> NoFuel) \<and>
    (0 \<le> p \<longrightarrow> nat (m - p) < fuel \<longrightarrow> BerDecoder_decodeLength fuel buf len' p m \<noteq> NoFuel)"
proof (induction fuel arbitrary: p len len')
  case (Suc f)
  have G: "getIndefiniteLength f buf len p m \<noteq> NoFuel" if "0 \<le> p" "nat (m - p) < f" for p len
    using Suc.IH [of p len] that by blast
  have D: "BerDecoder_decodeLength f buf len p m \<noteq> NoFuel" if "0 \<le> p" "nat (m - p) < f" for p len
    using Suc.IH [of p _ len] that by blast
  have "BerDecoder_decodeLength (Suc f) buf len' p m \<noteq> NoFuel" if p: "0 \<le> p" "nat (m - p) < Suc f"
  proof (cases "p < m")
    case True
    have w: "wrap32 (p + 1) = p + 1" using p assms True by (intro wrap32_id) auto
    have "getIndefiniteLength f buf 0 (p + 1) m \<noteq> NoFuel"
      using p True by (intro G) auto
    then show ?thesis
      using length_octets_fuel by (auto simp: Let_def w split: option.splits outcome.splits)
  qed simp
  moreover have "getIndefiniteLength (Suc f) buf len p m \<noteq> NoFuel" if p: "0 \<le> p" "nat (m - p) < Suc f"
  proof (cases "p < m")
    case True
    have w: "wrap32 (p + 1) = p + 1" "wrap32 (p + 2) = p + 2" "wrap32 (2 + p) = p + 2"
      using p assms True wrap32_id [of "2 + p"] by (auto intro!: wrap32_id)
    have f: "0 < f" using p True by simp
    have step: "BerDecoder_decodeLength f buf (- 1) q m \<noteq> NoFuel \<and>
        (\<forall>r l n. BerDecoder_decodeLength f buf (- 1) q m = Ret (r, l) \<longrightarrow> r \<noteq> - 1 \<longrightarrow>
          getIndefiniteLength f buf n (wrap32 (r + l)) m \<noteq> NoFuel)" if q: "p < q" for q
    proof (intro conjI allI impI)
      show "BerDecoder_decodeLength f buf (- 1) q m \<noteq> NoFuel"
        using p True q by (intro D) auto
    next
      fix r l n
      assume "BerDecoder_decodeLength f buf (- 1) q m = Ret (r, l)" "r \<noteq> - 1"
      then have rl: "q < r" "r \<le> m" "0 \<le> l" "l < 2 ^ 31" "wrap32 (r + l) \<le> m"
        using decodeLength_result [of f buf "- 1" q m r l] q p assms by auto
      show "getIndefiniteLength f buf n (wrap32 (r + l)) m \<noteq> NoFuel"
      proof (cases "wrap32 (r + l) < 0")
        case True
        then show ?thesis using f getIndefiniteLength_negative by (cases f) auto
      next
        case False
        then have "wrap32 (r + l) = r + l"
          using wrap32_sum [of r l] rl q p assms False by linarith
        then show ?thesis using rl q p True by (intro G) auto
      qed
    qed
    show ?thesis
      using step [of "p + 1"] step [of "p + 2"] True
      by (auto simp: Let_def w split: option.splits outcome.splits bool.splits prod.splits)
  qed simp
  ultimately show ?case by blast
qed simp

section \<open>Decoding what was encoded\<close>

lemma puts_read:
  assumes "puts bs (buf, p) = Some (buf', p')" "bs \<noteq> []"
  shows "p' = p + length bs" "p' \<le> length buf'" "take (length bs) (drop p buf') = bs"
  using assms by (auto simp: puts_iff length_splice splice_read split: if_splits)

lemma puts_nth:
  assumes "puts bs (buf, p) = Some (buf', p')" "i < length bs"
  shows "buf' ! (p + i) = bs ! i" "p + i < length buf'"
proof -
  have ne: "bs \<noteq> []" using assms(2) by auto
  show "buf' ! (p + i) = bs ! i"
    using puts_read [OF assms(1) ne] assms(2) by (metis le_add1 nth_drop nth_take le_trans)
  show "p + i < length buf'" using puts_read [OF assms(1) ne] assms(2) by simp
qed

lemma length_octets_eq:
  assumes "0 \<le> p" "p + int k \<le> m" "m < 2 ^ 31" "p + int k \<le> int (length buf)" "0 \<le> acc"
    "acc * 256 ^ k + be_uint (take k (drop (nat p) buf)) < 2 ^ 31"
  shows "length_octets buf k acc p m =
    Ret (Some (p + int k, acc * 256 ^ k + be_uint (take k (drop (nat p) buf))))"
  using assms
proof (induction k arbitrary: acc p)
  case 0
  then show ?case by (simp add: byte_simps)
next
  case (Suc k)
  let ?b = "buf ! nat p" and ?rest = "be_uint (take k (drop (nat (p + 1)) buf))"
  have in_buf: "nat p < length buf" using Suc.prems by linarith
  have drop: "drop (nat p) buf = ?b # drop (nat (p + 1)) buf"
    using in_buf Suc.prems(1) by (simp add: Cons_nth_drop_Suc nat_add_distrib)
  have len: "length (take k (drop (nat (p + 1)) buf)) = k" using Suc.prems by simp
  have eq: "acc * 256 ^ Suc k + be_uint (take (Suc k) (drop (nat p) buf))
      = (acc * 256 + uint ?b) * 256 ^ k + ?rest"
    using len by (simp add: drop be_uint_Cons algebra_simps)
  have one: "x \<le> x * 256 ^ k" if "0 \<le> x" for x :: int
    using mult_left_mono [OF _ that, of 1 "256 ^ k"] by simp
  have small: "acc * 256 + uint ?b < 2 ^ 31"
    using Suc.prems(6) eq one [of "acc * 256 + uint ?b"] Suc.prems(5) uint_u8_bounds(1) [of ?b]
      be_uint_nonneg [of "take k (drop (nat (p + 1)) buf)"] by linarith
  have "0 \<le> acc * 256" "acc * 256 < 2 ^ 31" "- (2 ^ 31) \<le> acc * 256 + uint ?b"
    using small Suc.prems(5) uint_u8_bounds(1) [of ?b] by linarith+
  then have w: "wrap32 (wrap32 (acc * 256) + uint ?b) = acc * 256 + uint ?b" "wrap32 (p + 1) = p + 1"
    using small Suc.prems by (simp_all add: wrap32_id)
  have "length_octets buf k (acc * 256 + uint ?b) (p + 1) m =
      Ret (Some (p + 1 + int k, (acc * 256 + uint ?b) * 256 ^ k + ?rest))"
    using Suc.prems eq uint_u8_bounds(1) [of ?b] by (intro Suc.IH) auto
  then show ?case
    using Suc.prems(1-4) in_buf unfolding eq by (simp add: rdi_Some w)
qed

lemma ber_length_bytes_le:
  "ber_length_bytes len =
     (if len < 128 then rev (le_bytes 1 len)
      else if len < 256 then 0x81 # rev (le_bytes 1 len)
      else if len < 65535 then 0x82 # rev (le_bytes 2 len)
      else 0x83 # rev (le_bytes 3 len))"
proof -
  have "x div 256 = drop_bit 8 x" "x div 65536 = drop_bit 16 x" for x :: u32
    by (simp_all add: drop_bit_eq_div)
  then show ?thesis by (simp add: ber_length_bytes_def le_bytes_def upt_conv_Cons)
qed

text \<open>The long form with \<open>k\<close> octets.\<close>

lemma decodeLength_long:
  assumes "puts (h # rev (le_bytes k w)) (buf, p) = Some (buf', p')" "h AND 0x80 \<noteq> 0"
    "unat (h AND 0x7f) = k" "0 < k" "k \<le> 3" "uint (w :: u32) < 256 ^ k"
    "int p' + uint w \<le> m" "m < 2 ^ 31" "0 < fuel"
  shows "BerDecoder_decodeLength fuel buf' l0 (int p) m = Ret (int p', uint w)"
proof -
  have p': "p' = p + 1 + k" "p' \<le> length buf'"
    "take (Suc k) (drop p buf') = h # rev (le_bytes k w)"
    using puts_read [OF assms(1)] by (simp_all add: length_le_bytes)
  have h: "rdi buf' (int p) = Some h" using puts_nth [OF assms(1), of 0] by (simp add: rdi_Some)
  have rest: "take k (drop (nat (int p + 1)) buf') = rev (le_bytes k w)"
    using arg_cong [OF p'(3), of "drop 1"] by (simp add: nat_add_distrib take_drop drop_Suc [symmetric] del: drop_Suc)
  have val: "be_uint (rev (le_bytes k w)) = uint w"
    using assms(6) by (simp add: be_uint_le_bytes)
  have "int p + 1 + int k \<le> m" using assms(7) p'(1) uint_ge_0 [of w] by linarith
  moreover obtain f where f: "fuel = Suc f" using assms(9) by (cases fuel) auto
  ultimately have "length_octets buf' k 0 (int p + 1) m = Ret (Some (int p + 1 + int k, uint w))"
    using length_octets_eq [of "int p + 1" k m buf' 0] rest val p' assms by simp
  moreover have "wrap32 (int p + 1) = int p + 1" "int p < m"
    "wrap32 (int p + 1 + int k + uint w) = int p + 1 + int k + uint w"
  proof -
    have "int p' = int p + 1 + int k" using p'(1) by simp
    then have "int p + 1 + int k + uint w < 2 ^ 31" "int p < m" "m < 2 ^ 31"
      using assms(7,8) uint_ge_0 [of w] by linarith+
    then show "wrap32 (int p + 1) = int p + 1" "int p < m"
      "wrap32 (int p + 1 + int k + uint w) = int p + 1 + int k + uint w"
      using uint_ge_0 [of w] by (auto intro!: wrap32_id)
  qed
  moreover have "h AND 0x7f \<noteq> 0" using assms(3,4) by auto
  ultimately show ?thesis
    using p'(1) assms(2,3,4,7) f h by (simp add: check_length_def Let_def)
qed

lemma decodeLength_encoded:
  assumes "BerEncoder_encodeLength len (buf, p) = Some (buf', p')" "uint len < 2 ^ 24"
    "int p' + uint len \<le> m" "m < 2 ^ 31" "0 < fuel"
  shows "BerDecoder_decodeLength fuel buf' l0 (int p) m = Ret (int p', uint len)"
proof (cases "len < 128")
  case True
  then have u: "uint len < 128" by (simp add: word_less_def)
  from True assms(1) have w: "puts [ucast len] (buf, p) = Some (buf', p')"
    by (simp only: encodeLength_puts ber_length_bytes_def if_True)
  obtain f where f: "fuel = Suc f" using assms(5) by (cases fuel) auto
  have b: "uint (ucast len :: u8) = uint len"
    unfolding unsigned_ucast_eq using u uint_ge_0 [of len] by (simp add: take_bit_int_eq_self)
  have p': "p' = p + 1" using puts_read(1) [OF w] by simp
  have "rdi buf' (int p) = Some (ucast len)" using puts_nth [OF w, of 0] by (simp add: rdi_Some)
  moreover have "(ucast len :: u8) AND 0x80 = 0" using b u u8_and_0x80 [of "ucast len"] by simp
  moreover have "int p + 1 + uint len \<le> m" using assms(3) p' by simp
  moreover have "wrap32 (int p + 1 + uint len) = int p + 1 + uint len" "wrap32 (int p + 1) = int p + 1"
    using assms(4) calculation(3) uint_ge_0 [of len] by (intro wrap32_id; linarith)+
  moreover have "int p < m" using calculation(3) uint_ge_0 [of len] by linarith
  ultimately show ?thesis
    using f p' b by (simp add: check_length_def Let_def)
next
  case False
  note w = assms(1) [unfolded encodeLength_puts ber_length_bytes_le]
  consider "len < 256" | "\<not> len < 256" "len < 65535" | "\<not> len < 65535"
    by blast
  then show ?thesis
  proof cases
    case 1
    then have "uint len < 256 ^ 1" by (simp add: word_less_def)
    with 1 w False assms show ?thesis
      by (intro decodeLength_long [of "0x81" 1]) simp_all
  next
    case 2
    then have "uint len < 256 ^ 2" "\<not> len < 256" by (simp_all add: word_less_def)
    with 2 w False assms show ?thesis
      by (intro decodeLength_long [of "0x82" 2]) simp_all
  next
    case 3
    then have "\<not> len < 256" by (simp add: word_less_def)
    with 3 w False assms show ?thesis
      by (intro decodeLength_long [of "0x83" 3]) simp_all
  qed
qed

text \<open>
  C38: Length octets round trip: after \<open>BerEncoder_encodeLength\<close> has written a length below
  2^24, \<open>BerDecoder_decodeLength\<close> at that position returns the position after the octets and the
  length itself, provided the contents fit below \<open>maxBufPos\<close>.
\<close>

theorem decodeLength_encodeLength:
  assumes "BerEncoder_encodeLength len (buf, p) = Some (buf', p')" "uint len < 2 ^ 24"
    "int p' + uint len \<le> m" "m < 2 ^ 31" "0 < fuel"
  shows "BerDecoder_decodeLength fuel buf' l0 (int p) m = Ret (int p', uint len)"
  using assms by (rule decodeLength_encoded)

theorem decodeLength_encodeLength_witness:
  "BerDecoder_decodeLength 1 (0x81 # 200 # replicate 200 7) (- 1) (int 0) 202 = Ret (int 2, uint (200 :: u32))"
proof -
  have "ber_length_bytes 200 = [0x81, 200]" by (simp add: ber_length_bytes_def)
  then have "BerEncoder_encodeLength 200 (0 # 0 # replicate 200 7, 0) = Some (0x81 # 200 # replicate 200 7, 2)"
    by (simp add: encodeLength_puts put_def)
  then show ?thesis by (rule decodeLength_encodeLength) simp_all
qed

section \<open>Value round trips\<close>

lemma accumulate_add_or: "accumulate_add buf i k v = accumulate_or buf i k v"
proof (induction buf i k v rule: accumulate_add.induct)
  case (2 buf i k v)
  have "push_bit 8 v AND ucast b = 0" for b :: u8
    by (rule bit_word_eqI) (auto simp: bit_simps dest: bit_imp_le_length)
  then have "push_bit 8 v + ucast b = push_bit 8 v OR ucast b" for b :: u8
    using word_plus_and_or [of "push_bit 8 v" "ucast b"] by simp
  with 2 show ?case by (auto simp: rd_def)
qed simp

lemma accumulate_or_drop:
  "i \<le> length buf \<Longrightarrow> accumulate_or buf i k v = accumulate_or (drop i buf) 0 k v"
proof -
  have "accumulate_or buf (i + j) k v = accumulate_or (drop i buf) j k v" if "i \<le> length buf" for j
    using that
  proof (induction k arbitrary: j v)
    case (Suc k)
    have "rd buf (i + j) = rd (drop i buf) j" using Suc.prems by (auto simp: rd_def)
    then show ?case using Suc.IH [of "Suc j"] Suc.prems by simp
  qed simp
  from this [of 0] show "i \<le> length buf \<Longrightarrow> ?thesis" by simp
qed

lemma u8_msb_test: "(b :: u8) AND 0x80 = 0x80 \<longleftrightarrow> b AND 0x80 \<noteq> 0"
proof -
  have "b AND 2 ^ 7 = (if bit b 7 then 2 ^ 7 else 0)"
    by (rule bit_word_eqI, cases "bit b 7")
      (simp_all only: bit_and_iff bit_exp_iff if_True if_False bit_0_eq bot_apply, auto)
  then show ?thesis by simp
qed

text \<open>\<open>BerDecoder_decodeInt32\<close> reads the two's complement value of the content octets.\<close>

lemma decodeInt32_value:
  assumes "0 < k" "i + k \<le> length buf"
  shows "BerDecoder_decodeInt32 buf k i = Some (word_of_int (be_sint (take k (drop i buf))))"
proof -
  have "accumulate_or buf i k (if drop i buf ! 0 AND 0x80 \<noteq> 0 then - 1 else 0) =
      Some (word_of_int (be_sint (take k (drop i buf))) :: u32)"
    unfolding accumulate_or_drop [of i buf, OF order.trans [OF le_add1 assms(2)]]
    using assms by (intro accumulate_signed) simp_all
  then show ?thesis using assms
    unfolding BerDecoder_decodeInt32_def accumulate_add_or u8_msb_test
    by (simp only: rd_Some Let_def bind.simps nth_drop) (simp add: rd_def)
qed

lemma decodeUint32_value:
  assumes "i + k \<le> length buf"
  shows "BerDecoder_decodeUint32 buf k i = Some (word_of_int (be_uint (take k (drop i buf))))"
  using accumulate_or_eq [of i k buf "0 :: u32"] assms
  by (simp add: BerDecoder_decodeUint32_def accumulate_add_or)


lemma strip_4_bounds:
  assumes "cs \<noteq> []"
  shows "1 \<le> length (strip cs)" "length (strip cs) \<le> length cs"
  using assms strip_length_le [of cs] by (simp_all add: Suc_le_eq)

text \<open>
  32-bit integers round trip through their content octets: whatever
  \<open>BerEncoder_encodeInt32\<close> wrote at a position, \<open>BerDecoder_decodeInt32\<close> reads back from
  that position as the same value; the encoder used between one and four octets, and no
  octet string that denotes the value is shorter.
\<close>

theorem int32_roundtrip:
  assumes "BerEncoder_encodeInt32 v (buf, p) = Some (buf', p')"
  shows "BerDecoder_decodeInt32 buf' (p' - p) p = Some v \<and> p < p' \<and> p' \<le> p + 4 \<and>
    be_sint (take (p' - p) (drop p buf')) = sint v \<and>
    (\<forall>cs. cs \<noteq> [] \<longrightarrow> be_sint cs = sint v \<longrightarrow> p' - p \<le> length cs)"
proof -
  let ?cs = "rev (le_bytes 4 v)"
  have ne: "?cs \<noteq> []" by (simp add: le_bytes_4_ne)
  have w: "puts (strip ?cs) (buf, p) = Some (buf', p')"
    using assms by (simp only: encodeInt32_puts)
  have sne: "strip ?cs \<noteq> []" using ne by simp
  have r: "p' = p + length (strip ?cs)" "p' \<le> length buf'"
    "take (length (strip ?cs)) (drop p buf') = strip ?cs"
    using puts_read [OF w sne] by auto
  have len: "1 \<le> length (strip ?cs)" "length (strip ?cs) \<le> 4"
    using strip_4_bounds [OF ne] by (simp_all add: length_le_bytes)
  have sv: "be_sint ?cs = sint v" by (rule be_sint_le_bytes) simp
  have "BerDecoder_decodeInt32 buf' (p' - p) p = Some v"
    using decodeInt32_value [of "p' - p" p buf'] r len by (simp add: be_sint_strip sv le_bytes_4_ne)
  moreover have "length (strip ?cs) \<le> length cs" if "cs \<noteq> []" "be_sint cs = sint v" for cs
    using strip_minimal [OF ne that(1)] that(2) sv by simp
  ultimately show ?thesis using r len by (auto simp: be_sint_strip sv)
qed

theorem int32_roundtrip_witness:
  "\<exists>buf' p'. BerEncoder_encodeInt32 (- 129) ([0, 0, 0, 0, 0], 1) = Some (buf', p') \<and>
    BerDecoder_decodeInt32 buf' (p' - 1) 1 = Some (- 129)"
proof -
  let ?cs = "strip (rev (le_bytes 4 (- 129 :: u32)))"
  have "length ?cs \<le> 4" using strip_4_bounds(2) [of "rev (le_bytes 4 (- 129 :: u32))"]
    by (simp add: le_bytes_4_ne length_le_bytes)
  then have "BerEncoder_encodeInt32 (- 129) ([0, 0, 0, 0, 0], 1) =
      Some (splice [0, 0, 0, 0, 0] 1 ?cs, 1 + length ?cs)"
    unfolding encodeInt32_puts by (intro puts_eq) simp
  then show ?thesis using int32_roundtrip [of "- 129"] by blast
qed

text \<open>
  The same for unsigned values, with the size function that the callers use to lay out
  their buffers: \<open>BerEncoder_UInt32determineEncodedSize\<close> is exactly the number of octets
  \<open>BerEncoder_encodeUInt32\<close> writes, between one and five, and
  \<open>BerDecoder_decodeUint32\<close> reads the value back.
\<close>

theorem uint32_roundtrip:
  assumes "BerEncoder_encodeUInt32 v (buf, p) = Some (buf', p')"
  shows "BerDecoder_decodeUint32 buf' (p' - p) p = Some v \<and> p < p' \<and> p' \<le> p + 5 \<and>
    BerEncoder_UInt32determineEncodedSize v = Some (p' - p)"
proof -
  let ?cs = "0 # rev (le_bytes 4 v)"
  have w: "puts (strip ?cs) (buf, p) = Some (buf', p')"
    using assms by (simp only: encodeUInt32_puts)
  have sne: "strip ?cs \<noteq> []" by simp
  have r: "p' = p + length (strip ?cs)" "p' \<le> length buf'"
    "take (length (strip ?cs)) (drop p buf') = strip ?cs"
    using puts_read [OF w sne] by auto
  have len: "1 \<le> length (strip ?cs)" "length (strip ?cs) \<le> 5"
    using strip_4_bounds [of ?cs] by (simp_all add: length_le_bytes)
  have "uint v mod 256 ^ 4 = uint v" using uint_lt2p [of v] by simp
  then have "be_sint (strip ?cs) = uint v"
    by (simp add: be_sint_strip be_sint_Cons be_uint_le_bytes)
  then have "be_uint (strip ?cs) = uint v"
    using be_sint_nonneg [of "strip ?cs"] by simp
  then have "BerDecoder_decodeUint32 buf' (p' - p) p = Some v"
    using decodeUint32_value [of p "p' - p" buf'] r by simp
  then show ?thesis using r len by (simp add: UInt32determineEncodedSize_eq)
qed

theorem uint32_roundtrip_witness:
  "\<exists>buf' p'. BerEncoder_encodeUInt32 0xffffffff (replicate 8 0, 2) = Some (buf', p') \<and>
    BerDecoder_decodeUint32 buf' (p' - 2) 2 = Some 0xffffffff"
proof -
  let ?cs = "strip (0 # rev (le_bytes 4 (0xffffffff :: u32)))"
  have "length ?cs \<le> 5" using strip_4_bounds(2) [of "0 # rev (le_bytes 4 (0xffffffff :: u32))"]
    by (simp add: length_le_bytes)
  then have "BerEncoder_encodeUInt32 0xffffffff (replicate 8 0, 2) =
      Some (splice (replicate 8 0) 2 ?cs, 2 + length ?cs)"
    unfolding encodeUInt32_puts by (intro puts_eq) simp
  then show ?thesis using uint32_roundtrip [of "0xffffffff"] by blast
qed

text \<open>
  What the size functions report against what is written. For every \<open>int32\<close> the size is
  right when the value is not negative; for a negative one \<open>BerEncoder_Int32determineEncodedSize\<close>
  answers 5, although \<open>BerEncoder_encodeInt32\<close> never writes more than 4 octets. The length
  octets have the size \<open>BerEncoder_determineLengthSize\<close> reports except for the length 65535,
  for which it answers 3 while 4 are written.
\<close>

theorem size_functions:
  "(BerEncoder_Int32determineEncodedSize v =
     Some (if 0 \<le> sint v then length (strip (rev (le_bytes 4 v))) else 5)) \<and>
   (length (ber_length_bytes len) =
     (if len = 65535 then 1 + BerEncoder_determineLengthSize len else BerEncoder_determineLengthSize len))"
proof
  let ?cs = "rev (le_bytes 4 v)"
  obtain b cs where cs: "?cs = b # cs" using le_bytes_4_ne [of v] by (cases ?cs) auto
  have sv: "be_sint ?cs = sint v" by (rule be_sint_le_bytes) simp
  have len: "length cs = 3" using arg_cong [OF cs, of length] by (simp add: length_le_bytes)
  have "128 \<le> uint b \<longleftrightarrow> sint v < 0"
  proof -
    define h where "h = (if 128 \<le> uint b then uint b - 256 else uint b)"
    have "sint v = h * 16777216 + be_uint cs"
      using sv cs len by (simp add: be_sint_Cons h_def)
    moreover have "be_uint cs < 16777216" using be_uint_less [of cs] len by simp
    moreover have "128 \<le> uint b \<and> h < 0 \<or> uint b < 128 \<and> 0 \<le> h"
    proof -
      have "128 \<le> uint b \<and> h = uint b - 256 \<or> uint b < 128 \<and> h = uint b"
        by (auto simp: h_def)
      then show ?thesis using uint_u8_bounds [of b] by linarith
    qed
    ultimately show ?thesis using be_uint_nonneg [of cs] by linarith
  qed
  then show "BerEncoder_Int32determineEncodedSize v =
     Some (if 0 \<le> sint v then length (strip ?cs) else 5)"
    using len by (auto simp: Int32determineEncodedSize_eq cs redundant_uint)
  show "length (ber_length_bytes len) =
     (if len = 65535 then 1 + BerEncoder_determineLengthSize len else BerEncoder_determineLengthSize len)"
    using length_ber_length_bytes [of len]
    by (simp add: ber_length_bytes_def BerEncoder_determineLengthSize_def)
qed


lemma read_reversed_eq:
  "p + k \<le> length buf \<Longrightarrow> length xs = k \<Longrightarrow>
   read_reversed buf p k (xs @ post) = Some (rev (take k (drop p buf)) @ post)"
proof (induction k arbitrary: p xs post)
  case (Suc k)
  obtain ys y where xs: "xs = ys @ [y]" "length ys = k"
    using Suc.prems(2) by (cases xs rule: rev_cases) auto
  have "read_reversed buf (Suc p) k (ys @ buf ! p # post) =
      Some (rev (take k (drop (Suc p) buf)) @ buf ! p # post)"
    using Suc.prems xs by (intro Suc.IH) simp_all
  then show ?case using Suc.prems xs
    by (simp add: rd_def wr_def list_update_append Cons_nth_drop_Suc [symmetric])
qed simp

lemma encodeFloat_puts:
  "BerEncoder_encodeFloat (le_bytes 4 pattern) 32 ew c = puts (ew # rev (le_bytes 4 pattern)) c"
proof -
  have "put_from (le_bytes 4 pattern) 0 4 (ew # replicate 8 0, 1) =
      Some (ew # le_bytes 4 pattern @ replicate 4 0, 5)"
    by (subst put_from_puts) (simp_all add: puts_eq length_le_bytes splice_def del: puts.simps)
  moreover have "put_from (ew # rev (le_bytes 4 pattern) @ replicate 4 0) 0 5 c =
      puts (ew # rev (le_bytes 4 pattern)) c"
    by (subst put_from_puts) (simp_all add: length_le_bytes del: puts.simps)
  ultimately show ?thesis
    by (simp add: BerEncoder_encodeFloat_def BerEncoder_revertByteOrder_rev length_le_bytes Let_def
        del: put_from.simps puts.simps)
qed

text \<open>
  IEEE floats round trip bit for bit: the octets \<open>BerEncoder_encodeFloat\<close> writes for a
  single-precision object (format width 32, any exponent width) are read back by
  \<open>BerDecoder_decodeFloat\<close> as the same bit pattern.
\<close>

theorem float_roundtrip:
  assumes "BerEncoder_encodeFloat (le_bytes 4 pattern) 32 ew (buf, p) = Some (buf', p')"
  shows "BerDecoder_decodeFloat buf' p = Some pattern \<and> p' = p + 5"
proof -
  note w = assms [unfolded encodeFloat_puts]
  have r: "p' = p + 5" "p' \<le> length buf'" "take 5 (drop p buf') = ew # rev (le_bytes 4 pattern)"
    using puts_read [OF w] by (simp_all add: length_le_bytes)
  have "take 4 (drop (Suc p) buf') = rev (le_bytes 4 pattern)"
    using arg_cong [OF r(3), of tl] by (simp add: tl_take tl_drop drop_Suc)
  then have "read_reversed buf' (p + 1) 4 (replicate 4 0) = Some (le_bytes 4 pattern)"
    using read_reversed_eq [of "p + 1" 4 buf' "replicate 4 0" "[]"] r by (simp del: read_reversed.simps)
  moreover have "uint pattern mod 256 ^ 4 = uint pattern" using uint_lt2p [of "pattern"] by simp
  ultimately show ?thesis
    using r by (simp add: BerDecoder_decodeFloat_def be_uint_le_bytes)
qed

theorem float_roundtrip_witness:
  "\<exists>buf' p'. BerEncoder_encodeFloat (le_bytes 4 (0x40490fdb :: u32)) 32 8 (replicate 6 0, 1) = Some (buf', p') \<and>
    BerDecoder_decodeFloat buf' 1 = Some 0x40490fdb"
proof -
  have "BerEncoder_encodeFloat (le_bytes 4 (0x40490fdb :: u32)) 32 8 (replicate 6 0, 1) =
      Some (splice (replicate 6 0) 1 (8 # rev (le_bytes 4 (0x40490fdb :: u32))), 6)"
    unfolding encodeFloat_puts by (simp add: puts_iff length_le_bytes del: puts.simps)
  then show ?thesis using float_roundtrip [of "0x40490fdb"] by blast
qed

section \<open>Termination and safety of the length decoder\<close>

text \<open>
  C40: The mutually recursive length decoder returns on every input: with fuel one more than
  the number of bytes between the position and \<open>maxBufPos\<close> it never runs out, however deeply
  indefinite lengths are nested and even when a length makes the position overflow.
\<close>

theorem decodeLength_terminates:
  assumes "0 \<le> p" "m < 2 ^ 31 - 1" "nat (m - p) < fuel"
  shows "BerDecoder_decodeLength fuel buf l0 p m \<noteq> NoFuel"
  using fuel_enough [OF assms(2), of p fuel buf _ l0] assms by blast

theorem decodeLength_terminates_witness:
  "BerDecoder_decodeLength 11 (replicate 10 0x80) (- 1) 0 10 \<noteq> NoFuel"
  by (rule decodeLength_terminates) simp_all

text \<open>
  What the callers may rely on when \<open>BerDecoder_decodeLength\<close> accepts: the new position
  lies behind the old one and not behind \<open>maxBufPos\<close>, the length is a non-negative \<open>int\<close>, and
  the contents end at or before \<open>maxBufPos\<close> unless the sum of position and length overflows
  \<open>int\<close>. The second part shows the overflow is reachable: the five octets
  84 7f ff ff ff are accepted as the length 2147483647 of a five-byte message.
\<close>

theorem decodeLength_bounds:
  "(\<forall>fuel buf l0 p m r l. BerDecoder_decodeLength fuel buf l0 p m = Ret (r, l) \<longrightarrow> r \<noteq> - 1 \<longrightarrow>
     0 \<le> p \<longrightarrow> m < 2 ^ 31 \<longrightarrow>
     p < r \<and> r \<le> m \<and> 0 \<le> l \<and> l < 2 ^ 31 \<and> (r + l \<le> m \<or> 2 ^ 31 \<le> r + l)) \<and>
   BerDecoder_decodeLength 6 [0x84, 0x7f, 0xff, 0xff, 0xff] (- 1) 0 5 = Ret (5, 2147483647)"
proof (intro conjI allI impI)
  fix fuel buf l0 p m r l
  assume "BerDecoder_decodeLength fuel buf l0 p m = Ret (r, l)" "r \<noteq> - 1" "0 \<le> p" "m < 2 ^ 31"
  from decodeLength_result [OF this] have
    *: "p < r" "r \<le> m" "0 \<le> l" "l < 2 ^ 31" "wrap32 (r + l) \<le> m" by auto
  then show "p < r" "r \<le> m" "0 \<le> l" "l < 2 ^ 31" by auto
  show "r + l \<le> m \<or> 2 ^ 31 \<le> r + l"
  proof (cases "r + l < 2 ^ 31")
    case True
    then have "wrap32 (r + l) = r + l" using * \<open>0 \<le> p\<close> by (intro wrap32_id) auto
    with * show ?thesis by simp
  qed simp
next
  show "BerDecoder_decodeLength 6 [0x84, 0x7f, 0xff, 0xff, 0xff] (- 1) 0 5 = Ret (5, 2147483647)"
    by code_simp
qed

theorem decodeLength_bounds_witness:
  "BerDecoder_decodeLength 2 [2, 7, 7] (- 1) 0 3 = Ret (1, 2) \<and>
   (0 :: int) < 1 \<and> (1 :: int) \<le> 3 \<and> ((1 :: int) + 2 \<le> 3 \<or> 2 ^ 31 \<le> (1 :: int) + 2)"
proof -
  have "BerDecoder_decodeLength 2 [2, 7, 7] (- 1) 0 3 = Ret (1, 2)" by code_simp
  with decodeLength_bounds show ?thesis by simp
qed

text \<open>
  \<open>getIndefiniteLength\<close> checks a position against \<open>maxBufPos\<close> and then tests two bytes,
  so on a message that ends in a single zero octet it reads one byte past the received data;
  with one byte of slack behind \<open>maxBufPos\<close> the same message is rejected.
\<close>

theorem indefinite_reads_past_end:
  "BerDecoder_decodeLength 3 [0x80, 0] (- 1) 0 2 = OOB \<and>
   BerDecoder_decodeLength 3 [0x80, 0, 1] (- 1) 0 2 = Ret (- 1, - 1) \<and>
   BerDecoder_decodeLength 3 [0x80, 0, 0] (- 1) 0 2 = Ret (- 1, 2)"
  by (intro conjI; code_simp)

end
