(* ===== verification/BerOid.thy ===== *)
theory BerOid
  imports BerDecoder
begin

text \<open>
  Object identifiers: \<^verbatim>\<open>iso_common/iso_connection_parameters.c\<close> (the \<open>ItuObjectIdentifier\<close> of an
  application title, from and to dotted strings), \<open>BerEncoder_encodeOIDToBuffer\<close> and
  \<open>BerEncoder_encodeItuObjectIdentifierToBuffer\<close> (\<^verbatim>\<open>ber_encoder.c\<close>) and \<open>BerDecoder_decodeOID\<close>
  (\<^verbatim>\<open>ber_decode.c\<close>).

  An identifier is the array of ten \<open>uint16_t\<close> arcs with its count. Strings are byte lists;
  \<open>atoi\<close> and \<open>strchr\<close> are the C library's, \<open>atoi\<close> for values in the range of \<open>int\<close>.
\<close>

section \<open>The C library on strings\<close>

definition is_digit :: "u8 \<Rightarrow> bool" where
  "is_digit c \<longleftrightarrow> 48 \<le> uint c \<and> uint c \<le> 57"

fun digits_value :: "int \<Rightarrow> cstr \<Rightarrow> int" where
  "digits_value acc [] = acc"
| "digits_value acc (c # cs) = (if is_digit c then digits_value (acc * 10 + (uint c - 48)) cs else acc)"

definition is_space :: "u8 \<Rightarrow> bool" where
  "is_space c \<longleftrightarrow> uint c = 32 \<or> 9 \<le> uint c \<and> uint c \<le> 13"

definition atoi :: "cstr \<Rightarrow> int" where
  "atoi s = (case dropWhile is_space s of
     [] \<Rightarrow> 0
   | c # cs \<Rightarrow> if uint c = 45 then - digits_value 0 cs
               else if uint c = 43 then digits_value 0 cs
               else digits_value 0 (c # cs))"

text \<open>\<open>strchr(s, c) + 1\<close>: what follows the first occurrence, \<open>None\<close> for a null pointer.\<close>

definition after_char :: "u8 \<Rightarrow> cstr \<Rightarrow> cstr option" where
  "after_char c s = (case dropWhile (\<lambda>b. b \<noteq> c) s of [] \<Rightarrow> None | _ # rest \<Rightarrow> Some rest)"

lemma after_char_shorter [termination_simp]: "after_char c s = Some r \<Longrightarrow> length r < length s"
  using length_dropWhile_le [of "\<lambda>b. b \<noteq> c" s]
  by (auto simp: after_char_def split: list.splits)

text \<open>\<open>sprintf(\<dots>, "%hu", n)\<close>.\<close>

fun decimal :: "nat \<Rightarrow> cstr" where
  "decimal n = (if n < 10 then [of_nat (48 + n)] else decimal (n div 10) @ [of_nat (48 + n mod 10)])"

declare decimal.simps [simp del]

section \<open>Object identifiers\<close>

record ItuObjectIdentifier =
  oid_arc :: "u16 list" \<comment> \<open>\<open>uint16_t arc[10]\<close>\<close>
  oid_arcCount :: nat

definition empty_oid :: ItuObjectIdentifier where
  "empty_oid = \<lparr>oid_arc = replicate 10 0, oid_arcCount = 0\<rparr>"

text \<open>
  The loop of \<open>convertApTitleString\<close>: \<open>separator\<close> is the rest after the separator found last.
  An arc written beyond the array is outside the object.
\<close>

function convert_loop :: "u8 \<Rightarrow> cstr option \<Rightarrow> u16 list \<Rightarrow> nat \<Rightarrow> (u16 list \<times> nat) option" where
  "convert_loop c None arc arcCount = Some (arc, arcCount)"
| "convert_loop c (Some rest) arc arcCount = do {
     arc \<leftarrow> wr arc arcCount (word_of_int (atoi rest));
     convert_loop c (after_char c rest) arc (arcCount + 1) }"
  by pat_completeness auto
termination
  by (relation "measure (\<lambda>(c, s, arc, n). case s of None \<Rightarrow> 0 | Some r \<Rightarrow> Suc (length r))")
    (auto split: option.splits dest: after_char_shorter)

definition convertApTitleString :: "cstr \<Rightarrow> ItuObjectIdentifier \<Rightarrow> ItuObjectIdentifier option" where
  "convertApTitleString apTitle oid = do {
     let seperatorChar = (if after_char 44 apTitle \<noteq> None then 44 else 46);
     arc \<leftarrow> wr (oid_arc oid) 0 (word_of_int (atoi apTitle));
     (arc, arcCount) \<leftarrow> convert_loop seperatorChar (after_char seperatorChar apTitle) arc 1;
     Some (oid\<lparr>oid_arc := arc, oid_arcCount := arcCount\<rparr>) }"

definition ItuObjectIdentifier_setFromString ::
    "ItuObjectIdentifier \<Rightarrow> cstr \<Rightarrow> ItuObjectIdentifier option" where
  "ItuObjectIdentifier_setFromString self str = convertApTitleString str self"

text \<open>The characters in \<open>strbuf\<close>, 100 bytes with the terminating zero.\<close>

definition ItuObjectIdentifier_toString :: "ItuObjectIdentifier \<Rightarrow> cstr option" where
  "ItuObjectIdentifier_toString self = do {
     s \<leftarrow> for_each [0..<oid_arcCount self] (\<lambda>i s. do {
       a \<leftarrow> rd (oid_arc self) i;
       let s = s @ decimal (unat a);
       Some (if i + 1 \<noteq> oid_arcCount self then s @ [46] else s) }) [];
     if length s < 100 then Some s else None }"

section \<open>Encoding\<close>

text \<open>\<open>while (val2 > 0) { requiredBytes++; val2 >>= 7; }\<close>.\<close>

fun requiredBytes :: "nat \<Rightarrow> nat" where
  "requiredBytes val2 = (if val2 > 0 then 1 + requiredBytes (val2 div 128) else 0)"

declare requiredBytes.simps [simp del]

text \<open>
  The loop that stores the seven-bit groups, most significant first. \<open>Inl ()\<close> is the early
  \<open>return 0\<close> when the buffer is full.
\<close>

fun store_groups :: "nat \<Rightarrow> nat \<Rightarrow> u8 list \<Rightarrow> nat \<Rightarrow> nat \<Rightarrow> (u8 list + u8 list \<times> nat) option" where
  "store_groups val 0 buffer encodedBytes maxBufLen = Some (Inr (buffer, encodedBytes))"
| "store_groups val (Suc k) buffer encodedBytes maxBufLen =
     (let val2 = val div 2 ^ (7 * k) mod 128;
          val2 = (if k > 0 then val2 + 128 else val2) in
      if encodedBytes = maxBufLen then Some (Inl buffer)
      else do {
        buffer \<leftarrow> wr buffer encodedBytes (of_nat val2);
        store_groups val k buffer (encodedBytes + 1) maxBufLen })"

text \<open>The arcs from \<open>arcPos\<close> on; a zero arc is stored without comparing with \<open>maxBufLen\<close>.\<close>

fun encode_arcs :: "nat list \<Rightarrow> u8 list \<Rightarrow> nat \<Rightarrow> nat \<Rightarrow> (u8 list \<times> nat) option" where
  "encode_arcs [] buffer encodedBytes maxBufLen = Some (buffer, encodedBytes)"
| "encode_arcs (val # arcs) buffer encodedBytes maxBufLen =
     (if val = 0 then do {
        buffer \<leftarrow> wr buffer encodedBytes 0;
        encode_arcs arcs buffer (encodedBytes + 1) maxBufLen }
      else do {
        r \<leftarrow> store_groups val (requiredBytes val) buffer encodedBytes maxBufLen;
        case r of
          Inl buffer \<Rightarrow> Some (buffer, 0)
        | Inr (buffer, encodedBytes) \<Rightarrow> encode_arcs arcs buffer encodedBytes maxBufLen })"

text \<open>Returns the buffer with the number of bytes, 0 for an identifier that does not fit.\<close>

definition BerEncoder_encodeItuObjectIdentifierToBuffer ::
    "ItuObjectIdentifier \<Rightarrow> u8 list \<Rightarrow> nat \<Rightarrow> (u8 list \<times> nat) option" where
  "BerEncoder_encodeItuObjectIdentifierToBuffer oid buffer maxBufLen =
     (if oid_arcCount oid > 1 then do {
        x \<leftarrow> rd (oid_arc oid) 0;
        y \<leftarrow> rd (oid_arc oid) 1;
        let val = unat x * 40 + unat y;
        if 0 < maxBufLen then do {
          buffer \<leftarrow> wr buffer 0 (of_nat val);
          arcs \<leftarrow> for_each [2..<oid_arcCount oid] (\<lambda>i arcs. do {
            a \<leftarrow> rd (oid_arc oid) i;
            Some (arcs @ [unat a]) }) [];
          encode_arcs arcs buffer 1 maxBufLen }
        else Some (buffer, 0) }
      else Some (buffer, 0))"

text \<open>
  \<open>BerEncoder_encodeOIDToBuffer\<close>: the same from a dotted string. Here an arc of zero needs no
  byte, and a negative value is treated like zero.
\<close>

function encode_string_arcs :: "cstr \<Rightarrow> u8 list \<Rightarrow> nat \<Rightarrow> nat \<Rightarrow> (u8 list \<times> nat) option" where
  "encode_string_arcs separator buffer encodedBytes maxBufLen =
     (case after_char 46 separator of
        None \<Rightarrow> Some (buffer, encodedBytes)
      | Some rest \<Rightarrow> do {
          let val = nat (atoi rest);
          r \<leftarrow> store_groups val (requiredBytes val) buffer encodedBytes maxBufLen;
          case r of
            Inl buffer \<Rightarrow> Some (buffer, 0)
          | Inr (buffer, encodedBytes) \<Rightarrow> encode_string_arcs rest buffer encodedBytes maxBufLen })"
  by auto
termination
  by (relation "measure (\<lambda>(s, _). length s)") (auto dest: after_char_shorter)

declare encode_string_arcs.simps [simp del]

definition BerEncoder_encodeOIDToBuffer :: "cstr \<Rightarrow> u8 list \<Rightarrow> nat \<Rightarrow> (u8 list \<times> nat) option" where
  "BerEncoder_encodeOIDToBuffer oidString buffer maxBufLen =
     (case after_char 46 oidString of
        None \<Rightarrow> Some (buffer, 0)
      | Some rest \<Rightarrow>
          (let val = atoi oidString * 40 + atoi rest in
           if 0 < maxBufLen then do {
             buffer \<leftarrow> wr buffer 0 (word_of_int val);
             encode_string_arcs rest buffer 1 maxBufLen }
           else Some (buffer, 0)))"

section \<open>Decoding\<close>

text \<open>The loop over the remaining arcs, \<open>k\<close> bytes left.\<close>

fun decode_arcs :: "u8 list \<Rightarrow> nat \<Rightarrow> nat \<Rightarrow> u16 list \<Rightarrow> nat \<Rightarrow> (u16 list \<times> nat) option" where
  "decode_arcs buffer bufPos 0 arc currentArc = Some (arc, currentArc)"
| "decode_arcs buffer bufPos (Suc k) arc currentArc =
     (if currentArc < 10 then do {
        a \<leftarrow> rd arc currentArc;
        let a = push_bit 7 a;
        b \<leftarrow> rd buffer bufPos;
        if b < 0x80 then do {
          arc \<leftarrow> wr arc currentArc (a + ucast b);
          decode_arcs buffer (bufPos + 1) k arc (currentArc + 1) }
        else do {
          arc \<leftarrow> wr arc currentArc (a + ucast (b AND 0x7f));
          decode_arcs buffer (bufPos + 1) k arc currentArc } }
      else Some (arc, currentArc))"

definition BerDecoder_decodeOID ::
    "u8 list \<Rightarrow> nat \<Rightarrow> nat \<Rightarrow> ItuObjectIdentifier \<Rightarrow> ItuObjectIdentifier option" where
  "BerDecoder_decodeOID buffer bufPos len oid = do {
     arc \<leftarrow> for_each [0..<10] (\<lambda>i arc. wr arc i 0) (oid_arc oid);
     (arc, currentArc) \<leftarrow>
       (if len > 0 then do {
          b \<leftarrow> rd buffer bufPos;
          arc \<leftarrow> wr arc 0 (ucast (b div 40));
          arc \<leftarrow> wr arc 1 (ucast (b mod 40));
          decode_arcs buffer (bufPos + 1) (len - 1) arc 2 }
        else Some (arc, 0));
     Some (oid\<lparr>oid_arc := arc, oid_arcCount := currentArc\<rparr>) }"

section \<open>The octets of an arc\<close>

fun group_bytes :: "nat \<Rightarrow> nat \<Rightarrow> u8 list" where
  "group_bytes val 0 = []"
| "group_bytes val (Suc k) =
     of_nat (val div 2 ^ (7 * k) mod 128 + (if k > 0 then 128 else 0)) # group_bytes val k"

definition arc_bytes :: "nat \<Rightarrow> u8 list" where
  "arc_bytes val = (if val = 0 then [0] else group_bytes val (requiredBytes val))"

lemma length_group_bytes [simp]: "length (group_bytes val k) = k"
  by (induction k) auto

lemma requiredBytes_bound: "n < 2 ^ (7 * requiredBytes n)"
proof (induction n rule: requiredBytes.induct)
  case (1 n)
  show ?case
  proof (cases "n > 0")
    case True
    then have "n div 128 < 2 ^ (7 * requiredBytes (n div 128))" using 1 by simp
    then have "n < 128 * 2 ^ (7 * requiredBytes (n div 128))" by (simp add: div_less_iff_less_mult mult.commute)
    then show ?thesis using True by (subst requiredBytes.simps) (simp add: power_add)
  qed simp
qed

lemma requiredBytes_pos: "0 < n \<Longrightarrow> 0 < requiredBytes n"
  by (subst requiredBytes.simps) simp

lemma store_groups_eq:
  "e + k \<le> M \<Longrightarrow> length buf = M \<Longrightarrow>
   store_groups val k buf e M = Some (Inr (splice buf e (group_bytes val k), e + k))"
proof (induction val k buf e M rule: store_groups.induct)
  case (2 val k buf e M)
  let ?b = "of_nat (val div 2 ^ (7 * k) mod 128 + (if k > 0 then 128 else 0)) :: u8"
  have w: "wr buf e ?b = Some (buf[e := ?b])" using 2 by (simp add: wr_def)
  have "store_groups val (Suc k) buf e M = store_groups val k (buf[e := ?b]) (e + 1) M"
    using 2 w by (auto simp: Let_def)
  also have "\<dots> = Some (Inr (splice (buf[e := ?b]) (e + 1) (group_bytes val k), e + 1 + k))"
    using 2 w by (auto simp: Let_def)
  finally show ?case using 2 by (simp add: splice_Cons)
qed (simp add: splice_def)

lemma store_groups_full:
  "e \<le> M \<Longrightarrow> M < e + k \<Longrightarrow> length buf = M \<Longrightarrow> \<exists>b. store_groups val k buf e M = Some (Inl b)"
proof (induction val k buf e M rule: store_groups.induct)
  case (2 val k buf e M)
  then show ?case by (auto simp: Let_def wr_def)
qed simp

lemma encode_arcs_eq:
  "encode_arcs arcs buf e M = Some (buf', n) \<Longrightarrow> n \<noteq> 0 \<Longrightarrow> length buf = M \<Longrightarrow> e \<le> M \<Longrightarrow>
   buf' = splice buf e (concat (map arc_bytes arcs)) \<and> n = e + length (concat (map arc_bytes arcs)) \<and> n \<le> M"
proof (induction arcs buf e M rule: encode_arcs.induct)
  case (1 buf e M)
  then show ?case by (simp add: splice_def)
next
  case (2 val arcs buf e M)
  show ?case
  proof (cases "val = 0")
    case True
    then obtain b where b: "wr buf e 0 = Some b" "encode_arcs arcs b (e + 1) M = Some (buf', n)"
      using 2(3) by (auto split: Option.bind_splits)
    then have "b = buf[e := 0]" "e < M" "length b = M" using 2(5) by (auto simp: wr_def split: if_splits)
    with "2.IH"(1) [OF True b(1) b(2) 2(4)] True 2(5) show ?thesis
      by (simp add: arc_bytes_def splice_Cons)
  next
    case False
    let ?k = "requiredBytes val"
    show ?thesis
    proof (cases "e + ?k \<le> M")
      case True
      note s = store_groups_eq [OF True 2(5), of val]
      then have "encode_arcs arcs (splice buf e (group_bytes val ?k)) (e + ?k) M = Some (buf', n)"
        using 2(3) False by simp
      moreover have "length (splice buf e (group_bytes val ?k)) = M"
        using True 2(5) by (simp add: length_splice)
      moreover have "arc_bytes val = group_bytes val ?k" using False by (simp add: arc_bytes_def)
      ultimately show ?thesis
        using "2.IH"(2) [OF False s refl refl] 2(4) True False
          splice_append [of e "group_bytes val ?k" buf "concat (map arc_bytes arcs)"] 2(5)
        by auto
    next
      case f: False
      obtain b where "store_groups val ?k buf e M = Some (Inl b)"
        using store_groups_full [of e M ?k buf val] f 2(5,6) by auto
      then show ?thesis using 2(3,4) False by simp
    qed
  qed
qed

section \<open>Reading an arc back\<close>

lemma group_byte:
  fixes n :: nat
  assumes "n < 128"
  shows "(of_nat (n + 128) :: u8) < 0x80 \<longleftrightarrow> False" "(of_nat n :: u8) < 0x80"
    "ucast ((of_nat (n + 128) :: u8) AND 0x7f) = (of_nat n :: u16)" "ucast (of_nat n :: u8) = (of_nat n :: u16)"
proof -
  have u: "unat (of_nat (n + 128) :: u8) = n + 128" "unat (of_nat n :: u8) = n"
    using assms by (simp_all add: unat_of_nat del: of_nat_add)
  show "(of_nat (n + 128) :: u8) < 0x80 \<longleftrightarrow> False" "(of_nat n :: u8) < 0x80"
    unfolding word_less_nat_alt u using assms by simp_all
  have m: "(0x7f :: u8) = mask 7" by (simp add: mask_eq_exp_minus_1)
  show "ucast (of_nat n :: u8) = (of_nat n :: u16)"
    using assms by (simp add: word_unat_eq_iff unsigned_ucast_eq take_bit_nat_eq_self unat_of_nat)
  have "unat ((of_nat (n + 128) :: u8) AND mask 7) = n"
    unfolding take_bit_eq_mask [symmetric] unsigned_take_bit_eq u
    using assms by (simp add: take_bit_eq_mod)
  then show "ucast ((of_nat (n + 128) :: u8) AND 0x7f) = (of_nat n :: u16)"
    unfolding m by (metis of_nat_unat)
qed

lemma decode_group:
  "take k (drop p buf) = group_bytes val k \<Longrightarrow> 0 < k \<Longrightarrow> p + k \<le> length buf \<Longrightarrow> c < 10 \<Longrightarrow> length arc = 10 \<Longrightarrow>
   decode_arcs buf p (k + m) arc c =
     decode_arcs buf (p + k) m (arc[c := arc ! c * 2 ^ (7 * k) + of_nat (val mod 2 ^ (7 * k))]) (c + 1)"
proof (induction k arbitrary: p arc)
  case (Suc k)
  let ?g = "val div 2 ^ (7 * k) mod 128"
  have g: "?g < 128" by simp
  have d: "drop p buf = buf ! p # drop (Suc p) buf" using Suc.prems by (simp add: Cons_nth_drop_Suc)
  have b: "buf ! p = of_nat (?g + (if k > 0 then 128 else 0))" "take k (drop (Suc p) buf) = group_bytes val k"
    using Suc.prems(1) d by simp_all
  have rdp: "rd buf p = Some (buf ! p)" "rd arc c = Some (arc ! c)" using Suc.prems by (simp_all add: rd_def)
  show ?case
  proof (cases "k = 0")
    case True
    then show ?thesis
      using b(1) rdp Suc.prems(4,5) group_byte [OF g]
      by (simp add: wr_def push_bit_eq_mult Let_def mod_mod_trivial)
  next
    case False
    let ?arc = "arc[c := arc ! c * 128 + of_nat ?g]"
    have "decode_arcs buf p (Suc k + m) arc c = decode_arcs buf (Suc p) (k + m) ?arc c"
      using b(1) rdp Suc.prems(4,5) False group_byte [OF g]
      by (simp add: wr_def push_bit_eq_mult Let_def del: of_nat_add)
    also have "\<dots> = decode_arcs buf (Suc p + k) m
        (?arc[c := ?arc ! c * 2 ^ (7 * k) + of_nat (val mod 2 ^ (7 * k))]) (c + 1)"
      using Suc.prems False b(2) by (intro Suc.IH) simp_all
    also have "?arc ! c * 2 ^ (7 * k) + of_nat (val mod 2 ^ (7 * k))
        = arc ! c * 2 ^ (7 * Suc k) + of_nat (val mod 2 ^ (7 * Suc k))"
    proof -
      have "val mod 2 ^ (7 * Suc k) = ?g * 2 ^ (7 * k) + val mod 2 ^ (7 * k)"
        using mod_mult2_eq [of val "2 ^ (7 * k)" 128] by (simp add: power_add mult.commute)
      moreover have "?arc ! c = arc ! c * 128 + of_nat ?g" using Suc.prems by simp
      ultimately show ?thesis by (simp add: power_add algebra_simps)
    qed
    finally show ?thesis by simp
  qed
qed simp


lemma arc_bytes_group: "\<exists>k > 0. arc_bytes val = group_bytes val k \<and> val < 2 ^ (7 * k)"
proof (cases "val = 0")
  case True
  then show ?thesis by (intro exI [of _ 1]) (simp add: arc_bytes_def)
next
  case False
  then show ?thesis using requiredBytes_bound [of val] requiredBytes_pos [of val]
    by (intro exI [of _ "requiredBytes val"]) (simp add: arc_bytes_def)
qed

lemma decode_all_arcs:
  assumes "take (length bs) (drop p buf) = bs" "p + length bs \<le> length buf"
    "bs = concat (map (\<lambda>a. arc_bytes (unat a)) as)" "c + length as \<le> 10" "length arc = 10"
    "\<forall>i. c \<le> i \<longrightarrow> i < 10 \<longrightarrow> arc ! i = 0"
  shows "decode_arcs buf p (length bs) arc c = Some (take c arc @ as @ drop (c + length as) arc, c + length as)"
  using assms
proof (induction as arbitrary: bs p c arc)
  case Nil
  then show ?case by simp
next
  case (Cons a as)
  obtain k where k: "0 < k" "arc_bytes (unat a) = group_bytes (unat a) k" "unat a < 2 ^ (7 * k)"
    using arc_bytes_group by blast
  let ?bs = "concat (map (\<lambda>a. arc_bytes (unat a)) as)"
  have bs: "bs = group_bytes (unat a) k @ ?bs" using Cons.prems(3) k by simp
  have t: "take k (drop p buf) = group_bytes (unat a) k"
    using arg_cong [OF Cons.prems(1), of "take k"] Cons.prems(2) by (simp add: bs min_def)
  have t2: "take (length ?bs) (drop (p + k) buf) = ?bs"
    using arg_cong [OF Cons.prems(1), of "drop k"] by (simp add: bs take_drop ac_simps)
  let ?arc = "arc[c := a]"
  have "arc ! c * 2 ^ (7 * k) + of_nat (unat a mod 2 ^ (7 * k)) = a"
    using Cons.prems(4,6) k(3) by simp
  then have "decode_arcs buf p (length bs) arc c = decode_arcs buf (p + k) (length ?bs) ?arc (c + 1)"
    using decode_group [OF t k(1), of c arc "length ?bs"] Cons.prems(2,4,5) by (simp add: bs)
  also have "\<dots> = Some (take (c + 1) ?arc @ as @ drop (c + 1 + length as) ?arc, c + 1 + length as)"
    using Cons.prems t2 by (intro Cons.IH) (auto simp: bs)
  also have "take (c + 1) ?arc = take c arc @ [a]"
    using Cons.prems(4,5) by (simp add: take_Suc_conv_app_nth)
  also have "drop (c + 1 + length as) ?arc = drop (c + length (a # as)) arc"
    by simp
  finally show ?case by simp
qed

lemma clear_arcs:
  assumes "length arc = 10"
  shows "for_each [0..<10] (\<lambda>i arc. wr arc i 0) arc = Some (replicate 10 (0 :: u16))"
proof -
  let ?I = "\<lambda>i a. length a = 10 \<and> (\<forall>j < i. a ! j = (0 :: u16))"
  have "\<exists>a. for_each [0..<10] (\<lambda>i arc. wr arc i 0) arc = Some a \<and> ?I (length [0..<10 :: nat]) a"
    using assms by (intro for_each_invariant [where I = ?I]) (auto simp: wr_def nth_list_update less_Suc_eq)
  then obtain a where "for_each [0..<10] (\<lambda>i arc. wr arc i 0) arc = Some a" "length a = 10" "\<forall>j < 10. a ! j = 0"
    by auto
  moreover from this(2,3) have "a = replicate 10 0" by (intro nth_equalityI) simp_all
  ultimately show ?thesis by simp
qed

lemma collect_arcs:
  "k \<le> length arc \<Longrightarrow> for_each [2..<k] (\<lambda>i arcs. do { a \<leftarrow> rd arc i; Some (arcs @ [unat a]) }) [] =
    Some (map unat (take (k - 2) (drop 2 arc)))"
proof (induction k)
  case (Suc k)
  show ?case
  proof (cases "2 \<le> k")
    case True
    then have e: "Suc k - 2 = Suc (k - 2)" by simp
    have "take (Suc k - 2) (drop 2 arc) = take (k - 2) (drop 2 arc) @ [arc ! k]"
    proof -
      have i: "Suc (Suc (k - 2)) = k" using True by simp
      have "drop 2 arc ! (k - 2) = arc ! k" using Suc.prems True i by (subst nth_drop) simp_all
      then show ?thesis unfolding e using Suc.prems True by (subst take_Suc_conv_app_nth) simp_all
    qed
    then show ?thesis using Suc True by (simp add: for_each_append rd_def)
  qed (use Suc in auto)
qed simp

text \<open>
  BER object identifiers round trip: when
  \<open>BerEncoder_encodeItuObjectIdentifierToBuffer\<close> fits an identifier of two to ten arcs (the
  second below 40, the first two in one octet, unused arcs zero) into its buffer,
  \<open>BerDecoder_decodeOID\<close> of the octets written gives the identifier back, zero arcs included.
\<close>

theorem oid_roundtrip:
  assumes "BerEncoder_encodeItuObjectIdentifierToBuffer oid buf (length buf) = Some (buf', n)" "n \<noteq> 0"
    "length (oid_arc oid) = 10" "oid_arcCount oid \<le> 10" "unat (oid_arc oid ! 1) < 40"
    "unat (oid_arc oid ! 0) * 40 + unat (oid_arc oid ! 1) < 256"
    "\<forall>i. oid_arcCount oid \<le> i \<longrightarrow> i < 10 \<longrightarrow> oid_arc oid ! i = 0" "length (oid_arc any) = 10"
  shows "BerDecoder_decodeOID buf' 0 n any =
    Some (any\<lparr>oid_arc := oid_arc oid, oid_arcCount := oid_arcCount oid\<rparr>)"
proof -
  let ?arc = "oid_arc oid" and ?k = "oid_arcCount oid"
  let ?as = "take (?k - 2) (drop 2 ?arc)"
  let ?bs = "concat (map (\<lambda>a. arc_bytes (unat a)) ?as)"
  define v where "v = unat (?arc ! 0) * 40 + unat (?arc ! 1)"
  have k: "1 < ?k" and buf: "0 < length buf"
    using assms(1,2) by (auto simp: BerEncoder_encodeItuObjectIdentifierToBuffer_def Let_def
        split: if_splits Option.bind_splits)
  have rd01: "rd ?arc 0 = Some (?arc ! 0)" "rd ?arc 1 = Some (?arc ! 1)" using assms(3) by (simp_all add: rd_def)
  have "encode_arcs (map unat ?as) (buf[0 := of_nat v]) 1 (length buf) = Some (buf', n)"
    using assms(1) k buf collect_arcs [of ?k ?arc] assms(3,4) rd01
    by (simp add: BerEncoder_encodeItuObjectIdentifierToBuffer_def Let_def v_def wr_def)
  from encode_arcs_eq [OF this assms(2)] buf
  have e: "buf' = splice (buf[0 := of_nat v]) 1 ?bs" "n = 1 + length ?bs" "n \<le> length buf"
    by (simp_all add: comp_def)
  have b0: "rd buf' 0 = Some (of_nat v)"
    using e buf by (cases buf) (auto simp: splice_def rd_def)
  have bs: "take (length ?bs) (drop 1 buf') = ?bs" and len: "1 + length ?bs \<le> length buf'"
    using e by (simp_all add: splice_read length_splice)
  have v: "v < 256" "v div 40 = unat (?arc ! 0)" "v mod 40 = unat (?arc ! 1)"
    using assms(5,6) by (simp_all add: v_def)
  have first: "(ucast ((of_nat v :: u8) div 40) :: u16) = ?arc ! 0" "(ucast ((of_nat v :: u8) mod 40) :: u16) = ?arc ! 1"
    using v by (simp_all add: word_unat_eq_iff unsigned_ucast_eq unat_div unat_mod_distrib unat_of_nat take_bit_nat_eq_self)
  let ?init = "[?arc ! 0, ?arc ! 1] @ replicate 8 0"
  have "decode_arcs buf' 1 (length ?bs) ?init 2 =
      Some (take 2 ?init @ ?as @ drop (2 + length ?as) ?init, 2 + length ?as)"
    using bs len assms(3,4) k by (intro decode_all_arcs) (auto simp: nth_Cons split: nat.splits)
  moreover have "2 + length ?as = ?k" using k assms(3,4) by simp
  moreover have "take 2 ?init @ ?as @ drop ?k ?init = ?arc"
  proof (rule nth_equalityI)
    show "length (take 2 ?init @ ?as @ drop ?k ?init) = length ?arc" using k assms(3,4) by simp
    fix i assume "i < length (take 2 ?init @ ?as @ drop ?k ?init)"
    then have i: "i < 10" using k assms(3,4) by simp
    then consider "i = 0" | "i = 1" | "2 \<le> i" "i < ?k" | "?k \<le> i" by linarith
    then show "(take 2 ?init @ ?as @ drop ?k ?init) ! i = ?arc ! i"
    proof cases
      case 4
      have "length (take 2 ?init @ ?as) = ?k" using k assms(3,4) by simp
      then have "((take 2 ?init @ ?as) @ drop ?k ?init) ! i = ?init ! i"
        using 4 i by (simp only: nth_append) simp
      moreover have "?init ! i = 0" using 4 k i by (simp add: nth_append)
      ultimately show ?thesis using 4 i assms(7) by simp
    next
      case 3
      then have "Suc (Suc (i - Suc (Suc 0))) = i" "i - Suc (Suc 0) < ?k - 2" by auto
      then show ?thesis using 3 k assms(3,4) by (simp add: nth_append)
    qed (use k assms(3,4) in \<open>simp_all add: nth_append\<close>)
  qed
  moreover have "wr (replicate 10 0) 0 (?arc ! 0) = Some (?arc ! 0 # replicate 9 0)"
    "wr (?arc ! 0 # replicate 9 0) 1 (?arc ! 1) = Some ?init"
    by (simp_all add: wr_def numeral_eq_Suc)
  moreover have "0 < n" "n - 1 = length ?bs" using e(2) by simp_all
  ultimately show ?thesis
    using b0 clear_arcs [OF assms(8)] first
    unfolding BerDecoder_decodeOID_def by (simp only: add_0 bind.bind_lunit Let_def if_True prod.case)
qed

definition sample_oid :: ItuObjectIdentifier where
  "sample_oid = \<lparr>oid_arc = [1, 1, 999, 0, 1, 0, 0, 0, 0, 0], oid_arcCount = 5\<rparr>"

theorem oid_roundtrip_witness:
  "BerEncoder_encodeItuObjectIdentifierToBuffer sample_oid (replicate 6 0) (length (replicate 6 (0 :: u8))) =
     Some ([41, 135, 103, 0, 1, 0], 5) \<and>
   BerDecoder_decodeOID [41, 135, 103, 0, 1, 0] 0 5 empty_oid =
     Some (empty_oid\<lparr>oid_arc := oid_arc sample_oid, oid_arcCount := oid_arcCount sample_oid\<rparr>)"
proof -
  have e: "BerEncoder_encodeItuObjectIdentifierToBuffer sample_oid (replicate 6 0) (length (replicate 6 (0 :: u8))) =
     Some ([41, 135, 103, 0, 1, 0], 5)"
    by code_simp
  moreover have "\<forall>i. 5 \<le> i \<longrightarrow> i < 10 \<longrightarrow> oid_arc sample_oid ! i = 0"
    by (auto simp: sample_oid_def nth_Cons' )
  ultimately show ?thesis
    using oid_roundtrip [OF e, of empty_oid] by (simp add: sample_oid_def empty_oid_def)
qed

text \<open>
  The encoder from dotted strings drops zero arcs: \<open>1.1.0.5\<close> is encoded like \<open>1.1.5\<close>,
  whereas the encoder from arcs writes the zero.
\<close>

theorem oid_string_zero_arc:
  "BerEncoder_encodeOIDToBuffer [49, 46, 49, 46, 48, 46, 53] [0, 0, 0, 0] 4 = Some ([41, 5, 0, 0], 2) \<and>
   BerEncoder_encodeOIDToBuffer [49, 46, 49, 46, 53] [0, 0, 0, 0] 4 = Some ([41, 5, 0, 0], 2) \<and>
   BerEncoder_encodeItuObjectIdentifierToBuffer
     \<lparr>oid_arc = [1, 1, 0, 5, 0, 0, 0, 0, 0, 0], oid_arcCount = 4\<rparr> [0, 0, 0, 0] 4 = Some ([41, 0, 5, 0], 3)"
  by (intro conjI; code_simp)

end
