(* ===== verification/BilateralTable.thy ===== *)
theory BilateralTable
  imports BerOid AvlTree
begin

text \<open>
  Who may do what: application addresses and their matching
  (\<^verbatim>\<open>iso_common/iso_connection_parameters.c\<close>, \<^verbatim>\<open>tase2_common/tase2_endpoint.c\<close>), the bilateral
  tables of \<^verbatim>\<open>tase2_server/tase2_blt.c\<close>, and the choice of a table for a new association
  (\<open>Tase2_Server_authenticator\<close>, \<^verbatim>\<open>tase2_server.c\<close>).

  Data points, control points and domains are addresses; a null domain is \<open>None\<close>. A table's
  stores are the trees of \<open>AvlTree\<close>, keyed by point address. The theorems compare the
  configured table with the list of grants it was configured with.
\<close>

type_synonym point = nat
type_synonym domain_ref = "nat option"

section \<open>Application addresses\<close>

record Selector =
  sel_size :: nat
  sel_value :: "u8 list"

record IsoApplicationAddress =
  iaa_hasAeQualifier :: bool
  iaa_hasAeInvocationId :: bool
  iaa_hasApInvocationId :: bool
  iaa_apTitle :: ItuObjectIdentifier
  iaa_aeQualifier :: u32
  iaa_aeInvocationId :: u32
  iaa_apInvocationId :: u32
  iaa_pSelector :: Selector
  iaa_sSelector :: Selector
  iaa_tSelector :: Selector

text \<open>\<open>memset(\<dots>, 0, sizeof(struct sIsoApplicationAddress))\<close>.\<close>

definition zero_address :: IsoApplicationAddress where
  "zero_address = \<lparr>iaa_hasAeQualifier = False, iaa_hasAeInvocationId = False, iaa_hasApInvocationId = False,
     iaa_apTitle = empty_oid, iaa_aeQualifier = 0, iaa_aeInvocationId = 0, iaa_apInvocationId = 0,
     iaa_pSelector = \<lparr>sel_size = 0, sel_value = replicate 16 0\<rparr>,
     iaa_sSelector = \<lparr>sel_size = 0, sel_value = replicate 16 0\<rparr>,
     iaa_tSelector = \<lparr>sel_size = 0, sel_value = replicate 16 0\<rparr>\<rparr>"

definition IsoApplicationAddress_setApTitle ::
    "IsoApplicationAddress \<Rightarrow> cstr option \<Rightarrow> IsoApplicationAddress option" where
  "IsoApplicationAddress_setApTitle self apTitle =
     (case apTitle of
        None \<Rightarrow> Some (self\<lparr>iaa_apTitle := (iaa_apTitle self)\<lparr>oid_arcCount := 0\<rparr>\<rparr>)
      | Some s \<Rightarrow> do {
          oid \<leftarrow> convertApTitleString s (iaa_apTitle self);
          Some (self\<lparr>iaa_apTitle := oid\<rparr>) })"

definition IsoApplicationAddress_setAeQualifier :: "IsoApplicationAddress \<Rightarrow> u32 \<Rightarrow> IsoApplicationAddress" where
  "IsoApplicationAddress_setAeQualifier self aeQualifier =
     self\<lparr>iaa_hasAeQualifier := True, iaa_aeQualifier := aeQualifier\<rparr>"

definition IsoApplicationAddress_setLowerLayerAddresses ::
    "IsoApplicationAddress \<Rightarrow> Selector \<Rightarrow> Selector \<Rightarrow> Selector \<Rightarrow> IsoApplicationAddress" where
  "IsoApplicationAddress_setLowerLayerAddresses self pSelector sSelector tSelector =
     self\<lparr>iaa_pSelector := pSelector, iaa_sSelector := sSelector, iaa_tSelector := tSelector\<rparr>"

definition MATCH_AP_TITLE :: u32 where "MATCH_AP_TITLE = 1"
definition MATCH_AE_QUALIFIER :: u32 where "MATCH_AE_QUALIFIER = 2"
definition MATCH_P_SEL :: u32 where "MATCH_P_SEL = 4"
definition MATCH_S_SEL :: u32 where "MATCH_S_SEL = 8"
definition MATCH_T_SEL :: u32 where "MATCH_T_SEL = 16"

lemmas match_rules = MATCH_AP_TITLE_def MATCH_AE_QUALIFIER_def MATCH_P_SEL_def MATCH_S_SEL_def MATCH_T_SEL_def

definition Tase2_Endpoint_setAddressMatchingRules :: "bool \<Rightarrow> bool \<Rightarrow> bool \<Rightarrow> bool \<Rightarrow> bool \<Rightarrow> u32" where
  "Tase2_Endpoint_setAddressMatchingRules apTitle aeQualifier pSelector sSelector tSelector =
     (if apTitle then MATCH_AP_TITLE else 0) + (if aeQualifier then MATCH_AE_QUALIFIER else 0) +
     (if pSelector then MATCH_P_SEL else 0) + (if sSelector then MATCH_S_SEL else 0) +
     (if tSelector then MATCH_T_SEL else 0)"

text \<open>The loop over the arcs: \<open>Some False\<close> at the first difference.\<close>

fun same_arcs :: "nat list \<Rightarrow> u16 list \<Rightarrow> u16 list \<Rightarrow> bool option" where
  "same_arcs [] arc1 arc2 = Some True"
| "same_arcs (i # is) arc1 arc2 = do {
     a \<leftarrow> rd arc1 i;
     b \<leftarrow> rd arc2 i;
     if a \<noteq> b then Some False else same_arcs is arc1 arc2 }"

text \<open>Equal sizes and \<open>memcmp(\<dots>) = 0\<close>.\<close>

definition same_selector :: "Selector \<Rightarrow> Selector \<Rightarrow> bool option" where
  "same_selector s1 s2 =
     (if sel_size s1 = sel_size s2
      then if sel_size s1 \<le> length (sel_value s1) \<and> sel_size s2 \<le> length (sel_value s2)
        then Some (take (sel_size s1) (sel_value s1) = take (sel_size s1) (sel_value s2)) else None
      else Some False)"

definition when_rule :: "u32 \<Rightarrow> u32 \<Rightarrow> bool option \<Rightarrow> bool option \<Rightarrow> bool option" where
  "when_rule rules rule test rest =
     (if rules AND rule \<noteq> 0 then do { ok \<leftarrow> test; if ok then rest else Some False } else rest)"

definition Tase2_Endpoint_matchAddresses ::
    "u32 \<Rightarrow> IsoApplicationAddress \<Rightarrow> IsoApplicationAddress \<Rightarrow> bool option" where
  "Tase2_Endpoint_matchAddresses matchingRules addr1 addr2 =
     when_rule matchingRules MATCH_AP_TITLE
       (let t1 = iaa_apTitle addr1; t2 = iaa_apTitle addr2 in
        if oid_arcCount t1 = oid_arcCount t2
        then same_arcs [0..<oid_arcCount t1] (oid_arc t1) (oid_arc t2) else Some False)
     (when_rule matchingRules MATCH_AE_QUALIFIER
       (Some (iaa_aeQualifier addr1 = iaa_aeQualifier addr2))
     (when_rule matchingRules MATCH_P_SEL (same_selector (iaa_pSelector addr1) (iaa_pSelector addr2))
     (when_rule matchingRules MATCH_S_SEL (same_selector (iaa_sSelector addr1) (iaa_sSelector addr2))
     (when_rule matchingRules MATCH_T_SEL (same_selector (iaa_tSelector addr1) (iaa_tSelector addr2))
     (Some True)))))"

section \<open>Bilateral tables\<close>

definition BLT_ACCESS_ALLOW_READ :: nat where "BLT_ACCESS_ALLOW_READ = 1"
definition BLT_ACCESS_ALLOW_WRITE :: nat where "BLT_ACCESS_ALLOW_WRITE = 2"
definition BLT_ACCESS_ALLOW_SET_TAG :: nat where "BLT_ACCESS_ALLOW_SET_TAG = 4"
definition BLT_ACCESS_ALLOW_GET_TAG :: nat where "BLT_ACCESS_ALLOW_GET_TAG = 8"
definition BLT_ACCESS_ALLOW_OPERATE :: nat where "BLT_ACCESS_ALLOW_OPERATE = 16"

lemmas access_flags = BLT_ACCESS_ALLOW_READ_def BLT_ACCESS_ALLOW_WRITE_def BLT_ACCESS_ALLOW_SET_TAG_def
  BLT_ACCESS_ALLOW_GET_TAG_def BLT_ACCESS_ALLOW_OPERATE_def

text \<open>The \<open>checkBackId\<close> of a data point's entry is never set.\<close>

record BLT_Entry =
  ble_dataPoint :: point
  ble_accessFlags :: u8
  ble_checkBackId :: "u16 option"

record BLT_InfoMessageEntry =
  bim_infoRef :: u32
  bim_localRef :: u32
  bim_vccScope :: bool

record BilateralTable =
  blt_bltId :: cstr
  blt_appAddr :: IsoApplicationAddress
  blt_domain :: domain_ref
  blt_dataPoints :: "(point, BLT_Entry) AvlTreeNode"
  blt_controlPoints :: "(point, BLT_Entry) AvlTreeNode"
  blt_informationMessages :: "BLT_InfoMessageEntry list"

text \<open>
  The constructor; \<open>ids\<close> are the \<open>bilateralTableId\<close> fields of the domains, which
  \<open>Tase2_Domain_setBilateralTableId\<close> sets.
\<close>

definition Tase2_Domain_setBilateralTableId :: "(nat \<Rightarrow> cstr option) \<Rightarrow> nat \<Rightarrow> cstr \<Rightarrow> nat \<Rightarrow> cstr option" where
  "Tase2_Domain_setBilateralTableId ids self bltId = ids(self := Some bltId)"

definition Tase2_BilateralTable_create ::
    "cstr \<Rightarrow> domain_ref \<Rightarrow> cstr \<Rightarrow> u32 \<Rightarrow> (nat \<Rightarrow> cstr option) \<Rightarrow> (BilateralTable \<times> (nat \<Rightarrow> cstr option)) option" where
  "Tase2_BilateralTable_create bltId domain apTitle aeQualifier ids = do {
     let appAddr = zero_address\<lparr>iaa_aeQualifier := aeQualifier\<rparr>;
     oid \<leftarrow> ItuObjectIdentifier_setFromString (iaa_apTitle appAddr) apTitle;
     let self = \<lparr>blt_bltId = bltId, blt_appAddr = appAddr\<lparr>iaa_apTitle := oid\<rparr>, blt_domain = domain,
       blt_dataPoints = AvlTree_create, blt_controlPoints = AvlTree_create, blt_informationMessages = []\<rparr>;
     Some (self, case domain of None \<Rightarrow> ids | Some d \<Rightarrow> Tase2_Domain_setBilateralTableId ids d bltId) }"

definition Tase2_BilateralTable_setIsoParameters ::
    "BilateralTable \<Rightarrow> Selector \<Rightarrow> Selector \<Rightarrow> Selector \<Rightarrow> BilateralTable" where
  "Tase2_BilateralTable_setIsoParameters self pSelector sSelector tSelector =
     self\<lparr>blt_appAddr := IsoApplicationAddress_setLowerLayerAddresses (blt_appAddr self)
       pSelector sSelector tSelector\<rparr>"

definition Tase2_BilateralTable_getID :: "BilateralTable \<Rightarrow> cstr" where
  "Tase2_BilateralTable_getID self = blt_bltId self"

text \<open>The value added is never null, so the tree's default for a missing value is not used.\<close>

definition add_entry :: "(point, BLT_Entry) AvlTreeNode \<Rightarrow> BLT_Entry \<Rightarrow> (point, BLT_Entry) AvlTreeNode option" where
  "add_entry tree newEntry = AvlTree_add (\<lambda>_. newEntry) tree (ble_dataPoint newEntry) (Some newEntry)"

definition appendEntryToDataPointList :: "BilateralTable \<Rightarrow> BLT_Entry \<Rightarrow> BilateralTable option" where
  "appendEntryToDataPointList self newEntry = do {
     t \<leftarrow> add_entry (blt_dataPoints self) newEntry;
     Some (self\<lparr>blt_dataPoints := t\<rparr>) }"

definition appendEntryToControlPointList :: "BilateralTable \<Rightarrow> BLT_Entry \<Rightarrow> BilateralTable option" where
  "appendEntryToControlPointList self newEntry = do {
     t \<leftarrow> add_entry (blt_controlPoints self) newEntry;
     Some (self\<lparr>blt_controlPoints := t\<rparr>) }"

definition appendEntryToInformationMessageList :: "BilateralTable \<Rightarrow> BLT_InfoMessageEntry \<Rightarrow> BilateralTable" where
  "appendEntryToInformationMessageList self newEntry =
     self\<lparr>blt_informationMessages := blt_informationMessages self @ [newEntry]\<rparr>"

definition flag_if :: "bool \<Rightarrow> nat \<Rightarrow> u8 \<Rightarrow> u8" where
  "flag_if allow flag accessFlags = (if allow then accessFlags + of_nat flag else accessFlags)"

definition dataPoint_flags :: "bool \<Rightarrow> bool \<Rightarrow> u8" where
  "dataPoint_flags allowRead allowWrite =
     flag_if allowWrite BLT_ACCESS_ALLOW_WRITE (flag_if allowRead BLT_ACCESS_ALLOW_READ 0)"

definition Tase2_BilateralTable_addDataPoint ::
    "BilateralTable \<Rightarrow> point \<Rightarrow> bool \<Rightarrow> bool \<Rightarrow> BilateralTable option" where
  "Tase2_BilateralTable_addDataPoint self dataPoint allowRead allowWrite =
     appendEntryToDataPointList self
       \<lparr>ble_dataPoint = dataPoint, ble_accessFlags = dataPoint_flags allowRead allowWrite, ble_checkBackId = None\<rparr>"

definition controlPoint_flags :: "bool \<Rightarrow> bool \<Rightarrow> bool \<Rightarrow> bool \<Rightarrow> u8" where
  "controlPoint_flags allowSetTag allowGetTag allowOperate allowRead =
     flag_if allowGetTag BLT_ACCESS_ALLOW_GET_TAG
       (flag_if allowSetTag BLT_ACCESS_ALLOW_SET_TAG
         (flag_if allowOperate BLT_ACCESS_ALLOW_OPERATE
           (flag_if allowRead BLT_ACCESS_ALLOW_READ 0)))"

definition Tase2_BilateralTable_addControlPoint ::
    "BilateralTable \<Rightarrow> point \<Rightarrow> u16 \<Rightarrow> bool \<Rightarrow> bool \<Rightarrow> bool \<Rightarrow> bool \<Rightarrow> BilateralTable option" where
  "Tase2_BilateralTable_addControlPoint self controlPoint checkBackId allowSetTag allowGetTag allowOperate allowRead =
     appendEntryToControlPointList self
       \<lparr>ble_dataPoint = controlPoint,
        ble_accessFlags = controlPoint_flags allowSetTag allowGetTag allowOperate allowRead,
        ble_checkBackId = Some checkBackId\<rparr>"

definition Tase2_BilateralTable_addInformationMessage ::
    "BilateralTable \<Rightarrow> u32 \<Rightarrow> u32 \<Rightarrow> bool \<Rightarrow> BilateralTable" where
  "Tase2_BilateralTable_addInformationMessage self infoRef localRef vccScope =
     appendEntryToInformationMessageList self
       \<lparr>bim_infoRef = infoRef, bim_localRef = localRef, bim_vccScope = vccScope\<rparr>"

definition BilateralTable_checkDataPointAccess ::
    "BilateralTable \<Rightarrow> domain_ref \<Rightarrow> point \<Rightarrow> nat \<Rightarrow> bool" where
  "BilateralTable_checkDataPointAccess self domain dataPoint checkFlags =
     (let allows = (\<lambda>tree. case AvlTree_find tree dataPoint of
            Some entry \<Rightarrow> unat (ble_accessFlags entry) AND checkFlags \<noteq> 0
          | None \<Rightarrow> False) in
      if domain = blt_domain self then True
      else if allows (blt_dataPoints self) then True
      else allows (blt_controlPoints self))"

definition BilateralTable_checkControlPointAccess ::
    "BilateralTable \<Rightarrow> domain_ref \<Rightarrow> point \<Rightarrow> nat \<Rightarrow> bool" where
  "BilateralTable_checkControlPointAccess self domain dataPoint checkFlags =
     (if domain = blt_domain self then True
      else case AvlTree_find (blt_controlPoints self) dataPoint of
        Some entry \<Rightarrow> unat (ble_accessFlags entry) AND checkFlags = checkFlags
      | None \<Rightarrow> False)"

definition BilateralTable_checkInformationMessageAccess ::
    "BilateralTable \<Rightarrow> domain_ref \<Rightarrow> u32 \<Rightarrow> u32 \<Rightarrow> bool" where
  "BilateralTable_checkInformationMessageAccess self domain infoRef localRef =
     (if domain = blt_domain self then True
      else list_ex (\<lambda>entry.
        if domain = None \<and> bim_vccScope entry then bim_infoRef entry = infoRef \<and> bim_localRef entry = localRef
        else if domain = blt_domain self \<and> \<not> bim_vccScope entry
        then bim_infoRef entry = infoRef \<and> bim_localRef entry = localRef
        else False) (blt_informationMessages self))"

text \<open>\<open>None\<close> is the use of an id that was not set.\<close>

definition BilateralTable_getCheckBackId :: "BilateralTable \<Rightarrow> point \<Rightarrow> u16 option" where
  "BilateralTable_getCheckBackId self dataPoint =
     (case AvlTree_find (blt_controlPoints self) dataPoint of
        Some entry \<Rightarrow> ble_checkBackId entry
      | None \<Rightarrow> Some (- 1))"

section \<open>Association\<close>

datatype AcseServiceUserDiagnostics = ACSE_USER_OK | ACSE_USER_NO_REASON_GIVEN
  | ACSE_USER_APP_CONTEXT_NAME_NOT_SUPPORTED | ACSE_USER_CALLING_AP_TITLE_NOT_RECOGNIZED
  | ACSE_USER_CALLING_AP_INVOCATION_ID_NOT_RECOGNIZED | ACSE_USER_CALLING_AE_QUALIFIER_NOT_RECOGNIZED
  | ACSE_USER_CALLING_AE_INVOCATION_ID_NOT_RECOGNIZED | ACSE_USER_CALLED_AP_TITLE_NOT_RECOGNIZED
  | ACSE_USER_CALLED_AP_INVOCATION_ID_NOT_RECOGNIZED | ACSE_USER_CALLED_AE_QUALIFIER_NOT_RECOGNIZED
  | ACSE_USER_CALLED_AE_INVOCATION_ID_NOT_RECOGNIZED | ACSE_USER_AUTH_MECH_NAME_NOT_RECOGNIZED
  | ACSE_USER_AUTH_MECH_NAME_REQUIRED | ACSE_USER_AUTH_FAILURE | ACSE_USER_AUTH_REQUIRED

text \<open>
  The result with the security token. \<open>*securityToken\<close> is left as it is when no table matches.
\<close>

fun authenticator_loop ::
    "u32 \<Rightarrow> BilateralTable list \<Rightarrow> IsoApplicationAddress \<Rightarrow> BilateralTable option \<Rightarrow>
     (AcseServiceUserDiagnostics \<times> BilateralTable option) option" where
  "authenticator_loop matchingRules [] remoteAppRef securityToken =
     Some (ACSE_USER_CALLING_AP_TITLE_NOT_RECOGNIZED, securityToken)"
| "authenticator_loop matchingRules (blt # blts) remoteAppRef securityToken = do {
     appRefMatches \<leftarrow> Tase2_Endpoint_matchAddresses matchingRules remoteAppRef (blt_appAddr blt);
     if appRefMatches then Some (ACSE_USER_OK, Some blt)
     else authenticator_loop matchingRules blts remoteAppRef securityToken }"

definition Tase2_Server_authenticator ::
    "u32 \<Rightarrow> BilateralTable list \<Rightarrow> IsoApplicationAddress \<Rightarrow> BilateralTable option \<Rightarrow>
     (AcseServiceUserDiagnostics \<times> BilateralTable option) option" where
  "Tase2_Server_authenticator matchingRules blts remoteAppRef securityToken =
     (if length blts \<noteq> 0 then authenticator_loop matchingRules blts remoteAppRef securityToken
      else Some (ACSE_USER_OK, None))"

section \<open>Configured tables\<close>

text \<open>The calls that configure a table, and the rights they grant.\<close>

datatype blt_op =
    AddDataPoint point bool bool
  | AddControlPoint point u16 bool bool bool bool
  | AddInformationMessage u32 u32 bool

fun run_op :: "blt_op \<Rightarrow> BilateralTable \<Rightarrow> BilateralTable option" where
  "run_op (AddDataPoint p re wt) self = Tase2_BilateralTable_addDataPoint self p re wt"
| "run_op (AddControlPoint p cbid st gt oper re) self =
     Tase2_BilateralTable_addControlPoint self p cbid st gt oper re"
| "run_op (AddInformationMessage i l vcc) self = Some (Tase2_BilateralTable_addInformationMessage self i l vcc)"

datatype access_right = Read | Write | SetTag | GetTag | Operate

fun right_bit :: "access_right \<Rightarrow> nat" where
  "right_bit Read = 0"
| "right_bit Write = 1"
| "right_bit SetTag = 2"
| "right_bit GetTag = 3"
| "right_bit Operate = 4"

definition rights_mask :: "access_right list \<Rightarrow> nat" where
  "rights_mask rs = foldr (\<lambda>r m. push_bit (right_bit r) 1 OR m) rs 0"

definition data_rights :: "bool \<Rightarrow> bool \<Rightarrow> access_right set" where
  "data_rights re wt = {r. r = Read \<and> re \<or> r = Write \<and> wt}"

definition control_rights :: "bool \<Rightarrow> bool \<Rightarrow> bool \<Rightarrow> bool \<Rightarrow> access_right set" where
  "control_rights st gt oper re =
     {r. r = SetTag \<and> st \<or> r = GetTag \<and> gt \<or> r = Operate \<and> oper \<or> r = Read \<and> re}"

lemma rights_mask_flags:
  "rights_mask [Read] = BLT_ACCESS_ALLOW_READ" "rights_mask [Write] = BLT_ACCESS_ALLOW_WRITE"
  "rights_mask [SetTag] = BLT_ACCESS_ALLOW_SET_TAG" "rights_mask [GetTag] = BLT_ACCESS_ALLOW_GET_TAG"
  "rights_mask [Operate] = BLT_ACCESS_ALLOW_OPERATE"
  by (simp_all add: rights_mask_def access_flags push_bit_eq_mult)

lemma bit_rights_mask: "bit (rights_mask rs) i \<longleftrightarrow> (\<exists>r \<in> set rs. right_bit r = i)"
proof (induction rs)
  case (Cons r rs)
  have "bit (rights_mask (r # rs)) i \<longleftrightarrow> right_bit r = i \<or> bit (rights_mask rs) i"
    by (auto simp: rights_mask_def bit_or_iff bit_exp_iff)
  then show ?case using Cons.IH by auto
qed (simp add: rights_mask_def)

lemma mask_all: "n AND rights_mask rs = rights_mask rs \<longleftrightarrow> (\<forall>r \<in> set rs. bit n (right_bit r))"
proof -
  have "n AND rights_mask rs = rights_mask rs \<longleftrightarrow> (\<forall>i. bit (rights_mask rs) i \<longrightarrow> bit n i)"
    by (subst bit_eq_iff) (auto simp: bit_and_iff)
  then show ?thesis by (auto simp: bit_rights_mask)
qed

lemma mask_any: "n AND rights_mask rs \<noteq> 0 \<longleftrightarrow> (\<exists>r \<in> set rs. bit n (right_bit r))"
proof -
  have "n AND rights_mask rs \<noteq> 0 \<longleftrightarrow> (\<exists>i. bit (n AND rights_mask rs) i)"
    by (auto simp: bit_eq_iff)
  then show ?thesis by (auto simp: bit_and_iff bit_rights_mask)
qed

lemma bit_data_flags: "bit (unat (dataPoint_flags re wt)) (right_bit r) \<longleftrightarrow> r \<in> data_rights re wt"
  by (cases r; cases re; cases wt)
    (simp_all add: dataPoint_flags_def data_rights_def flag_if_def access_flags bit_iff_odd)

lemma bit_control_flags:
  "bit (unat (controlPoint_flags st gt oper re)) (right_bit r) \<longleftrightarrow> r \<in> control_rights st gt oper re"
  by (cases r; cases st; cases gt; cases oper; cases re)
    (simp_all add: controlPoint_flags_def control_rights_def flag_if_def access_flags bit_iff_odd)

text \<open>The entries the calls put into the two trees and the list.\<close>

fun data_entries :: "blt_op list \<Rightarrow> (point \<times> BLT_Entry) list" where
  "data_entries [] = []"
| "data_entries (AddDataPoint p re wt # ops) =
     (p, \<lparr>ble_dataPoint = p, ble_accessFlags = dataPoint_flags re wt, ble_checkBackId = None\<rparr>) # data_entries ops"
| "data_entries (_ # ops) = data_entries ops"

fun control_entries :: "blt_op list \<Rightarrow> (point \<times> BLT_Entry) list" where
  "control_entries [] = []"
| "control_entries (AddControlPoint p cbid st gt oper re # ops) =
     (p, \<lparr>ble_dataPoint = p, ble_accessFlags = controlPoint_flags st gt oper re,
          ble_checkBackId = Some cbid\<rparr>) # control_entries ops"
| "control_entries (_ # ops) = control_entries ops"

fun message_entries :: "blt_op list \<Rightarrow> BLT_InfoMessageEntry list" where
  "message_entries [] = []"
| "message_entries (AddInformationMessage i l vcc # ops) =
     \<lparr>bim_infoRef = i, bim_localRef = l, bim_vccScope = vcc\<rparr> # message_entries ops"
| "message_entries (_ # ops) = message_entries ops"

lemma set_data_entries:
  "(p, e) \<in> set (data_entries ops) \<longleftrightarrow> (\<exists>re wt. AddDataPoint p re wt \<in> set ops \<and>
     e = \<lparr>ble_dataPoint = p, ble_accessFlags = dataPoint_flags re wt, ble_checkBackId = None\<rparr>)"
  by (induction ops rule: data_entries.induct) auto

lemma set_control_entries:
  "(p, e) \<in> set (control_entries ops) \<longleftrightarrow> (\<exists>cbid st gt oper re. AddControlPoint p cbid st gt oper re \<in> set ops \<and>
     e = \<lparr>ble_dataPoint = p, ble_accessFlags = controlPoint_flags st gt oper re, ble_checkBackId = Some cbid\<rparr>)"
proof (induction ops)
  case (Cons op ops)
  then show ?case by (cases op; simp; blast)
qed simp

lemma set_message_entries:
  "m \<in> set (message_entries ops) \<longleftrightarrow>
     AddInformationMessage (bim_infoRef m) (bim_localRef m) (bim_vccScope m) \<in> set ops"
  by (induction ops rule: message_entries.induct) auto

lemma add_entry_eq: "add_entry t e = AvlTree_add kp t (ble_dataPoint e) (Some e)"
  by (simp add: add_entry_def AvlTree_add_def AvlTreeNode_create_def)

lemma run_ops:
  "for_each (data_entries ops) (\<lambda>(k, v) t. AvlTree_add kp t k (Some v)) (blt_dataPoints self) = Some t \<Longrightarrow>
   for_each (control_entries ops) (\<lambda>(k, v) t. AvlTree_add kp t k (Some v)) (blt_controlPoints self) = Some u \<Longrightarrow>
   for_each ops run_op self = Some (self\<lparr>blt_dataPoints := t, blt_controlPoints := u,
     blt_informationMessages := blt_informationMessages self @ message_entries ops\<rparr>)"
proof (induction ops arbitrary: self)
  case (Cons op ops)
  show ?case
  proof (cases op)
    case (AddDataPoint p re wt)
    let ?e = "\<lparr>ble_dataPoint = p, ble_accessFlags = dataPoint_flags re wt, ble_checkBackId = None\<rparr>"
    obtain t1 where "add_entry (blt_dataPoints self) ?e = Some t1"
      "for_each (data_entries ops) (\<lambda>(k, v) t. AvlTree_add kp t k (Some v)) t1 = Some t"
      using Cons.prems(1) AddDataPoint by (auto simp: add_entry_eq [of _ _ kp] split: Option.bind_splits)
    then show ?thesis
      using Cons.IH [of "self\<lparr>blt_dataPoints := t1\<rparr>"] Cons.prems(2) AddDataPoint
      by (simp add: Tase2_BilateralTable_addDataPoint_def appendEntryToDataPointList_def)
  next
    case (AddControlPoint p cbid st gt oper re)
    let ?e = "\<lparr>ble_dataPoint = p, ble_accessFlags = controlPoint_flags st gt oper re, ble_checkBackId = Some cbid\<rparr>"
    obtain u1 where "add_entry (blt_controlPoints self) ?e = Some u1"
      "for_each (control_entries ops) (\<lambda>(k, v) t. AvlTree_add kp t k (Some v)) u1 = Some u"
      using Cons.prems(2) AddControlPoint by (auto simp: add_entry_eq [of _ _ kp] split: Option.bind_splits)
    then show ?thesis
      using Cons.IH [of "self\<lparr>blt_controlPoints := u1\<rparr>"] Cons.prems(1) AddControlPoint
      by (simp add: Tase2_BilateralTable_addControlPoint_def appendEntryToControlPointList_def)
  next
    case (AddInformationMessage i l vcc)
    then show ?thesis
      using Cons.IH [of "run_message self"] Cons.prems
        Cons.IH [of "Tase2_BilateralTable_addInformationMessage self i l vcc"]
      by (simp add: Tase2_BilateralTable_addInformationMessage_def appendEntryToInformationMessageList_def)
  qed
qed simp

definition distinct_points :: "blt_op list \<Rightarrow> bool" where
  "distinct_points ops \<longleftrightarrow> distinct (map fst (data_entries ops)) \<and> distinct (map fst (control_entries ops))"

lemma configured:
  assumes "Tase2_BilateralTable_create bltId d apTitle q ids = Some (blt0, ids')" "distinct_points ops"
  obtains blt where "for_each ops run_op blt0 = Some blt" "blt_domain blt = d"
    "AvlTree_find (blt_dataPoints blt) = map_of (data_entries ops)"
    "AvlTree_find (blt_controlPoints blt) = map_of (control_entries ops)"
    "blt_informationMessages blt = message_entries ops"
proof -
  let ?kp = "\<lambda>_ :: point. undefined :: BLT_Entry"
  obtain t where t: "for_each (data_entries ops) (\<lambda>(k, v) t. AvlTree_add ?kp t k (Some v)) AvlTree_create = Some t"
    "AvlTree_find t = map_of (data_entries ops)"
    using avl.fill_empty [of "data_entries ops"] assms(2) by (auto simp: distinct_points_def)
  obtain u where u: "for_each (control_entries ops) (\<lambda>(k, v) t. AvlTree_add ?kp t k (Some v)) AvlTree_create = Some u"
    "AvlTree_find u = map_of (control_entries ops)"
    using avl.fill_empty [of "control_entries ops"] assms(2) by (auto simp: distinct_points_def)
  have "blt_dataPoints blt0 = AvlTree_create" "blt_controlPoints blt0 = AvlTree_create"
    "blt_informationMessages blt0 = []" "blt_domain blt0 = d"
    using assms(1) by (auto simp: Tase2_BilateralTable_create_def Let_def split: Option.bind_splits)
  then show thesis using that run_ops [of ops ?kp blt0 t u] t u by simp
qed

lemma lookup_control:
  assumes "distinct_points ops" "AddControlPoint p cbid st gt oper re \<in> set ops"
  shows "map_of (control_entries ops) p = Some \<lparr>ble_dataPoint = p,
    ble_accessFlags = controlPoint_flags st gt oper re, ble_checkBackId = Some cbid\<rparr>"
  using assms set_control_entries [of p _ ops] unfolding distinct_points_def
  by (intro map_of_is_SomeI) blast+

text \<open>The rights after a sequence of add calls.\<close>

lemma access_rights:
  assumes "Tase2_BilateralTable_create bltId d apTitle q ids = Some (blt0, ids')" "distinct_points ops"
  shows "\<exists>blt. for_each ops run_op blt0 = Some blt \<and>
    (\<forall>c p rs. BilateralTable_checkDataPointAccess blt c p (rights_mask rs) =
      (c = d \<or> (\<exists>re wt. AddDataPoint p re wt \<in> set ops \<and> set rs \<inter> data_rights re wt \<noteq> {}) \<or>
       (\<exists>cbid st gt oper re. AddControlPoint p cbid st gt oper re \<in> set ops \<and>
          set rs \<inter> control_rights st gt oper re \<noteq> {}))) \<and>
    (\<forall>c p rs. BilateralTable_checkControlPointAccess blt c p (rights_mask rs) =
      (c = d \<or> (\<exists>cbid st gt oper re. AddControlPoint p cbid st gt oper re \<in> set ops \<and>
          set rs \<subseteq> control_rights st gt oper re))) \<and>
    (\<forall>p i. BilateralTable_getCheckBackId blt p = Some i \<longleftrightarrow>
      (\<exists>st gt oper re. AddControlPoint p i st gt oper re \<in> set ops) \<or>
      (\<forall>cbid st gt oper re. AddControlPoint p cbid st gt oper re \<notin> set ops) \<and> i = - 1)"
proof -
  obtain blt where blt: "for_each ops run_op blt0 = Some blt" "blt_domain blt = d"
    "AvlTree_find (blt_dataPoints blt) = map_of (data_entries ops)"
    "AvlTree_find (blt_controlPoints blt) = map_of (control_entries ops)"
    using configured [OF assms] by metis
  have D: "map_of (data_entries ops) p = Some e \<longleftrightarrow> (\<exists>re wt. AddDataPoint p re wt \<in> set ops \<and>
      e = \<lparr>ble_dataPoint = p, ble_accessFlags = dataPoint_flags re wt, ble_checkBackId = None\<rparr>)" for p e
    using assms(2) by (simp add: distinct_points_def set_data_entries)
  have C: "map_of (control_entries ops) p = Some e \<longleftrightarrow>
      (\<exists>cbid st gt oper re. AddControlPoint p cbid st gt oper re \<in> set ops \<and>
      e = \<lparr>ble_dataPoint = p, ble_accessFlags = controlPoint_flags st gt oper re, ble_checkBackId = Some cbid\<rparr>)" for p e
    using assms(2) by (simp add: distinct_points_def set_control_entries)
  have find_D: "(case map_of (data_entries ops) p of Some e \<Rightarrow> P (ble_accessFlags e) | None \<Rightarrow> False) \<longleftrightarrow>
      (\<exists>re wt. AddDataPoint p re wt \<in> set ops \<and> P (dataPoint_flags re wt))" for p P
  proof -
    have "?thesis \<longleftrightarrow> (\<exists>e. map_of (data_entries ops) p = Some e \<and> P (ble_accessFlags e)) =
        (\<exists>re wt. AddDataPoint p re wt \<in> set ops \<and> P (dataPoint_flags re wt))"
      by (cases "map_of (data_entries ops) p") auto
    then show ?thesis unfolding D by (metis BLT_Entry.select_convs(2))
  qed
  have find_C: "(case map_of (control_entries ops) p of Some e \<Rightarrow> P (ble_accessFlags e) | None \<Rightarrow> False) \<longleftrightarrow>
      (\<exists>cbid st gt oper re. AddControlPoint p cbid st gt oper re \<in> set ops \<and>
         P (controlPoint_flags st gt oper re))" for p P
  proof -
    have "?thesis \<longleftrightarrow> (\<exists>e. map_of (control_entries ops) p = Some e \<and> P (ble_accessFlags e)) =
        (\<exists>cbid st gt oper re. AddControlPoint p cbid st gt oper re \<in> set ops \<and>
           P (controlPoint_flags st gt oper re))"
      by (cases "map_of (control_entries ops) p") auto
    then show ?thesis unfolding C by (metis BLT_Entry.select_convs(2))
  qed
  have "BilateralTable_checkDataPointAccess blt c p (rights_mask rs) =
      (c = d \<or> (\<exists>re wt. AddDataPoint p re wt \<in> set ops \<and> set rs \<inter> data_rights re wt \<noteq> {}) \<or>
       (\<exists>cbid st gt oper re. AddControlPoint p cbid st gt oper re \<in> set ops \<and>
          set rs \<inter> control_rights st gt oper re \<noteq> {}))" for c p rs
    unfolding BilateralTable_checkDataPointAccess_def blt Let_def
      find_D [of "\<lambda>f. unat f AND rights_mask rs \<noteq> 0" p] find_C [of "\<lambda>f. unat f AND rights_mask rs \<noteq> 0" p]
    unfolding mask_any bit_data_flags bit_control_flags by (simp add: Bex_def disjoint_iff) blast
  moreover have "BilateralTable_checkControlPointAccess blt c p (rights_mask rs) =
      (c = d \<or> (\<exists>cbid st gt oper re. AddControlPoint p cbid st gt oper re \<in> set ops \<and>
          set rs \<subseteq> control_rights st gt oper re))" for c p rs
    unfolding BilateralTable_checkControlPointAccess_def blt
      find_C [of "\<lambda>f. unat f AND rights_mask rs = rights_mask rs" p]
    unfolding mask_all bit_control_flags by (simp add: subset_iff Ball_def)
  moreover have "BilateralTable_getCheckBackId blt p = Some i \<longleftrightarrow>
      (\<exists>st gt oper re. AddControlPoint p i st gt oper re \<in> set ops) \<or>
      (\<forall>cbid st gt oper re. AddControlPoint p cbid st gt oper re \<notin> set ops) \<and> i = - 1" for p i
  proof (cases "map_of (control_entries ops) p")
    case None
    then have "AddControlPoint p cbid st gt oper re \<notin> set ops" for cbid st gt oper re
      using lookup_control [OF assms(2), of p] by (metis option.distinct(1))
    then show ?thesis using None unfolding BilateralTable_getCheckBackId_def blt by auto
  next
    case (Some e)
    obtain cbid st gt oper re where e: "AddControlPoint p cbid st gt oper re \<in> set ops"
      "ble_checkBackId e = Some cbid" using Some C by (metis BLT_Entry.select_convs(3))
    have "cbid' = cbid" if "AddControlPoint p cbid' st' gt' oper' re' \<in> set ops" for cbid' st' gt' oper' re'
      using lookup_control [OF assms(2) that] Some e(2) by simp
    then have "(\<exists>st gt oper re. AddControlPoint p i st gt oper re \<in> set ops) \<longleftrightarrow> i = cbid"
      using e(1) by blast
    moreover have "\<not> (\<forall>cbid st gt oper re. AddControlPoint p cbid st gt oper re \<notin> set ops)" using e(1) by blast
    moreover have "BilateralTable_getCheckBackId blt p = Some cbid"
      using Some e(2) by (simp add: BilateralTable_getCheckBackId_def blt)
    ultimately show ?thesis by (metis option.inject)
  qed
  ultimately show ?thesis using blt(1) by auto
qed

text \<open>
  C9: A bilateral table grants exactly what it was configured with: after any sequence of
  add calls with distinct points, a data-point check succeeds for the table's own domain or
  when one of the wanted rights was granted for the point as a data or control point; a
  control-point check when all wanted rights were granted for it as a control point; and the
  check-back id is the configured one, -1 for an unknown control.
\<close>

theorem BLT_access_rights:
  assumes "Tase2_BilateralTable_create bltId d apTitle q ids = Some (blt0, ids')" "distinct_points ops"
  shows "\<exists>blt. for_each ops run_op blt0 = Some blt \<and>
    (\<forall>c p rs. BilateralTable_checkDataPointAccess blt c p (rights_mask rs) =
      (c = d \<or> (\<exists>re wt. AddDataPoint p re wt \<in> set ops \<and> set rs \<inter> data_rights re wt \<noteq> {}) \<or>
       (\<exists>cbid st gt oper re. AddControlPoint p cbid st gt oper re \<in> set ops \<and>
          set rs \<inter> control_rights st gt oper re \<noteq> {}))) \<and>
    (\<forall>c p rs. BilateralTable_checkControlPointAccess blt c p (rights_mask rs) =
      (c = d \<or> (\<exists>cbid st gt oper re. AddControlPoint p cbid st gt oper re \<in> set ops \<and>
          set rs \<subseteq> control_rights st gt oper re))) \<and>
    (\<forall>p i. BilateralTable_getCheckBackId blt p = Some i \<longleftrightarrow>
      (\<exists>st gt oper re. AddControlPoint p i st gt oper re \<in> set ops) \<or>
      (\<forall>cbid st gt oper re. AddControlPoint p cbid st gt oper re \<notin> set ops) \<and> i = - 1)"
  by (rule access_rights [OF assms])


definition sample_ops :: "blt_op list" where
  "sample_ops = [AddDataPoint 10 True False, AddControlPoint 20 7 False True True True,
     AddInformationMessage 1 2 True, AddInformationMessage 3 4 False]"

lemma sample_table:
  "\<exists>blt ids'. Tase2_BilateralTable_create [66] (Some 1) [49, 46, 49, 46, 57] 12 (\<lambda>_. None) = Some (blt, ids')"
proof -
  have "convertApTitleString [49, 46, 49, 46, 57] empty_oid =
      Some \<lparr>oid_arc = [1, 1, 9, 0, 0, 0, 0, 0, 0, 0], oid_arcCount = 3\<rparr>"
    by code_simp
  then show ?thesis
    by (simp add: Tase2_BilateralTable_create_def ItuObjectIdentifier_setFromString_def zero_address_def)
qed

lemma sample_ops_distinct: "distinct_points sample_ops"
  by (simp add: distinct_points_def sample_ops_def)

theorem BLT_access_rights_witness:
  "\<exists>blt0 ids' blt. Tase2_BilateralTable_create [66] (Some 1) [49, 46, 49, 46, 57] 12 (\<lambda>_. None) = Some (blt0, ids') \<and>
     for_each sample_ops run_op blt0 = Some blt \<and>
     BilateralTable_checkDataPointAccess blt (Some 2) 10 BLT_ACCESS_ALLOW_READ \<and>
     \<not> BilateralTable_checkDataPointAccess blt (Some 2) 10 BLT_ACCESS_ALLOW_WRITE \<and>
     BilateralTable_checkControlPointAccess blt (Some 2) 20 BLT_ACCESS_ALLOW_OPERATE \<and>
     \<not> BilateralTable_checkControlPointAccess blt (Some 2) 20 BLT_ACCESS_ALLOW_SET_TAG \<and>
     BilateralTable_getCheckBackId blt 20 = Some 7"
proof -
  obtain blt0 ids' where c: "Tase2_BilateralTable_create [66] (Some 1) [49, 46, 49, 46, 57] 12 (\<lambda>_. None) = Some (blt0, ids')"
    using sample_table by blast
  from BLT_access_rights [OF c sample_ops_distinct] obtain blt where
    b: "for_each sample_ops run_op blt0 = Some blt"
    "\<forall>c p rs. BilateralTable_checkDataPointAccess blt c p (rights_mask rs) =
      (c = Some 1 \<or> (\<exists>re wt. AddDataPoint p re wt \<in> set sample_ops \<and> set rs \<inter> data_rights re wt \<noteq> {}) \<or>
       (\<exists>cbid st gt oper re. AddControlPoint p cbid st gt oper re \<in> set sample_ops \<and>
          set rs \<inter> control_rights st gt oper re \<noteq> {}))"
    "\<forall>c p rs. BilateralTable_checkControlPointAccess blt c p (rights_mask rs) =
      (c = Some 1 \<or> (\<exists>cbid st gt oper re. AddControlPoint p cbid st gt oper re \<in> set sample_ops \<and>
          set rs \<subseteq> control_rights st gt oper re))"
    "\<forall>p i. BilateralTable_getCheckBackId blt p = Some i \<longleftrightarrow>
      (\<exists>st gt oper re. AddControlPoint p i st gt oper re \<in> set sample_ops) \<or>
      (\<forall>cbid st gt oper re. AddControlPoint p cbid st gt oper re \<notin> set sample_ops) \<and> i = - 1"
    by (elim exE conjE) (rule that)
  have "BilateralTable_checkDataPointAccess blt (Some 2) 10 BLT_ACCESS_ALLOW_READ"
    using b(2) [rule_format, of "Some 2" 10 "[Read]"]
    by (simp add: rights_mask_flags sample_ops_def ex_bool_eq data_rights_def control_rights_def)
  moreover have "\<not> BilateralTable_checkDataPointAccess blt (Some 2) 10 BLT_ACCESS_ALLOW_WRITE"
    using b(2) [rule_format, of "Some 2" 10 "[Write]"]
    by (simp add: rights_mask_flags sample_ops_def ex_bool_eq data_rights_def control_rights_def)
  moreover have "BilateralTable_checkControlPointAccess blt (Some 2) 20 BLT_ACCESS_ALLOW_OPERATE"
    using b(3) [rule_format, of "Some 2" 20 "[Operate]"]
    by (simp add: rights_mask_flags sample_ops_def ex_bool_eq control_rights_def)
  moreover have "\<not> BilateralTable_checkControlPointAccess blt (Some 2) 20 BLT_ACCESS_ALLOW_SET_TAG"
    using b(3) [rule_format, of "Some 2" 20 "[SetTag]"]
    by (simp add: rights_mask_flags sample_ops_def ex_bool_eq control_rights_def)
  moreover have "BilateralTable_getCheckBackId blt 20 = Some 7"
    using b(4) [rule_format, of 20 7] by (simp add: sample_ops_def ex_bool_eq)
  ultimately show ?thesis using c b(1) by blast
qed

text \<open>
  Information messages: after any sequence of add calls with distinct points, the check
  succeeds for the table's own domain, and without a domain (VCC) for a reference pair added
  with VCC scope; for every other domain, and so for every ICC-scope entry, it fails.
\<close>

theorem BLT_information_messages:
  assumes "Tase2_BilateralTable_create bltId d apTitle q ids = Some (blt0, ids')" "distinct_points ops"
  shows "\<exists>blt. for_each ops run_op blt0 = Some blt \<and>
    (\<forall>c i l. BilateralTable_checkInformationMessageAccess blt c i l =
      (c = d \<or> c = None \<and> AddInformationMessage i l True \<in> set ops))"
proof -
  obtain blt where blt: "for_each ops run_op blt0 = Some blt" "blt_domain blt = d"
    "blt_informationMessages blt = message_entries ops"
    using configured [OF assms] by metis
  have "BilateralTable_checkInformationMessageAccess blt c i l =
      (c = d \<or> c = None \<and> AddInformationMessage i l True \<in> set ops)" for c i l
  proof (cases "c = d")
    case False
    have "list_ex (\<lambda>entry. bim_vccScope entry \<and> bim_infoRef entry = i \<and> bim_localRef entry = l) (message_entries ops)
        \<longleftrightarrow> AddInformationMessage i l True \<in> set ops"
    proof
      assume "list_ex (\<lambda>entry. bim_vccScope entry \<and> bim_infoRef entry = i \<and> bim_localRef entry = l) (message_entries ops)"
      then show "AddInformationMessage i l True \<in> set ops" by (auto simp: list_ex_iff set_message_entries)
    next
      assume "AddInformationMessage i l True \<in> set ops"
      then have "\<lparr>bim_infoRef = i, bim_localRef = l, bim_vccScope = True\<rparr> \<in> set (message_entries ops)"
        by (simp add: set_message_entries)
      then show "list_ex (\<lambda>entry. bim_vccScope entry \<and> bim_infoRef entry = i \<and> bim_localRef entry = l) (message_entries ops)"
        by (force simp: list_ex_iff)
    qed
    then show ?thesis using False
      by (cases c) (auto simp: BilateralTable_checkInformationMessageAccess_def blt list_ex_iff)
  qed (simp add: BilateralTable_checkInformationMessageAccess_def blt)
  then show ?thesis using blt(1) by blast
qed

theorem BLT_information_messages_witness:
  "\<exists>blt0 ids' blt. Tase2_BilateralTable_create [66] (Some 1) [49, 46, 49, 46, 57] 12 (\<lambda>_. None) = Some (blt0, ids') \<and>
     for_each sample_ops run_op blt0 = Some blt \<and>
     BilateralTable_checkInformationMessageAccess blt None 1 2 \<and>
     \<not> BilateralTable_checkInformationMessageAccess blt None 3 4"
proof -
  obtain blt0 ids' where c: "Tase2_BilateralTable_create [66] (Some 1) [49, 46, 49, 46, 57] 12 (\<lambda>_. None) = Some (blt0, ids')"
    using sample_table by blast
  from BLT_information_messages [OF c sample_ops_distinct] show ?thesis
    using c by (auto simp: sample_ops_def)
qed

section \<open>The table of an association\<close>

lemma same_arcs_prefix:
  "n \<le> length a \<Longrightarrow> n \<le> length b \<Longrightarrow> set is \<subseteq> {..<n} \<Longrightarrow>
   same_arcs is a b = Some (\<forall>i \<in> set is. a ! i = b ! i)"
  by (induction "is") (auto simp: rd_def)

text \<open>Addresses whose arrays have their declared sizes.\<close>

definition selector_ok :: "Selector \<Rightarrow> bool" where
  "selector_ok s \<longleftrightarrow> length (sel_value s) = 16 \<and> sel_size s \<le> 16"

definition address_ok :: "IsoApplicationAddress \<Rightarrow> bool" where
  "address_ok a \<longleftrightarrow> length (oid_arc (iaa_apTitle a)) = 10 \<and> oid_arcCount (iaa_apTitle a) \<le> 10 \<and>
     selector_ok (iaa_pSelector a) \<and> selector_ok (iaa_sSelector a) \<and> selector_ok (iaa_tSelector a)"

definition oid_arcs :: "ItuObjectIdentifier \<Rightarrow> u16 list" where
  "oid_arcs t = take (oid_arcCount t) (oid_arc t)"

definition selector :: "Selector \<Rightarrow> u8 list" where
  "selector s = take (sel_size s) (sel_value s)"

lemma same_selector_eq:
  "selector_ok s1 \<Longrightarrow> selector_ok s2 \<Longrightarrow> same_selector s1 s2 = Some (selector s1 = selector s2)"
proof (cases "sel_size s1 = sel_size s2")
  case False
  assume "selector_ok s1" "selector_ok s2"
  then have "length (selector s1) \<noteq> length (selector s2)" using False by (simp add: selector_ok_def selector_def)
  then show ?thesis using False by (auto simp: same_selector_def)
qed (simp add: same_selector_def selector_ok_def selector_def)

lemma same_apTitle_eq:
  assumes "length (oid_arc t1) = 10" "oid_arcCount t1 \<le> 10" "length (oid_arc t2) = 10" "oid_arcCount t2 \<le> 10"
  shows "(if oid_arcCount t1 = oid_arcCount t2
        then same_arcs [0..<oid_arcCount t1] (oid_arc t1) (oid_arc t2) else Some False) =
    Some (oid_arcs t1 = oid_arcs t2)"
proof (cases "oid_arcCount t1 = oid_arcCount t2")
  case True
  have "same_arcs [0..<oid_arcCount t1] (oid_arc t1) (oid_arc t2) =
      Some (\<forall>i \<in> set [0..<oid_arcCount t1]. oid_arc t1 ! i = oid_arc t2 ! i)"
    using assms True by (intro same_arcs_prefix [of "oid_arcCount t1"]) auto
  also have "(\<forall>i \<in> set [0..<oid_arcCount t1]. oid_arc t1 ! i = oid_arc t2 ! i) \<longleftrightarrow> oid_arcs t1 = oid_arcs t2"
    using assms True by (auto simp: oid_arcs_def list_eq_iff_nth_eq)
  finally show ?thesis using True by simp
next
  case False
  then have "length (oid_arcs t1) \<noteq> length (oid_arcs t2)" using assms by (simp add: oid_arcs_def)
  then show ?thesis using False by auto
qed

text \<open>The five rules as booleans; what an address shows of itself under them.\<close>

lemma rule_bits:
  "Tase2_Endpoint_setAddressMatchingRules a b c d e AND MATCH_AP_TITLE \<noteq> 0 \<longleftrightarrow> a"
  "Tase2_Endpoint_setAddressMatchingRules a b c d e AND MATCH_AE_QUALIFIER \<noteq> 0 \<longleftrightarrow> b"
  "Tase2_Endpoint_setAddressMatchingRules a b c d e AND MATCH_P_SEL \<noteq> 0 \<longleftrightarrow> c"
  "Tase2_Endpoint_setAddressMatchingRules a b c d e AND MATCH_S_SEL \<noteq> 0 \<longleftrightarrow> d"
  "Tase2_Endpoint_setAddressMatchingRules a b c d e AND MATCH_T_SEL \<noteq> 0 \<longleftrightarrow> e"
  by (cases a; cases b; cases c; cases d; cases e;
      simp add: Tase2_Endpoint_setAddressMatchingRules_def match_rules)+

definition addresses_match ::
    "bool \<Rightarrow> bool \<Rightarrow> bool \<Rightarrow> bool \<Rightarrow> bool \<Rightarrow> IsoApplicationAddress \<Rightarrow> IsoApplicationAddress \<Rightarrow> bool" where
  "addresses_match a b c d e x y \<longleftrightarrow>
     (a \<longrightarrow> oid_arcs (iaa_apTitle x) = oid_arcs (iaa_apTitle y)) \<and>
     (b \<longrightarrow> iaa_aeQualifier x = iaa_aeQualifier y) \<and>
     (c \<longrightarrow> selector (iaa_pSelector x) = selector (iaa_pSelector y)) \<and>
     (d \<longrightarrow> selector (iaa_sSelector x) = selector (iaa_sSelector y)) \<and>
     (e \<longrightarrow> selector (iaa_tSelector x) = selector (iaa_tSelector y))"

lemma matchAddresses_eq:
  assumes "address_ok x" "address_ok y"
  shows "Tase2_Endpoint_matchAddresses (Tase2_Endpoint_setAddressMatchingRules a b c d e) x y =
    Some (addresses_match a b c d e x y)"
  using assms
  by (simp add: Tase2_Endpoint_matchAddresses_def when_rule_def rule_bits Let_def address_ok_def
      same_apTitle_eq same_selector_eq addresses_match_def)

text \<open>
  C30: An association gets the first bilateral table whose application address matches the
  caller's under the endpoint's rules; without a match it is refused, and without any table it
  is accepted with no table at all, that is with unrestricted access.
\<close>

theorem authenticator_first_match:
  assumes "address_ok remote" "\<forall>blt \<in> set blts. address_ok (blt_appAddr blt)"
  shows "Tase2_Server_authenticator (Tase2_Endpoint_setAddressMatchingRules a b c d e) blts remote token =
    Some (if blts = [] then (ACSE_USER_OK, None)
          else case find (\<lambda>blt. addresses_match a b c d e remote (blt_appAddr blt)) blts of
            Some blt \<Rightarrow> (ACSE_USER_OK, Some blt)
          | None \<Rightarrow> (ACSE_USER_CALLING_AP_TITLE_NOT_RECOGNIZED, token))"
proof -
  have "authenticator_loop (Tase2_Endpoint_setAddressMatchingRules a b c d e) blts remote token =
    Some (case find (\<lambda>blt. addresses_match a b c d e remote (blt_appAddr blt)) blts of
            Some blt \<Rightarrow> (ACSE_USER_OK, Some blt)
          | None \<Rightarrow> (ACSE_USER_CALLING_AP_TITLE_NOT_RECOGNIZED, token))"
    using assms by (induction blts) (simp_all add: matchAddresses_eq)
  then show ?thesis by (simp add: Tase2_Server_authenticator_def)
qed

definition sample_blt :: "u32 \<Rightarrow> BilateralTable" where
  "sample_blt q = \<lparr>blt_bltId = [66], blt_appAddr = zero_address\<lparr>iaa_aeQualifier := q\<rparr>, blt_domain = None,
     blt_dataPoints = NullNode, blt_controlPoints = NullNode, blt_informationMessages = []\<rparr>"

theorem authenticator_first_match_witness:
  "Tase2_Server_authenticator (Tase2_Endpoint_setAddressMatchingRules True True False False False)
     [sample_blt 12, sample_blt 13] (zero_address\<lparr>iaa_aeQualifier := 13\<rparr>) None = Some (ACSE_USER_OK, Some (sample_blt 13)) \<and>
   Tase2_Server_authenticator (Tase2_Endpoint_setAddressMatchingRules True True False False False)
     [sample_blt 12, sample_blt 13] (zero_address\<lparr>iaa_aeQualifier := 14\<rparr>) None =
       Some (ACSE_USER_CALLING_AP_TITLE_NOT_RECOGNIZED, None)"
proof -
  have ok: "address_ok (zero_address\<lparr>iaa_aeQualifier := q\<rparr>)" for q
    by (simp add: address_ok_def zero_address_def selector_ok_def empty_oid_def)
  then have "\<forall>blt \<in> set [sample_blt 12, sample_blt 13]. address_ok (blt_appAddr blt)"
    by (simp add: sample_blt_def)
  from authenticator_first_match [OF ok this] show ?thesis
    by (simp add: addresses_match_def sample_blt_def)
qed

end
