(* ===== verification/ControlPoint.thy ===== *)
theory ControlPoint
  imports MmsValue_Laws BilateralTable
begin

text \<open>
  Supervisory control: select, operate and tag of a control point
  (\<^verbatim>\<open>tase2_server.c\<close>, with the constructor and the local tag functions of \<^verbatim>\<open>tase2_model.c\<close>).

  A control point is the record of the fields these functions use; its values are those the
  server attaches (\<open>createControlPointVariables\<close>). The application's handlers are functions
  of what they are given, and every call of one is recorded in the list of effects an operation
  returns, next to the trigger of the transfer sets; handlers do not change the control point.
  The clock is an argument. Connections and bilateral tables are addresses.
\<close>

section \<open>Data\<close>

type_synonym MmsDataAccessError = int

definition DATA_ACCESS_ERROR_SUCCESS :: MmsDataAccessError where "DATA_ACCESS_ERROR_SUCCESS = - 1"
definition DATA_ACCESS_ERROR_TEMPORARILY_UNAVAILABLE :: MmsDataAccessError where
  "DATA_ACCESS_ERROR_TEMPORARILY_UNAVAILABLE = 2"
definition DATA_ACCESS_ERROR_OBJECT_ACCESS_DENIED :: MmsDataAccessError where
  "DATA_ACCESS_ERROR_OBJECT_ACCESS_DENIED = 3"
definition DATA_ACCESS_ERROR_OBJECT_ATTRIBUTE_INCONSISTENT :: MmsDataAccessError where
  "DATA_ACCESS_ERROR_OBJECT_ATTRIBUTE_INCONSISTENT = 8"
definition DATA_ACCESS_ERROR_OBJECT_ACCESS_UNSUPPORTED :: MmsDataAccessError where
  "DATA_ACCESS_ERROR_OBJECT_ACCESS_UNSUPPORTED = 9"
definition DATA_ACCESS_ERROR_OBJECT_NONE_EXISTENT :: MmsDataAccessError where
  "DATA_ACCESS_ERROR_OBJECT_NONE_EXISTENT = 10"
definition DATA_ACCESS_ERROR_OBJECT_VALUE_INVALID :: MmsDataAccessError where
  "DATA_ACCESS_ERROR_OBJECT_VALUE_INVALID = 11"

lemmas access_errors = DATA_ACCESS_ERROR_SUCCESS_def DATA_ACCESS_ERROR_TEMPORARILY_UNAVAILABLE_def
  DATA_ACCESS_ERROR_OBJECT_ACCESS_DENIED_def DATA_ACCESS_ERROR_OBJECT_ATTRIBUTE_INCONSISTENT_def
  DATA_ACCESS_ERROR_OBJECT_ACCESS_UNSUPPORTED_def DATA_ACCESS_ERROR_OBJECT_NONE_EXISTENT_def
  DATA_ACCESS_ERROR_OBJECT_VALUE_INVALID_def

definition TASE2_RESULT_SUCCESS :: int where "TASE2_RESULT_SUCCESS = - 1"

datatype Tase2_DeviceClass = TASE2_DEVICE_CLASS_SBO | TASE2_DEVICE_CLASS_DIRECT

datatype Tase2_ControlPointType =
  TASE2_CONTROL_TYPE_COMMAND | TASE2_CONTROL_TYPE_SETPOINT_REAL | TASE2_CONTROL_TYPE_SETPOINT_DESCRETE

datatype Tase2_TagValue =
  TASE2_TAG_NO_TAG | TASE2_TAG_OPEN_AND_CLOSE_INHIBIT | TASE2_TAG_CLOSE_ONLY_INHIBIT | TASE2_TAG_INVALID

text \<open>The enumeration as an integer, and back.\<close>

fun tag_int :: "Tase2_TagValue \<Rightarrow> nat" where
  "tag_int TASE2_TAG_NO_TAG = 0"
| "tag_int TASE2_TAG_OPEN_AND_CLOSE_INHIBIT = 1"
| "tag_int TASE2_TAG_CLOSE_ONLY_INHIBIT = 2"
| "tag_int TASE2_TAG_INVALID = 3"

definition tag_of_bits :: "bool \<Rightarrow> bool \<Rightarrow> Tase2_TagValue" where
  "tag_of_bits bit0 bit1 =
     (if bit0 then if bit1 then TASE2_TAG_INVALID else TASE2_TAG_CLOSE_ONLY_INHIBIT
      else if bit1 then TASE2_TAG_OPEN_AND_CLOSE_INHIBIT else TASE2_TAG_NO_TAG)"

definition TASE2_COMMAND_TRIP :: int where "TASE2_COMMAND_TRIP = 0"
definition TASE2_COMMAND_CLOSE :: int where "TASE2_COMMAND_CLOSE = 1"

record ControlPoint =
  cp_pointValue :: "MmsValue option"
  cp_serverCachedValue :: "MmsValue option"
  cp_pointType :: Tase2_ControlPointType
  cp_deviceClass :: Tase2_DeviceClass
  cp_hasTag :: bool
  cp_checkBackId :: u16
  cp_selectedTimestamp :: u64
  cp_selectedBy :: "nat option"
  cp_tagValue :: "MmsValue option"
  cp_tagOwner :: "nat option"
  cp_sboValue :: "MmsValue option"

text \<open>\<open>selectedBy\<close> is left indeterminate by the constructor; nothing reads it.\<close>

definition Tase2_ControlPoint_create ::
    "Tase2_ControlPointType \<Rightarrow> Tase2_DeviceClass \<Rightarrow> bool \<Rightarrow> u16 \<Rightarrow> ControlPoint" where
  "Tase2_ControlPoint_create pointType deviceClass hasTag checkBackId =
     \<lparr>cp_pointValue = None, cp_serverCachedValue = None, cp_pointType = pointType,
      cp_deviceClass = deviceClass, cp_hasTag = hasTag, cp_checkBackId = checkBackId,
      cp_selectedTimestamp = 0, cp_selectedBy = None, cp_tagValue = None, cp_tagOwner = None,
      cp_sboValue = None\<rparr>"

definition control_value_spec :: "Tase2_ControlPointType \<Rightarrow> MmsVariableSpecification" where
  "control_value_spec pointType =
     (case pointType of
        TASE2_CONTROL_TYPE_SETPOINT_REAL \<Rightarrow> SpecFloat 8 32
      | _ \<Rightarrow> SpecInteger 16)"

definition tag_spec :: MmsVariableSpecification where
  "tag_spec = SpecStructure [SpecBitString 3, SpecVisibleString 255]"

text \<open>The values the server attaches to a control point.\<close>

definition createControlPointVariables :: "ControlPoint \<Rightarrow> ControlPoint option" where
  "createControlPointVariables point = do {
     let varSpec = control_value_spec (cp_pointType point);
     let point = point\<lparr>cp_pointValue := MmsValue_newDefaultValue varSpec,
                       cp_serverCachedValue := MmsValue_newDefaultValue varSpec\<rparr>;
     point \<leftarrow> (if cp_deviceClass point = TASE2_DEVICE_CLASS_SBO then do {
                 v \<leftarrow> MmsValue_newIntegerFromInt16 (cp_checkBackId point);
                 Some (point\<lparr>cp_sboValue := Some v\<rparr>) }
               else Some point);
     Some (if cp_hasTag point then point\<lparr>cp_tagValue := MmsValue_newDefaultValue tag_spec\<rparr> else point) }"

section \<open>Tags\<close>

text \<open>Changes component \<open>index\<close> of a structured value in place; a null pointer is \<open>None\<close>.\<close>

definition change_element :: "MmsValue option \<Rightarrow> int \<Rightarrow> (MmsValue \<Rightarrow> MmsValue option) \<Rightarrow> MmsValue option" where
  "change_element value index f = do {
     v \<leftarrow> value;
     e \<leftarrow> MmsValue_getElement v index;
     e \<leftarrow> f e;
     Some (MmsValue_setElement v index (Some e)) }"

definition tase2_ControlPoint_setTagValue :: "ControlPoint \<Rightarrow> Tase2_TagValue \<Rightarrow> ControlPoint option" where
  "tase2_ControlPoint_setTagValue cp tagValue =
     (if cp_hasTag cp then do {
        v \<leftarrow> change_element (cp_tagValue cp) 0 (\<lambda>mmsTagValue. do {
          mmsTagValue \<leftarrow> MmsValue_setBitStringBit mmsTagValue 1 (tag_int tagValue AND 1 \<noteq> 0);
          MmsValue_setBitStringBit mmsTagValue 0 (tag_int tagValue AND 2 \<noteq> 0) });
        Some (cp\<lparr>cp_tagValue := Some v\<rparr>) }
      else Some cp)"

definition getTagValue :: "MmsValue \<Rightarrow> Tase2_TagValue option" where
  "getTagValue val = do {
     mmsTagValue \<leftarrow> MmsValue_getElement val 0;
     bit0 \<leftarrow> MmsValue_getBitStringBit mmsTagValue 0;
     bit1 \<leftarrow> MmsValue_getBitStringBit mmsTagValue 1;
     Some (tag_of_bits bit0 bit1) }"

definition tase2_ControlPoint_getTagValue :: "ControlPoint \<Rightarrow> Tase2_TagValue option" where
  "tase2_ControlPoint_getTagValue cp =
     (if cp_hasTag cp then do {
        v \<leftarrow> cp_tagValue cp;
        mmsTagValue \<leftarrow> MmsValue_getElement v 0;
        bit0 \<leftarrow> MmsValue_getBitStringBit mmsTagValue 0;
        bit1 \<leftarrow> MmsValue_getBitStringBit mmsTagValue 1;
        Some (tag_of_bits bit0 bit1) }
      else Some TASE2_TAG_NO_TAG)"

definition tase2_ControlPoint_setArmedFlag :: "ControlPoint \<Rightarrow> bool \<Rightarrow> ControlPoint option" where
  "tase2_ControlPoint_setArmedFlag cp val =
     (if cp_hasTag cp then do {
        v \<leftarrow> change_element (cp_tagValue cp) 0 (\<lambda>flags. MmsValue_setBitStringBit flags 2 val);
        Some (cp\<lparr>cp_tagValue := Some v\<rparr>) }
      else Some cp)"

text \<open>The tag with reason and owner as the application reads it; no tag is \<open>TASE2_TAG_INVALID\<close>.\<close>

definition Tase2_ControlPoint_getTag ::
    "ControlPoint \<Rightarrow> (Tase2_TagValue \<times> (cstr option \<times> nat option) option) option" where
  "Tase2_ControlPoint_getTag self =
     (if cp_hasTag self then do {
        tagValue \<leftarrow> tase2_ControlPoint_getTagValue self;
        v \<leftarrow> cp_tagValue self;
        r \<leftarrow> MmsValue_getElement v 1;
        Some (tagValue, Some (MmsValue_toString r, cp_tagOwner self)) }
      else Some (TASE2_TAG_INVALID, None))"

definition Tase2_ControlPoint_setTag ::
    "ControlPoint \<Rightarrow> Tase2_TagValue \<Rightarrow> cstr option \<Rightarrow> nat option \<Rightarrow> ControlPoint option" where
  "Tase2_ControlPoint_setTag self val reason tagOwner =
     (if cp_hasTag self then do {
        self \<leftarrow> tase2_ControlPoint_setTagValue self val;
        self \<leftarrow> (if cp_selectedTimestamp self \<noteq> 0
                 then tase2_ControlPoint_setArmedFlag (self\<lparr>cp_selectedTimestamp := 0\<rparr>) False
                 else Some self);
        self \<leftarrow> (case reason of
                  None \<Rightarrow> Some self
                | Some s \<Rightarrow> do {
                    v \<leftarrow> change_element (cp_tagValue self) 1 (\<lambda>r. MmsValue_setVisibleString r (Some s));
                    Some (self\<lparr>cp_tagValue := Some v\<rparr>) });
        Some (self\<lparr>cp_tagOwner := tagOwner\<rparr>) }
      else Some self)"

section \<open>Requests\<close>

text \<open>The union handed to the operate handler; \<open>Indeterminate\<close> when no member was set.\<close>

datatype Tase2_OperateValue = DiscreteValue u16 | RealValue u32 | Indeterminate

datatype control_effect =
    SelectHandlerCalled
  | OperateHandlerCalled Tase2_OperateValue
  | OperateHandlerExCalled u16 u32
  | SetTagHandlerCalled Tase2_TagValue "cstr option"
  | TransferSetsTriggered

text \<open>
  The fields of the server used here. \<open>double_to_float\<close> is C's conversion of the bit patterns;
  an absent handler is \<open>None\<close>.
\<close>

record control_server =
  srv_selectTimeout :: u32
  srv_selectHandler :: "(ControlPoint \<Rightarrow> int) option"
  srv_operateHandler :: "(ControlPoint \<Rightarrow> Tase2_OperateValue \<Rightarrow> int) option"
  srv_operateHandlerEx :: "(ControlPoint \<Rightarrow> u16 \<Rightarrow> u32 \<Rightarrow> int) option"
  srv_setTagHandler :: "(ControlPoint \<Rightarrow> Tase2_TagValue \<Rightarrow> cstr option \<Rightarrow> int) option"
  srv_double_to_float :: "u64 \<Rightarrow> u32"

text \<open>
  The difference wraps at 64 bits, and the \<open>int\<close> timeout is converted to \<open>uint64_t\<close> for the
  comparison.
\<close>

definition isArmed :: "control_server \<Rightarrow> ControlPoint \<Rightarrow> u64 \<Rightarrow> bool" where
  "isArmed self cp currentTime =
     (if currentTime - cp_selectedTimestamp cp > scast (srv_selectTimeout self) then False else True)"

type_synonym request_result = "(ControlPoint \<times> control_effect list \<times> MmsDataAccessError) option"

definition selectControl ::
    "control_server \<Rightarrow> ControlPoint \<Rightarrow> nat \<Rightarrow> u64 \<Rightarrow> request_result" where
  "selectControl self cp connection currentTime =
     (if isArmed self cp currentTime then Some (cp, [], DATA_ACCESS_ERROR_TEMPORARILY_UNAVAILABLE)
      else do {
        tagValue \<leftarrow> tase2_ControlPoint_getTagValue cp;
        if tagValue = TASE2_TAG_OPEN_AND_CLOSE_INHIBIT
        then Some (cp, [], DATA_ACCESS_ERROR_TEMPORARILY_UNAVAILABLE)
        else do {
          let (effects, result) = (case srv_selectHandler self of
                Some h \<Rightarrow> ([SelectHandlerCalled], h cp)
              | None \<Rightarrow> ([], TASE2_RESULT_SUCCESS));
          if result \<noteq> TASE2_RESULT_SUCCESS then Some (cp, effects, result)
          else do {
            cp \<leftarrow> tase2_ControlPoint_setArmedFlag
                    (cp\<lparr>cp_selectedTimestamp := currentTime, cp_selectedBy := Some connection\<rparr>) True;
            Some (cp, effects, DATA_ACCESS_ERROR_SUCCESS) } } })"

fun MmsValue_toFloat :: "(u64 \<Rightarrow> u32) \<Rightarrow> MmsValue \<Rightarrow> u32 option" where
  "MmsValue_toFloat double_to_float (ValFloat _ formatWidth buf) =
     (if formatWidth = 32 then
        if 4 \<le> length buf then Some (word_of_int (be_uint (rev (take 4 buf)))) else None
      else if formatWidth = 64 then
        if 8 \<le> length buf then Some (double_to_float (word_of_int (be_uint (rev (take 8 buf))))) else None
      else Some 0)"
| "MmsValue_toFloat double_to_float _ = Some 0"

text \<open>The tag check of a command; \<open>Some True\<close> when the tag inhibits it.\<close>

definition command_inhibited :: "ControlPoint \<Rightarrow> int \<Rightarrow> bool option" where
  "command_inhibited cp commandValue =
     (if cp_hasTag cp then do {
        tagValue \<leftarrow> tase2_ControlPoint_getTagValue cp;
        Some (tagValue = TASE2_TAG_OPEN_AND_CLOSE_INHIBIT \<or>
              tagValue = TASE2_TAG_CLOSE_ONLY_INHIBIT \<and> commandValue = TASE2_COMMAND_CLOSE) }
      else Some False)"

text \<open>The checks of a command: the error they return with, if any.\<close>

definition command_error :: "ControlPoint \<Rightarrow> MmsValue \<Rightarrow> MmsDataAccessError option option" where
  "command_error cp val =
     (if cp_pointType cp = TASE2_CONTROL_TYPE_COMMAND then do {
        i \<leftarrow> MmsValue_toInt32 val;
        let commandValue = sint i;
        if commandValue \<noteq> TASE2_COMMAND_CLOSE \<and> commandValue \<noteq> TASE2_COMMAND_TRIP
        then Some (Some DATA_ACCESS_ERROR_OBJECT_VALUE_INVALID)
        else do {
          inhibited \<leftarrow> command_inhibited cp commandValue;
          Some (if inhibited then Some DATA_ACCESS_ERROR_TEMPORARILY_UNAVAILABLE else None) } }
      else Some None)"

text \<open>The handler part: the effects with the handler's answer.\<close>

definition call_operate_handler ::
    "control_server \<Rightarrow> ControlPoint \<Rightarrow> MmsValue \<Rightarrow> (control_effect list \<times> int) option" where
  "call_operate_handler self cp val =
     (case srv_operateHandler self of
        Some h \<Rightarrow> do {
          operValue \<leftarrow>
            (if MmsValue_getType val = MMS_INTEGER then do { i \<leftarrow> MmsValue_toInt32 val; Some (DiscreteValue (ucast i)) }
             else if MmsValue_getType val = MMS_FLOAT then do {
               r \<leftarrow> MmsValue_toFloat (srv_double_to_float self) val; Some (RealValue r) }
             else Some Indeterminate);
          Some ([OperateHandlerCalled operValue], h cp operValue) }
      | None \<Rightarrow>
          (case srv_operateHandlerEx self of
             Some h \<Rightarrow> do {
               (discreteValue, realValue) \<leftarrow>
                 (if MmsValue_getType val = MMS_INTEGER then do { i \<leftarrow> MmsValue_toInt32 val; Some (ucast i, 0) }
                  else if MmsValue_getType val = MMS_FLOAT then do {
                    r \<leftarrow> MmsValue_toFloat (srv_double_to_float self) val; Some (0, r) }
                  else Some (0, 0));
               Some ([OperateHandlerExCalled discreteValue realValue], h cp discreteValue realValue) }
           | None \<Rightarrow> Some ([], TASE2_RESULT_SUCCESS)))"

definition operateControl ::
    "control_server \<Rightarrow> ControlPoint \<Rightarrow> nat \<Rightarrow> MmsValue \<Rightarrow> u64 \<Rightarrow> request_result" where
  "operateControl self cp connection val currentTime =
     (if cp_deviceClass cp = TASE2_DEVICE_CLASS_SBO \<and> \<not> isArmed self cp currentTime
      then Some (cp, [], DATA_ACCESS_ERROR_TEMPORARILY_UNAVAILABLE)
      else do {
        cp \<leftarrow> (if cp_deviceClass cp = TASE2_DEVICE_CLASS_SBO
               then tase2_ControlPoint_setArmedFlag (cp\<lparr>cp_selectedTimestamp := 0\<rparr>) False
               else Some cp);
        error \<leftarrow> command_error cp val;
        case error of
          Some e \<Rightarrow> Some (cp, [], e)
        | None \<Rightarrow> do {
            (effects, result) \<leftarrow> call_operate_handler self cp val;
            if result \<noteq> TASE2_RESULT_SUCCESS then Some (cp, effects, result)
            else do {
              v \<leftarrow> cp_pointValue cp;
              (v, _) \<leftarrow> MmsValue_update v val;
              w \<leftarrow> cp_serverCachedValue cp;
              (w, _) \<leftarrow> MmsValue_update w val;
              Some (cp\<lparr>cp_pointValue := Some v, cp_serverCachedValue := Some w\<rparr>,
                    effects @ [TransferSetsTriggered], DATA_ACCESS_ERROR_SUCCESS) } } })"

text \<open>\<open>blt\<close> is the connection's security token; the reason is a null pointer for a missing element.\<close>

definition setTag ::
    "control_server \<Rightarrow> ControlPoint \<Rightarrow> nat option \<Rightarrow> MmsValue \<Rightarrow> u64 \<Rightarrow> request_result" where
  "setTag self cp blt val currentTime =
     (if \<not> cp_hasTag cp then Some (cp, [], DATA_ACCESS_ERROR_OBJECT_NONE_EXISTENT)
      else do {
        tagValue \<leftarrow> getTagValue val;
        if tagValue = TASE2_TAG_INVALID then Some (cp, [], DATA_ACCESS_ERROR_OBJECT_VALUE_INVALID)
        else if isArmed self cp currentTime then Some (cp, [], DATA_ACCESS_ERROR_TEMPORARILY_UNAVAILABLE)
        else do {
          currentTagValue \<leftarrow> tase2_ControlPoint_getTagValue cp;
          if currentTagValue \<noteq> TASE2_TAG_NO_TAG \<and> blt \<noteq> None \<and> blt \<noteq> cp_tagOwner cp
          then Some (cp, [], DATA_ACCESS_ERROR_TEMPORARILY_UNAVAILABLE)
          else do {
            old \<leftarrow> cp_tagValue cp;
            same \<leftarrow> MmsValue_equals old val;
            if same then Some (cp, [], DATA_ACCESS_ERROR_SUCCESS)
            else do {
              (effects, result) \<leftarrow>
                (case srv_setTagHandler self of
                   Some h \<Rightarrow> do {
                     r \<leftarrow> MmsValue_getElement val 1;
                     let reason = MmsValue_toString r;
                     Some ([SetTagHandlerCalled tagValue reason], h cp tagValue reason) }
                 | None \<Rightarrow> Some ([], TASE2_RESULT_SUCCESS));
              if result \<noteq> TASE2_RESULT_SUCCESS then Some (cp, effects, result)
              else do {
                (v, _) \<leftarrow> MmsValue_update old val;
                Some (cp\<lparr>cp_tagValue := Some v, cp_tagOwner := blt\<rparr>,
                      effects @ [TransferSetsTriggered], DATA_ACCESS_ERROR_SUCCESS) } } } } })"

text \<open>The read of a tag variable: a selection that has timed out is cleared first.\<close>

definition readTag :: "control_server \<Rightarrow> ControlPoint \<Rightarrow> u64 \<Rightarrow> (ControlPoint \<times> MmsValue option) option" where
  "readTag self cp currentTime = do {
     cp \<leftarrow> (if cp_selectedTimestamp cp \<noteq> 0 \<and> \<not> isArmed self cp currentTime
            then tase2_ControlPoint_setArmedFlag (cp\<lparr>cp_selectedTimestamp := 0\<rparr>) False
            else Some cp);
     Some (cp, cp_tagValue cp) }"

end
