(* ===== verification/ControlPoint_Laws.thy ===== *)
theory ControlPoint_Laws
  imports ControlPoint
begin

text \<open>
  What supervisory control guarantees: the select-before-operate discipline over arbitrary runs,
  the outcome of every operate and of every tag write, the protection of a tag by its owner, and
  that every request returns and leaves a well-formed control point. The last section states
  where the code is weaker: malformed tag writes, unstored tags, oversized command integers.
\<close>

section \<open>Frames\<close>

text \<open>The configuration of a control point, which no request changes; the time of its selection.\<close>

definition same_config :: "ControlPoint \<Rightarrow> ControlPoint \<Rightarrow> bool" where
  "same_config cp cp' \<longleftrightarrow> cp_deviceClass cp' = cp_deviceClass cp \<and> cp_pointType cp' = cp_pointType cp \<and>
     cp_hasTag cp' = cp_hasTag cp"

abbreviation same_selection :: "ControlPoint \<Rightarrow> ControlPoint \<Rightarrow> bool" where
  "same_selection cp cp' \<equiv> cp_selectedTimestamp cp' = cp_selectedTimestamp cp"

lemma same_config_simps [simp]:
  "same_config cp cp" "same_config (cp\<lparr>cp_selectedTimestamp := a\<rparr>) cp' \<longleftrightarrow> same_config cp cp'"
  "same_config (cp\<lparr>cp_selectedBy := b\<rparr>) cp' \<longleftrightarrow> same_config cp cp'"
  "same_config cp (cp'\<lparr>cp_tagValue := v\<rparr>) \<longleftrightarrow> same_config cp cp'"
  "same_config cp (cp'\<lparr>cp_tagOwner := w\<rparr>) \<longleftrightarrow> same_config cp cp'"
  "same_config cp (cp'\<lparr>cp_pointValue := v\<rparr>) \<longleftrightarrow> same_config cp cp'"
  "same_config cp (cp'\<lparr>cp_serverCachedValue := v\<rparr>) \<longleftrightarrow> same_config cp cp'"
  by (simp_all add: same_config_def)

lemma same_config_trans: "same_config a b \<Longrightarrow> same_config b c \<Longrightarrow> same_config a c"
  by (simp add: same_config_def)

lemma setArmedFlag_frame:
  "tase2_ControlPoint_setArmedFlag cp b = Some cp' \<Longrightarrow> same_config cp cp' \<and> same_selection cp cp'"
  by (auto simp: tase2_ControlPoint_setArmedFlag_def split: if_splits Option.bind_splits)

lemma setTagValue_frame:
  "tase2_ControlPoint_setTagValue cp b = Some cp' \<Longrightarrow> same_config cp cp' \<and> same_selection cp cp'"
  by (auto simp: tase2_ControlPoint_setTagValue_def split: if_splits Option.bind_splits)

lemma clear_frame:
  "tase2_ControlPoint_setArmedFlag (cp\<lparr>cp_selectedTimestamp := 0\<rparr>) False = Some cp' \<Longrightarrow>
   same_config cp cp' \<and> cp_selectedTimestamp cp' = 0"
  using setArmedFlag_frame [of "cp\<lparr>cp_selectedTimestamp := 0\<rparr>" False cp'] by simp

lemma selectControl_cases:
  assumes "selectControl srv cp c t = Some (cp', effs, res)"
  shows "same_config cp cp' \<and> (cp' = cp \<and> res \<noteq> DATA_ACCESS_ERROR_SUCCESS \<or>
    \<not> isArmed srv cp t \<and> res = DATA_ACCESS_ERROR_SUCCESS \<and> cp_selectedTimestamp cp' = t)"
  using assms setArmedFlag_frame [of "cp\<lparr>cp_selectedTimestamp := t, cp_selectedBy := Some c\<rparr>" True cp']
  by (auto simp: selectControl_def access_errors TASE2_RESULT_SUCCESS_def Let_def split: if_splits Option.bind_splits option.splits)

lemma operateControl_cases:
  assumes "operateControl srv cp c val t = Some (cp', effs, res)"
  shows "same_config cp cp' \<and> (cp' = cp \<and> cp_deviceClass cp = TASE2_DEVICE_CLASS_SBO \<and> \<not> isArmed srv cp t \<and> effs = [] \<and>
      res = DATA_ACCESS_ERROR_TEMPORARILY_UNAVAILABLE \<or>
    (cp_deviceClass cp = TASE2_DEVICE_CLASS_SBO \<longrightarrow> isArmed srv cp t \<and> cp_selectedTimestamp cp' = 0) \<and>
    (cp_deviceClass cp = TASE2_DEVICE_CLASS_DIRECT \<longrightarrow> same_selection cp cp'))"
proof (cases "cp_deviceClass cp = TASE2_DEVICE_CLASS_SBO \<and> \<not> isArmed srv cp t")
  case True
  then show ?thesis using assms by (simp add: operateControl_def)
next
  case False
  obtain cp1 where cp1: "(if cp_deviceClass cp = TASE2_DEVICE_CLASS_SBO
      then tase2_ControlPoint_setArmedFlag (cp\<lparr>cp_selectedTimestamp := 0\<rparr>) False else Some cp) = Some cp1"
    using assms False by (auto simp: operateControl_def split: if_splits Option.bind_splits)
  have 1: "same_config cp cp1" "cp_deviceClass cp = TASE2_DEVICE_CLASS_SBO \<longrightarrow> cp_selectedTimestamp cp1 = 0"
    "cp_deviceClass cp = TASE2_DEVICE_CLASS_DIRECT \<longrightarrow> same_selection cp cp1"
    using cp1 clear_frame [of cp cp1] by (auto split: if_splits)
  have "same_config cp1 cp' \<and> same_selection cp1 cp'"
    using assms False cp1
    by (auto simp: operateControl_def split: if_splits Option.bind_splits option.splits)
  then show ?thesis using 1 False same_config_trans [of cp cp1 cp'] by auto
qed

lemma setTag_frame:
  assumes "setTag srv cp blt val t = Some (cp', effs, res)"
  shows "same_config cp cp' \<and> same_selection cp cp'"
  using assms unfolding setTag_def
  by (auto split: if_splits Option.bind_splits option.splits)

lemma readTag_frame:
  assumes "readTag srv cp t = Some (cp', v)"
  shows "same_config cp cp' \<and> (cp_selectedTimestamp cp' = 0 \<or> same_selection cp cp')"
  using assms clear_frame [of cp cp'] unfolding readTag_def
  by (auto split: if_splits Option.bind_splits)

lemma local_setTag_frame:
  assumes "Tase2_ControlPoint_setTag cp tag reason owner = Some cp'"
  shows "same_config cp cp' \<and> (cp_selectedTimestamp cp' = 0 \<or> same_selection cp cp')"
proof (cases "cp_hasTag cp")
  case True
  then obtain cp1 where cp1: "tase2_ControlPoint_setTagValue cp tag = Some cp1"
    using assms by (auto simp: Tase2_ControlPoint_setTag_def split: Option.bind_splits)
  note 1 = setTagValue_frame [OF cp1]
  obtain cp2 where cp2: "(if cp_selectedTimestamp cp1 \<noteq> 0
      then tase2_ControlPoint_setArmedFlag (cp1\<lparr>cp_selectedTimestamp := 0\<rparr>) False else Some cp1) = Some cp2"
    using assms True cp1 by (auto simp: Tase2_ControlPoint_setTag_def split: Option.bind_splits)
  have 2: "same_config cp1 cp2 \<and> (cp_selectedTimestamp cp2 = 0 \<or> same_selection cp1 cp2)"
    using cp2 clear_frame [of cp1 cp2] by (auto split: if_splits)
  have "same_config cp2 cp' \<and> same_selection cp2 cp'"
    using assms True cp1 cp2
    by (auto simp: Tase2_ControlPoint_setTag_def split: Option.bind_splits option.splits)
  then show ?thesis using 1 2 by (auto simp: same_config_def)
qed (use assms in \<open>simp add: Tase2_ControlPoint_setTag_def\<close>)

section \<open>Runs\<close>

text \<open>The requests of clients and the local tag function, in any order, with the clock's value.\<close>

datatype control_event =
    EvSelect nat
  | EvOperate nat MmsValue
  | EvSetTag "nat option" MmsValue
  | EvReadTag
  | EvLocalSetTag Tase2_TagValue "cstr option" "nat option"

fun control_step :: "control_server \<Rightarrow> control_event \<Rightarrow> u64 \<Rightarrow> ControlPoint \<Rightarrow> request_result" where
  "control_step srv (EvSelect c) t cp = selectControl srv cp c t"
| "control_step srv (EvOperate c val) t cp = operateControl srv cp c val t"
| "control_step srv (EvSetTag blt val) t cp = setTag srv cp blt val t"
| "control_step srv EvReadTag t cp =
     map_option (\<lambda>(cp, _). (cp, [], DATA_ACCESS_ERROR_SUCCESS)) (readTag srv cp t)"
| "control_step srv (EvLocalSetTag tag reason owner) t cp =
     map_option (\<lambda>cp. (cp, [], DATA_ACCESS_ERROR_SUCCESS)) (Tase2_ControlPoint_setTag cp tag reason owner)"

type_synonym control_trace = "(u64 \<times> control_event \<times> control_effect list \<times> MmsDataAccessError) list"

inductive control_run :: "control_server \<Rightarrow> ControlPoint \<Rightarrow> control_trace \<Rightarrow> ControlPoint \<Rightarrow> bool"
  for srv cp0 where
  start: "control_run srv cp0 [] cp0"
| step: "control_run srv cp0 tr cp \<Longrightarrow> control_step srv ev t cp = Some (cp', effs, res) \<Longrightarrow>
    control_run srv cp0 (tr @ [(t, ev, effs, res)]) cp'"

text \<open>An operate that reached the application or succeeded; a select that was granted.\<close>

fun executed :: "u64 \<times> control_event \<times> control_effect list \<times> MmsDataAccessError \<Rightarrow> bool" where
  "executed (t, EvOperate _ _, effs, res) \<longleftrightarrow> effs \<noteq> [] \<or> res = DATA_ACCESS_ERROR_SUCCESS"
| "executed _ \<longleftrightarrow> False"

fun granted_at :: "u64 \<Rightarrow> u64 \<times> control_event \<times> control_effect list \<times> MmsDataAccessError \<Rightarrow> bool" where
  "granted_at t0 (t, EvSelect _, _, res) \<longleftrightarrow> t = t0 \<and> res = DATA_ACCESS_ERROR_SUCCESS"
| "granted_at t0 _ \<longleftrightarrow> False"

text \<open>The last grant, at \<open>t0\<close>, with no execution since.\<close>

definition selected_since :: "control_trace \<Rightarrow> u64 \<Rightarrow> bool" where
  "selected_since tr t0 \<longleftrightarrow> (\<exists>pre s post. tr = pre @ s # post \<and> granted_at t0 s \<and> (\<forall>e \<in> set post. \<not> executed e))"

lemma selected_since_extend: "selected_since tr t0 \<Longrightarrow> \<not> executed e \<Longrightarrow> selected_since (tr @ [e]) t0"
  unfolding selected_since_def by (elim exE conjE) (rule exI, rule exI, rule_tac x = "post @ [e]" in exI, auto)

lemma selected_since_grant: "granted_at t0 s \<Longrightarrow> selected_since (tr @ [s]) t0"
  unfolding selected_since_def by (rule exI [of _ tr], rule exI [of _ s], rule exI [of _ "[]"]) simp

lemma control_step_sbo:
  assumes "control_step srv ev t cp = Some (cp', effs, res)" "cp_deviceClass cp = TASE2_DEVICE_CLASS_SBO"
    "cp_selectedTimestamp cp \<noteq> 0 \<longrightarrow> selected_since tr (cp_selectedTimestamp cp)"
  shows "cp_deviceClass cp' = TASE2_DEVICE_CLASS_SBO \<and>
    (cp_selectedTimestamp cp' \<noteq> 0 \<longrightarrow> selected_since (tr @ [(t, ev, effs, res)]) (cp_selectedTimestamp cp')) \<and>
    (executed (t, ev, effs, res) \<longrightarrow> isArmed srv cp t)"
proof (cases ev)
  case (EvSelect c)
  then show ?thesis using selectControl_cases [of srv cp c t cp' effs res] assms
    by (auto simp: same_config_def intro: selected_since_extend selected_since_grant)
next
  case (EvOperate c val)
  then show ?thesis using operateControl_cases [of srv cp c val t cp' effs res] assms
    by (auto simp: same_config_def access_errors intro!: selected_since_extend)
next
  case (EvSetTag blt val)
  then show ?thesis using setTag_frame [of srv cp blt val t cp' effs res] assms
    by (auto simp: same_config_def intro!: selected_since_extend)
next
  case EvReadTag
  then show ?thesis using readTag_frame [of srv cp t cp'] assms
    by (auto simp: same_config_def intro!: selected_since_extend)
next
  case (EvLocalSetTag tag reason owner)
  then show ?thesis using local_setTag_frame [of cp tag reason owner cp'] assms
    by (auto simp: same_config_def intro!: selected_since_extend)
qed

lemma control_run_sbo:
  assumes "control_run srv cp0 tr cp" "cp_deviceClass cp0 = TASE2_DEVICE_CLASS_SBO" "cp_selectedTimestamp cp0 = 0"
  shows "cp_deviceClass cp = TASE2_DEVICE_CLASS_SBO \<and>
    (cp_selectedTimestamp cp \<noteq> 0 \<longrightarrow> selected_since tr (cp_selectedTimestamp cp)) \<and>
    (\<forall>pre e post. tr = pre @ e # post \<longrightarrow> executed e \<longrightarrow> scast (srv_selectTimeout srv) < fst e \<longrightarrow>
       (\<exists>t0. fst e - t0 \<le> scast (srv_selectTimeout srv) \<and> selected_since pre t0))"
  using assms
proof induction
  case (step tr cp ev t cp' effs res)
  note IH = step.IH [OF step.prems]
  note S = control_step_sbo [OF step.hyps(2) conjunct1 [OF IH] conjunct1 [OF conjunct2 [OF IH]]]
  have "\<exists>t0. fst e - t0 \<le> scast (srv_selectTimeout srv) \<and> selected_since pre t0"
    if e: "tr @ [(t, ev, effs, res)] = pre @ e # post" "executed e" "scast (srv_selectTimeout srv) < fst e" for pre e post
  proof (cases post rule: rev_cases)
    case Nil
    then have p: "pre = tr" "e = (t, ev, effs, res)" using e(1) by auto
    then have a: "isArmed srv cp t" using S e(2) by blast
    then have "cp_selectedTimestamp cp \<noteq> 0" using e(3) p by (auto simp: isArmed_def)
    then have "selected_since tr (cp_selectedTimestamp cp)" using IH by blast
    moreover have "t - cp_selectedTimestamp cp \<le> scast (srv_selectTimeout srv)"
      using a by (simp add: isArmed_def not_less split: if_splits)
    ultimately show ?thesis using p by auto
  next
    case (snoc post' x)
    then have "tr = pre @ e # post'" using e(1) by simp
    then show ?thesis using IH e(2,3) by blast
  qed
  then show ?case using S by blast
qed simp

text \<open>
  C2: Select before operate: in every run of a control point of device class SBO that starts
  unselected, with requests arriving after the first timeout of the clock's epoch, each operate
  that reached the application's handler or succeeded was preceded by a granted select no
  longer ago than the select timeout, with no other executed operate in between.
\<close>

theorem select_before_operate:
  assumes "control_run srv cp0 tr cp" "cp_deviceClass cp0 = TASE2_DEVICE_CLASS_SBO"
    "cp_selectedTimestamp cp0 = 0" "tr = pre @ (t, EvOperate c val, effs, res) # post"
    "effs \<noteq> [] \<or> res = DATA_ACCESS_ERROR_SUCCESS" "scast (srv_selectTimeout srv) < t"
  shows "\<exists>pre1 t0 c0 effs0 pre2. pre = pre1 @ (t0, EvSelect c0, effs0, DATA_ACCESS_ERROR_SUCCESS) # pre2 \<and>
    t - t0 \<le> scast (srv_selectTimeout srv) \<and> (\<forall>e \<in> set pre2. \<not> executed e)"
proof -
  have "executed (t, EvOperate c val, effs, res)" using assms(5) by simp
  then obtain t0 where "t - t0 \<le> scast (srv_selectTimeout srv)" "selected_since pre t0"
    using conjunct2 [OF conjunct2 [OF control_run_sbo [OF assms(1-3)]], rule_format, OF assms(4)] assms(6) by auto
  moreover from this(2) obtain pre1 s pre2 where s: "pre = pre1 @ s # pre2" "granted_at t0 s"
    "\<forall>e \<in> set pre2. \<not> executed e" unfolding selected_since_def by blast
  moreover from s(2) obtain c0 effs0 where "s = (t0, EvSelect c0, effs0, DATA_ACCESS_ERROR_SUCCESS)"
    by (cases "(t0, s)" rule: granted_at.cases) auto
  ultimately show ?thesis by blast
qed

theorem select_before_operate_witness:
  "\<exists>srv cp0 cp tr v e1 e2. control_run srv cp0 tr cp \<and>
     tr = [(20000, EvSelect 1, e1, DATA_ACCESS_ERROR_SUCCESS), (21000, EvOperate 2 v, e2, DATA_ACCESS_ERROR_SUCCESS)] \<and>
     (\<exists>pre1 t0 c0 effs0 pre2. take 1 tr = pre1 @ (t0, EvSelect c0, effs0, DATA_ACCESS_ERROR_SUCCESS) # pre2 \<and>
        (21000 :: u64) - t0 \<le> scast (srv_selectTimeout srv) \<and> (\<forall>e \<in> set pre2. \<not> executed e))"
proof -
  define srv where "srv = \<lparr>srv_selectTimeout = 10000, srv_selectHandler = None, srv_operateHandler = None,
    srv_operateHandlerEx = None, srv_setTagHandler = None, srv_double_to_float = (\<lambda>_. 0)\<rparr>"
  define v where "v = ValInteger \<lparr>asn1_size = 1, asn1_maxSize = 1, asn1_octets = [1]\<rparr>"
  define cp0 where "cp0 = \<lparr>cp_pointValue = Some v, cp_serverCachedValue = Some v,
    cp_pointType = TASE2_CONTROL_TYPE_COMMAND, cp_deviceClass = TASE2_DEVICE_CLASS_SBO, cp_hasTag = False,
    cp_checkBackId = 0, cp_selectedTimestamp = 0, cp_selectedBy = None, cp_tagValue = None,
    cp_tagOwner = None, cp_sboValue = None\<rparr>"
  define cp1 where "cp1 = cp0\<lparr>cp_selectedTimestamp := 20000, cp_selectedBy := Some 1\<rparr>"
  have 1: "control_step srv (EvSelect 1) 20000 cp0 = Some (cp1, [], DATA_ACCESS_ERROR_SUCCESS)"
    by (simp add: selectControl_def isArmed_def srv_def cp0_def cp1_def tase2_ControlPoint_getTagValue_def
        tase2_ControlPoint_setArmedFlag_def TASE2_RESULT_SUCCESS_def)
  have v: "MmsValue_toInt32 v = Some 1" "MmsValue_update v v = Some (v, True)"
    unfolding v_def by code_simp+
  have 2: "control_step srv (EvOperate 2 v) 21000 cp1 =
      Some (cp1\<lparr>cp_selectedTimestamp := 0\<rparr>, [TransferSetsTriggered], DATA_ACCESS_ERROR_SUCCESS)"
    by (simp add: operateControl_def isArmed_def srv_def cp0_def cp1_def tase2_ControlPoint_setArmedFlag_def
        v command_error_def TASE2_COMMAND_CLOSE_def TASE2_COMMAND_TRIP_def command_inhibited_def call_operate_handler_def
        TASE2_RESULT_SUCCESS_def)
  let ?tr = "[(20000, EvSelect 1, [], DATA_ACCESS_ERROR_SUCCESS),
    (21000, EvOperate 2 v, [TransferSetsTriggered], DATA_ACCESS_ERROR_SUCCESS)]"
  have run: "control_run srv cp0 ?tr (cp1\<lparr>cp_selectedTimestamp := 0\<rparr>)"
    using control_run.step [OF control_run.step [OF control_run.start 1] 2] by simp
  have "\<exists>pre1 t0 c0 effs0 pre2. take 1 ?tr = pre1 @ (t0, EvSelect c0, effs0, DATA_ACCESS_ERROR_SUCCESS) # pre2 \<and>
        (21000 :: u64) - t0 \<le> scast (srv_selectTimeout srv) \<and> (\<forall>e \<in> set pre2. \<not> executed e)"
    by (rule select_before_operate [OF run, of _ _ 2 v "[TransferSetsTriggered]" DATA_ACCESS_ERROR_SUCCESS "[]"])
      (simp_all add: cp0_def srv_def)
  then show ?thesis using run by blast
qed

section \<open>Well-formed control points\<close>

text \<open>A tag as the server builds it: three flag bits and a reason.\<close>

definition tag_shape :: "MmsValue \<Rightarrow> bool" where
  "tag_shape v \<longleftrightarrow> (\<exists>buf sz s. v = ValStructure [Some (ValBitString 3 buf), Some (ValVisibleString sz s)] \<and> mms_ok v)"

definition value_shape :: "Tase2_ControlPointType \<Rightarrow> MmsValue option \<Rightarrow> bool" where
  "value_shape type val \<longleftrightarrow> (\<exists>v. val = Some v \<and> mms_ok v \<and> conforms (control_value_spec type) v)"

definition control_ok :: "ControlPoint \<Rightarrow> bool" where
  "control_ok cp \<longleftrightarrow> (cp_hasTag cp \<longrightarrow> (\<exists>v. cp_tagValue cp = Some v \<and> tag_shape v)) \<and>
     value_shape (cp_pointType cp) (cp_pointValue cp) \<and> value_shape (cp_pointType cp) (cp_serverCachedValue cp)"

text \<open>A tag a client may write: a flag bit string first, something second.\<close>

definition tag_request :: "MmsValue \<Rightarrow> bool" where
  "tag_request v \<longleftrightarrow> (\<exists>n buf r rest. v = ValStructure (Some (ValBitString n buf) # Some r # rest) \<and> mms_ok v)"

lemma getElement_Cons [simp]:
  "MmsValue_getElement (ValStructure (x # xs)) 0 = x"
  "MmsValue_getElement (ValStructure (x # y # xs)) 1 = y"
  by (simp_all add: MmsValue_getElement_def)

lemma setElement_Cons [simp]:
  "MmsValue_setElement (ValStructure (x # xs)) 0 e = ValStructure (e # xs)"
  "MmsValue_setElement (ValStructure (x # y # xs)) 1 e = ValStructure (x # e # xs)"
  by simp_all

declare MmsValue_getBitStringBit.simps [simp del] MmsValue_setBitStringBit.simps [simp del]

text \<open>What the flags of a tag value say.\<close>

definition tag_flags :: "MmsValue \<Rightarrow> bool list" where
  "tag_flags v = (case MmsValue_getElement v 0 of Some f \<Rightarrow> bits_of f | None \<Rightarrow> [])"

lemma bits_of_3: "bits_of (ValBitString 3 buf) = [bit_at buf 0, bit_at buf 1, bit_at buf 2]"
  by (simp add: upt_conv_Cons numeral_2_eq_2)

lemma getTagValue_shape:
  "tag_shape v \<Longrightarrow> getTagValue v = Some (tag_of_bits (tag_flags v ! 0) (tag_flags v ! 1))"
  by (auto simp: tag_shape_def getTagValue_def tag_flags_def getBit_bits bits_of_3 simp del: bits_of.simps)

lemma getTag_getTagValue:
  "tase2_ControlPoint_getTagValue cp =
     (if cp_hasTag cp then do { v \<leftarrow> cp_tagValue cp; getTagValue v } else Some TASE2_TAG_NO_TAG)"
  by (simp add: tase2_ControlPoint_getTagValue_def getTagValue_def)

lemma set_flag:
  assumes "tag_shape v" "i < 3"
  obtains v' where "change_element (Some v) 0 (\<lambda>f. MmsValue_setBitStringBit f i b) = Some v'" "tag_shape v'"
    "tag_flags v' = (tag_flags v)[i := b]" "MmsValue_getElement v' 1 = MmsValue_getElement v 1"
proof -
  from assms(1) obtain buf sz s where v: "v = ValStructure [Some (ValBitString 3 buf), Some (ValVisibleString sz s)]"
    "mms_ok v" by (auto simp: tag_shape_def)
  then have "mms_ok (ValBitString 3 buf)" by simp
  from setBit_bits [OF this assms(2), of b] obtain buf' where
    b: "MmsValue_setBitStringBit (ValBitString 3 buf) i b = Some (ValBitString 3 buf')"
    "mms_ok (ValBitString 3 buf')" "\<forall>j. bit_at buf' j = (if j = i then b else bit_at buf j)" by blast
  let ?v = "ValStructure [Some (ValBitString 3 buf'), Some (ValVisibleString sz s)]"
  have "i = 0 \<or> i = 1 \<or> i = 2" using assms(2) by auto
  then have "tag_flags ?v = (tag_flags v)[i := b]"
    using b(3) by (auto simp: tag_flags_def v bits_of_3 simp del: bits_of.simps)
  moreover have "change_element (Some v) 0 (\<lambda>f. MmsValue_setBitStringBit f i b) = Some ?v"
    using b(1) by (simp add: change_element_def v)
  moreover have "tag_shape ?v" using v b(2) by (auto simp: tag_shape_def)
  ultimately show thesis using that v by simp
qed

lemma setArmedFlag_ok:
  assumes "control_ok cp"
  obtains cp' where "tase2_ControlPoint_setArmedFlag cp b = Some cp'" "control_ok cp'"
    "tase2_ControlPoint_getTagValue cp' = tase2_ControlPoint_getTagValue cp"
    "cp_pointValue cp' = cp_pointValue cp" "cp_serverCachedValue cp' = cp_serverCachedValue cp"
    "cp_tagOwner cp' = cp_tagOwner cp" "cp_hasTag cp \<Longrightarrow> tag_flags (the (cp_tagValue cp')) ! 2 = b"
proof (cases "cp_hasTag cp")
  case True
  with assms obtain v where v: "cp_tagValue cp = Some v" "tag_shape v" by (auto simp: control_ok_def)
  obtain v' where v': "change_element (Some v) 0 (\<lambda>f. MmsValue_setBitStringBit f 2 b) = Some v'" "tag_shape v'"
    "tag_flags v' = (tag_flags v)[2 := b]"
    using set_flag [OF v(2), of 2 b] by auto
  have "length (tag_flags v) = 3" using v(2) by (auto simp: tag_shape_def tag_flags_def)
  then show thesis using that [of "cp\<lparr>cp_tagValue := Some v'\<rparr>"] True v v' assms
    by (simp add: tase2_ControlPoint_setArmedFlag_def control_ok_def getTag_getTagValue getTagValue_shape)
next
  case False
  then show thesis using that [of cp] assms by (simp add: tase2_ControlPoint_setArmedFlag_def)
qed

lemma control_ok_fields [simp]:
  "control_ok (cp\<lparr>cp_selectedTimestamp := t\<rparr>) = control_ok cp"
  "control_ok (cp\<lparr>cp_selectedBy := c\<rparr>) = control_ok cp"
  "control_ok (cp\<lparr>cp_tagOwner := u\<rparr>) = control_ok cp"
  "tase2_ControlPoint_getTagValue (cp\<lparr>cp_selectedTimestamp := t\<rparr>) = tase2_ControlPoint_getTagValue cp"
  "tase2_ControlPoint_getTagValue (cp\<lparr>cp_selectedBy := c\<rparr>) = tase2_ControlPoint_getTagValue cp"
  "tase2_ControlPoint_getTagValue (cp\<lparr>cp_tagOwner := u\<rparr>) = tase2_ControlPoint_getTagValue cp"
  by (simp_all add: control_ok_def getTag_getTagValue)

lemma getTag_ok: "control_ok cp \<Longrightarrow> \<exists>tag. tase2_ControlPoint_getTagValue cp = Some tag"
  by (auto simp: control_ok_def getTag_getTagValue getTagValue_shape)

lemma tag_set_local:
  assumes "control_ok cp" "cp_hasTag cp"
  shows "\<exists>cp'. tase2_ControlPoint_setTagValue cp tag = Some cp' \<and> control_ok cp' \<and>
    tase2_ControlPoint_getTagValue cp' = Some tag \<and>
    tag_flags (the (cp_tagValue cp')) ! 2 = tag_flags (the (cp_tagValue cp)) ! 2 \<and>
    MmsValue_getElement (the (cp_tagValue cp')) 1 = MmsValue_getElement (the (cp_tagValue cp)) 1"
proof -
  obtain v where v: "cp_tagValue cp = Some v" "tag_shape v" using assms by (auto simp: control_ok_def)
  have len: "length (tag_flags v) = 3" using v(2) by (auto simp: tag_shape_def tag_flags_def)
  let ?b1 = "tag_int tag AND 1 \<noteq> 0" and ?b0 = "tag_int tag AND 2 \<noteq> 0"
  obtain v1 where v1: "change_element (Some v) 0 (\<lambda>f. MmsValue_setBitStringBit f 1 ?b1) = Some v1" "tag_shape v1"
    "tag_flags v1 = (tag_flags v)[1 := ?b1]" "MmsValue_getElement v1 1 = MmsValue_getElement v 1"
    using set_flag [OF v(2), of 1 ?b1] by auto
  obtain v2 where v2: "change_element (Some v1) 0 (\<lambda>f. MmsValue_setBitStringBit f 0 ?b0) = Some v2" "tag_shape v2"
    "tag_flags v2 = (tag_flags v1)[0 := ?b0]" "MmsValue_getElement v2 1 = MmsValue_getElement v1 1"
    using set_flag [OF v1(2), of 0 ?b0] by auto
  have "change_element (Some v) 0 (\<lambda>f. do { f \<leftarrow> MmsValue_setBitStringBit f 1 ?b1; MmsValue_setBitStringBit f 0 ?b0 }) = Some v2"
    using v1(1,2) v2(1) v(2) by (auto simp: change_element_def tag_shape_def split: Option.bind_splits)
  moreover have "tag_of_bits ?b0 ?b1 = tag" by (cases tag) (simp_all add: tag_of_bits_def)
  ultimately show ?thesis
    using assms v v1 v2 len
    by (simp add: tase2_ControlPoint_setTagValue_def control_ok_def getTag_getTagValue getTagValue_shape)
qed

text \<open>
  A tag set on a control point is the tag read back, whatever the armed flag;
  setting it keeps the reason and the armed flag.
\<close>

theorem tag_set_get:
  assumes "control_ok cp" "cp_hasTag cp"
  shows "\<exists>cp'. tase2_ControlPoint_setTagValue cp tag = Some cp' \<and> control_ok cp' \<and>
    tase2_ControlPoint_getTagValue cp' = Some tag \<and>
    tag_flags (the (cp_tagValue cp')) ! 2 = tag_flags (the (cp_tagValue cp)) ! 2 \<and>
    MmsValue_getElement (the (cp_tagValue cp')) 1 = MmsValue_getElement (the (cp_tagValue cp)) 1"
  by (rule tag_set_local [OF assms])

definition sample_tag :: MmsValue where
  "sample_tag = ValStructure [Some (ValBitString 3 [0]), Some (ValVisibleString 255 (Some []))]"

definition sample_control :: ControlPoint where
  "sample_control = \<lparr>cp_pointValue = Some (MmsValue_newInteger 16), cp_serverCachedValue = Some (MmsValue_newInteger 16),
     cp_pointType = TASE2_CONTROL_TYPE_COMMAND, cp_deviceClass = TASE2_DEVICE_CLASS_SBO, cp_hasTag = True,
     cp_checkBackId = 7, cp_selectedTimestamp = 0, cp_selectedBy = None, cp_tagValue = Some sample_tag,
     cp_tagOwner = None, cp_sboValue = None\<rparr>"

lemma sample_tag_shape: "tag_shape sample_tag"
  by (simp add: tag_shape_def sample_tag_def bitStringByteSize_def)

lemma sample_control_ok: "control_ok sample_control"
  by (simp add: control_ok_def sample_control_def sample_tag_shape value_shape_def control_value_spec_def
      MmsValue_newInteger_def BerInteger_createInt32_def)

theorem tag_set_get_witness:
  "\<exists>cp'. tase2_ControlPoint_setTagValue sample_control TASE2_TAG_CLOSE_ONLY_INHIBIT = Some cp' \<and>
    tase2_ControlPoint_getTagValue cp' = Some TASE2_TAG_CLOSE_ONLY_INHIBIT"
proof -
  have "cp_hasTag sample_control" by (simp add: sample_control_def)
  from tag_set_get [OF sample_control_ok this] show ?thesis by blast
qed

section \<open>Requests on well-formed control points\<close>

lemma update_shape:
  assumes "value_shape type val" "mms_ok u"
  shows "\<exists>v v' ok. val = Some v \<and> MmsValue_update v u = Some (v', ok) \<and> value_shape type (Some v')"
proof -
  obtain v where v: "val = Some v" "mms_ok v" "conforms (control_value_spec type) v"
    using assms(1) by (auto simp: value_shape_def)
  with update_total [OF v(2) assms(2)] obtain v' ok where
    "MmsValue_update v u = Some (v', ok)" "mms_ok v'" "MmsValue_equalTypes v v' = Some True"
    by (auto simp: update_result_def)
  then show ?thesis using v conforms_equalTypes by (auto simp: value_shape_def)
qed

lemma toInt32_ok: "mms_ok v \<Longrightarrow> \<exists>i. MmsValue_toInt32 v = Some i"
proof -
  have "\<exists>r. BerInteger_toInt32 w = Some r" if "ber_integer_ok w" for w
    using toInt32_value [OF that] by (cases "asn1_size w \<le> 4") (auto simp: BerInteger_toInt32_def)
  then show "mms_ok v \<Longrightarrow> \<exists>i. MmsValue_toInt32 v = Some i"
    by (cases v) (auto simp: MmsValue_toInt32_def)
qed

lemma toFloat_ok: "mms_ok v \<Longrightarrow> \<exists>r. MmsValue_toFloat d v = Some r"
  by (cases v) auto

lemma call_operate_handler_ok:
  assumes "mms_ok val"
  shows "\<exists>effs r. call_operate_handler srv cp val = Some (effs, r)"
  using toInt32_ok [OF assms] toFloat_ok [OF assms, of "srv_double_to_float srv"]
  by (auto simp: call_operate_handler_def split: option.splits)

text \<open>When an operate reaches the application.\<close>

definition command_permitted :: "ControlPoint \<Rightarrow> MmsValue \<Rightarrow> bool" where
  "command_permitted cp val \<longleftrightarrow>
     (cp_pointType cp = TASE2_CONTROL_TYPE_COMMAND \<longrightarrow>
        (MmsValue_toInt32 val = Some 1 \<or> MmsValue_toInt32 val = Some 0) \<and>
        (cp_hasTag cp \<longrightarrow> tase2_ControlPoint_getTagValue cp \<noteq> Some TASE2_TAG_OPEN_AND_CLOSE_INHIBIT \<and>
           \<not> (tase2_ControlPoint_getTagValue cp = Some TASE2_TAG_CLOSE_ONLY_INHIBIT \<and> MmsValue_toInt32 val = Some 1)))"

definition operate_permitted :: "control_server \<Rightarrow> ControlPoint \<Rightarrow> MmsValue \<Rightarrow> u64 \<Rightarrow> bool" where
  "operate_permitted srv cp val t \<longleftrightarrow>
     (cp_deviceClass cp = TASE2_DEVICE_CLASS_SBO \<longrightarrow> isArmed srv cp t) \<and> command_permitted cp val"

lemma sint_01: "sint (i :: u32) = 1 \<longleftrightarrow> i = 1" "sint (i :: u32) = 0 \<longleftrightarrow> i = 0"
  using signed_word_eqI [of i 1] signed_word_eqI [of i 0] by auto

lemma disarm_ok:
  assumes "control_ok cp"
  obtains cp1 where "(if cp_deviceClass cp = TASE2_DEVICE_CLASS_SBO
      then tase2_ControlPoint_setArmedFlag (cp\<lparr>cp_selectedTimestamp := 0\<rparr>) False else Some cp) = Some cp1"
    "control_ok cp1" "same_config cp cp1" "tase2_ControlPoint_getTagValue cp1 = tase2_ControlPoint_getTagValue cp"
    "cp_pointValue cp1 = cp_pointValue cp" "cp_serverCachedValue cp1 = cp_serverCachedValue cp"
proof (cases "cp_deviceClass cp = TASE2_DEVICE_CLASS_SBO")
  case True
  obtain cp1 where "tase2_ControlPoint_setArmedFlag (cp\<lparr>cp_selectedTimestamp := 0\<rparr>) False = Some cp1" "control_ok cp1"
    "tase2_ControlPoint_getTagValue cp1 = tase2_ControlPoint_getTagValue cp"
    "cp_pointValue cp1 = cp_pointValue cp" "cp_serverCachedValue cp1 = cp_serverCachedValue cp"
    using setArmedFlag_ok [of "cp\<lparr>cp_selectedTimestamp := 0\<rparr>" False] assms by auto
  then show thesis using that True clear_frame by auto
qed (use that assms in auto)

lemma command_error_ok:
  assumes "control_ok cp" "mms_ok val"
  shows "\<exists>error. command_error cp val = Some error \<and> (error = None \<longleftrightarrow> command_permitted cp val) \<and>
    error \<noteq> Some DATA_ACCESS_ERROR_SUCCESS"
proof -
  obtain i where i: "MmsValue_toInt32 val = Some i" using toInt32_ok [OF assms(2)] by blast
  obtain tag where tag: "tase2_ControlPoint_getTagValue cp = Some tag" using getTag_ok [OF assms(1)] by blast
  show ?thesis
    using sint_01 [of i]
    by (cases "cp_pointType cp"; cases "sint i = 0 \<or> sint i = 1"; cases "cp_hasTag cp"; cases tag)
      (auto simp: i tag TASE2_COMMAND_CLOSE_def TASE2_COMMAND_TRIP_def command_inhibited_def access_errors
        command_permitted_def command_error_def)
qed

lemma operate_branches:
  assumes "control_ok cp" "mms_ok val"
  shows "\<exists>cp' effs res. operateControl srv cp c val t = Some (cp', effs, res) \<and> control_ok cp' \<and>
    (if operate_permitted srv cp val t then
       \<exists>cp1 effs0 r. call_operate_handler srv cp1 val = Some (effs0, r) \<and> same_config cp cp1 \<and>
         (if r = TASE2_RESULT_SUCCESS then
            effs = effs0 @ [TransferSetsTriggered] \<and> res = DATA_ACCESS_ERROR_SUCCESS \<and>
            (\<exists>v v' ok. cp_pointValue cp = Some v \<and> MmsValue_update v val = Some (v', ok) \<and> cp_pointValue cp' = Some v')
          else effs = effs0 \<and> res = r \<and>
            cp_pointValue cp' = cp_pointValue cp \<and> cp_serverCachedValue cp' = cp_serverCachedValue cp)
     else effs = [] \<and> res \<noteq> DATA_ACCESS_ERROR_SUCCESS \<and>
       cp_pointValue cp' = cp_pointValue cp \<and> cp_serverCachedValue cp' = cp_serverCachedValue cp)"
proof (cases "cp_deviceClass cp = TASE2_DEVICE_CLASS_SBO \<and> \<not> isArmed srv cp t")
  case True
  then show ?thesis using assms(1) by (simp add: operateControl_def operate_permitted_def access_errors)
next
  case armed: False
  obtain cp1 where cp1: "(if cp_deviceClass cp = TASE2_DEVICE_CLASS_SBO
      then tase2_ControlPoint_setArmedFlag (cp\<lparr>cp_selectedTimestamp := 0\<rparr>) False else Some cp) = Some cp1"
    "control_ok cp1" "same_config cp cp1" "tase2_ControlPoint_getTagValue cp1 = tase2_ControlPoint_getTagValue cp"
    "cp_pointValue cp1 = cp_pointValue cp" "cp_serverCachedValue cp1 = cp_serverCachedValue cp"
    using disarm_ok [OF assms(1)] by metis
  obtain error where error: "command_error cp1 val = Some error" "error = None \<longleftrightarrow> command_permitted cp1 val"
    "error \<noteq> Some DATA_ACCESS_ERROR_SUCCESS"
    using command_error_ok [OF cp1(2) assms(2)] by blast
  have perm: "error = None \<longleftrightarrow> operate_permitted srv cp val t"
    using error(2) armed cp1(3,4) by (auto simp: operate_permitted_def command_permitted_def same_config_def)
  show ?thesis
  proof (cases error)
    case (Some e)
    then have "operateControl srv cp c val t = Some (cp1, [], e)"
      unfolding operateControl_def if_not_P [OF armed] cp1(1) using error(1) Some by simp
    then show ?thesis using Some perm error(3) cp1 by auto
  next
    case None
    obtain effs r where call: "call_operate_handler srv cp1 val = Some (effs, r)"
      using call_operate_handler_ok [OF assms(2)] by blast
    show ?thesis
    proof (cases "r = TASE2_RESULT_SUCCESS")
      case False
      then have "operateControl srv cp c val t = Some (cp1, effs, r)"
        unfolding operateControl_def if_not_P [OF armed] cp1(1) using error(1) None call by simp
      then show ?thesis using perm None cp1 call False by auto
    next
      case True
      obtain v v' ok where v: "cp_pointValue cp1 = Some v" "MmsValue_update v val = Some (v', ok)"
        "value_shape (cp_pointType cp1) (Some v')"
        using update_shape [OF _ assms(2), of "cp_pointType cp1" "cp_pointValue cp1"] cp1(2) by (auto simp: control_ok_def)
      obtain w w' ok' where w: "cp_serverCachedValue cp1 = Some w" "MmsValue_update w val = Some (w', ok')"
        "value_shape (cp_pointType cp1) (Some w')"
        using update_shape [OF _ assms(2), of "cp_pointType cp1" "cp_serverCachedValue cp1"] cp1(2) by (auto simp: control_ok_def)
      let ?cp = "cp1\<lparr>cp_pointValue := Some v', cp_serverCachedValue := Some w'\<rparr>"
      have "operateControl srv cp c val t = Some (?cp, effs @ [TransferSetsTriggered], DATA_ACCESS_ERROR_SUCCESS)"
        unfolding operateControl_def if_not_P [OF armed] cp1(1) using error(1) None call True v w by simp
      moreover have "control_ok ?cp" using cp1(2) v(3) w(3) by (simp add: control_ok_def)
      moreover have "cp_pointValue cp = Some v" using v(1) cp1(5) by simp
      moreover have "operate_permitted srv cp val t" using perm None by simp
      ultimately show ?thesis using call cp1(3) True v(2)
        by (intro exI [of _ ?cp] exI [of _ "effs @ [TransferSetsTriggered]"]
            exI [of _ DATA_ACCESS_ERROR_SUCCESS]) auto
    qed
  qed
qed

lemma operate_total:
  "control_ok cp \<Longrightarrow> mms_ok val \<Longrightarrow>
   \<exists>cp' effs res. operateControl srv cp c val t = Some (cp', effs, res) \<and> control_ok cp'"
  using operate_branches [of cp val srv c t] by blast



section \<open>Tagging by clients\<close>

lemma update_bits_size:
  assumes "mms_ok (ValBitString n a)" "mms_ok u"
  shows "\<exists>a' ok. MmsValue_update (ValBitString n a) u = Some (ValBitString n a', ok)"
proof (cases "\<exists>m b. u = ValBitString m b")
  case True
  then obtain m b where u: "u = ValBitString m b" by blast
  then show ?thesis
    using assms shorter_bits_ok [OF assms(1), of m b "[0..<m]"]
    by (cases "n = m"; cases "m < n") (auto simp: MmsValue_update.simps memcpy_eq)
next
  case False
  then show ?thesis by (cases u) (auto simp: MmsValue_update.simps)
qed

lemma conforms_pair:
  assumes "conforms (SpecStructure [s, t]) v"
  shows "\<exists>x y. v = ValStructure [Some x, Some y] \<and> conforms s x \<and> conforms t y"
proof -
  obtain cs where v: "v = ValStructure cs" "conform_all [s, t] cs" using assms by (cases v) auto
  then have "length cs = 2" by (simp add: conform_all_nth)
  then obtain c d where "cs = [c, d]" by (auto simp: length_Suc_conv numeral_2_eq_2)
  then show ?thesis using v by (auto split: option.splits)
qed

lemma tag_update:
  assumes "tag_shape v" "mms_ok u"
  shows "\<exists>v' ok. MmsValue_update v u = Some (v', ok) \<and> tag_shape v'"
proof -
  from assms(1) obtain buf sz s where v: "v = ValStructure [Some (ValBitString 3 buf), Some (ValVisibleString sz s)]"
    "mms_ok v" by (auto simp: tag_shape_def)
  obtain v' ok where v': "MmsValue_update v u = Some (v', ok)" "mms_ok v'" "MmsValue_equalTypes v v' = Some True"
    using update_total [OF v(2) assms(2)] by (auto simp: update_result_def)
  have "conforms tag_spec v" by (simp add: v tag_spec_def)
  then have "conforms tag_spec v'" using conforms_equalTypes v'(3) by blast
  then obtain x y where xy: "v' = ValStructure [Some x, Some y]" "MmsValue_getType x = MMS_BIT_STRING"
    "MmsValue_getType y = MMS_VISIBLE_STRING"
    using conforms_pair [of "SpecBitString 3" "SpecVisibleString 255" v'] unfolding tag_spec_def
    by (auto simp del: conforms.simps(2))
  have "\<exists>buf'. x = ValBitString 3 buf'"
  proof (cases "\<exists>b r. u = ValStructure [Some b, r]")
    case True
    then obtain b r where u: "u = ValStructure [Some b, r]" by blast
    then have "mms_ok b" using assms(2) by simp
    moreover have "mms_ok (ValBitString 3 buf)" using v by simp
    ultimately obtain buf' ok' where "MmsValue_update (ValBitString 3 buf) b = Some (ValBitString 3 buf', ok')"
      using update_bits_size by blast
    then show ?thesis using v'(1) xy(1)
      by (auto simp: MmsValue_update.simps [of "ValStructure _"] v u split: if_splits Option.bind_splits)
  next
    case False
    have "v' = v"
    proof (cases u)
      case (ValStructure cs)
      then have "length cs \<noteq> 2" using False assms(2)
        by (auto simp: length_Suc_conv numeral_2_eq_2 split: option.splits)
      then show ?thesis using v'(1) by (simp add: MmsValue_update.simps v ValStructure)
    qed (use v'(1) in \<open>simp_all add: MmsValue_update.simps v\<close>)
    then show ?thesis using v(1) xy(1) by simp
  qed
  moreover obtain sz' s' where "y = ValVisibleString sz' s'" using xy(3) by (cases y) auto
  ultimately show ?thesis using v'(1,2) xy(1) by (auto simp: tag_shape_def)
qed

text \<open>
  A tag belongs to the client that set it: while a control point carries a tag, a write of
  the tag by a client with another bilateral table is refused, without calling the handler and
  without changing anything.
\<close>

theorem tag_protected:
  assumes "control_ok cp" "cp_hasTag cp" "tase2_ControlPoint_getTagValue cp = Some tag"
    "tag \<noteq> TASE2_TAG_NO_TAG" "cp_tagOwner cp \<noteq> Some blt" "tag_request val"
  shows "\<exists>res. setTag srv cp (Some blt) val t = Some (cp, [], res) \<and> res \<noteq> DATA_ACCESS_ERROR_SUCCESS"
proof -
  obtain n buf r rest where val: "val = ValStructure (Some (ValBitString n buf) # Some r # rest)" "mms_ok val"
    using assms(6) by (auto simp: tag_request_def)
  then have "getTagValue val = Some (tag_of_bits (0 < n \<and> bit_at buf 0) (1 < n \<and> bit_at buf 1))"
    by (simp add: getTagValue_def getBit_bits)
  then show ?thesis using assms(2-5) by (auto simp: setTag_def access_errors)
qed

definition tagged_control :: ControlPoint where
  "tagged_control = sample_control\<lparr>cp_tagOwner := Some 5,
     cp_tagValue := Some (ValStructure [Some (ValBitString 3 [0x40]), Some (ValVisibleString 255 (Some []))])\<rparr>"

lemma tagged_control_ok: "control_ok tagged_control" "cp_hasTag tagged_control"
  "tase2_ControlPoint_getTagValue tagged_control = Some TASE2_TAG_OPEN_AND_CLOSE_INHIBIT"
proof -
  have "tag_shape (ValStructure [Some (ValBitString 3 [0x40]), Some (ValVisibleString 255 (Some []))])"
    by (simp add: tag_shape_def bitStringByteSize_def)
  then show "control_ok tagged_control" using sample_control_ok
    by (simp add: control_ok_def tagged_control_def)
  show "cp_hasTag tagged_control" by (simp add: tagged_control_def sample_control_def)
  show "tase2_ControlPoint_getTagValue tagged_control = Some TASE2_TAG_OPEN_AND_CLOSE_INHIBIT"
    by code_simp
qed

lemma sample_tag_request: "tag_request sample_tag"
  using sample_tag_shape by (auto simp: tag_request_def tag_shape_def)

theorem tag_protected_witness:
  "\<exists>srv res. setTag srv tagged_control (Some 6) sample_tag 20000 = Some (tagged_control, [], res) \<and>
     res \<noteq> DATA_ACCESS_ERROR_SUCCESS"
proof -
  have "cp_tagOwner tagged_control \<noteq> Some 6" by (simp add: tagged_control_def)
  from tag_protected [OF tagged_control_ok _ this sample_tag_request] show ?thesis by simp
qed

text \<open>
  What a tag write does: a well-formed tag is stored with all three flags (the armed flag,
  which the server maintains, as the client sent it) and its owner, or the control point
  is left alone; success means the tag reads back as requested, and an armed control refuses.
\<close>

theorem setTag_outcome:
  assumes "control_ok cp" "cp_hasTag cp" "tag_shape val"
  shows "\<exists>cp' effs res. setTag srv cp blt val t = Some (cp', effs, res) \<and> control_ok cp' \<and>
    (res \<noteq> DATA_ACCESS_ERROR_SUCCESS \<longrightarrow> cp' = cp) \<and>
    (res = DATA_ACCESS_ERROR_SUCCESS \<longrightarrow> \<not> isArmed srv cp t \<and>
       tase2_ControlPoint_getTagValue cp' = getTagValue val \<and>
       tag_flags (the (cp_tagValue cp')) = tag_flags val \<and> (cp' = cp \<or> cp_tagOwner cp' = blt))"
proof -
  obtain b sz s where val: "val = ValStructure [Some (ValBitString 3 b), Some (ValVisibleString sz s)]" "mms_ok val"
    using assms(3) by (auto simp: tag_shape_def)
  obtain v where v0: "cp_tagValue cp = Some v" "tag_shape v" using assms(1,2) by (auto simp: control_ok_def)
  then obtain b' sz' s' where v: "v = ValStructure [Some (ValBitString 3 b'), Some (ValVisibleString sz' s')]" "mms_ok v"
    by (auto simp: tag_shape_def)
  have len: "length b = 1" "length b' = 1" using val v by (simp_all add: bitStringByteSize_def)
  obtain q q' where q: "s = Some q" "s' = Some q'" using val v by (auto split: option.splits)
  obtain sz2 where sz2: "setVisibleStringValue sz' (Some q') (Some q) = Some (sz2, Some q)"
    "int (length q) \<le> sz2" "0 \<le> sz2" "sz2 < 2 ^ 15"
    using setVisibleStringValue_fits [of sz' q q'] val v q by auto
  let ?w = "ValStructure [Some (ValBitString 3 b), Some (ValVisibleString sz2 (Some q))]"
  have upd: "MmsValue_update v val = Some (?w, True)"
    using sz2(1) len by (simp add: v val q MmsValue_update.simps memcpy_eq bitStringByteSize_def
        del: setVisibleStringValue.simps)
  have w: "tag_shape ?w" using sz2 val q by (auto simp: tag_shape_def)
  have wf: "tag_flags ?w = tag_flags val" by (simp add: tag_flags_def val)
  have eq: "MmsValue_equals v val = Some (b' = b \<and> q' = q)"
  proof -
    obtain x y where "b = [x]" "b' = [y]" using len by (auto simp: length_Suc_conv)
    then show ?thesis by (simp add: v val q MmsValue_equals.simps rd_def bitStringByteSize_def)
  qed
  obtain r where r: "MmsValue_getElement val 1 = Some r" by (simp add: val)
  define tag where "tag = tag_of_bits (tag_flags val ! 0) (tag_flags val ! 1)"
  have gv: "getTagValue val = Some tag" "getTagValue ?w = Some tag"
    using getTagValue_shape [OF assms(3)] getTagValue_shape [OF w] wf by (simp_all add: tag_def)
  obtain cur where cur: "tase2_ControlPoint_getTagValue cp = Some cur" using getTag_ok [OF assms(1)] by blast
  show ?thesis
  proof (cases "tag = TASE2_TAG_INVALID \<or> isArmed srv cp t \<or>
      (cur \<noteq> TASE2_TAG_NO_TAG \<and> blt \<noteq> None \<and> blt \<noteq> cp_tagOwner cp)")
    case True
    then have "\<exists>res. setTag srv cp blt val t = Some (cp, [], res) \<and> res \<noteq> DATA_ACCESS_ERROR_SUCCESS"
      unfolding setTag_def using assms(2) gv(1) cur by (auto simp: access_errors)
    then show ?thesis using assms(1) by auto
  next
    case False
    then have cond: "\<not> tag = TASE2_TAG_INVALID" "\<not> isArmed srv cp t"
      "\<not> (cur \<noteq> TASE2_TAG_NO_TAG \<and> blt \<noteq> None \<and> blt \<noteq> cp_tagOwner cp)" by blast+
    have setTag: "setTag srv cp blt val t = (if b' = b \<and> q' = q then Some (cp, [], DATA_ACCESS_ERROR_SUCCESS)
        else do {
          (effects, result) \<leftarrow>
            (case srv_setTagHandler srv of
               Some h \<Rightarrow> do {
                 r \<leftarrow> MmsValue_getElement val 1;
                 let reason = MmsValue_toString r;
                 Some ([SetTagHandlerCalled tag reason], h cp tag reason) }
             | None \<Rightarrow> Some ([], TASE2_RESULT_SUCCESS));
          if result \<noteq> TASE2_RESULT_SUCCESS then Some (cp, effects, result)
          else Some (cp\<lparr>cp_tagValue := Some ?w, cp_tagOwner := blt\<rparr>,
                      effects @ [TransferSetsTriggered], DATA_ACCESS_ERROR_SUCCESS) })"
      unfolding setTag_def if_not_P [OF cond(1)] if_not_P [OF cond(2)] gv(1) cur v0(1) eq upd
        bind.bind_lunit if_not_P [OF cond(3)]
      using assms(2) by (simp only: not_not if_not_P [OF cond(1)] if_not_P [OF cond(2)] if_not_P [OF cond(3)] prod.case if_False not_True_eq_False)
    show ?thesis
    proof (cases "b' = b \<and> q' = q")
      case True
      then have "setTag srv cp blt val t = Some (cp, [], DATA_ACCESS_ERROR_SUCCESS)"
        unfolding setTag by simp
      moreover have "tag_flags v = tag_flags val" using True by (simp add: tag_flags_def v val)
      ultimately show ?thesis
        using assms(1,2) cond(2) v0 gv(1) getTagValue_shape [OF v0(2)] by (simp add: getTag_getTagValue tag_def)
    next
      case neq: False
      obtain effs res where call: "(case srv_setTagHandler srv of
           Some h \<Rightarrow> do {
             r \<leftarrow> MmsValue_getElement val 1;
             let reason = MmsValue_toString r;
             Some ([SetTagHandlerCalled tag reason], h cp tag reason) }
         | None \<Rightarrow> Some ([], TASE2_RESULT_SUCCESS)) = Some (effs, res)"
        using r by (cases "srv_setTagHandler srv") (simp_all add: Let_def)
      let ?cp = "cp\<lparr>cp_tagValue := Some ?w, cp_tagOwner := blt\<rparr>"
      have "setTag srv cp blt val t =
          (if res \<noteq> TASE2_RESULT_SUCCESS then Some (cp, effs, res)
           else Some (?cp, effs @ [TransferSetsTriggered], DATA_ACCESS_ERROR_SUCCESS))"
        unfolding setTag if_not_P [OF neq] call by simp
      moreover have "control_ok ?cp" using assms(1) w by (simp add: control_ok_def)
      ultimately show ?thesis
        using assms(1,2) cond(2) gv wf
        by (auto simp: getTag_getTagValue access_errors TASE2_RESULT_SUCCESS_def)
    qed
  qed
qed

theorem setTag_outcome_witness:
  "\<exists>srv cp' effs. setTag srv sample_control (Some 6)
      (ValStructure [Some (ValBitString 3 [0x60]), Some (ValVisibleString 255 (Some []))]) 20000 =
        Some (cp', effs, DATA_ACCESS_ERROR_SUCCESS) \<and>
      tag_flags (the (cp_tagValue cp')) = [False, True, True]"
proof -
  let ?val = "ValStructure [Some (ValBitString 3 [0x60]), Some (ValVisibleString 255 (Some []))]"
  define srv where "srv = \<lparr>srv_selectTimeout = 10000, srv_selectHandler = None, srv_operateHandler = None,
    srv_operateHandlerEx = None, srv_setTagHandler = None, srv_double_to_float = (\<lambda>_. 0)\<rparr>"
  have s: "tag_shape ?val" by (simp add: tag_shape_def bitStringByteSize_def)
  have h: "cp_hasTag sample_control" by (simp add: sample_control_def)
  have f: "tag_flags ?val = [False, True, True]" by code_simp
  obtain cp' effs res where c: "setTag srv sample_control (Some 6) ?val 20000 = Some (cp', effs, res)"
    "res = DATA_ACCESS_ERROR_SUCCESS \<longrightarrow> tag_flags (the (cp_tagValue cp')) = tag_flags ?val"
    using setTag_outcome [OF sample_control_ok h s] by blast
  have "map_option (\<lambda>(_, _, r). r) (setTag srv sample_control (Some 6) ?val 20000) = Some (- 1)"
    unfolding srv_def by code_simp
  then have "res = DATA_ACCESS_ERROR_SUCCESS" using c(1) by (simp add: access_errors)
  then show ?thesis using c f by auto
qed

section \<open>Every request returns\<close>

definition event_ok :: "control_event \<Rightarrow> bool" where
  "event_ok ev = (case ev of
     EvOperate _ val \<Rightarrow> mms_ok val
   | EvSetTag _ val \<Rightarrow> tag_request val
   | EvLocalSetTag _ (Some reason) _ \<Rightarrow> length reason < 2 ^ 15
   | _ \<Rightarrow> True)"

lemma tag_equals:
  assumes "tag_shape v" "mms_ok u"
  shows "\<exists>e. MmsValue_equals v u = Some e"
proof -
  from assms(1) obtain buf sz s where v: "v = ValStructure [Some (ValBitString 3 buf), Some (ValVisibleString sz s)]"
    "mms_ok (ValBitString 3 buf)" by (auto simp: tag_shape_def)
  have b: "\<exists>e. MmsValue_equals (ValBitString 3 buf) x = Some e" if "mms_ok x" for x
    using that v(2) by (cases x) (auto simp: MmsValue_equals.simps memcmp_eq_take)
  have r: "\<exists>e. MmsValue_equals (ValVisibleString sz s) x = Some e" for x
    by (cases x) (auto simp: MmsValue_equals.simps)
  show ?thesis
  proof (cases "\<exists>x y. u = ValStructure [Some x, Some y]")
    case True
    then obtain x y where u: "u = ValStructure [Some x, Some y]" by blast
    obtain e e' where "MmsValue_equals (ValBitString 3 buf) x = Some e" "MmsValue_equals (ValVisibleString sz s) y = Some e'"
      using b [of x] r [of y] assms(2) u by auto
    then show ?thesis unfolding v(1) u MmsValue_equals.simps [of "ValStructure _"] by (simp add: ex_bool_eq)
  next
    case False
    show ?thesis
    proof (cases u)
      case (ValStructure cs)
      then have "length cs \<noteq> 2" using False assms(2)
        by (auto simp: length_Suc_conv numeral_2_eq_2 split: option.splits)
      then show ?thesis by (simp add: MmsValue_equals.simps v ValStructure ex_bool_eq)
    qed (simp_all add: MmsValue_equals.simps v ex_bool_eq)
  qed
qed

lemma selectControl_ok:
  assumes "control_ok cp"
  shows "\<exists>cp' effs res. selectControl srv cp c t = Some (cp', effs, res) \<and> control_ok cp'"
proof -
  obtain tag where tag: "tase2_ControlPoint_getTagValue cp = Some tag" using getTag_ok [OF assms] by blast
  obtain cp' where "tase2_ControlPoint_setArmedFlag (cp\<lparr>cp_selectedTimestamp := t, cp_selectedBy := Some c\<rparr>) True = Some cp'"
    "control_ok cp'"
    using setArmedFlag_ok [of "cp\<lparr>cp_selectedTimestamp := t, cp_selectedBy := Some c\<rparr>" True] assms by auto
  then show ?thesis using assms tag
    by (cases "srv_selectHandler srv") (auto simp: selectControl_def Let_def)
qed

lemma setTag_ok:
  assumes "control_ok cp" "tag_request val"
  shows "\<exists>cp' effs res. setTag srv cp blt val t = Some (cp', effs, res) \<and> control_ok cp'"
proof (cases "cp_hasTag cp")
  case True
  obtain n b r rest where val: "val = ValStructure (Some (ValBitString n b) # Some r # rest)" "mms_ok val"
    using assms(2) by (auto simp: tag_request_def)
  obtain v where v: "cp_tagValue cp = Some v" "tag_shape v" using assms(1) True by (auto simp: control_ok_def)
  obtain cur where cur: "tase2_ControlPoint_getTagValue cp = Some cur" using getTag_ok [OF assms(1)] by blast
  have gv: "getTagValue val = Some (tag_of_bits (0 < n \<and> bit_at b 0) (1 < n \<and> bit_at b 1))"
    using val by (simp add: getTagValue_def getBit_bits)
  obtain same where same: "MmsValue_equals v val = Some same"
    using tag_equals [OF v(2) val(2)] by blast
  obtain v' ok where upd: "MmsValue_update v val = Some (v', ok)" "tag_shape v'"
    using tag_update [OF v(2) val(2)] by blast
  have r: "MmsValue_getElement val 1 = Some r" by (simp add: val)
  have "control_ok (cp\<lparr>cp_tagValue := Some v', cp_tagOwner := blt\<rparr>)"
    using assms(1) upd(2) by (simp add: control_ok_def)
  then show ?thesis
    unfolding setTag_def using True gv cur v(1) same upd(1) r assms(1)
    by (cases "srv_setTagHandler srv") (auto simp: Let_def)
qed (simp add: setTag_def assms(1))

lemma readTag_ok:
  assumes "control_ok cp"
  shows "\<exists>cp' v. readTag srv cp t = Some (cp', v) \<and> control_ok cp'"
proof -
  obtain cp' where "tase2_ControlPoint_setArmedFlag (cp\<lparr>cp_selectedTimestamp := 0\<rparr>) False = Some cp'" "control_ok cp'"
    using setArmedFlag_ok [of "cp\<lparr>cp_selectedTimestamp := 0\<rparr>" False] assms by auto
  then show ?thesis using assms by (auto simp: readTag_def)
qed

lemma local_setTag_ok:
  assumes "control_ok cp" "\<forall>s. reason = Some s \<longrightarrow> length s < 2 ^ 15"
  shows "\<exists>cp'. Tase2_ControlPoint_setTag cp tag reason owner = Some cp' \<and> control_ok cp'"
proof (cases "cp_hasTag cp")
  case True
  obtain cp1 where cp1: "tase2_ControlPoint_setTagValue cp tag = Some cp1" "control_ok cp1"
    using tag_set_local [OF assms(1) True] by blast
  obtain cp3 where "tase2_ControlPoint_setArmedFlag (cp1\<lparr>cp_selectedTimestamp := 0\<rparr>) False = Some cp3" "control_ok cp3"
    using setArmedFlag_ok [of "cp1\<lparr>cp_selectedTimestamp := 0\<rparr>" False] cp1(2) by auto
  then obtain cp2 where cp2: "(if cp_selectedTimestamp cp1 \<noteq> 0
      then tase2_ControlPoint_setArmedFlag (cp1\<lparr>cp_selectedTimestamp := 0\<rparr>) False else Some cp1) = Some cp2" "control_ok cp2"
    using cp1(2) by (cases "cp_selectedTimestamp cp1 = 0") auto
  have "cp_hasTag cp2"
    using True setTagValue_frame [OF cp1(1)] cp2(1) clear_frame [of cp1 cp2] by (auto simp: same_config_def split: if_splits)
  then obtain v where v: "cp_tagValue cp2 = Some v" "tag_shape v" using cp2(2) by (auto simp: control_ok_def)
  then obtain b sz s where vs: "v = ValStructure [Some (ValBitString 3 b), Some (ValVisibleString sz s)]" "mms_ok v"
    by (auto simp: tag_shape_def)
  show ?thesis
  proof (cases reason)
    case None
    then show ?thesis using True cp1 cp2 by (auto simp: Tase2_ControlPoint_setTag_def)
  next
    case (Some q)
    obtain q' where s: "s = Some q'" using vs by (auto split: option.splits)
    obtain sz' where sz': "setVisibleStringValue sz (Some q') (Some q) = Some (sz', Some q)"
      "int (length q) \<le> sz'" "0 \<le> sz'" "sz' < 2 ^ 15"
      using setVisibleStringValue_fits [of sz q q'] vs s assms(2) Some by auto
    let ?v = "ValStructure [Some (ValBitString 3 b), Some (ValVisibleString sz' (Some q))]"
    have "change_element (cp_tagValue cp2) 1 (\<lambda>r. MmsValue_setVisibleString r (Some q)) = Some ?v"
      using sz'(1) by (simp add: change_element_def v vs s del: setVisibleStringValue.simps)
    moreover have "control_ok (cp2\<lparr>cp_tagValue := Some ?v, cp_tagOwner := owner\<rparr>)"
      using cp2(2) sz' vs by (auto simp: control_ok_def tag_shape_def)
    ultimately show ?thesis using True cp1 cp2 Some by (auto simp: Tase2_ControlPoint_setTag_def)
  qed
qed (simp add: Tase2_ControlPoint_setTag_def assms(1))



text \<open>
  A written tag without its components is dereferenced all the same: on an unprotected
  control point \<open>setTag\<close> follows a null pointer when the client's structure is empty.
\<close>

theorem setTag_malformed:
  assumes "cp_hasTag cp"
  shows "setTag srv cp blt (ValStructure []) t = None"
  using assms by (simp add: setTag_def getTagValue_def MmsValue_getElement_def)

theorem setTag_malformed_witness: "\<exists>srv. setTag srv sample_control None (ValStructure []) 20000 = None"
  by (rule exI, rule setTag_malformed) (simp add: sample_control_def)

section \<open>The selection cycle\<close>



text \<open>
  A negative select timeout is converted to a huge unsigned one: within half the clock's
  range every control counts as armed, so no select is ever granted and operates of SBO
  controls need none.
\<close>

theorem negative_select_timeout:
  assumes "sint (srv_selectTimeout srv) < 0" "t - cp_selectedTimestamp cp < 2 ^ 63"
  shows "selectControl srv cp c t = Some (cp, [], DATA_ACCESS_ERROR_TEMPORARILY_UNAVAILABLE) \<and>
    (operate_permitted srv cp val t \<longleftrightarrow> command_permitted cp val)"
proof -
  let ?w = "scast (srv_selectTimeout srv) :: u64"
  have "bit (srv_selectTimeout srv) 31" using assms(1) bit_last_iff [of "srv_selectTimeout srv"] by simp
  then have "bit ?w 63" by (simp add: bit_signed_iff)
  then have "bit (unat ?w) 63" by (simp add: bit_unsigned_iff)
  then have "odd (unat ?w div 2 ^ 63)" unfolding bit_iff_odd .
  then have "2 ^ 63 \<le> unat ?w" by (metis div_less even_zero not_less)
  then have "2 ^ 63 \<le> ?w" by (simp add: word_le_nat_alt)
  then have "isArmed srv cp t" using assms(2) by (auto simp: isArmed_def)
  then show ?thesis by (simp add: selectControl_def operate_permitted_def)
qed

definition plain_server :: "u32 \<Rightarrow> control_server" where
  "plain_server timeout = \<lparr>srv_selectTimeout = timeout, srv_selectHandler = None, srv_operateHandler = None,
    srv_operateHandlerEx = None, srv_setTagHandler = None, srv_double_to_float = (\<lambda>_. 0)\<rparr>"

theorem negative_select_timeout_witness:
  "selectControl (plain_server (- 1)) sample_control 1 20000 =
     Some (sample_control, [], DATA_ACCESS_ERROR_TEMPORARILY_UNAVAILABLE) \<and>
   (operate_permitted (plain_server (- 1)) sample_control (MmsValue_newInteger 16) 20000 \<longleftrightarrow>
    command_permitted sample_control (MmsValue_newInteger 16))"
  by (rule negative_select_timeout) (simp_all add: plain_server_def sample_control_def)

lemma createFromInt32_total: "\<exists>a. BerInteger_createFromInt32 w = Some a"
proof -
  have "ber_integer_ok BerInteger_createInt32" by (simp add: BerInteger_createInt32_def)
  moreover have "le_bytes 4 w \<noteq> []" "4 = length (le_bytes 4 w)"
    using length_le_bytes [of 4 w] by auto
  ultimately show ?thesis
    using setIntegerValue_eq [of "le_bytes 4 w" 4 BerInteger_createInt32]
    by (auto simp: BerInteger_createFromInt32_def BerInteger_setInt32_def Let_def)
qed

text \<open>
  The control points the server builds are well formed and unselected, with the values their
  type declares, so every theorem above applies to them.
\<close>

theorem control_created:
  "\<exists>cp. createControlPointVariables (Tase2_ControlPoint_create type cls tag cbid) = Some cp \<and> control_ok cp \<and>
     cp_selectedTimestamp cp = 0 \<and> cp_pointType cp = type \<and> cp_deviceClass cp = cls \<and> cp_hasTag cp = tag \<and>
     (cls = TASE2_DEVICE_CLASS_SBO \<longleftrightarrow> cp_sboValue cp \<noteq> None) \<and>
     (tag = (tase2_ControlPoint_getTagValue cp = Some TASE2_TAG_NO_TAG \<and> cp_tagValue cp \<noteq> None))"
proof -
  have spec: "spec_ok (control_value_spec type)" by (cases type) (simp_all add: control_value_spec_def)
  obtain v where v: "MmsValue_newDefaultValue (control_value_spec type) = Some v" "mms_ok v"
    "conforms (control_value_spec type) v"
    using default_conforms [OF spec] by blast
  have t: "MmsValue_newDefaultValue tag_spec = Some sample_tag"
    using wrap16_id [of 255]
    by (simp add: tag_spec_def sample_tag_def MmsValue_newBitString_def bitStringByteSize_def
        MmsValue_newVisibleStringWithSize_def MmsValue_newStringWithSize_def string_value_def)
  obtain a where a: "BerInteger_createFromInt32 (scast cbid) = Some a"
    using createFromInt32_total by blast
  have g: "getTagValue sample_tag = Some TASE2_TAG_NO_TAG" by code_simp
  show ?thesis
    using v t a g sample_tag_shape
    by (cases cls; cases tag)
      (simp_all add: createControlPointVariables_def Tase2_ControlPoint_create_def control_ok_def value_shape_def
        MmsValue_newIntegerFromInt16_def getTag_getTagValue)
qed

text \<open>
  A tag write whose flags have more bits than the tag is acknowledged and
  changes the owner, but the tag is not stored: the result of \<open>MmsValue_update\<close> is not checked.
\<close>

theorem setTag_unstored:
  "map_option (\<lambda>(cp, effs, res). (tase2_ControlPoint_getTagValue cp, cp_tagOwner cp, res))
     (setTag (plain_server 10000) sample_control (Some 6)
       (ValStructure [Some (ValBitString 8 [0x40]), Some (ValVisibleString 255 (Some []))]) 20000) =
   Some (Some TASE2_TAG_NO_TAG, Some 6, DATA_ACCESS_ERROR_SUCCESS)"
  unfolding plain_server_def by code_simp

text \<open>
  A command integer of five or more octets does not fit \<open>int32_t\<close>; the conversion's failure
  is ignored and the value counts as 0, so a direct control executes it as a TRIP command.
\<close>

theorem oversized_command_trips:
  assumes "5 \<le> asn1_size i" "cp_pointType cp = TASE2_CONTROL_TYPE_COMMAND" "cp_deviceClass cp = TASE2_DEVICE_CLASS_DIRECT"
    "\<not> cp_hasTag cp" "srv_operateHandler srv = Some h" "operateControl srv cp c (ValInteger i) t = Some (cp', effs, res)"
  shows "OperateHandlerCalled (DiscreteValue 0) \<in> set effs"
proof -
  have "MmsValue_toInt32 (ValInteger i) = Some 0" using assms(1) by (simp add: MmsValue_toInt32_def BerInteger_toInt32_def)
  then show ?thesis using assms
    by (auto simp: operateControl_def command_error_def command_inhibited_def TASE2_COMMAND_CLOSE_def
        TASE2_COMMAND_TRIP_def call_operate_handler_def split: if_splits Option.bind_splits)
qed

theorem oversized_command_trips_witness:
  "\<exists>cp' effs res. operateControl (plain_server 10000\<lparr>srv_operateHandler := Some (\<lambda>_ _. 3)\<rparr>)
      (sample_control\<lparr>cp_deviceClass := TASE2_DEVICE_CLASS_DIRECT, cp_hasTag := False\<rparr>) 1
      (ValInteger \<lparr>asn1_size = 5, asn1_maxSize = 5, asn1_octets = [1, 0, 0, 0, 1]\<rparr>) 20000 = Some (cp', effs, res) \<and>
    OperateHandlerCalled (DiscreteValue 0) \<in> set effs"
proof -
  let ?i = "\<lparr>asn1_size = 5, asn1_maxSize = 5, asn1_octets = [1, 0, 0, 0, 1]\<rparr> :: Asn1PrimitiveValue"
  let ?srv = "plain_server 10000\<lparr>srv_operateHandler := Some (\<lambda>_ _. 3)\<rparr>"
  let ?cp = "sample_control\<lparr>cp_deviceClass := TASE2_DEVICE_CLASS_DIRECT, cp_hasTag := False\<rparr>"
  have "control_ok ?cp" using sample_control_ok by (simp add: control_ok_def)
  then obtain cp' effs res where r: "operateControl ?srv ?cp 1 (ValInteger ?i) 20000 = Some (cp', effs, res)"
    using operate_total [of ?cp "ValInteger ?i" ?srv 1 20000] by (auto simp: ber_integer_ok_def)
  have "OperateHandlerCalled (DiscreteValue 0) \<in> set effs"
    by (rule oversized_command_trips [OF _ _ _ _ _ r]) (simp_all add: sample_control_def)
  then show ?thesis using r by blast
qed

end
