(* ===== verification/TransferSet.thy ===== *)
theory TransferSet
  imports HashTree ControlPoint
begin

text \<open>
  DS transfer sets: \<^verbatim>\<open>tase2_server/ds_transfer_set.c\<close>, the report acknowledgement of
  \<^verbatim>\<open>tase2_server.c\<close> and the values of \<^verbatim>\<open>tase2_common/tase2_object_values.c\<close>.

  Transfer sets and data points are addresses into the server record, which holds what
  \<open>Tase2_Server\<close> and its data model hold. The list of a transfer set's data points mixes pointers
  to data points with pointers to the special values of the set (name, conditions, event code,
  time stamp), told apart by comparing with the pointers in the context information; taking a
  value for a data point is \<open>None\<close>. Reports and the notifications of the application are the
  effects of an operation, in order. Locks are not modelled: the functions run one at a time.
  A function reads the clock once. New values get addresses from a counter.
\<close>

definition cstring :: "string \<Rightarrow> cstr" where
  "cstring s = map of_char s"

section \<open>Data\<close>

datatype Tase2_Edition = TASE2_EDITION_1996_08 | TASE2_EDITION_2000_08

definition TRANSFER_SET_NAME :: u8 where "TRANSFER_SET_NAME = 1"
definition DS_CONDITIONS_DETECTED :: u8 where "DS_CONDITIONS_DETECTED = 2"
definition EVENT_CODE_DETECTED :: u8 where "EVENT_CODE_DETECTED = 4"
definition TRANSFER_SET_TIMESTAMP :: u8 where "TRANSFER_SET_TIMESTAMP = 8"

lemmas special_flags = TRANSFER_SET_NAME_def DS_CONDITIONS_DETECTED_def EVENT_CODE_DETECTED_def
  TRANSFER_SET_TIMESTAMP_def

definition TASE2_REPORT_REASON_INTERVAL_TIMEOUT :: u32 where "TASE2_REPORT_REASON_INTERVAL_TIMEOUT = 1"
definition TASE2_REPORT_REASON_INTEGRITY_TIMEOUT :: u32 where "TASE2_REPORT_REASON_INTEGRITY_TIMEOUT = 2"
definition TASE2_REPORT_REASON_OBJECT_CHANGE :: u32 where "TASE2_REPORT_REASON_OBJECT_CHANGE = 4"

text \<open>\<open>activeTransferSets\<close>: the transfer sets with the data set index of the point.\<close>

record DataPoint =
  dp_isControl :: bool
  dp_pointName :: cstr
  dp_domainName :: "cstr option"
  dp_pointValue :: "MmsValue option"
  dp_tagValue :: "MmsValue option"
  dp_activeTransferSets :: "(nat \<times> nat) list option"

datatype ts_element = ElemValue nat | ElemPoint point

record BufferedEvent =
  ev_dataPoint :: point
  ev_value :: MmsValue

text \<open>\<open>nextSendTime\<close> and \<open>period\<close> are set only when the interval condition is requested.\<close>

record ActiveInfo =
  ai_lastSent :: u64
  ai_lastSentIntegrityReport :: u64
  ai_nextSendTime :: "u64 option"
  ai_period :: "u32 option"
  ai_integrityPeriod :: u32
  ai_isCritical :: bool
  ai_bufferTime :: u32
  ai_bufferStarted :: u64
  ai_bufferedDataPoints :: "MmsValue option"
  ai_includedSpecialObjects :: u8
  ai_tsNameValue :: "(nat \<times> MmsValue) option"
  ai_dsConditionsValue :: "(nat \<times> MmsValue) option"
  ai_eventCodeDetectedValue :: "(nat \<times> MmsValue) option"
  ai_tsTimestampValue :: "(nat \<times> MmsValue) option"
  ai_outstandingCriticalReports :: "u64 list"
  ai_bufferedEvents :: "BufferedEvent list option"
  ai_eventQueueSize :: int

record DSTransferSet =
  ts_name :: cstr
  ts_domainName :: cstr
  ts_mmsValue :: MmsValue
  ts_edition :: Tase2_Edition
  ts_connection :: "nat option"
  ts_dataPoints :: "ts_element list option"
  ts_info :: "ActiveInfo option"

datatype ts_effect =
    ReportDataSet nat "cstr option" "cstr option" "MmsValue option list" u32
  | ReportVariables nat "(cstr option \<times> cstr) list" "MmsValue option list" u32
  | StateChanged nat bool
  | Updated nat bool
  | CriticalNotConfirmed nat u64 bool

type_synonym points = "point \<Rightarrow> DataPoint"

section \<open>The requested conditions\<close>

definition ts_element_value :: "DSTransferSet \<Rightarrow> int \<Rightarrow> MmsValue option" where
  "ts_element_value ts index = MmsValue_getElement (ts_mmsValue ts) index"

definition status_index :: "Tase2_Edition \<Rightarrow> int" where
  "status_index edition = (if edition = TASE2_EDITION_1996_08 then 10 else 11)"

definition tase2_DSTransferSet_isEnabled :: "DSTransferSet \<Rightarrow> bool option" where
  "tase2_DSTransferSet_isEnabled ts =
     (if ts_edition ts = TASE2_EDITION_1996_08 then ts_element_value ts 10 \<bind> MmsValue_getBoolean
      else ts_element_value ts 11 \<bind> MmsValue_getBoolean)"

definition isRBEEnabled :: "DSTransferSet \<Rightarrow> bool option" where
  "isRBEEnabled ts = ts_element_value ts 9 \<bind> MmsValue_getBoolean"

definition isAllChangesReportedEnabled :: "DSTransferSet \<Rightarrow> bool option" where
  "isAllChangesReportedEnabled ts =
     (if ts_edition ts = TASE2_EDITION_1996_08 then Some False
      else ts_element_value ts 10 \<bind> MmsValue_getBoolean)"

definition isIntervalTimeoutEnabled :: "MmsValue \<Rightarrow> bool option" where
  "isIntervalTimeoutEnabled dsConditions = MmsValue_getBitStringBit dsConditions 0"

definition isIntegrityTimeoutEnabled :: "MmsValue \<Rightarrow> bool option" where
  "isIntegrityTimeoutEnabled dsConditions = MmsValue_getBitStringBit dsConditions 1"

definition isObjectChangedEnabled :: "MmsValue \<Rightarrow> bool option" where
  "isObjectChangedEnabled dsConditions = MmsValue_getBitStringBit dsConditions 2"

section \<open>Special values\<close>

definition tase2_createObjectNameValue :: "cstr option \<Rightarrow> cstr \<Rightarrow> MmsValue option" where
  "tase2_createObjectNameValue domainName name = do {
     let v = MmsValue_createEmptyStructure 3;
     scope \<leftarrow> MmsValue_newUnsignedFromUint32 (if domainName = None then 0 else 1);
     d \<leftarrow> MmsValue_newVisibleString (Some (case domainName of None \<Rightarrow> [] | Some d \<Rightarrow> d));
     n \<leftarrow> MmsValue_newVisibleString (Some name);
     let v = MmsValue_setElement v 0 (Some scope);
     let v = MmsValue_setElement v 1 (Some d);
     Some (MmsValue_setElement v 2 (Some n)) }"

definition tase2_createDSConditionsValue :: "bool \<Rightarrow> bool \<Rightarrow> bool \<Rightarrow> bool \<Rightarrow> bool \<Rightarrow> MmsValue option" where
  "tase2_createDSConditionsValue intervalTimeout integrityTimeout objectChange operatorRequest otherEvent = do {
     let v = MmsValue_newBitString 5;
     v \<leftarrow> MmsValue_setBitStringBit v 0 intervalTimeout;
     v \<leftarrow> MmsValue_setBitStringBit v 1 integrityTimeout;
     v \<leftarrow> MmsValue_setBitStringBit v 2 objectChange;
     v \<leftarrow> MmsValue_setBitStringBit v 3 operatorRequest;
     MmsValue_setBitStringBit v 4 otherEvent }"

text \<open>Whether an optional pointer is the address; its value, changed by \<open>f\<close>.\<close>

definition points_to :: "(nat \<times> MmsValue) option \<Rightarrow> nat \<Rightarrow> bool" where
  "points_to ptr a = (case ptr of Some (b, _) \<Rightarrow> a = b | None \<Rightarrow> False)"

definition change_value :: "(nat \<times> MmsValue) option \<Rightarrow> (MmsValue \<Rightarrow> MmsValue option) \<Rightarrow> (nat \<times> MmsValue) option" where
  "change_value ptr f = do { (a, v) \<leftarrow> ptr; v \<leftarrow> f v; Some (a, v) }"

definition set_conditions :: "ActiveInfo \<Rightarrow> u32 \<Rightarrow> ActiveInfo option" where
  "set_conditions info reason = do {
     p \<leftarrow> change_value (ai_dsConditionsValue info) (\<lambda>v. MmsValue_setBitStringFromInteger v reason);
     Some (info\<lparr>ai_dsConditionsValue := Some p\<rparr>) }"

definition set_timestamp :: "ActiveInfo \<Rightarrow> u64 \<Rightarrow> ActiveInfo option" where
  "set_timestamp info currentTime = do {
     p \<leftarrow> change_value (ai_tsTimestampValue info) (\<lambda>v. MmsValue_setInt32 v (ucast (currentTime div 1000)));
     Some (info\<lparr>ai_tsTimestampValue := Some p\<rparr>) }"

section \<open>Reports\<close>

definition critical_sent :: "u64 \<Rightarrow> ActiveInfo \<Rightarrow> ActiveInfo" where
  "critical_sent currentTime info =
     (if ai_isCritical info
      then info\<lparr>ai_outstandingCriticalReports := ai_outstandingCriticalReports info @ [currentTime]\<rparr>
      else info)"

definition reported_value :: "DataPoint \<Rightarrow> MmsValue option" where
  "reported_value dp = (if dp_isControl dp then dp_tagValue dp else dp_pointValue dp)"

text \<open>One element of \<open>sendDSTransferSetAsDataSet\<close>'s loop.\<close>

definition add_element ::
    "points \<Rightarrow> u32 \<Rightarrow> u64 \<Rightarrow> ts_element \<Rightarrow> ActiveInfo \<times> MmsValue option list \<Rightarrow>
     (ActiveInfo \<times> MmsValue option list) option" where
  "add_element pts reason currentTime e s = (case s of (info, vals) \<Rightarrow>
     (case e of
        ElemValue a \<Rightarrow>
          if points_to (ai_tsNameValue info) a then Some (info, vals @ [map_option snd (ai_tsNameValue info)])
          else if points_to (ai_dsConditionsValue info) a then do {
            info \<leftarrow> set_conditions info reason;
            Some (info, vals @ [map_option snd (ai_dsConditionsValue info)]) }
          else if points_to (ai_eventCodeDetectedValue info) a
          then Some (info, vals @ [map_option snd (ai_eventCodeDetectedValue info)])
          else if points_to (ai_tsTimestampValue info) a then do {
            info \<leftarrow> set_timestamp info currentTime;
            Some (info, vals @ [map_option snd (ai_tsTimestampValue info)]) }
          else None
      | ElemPoint p \<Rightarrow> Some (info, vals @ [reported_value (pts p)])))"

definition sendDSTransferSetAsDataSet ::
    "points \<Rightarrow> DSTransferSet \<Rightarrow> u32 \<Rightarrow> u64 \<Rightarrow> (DSTransferSet \<times> ts_effect list) option" where
  "sendDSTransferSetAsDataSet pts ts reason currentTime = do {
     dataSetName \<leftarrow> ts_element_value ts 0;
     scope \<leftarrow> MmsValue_getElement dataSetName 0;
     domainScope \<leftarrow> MmsValue_toUint32 scope;
     d \<leftarrow> MmsValue_getElement dataSetName 1;
     n \<leftarrow> MmsValue_getElement dataSetName 2;
     info \<leftarrow> ts_info ts;
     let info = critical_sent currentTime info;
     elems \<leftarrow> ts_dataPoints ts;
     (info, vals) \<leftarrow> for_each elems (add_element pts reason currentTime) (info, []);
     connection \<leftarrow> ts_connection ts;
     Some (ts\<lparr>ts_info := Some info\<rparr>,
           [ReportDataSet connection (if domainScope = 1 then MmsValue_toString d else None)
              (MmsValue_toString n) vals reason]) }"

definition Tase2_Server_requestReport ::
    "points \<Rightarrow> DSTransferSet \<Rightarrow> u32 \<Rightarrow> u16 \<Rightarrow> u64 \<Rightarrow> (DSTransferSet \<times> ts_effect list \<times> bool) option" where
  "Tase2_Server_requestReport pts ts reason eventCode currentTime =
     (case ts_info ts of
        Some info \<Rightarrow> do {
          p \<leftarrow> change_value (ai_eventCodeDetectedValue info) (\<lambda>v. MmsValue_setInt16 v eventCode);
          (ts, effects) \<leftarrow> sendDSTransferSetAsDataSet pts
             (ts\<lparr>ts_info := Some (info\<lparr>ai_eventCodeDetectedValue := Some p\<rparr>)\<rparr>) reason currentTime;
          Some (ts, effects, True) }
      | None \<Rightarrow> Some (ts, [], False))"

text \<open>The special objects at the head of a report by variables, by the flags of the set.\<close>

type_synonym report_content = "(cstr option \<times> cstr) list \<times> MmsValue option list"

definition special_objects ::
    "cstr \<Rightarrow> u32 \<Rightarrow> u64 \<Rightarrow> ActiveInfo \<Rightarrow> (ActiveInfo \<times> report_content) option" where
  "special_objects domainName reason currentTime info = do {
     let flags = ai_includedSpecialObjects info;
     let (specs, vals) = (if flags AND TRANSFER_SET_NAME \<noteq> 0
       then ([(Some domainName, cstring ''Transfer_Set_Name'')], [map_option snd (ai_tsNameValue info)])
       else ([], []));
     (info, specs, vals) \<leftarrow> (if flags AND DS_CONDITIONS_DETECTED \<noteq> 0 then do {
         info \<leftarrow> set_conditions info reason;
         Some (info, specs @ [(Some domainName, cstring ''DSConditions_Detected'')],
               vals @ [map_option snd (ai_dsConditionsValue info)]) }
       else Some (info, specs, vals));
     let (specs, vals) = (if flags AND EVENT_CODE_DETECTED \<noteq> 0
       then (specs @ [(Some domainName, cstring ''Event_Code_Detected'')],
             vals @ [map_option snd (ai_eventCodeDetectedValue info)])
       else (specs, vals));
     (info, specs, vals) \<leftarrow> (if flags AND TRANSFER_SET_TIMESTAMP \<noteq> 0 then do {
         info \<leftarrow> set_timestamp info currentTime;
         Some (info, specs @ [(Some domainName, cstring ''Transfer_Set_Time_Stamp'')],
               vals @ [map_option snd (ai_tsTimestampValue info)]) }
       else Some (info, specs, vals));
     Some (info, specs, vals) }"

text \<open>The name a point is reported under; the buffer for a tag's name has 65 bytes.\<close>

definition reported_name :: "DataPoint \<Rightarrow> (cstr option \<times> cstr) option" where
  "reported_name dp =
     (if dp_isControl dp then
        if length (dp_pointName dp) + 4 < 65 then Some (dp_domainName dp, dp_pointName dp @ cstring ''_TAG'')
        else None
      else Some (dp_domainName dp, dp_pointName dp))"

definition sendDSTransferSetSingleDataPoint ::
    "points \<Rightarrow> DSTransferSet \<Rightarrow> point \<Rightarrow> u32 \<Rightarrow> u64 \<Rightarrow> (DSTransferSet \<times> ts_effect list) option" where
  "sendDSTransferSetSingleDataPoint pts ts dataPoint reason currentTime = do {
     info \<leftarrow> ts_info ts;
     let info = critical_sent currentTime info;
     (info, specs, vals) \<leftarrow> special_objects (ts_domainName ts) TASE2_REPORT_REASON_OBJECT_CHANGE currentTime info;
     name \<leftarrow> reported_name (pts dataPoint);
     connection \<leftarrow> ts_connection ts;
     Some (ts\<lparr>ts_info := Some info\<rparr>,
           [ReportVariables connection (specs @ [name]) (vals @ [reported_value (pts dataPoint)]) reason]) }"

text \<open>The changed points: from the event queue, or by the bits of the buffer.\<close>

definition add_event :: "points \<Rightarrow> BufferedEvent \<Rightarrow> report_content \<Rightarrow> report_content option" where
  "add_event pts event s = (case s of (specs, vals) \<Rightarrow> do {
     name \<leftarrow> reported_name (pts (ev_dataPoint event));
     Some (specs @ [name], vals @ [Some (ev_value event)]) })"

fun add_changed ::
    "points \<Rightarrow> MmsValue \<Rightarrow> nat \<Rightarrow> ts_element list \<Rightarrow> report_content \<Rightarrow> report_content option" where
  "add_changed pts buffered dpIndex [] s = Some s"
| "add_changed pts buffered dpIndex (e # es) (specs, vals) = do {
     changed \<leftarrow> MmsValue_getBitStringBit buffered dpIndex;
     (specs, vals) \<leftarrow>
       (if changed then
          (case e of
             ElemPoint p \<Rightarrow> do {
               name \<leftarrow> reported_name (pts p);
               Some (specs @ [name], vals @ [reported_value (pts p)]) }
           | ElemValue a \<Rightarrow> None)
        else Some (specs, vals));
     add_changed pts buffered (dpIndex + 1) es (specs, vals) }"

definition sendDSTransferSetChangedDataPoints ::
    "points \<Rightarrow> DSTransferSet \<Rightarrow> u32 \<Rightarrow> u64 \<Rightarrow> (DSTransferSet \<times> ts_effect list) option" where
  "sendDSTransferSetChangedDataPoints pts ts reportReason currentTime = do {
     info \<leftarrow> ts_info ts;
     let info = critical_sent currentTime info;
     (info, specs, vals) \<leftarrow> special_objects (ts_domainName ts) reportReason currentTime info;
     all \<leftarrow> isAllChangesReportedEnabled ts;
     (specs, vals) \<leftarrow>
       (if all then
          (case ai_bufferedEvents info of
             Some events \<Rightarrow> for_each events (add_event pts) (specs, vals)
           | None \<Rightarrow> Some (specs, vals))
        else do {
          elems \<leftarrow> ts_dataPoints ts;
          buffered \<leftarrow> ai_bufferedDataPoints info;
          add_changed pts buffered 0 elems (specs, vals) });
     connection \<leftarrow> ts_connection ts;
     let info = (if all \<and> ai_bufferedEvents info \<noteq> None
                 then info\<lparr>ai_bufferedEvents := None, ai_eventQueueSize := 0\<rparr> else info);
     Some (ts\<lparr>ts_info := Some info\<rparr>, [ReportVariables connection specs vals reportReason]) }"

end
