(* ===== verification/DataModel.thy ===== *)
theory DataModel
  imports TransferSet
begin

text \<open>
  What the transfer sets look things up in: the named variable lists (data sets) and domains of
  the MMS device (\<^verbatim>\<open>mms_device.c\<close>, \<^verbatim>\<open>mms_domain.c\<close>, \<^verbatim>\<open>mms_server_common.c\<close>), and the domains, data
  points and transfer sets of the data model (\<^verbatim>\<open>tase2_server/tase2_model.c\<close>).

  A linked list of siblings is a list. A domain's points and transfer sets are addresses; what
  is stored there is in the server record of \<open>TransferSetServer\<close>. A null domain name marks the
  VCC, the domain of virtual control centre scope.
\<close>

section \<open>Named variable lists\<close>

text \<open>An entry: the domain's name, and the address of the variable's name next to the name.\<close>

record MmsNamedVariableListEntry =
  nve_domain :: "cstr option"
  nve_variableName :: cstr
  nve_nameAddress :: nat
  nve_arrayIndex :: u32
  nve_componentName :: "cstr option"

record MmsNamedVariableList =
  nvl_deletable :: bool
  nvl_name :: cstr
  nvl_listOfVariables :: "MmsNamedVariableListEntry list"

record MmsDomain =
  mdom_domainName :: cstr
  mdom_namedVariableLists :: "MmsNamedVariableList list"

record MmsDevice =
  mdev_domains :: "MmsDomain list"
  mdev_namedVariableLists :: "MmsNamedVariableList list"

definition MmsNamedVariableList_create :: "cstr \<Rightarrow> bool \<Rightarrow> MmsNamedVariableList" where
  "MmsNamedVariableList_create name deletable =
     \<lparr>nvl_deletable = deletable, nvl_name = name, nvl_listOfVariables = []\<rparr>"

definition MmsNamedVariableList_addVariable ::
    "MmsNamedVariableList \<Rightarrow> MmsNamedVariableListEntry \<Rightarrow> MmsNamedVariableList" where
  "MmsNamedVariableList_addVariable self variable =
     self\<lparr>nvl_listOfVariables := nvl_listOfVariables self @ [variable]\<rparr>"

fun mmsServer_getNamedVariableListWithName :: "MmsNamedVariableList list \<Rightarrow> cstr \<Rightarrow> MmsNamedVariableList option" where
  "mmsServer_getNamedVariableListWithName [] variableListName = None"
| "mmsServer_getNamedVariableListWithName (varList # varLists) variableListName =
     (if nvl_name varList = variableListName then Some varList
      else mmsServer_getNamedVariableListWithName varLists variableListName)"

fun mmsServer_deleteVariableList :: "MmsNamedVariableList list \<Rightarrow> cstr \<Rightarrow> MmsNamedVariableList list" where
  "mmsServer_deleteVariableList [] variableListName = []"
| "mmsServer_deleteVariableList (varList # varLists) variableListName =
     (if nvl_name varList = variableListName then varLists
      else varList # mmsServer_deleteVariableList varLists variableListName)"

definition MmsDevice_getDomain :: "MmsDevice \<Rightarrow> cstr \<Rightarrow> MmsDomain option" where
  "MmsDevice_getDomain self domainId = find (\<lambda>d. mdom_domainName d = domainId) (mdev_domains self)"

definition MmsDevice_getNamedVariableListWithName :: "MmsDevice \<Rightarrow> cstr \<Rightarrow> MmsNamedVariableList option" where
  "MmsDevice_getNamedVariableListWithName self variableListName =
     mmsServer_getNamedVariableListWithName (mdev_namedVariableLists self) variableListName"

definition MmsDevice_addNamedVariableList :: "MmsDevice \<Rightarrow> MmsNamedVariableList \<Rightarrow> MmsDevice" where
  "MmsDevice_addNamedVariableList self variableList =
     self\<lparr>mdev_namedVariableLists := mdev_namedVariableLists self @ [variableList]\<rparr>"

definition MmsDomain_getNamedVariableList :: "MmsDomain option \<Rightarrow> cstr \<Rightarrow> MmsNamedVariableList option" where
  "MmsDomain_getNamedVariableList self variableListName =
     (case self of None \<Rightarrow> None
      | Some d \<Rightarrow> mmsServer_getNamedVariableListWithName (mdom_namedVariableLists d) variableListName)"

definition MmsDomain_addNamedVariableList :: "MmsDomain \<Rightarrow> MmsNamedVariableList \<Rightarrow> MmsDomain" where
  "MmsDomain_addNamedVariableList self variableList =
     self\<lparr>mdom_namedVariableLists := mdom_namedVariableLists self @ [variableList]\<rparr>"

definition MmsDomain_deleteNamedVariableList :: "MmsDomain \<Rightarrow> cstr \<Rightarrow> MmsDomain" where
  "MmsDomain_deleteNamedVariableList self variableListName =
     self\<lparr>mdom_namedVariableLists :=
       mmsServer_deleteVariableList (mdom_namedVariableLists self) variableListName\<rparr>"

section \<open>Domains\<close>

text \<open>The entry of a data set has the address of a domain, null for none.\<close>

record Tase2_DataSetEntry =
  dse_domain :: "nat option"
  dse_variableName :: cstr

record Tase2_DataSet =
  ds_name :: cstr
  ds_entries :: "Tase2_DataSetEntry list"

record InformationMessage =
  imsg_maxSize :: u32
  imsg_infoBuf :: MmsValue

record Tase2_Domain =
  dom_name :: "cstr option"
  dom_dataPoints :: "point list"
  dom_dataPointHashTree :: "point HashTreeNode"
  dom_dataSets :: "Tase2_DataSet list"
  dom_transferSets :: "nat list"
  dom_informationMessages :: "InformationMessage list"

record Tase2_DataModel =
  dm_vcc :: Tase2_Domain
  dm_domains :: "Tase2_Domain list"
  dm_hideSpecialTSVariables :: bool
  dm_edition :: Tase2_Edition

definition Tase2_Domain_create :: "cstr option \<Rightarrow> Tase2_Domain" where
  "Tase2_Domain_create domainName =
     \<lparr>dom_name = domainName, dom_dataPoints = [], dom_dataPointHashTree = HashTree_create, dom_dataSets = [],
      dom_transferSets = [], dom_informationMessages = []\<rparr>"

definition Tase2_DataModel_create :: Tase2_DataModel where
  "Tase2_DataModel_create =
     \<lparr>dm_vcc = Tase2_Domain_create None, dm_domains = [], dm_hideSpecialTSVariables = False,
      dm_edition = TASE2_EDITION_2000_08\<rparr>"

definition Tase2_DataModel_setEdition :: "Tase2_DataModel \<Rightarrow> Tase2_Edition \<Rightarrow> Tase2_DataModel" where
  "Tase2_DataModel_setEdition self edition = self\<lparr>dm_edition := edition\<rparr>"

definition Tase2_DataModel_hideSpecialTSVariables :: "Tase2_DataModel \<Rightarrow> bool \<Rightarrow> Tase2_DataModel" where
  "Tase2_DataModel_hideSpecialTSVariables self v = self\<lparr>dm_hideSpecialTSVariables := v\<rparr>"

definition Tase2_DataModel_addDomain :: "Tase2_DataModel \<Rightarrow> cstr \<Rightarrow> Tase2_DataModel" where
  "Tase2_DataModel_addDomain self domainName =
     self\<lparr>dm_domains := dm_domains self @ [Tase2_Domain_create (Some domainName)]\<rparr>"

definition Tase2_DataModel_getDomain :: "Tase2_DataModel \<Rightarrow> cstr \<Rightarrow> Tase2_Domain option" where
  "Tase2_DataModel_getDomain self domainName = find (\<lambda>d. dom_name d = Some domainName) (dm_domains self)"

definition Tase2_DataModel_getVCC :: "Tase2_DataModel \<Rightarrow> Tase2_Domain" where
  "Tase2_DataModel_getVCC self = dm_vcc self"

text \<open>The tree stores the pointer to the point, which is not null.\<close>

definition appendPointToPointList :: "Tase2_Domain \<Rightarrow> point \<Rightarrow> cstr \<Rightarrow> Tase2_Domain option" where
  "appendPointToPointList self newPoint pointName = do {
     t \<leftarrow> HashTree_add (\<lambda>_. newPoint) (dom_dataPointHashTree self) pointName (Some newPoint);
     Some (self\<lparr>dom_dataPoints := dom_dataPoints self @ [newPoint], dom_dataPointHashTree := t\<rparr>) }"

definition Tase2_Domain_getDataPoint :: "Tase2_Domain \<Rightarrow> cstr \<Rightarrow> point option" where
  "Tase2_Domain_getDataPoint self pointName = HashTree_find (dom_dataPointHashTree self) pointName"

definition appendTransferSet :: "Tase2_Domain \<Rightarrow> nat \<Rightarrow> Tase2_Domain" where
  "appendTransferSet self newTs = self\<lparr>dom_transferSets := dom_transferSets self @ [newTs]\<rparr>"

text \<open>A data set is configured in its domain; it is a value of the domain's list.\<close>

definition Tase2_DataSet_create :: "cstr \<Rightarrow> Tase2_DataSet" where
  "Tase2_DataSet_create name = \<lparr>ds_name = name, ds_entries = []\<rparr>"

definition appendDataSet :: "Tase2_Domain \<Rightarrow> Tase2_DataSet \<Rightarrow> Tase2_Domain" where
  "appendDataSet self newDataSet = self\<lparr>dom_dataSets := dom_dataSets self @ [newDataSet]\<rparr>"

definition Tase2_Domain_addDataSet :: "Tase2_Domain \<Rightarrow> cstr \<Rightarrow> Tase2_Domain" where
  "Tase2_Domain_addDataSet self dsName = appendDataSet self (Tase2_DataSet_create dsName)"

definition appendDataSetEntry :: "Tase2_DataSet \<Rightarrow> Tase2_DataSetEntry \<Rightarrow> Tase2_DataSet" where
  "appendDataSetEntry self newEntry = self\<lparr>ds_entries := ds_entries self @ [newEntry]\<rparr>"

definition tase2_DataSetEntry_create :: "nat option \<Rightarrow> cstr \<Rightarrow> Tase2_DataSetEntry" where
  "tase2_DataSetEntry_create domain variableName = \<lparr>dse_domain = domain, dse_variableName = variableName\<rparr>"

definition Tase2_DataSet_addEntry :: "Tase2_DataSet \<Rightarrow> nat option \<Rightarrow> cstr \<Rightarrow> Tase2_DataSet" where
  "Tase2_DataSet_addEntry self domain variableName =
     appendDataSetEntry self (tase2_DataSetEntry_create domain variableName)"

text \<open>A buffer for information messages; \<open>None\<close> for a negative size, whose allocation fails.\<close>

definition Tase2_Domain_addInformationMessageObject :: "Tase2_Domain \<Rightarrow> u32 \<Rightarrow> Tase2_Domain option" where
  "Tase2_Domain_addInformationMessageObject self maxSize =
     (if 0 \<le> sint maxSize then
        Some (self\<lparr>dom_informationMessages := dom_informationMessages self @
          [\<lparr>imsg_maxSize = maxSize, imsg_infoBuf = MmsValue_newOctetString (nat (sint maxSize)) (nat (sint maxSize))\<rparr>]\<rparr>)
      else None)"

text \<open>
  The specification of a transfer set's variable, and the transfer set as \<open>addTransferSet\<close>
  completes it when the server is created: its value and edition are unset before that.
\<close>

definition createMmsObjectName :: MmsVariableSpecification where
  "createMmsObjectName = SpecStructure [SpecUnsigned 8, SpecVisibleString (- 32), SpecVisibleString (- 32)]"

definition createDSTransferSet :: "Tase2_Edition \<Rightarrow> MmsVariableSpecification" where
  "createDSTransferSet edition = SpecStructure
     ([createMmsObjectName, SpecInteger 32, SpecInteger 32, SpecInteger 32, SpecInteger 32, SpecInteger 32,
       SpecBitString 5, SpecBoolean, SpecBoolean, SpecBoolean] @
      (if edition \<noteq> TASE2_EDITION_1996_08 then [SpecBoolean] else []) @
      [SpecBoolean, SpecInteger 16])"

definition addTransferSet :: "cstr \<Rightarrow> cstr \<Rightarrow> Tase2_Edition \<Rightarrow> DSTransferSet option" where
  "addTransferSet name domainName edition = do {
     v \<leftarrow> MmsValue_newDefaultValue (createDSTransferSet edition);
     Some \<lparr>ts_name = name, ts_domainName = domainName, ts_mmsValue = v, ts_edition = edition,
           ts_connection = None, ts_dataPoints = None, ts_info = None\<rparr> }"

text \<open>The new set is at address \<open>a\<close>; the VCC has no sets.\<close>

definition Tase2_Domain_addDSTransferSet :: "Tase2_Domain \<Rightarrow> nat \<Rightarrow> Tase2_Domain \<times> nat option" where
  "Tase2_Domain_addDSTransferSet self a =
     (if dom_name self = None then (self, None) else (appendTransferSet self a, Some a))"

text \<open>The attributes of a transfer set as the application reads them.\<close>

definition Tase2_DSTransferSet_getStartTime :: "DSTransferSet \<Rightarrow> u32 option" where
  "Tase2_DSTransferSet_getStartTime self = ts_element_value self 1 \<bind> MmsValue_toInt32"

definition Tase2_DSTransferSet_getInterval :: "DSTransferSet \<Rightarrow> u32 option" where
  "Tase2_DSTransferSet_getInterval self = ts_element_value self 2 \<bind> MmsValue_toInt32"

definition Tase2_DSTransferSet_getTLE :: "DSTransferSet \<Rightarrow> u32 option" where
  "Tase2_DSTransferSet_getTLE self = ts_element_value self 3 \<bind> MmsValue_toInt32"

definition Tase2_DSTransferSet_getBufferTime :: "DSTransferSet \<Rightarrow> u32 option" where
  "Tase2_DSTransferSet_getBufferTime self = ts_element_value self 4 \<bind> MmsValue_toInt32"

definition Tase2_DSTransferSet_getIntegrityCheck :: "DSTransferSet \<Rightarrow> u32 option" where
  "Tase2_DSTransferSet_getIntegrityCheck self = ts_element_value self 5 \<bind> MmsValue_toInt32"

definition Tase2_DSTransferSet_getBlockData :: "DSTransferSet \<Rightarrow> bool option" where
  "Tase2_DSTransferSet_getBlockData self = ts_element_value self 7 \<bind> MmsValue_getBoolean"

definition Tase2_DSTransferSet_getCritical :: "DSTransferSet \<Rightarrow> bool option" where
  "Tase2_DSTransferSet_getCritical self = ts_element_value self 8 \<bind> MmsValue_getBoolean"

definition Tase2_DSTransferSet_getRBE :: "DSTransferSet \<Rightarrow> bool option" where
  "Tase2_DSTransferSet_getRBE self = ts_element_value self 9 \<bind> MmsValue_getBoolean"

definition Tase2_DSTransferSet_getAllChangesReported :: "DSTransferSet \<Rightarrow> bool option" where
  "Tase2_DSTransferSet_getAllChangesReported self = ts_element_value self 10 \<bind> MmsValue_getBoolean"

definition Tase2_DSTransferSet_getStatus :: "DSTransferSet \<Rightarrow> bool option" where
  "Tase2_DSTransferSet_getStatus self = ts_element_value self 11 \<bind> MmsValue_getBoolean"

definition Tase2_DSTransferSet_getEventCodeRequested :: "DSTransferSet \<Rightarrow> u16 option" where
  "Tase2_DSTransferSet_getEventCodeRequested self =
     map_option ucast (ts_element_value self 12 \<bind> MmsValue_toInt32)"

text \<open>
  The name built in the buffer of 65 bytes: \<open>strncat\<close> appends up to 64 characters and then the
  terminating zero, wherever the text ends. An unset buffer is read when the domain's name is null.
\<close>

definition strncat :: "cstr \<Rightarrow> cstr \<Rightarrow> cstr option" where
  "strncat dest src =
     (if length dest + length (take 64 src) < 65 then Some (dest @ take 64 src) else None)"

definition Tase2_DSTransferSet_getDataSetName :: "DSTransferSet \<Rightarrow> cstr option option" where
  "Tase2_DSTransferSet_getDataSetName self =
     (case ts_element_value self 0 of
        None \<Rightarrow> Some None
      | Some dataSet \<Rightarrow> do {
          dsNameStr \<leftarrow> (case MmsValue_getElement dataSet 1 of
              None \<Rightarrow> Some None
            | Some domainName \<Rightarrow> do {
                d \<leftarrow> MmsValue_toString domainName;
                map_option Some (strncat (take 64 d) (cstring ''/'')) });
          (case MmsValue_getElement dataSet 2 of
             None \<Rightarrow> Some None
           | Some dataSetName \<Rightarrow> do {
               dsNameStr \<leftarrow> dsNameStr;
               n \<leftarrow> MmsValue_toString dataSetName;
               map_option Some (strncat dsNameStr n) }) })"

end
