(* ===== verification/TransferSetServer.thy ===== *)
theory TransferSetServer
  imports DataModel
begin

text \<open>
  The operations on transfer sets that a client or the clock causes
  (\<^verbatim>\<open>tase2_server/ds_transfer_set.c\<close> and the report acknowledgement of \<^verbatim>\<open>tase2_server.c\<close>): enabling and
  disabling by a write, the checks against the bilateral table, the reservation of a set for a
  client, the periodic check of the active sets and the reaction to a changed point.

  An operation takes the server record and returns it with its effects in order; \<open>None\<close> is the
  use of a null or wrong pointer or of an indeterminate field. The notifications of the
  application are recorded whether or not it has installed a handler. Allocation does not fail.
\<close>

section \<open>The server\<close>

text \<open>\<open>sv_domainName\<close> names the domains the bilateral tables point to.\<close>

record TransferServer =
  sv_dataModel :: Tase2_DataModel
  sv_device :: MmsDevice
  sv_domainName :: "nat \<Rightarrow> cstr"
  sv_sets :: "nat \<Rightarrow> DSTransferSet"
  sv_points :: points
  sv_activeTransferSets :: "nat list"
  sv_maxDSTSEventQueueSize :: int
  sv_criticalReportTimeout :: u32
  sv_unconfirmedCriticalReportCounter :: u64
  sv_nextValue :: nat

definition Tase2_Server_setCriticalReportTimeout :: "TransferServer \<Rightarrow> u32 \<Rightarrow> TransferServer" where
  "Tase2_Server_setCriticalReportTimeout self timeoutInMs = self\<lparr>sv_criticalReportTimeout := timeoutInMs\<rparr>"

definition Tase2_Server_setMaxDSTSEventQueueSize :: "TransferServer \<Rightarrow> int \<Rightarrow> TransferServer" where
  "Tase2_Server_setMaxDSTSEventQueueSize self maxSize =
     (if maxSize = - 1 \<or> maxSize > 0 then self\<lparr>sv_maxDSTSEventQueueSize := maxSize\<rparr> else self)"

definition put_set :: "TransferServer \<Rightarrow> nat \<Rightarrow> DSTransferSet \<Rightarrow> TransferServer" where
  "put_set srv t ts = srv\<lparr>sv_sets := (sv_sets srv)(t := ts)\<rparr>"

section \<open>References from the data points\<close>

definition is_special_value :: "ActiveInfo \<Rightarrow> nat \<Rightarrow> bool" where
  "is_special_value info a \<longleftrightarrow>
     points_to (ai_tsNameValue info) a \<or> points_to (ai_tsTimestampValue info) a \<or>
     points_to (ai_dsConditionsValue info) a \<or> points_to (ai_eventCodeDetectedValue info) a"

fun drop_reference :: "nat \<Rightarrow> (nat \<times> nat) list \<Rightarrow> (nat \<times> nat) list" where
  "drop_reference t [] = []"
| "drop_reference t (r # rs) = (if fst r = t then rs else r # drop_reference t rs)"

definition remove_reference :: "ActiveInfo option \<Rightarrow> nat \<Rightarrow> ts_element \<Rightarrow> points \<Rightarrow> points option" where
  "remove_reference info t e pts = do {
     info \<leftarrow> info;
     (case e of
        ElemValue a \<Rightarrow> if is_special_value info a then Some pts else None
      | ElemPoint p \<Rightarrow>
          Some (case dp_activeTransferSets (pts p) of
             None \<Rightarrow> pts
           | Some refs \<Rightarrow> pts(p := (pts p)\<lparr>dp_activeTransferSets := Some (drop_reference t refs)\<rparr>))) }"

definition removeTransferSetReferenceFromDataPoint ::
    "ActiveInfo option \<Rightarrow> nat \<Rightarrow> ts_element list \<Rightarrow> points \<Rightarrow> points option" where
  "removeTransferSetReferenceFromDataPoint info t dataPoints pts =
     for_each dataPoints (remove_reference info t) pts"

definition tase2_DSTransferSet_destroyContextInfo :: "DSTransferSet \<Rightarrow> DSTransferSet" where
  "tase2_DSTransferSet_destroyContextInfo ts = ts\<lparr>ts_info := None\<rparr>"

definition tase2_Server_deactivateDSTransferSet ::
    "TransferServer \<Rightarrow> nat \<Rightarrow> (TransferServer \<times> ts_effect list) option" where
  "tase2_Server_deactivateDSTransferSet srv t = do {
     let ts = sv_sets srv t;
     enabled \<leftarrow> tase2_DSTransferSet_isEnabled ts;
     if enabled then do {
       pts \<leftarrow> (case ts_dataPoints ts of
                 Some dps \<Rightarrow> removeTransferSetReferenceFromDataPoint (ts_info ts) t dps (sv_points srv)
               | None \<Rightarrow> Some (sv_points srv));
       v \<leftarrow> change_element (Some (ts_mmsValue ts)) (status_index (ts_edition ts)) (\<lambda>e. MmsValue_setBoolean e False);
       Some (put_set (srv\<lparr>sv_points := pts\<rparr>) t
               (tase2_DSTransferSet_destroyContextInfo (ts\<lparr>ts_mmsValue := v\<rparr>)),
             [StateChanged t False]) }
     else Some (put_set srv t (tase2_DSTransferSet_destroyContextInfo ts), []) }"

section \<open>Enabling\<close>

definition checkIfDataSetExists :: "MmsDevice \<Rightarrow> MmsValue \<Rightarrow> MmsNamedVariableList option option" where
  "checkIfDataSetExists device dataSetName = do {
     scope \<leftarrow> MmsValue_getElement dataSetName 0;
     domainScope \<leftarrow> MmsValue_toUint32 scope;
     d \<leftarrow> MmsValue_getElement dataSetName 1;
     n \<leftarrow> MmsValue_getElement dataSetName 2;
     if domainScope = 1 then do {
       dsDomainName \<leftarrow> MmsValue_toString d;
       (case MmsDevice_getDomain device dsDomainName of
          None \<Rightarrow> Some None
        | Some domain \<Rightarrow> do {
            dsName \<leftarrow> MmsValue_toString n;
            Some (MmsDomain_getNamedVariableList (Some domain) dsName) }) }
     else do {
       dsName \<leftarrow> MmsValue_toString n;
       Some (MmsDevice_getNamedVariableListWithName device dsName) } }"

definition StringUtils_endsWith :: "cstr \<Rightarrow> cstr \<Rightarrow> bool" where
  "StringUtils_endsWith str suffix =
     (if length str \<ge> length suffix then drop (length str - length suffix) str = suffix else False)"

definition special_names :: "cstr list" where
  "special_names = [cstring ''Transfer_Set_Name'', cstring ''DSConditions_Detected'',
     cstring ''Event_Code_Detected'', cstring ''Transfer_Set_Time_Stamp'']"

text \<open>
  Whether an entry may be in a data set of a transfer set. A name that is not a data point is
  looked up in the table's control points, whose keys are addresses of points, by the address of
  the name. A tag's name is copied into 130 bytes.
\<close>

definition checkDataSetEntry ::
    "TransferServer \<Rightarrow> BilateralTable \<Rightarrow> MmsNamedVariableListEntry \<Rightarrow> bool option" where
  "checkDataSetEntry srv blt entry =
     (if nve_arrayIndex entry \<noteq> - 1 then Some False
      else if nve_componentName entry \<noteq> None then Some False
      else case nve_domain entry of
        Some domainName \<Rightarrow> do {
          d \<leftarrow> blt_domain blt;
          Some (domainName = sv_domainName srv d) }
      | None \<Rightarrow>
          let vcc = dom_dataPointHashTree (dm_vcc (sv_dataModel srv)); name = nve_variableName entry in
          Some (
            if name \<in> set special_names then True
            else case HashTree_find vcc name of
              Some dp \<Rightarrow> BilateralTable_checkDataPointAccess blt None dp BLT_ACCESS_ALLOW_READ
            | None \<Rightarrow>
                (case AvlTree_find (blt_controlPoints blt) (nve_nameAddress entry) of
                   Some dpEntry \<Rightarrow> False
                 | None \<Rightarrow>
                     if StringUtils_endsWith name (cstring ''_TAG'') \<and> length name > 4 \<and> length name < 130 then
                       case HashTree_find vcc (take (length name - 4) name) of
                         Some dp \<Rightarrow> AvlTree_find (blt_controlPoints blt) dp \<noteq> None
                       | None \<Rightarrow> False
                     else False)))"

fun checkDataSetACL :: "TransferServer \<Rightarrow> BilateralTable \<Rightarrow> MmsNamedVariableListEntry list \<Rightarrow> bool option" where
  "checkDataSetACL srv blt [] = Some True"
| "checkDataSetACL srv blt (entry # es) = do {
     ok \<leftarrow> checkDataSetEntry srv blt entry;
     if ok then checkDataSetACL srv blt es else Some False }"

text \<open>The context information of a set that is being enabled.\<close>

definition new_info :: "MmsValue \<Rightarrow> u64 \<Rightarrow> ActiveInfo option" where
  "new_info v now = do {
     conditions \<leftarrow> MmsValue_getElement v 6;
     interval \<leftarrow> isIntervalTimeoutEnabled conditions;
     (nextSendTime, period) \<leftarrow> (if interval then do {
         s \<leftarrow> MmsValue_getElement v 1 \<bind> MmsValue_toInt32;
         p \<leftarrow> MmsValue_getElement v 2 \<bind> MmsValue_toInt32;
         Some (Some (scast s * 1000), Some (p * 1000)) }
       else Some (None, None));
     critical \<leftarrow> MmsValue_getElement v 8 \<bind> MmsValue_getBoolean;
     integrityPeriod \<leftarrow> MmsValue_getElement v 5 \<bind> MmsValue_toInt32;
     bufferTime \<leftarrow> MmsValue_getElement v 4 \<bind> MmsValue_toInt32;
     Some \<lparr>ai_lastSent = 0, ai_lastSentIntegrityReport = now, ai_nextSendTime = nextSendTime,
       ai_period = period, ai_integrityPeriod = integrityPeriod * 1000, ai_isCritical = critical,
       ai_bufferTime = bufferTime * 1000, ai_bufferStarted = 0, ai_bufferedDataPoints = None,
       ai_includedSpecialObjects = 0, ai_tsNameValue = None, ai_dsConditionsValue = None,
       ai_eventCodeDetectedValue = None, ai_tsTimestampValue = None, ai_outstandingCriticalReports = [],
       ai_bufferedEvents = None, ai_eventQueueSize = 0\<rparr> }"

text \<open>
  A special object of the data set, at the new address \<open>a\<close>; the inner \<open>None\<close> is another name. The
  domain, which the name of the set uses, is null for a set of the VCC.
\<close>

definition add_special :: "cstr option \<Rightarrow> cstr \<Rightarrow> nat \<Rightarrow> DSTransferSet \<Rightarrow> DSTransferSet option option" where
  "add_special domainName name a ts = do {
     info \<leftarrow> ts_info ts;
     dps \<leftarrow> ts_dataPoints ts;
     let included = (\<lambda>flag. info\<lparr>ai_includedSpecialObjects := ai_includedSpecialObjects info + flag\<rparr>);
     let added = (\<lambda>info. Some (Some (ts\<lparr>ts_info := Some info, ts_dataPoints := Some (dps @ [ElemValue a])\<rparr>)));
     if name = cstring ''Transfer_Set_Name'' then do {
       domainName \<leftarrow> domainName;
       v \<leftarrow> tase2_createObjectNameValue (Some domainName) (ts_name ts);
       added ((included TRANSFER_SET_NAME)\<lparr>ai_tsNameValue := Some (a, v)\<rparr>) }
     else if name = cstring ''DSConditions_Detected'' then do {
       v \<leftarrow> tase2_createDSConditionsValue False False False False False;
       added ((included DS_CONDITIONS_DETECTED)\<lparr>ai_dsConditionsValue := Some (a, v)\<rparr>) }
     else if name = cstring ''Event_Code_Detected'' then
       added ((included EVENT_CODE_DETECTED)\<lparr>ai_eventCodeDetectedValue := Some (a, MmsValue_newInteger 16)\<rparr>)
     else if name = cstring ''Transfer_Set_Time_Stamp'' then
       added ((included TRANSFER_SET_TIMESTAMP)\<lparr>ai_tsTimestampValue := Some (a, MmsValue_newInteger 32)\<rparr>)
     else Some None }"

text \<open>The point of a tag's name, which is copied into 65 bytes.\<close>

definition tag_data_point :: "Tase2_Domain \<Rightarrow> cstr \<Rightarrow> point option option" where
  "tag_data_point domain name =
     (if StringUtils_endsWith name (cstring ''_TAG'') then
        if length name < 65 then Some (Tase2_Domain_getDataPoint domain (take (length name - 4) name)) else None
      else Some None)"

type_synonym enable_state = "points \<times> DSTransferSet \<times> nat"

definition reference_point :: "nat \<Rightarrow> point \<Rightarrow> nat \<Rightarrow> enable_state \<Rightarrow> enable_state option" where
  "reference_point t p dpCount s = (case s of (pts, ts, a) \<Rightarrow> do {
     dps \<leftarrow> ts_dataPoints ts;
     let refs = (case dp_activeTransferSets (pts p) of None \<Rightarrow> [] | Some refs \<Rightarrow> refs);
     Some (pts(p := (pts p)\<lparr>dp_activeTransferSets := Some (refs @ [(t, dpCount)])\<rparr>),
           ts\<lparr>ts_dataPoints := Some (dps @ [ElemPoint p])\<rparr>, a) })"

text \<open>One entry of the data set; \<open>False\<close> when its domain is not in the data model.\<close>

definition enable_entry ::
    "Tase2_DataModel \<Rightarrow> cstr option \<Rightarrow> nat \<Rightarrow> nat \<Rightarrow> MmsNamedVariableListEntry \<Rightarrow> enable_state \<Rightarrow>
     (enable_state \<times> bool) option" where
  "enable_entry model domainName t dpCount entry s =
     (case (case nve_domain entry of None \<Rightarrow> Some (dm_vcc model) | Some d \<Rightarrow> Tase2_DataModel_getDomain model d) of
        None \<Rightarrow> Some (s, False)
      | Some domain \<Rightarrow>
          (case s of (pts, ts, a) \<Rightarrow>
          (case Tase2_Domain_getDataPoint domain (nve_variableName entry) of
             None \<Rightarrow> do {
               special \<leftarrow> add_special domainName (nve_variableName entry) a ts;
               (case special of
                  Some ts \<Rightarrow> Some ((pts, ts, a + 1), True)
                | None \<Rightarrow> do {
                    dataPoint \<leftarrow> tag_data_point domain (nve_variableName entry);
                    (case dataPoint of
                       None \<Rightarrow> Some (s, True)
                     | Some p \<Rightarrow> do { s \<leftarrow> reference_point t p dpCount s; Some (s, True) }) }) }
           | Some p \<Rightarrow>
               if dp_isControl (pts p) then Some (s, True)
               else do { s \<leftarrow> reference_point t p dpCount s; Some (s, True) })))"

fun enable_entries ::
    "Tase2_DataModel \<Rightarrow> cstr option \<Rightarrow> nat \<Rightarrow> nat \<Rightarrow> MmsNamedVariableListEntry list \<Rightarrow> enable_state \<Rightarrow>
     (enable_state \<times> bool) option" where
  "enable_entries model domainName t dpCount [] s = Some (s, True)"
| "enable_entries model domainName t dpCount (entry # es) s = do {
     (s, ok) \<leftarrow> enable_entry model domainName t dpCount entry s;
     if ok then enable_entries model domainName t (dpCount + 1) es s else Some (s, False) }"

definition enableDSTransferSet ::
    "TransferServer \<Rightarrow> cstr option \<Rightarrow> nat \<Rightarrow> nat \<Rightarrow> MmsValue \<Rightarrow> BilateralTable option \<Rightarrow> u64 \<Rightarrow>
     (TransferServer \<times> ts_effect list \<times> bool) option" where
  "enableDSTransferSet srv domainName t connection v blt now = do {
     dataSetName \<leftarrow> MmsValue_getElement v 0;
     variableList \<leftarrow> checkIfDataSetExists (sv_device srv) dataSetName;
     (case variableList of
        None \<Rightarrow> Some (srv, [], False)
      | Some variableList \<Rightarrow> do {
          let vars = nvl_listOfVariables variableList;
          allowed \<leftarrow> (case blt of None \<Rightarrow> Some True | Some blt \<Rightarrow> checkDataSetACL srv blt vars);
          if \<not> allowed then Some (srv, [], False)
          else do {
            info \<leftarrow> new_info v now;
            let ts = (sv_sets srv t)\<lparr>ts_info := Some info, ts_dataPoints := Some []\<rparr>;
            ((pts, ts, a), ok) \<leftarrow>
              enable_entries (sv_dataModel srv) domainName t 0 vars (sv_points srv, ts, sv_nextValue srv);
            let srv = srv\<lparr>sv_nextValue := a\<rparr>;
            dps \<leftarrow> ts_dataPoints ts;
            info \<leftarrow> ts_info ts;
            if ok then do {
              let info = info\<lparr>ai_bufferedDataPoints := Some (MmsValue_newBitString (int (length vars)))\<rparr>;
              let srv = put_set (srv\<lparr>sv_points := pts\<rparr>) t (ts\<lparr>ts_info := Some info, ts_connection := Some connection\<rparr>);
              let srv = (if t \<in> set (sv_activeTransferSets srv) then srv
                         else srv\<lparr>sv_activeTransferSets := sv_activeTransferSets srv @ [t]\<rparr>);
              Some (srv, [StateChanged t True], True) }
            else do {
              pts \<leftarrow> removeTransferSetReferenceFromDataPoint (Some info) t dps pts;
              Some (put_set (srv\<lparr>sv_points := pts\<rparr>) t (tase2_DSTransferSet_destroyContextInfo ts),
                    [], False) } } }) }"

section \<open>Writing a transfer set\<close>

definition update_attribute :: "TransferServer \<Rightarrow> nat \<Rightarrow> int \<Rightarrow> MmsValue \<Rightarrow> TransferServer option" where
  "update_attribute srv t index v = do {
     let ts = sv_sets srv t;
     m \<leftarrow> change_element (Some (ts_mmsValue ts)) index (\<lambda>e. map_option fst (MmsValue_update e v));
     Some (put_set srv t (ts\<lparr>ts_mmsValue := m\<rparr>)) }"

text \<open>
  The element an attribute other than \<open>Status\<close> and \<open>DataSetName\<close> is stored in; the inner
  \<open>None\<close> is an attribute the edition does not have.
\<close>

definition attribute_index :: "Tase2_Edition \<Rightarrow> cstr \<Rightarrow> int option option" where
  "attribute_index edition name =
     (if name = cstring ''StartTime'' then Some (Some 1)
      else if name = cstring ''Interval'' then Some (Some 2)
      else if name = cstring ''TLE'' then Some (Some 3)
      else if name = cstring ''BufferTime'' then Some (Some 4)
      else if name = cstring ''IntegrityCheck'' then Some (Some 5)
      else if name = cstring ''DSConditionsRequested'' then Some (Some 6)
      else if name = cstring ''BlockData'' then Some (Some 7)
      else if name = cstring ''Critical'' then Some (Some 8)
      else if name = cstring ''RBE'' then Some (Some 9)
      else if name = cstring ''AllChangesReported'' then
        if edition \<noteq> TASE2_EDITION_1996_08 then Some (Some 10) else Some None
      else if name = cstring ''EventCodeRequested'' then
        if edition \<noteq> TASE2_EDITION_1996_08 then Some (Some 11) else Some (Some 12)
      else None)"

type_synonym write_result = "(TransferServer \<times> ts_effect list \<times> MmsDataAccessError) option"

definition write_status ::
    "TransferServer \<Rightarrow> cstr option \<Rightarrow> nat \<Rightarrow> MmsValue \<Rightarrow> nat \<Rightarrow> BilateralTable option \<Rightarrow> u64 \<Rightarrow> write_result" where
  "write_status srv domainName t v connection blt now = do {
     let ts = sv_sets srv t;
     status \<leftarrow> MmsValue_getBoolean v;
     enabled \<leftarrow> tase2_DSTransferSet_isEnabled ts;
     if status then
       if enabled then Some (srv, [], DATA_ACCESS_ERROR_OBJECT_ATTRIBUTE_INCONSISTENT)
       else do {
         (srv, effects, ok) \<leftarrow> enableDSTransferSet srv domainName t connection (ts_mmsValue ts) blt now;
         if \<not> ok then Some (srv, effects, DATA_ACCESS_ERROR_OBJECT_ATTRIBUTE_INCONSISTENT)
         else do {
           srv \<leftarrow> update_attribute srv t (status_index (ts_edition ts)) v;
           Some (srv, effects @ [Updated t True], DATA_ACCESS_ERROR_SUCCESS) } }
     else do {
       (srv, effects) \<leftarrow> (if enabled then do {
           (srv, effects) \<leftarrow> tase2_Server_deactivateDSTransferSet srv t;
           Some (srv\<lparr>sv_activeTransferSets := remove1 t (sv_activeTransferSets srv)\<rparr>,
                 effects @ [Updated t False]) }
         else Some (srv, []));
       srv \<leftarrow> update_attribute srv t (status_index (ts_edition ts)) v;
       Some (srv, effects, DATA_ACCESS_ERROR_SUCCESS) } }"

definition write_attribute :: "TransferServer \<Rightarrow> nat \<Rightarrow> cstr \<Rightarrow> MmsValue \<Rightarrow> write_result" where
  "write_attribute srv t componentName v = do {
     enabled \<leftarrow> tase2_DSTransferSet_isEnabled (sv_sets srv t);
     if enabled then Some (srv, [], DATA_ACCESS_ERROR_OBJECT_ATTRIBUTE_INCONSISTENT)
     else if componentName = cstring ''DataSetName'' then do {
       variableList \<leftarrow> checkIfDataSetExists (sv_device srv) v;
       if variableList = None then Some (srv, [], DATA_ACCESS_ERROR_OBJECT_ATTRIBUTE_INCONSISTENT)
       else do {
         srv \<leftarrow> update_attribute srv t 0 v;
         Some (srv, [], DATA_ACCESS_ERROR_SUCCESS) } }
     else case attribute_index (ts_edition (sv_sets srv t)) componentName of
       None \<Rightarrow> Some (srv, [], DATA_ACCESS_ERROR_OBJECT_ATTRIBUTE_INCONSISTENT)
     | Some None \<Rightarrow> Some (srv, [], DATA_ACCESS_ERROR_SUCCESS)
     | Some (Some index) \<Rightarrow> do {
         srv \<leftarrow> update_attribute srv t index v;
         Some (srv, [], DATA_ACCESS_ERROR_SUCCESS) } }"

text \<open>\<open>MmsValue_update(ts->base.mmsValue, value)\<close>, whose result is only logged.\<close>

definition update_set :: "TransferServer \<Rightarrow> nat \<Rightarrow> MmsValue \<Rightarrow> TransferServer option" where
  "update_set srv t v = do {
     let ts = sv_sets srv t;
     (m, ok) \<leftarrow> MmsValue_update (ts_mmsValue ts) v;
     Some (put_set srv t (ts\<lparr>ts_mmsValue := m\<rparr>)) }"

definition write_structure ::
    "TransferServer \<Rightarrow> cstr option \<Rightarrow> nat \<Rightarrow> MmsValue \<Rightarrow> nat \<Rightarrow> BilateralTable option \<Rightarrow> u64 \<Rightarrow> write_result" where
  "write_structure srv domainName t v connection blt now = do {
     let ts = sv_sets srv t;
     same \<leftarrow> MmsValue_equalTypes (ts_mmsValue ts) v;
     if \<not> same then Some (srv, [], DATA_ACCESS_ERROR_OBJECT_ATTRIBUTE_INCONSISTENT)
     else do {
       isStart \<leftarrow> MmsValue_getElement v 11 \<bind> MmsValue_getBoolean;
       enabled \<leftarrow> tase2_DSTransferSet_isEnabled ts;
       if isStart then
         if enabled then Some (srv, [], DATA_ACCESS_ERROR_OBJECT_ATTRIBUTE_INCONSISTENT)
         else do {
           (srv, effects, ok) \<leftarrow> enableDSTransferSet srv domainName t connection v blt now;
           if \<not> ok then Some (srv, effects, DATA_ACCESS_ERROR_OBJECT_ATTRIBUTE_INCONSISTENT)
           else do {
             srv \<leftarrow> update_set srv t v;
             Some (srv, effects @ [Updated t True], DATA_ACCESS_ERROR_SUCCESS) } }
       else if enabled then do {
         (srv, effects) \<leftarrow> tase2_Server_deactivateDSTransferSet srv t;
         srv \<leftarrow> update_set srv t v;
         let srv = srv\<lparr>sv_activeTransferSets := remove1 t (sv_activeTransferSets srv)\<rparr>;
         enabled \<leftarrow> tase2_DSTransferSet_isEnabled (sv_sets srv t);
         Some (srv, effects @ [Updated t enabled], DATA_ACCESS_ERROR_SUCCESS) }
       else Some (srv, [], DATA_ACCESS_ERROR_SUCCESS) } }"

definition tase2_Server_handleDSTransferSetWrite ::
    "TransferServer \<Rightarrow> cstr option \<Rightarrow> nat \<Rightarrow> cstr option \<Rightarrow> MmsValue \<Rightarrow> nat \<Rightarrow> BilateralTable option \<Rightarrow> u64 \<Rightarrow>
     write_result" where
  "tase2_Server_handleDSTransferSetWrite srv domainName t componentName v connection blt now =
     (case componentName of
        Some name \<Rightarrow>
          if name = cstring ''Status'' then write_status srv domainName t v connection blt now
          else write_attribute srv t name v
      | None \<Rightarrow> write_structure srv domainName t v connection blt now)"

section \<open>Reserving and releasing\<close>

definition tase2_Server_isTransferSetActive :: "TransferServer \<Rightarrow> nat \<Rightarrow> bool" where
  "tase2_Server_isTransferSetActive srv t \<longleftrightarrow> list_ex (\<lambda>u. t = u) (sv_activeTransferSets srv)"

fun next_set :: "TransferServer \<Rightarrow> nat list \<Rightarrow> nat \<Rightarrow> TransferServer \<times> nat option" where
  "next_set srv [] connection = (srv, None)"
| "next_set srv (t # sets) connection =
     (if \<not> tase2_Server_isTransferSetActive srv t then
        ((put_set srv t ((sv_sets srv t)\<lparr>ts_connection := Some connection\<rparr>))
           \<lparr>sv_activeTransferSets := sv_activeTransferSets srv @ [t]\<rparr>, Some t)
      else next_set srv sets connection)"

definition tase2_Server_getNextDSTransferSet ::
    "TransferServer \<Rightarrow> Tase2_Domain \<Rightarrow> nat \<Rightarrow> TransferServer \<times> nat option" where
  "tase2_Server_getNextDSTransferSet srv domain connection = next_set srv (dom_transferSets domain) connection"

text \<open>The list without the sets of the connection; they are deactivated in order.\<close>

fun release_sets ::
    "nat list \<Rightarrow> nat \<Rightarrow> TransferServer \<Rightarrow> (TransferServer \<times> nat list \<times> ts_effect list) option" where
  "release_sets [] connection srv = Some (srv, [], [])"
| "release_sets (t # sets) connection srv =
     (if ts_connection (sv_sets srv t) = Some connection then do {
        (srv, effects) \<leftarrow> tase2_Server_deactivateDSTransferSet srv t;
        (srv, kept, effects') \<leftarrow> release_sets sets connection srv;
        Some (srv, kept, effects @ [Updated t False] @ effects') }
      else do {
        (srv, kept, effects) \<leftarrow> release_sets sets connection srv;
        Some (srv, t # kept, effects) })"

definition tase2_Server_deactivateTransferSets ::
    "TransferServer \<Rightarrow> nat \<Rightarrow> (TransferServer \<times> ts_effect list) option" where
  "tase2_Server_deactivateTransferSets srv connection = do {
     (srv, kept, effects) \<leftarrow> release_sets (sv_activeTransferSets srv) connection srv;
     Some (srv\<lparr>sv_activeTransferSets := kept\<rparr>, effects) }"

section \<open>The periodic check\<close>

text \<open>\<open>sent\<close> is the clock as the report's function reads it.\<close>

definition send_report ::
    "points \<Rightarrow> DSTransferSet \<Rightarrow> u32 \<Rightarrow> u64 \<Rightarrow> (DSTransferSet \<times> ts_effect list) option" where
  "send_report pts ts reason sent = do {
     rbe \<leftarrow> isRBEEnabled ts;
     if rbe then sendDSTransferSetChangedDataPoints pts ts reason sent
     else sendDSTransferSetAsDataSet pts ts reason sent }"

text \<open>The first report that waited longer than the timeout, with the others.\<close>

fun expired_report :: "u64 \<Rightarrow> u32 \<Rightarrow> u64 list \<Rightarrow> (u64 \<times> u64 list) option" where
  "expired_report now timeout [] = None"
| "expired_report now timeout (reportSent # reports) =
     (if now - reportSent > scast timeout then Some (reportSent, reports)
      else map_option (\<lambda>(r, rs). (r, reportSent # rs)) (expired_report now timeout reports))"

definition criticalReportTimeout :: "TransferServer \<Rightarrow> nat \<Rightarrow> u64 \<Rightarrow> TransferServer \<times> ts_effect list" where
  "criticalReportTimeout srv t sentTime =
     (srv\<lparr>sv_unconfirmedCriticalReportCounter := sv_unconfirmedCriticalReportCounter srv + 1\<rparr>,
      [CriticalNotConfirmed t sentTime False])"

definition critical_step ::
    "TransferServer \<Rightarrow> nat \<Rightarrow> u64 \<Rightarrow> ActiveInfo \<Rightarrow> TransferServer \<times> ActiveInfo \<times> ts_effect list" where
  "critical_step srv t now info =
     (if ai_isCritical info then
        case expired_report now (sv_criticalReportTimeout srv) (ai_outstandingCriticalReports info) of
          None \<Rightarrow> (srv, info, [])
        | Some (reportSent, reports) \<Rightarrow>
            (case criticalReportTimeout srv t reportSent of
               (srv, effects) \<Rightarrow> (srv, info\<lparr>ai_outstandingCriticalReports := reports\<rparr>, effects))
      else (srv, info, []))"

definition interval_step ::
    "points \<Rightarrow> MmsValue \<Rightarrow> DSTransferSet \<Rightarrow> u64 \<Rightarrow> u64 \<Rightarrow> (DSTransferSet \<times> ts_effect list) option" where
  "interval_step pts conditions ts now sent = do {
     interval \<leftarrow> isIntervalTimeoutEnabled conditions;
     info \<leftarrow> ts_info ts;
     if interval then do {
       period \<leftarrow> ai_period info;
       if 0 < sint period then do {
         nextSendTime \<leftarrow> ai_nextSendTime info;
         if nextSendTime \<le> now then do {
           (ts, effects) \<leftarrow> send_report pts ts TASE2_REPORT_REASON_INTERVAL_TIMEOUT sent;
           info \<leftarrow> ts_info ts;
           let missedCycles = (now - nextSendTime) div scast period;
           let info = info\<lparr>ai_lastSent := now,
                 ai_nextSendTime := Some (nextSendTime + (missedCycles + 1) * scast period)\<rparr>;
           Some (ts\<lparr>ts_info := Some info\<rparr>, effects) }
         else Some (ts, []) }
       else Some (ts, []) }
     else Some (ts, []) }"

definition integrity_step ::
    "points \<Rightarrow> MmsValue \<Rightarrow> DSTransferSet \<Rightarrow> u64 \<Rightarrow> u64 \<Rightarrow> (DSTransferSet \<times> ts_effect list) option" where
  "integrity_step pts conditions ts now sent = do {
     integrity \<leftarrow> isIntegrityTimeoutEnabled conditions;
     info \<leftarrow> ts_info ts;
     if integrity then do {
       rbe \<leftarrow> isRBEEnabled ts;
       if rbe then do {
         let info = (if ai_lastSentIntegrityReport info > now then info\<lparr>ai_lastSentIntegrityReport := now\<rparr> else info);
         let ts = ts\<lparr>ts_info := Some info\<rparr>;
         if ai_lastSentIntegrityReport info + scast (ai_integrityPeriod info) \<le> now then do {
           (ts, effects) \<leftarrow> sendDSTransferSetAsDataSet pts ts TASE2_REPORT_REASON_INTEGRITY_TIMEOUT sent;
           info \<leftarrow> ts_info ts;
           Some (ts\<lparr>ts_info := Some (info\<lparr>ai_lastSentIntegrityReport := now\<rparr>)\<rparr>, effects) }
         else Some (ts, []) }
       else Some (ts, []) }
     else Some (ts, []) }"

definition object_change_step ::
    "points \<Rightarrow> MmsValue \<Rightarrow> DSTransferSet \<Rightarrow> u64 \<Rightarrow> u64 \<Rightarrow> (DSTransferSet \<times> ts_effect list) option" where
  "object_change_step pts conditions ts now sent = do {
     change \<leftarrow> isObjectChangedEnabled conditions;
     info \<leftarrow> ts_info ts;
     if change \<and> ai_bufferStarted info \<noteq> 0 \<and> ai_bufferStarted info + scast (ai_bufferTime info) \<le> now then do {
       (ts, effects) \<leftarrow> send_report pts ts TASE2_REPORT_REASON_OBJECT_CHANGE sent;
       info \<leftarrow> ts_info ts;
       buffered \<leftarrow> ai_bufferedDataPoints info;
       buffered \<leftarrow> MmsValue_deleteAllBitStringBits buffered;
       Some (ts\<lparr>ts_info := Some (info\<lparr>ai_bufferStarted := 0, ai_bufferedDataPoints := Some buffered\<rparr>)\<rparr>, effects) }
     else Some (ts, []) }"

text \<open>\<open>sent\<close> gives the reading of the clock in each of the reports, by its reason.\<close>

definition handleTransferSet ::
    "TransferServer \<Rightarrow> nat \<Rightarrow> u64 \<Rightarrow> (u32 \<Rightarrow> u64) \<Rightarrow> (TransferServer \<times> ts_effect list) option" where
  "handleTransferSet srv t now sent = do {
     let ts = sv_sets srv t;
     enabled \<leftarrow> tase2_DSTransferSet_isEnabled ts;
     if enabled then do {
       info \<leftarrow> ts_info ts;
       conditions \<leftarrow> ts_element_value ts 6;
       let info = (if ai_lastSent info > now then info\<lparr>ai_lastSent := now\<rparr> else info);
       let (srv, info, e1) = critical_step srv t now info;
       let ts = ts\<lparr>ts_info := Some info\<rparr>;
       (ts, e2) \<leftarrow> interval_step (sv_points srv) conditions ts now (sent TASE2_REPORT_REASON_INTERVAL_TIMEOUT);
       (ts, e3) \<leftarrow> integrity_step (sv_points srv) conditions ts now (sent TASE2_REPORT_REASON_INTEGRITY_TIMEOUT);
       (ts, e4) \<leftarrow> object_change_step (sv_points srv) conditions ts now (sent TASE2_REPORT_REASON_OBJECT_CHANGE);
       Some (put_set srv t ts, e1 @ e2 @ e3 @ e4) }
     else Some (srv, []) }"

definition handle_next ::
    "(nat \<Rightarrow> u64) \<Rightarrow> (nat \<Rightarrow> u32 \<Rightarrow> u64) \<Rightarrow> nat \<Rightarrow> TransferServer \<times> ts_effect list \<Rightarrow>
     (TransferServer \<times> ts_effect list) option" where
  "handle_next now sent t s = (case s of (srv, effects) \<Rightarrow> do {
     (srv, effects') \<leftarrow> handleTransferSet srv t (now t) (sent t);
     Some (srv, effects @ effects') })"

text \<open>The clock by transfer set: as \<open>handleTransferSet\<close> reads it, and in its reports.\<close>

definition tase2_Server_checkTransferSets ::
    "TransferServer \<Rightarrow> (nat \<Rightarrow> u64) \<Rightarrow> (nat \<Rightarrow> u32 \<Rightarrow> u64) \<Rightarrow> (TransferServer \<times> ts_effect list) option" where
  "tase2_Server_checkTransferSets srv now sent =
     for_each (sv_activeTransferSets srv) (handle_next now sent) (srv, [])"

section \<open>Changed points\<close>

definition storeDataPointEventForTransferSet ::
    "int \<Rightarrow> points \<Rightarrow> DSTransferSet \<Rightarrow> point \<Rightarrow> nat \<Rightarrow> DSTransferSet option" where
  "storeDataPointEventForTransferSet maxDSTSEventQueueSize pts ts dataPoint dpIndex = do {
     info \<leftarrow> ts_info ts;
     all \<leftarrow> isAllChangesReportedEnabled ts;
     if all then do {
       let events = (case ai_bufferedEvents info of None \<Rightarrow> [] | Some events \<Rightarrow> events);
       let n = ai_eventQueueSize info;
       let (events, n) = (if maxDSTSEventQueueSize \<noteq> - 1 \<and> n = maxDSTSEventQueueSize
         then case events of [] \<Rightarrow> (events, n) | e # es \<Rightarrow> (es, n - 1)
         else (events, n));
       v \<leftarrow> reported_value (pts dataPoint) \<bind> MmsValue_clone;
       Some (ts\<lparr>ts_info := Some (info\<lparr>
         ai_bufferedEvents := Some (events @ [\<lparr>ev_dataPoint = dataPoint, ev_value = v\<rparr>]),
         ai_eventQueueSize := n + 1\<rparr>)\<rparr>) }
     else do {
       buffered \<leftarrow> ai_bufferedDataPoints info;
       buffered \<leftarrow> MmsValue_setBitStringBit buffered dpIndex True;
       Some (ts\<lparr>ts_info := Some (info\<lparr>ai_bufferedDataPoints := Some buffered\<rparr>)\<rparr>) } }"

text \<open>One transfer set that refers to the point; \<open>clock t\<close> is the time read for set \<open>t\<close>.\<close>

definition check_reference ::
    "(nat \<Rightarrow> u64) \<Rightarrow> point \<Rightarrow> nat \<times> nat \<Rightarrow> TransferServer \<times> ts_effect list \<Rightarrow>
     (TransferServer \<times> ts_effect list) option" where
  "check_reference clock dataPoint r s = (case (r, s) of ((t, dataSetIdx), (srv, effects)) \<Rightarrow>
     (let ts = sv_sets srv t; pts = sv_points srv in
      case ts_info ts of
        None \<Rightarrow> Some (srv, effects)
      | Some info \<Rightarrow> do {
          conditions \<leftarrow> ts_element_value ts 6;
          interval \<leftarrow> isIntervalTimeoutEnabled conditions;
          change \<leftarrow> isObjectChangedEnabled conditions;
          if interval \<or> change then do {
            rbe \<leftarrow> isRBEEnabled ts;
            if change \<and> 0 < sint (ai_bufferTime info) then do {
              let info = (if ai_bufferStarted info = 0 then info\<lparr>ai_bufferStarted := clock t\<rparr> else info);
              ts \<leftarrow> storeDataPointEventForTransferSet (sv_maxDSTSEventQueueSize srv) pts
                     (ts\<lparr>ts_info := Some info\<rparr>) dataPoint dataSetIdx;
              Some (put_set srv t ts, effects) }
            else if interval then do {
              ts \<leftarrow> storeDataPointEventForTransferSet (sv_maxDSTSEventQueueSize srv) pts ts dataPoint dataSetIdx;
              Some (put_set srv t ts, effects) }
            else do {
              (ts, sent) \<leftarrow>
                (if rbe then sendDSTransferSetSingleDataPoint pts ts dataPoint TASE2_REPORT_REASON_OBJECT_CHANGE (clock t)
                 else sendDSTransferSetAsDataSet pts ts TASE2_REPORT_REASON_OBJECT_CHANGE (clock t));
              Some (put_set srv t ts, effects @ sent) } }
          else Some (srv, effects) }))"

definition tase2_checkVariable ::
    "TransferServer \<Rightarrow> point \<Rightarrow> (nat \<Rightarrow> u64) \<Rightarrow> (TransferServer \<times> ts_effect list) option" where
  "tase2_checkVariable srv dataPoint clock =
     (case dp_activeTransferSets (sv_points srv dataPoint) of
        None \<Rightarrow> Some (srv, [])
      | Some refs \<Rightarrow> for_each refs (check_reference clock dataPoint) (srv, []))"

definition tase2_Server_triggerTransferSets ::
    "TransferServer \<Rightarrow> point \<Rightarrow> (nat \<Rightarrow> u64) \<Rightarrow> (TransferServer \<times> ts_effect list) option" where
  "tase2_Server_triggerTransferSets srv dataPoint clock =
     (if dp_activeTransferSets (sv_points srv dataPoint) \<noteq> None then tase2_checkVariable srv dataPoint clock
      else Some (srv, []))"

section \<open>Acknowledgement of critical reports\<close>

definition tase2_DSTransferSet_deleteAllCriticalReports :: "DSTransferSet \<Rightarrow> DSTransferSet option" where
  "tase2_DSTransferSet_deleteAllCriticalReports ts = do {
     enabled \<leftarrow> tase2_DSTransferSet_isEnabled ts;
     if enabled then do {
       info \<leftarrow> ts_info ts;
       Some (if ai_isCritical info then ts\<lparr>ts_info := Some (info\<lparr>ai_outstandingCriticalReports := []\<rparr>)\<rparr> else ts) }
     else Some ts }"

fun MmsValue_getStringSize :: "MmsValue \<Rightarrow> int" where
  "MmsValue_getStringSize (ValVisibleString sz _) = sz"
| "MmsValue_getStringSize (ValMmsString sz _) = sz"
| "MmsValue_getStringSize _ = 0"

definition checkIfTypeIsMmsObjectName :: "MmsValue \<Rightarrow> bool option" where
  "checkIfTypeIsMmsObjectName v =
     (if MmsValue_getType v = MMS_STRUCTURE \<and> MmsValue_getArraySize v = Some 3 then do {
        scope \<leftarrow> MmsValue_getElement v 0;
        if MmsValue_getType scope \<noteq> MMS_UNSIGNED then Some False
        else do {
          d \<leftarrow> MmsValue_getElement v 1;
          if MmsValue_getType d \<noteq> MMS_VISIBLE_STRING \<or> MmsValue_getStringSize d > 32 then Some False
          else do {
            n \<leftarrow> MmsValue_getElement v 2;
            Some (\<not> (MmsValue_getType n \<noteq> MMS_VISIBLE_STRING \<or> MmsValue_getStringSize n > 32)) } } }
      else Some False)"

text \<open>The domain of a transfer set is never null, so no set has the empty domain name.\<close>

definition lookupActiveTransferSet :: "TransferServer \<Rightarrow> cstr \<Rightarrow> cstr \<Rightarrow> nat option" where
  "lookupActiveTransferSet srv domainName tsName =
     find (\<lambda>t. (if length domainName = 0 then False else ts_domainName (sv_sets srv t) = domainName) \<and>
       ts_name (sv_sets srv t) = tsName) (sv_activeTransferSets srv)"

definition reported_set :: "TransferServer \<Rightarrow> MmsValue \<Rightarrow> nat option option" where
  "reported_set srv v = do {
     ok \<leftarrow> checkIfTypeIsMmsObjectName v;
     if ok then do {
       scope \<leftarrow> MmsValue_getElement v 0 \<bind> MmsValue_toUint32;
       d \<leftarrow> (if scope = 0 then Some [] else MmsValue_getElement v 1 \<bind> MmsValue_toString);
       n \<leftarrow> MmsValue_getElement v 2 \<bind> MmsValue_toString;
       Some (lookupActiveTransferSet srv d n) }
     else Some None }"

definition MMS_INFO_HANDLER_IS_VARIABLE_LIST_NAME :: u8 where "MMS_INFO_HANDLER_IS_VARIABLE_LIST_NAME = 4"

definition mmsInformationReportHandler ::
    "TransferServer \<Rightarrow> cstr \<Rightarrow> MmsValue \<Rightarrow> u8 \<Rightarrow> (TransferServer \<times> ts_effect list) option" where
  "mmsInformationReportHandler srv variableName v flags =
     (if flags = MMS_INFO_HANDLER_IS_VARIABLE_LIST_NAME then Some (srv, [])
      else if variableName = cstring ''Transfer_Report_ACK'' then do {
        transferSet \<leftarrow> reported_set srv v;
        (case transferSet of
           None \<Rightarrow> Some (srv, [])
         | Some t \<Rightarrow> do {
             ts \<leftarrow> tase2_DSTransferSet_deleteAllCriticalReports (sv_sets srv t);
             Some (put_set srv t ts, []) }) }
      else if variableName = cstring ''Transfer_Report_NACK'' then do {
        transferSet \<leftarrow> reported_set srv v;
        (case transferSet of
           None \<Rightarrow> Some (srv, [])
         | Some t \<Rightarrow> do {
             ts \<leftarrow> tase2_DSTransferSet_deleteAllCriticalReports (sv_sets srv t);
             Some (put_set (srv\<lparr>sv_unconfirmedCriticalReportCounter :=
                       sv_unconfirmedCriticalReportCounter srv + 1\<rparr>) t ts,
                   [CriticalNotConfirmed t 0 True]) }) }
      else Some (srv, []))"

end
