(* ===== verification/TransferSet_Laws.thy ===== *)
theory TransferSet_Laws
  imports TransferSetServer
begin

text \<open>
  What the reports of a transfer set contain and when they are sent: frame conditions of the
  sending functions, the schedule of interval reports, the queue of buffered events, the content
  of a report by exception and the supervision of critical reports.
\<close>

section \<open>Loops that return\<close>

lemma for_each_preserves:
  assumes "for_each xs f s = Some s'" "I s"
    and "\<And>x s s'. x \<in> set xs \<Longrightarrow> f x s = Some s' \<Longrightarrow> I s \<Longrightarrow> I s'"
  shows "I s'"
  using assms
proof (induction xs arbitrary: s)
  case (Cons x xs)
  then obtain s1 where "f x s = Some s1" "for_each xs f s1 = Some s'" by (auto split: Option.bind_splits)
  with Cons show ?case by (meson list.set_intros)
qed simp

section \<open>The frame of the sending functions\<close>

text \<open>The fields of the context information that sending a report leaves as they are.\<close>

definition same_schedule :: "ActiveInfo \<Rightarrow> ActiveInfo \<Rightarrow> bool" where
  "same_schedule info info' \<longleftrightarrow>
     ai_lastSent info' = ai_lastSent info \<and>
     ai_lastSentIntegrityReport info' = ai_lastSentIntegrityReport info \<and>
     ai_nextSendTime info' = ai_nextSendTime info \<and> ai_period info' = ai_period info \<and>
     ai_integrityPeriod info' = ai_integrityPeriod info \<and> ai_isCritical info' = ai_isCritical info \<and>
     ai_bufferTime info' = ai_bufferTime info \<and> ai_bufferStarted info' = ai_bufferStarted info \<and>
     ai_bufferedDataPoints info' = ai_bufferedDataPoints info \<and>
     ai_includedSpecialObjects info' = ai_includedSpecialObjects info \<and>
     map_option fst (ai_tsNameValue info') = map_option fst (ai_tsNameValue info) \<and>
     map_option fst (ai_dsConditionsValue info') = map_option fst (ai_dsConditionsValue info) \<and>
     map_option fst (ai_eventCodeDetectedValue info') = map_option fst (ai_eventCodeDetectedValue info) \<and>
     map_option fst (ai_tsTimestampValue info') = map_option fst (ai_tsTimestampValue info)"

lemma same_schedule_refl [simp]: "same_schedule info info"
  by (simp add: same_schedule_def)

lemma same_schedule_trans: "same_schedule a b \<Longrightarrow> same_schedule b c \<Longrightarrow> same_schedule a c"
  by (simp add: same_schedule_def)

lemma change_value_fst: "change_value p f = Some q \<Longrightarrow> map_option fst p = Some (fst q)"
  by (cases p) (auto simp: change_value_def split: Option.bind_splits)

lemma set_conditions_frame:
  "set_conditions info reason = Some info' \<Longrightarrow> same_schedule info info' \<and>
     ai_bufferedEvents info' = ai_bufferedEvents info \<and> ai_eventQueueSize info' = ai_eventQueueSize info \<and>
     ai_outstandingCriticalReports info' = ai_outstandingCriticalReports info"
  by (auto simp: set_conditions_def same_schedule_def split: Option.bind_splits dest: change_value_fst)

lemma set_timestamp_frame:
  "set_timestamp info t = Some info' \<Longrightarrow> same_schedule info info' \<and>
     ai_bufferedEvents info' = ai_bufferedEvents info \<and> ai_eventQueueSize info' = ai_eventQueueSize info \<and>
     ai_outstandingCriticalReports info' = ai_outstandingCriticalReports info"
  by (auto simp: set_timestamp_def same_schedule_def split: Option.bind_splits dest: change_value_fst)

definition same_queue :: "ActiveInfo \<Rightarrow> ActiveInfo \<Rightarrow> bool" where
  "same_queue info info' \<longleftrightarrow> same_schedule info info' \<and>
     ai_bufferedEvents info' = ai_bufferedEvents info \<and> ai_eventQueueSize info' = ai_eventQueueSize info \<and>
     ai_outstandingCriticalReports info' = ai_outstandingCriticalReports info"

lemma same_queue_refl [simp]: "same_queue info info"
  by (simp add: same_queue_def)

lemma same_queue_trans: "same_queue a b \<Longrightarrow> same_queue b c \<Longrightarrow> same_queue a c"
  using same_schedule_trans by (auto simp: same_queue_def)

lemma set_same_queue:
  "set_conditions info reason = Some info' \<Longrightarrow> same_queue info info'"
  "set_timestamp info t = Some info' \<Longrightarrow> same_queue info info'"
  using set_conditions_frame set_timestamp_frame by (auto simp: same_queue_def)

lemma add_element_frame:
  assumes "add_element pts reason t e s = Some s'"
  shows "same_queue (fst s) (fst s') \<and> length (snd s') = length (snd s) + 1"
  using assms
  by (auto simp: add_element_def dest: set_same_queue split: prod.splits ts_element.splits if_splits Option.bind_splits)

lemma special_objects_frame:
  assumes "special_objects d reason t info = Some (info', specs, vals)"
  shows "same_queue info info' \<and> length specs = length vals"
  using assms
  by (auto simp: special_objects_def Let_def dest!: set_same_queue intro: same_queue_trans
      split: prod.splits if_splits Option.bind_splits)

text \<open>
  A report sent at time \<open>t\<close>: one effect, and of the set only the context information changes; a
  critical report is remembered.
\<close>

fun is_report :: "ts_effect \<Rightarrow> bool" where
  "is_report (ReportDataSet _ _ _ _ _) = True"
| "is_report (ReportVariables _ _ _ _) = True"
| "is_report _ = False"

definition report_frame :: "u64 \<Rightarrow> DSTransferSet \<Rightarrow> DSTransferSet \<Rightarrow> ts_effect list \<Rightarrow> bool" where
  "report_frame t ts ts' effects \<longleftrightarrow> (\<exists>e. effects = [e] \<and> is_report e) \<and>
     (\<exists>info info'. ts_info ts = Some info \<and> ts' = ts\<lparr>ts_info := Some info'\<rparr> \<and> same_schedule info info' \<and>
       ai_outstandingCriticalReports info' =
         ai_outstandingCriticalReports info @ (if ai_isCritical info then [t] else []))"

lemma report_frameI:
  assumes "ts_info ts = Some info" "same_queue (critical_sent t info) info'" "is_report e"
  shows "report_frame t ts (ts\<lparr>ts_info := Some info'\<rparr>) [e]"
    "report_frame t ts (ts\<lparr>ts_info := Some (info'\<lparr>ai_bufferedEvents := es, ai_eventQueueSize := n\<rparr>)\<rparr>) [e]"
  using assms by (auto simp: report_frame_def same_queue_def same_schedule_def critical_sent_def)

lemma sendAsDataSet_frame:
  assumes "sendDSTransferSetAsDataSet pts ts reason t = Some (ts', effects)"
  shows "report_frame t ts ts' effects"
proof -
  obtain info elems info' vals e where i: "ts_info ts = Some info"
    "for_each elems (add_element pts reason t) (critical_sent t info, []) = Some (info', vals)"
    "ts' = ts\<lparr>ts_info := Some info'\<rparr>" "effects = [e]" "is_report e"
    using assms by (auto simp: sendDSTransferSetAsDataSet_def Let_def split: Option.bind_splits prod.splits)
  have "same_queue (critical_sent t info) (fst (info', vals))"
    using i(2) by (rule for_each_preserves) (auto dest!: add_element_frame intro: same_queue_trans)
  then show ?thesis using report_frameI(1) [OF i(1) _ i(5)] unfolding i(3,4) by simp
qed

lemma sendSingle_frame:
  assumes "sendDSTransferSetSingleDataPoint pts ts p reason t = Some (ts', effects)"
  shows "report_frame t ts ts' effects"
proof -
  obtain info info' specs vals e where i: "ts_info ts = Some info"
    "special_objects (ts_domainName ts) TASE2_REPORT_REASON_OBJECT_CHANGE t (critical_sent t info) = Some (info', specs, vals)"
    "effects = [e]" "is_report e" "ts' = ts\<lparr>ts_info := Some info'\<rparr>"
    using assms by (auto simp: sendDSTransferSetSingleDataPoint_def Let_def split: Option.bind_splits prod.splits)
  show ?thesis
    using special_objects_frame [OF i(2)] report_frameI(1) [OF i(1) _ i(4)] unfolding i(3,5) by simp
qed

lemma sendChanged_frame:
  assumes "sendDSTransferSetChangedDataPoints pts ts reason t = Some (ts', effects)"
  shows "report_frame t ts ts' effects"
proof -
  obtain info info' specs vals e where i: "ts_info ts = Some info"
    "special_objects (ts_domainName ts) reason t (critical_sent t info) = Some (info', specs, vals)"
    "effects = [e]" "is_report e"
    "ts' = ts\<lparr>ts_info := Some info'\<rparr> \<or>
     ts' = ts\<lparr>ts_info := Some (info'\<lparr>ai_bufferedEvents := None, ai_eventQueueSize := 0\<rparr>)\<rparr>"
    using assms by (auto simp: sendDSTransferSetChangedDataPoints_def Let_def split: Option.bind_splits prod.splits if_splits)
  have "same_queue (critical_sent t info) info'" using special_objects_frame [OF i(2)] by simp
  with i(5) report_frameI [OF i(1) this i(4)] show ?thesis unfolding i(3) by auto
qed

lemma send_report_frame:
  "send_report pts ts reason t = Some (ts', effects) \<Longrightarrow> report_frame t ts ts' effects"
  by (auto simp: send_report_def split: Option.bind_splits if_splits
      dest: sendAsDataSet_frame sendChanged_frame)

section \<open>The schedule of interval reports\<close>

lemma unat_scast_pos:
  assumes "0 < sint (p :: u32)"
  shows "unat (scast p :: u64) = nat (sint p)"
proof -
  have "sint p < 2 ^ 31" using sint_lt [of p] by simp
  then have "uint (word_of_int (sint p) :: u64) = sint p"
    using assms by (subst uint_word_of_int) simp
  then show ?thesis by (simp only: scast_eq unat_eq_nat_uint)
qed

lemma next_time:
  fixes now start p :: u64
  assumes "start \<le> now" "0 < unat p" "unat now + unat p < 2 ^ 64"
  defines "next' \<equiv> start + ((now - start) div p + 1) * p"
  shows "now < next'" "unat next' \<le> unat now + unat p" "(unat next' - unat start) mod unat p = 0"
proof -
  define d where "d = (unat now - unat start) div unat p"
  have dp: "d * unat p \<le> unat now - unat start" by (simp add: d_def)
  have le: "unat start \<le> unat now" using assms(1) by (simp add: word_le_nat_alt)
  have "unat (now - start) = unat now - unat start" using assms(1) by (simp add: unat_sub)
  then have q: "unat ((now - start) div p) = d" by (simp add: unat_div d_def)
  have d64: "d < 2 ^ 64" unfolding q [symmetric] by (rule order_less_le_trans [OF unsigned_less]) simp
  have dsuc: "(d + 1) * unat p \<le> unat now - unat start + unat p" using dp by (simp add: algebra_simps)
  have "(d + 1) * 1 \<le> (d + 1) * unat p" using assms(2) by (intro mult_le_mono2) simp
  moreover have big: "(d + 1) * unat p \<le> unat now + unat p" by (rule order_trans [OF dsuc]) simp
  ultimately have "d + 1 \<le> unat now + unat p" by simp
  then have d1: "d + 1 < 2 ^ 64" using assms(3) by (rule le_less_trans)
  have "unat ((now - start) div p + 1) = d + 1"
    using d1 q by (simp add: unat_word_ariths)
  then have m: "unat (((now - start) div p + 1) * p) = (d + 1) * unat p"
    using le_less_trans [OF big assms(3)] by (simp add: unat_word_ariths)
  have sum: "unat start + (d + 1) * unat p \<le> unat now + unat p" using dsuc le by linarith
  then have n: "unat next' = unat start + (d + 1) * unat p"
    unfolding next'_def unat_word_ariths(1) m using assms(3) by simp
  have "unat now - unat start < (d + 1) * unat p"
    unfolding d_def using dividend_less_div_times [OF assms(2)] by (simp add: mult.commute)
  then show "now < next'" using n by (simp add: word_less_nat_alt)
  show "unat next' \<le> unat now + unat p" using n sum by simp
  show "(unat next' - unat start) mod unat p = 0" using n by simp
qed

text \<open>
  C20: The schedule of interval reports, however many cycles were missed: before the next send
  time nothing is sent and nothing changes; from then on exactly one report is sent and the next
  send time moves to a later point of the same grid, at most one period after the current time.
\<close>

theorem interval_schedule:
  assumes "isIntervalTimeoutEnabled conditions = Some True" "ts_info ts = Some info"
    "ai_period info = Some period" "0 < sint period" "ai_nextSendTime info = Some start"
    "unat now + nat (sint period) < 2 ^ 64"
    "interval_step pts conditions ts now sent = Some (ts', effects)"
  shows "if now < start then ts' = ts \<and> effects = []
    else \<exists>info' next'. ts_info ts' = Some info' \<and> ai_nextSendTime info' = Some next' \<and>
      now < next' \<and> unat next' \<le> unat now + nat (sint period) \<and>
      (unat next' - unat start) mod nat (sint period) = 0 \<and>
      ai_lastSent info' = now \<and> length effects = 1"
proof (cases "now < start")
  case True
  then show ?thesis using assms by (simp add: interval_step_def not_le [symmetric])
next
  case False
  then have le: "start \<le> now" by simp
  obtain ts1 info1 where r: "send_report pts ts TASE2_REPORT_REASON_INTERVAL_TIMEOUT sent = Some (ts1, effects)"
    "ts_info ts1 = Some info1"
    "ts' = ts1\<lparr>ts_info := Some (info1\<lparr>ai_lastSent := now,
       ai_nextSendTime := Some (start + ((now - start) div scast period + 1) * scast period)\<rparr>)\<rparr>"
    using assms le by (auto simp: interval_step_def Let_def split: Option.bind_splits)
  have "length effects = 1" using send_report_frame [OF r(1)] by (auto simp: report_frame_def)
  moreover note next_time [OF le, of "scast period"]
  ultimately show ?thesis using False assms(4,6) r by (simp add: unat_scast_pos)
qed

section \<open>The queue of buffered events\<close>

text \<open>A bounded queue of values that drops the oldest when it is full; \<open>-1\<close> is no bound.\<close>

definition bounded_add :: "int \<Rightarrow> 'a list \<Rightarrow> 'a \<Rightarrow> 'a list" where
  "bounded_add limit q x =
     (if limit \<noteq> - 1 \<and> int (length q) = limit then drop 1 q @ [x] else q @ [x])"

definition queue_of :: "DSTransferSet \<Rightarrow> BufferedEvent list" where
  "queue_of ts = (case ts_info ts of None \<Rightarrow> [] | Some info \<Rightarrow>
     (case ai_bufferedEvents info of None \<Rightarrow> [] | Some events \<Rightarrow> events))"

definition queue_counted :: "DSTransferSet \<Rightarrow> bool" where
  "queue_counted ts \<longleftrightarrow> (\<forall>info. ts_info ts = Some info \<longrightarrow> ai_eventQueueSize info = int (length (queue_of ts)))"

lemma store_event_queue:
  assumes "storeDataPointEventForTransferSet limit pts ts p i = Some ts'"
    "isAllChangesReportedEnabled ts = Some True" "queue_counted ts" "limit = - 1 \<or> limit > 0"
  obtains v where "reported_value (pts p) \<bind> MmsValue_clone = Some v"
    "queue_of ts' = bounded_add limit (queue_of ts) \<lparr>ev_dataPoint = p, ev_value = v\<rparr>" "queue_counted ts'"
    "ts_mmsValue ts' = ts_mmsValue ts" "ts_edition ts' = ts_edition ts"
proof -
  obtain info where i: "ts_info ts = Some info" using assms(1)
    by (auto simp: storeDataPointEventForTransferSet_def split: Option.bind_splits)
  have n: "ai_eventQueueSize info = int (length (queue_of ts))" using assms(3) i by (simp add: queue_counted_def)
  have q: "(case ai_bufferedEvents info of None \<Rightarrow> [] | Some events \<Rightarrow> events) = queue_of ts"
    by (simp add: queue_of_def i)
  obtain v where v: "reported_value (pts p) \<bind> MmsValue_clone = Some v"
    using assms(1,2) i by (auto simp: storeDataPointEventForTransferSet_def Let_def split: Option.bind_splits prod.splits)
  have "ts' = ts\<lparr>ts_info := Some (info\<lparr>
      ai_bufferedEvents := Some (bounded_add limit (queue_of ts) \<lparr>ev_dataPoint = p, ev_value = v\<rparr>),
      ai_eventQueueSize := int (length (bounded_add limit (queue_of ts) \<lparr>ev_dataPoint = p, ev_value = v\<rparr>))\<rparr>)\<rparr>"
    using assms(1,2,4) i
    by (cases "queue_of ts")
      (auto simp: storeDataPointEventForTransferSet_def Let_def v q n bounded_add_def split: if_splits)
  with v that show thesis by (simp add: queue_of_def queue_counted_def)
qed

text \<open>The last \<open>n\<close> elements.\<close>

definition take_last :: "nat \<Rightarrow> 'a list \<Rightarrow> 'a list" where
  "take_last n xs = drop (length xs - n) xs"

lemma length_take_last: "length (take_last n xs) = min n (length xs)"
  by (simp add: take_last_def)

lemma take_last_snoc: "0 < n \<Longrightarrow> take_last n (take_last n xs @ [x]) = take_last n (xs @ [x])"
  by (cases "n \<le> length xs") (auto simp: take_last_def Suc_diff_le)

lemma bounded_add_take_last:
  "0 < n \<Longrightarrow> bounded_add (int n) (take_last n xs) x = take_last n (xs @ [x])"
  by (cases "n \<le> length xs") (auto simp: bounded_add_def take_last_def Suc_diff_le)

definition event_of :: "points \<times> point \<times> nat \<Rightarrow> BufferedEvent \<Rightarrow> bool" where
  "event_of change e \<longleftrightarrow> (case change of (pts, p, i) \<Rightarrow>
     ev_dataPoint e = p \<and> reported_value (pts p) \<bind> MmsValue_clone = Some (ev_value e))"

lemma store_events_queue:
  assumes "for_each changes (\<lambda>(pts, p, i) ts. storeDataPointEventForTransferSet (int n) pts ts p i) ts = Some ts'"
    "isAllChangesReportedEnabled ts = Some True" "queue_counted ts" "0 < n" "queue_of ts = take_last n es"
  shows "\<exists>new. list_all2 event_of changes new \<and> queue_of ts' = take_last n (es @ new)"
  using assms
proof (induction changes arbitrary: ts es)
  case (Cons c changes)
  obtain pts p i where c: "c = (pts, p, i)" by (cases c)
  obtain ts1 where ts1: "storeDataPointEventForTransferSet (int n) pts ts p i = Some ts1"
    "for_each changes (\<lambda>(pts, p, i) ts. storeDataPointEventForTransferSet (int n) pts ts p i) ts1 = Some ts'"
    using Cons.prems(1) c by (auto split: Option.bind_splits)
  obtain v where v: "reported_value (pts p) \<bind> MmsValue_clone = Some v"
    "queue_of ts1 = bounded_add (int n) (queue_of ts) \<lparr>ev_dataPoint = p, ev_value = v\<rparr>" "queue_counted ts1"
    "ts_mmsValue ts1 = ts_mmsValue ts" "ts_edition ts1 = ts_edition ts"
    using store_event_queue [OF ts1(1) Cons.prems(2,3)] Cons.prems(4) by auto
  have all: "isAllChangesReportedEnabled ts1 = Some True"
    using Cons.prems(2) unfolding isAllChangesReportedEnabled_def ts_element_value_def v(4,5) .
  have q: "queue_of ts1 = take_last n (es @ [\<lparr>ev_dataPoint = p, ev_value = v\<rparr>])"
    using v(2) Cons.prems(4,5) by (simp add: bounded_add_take_last)
  obtain new where "list_all2 event_of changes new"
    "queue_of ts' = take_last n ((es @ [\<lparr>ev_dataPoint = p, ev_value = v\<rparr>]) @ new)"
    using Cons.IH [OF ts1(2) all v(3) Cons.prems(4) q] by blast
  with v(1) c show ?case
    by (intro exI [of _ "\<lparr>ev_dataPoint = p, ev_value = v\<rparr> # new"]) (simp, simp add: event_of_def)
qed auto

text \<open>
  C10: With \<open>AllChangesReported\<close> and a queue limit, the queue of a transfer set is the bounded
  queue of the latest changes: after any series of changes it holds the last events of all those
  that happened, in order, each with the value its point had then, and never more than the limit.
\<close>

theorem event_queue_bounded:
  assumes "for_each changes (\<lambda>(pts, p, i) ts. storeDataPointEventForTransferSet (int limit) pts ts p i) ts = Some ts'"
    "isAllChangesReportedEnabled ts = Some True" "queue_counted ts" "0 < limit" "length (queue_of ts) \<le> limit"
  shows "\<exists>new. list_all2 event_of changes new \<and> queue_of ts' = take_last limit (queue_of ts @ new) \<and>
    length (queue_of ts') \<le> limit"
proof -
  have "queue_of ts = take_last limit (queue_of ts)" using assms(5) by (simp add: take_last_def)
  from store_events_queue [OF assms(1-4) this] show ?thesis by (auto simp: length_take_last)
qed

text \<open>Once the limit is below the length of the queue, it is never reached again.\<close>

lemma store_events_over:
  assumes "for_each changes (\<lambda>(pts, p, i) ts. storeDataPointEventForTransferSet (int n) pts ts p i) ts = Some ts'"
    "isAllChangesReportedEnabled ts = Some True" "queue_counted ts" "0 < n" "n < length (queue_of ts)"
  shows "length (queue_of ts') = length (queue_of ts) + length changes"
  using assms
proof (induction changes arbitrary: ts)
  case (Cons c changes)
  obtain pts p i where c: "c = (pts, p, i)" by (cases c)
  obtain ts1 where ts1: "storeDataPointEventForTransferSet (int n) pts ts p i = Some ts1"
    "for_each changes (\<lambda>(pts, p, i) ts. storeDataPointEventForTransferSet (int n) pts ts p i) ts1 = Some ts'"
    using Cons.prems(1) c by (auto split: Option.bind_splits)
  obtain v where v: "queue_of ts1 = bounded_add (int n) (queue_of ts) \<lparr>ev_dataPoint = p, ev_value = v\<rparr>"
    "queue_counted ts1" "ts_mmsValue ts1 = ts_mmsValue ts" "ts_edition ts1 = ts_edition ts"
    using store_event_queue [OF ts1(1) Cons.prems(2,3)] Cons.prems(4) by auto
  have all: "isAllChangesReportedEnabled ts1 = Some True"
    using Cons.prems(2) unfolding isAllChangesReportedEnabled_def ts_element_value_def v(3,4) .
  have "length (queue_of ts1) = length (queue_of ts) + 1"
    using v(1) Cons.prems(5) by (simp add: bounded_add_def)
  then show ?case using Cons.IH [OF ts1(2) all v(2) Cons.prems(4)] Cons.prems(5) by simp
qed simp

text \<open>
  The limit of the event queue holds only if it is set before the events come: when it is
  lowered below the number of queued events, no further change drops an event and the queue
  grows by one with every change.
\<close>

theorem lowered_limit_unbounded:
  assumes "for_each changes (\<lambda>(pts, p, i) ts. storeDataPointEventForTransferSet
      (sv_maxDSTSEventQueueSize (Tase2_Server_setMaxDSTSEventQueueSize srv (int limit))) pts ts p i) ts = Some ts'"
    "isAllChangesReportedEnabled ts = Some True" "queue_counted ts" "0 < limit" "limit < length (queue_of ts)"
  shows "length (queue_of ts') = length (queue_of ts) + length changes"
proof -
  have "sv_maxDSTSEventQueueSize (Tase2_Server_setMaxDSTSEventQueueSize srv (int limit)) = int limit"
    using assms(4) by (simp add: Tase2_Server_setMaxDSTSEventQueueSize_def)
  then show ?thesis using store_events_over [OF _ assms(2-5)] assms(1) by simp
qed

section \<open>Reports by exception\<close>

definition change_bit :: "MmsValue \<Rightarrow> nat \<Rightarrow> bool" where
  "change_bit buffered i \<longleftrightarrow> MmsValue_getBitStringBit buffered i = Some True"

text \<open>The points whose bit is set, in the order of the list, from position \<open>k\<close> on.\<close>

fun changed_points :: "MmsValue \<Rightarrow> nat \<Rightarrow> ts_element list \<Rightarrow> point list" where
  "changed_points buffered k [] = []"
| "changed_points buffered k (ElemPoint p # es) =
     (if change_bit buffered k then p # changed_points buffered (k + 1) es else changed_points buffered (k + 1) es)"
| "changed_points buffered k (ElemValue a # es) = changed_points buffered (k + 1) es"

definition names_fit :: "points \<Rightarrow> bool" where
  "names_fit pts \<longleftrightarrow> (\<forall>p. dp_isControl (pts p) \<longrightarrow> length (dp_pointName (pts p)) \<le> 60)"

lemma reported_name_fits: "names_fit pts \<Longrightarrow> \<exists>name. reported_name (pts p) = Some name"
  by (auto simp: reported_name_def names_fit_def)

definition point_name :: "points \<Rightarrow> point \<Rightarrow> cstr option \<times> cstr" where
  "point_name pts p = (dp_domainName (pts p),
     if dp_isControl (pts p) then dp_pointName (pts p) @ cstring ''_TAG'' else dp_pointName (pts p))"

lemma reported_name_eq: "names_fit pts \<Longrightarrow> reported_name (pts p) = Some (point_name pts p)"
  by (auto simp: reported_name_def names_fit_def point_name_def)

lemma add_changed_eq:
  assumes "names_fit pts" "mms_ok (ValBitString n buf)"
    "\<And>i a. i < length es \<Longrightarrow> es ! i = ElemValue a \<Longrightarrow> \<not> change_bit (ValBitString n buf) (k + i)"
  shows "add_changed pts (ValBitString n buf) k es (specs, vals) =
    Some (specs @ map (point_name pts) (changed_points (ValBitString n buf) k es),
          vals @ map (\<lambda>p. reported_value (pts p)) (changed_points (ValBitString n buf) k es))"
  using assms(3)
proof (induction es arbitrary: k specs vals)
  case (Cons e es)
  obtain b where b: "MmsValue_getBitStringBit (ValBitString n buf) k = Some b"
    using getBit_ok [OF assms(2)] by blast
  have cb: "change_bit (ValBitString n buf) k = b" using b by (simp add: change_bit_def del: MmsValue_getBitStringBit.simps)
  have "\<not> change_bit (ValBitString n buf) (k + 1 + i)" if "i < length es" "es ! i = ElemValue a" for i a
    using Cons.prems [of "Suc i" a] that by simp
  note IH = Cons.IH [OF this]
  show ?case
  proof (cases e)
    case (ElemValue a)
    then have "\<not> b" using Cons.prems [of 0 a] cb by simp
    then show ?thesis using b IH ElemValue by (simp del: MmsValue_getBitStringBit.simps)
  next
    case (ElemPoint p)
    then show ?thesis
      using b cb IH by (cases b) (simp_all add: reported_name_eq [OF assms(1)] del: MmsValue_getBitStringBit.simps)
  qed
qed simp


section \<open>The periodic check\<close>

text \<open>The fields the steps after the supervision leave as they are, and the reports they send.\<close>

definition step_frame :: "DSTransferSet \<Rightarrow> DSTransferSet \<Rightarrow> ts_effect list \<Rightarrow> bool" where
  "step_frame ts ts' effects \<longleftrightarrow> (\<forall>e \<in> set effects. is_report e) \<and>
     (\<exists>info info' sent. ts_info ts = Some info \<and> ts' = ts\<lparr>ts_info := Some info'\<rparr> \<and>
       ai_isCritical info' = ai_isCritical info \<and>
       ai_outstandingCriticalReports info' = ai_outstandingCriticalReports info @ sent \<and>
       length sent = (if ai_isCritical info then length effects else 0))"

lemma same_info: "ts_info ts = x \<Longrightarrow> ts\<lparr>ts_info := x\<rparr> = ts"
  by (cases ts) simp

lemma step_frame_skip: "ts_info ts = Some info \<Longrightarrow> step_frame ts ts []"
  unfolding step_frame_def
  by (intro conjI exI [of _ info] exI [of _ "[]"]) (simp_all add: same_info [of ts "Some info"])

lemma step_frame_report:
  assumes "report_frame t ts ts' effects" "ts_info ts' = Some info'"
    "ai_isCritical info'' = ai_isCritical info'"
    "ai_outstandingCriticalReports info'' = ai_outstandingCriticalReports info'"
  shows "step_frame ts (ts'\<lparr>ts_info := Some info''\<rparr>) effects"
proof -
  obtain e info where r: "effects = [e]" "is_report e" "ts_info ts = Some info" "ts' = ts\<lparr>ts_info := Some info'\<rparr>"
    "ai_isCritical info' = ai_isCritical info"
    "ai_outstandingCriticalReports info' = ai_outstandingCriticalReports info @ (if ai_isCritical info then [t] else [])"
    using assms(1,2) by (auto simp: report_frame_def same_schedule_def)
  show ?thesis unfolding step_frame_def
    by (intro conjI exI [of _ info] exI [of _ info''] exI [of _ "if ai_isCritical info then [t] else []"])
      (simp_all add: r assms(3,4))
qed

lemma step_frame_info:
  assumes "step_frame (ts\<lparr>ts_info := Some info'\<rparr>) ts' effects" "ts_info ts = Some info"
    "ai_isCritical info' = ai_isCritical info"
    "ai_outstandingCriticalReports info' = ai_outstandingCriticalReports info"
  shows "step_frame ts ts' effects"
  using assms by (auto simp: step_frame_def)

lemma step_frame_append:
  assumes "step_frame ts ts1 e1" "step_frame ts1 ts2 e2"
  shows "step_frame ts ts2 (e1 @ e2)"
proof -
  obtain info info1 s1 where 1: "ts_info ts = Some info" "ts1 = ts\<lparr>ts_info := Some info1\<rparr>"
    "ai_isCritical info1 = ai_isCritical info"
    "ai_outstandingCriticalReports info1 = ai_outstandingCriticalReports info @ s1"
    "length s1 = (if ai_isCritical info then length e1 else 0)" "\<forall>e \<in> set e1. is_report e"
    using assms(1) by (auto simp: step_frame_def)
  obtain info2 s2 where 2: "ts2 = ts\<lparr>ts_info := Some info2\<rparr>"
    "ai_isCritical info2 = ai_isCritical info"
    "ai_outstandingCriticalReports info2 = ai_outstandingCriticalReports info @ s1 @ s2"
    "length s2 = (if ai_isCritical info then length e2 else 0)" "\<forall>e \<in> set e2. is_report e"
    using assms(2) 1 by (auto simp: step_frame_def)
  show ?thesis unfolding step_frame_def
    by (intro conjI exI [of _ info] exI [of _ info2] exI [of _ "s1 @ s2"]) (use 1 2 in auto)
qed

lemma interval_step_frame:
  assumes "interval_step pts c ts now sent = Some (ts', effects)"
  shows "step_frame ts ts' effects"
proof -
  obtain info where i: "ts_info ts = Some info" using assms
    by (auto simp: interval_step_def split: Option.bind_splits)
  consider "ts' = ts" "effects = []"
    | ts1 info1 n where "send_report pts ts TASE2_REPORT_REASON_INTERVAL_TIMEOUT sent = Some (ts1, effects)"
      "ts_info ts1 = Some info1"
      "ts' = ts1\<lparr>ts_info := Some (info1\<lparr>ai_lastSent := now, ai_nextSendTime := n\<rparr>)\<rparr>"
    using assms by (auto simp: interval_step_def Let_def split: Option.bind_splits if_splits)
  then show ?thesis
    by cases (simp_all add: step_frame_skip [OF i] step_frame_report [OF send_report_frame])
qed

lemma integrity_step_frame:
  assumes "integrity_step pts c ts now sent = Some (ts', effects)"
  shows "step_frame ts ts' effects"
proof -
  obtain info where i: "ts_info ts = Some info" using assms
    by (auto simp: integrity_step_def split: Option.bind_splits)
  define info1 where "info1 = (if ai_lastSentIntegrityReport info > now then info\<lparr>ai_lastSentIntegrityReport := now\<rparr> else info)"
  have crit: "ai_isCritical info1 = ai_isCritical info"
    "ai_outstandingCriticalReports info1 = ai_outstandingCriticalReports info" by (simp_all add: info1_def)
  consider "ts' = ts" "effects = []" | "ts' = ts\<lparr>ts_info := Some info1\<rparr>" "effects = []"
    | ts1 info2 where "sendDSTransferSetAsDataSet pts (ts\<lparr>ts_info := Some info1\<rparr>) TASE2_REPORT_REASON_INTEGRITY_TIMEOUT sent = Some (ts1, effects)"
      "ts_info ts1 = Some info2" "ts' = ts1\<lparr>ts_info := Some (info2\<lparr>ai_lastSentIntegrityReport := now\<rparr>)\<rparr>"
    using assms i by (auto simp: integrity_step_def Let_def info1_def split: Option.bind_splits if_splits)
  then show ?thesis
  proof cases
    case 2
    then show ?thesis by (intro step_frame_info [OF _ i crit]) (simp add: step_frame_skip)
  next
    case 3
    then show ?thesis
      by (intro step_frame_info [OF _ i crit]) (simp add: step_frame_report [OF sendAsDataSet_frame])
  qed (simp add: step_frame_skip [OF i])
qed

lemma object_change_step_frame:
  assumes "object_change_step pts c ts now sent = Some (ts', effects)"
  shows "step_frame ts ts' effects"
proof -
  obtain info where i: "ts_info ts = Some info" using assms
    by (auto simp: object_change_step_def split: Option.bind_splits)
  consider "ts' = ts" "effects = []"
    | ts1 info1 b where "send_report pts ts TASE2_REPORT_REASON_OBJECT_CHANGE sent = Some (ts1, effects)"
      "ts_info ts1 = Some info1"
      "ts' = ts1\<lparr>ts_info := Some (info1\<lparr>ai_bufferStarted := 0, ai_bufferedDataPoints := Some b\<rparr>)\<rparr>"
    using assms by (auto simp: object_change_step_def Let_def split: Option.bind_splits if_splits)
  then show ?thesis
    by cases (simp_all add: step_frame_skip [OF i] step_frame_report [OF send_report_frame])
qed

lemma expired_report_cases:
  "case expired_report now timeout reports of
     None \<Rightarrow> \<forall>r \<in> set reports. \<not> now - r > scast timeout
   | Some (r, rest) \<Rightarrow> \<exists>pre suf. reports = pre @ r # suf \<and> rest = pre @ suf \<and>
       now - r > scast timeout \<and> (\<forall>q \<in> set pre. \<not> now - q > scast timeout)"
proof (induction reports)
  case (Cons r reports)
  show ?case
  proof (cases "now - r > scast timeout")
    case True
    then show ?thesis by (auto intro: exI [of _ "[]"])
  next
    case False
    show ?thesis
    proof (cases "expired_report now timeout reports")
      case None
      with Cons.IH False show ?thesis by simp
    next
      case (Some qr)
      obtain q rest where qr: "qr = (q, rest)" by (cases qr)
      with Cons.IH Some obtain pre suf where "reports = pre @ q # suf" "rest = pre @ suf"
        "now - q > scast timeout" "\<forall>q \<in> set pre. \<not> now - q > scast timeout" by auto
      with False Some qr show ?thesis
        by simp (intro exI [of _ "r # pre"] exI [of _ suf], simp)
    qed
  qed
qed simp

lemma handleTransferSet_enabled:
  assumes "handleTransferSet srv t now sent = Some (srv', effects)"
    "tase2_DSTransferSet_isEnabled (sv_sets srv t) = Some True"
  obtains info info1 info2 srv1 e1 e2 ts' where "ts_info (sv_sets srv t) = Some info"
    "info1 = (if ai_lastSent info > now then info\<lparr>ai_lastSent := now\<rparr> else info)"
    "critical_step srv t now info1 = (srv1, info2, e1)"
    "step_frame ((sv_sets srv t)\<lparr>ts_info := Some info2\<rparr>) ts' e2" "srv' = put_set srv1 t ts'" "effects = e1 @ e2"
proof -
  let ?ts = "sv_sets srv t"
  obtain info c where i: "ts_info ?ts = Some info" "ts_element_value ?ts 6 = Some c"
    using assms by (auto simp: handleTransferSet_def Let_def split: Option.bind_splits)
  define info1 where "info1 = (if ai_lastSent info > now then info\<lparr>ai_lastSent := now\<rparr> else info)"
  obtain srv1 info2 e1 where c: "critical_step srv t now info1 = (srv1, info2, e1)" by (metis prod_cases3)
  obtain ts1 ts2 ts3 e2 e3 e4 where s:
    "interval_step (sv_points srv1) c (?ts\<lparr>ts_info := Some info2\<rparr>) now (sent TASE2_REPORT_REASON_INTERVAL_TIMEOUT) = Some (ts1, e2)"
    "integrity_step (sv_points srv1) c ts1 now (sent TASE2_REPORT_REASON_INTEGRITY_TIMEOUT) = Some (ts2, e3)"
    "object_change_step (sv_points srv1) c ts2 now (sent TASE2_REPORT_REASON_OBJECT_CHANGE) = Some (ts3, e4)"
    "srv' = put_set srv1 t ts3" "effects = e1 @ e2 @ e3 @ e4"
    using assms i c info1_def
    by (auto simp: handleTransferSet_def Let_def split: Option.bind_splits)
  have "step_frame (?ts\<lparr>ts_info := Some info2\<rparr>) ts3 (e2 @ e3 @ e4)"
    by (rule step_frame_append [OF interval_step_frame [OF s(1)]
          step_frame_append [OF integrity_step_frame [OF s(2)] object_change_step_frame [OF s(3)]]])
  then show thesis using that i info1_def c s(4,5) by blast
qed

text \<open>
  C3: Supervision of critical reports: a periodic check of an enabled critical set looks through
  the outstanding reports in the order they were sent. If some have waited longer than the
  timeout, the first of them, and only that one, is removed, counted as unconfirmed and reported
  to the application with its time; the other expired ones wait for later checks. Otherwise the
  counter stays. The critical reports of this check are appended.
\<close>

theorem critical_supervision:
  assumes "handleTransferSet srv t now sent = Some (srv', effects)"
    "tase2_DSTransferSet_isEnabled (sv_sets srv t) = Some True"
    "ts_info (sv_sets srv t) = Some info" "ai_isCritical info"
  shows "\<exists>info' rest new reports. ts_info (sv_sets srv' t) = Some info' \<and>
    ai_outstandingCriticalReports info' = rest @ new \<and> (\<forall>e \<in> set reports. is_report e) \<and> length new = length reports \<and>
    (if \<exists>r \<in> set (ai_outstandingCriticalReports info). now - r > scast (sv_criticalReportTimeout srv)
     then \<exists>pre r suf. ai_outstandingCriticalReports info = pre @ r # suf \<and> rest = pre @ suf \<and>
       now - r > scast (sv_criticalReportTimeout srv) \<and>
       (\<forall>q \<in> set pre. \<not> now - q > scast (sv_criticalReportTimeout srv)) \<and>
       effects = CriticalNotConfirmed t r False # reports \<and>
       sv_unconfirmedCriticalReportCounter srv' = sv_unconfirmedCriticalReportCounter srv + 1
     else rest = ai_outstandingCriticalReports info \<and> effects = reports \<and>
       sv_unconfirmedCriticalReportCounter srv' = sv_unconfirmedCriticalReportCounter srv)"
proof -
  obtain info1 info2 srv1 e1 e2 ts' where h:
    "info1 = (if ai_lastSent info > now then info\<lparr>ai_lastSent := now\<rparr> else info)"
    "critical_step srv t now info1 = (srv1, info2, e1)"
    "step_frame ((sv_sets srv t)\<lparr>ts_info := Some info2\<rparr>) ts' e2" "srv' = put_set srv1 t ts'" "effects = e1 @ e2"
    using handleTransferSet_enabled [OF assms(1,2)] assms(3) by (metis option.inject)
  have i1: "ai_isCritical info1" "ai_outstandingCriticalReports info1 = ai_outstandingCriticalReports info"
    using h(1) assms(4) by auto
  have crit: "ai_isCritical info2" using h(2) i1(1)
    by (auto simp: critical_step_def criticalReportTimeout_def split: option.splits)
  obtain info' new where f: "ts_info ts' = Some info'" "\<forall>e \<in> set e2. is_report e"
    "ai_outstandingCriticalReports info' = ai_outstandingCriticalReports info2 @ new" "length new = length e2"
    using h(3) crit by (auto simp: step_frame_def)
  note cases = expired_report_cases [where now = now and timeout = "sv_criticalReportTimeout srv" and
      reports = "ai_outstandingCriticalReports info"]
  show ?thesis
  proof (cases "expired_report now (sv_criticalReportTimeout srv) (ai_outstandingCriticalReports info)")
    case None
    with h(2) i1 have "info2 = info1" "srv1 = srv" "e1 = []" by (auto simp: critical_step_def)
    with None cases f h(4,5) i1 show ?thesis
      by (intro exI [of _ info'] exI [of _ "ai_outstandingCriticalReports info"] exI [of _ new] exI [of _ e2])
        (auto simp: put_set_def)
  next
    case (Some qr)
    obtain r rest where qr: "qr = (r, rest)" by (cases qr)
    with cases Some obtain pre suf where p: "ai_outstandingCriticalReports info = pre @ r # suf" "rest = pre @ suf"
      "now - r > scast (sv_criticalReportTimeout srv)"
      "\<forall>q \<in> set pre. \<not> now - q > scast (sv_criticalReportTimeout srv)" by auto
    have "ai_outstandingCriticalReports info2 = rest" "e1 = [CriticalNotConfirmed t r False]"
      "sv_unconfirmedCriticalReportCounter srv1 = sv_unconfirmedCriticalReportCounter srv + 1"
      using h(2) i1 Some qr by (auto simp: critical_step_def criticalReportTimeout_def)
    with p f h(4,5) show ?thesis
      by (intro exI [of _ info'] exI [of _ rest] exI [of _ new] exI [of _ e2]) (auto simp: put_set_def)
  qed
qed

text \<open>The change buffer is cleared by the object-change step only.\<close>

definition buffer_of :: "DSTransferSet \<Rightarrow> MmsValue option" where
  "buffer_of ts = (case ts_info ts of None \<Rightarrow> None | Some info \<Rightarrow> ai_bufferedDataPoints info)"

lemma report_keeps_buffer: "report_frame t ts ts' effects \<Longrightarrow> buffer_of ts' = buffer_of ts"
  by (auto simp: report_frame_def same_schedule_def buffer_of_def)

lemma interval_step_keeps_buffer:
  assumes "interval_step pts c ts now sent = Some (ts', effects)"
  shows "buffer_of ts' = buffer_of ts"
proof -
  consider "ts' = ts" | ts1 info1 n where "send_report pts ts TASE2_REPORT_REASON_INTERVAL_TIMEOUT sent = Some (ts1, effects)"
      "ts_info ts1 = Some info1"
      "ts' = ts1\<lparr>ts_info := Some (info1\<lparr>ai_lastSent := now, ai_nextSendTime := n\<rparr>)\<rparr>"
    using assms by (auto simp: interval_step_def Let_def split: Option.bind_splits if_splits)
  then show ?thesis
  proof cases
    case 2
    then show ?thesis using report_keeps_buffer [OF send_report_frame [OF 2(1)]] by (simp add: buffer_of_def)
  qed simp
qed

lemma integrity_step_keeps_buffer:
  assumes "integrity_step pts c ts now sent = Some (ts', effects)"
  shows "buffer_of ts' = buffer_of ts"
proof -
  obtain info where i: "ts_info ts = Some info" using assms
    by (auto simp: integrity_step_def split: Option.bind_splits)
  define info1 where "info1 = (if ai_lastSentIntegrityReport info > now then info\<lparr>ai_lastSentIntegrityReport := now\<rparr> else info)"
  have b: "buffer_of (ts\<lparr>ts_info := Some info1\<rparr>) = buffer_of ts" by (simp add: info1_def buffer_of_def i)
  consider "ts' = ts" | "ts' = ts\<lparr>ts_info := Some info1\<rparr>"
    | ts1 info2 where "sendDSTransferSetAsDataSet pts (ts\<lparr>ts_info := Some info1\<rparr>) TASE2_REPORT_REASON_INTEGRITY_TIMEOUT sent = Some (ts1, effects)"
      "ts_info ts1 = Some info2" "ts' = ts1\<lparr>ts_info := Some (info2\<lparr>ai_lastSentIntegrityReport := now\<rparr>)\<rparr>"
    using assms i by (auto simp: integrity_step_def Let_def info1_def split: Option.bind_splits if_splits)
  then show ?thesis
  proof cases
    case 3
    then show ?thesis using report_keeps_buffer [OF sendAsDataSet_frame [OF 3(1)]] b
      by (simp add: buffer_of_def)
  qed (simp_all add: b)
qed

text \<open>
  Without the object-change condition the buffer of changes is never cleared: whatever a
  periodic check sends, the bits stay set, so under report by exception a point that changed once
  is in every later interval report although it did not change again.
\<close>

theorem interval_changes_never_cleared:
  assumes "handleTransferSet srv t now sent = Some (srv', effects)"
    "ts_element_value (sv_sets srv t) 6 = Some conditions" "isObjectChangedEnabled conditions = Some False"
  shows "buffer_of (sv_sets srv' t) = buffer_of (sv_sets srv t)"
proof (cases "tase2_DSTransferSet_isEnabled (sv_sets srv t) = Some True")
  case False
  then have "srv' = srv" using assms(1) by (auto simp: handleTransferSet_def Let_def split: Option.bind_splits if_splits)
  then show ?thesis by simp
next
  case True
  let ?ts = "sv_sets srv t"
  obtain info where i: "ts_info ?ts = Some info"
    using assms True by (auto simp: handleTransferSet_def Let_def split: Option.bind_splits)
  define info1 where "info1 = (if ai_lastSent info > now then info\<lparr>ai_lastSent := now\<rparr> else info)"
  obtain srv1 info2 e1 where c: "critical_step srv t now info1 = (srv1, info2, e1)" by (metis prod_cases3)
  obtain ts1 ts2 ts3 e2 e3 e4 where s:
    "interval_step (sv_points srv1) conditions (?ts\<lparr>ts_info := Some info2\<rparr>) now (sent TASE2_REPORT_REASON_INTERVAL_TIMEOUT) = Some (ts1, e2)"
    "integrity_step (sv_points srv1) conditions ts1 now (sent TASE2_REPORT_REASON_INTEGRITY_TIMEOUT) = Some (ts2, e3)"
    "object_change_step (sv_points srv1) conditions ts2 now (sent TASE2_REPORT_REASON_OBJECT_CHANGE) = Some (ts3, e4)"
    "srv' = put_set srv1 t ts3"
    using assms(1,2) True i c info1_def
    by (auto simp: handleTransferSet_def Let_def split: Option.bind_splits)
  have "ts3 = ts2" using s(3) assms(3) by (auto simp: object_change_step_def split: Option.bind_splits)
  then have "buffer_of ts3 = buffer_of (?ts\<lparr>ts_info := Some info2\<rparr>)"
    using interval_step_keeps_buffer [OF s(1)] integrity_step_keeps_buffer [OF s(2)] by simp
  moreover have "ai_bufferedDataPoints info2 = ai_bufferedDataPoints info"
    using c by (auto simp: critical_step_def criticalReportTimeout_def info1_def split: option.splits if_splits)
  ultimately show ?thesis using s(4) i by (simp add: buffer_of_def put_set_def)
qed

section \<open>Concrete transfer sets\<close>

text \<open>The attributes of a set of the 2000 edition with the given conditions and flags.\<close>

definition sample_attributes :: "u8 \<Rightarrow> bool \<Rightarrow> bool \<Rightarrow> bool \<Rightarrow> bool \<Rightarrow> MmsValue" where
  "sample_attributes conditions critical rbe all status = ValStructure
     [Some (ValStructure [Some (MmsValue_newUnsigned 8), Some (ValVisibleString 32 (Some [])),
        Some (ValVisibleString 32 (Some [100, 115]))]),
      Some (MmsValue_newInteger 32), Some (MmsValue_newInteger 32), Some (MmsValue_newInteger 32),
      Some (MmsValue_newInteger 32), Some (MmsValue_newInteger 32), Some (ValBitString 5 [conditions]),
      Some (ValBoolean False), Some (ValBoolean critical), Some (ValBoolean rbe), Some (ValBoolean all),
      Some (ValBoolean status), Some (MmsValue_newInteger 16)]"

definition sample_info :: ActiveInfo where
  "sample_info = \<lparr>ai_lastSent = 0, ai_lastSentIntegrityReport = 0, ai_nextSendTime = Some 1000,
     ai_period = Some 60000, ai_integrityPeriod = 0, ai_isCritical = True, ai_bufferTime = 0,
     ai_bufferStarted = 0, ai_bufferedDataPoints = Some (ValBitString 2 [0x40]),
     ai_includedSpecialObjects = 0, ai_tsNameValue = None, ai_dsConditionsValue = None,
     ai_eventCodeDetectedValue = None, ai_tsTimestampValue = None,
     ai_outstandingCriticalReports = [130000, 1000, 2000], ai_bufferedEvents = None, ai_eventQueueSize = 0\<rparr>"

definition sample_set :: "MmsValue \<Rightarrow> ActiveInfo \<Rightarrow> DSTransferSet" where
  "sample_set v info = \<lparr>ts_name = [116, 115], ts_domainName = [73], ts_mmsValue = v,
     ts_edition = TASE2_EDITION_2000_08, ts_connection = Some 7,
     ts_dataPoints = Some [ElemPoint 0, ElemPoint 1], ts_info = Some info\<rparr>"

definition sample_points :: points where
  "sample_points p = \<lparr>dp_isControl = False, dp_pointName = [112, of_nat p], dp_domainName = None,
     dp_pointValue = Some (ValBoolean (p = 1)), dp_tagValue = None, dp_activeTransferSets = None\<rparr>"

definition sample_server :: "DSTransferSet \<Rightarrow> TransferServer" where
  "sample_server ts = \<lparr>sv_dataModel = Tase2_DataModel_create,
     sv_device = \<lparr>mdev_domains = [], mdev_namedVariableLists = []\<rparr>, sv_domainName = (\<lambda>_. []),
     sv_sets = (\<lambda>_. ts), sv_points = sample_points, sv_activeTransferSets = [0],
     sv_maxDSTSEventQueueSize = - 1, sv_criticalReportTimeout = 5000,
     sv_unconfirmedCriticalReportCounter = 0, sv_nextValue = 10\<rparr>"

theorem interval_schedule_witness:
  "\<exists>ts' effects info' next'.
     interval_step sample_points (ValBitString 5 [0x80]) (sample_set (sample_attributes 0x80 True True False True) sample_info)
       125000 125001 = Some (ts', effects) \<and>
     ts_info ts' = Some info' \<and> ai_nextSendTime info' = Some next' \<and> 125000 < next' \<and> unat next' \<le> 185000 \<and>
     (unat next' - 1000) mod 60000 = 0 \<and> length effects = 1"
proof -
  let ?ts = "sample_set (sample_attributes 0x80 True True False True) sample_info"
  have "interval_step sample_points (ValBitString 5 [0x80]) ?ts 125000 125001 \<noteq> None"
    by code_simp
  then obtain ts' effects where s: "interval_step sample_points (ValBitString 5 [0x80]) ?ts 125000 125001 = Some (ts', effects)"
    by auto
  have "isIntervalTimeoutEnabled (ValBitString 5 [0x80]) = Some True" by code_simp
  moreover have "ts_info ?ts = Some sample_info" by (simp add: sample_set_def)
  moreover have "ai_period sample_info = Some 60000" "ai_nextSendTime sample_info = Some 1000"
    by (simp_all add: sample_info_def)
  ultimately show ?thesis
    using interval_schedule [OF _ _ _ _ _ _ s, of sample_info 60000 1000] s by auto
qed

theorem event_queue_bounded_witness:
  "\<exists>ts'. for_each [(sample_points, 0, 0), (sample_points, 1, 1), (sample_points, 0, 0)]
       (\<lambda>(pts, p, i) ts. storeDataPointEventForTransferSet (int 2) pts ts p i)
       (sample_set (sample_attributes 0x20 True True True True) sample_info) = Some ts' \<and> length (queue_of ts') \<le> 2"
proof -
  let ?ts = "sample_set (sample_attributes 0x20 True True True True) sample_info"
  let ?c = "[(sample_points, 0, 0), (sample_points, 1, 1), (sample_points, 0, 0)] :: (points \<times> point \<times> nat) list"
  have "for_each ?c (\<lambda>(pts, p, i) ts. storeDataPointEventForTransferSet (int 2) pts ts p i) ?ts \<noteq> None"
    by code_simp
  then obtain ts' where s: "for_each ?c (\<lambda>(pts, p, i) ts. storeDataPointEventForTransferSet (int 2) pts ts p i) ?ts = Some ts'"
    by auto
  have "isAllChangesReportedEnabled ?ts = Some True" by code_simp
  moreover have "queue_of ?ts = []" "queue_counted ?ts"
    by (simp_all add: queue_counted_def queue_of_def sample_set_def sample_info_def)
  ultimately show ?thesis using event_queue_bounded [OF s] s by auto
qed

theorem lowered_limit_unbounded_witness:
  "\<exists>ts'. for_each [(sample_points, 0, 0), (sample_points, 1, 1)] (\<lambda>(pts, p, i) ts. storeDataPointEventForTransferSet
       (sv_maxDSTSEventQueueSize (Tase2_Server_setMaxDSTSEventQueueSize (sample_server undefined) (int 1))) pts ts p i)
       (sample_set (sample_attributes 0x20 True True True True)
          (sample_info\<lparr>ai_bufferedEvents := Some [\<lparr>ev_dataPoint = 0, ev_value = ValBoolean True\<rparr>,
             \<lparr>ev_dataPoint = 1, ev_value = ValBoolean True\<rparr>], ai_eventQueueSize := 2\<rparr>)) = Some ts' \<and>
     length (queue_of ts') = 4"
proof -
  let ?ts = "sample_set (sample_attributes 0x20 True True True True)
          (sample_info\<lparr>ai_bufferedEvents := Some [\<lparr>ev_dataPoint = 0, ev_value = ValBoolean True\<rparr>,
             \<lparr>ev_dataPoint = 1, ev_value = ValBoolean True\<rparr>], ai_eventQueueSize := 2\<rparr>)"
  let ?c = "[(sample_points, 0, 0), (sample_points, 1, 1)] :: (points \<times> point \<times> nat) list"
  let ?m = "sv_maxDSTSEventQueueSize (Tase2_Server_setMaxDSTSEventQueueSize (sample_server undefined) (int 1))"
  have m: "?m = 1" by (simp add: Tase2_Server_setMaxDSTSEventQueueSize_def)
  have "for_each ?c (\<lambda>(pts, p, i) ts. storeDataPointEventForTransferSet 1 pts ts p i) ?ts \<noteq> None"
    by code_simp
  then obtain ts' where s: "for_each ?c (\<lambda>(pts, p, i) ts. storeDataPointEventForTransferSet ?m pts ts p i) ?ts = Some ts'"
    unfolding m by auto
  have "isAllChangesReportedEnabled ?ts = Some True" by code_simp
  moreover have "length (queue_of ?ts) = 2" "queue_counted ?ts"
    by (simp_all add: queue_counted_def queue_of_def sample_set_def)
  ultimately show ?thesis using lowered_limit_unbounded [OF s] s by auto
qed


theorem critical_supervision_witness:
  "\<exists>srv' effects rest. handleTransferSet (sample_server (sample_set (sample_attributes 0x20 True True False True) sample_info))
       0 131000 (\<lambda>_. 131001) = Some (srv', effects) \<and>
     effects = [CriticalNotConfirmed 0 1000 False] \<and> sv_unconfirmedCriticalReportCounter srv' = 1"
proof -
  let ?ts = "sample_set (sample_attributes 0x20 True True False True) sample_info"
  let ?srv = "sample_server ?ts"
  have "handleTransferSet ?srv 0 131000 (\<lambda>_. 131001) \<noteq> None \<and>
      map_option snd (handleTransferSet ?srv 0 131000 (\<lambda>_. 131001)) = Some [CriticalNotConfirmed 0 1000 False]"
    by code_simp
  then obtain srv' where s: "handleTransferSet ?srv 0 131000 (\<lambda>_. 131001) = Some (srv', [CriticalNotConfirmed 0 1000 False])"
    by auto
  have e: "tase2_DSTransferSet_isEnabled ?ts = Some True" by code_simp
  have late: "(131000 :: u64) - 1000 > scast (5000 :: u32)" by code_simp
  from critical_supervision [OF s, of sample_info] e late s show ?thesis
    by (auto simp: sample_server_def sample_set_def sample_info_def)
qed

theorem interval_changes_never_cleared_witness:
  "\<exists>srv' effects. handleTransferSet (sample_server (sample_set (sample_attributes 0x80 True True False True) sample_info))
       0 131000 (\<lambda>_. 131001) = Some (srv', effects) \<and>
     buffer_of (sv_sets srv' 0) = Some (ValBitString 2 [0x40])"
proof -
  let ?ts = "sample_set (sample_attributes 0x80 True True False True) sample_info"
  let ?srv = "sample_server ?ts"
  have "handleTransferSet ?srv 0 131000 (\<lambda>_. 131001) \<noteq> None" by code_simp
  then obtain srv' effects where s: "handleTransferSet ?srv 0 131000 (\<lambda>_. 131001) = Some (srv', effects)" by auto
  have "ts_element_value (sv_sets ?srv 0) 6 = Some (ValBitString 5 [0x80])"
    "isObjectChangedEnabled (ValBitString 5 [0x80]) = Some False"
    "buffer_of (sv_sets ?srv 0) = Some (ValBitString 2 [0x40])" by code_simp+
  with interval_changes_never_cleared [OF s] s show ?thesis by auto
qed

end
