(* ===== verification/TransferSetServer_Laws.thy ===== *)
theory TransferSetServer_Laws
  imports TransferSet_Laws
begin

text \<open>
  Writing, enabling and reserving transfer sets: what every write does to a set of the declared
  type, the writes that cannot be handled, the rights a table gives, and the list of active sets.
\<close>

section \<open>Sets of the declared type\<close>

definition set_typed :: "DSTransferSet \<Rightarrow> bool" where
  "set_typed ts \<longleftrightarrow> mms_ok (ts_mmsValue ts) \<and> conforms (createDSTransferSet (ts_edition ts)) (ts_mmsValue ts)"

lemma conforms_element:
  assumes "conforms (SpecStructure ts) v" "mms_ok v" "i < length ts"
  obtains w where "MmsValue_getElement v (int i) = Some w" "conforms (ts ! i) w" "mms_ok w"
proof -
  obtain cs where v: "v = ValStructure cs" using assms(1) by (cases v) simp_all
  then have n: "length ts = length cs" "case cs ! i of Some v \<Rightarrow> conforms (ts ! i) v | None \<Rightarrow> False"
    using assms by (auto simp: conform_all_nth)
  then obtain w where w: "cs ! i = Some w" "conforms (ts ! i) w" by (auto split: option.splits)
  have "Some w \<in> set cs" using w(1) n(1) assms(3) by (metis nth_mem)
  then have "mms_ok w" using assms(2) v by auto
  then show thesis using that [of w] w n assms(3) by (simp add: v MmsValue_getElement_def)
qed

lemma conforms_leaf:
  "conforms SpecBoolean w \<longleftrightarrow> (\<exists>b. w = ValBoolean b)"
  "conforms (SpecInteger n) w \<longleftrightarrow> (\<exists>v. w = ValInteger v)"
  "conforms (SpecUnsigned n) w \<longleftrightarrow> (\<exists>v. w = ValUnsigned v)"
  "conforms (SpecBitString n) w \<longleftrightarrow> (\<exists>sz buf. w = ValBitString sz buf)"
  "conforms (SpecVisibleString n) w \<longleftrightarrow> (\<exists>sz s. w = ValVisibleString sz s)"
  by (cases w; simp)+

lemma type_leaf:
  "MmsValue_getType w = MMS_BOOLEAN \<longleftrightarrow> (\<exists>b. w = ValBoolean b)"
  "MmsValue_getType w = MMS_INTEGER \<longleftrightarrow> (\<exists>v. w = ValInteger v)"
  "MmsValue_getType w = MMS_UNSIGNED \<longleftrightarrow> (\<exists>v. w = ValUnsigned v)"
  "MmsValue_getType w = MMS_BIT_STRING \<longleftrightarrow> (\<exists>sz buf. w = ValBitString sz buf)"
  "MmsValue_getType w = MMS_VISIBLE_STRING \<longleftrightarrow> (\<exists>sz s. w = ValVisibleString sz s)"
  by (cases w; simp)+

text \<open>The declared type of element \<open>i\<close>, by the edition.\<close>

definition element_specs :: "Tase2_Edition \<Rightarrow> MmsVariableSpecification list" where
  "element_specs edition = [createMmsObjectName, SpecInteger 32, SpecInteger 32, SpecInteger 32,
     SpecInteger 32, SpecInteger 32, SpecBitString 5, SpecBoolean, SpecBoolean, SpecBoolean] @
     (if edition \<noteq> TASE2_EDITION_1996_08 then [SpecBoolean] else []) @ [SpecBoolean, SpecInteger 16]"

lemma createDSTransferSet_specs: "createDSTransferSet e = SpecStructure (element_specs e)"
  by (simp add: createDSTransferSet_def element_specs_def)

lemma set_typed_element:
  assumes "set_typed ts" "i < length (element_specs (ts_edition ts))"
  obtains w where "ts_element_value ts (int i) = Some w" "conforms (element_specs (ts_edition ts) ! i) w" "mms_ok w"
  using assms conforms_element [of "element_specs (ts_edition ts)" "ts_mmsValue ts" i]
  unfolding set_typed_def createDSTransferSet_specs ts_element_value_def by blast

lemma element_specs_nth:
  "element_specs e ! 0 = createMmsObjectName" "element_specs e ! 6 = SpecBitString 5"
  "element_specs e ! 7 = SpecBoolean" "element_specs e ! 8 = SpecBoolean" "element_specs e ! 9 = SpecBoolean"
  "element_specs e ! 1 = SpecInteger 32" "element_specs e ! 2 = SpecInteger 32"
  "element_specs e ! 4 = SpecInteger 32" "element_specs e ! 5 = SpecInteger 32"
  "element_specs TASE2_EDITION_2000_08 ! 10 = SpecBoolean" "element_specs TASE2_EDITION_2000_08 ! 11 = SpecBoolean"
  "element_specs TASE2_EDITION_2000_08 ! 12 = SpecInteger 16"
  "element_specs TASE2_EDITION_1996_08 ! 10 = SpecBoolean" "element_specs TASE2_EDITION_1996_08 ! 11 = SpecInteger 16"
  "length (element_specs TASE2_EDITION_2000_08) = 13" "length (element_specs TASE2_EDITION_1996_08) = 12"
  "10 < length (element_specs e)"
  by (auto simp: element_specs_def nth_append nth_Cons split: nat.splits)

lemma boolean_element:
  assumes "set_typed ts" "i < length (element_specs (ts_edition ts))" "element_specs (ts_edition ts) ! i = SpecBoolean"
  obtains b where "ts_element_value ts (int i) = Some (ValBoolean b)"
proof (rule set_typed_element [OF assms(1,2)])
  fix w
  assume w: "ts_element_value ts (int i) = Some w" "conforms (element_specs (ts_edition ts) ! i) w"
  then obtain b where "w = ValBoolean b" unfolding assms(3) conforms_leaf by blast
  with w that show thesis by blast
qed

definition status_position :: "Tase2_Edition \<Rightarrow> nat" where
  "status_position e = (if e = TASE2_EDITION_1996_08 then 10 else 11)"

lemma status_position:
  "status_position e < length (element_specs e)" "element_specs e ! status_position e = SpecBoolean"
  "status_index e = int (status_position e)"
  by (cases e; simp add: status_position_def element_specs_nth status_index_def)+

lemma isEnabled_element:
  "tase2_DSTransferSet_isEnabled ts = ts_element_value ts (int (status_position (ts_edition ts))) \<bind> MmsValue_getBoolean"
  by (simp add: tase2_DSTransferSet_isEnabled_def status_position_def)

lemma isEnabled_typed:
  assumes "set_typed ts"
  obtains b where "tase2_DSTransferSet_isEnabled ts = Some b"
    "ts_element_value ts (int (status_position (ts_edition ts))) = Some (ValBoolean b)"
proof (rule boolean_element [OF assms status_position(1,2)])
  fix b
  assume "ts_element_value ts (int (status_position (ts_edition ts))) = Some (ValBoolean b)"
  then show thesis using that [of b] by (simp add: isEnabled_element)
qed

lemma isRBE_typed:
  assumes "set_typed ts"
  obtains b where "isRBEEnabled ts = Some b"
proof (rule boolean_element [OF assms _ element_specs_nth(5)])
  show "9 < length (element_specs (ts_edition ts))" by (rule less_trans [OF _ element_specs_nth(17)]) simp
  fix b
  assume "ts_element_value ts (int 9) = Some (ValBoolean b)"
  then show thesis using that [of b] by (simp add: isRBEEnabled_def)
qed

section \<open>Writes that cannot be handled\<close>

lemma attribute_index_event:
  "attribute_index e (cstring ''EventCodeRequested'') = (if e \<noteq> TASE2_EDITION_1996_08 then Some (Some 11) else Some (Some 12))"
  by (simp add: attribute_index_def cstring_def)

lemma event_name_neq:
  "cstring ''EventCodeRequested'' \<noteq> cstring ''Status''" "cstring ''EventCodeRequested'' \<noteq> cstring ''DataSetName''"
  "cstring ''DataSetName'' \<noteq> cstring ''Status''"
  by (simp_all add: cstring_def)

lemma equalTypes_conforms_1996:
  assumes "MmsValue_equalTypes v w = Some True" "conforms (createDSTransferSet TASE2_EDITION_1996_08) v"
  shows "MmsValue_getElement w 11 \<bind> MmsValue_getBoolean = None"
proof -
  obtain cs where w: "w = ValStructure cs" "conform_all (element_specs TASE2_EDITION_1996_08) cs"
    using conforms_equalTypes [OF assms(2,1)] by (cases w) (auto simp: createDSTransferSet_specs)
  have n: "length cs = 12" using w(2) by (simp add: conform_all_nth element_specs_nth)
  have "\<forall>i < length cs. case cs ! i of Some v \<Rightarrow> conforms (element_specs TASE2_EDITION_1996_08 ! i) v | None \<Rightarrow> False"
    using w(2) unfolding conform_all_nth by blast
  then have "case cs ! 11 of Some v \<Rightarrow> conforms (element_specs TASE2_EDITION_1996_08 ! 11) v | None \<Rightarrow> False"
    by (rule allE [of _ 11]) (simp add: n)
  then have "case cs ! 11 of Some v \<Rightarrow> conforms (SpecInteger 16) v | None \<Rightarrow> False"
    unfolding element_specs_nth(14) .
  then obtain u where "cs ! 11 = Some (ValInteger u)" by (auto simp: type_leaf split: option.splits)
  then show ?thesis using w(1) n by (simp add: MmsValue_getElement_def)
qed

lemma put_set_same: "put_set srv t (sv_sets srv t) = srv"
  by (cases srv) (simp add: put_set_def)

lemma same_value: "ts_mmsValue ts = v \<Longrightarrow> ts\<lparr>ts_mmsValue := v\<rparr> = ts"
  by (cases ts) simp

text \<open>
  Writes by which a client makes the server use a null pointer or read a value under a wrong
  type, on any disabled set: a data set name that is a structure without components; in the 1996
  edition any value for the event code, and any whole structure of the declared type.
\<close>

theorem crashing_writes:
  assumes "set_typed (sv_sets srv t)" "tase2_DSTransferSet_isEnabled (sv_sets srv t) = Some False"
  shows "tase2_Server_handleDSTransferSetWrite srv d t (Some (cstring ''DataSetName'')) (ValStructure []) c blt now = None \<and>
    (ts_edition (sv_sets srv t) = TASE2_EDITION_1996_08 \<longrightarrow>
      (\<forall>v. tase2_Server_handleDSTransferSetWrite srv d t (Some (cstring ''EventCodeRequested'')) v c blt now = None) \<and>
      (\<forall>v. MmsValue_equalTypes (ts_mmsValue (sv_sets srv t)) v = Some True \<longrightarrow>
         tase2_Server_handleDSTransferSetWrite srv d t None v c blt now = None))"
proof (intro conjI impI allI)
  show "tase2_Server_handleDSTransferSetWrite srv d t (Some (cstring ''DataSetName'')) (ValStructure []) c blt now = None"
    using assms(2) by (simp add: tase2_Server_handleDSTransferSetWrite_def event_name_neq write_attribute_def
        checkIfDataSetExists_def MmsValue_getElement_def)
next
  fix v
  assume e: "ts_edition (sv_sets srv t) = TASE2_EDITION_1996_08"
  obtain cs where "ts_mmsValue (sv_sets srv t) = ValStructure cs" "length cs = 12"
    using assms(1) e by (cases "ts_mmsValue (sv_sets srv t)")
      (auto simp: set_typed_def createDSTransferSet_specs conform_all_nth element_specs_nth)
  then have "update_attribute srv t 12 v = None"
    by (simp add: update_attribute_def change_element_def MmsValue_getElement_def)
  then show "tase2_Server_handleDSTransferSetWrite srv d t (Some (cstring ''EventCodeRequested'')) v c blt now = None"
    using assms(2) e by (simp add: tase2_Server_handleDSTransferSetWrite_def event_name_neq write_attribute_def
        attribute_index_event)
next
  fix v
  assume e: "ts_edition (sv_sets srv t) = TASE2_EDITION_1996_08"
    and v: "MmsValue_equalTypes (ts_mmsValue (sv_sets srv t)) v = Some True"
  show "tase2_Server_handleDSTransferSetWrite srv d t None v c blt now = None"
    using equalTypes_conforms_1996 [OF v] assms(1) e v
    by (simp add: tase2_Server_handleDSTransferSetWrite_def write_structure_def set_typed_def)
qed

text \<open>
  Writes that are acknowledged and have no effect: a whole structure with \<open>Status\<close> false on a
  disabled set of the 2000 edition, whatever the other attributes are, and the event code of such
  a set, which is written over the \<open>Status\<close> element of another type.
\<close>

theorem acknowledged_but_lost:
  assumes "ts_edition (sv_sets srv t) = TASE2_EDITION_2000_08" "set_typed (sv_sets srv t)"
    "tase2_DSTransferSet_isEnabled (sv_sets srv t) = Some False"
    "MmsValue_equalTypes (ts_mmsValue (sv_sets srv t)) v = Some True"
    "MmsValue_getElement v 11 = Some (ValBoolean False)"
  shows "tase2_Server_handleDSTransferSetWrite srv d t None v c blt now =
      Some (srv, [], DATA_ACCESS_ERROR_SUCCESS) \<and>
    tase2_Server_handleDSTransferSetWrite srv d t (Some (cstring ''EventCodeRequested'')) (ValInteger n) c blt now =
      Some (srv, [], DATA_ACCESS_ERROR_SUCCESS)"
proof
  show "tase2_Server_handleDSTransferSetWrite srv d t None v c blt now = Some (srv, [], DATA_ACCESS_ERROR_SUCCESS)"
    using assms by (simp add: tase2_Server_handleDSTransferSetWrite_def write_structure_def)
next
  let ?ts = "sv_sets srv t"
  obtain cs where cs: "ts_mmsValue ?ts = ValStructure cs" "length cs = 13"
    using assms(1,2) by (cases "ts_mmsValue ?ts")
      (auto simp: set_typed_def createDSTransferSet_specs conform_all_nth element_specs_nth)
  obtain b where "ts_element_value ?ts (int (status_position (ts_edition ?ts))) = Some (ValBoolean b)"
    by (rule isEnabled_typed [OF assms(2)])
  then have b: "ts_element_value ?ts 11 = Some (ValBoolean b)" using assms(1) by (simp add: status_position_def)
  then have c11: "cs ! 11 = Some (ValBoolean b)" using cs by (simp add: ts_element_value_def MmsValue_getElement_def)
  have "cs[11 := Some (ValBoolean b)] = cs" using c11 by (metis list_update_id)
  then have "update_attribute srv t 11 (ValInteger n) = Some srv"
    using b cs by (simp add: update_attribute_def change_element_def ts_element_value_def
        MmsValue_update.simps put_set_same same_value [OF cs(1)])
  then show "tase2_Server_handleDSTransferSetWrite srv d t (Some (cstring ''EventCodeRequested'')) (ValInteger n) c blt now =
      Some (srv, [], DATA_ACCESS_ERROR_SUCCESS)"
    using assms(1,3) by (simp add: tase2_Server_handleDSTransferSetWrite_def event_name_neq write_attribute_def
        attribute_index_event)
qed

section \<open>Reserving and releasing\<close>

lemma change_element_elements:
  assumes "change_element (Some v) i f = Some v'"
  obtains e e' where "MmsValue_getElement v i = Some e" "f e = Some e'" "MmsValue_getElement v' i = Some e'"
    "\<And>j. j \<noteq> i \<Longrightarrow> MmsValue_getElement v' j = MmsValue_getElement v j"
    "v' = MmsValue_setElement v i (Some e')"
proof -
  obtain e e' where e: "MmsValue_getElement v i = Some e" "f e = Some e'" "v' = MmsValue_setElement v i (Some e')"
    using assms by (auto simp: change_element_def split: Option.bind_splits)
  obtain cs where cs: "components v = Some cs" "0 \<le> i" "i < int (length cs)"
    using e(1) by (auto simp: MmsValue_getElement_def split: option.splits if_splits)
  have "components v' = Some (cs[nat i := Some e'])" using cs e(3) by (cases v) auto
  then have g: "MmsValue_getElement v' j = (if j = i then Some e' else MmsValue_getElement v j)" for j
    using cs by (auto simp: MmsValue_getElement_def nth_list_update)
  show thesis by (rule that [OF e(1,2) _ _ e(3)]) (simp_all add: g)
qed

text \<open>What deactivating a set changes.\<close>

lemma deactivate_frame:
  assumes "tase2_Server_deactivateDSTransferSet srv t = Some (srv', effects)"
  obtains pts v where "srv' = put_set (srv\<lparr>sv_points := pts\<rparr>) t ((sv_sets srv t)\<lparr>ts_mmsValue := v, ts_info := None\<rparr>)"
    "tase2_DSTransferSet_isEnabled (sv_sets srv' t) = Some False" "\<forall>e \<in> set effects. e = StateChanged t False"
proof (cases "tase2_DSTransferSet_isEnabled (sv_sets srv t) = Some True")
  case True
  then obtain pts v where d: "change_element (Some (ts_mmsValue (sv_sets srv t))) (status_index (ts_edition (sv_sets srv t)))
      (\<lambda>e. MmsValue_setBoolean e False) = Some v"
    "srv' = put_set (srv\<lparr>sv_points := pts\<rparr>) t ((sv_sets srv t)\<lparr>ts_mmsValue := v, ts_info := None\<rparr>)"
    "effects = [StateChanged t False]"
    using assms
    by (auto simp: tase2_Server_deactivateDSTransferSet_def tase2_DSTransferSet_destroyContextInfo_def Let_def
        split: Option.bind_splits option.splits)
  obtain e e' where "MmsValue_setBoolean e False = Some e'" "MmsValue_getElement v (status_index (ts_edition (sv_sets srv t))) = Some e'"
    using d(1) by (rule change_element_elements)
  then have "ts_element_value (sv_sets srv' t) (int (status_position (ts_edition (sv_sets srv t)))) \<bind> MmsValue_getBoolean = Some False"
    using d(2) by (cases e) (auto simp: ts_element_value_def put_set_def status_position)
  then show thesis using that [OF d(2)] d by (simp add: isEnabled_element put_set_def)
next
  case False
  then have n: "tase2_DSTransferSet_isEnabled (sv_sets srv t) = Some False"
    "srv' = put_set srv t ((sv_sets srv t)\<lparr>ts_info := None\<rparr>)" "effects = []"
    using assms by (auto simp: tase2_Server_deactivateDSTransferSet_def tase2_DSTransferSet_destroyContextInfo_def
        Let_def split: Option.bind_splits if_splits)
  have "srv\<lparr>sv_points := sv_points srv\<rparr> = srv" by (cases srv) simp
  moreover have "(sv_sets srv t)\<lparr>ts_mmsValue := ts_mmsValue (sv_sets srv t)\<rparr> = sv_sets srv t" by (simp add: same_value)
  ultimately have f: "srv' = put_set (srv\<lparr>sv_points := sv_points srv\<rparr>) t
      ((sv_sets srv t)\<lparr>ts_mmsValue := ts_mmsValue (sv_sets srv t), ts_info := None\<rparr>)"
    using n(2) by metis
  have "tase2_DSTransferSet_isEnabled (sv_sets srv' t) = Some False"
    using n(1) unfolding n(2) by (simp add: put_set_def isEnabled_element ts_element_value_def)
  from that [OF f this] show thesis by (simp add: n(3))
qed

definition released :: "DSTransferSet \<Rightarrow> bool" where
  "released ts \<longleftrightarrow> ts_info ts = None \<and> tase2_DSTransferSet_isEnabled ts = Some False"

lemma release_sets_frame:
  assumes "release_sets sets c srv = Some (srv', kept, effects)"
  shows "kept = filter (\<lambda>t. ts_connection (sv_sets srv t) \<noteq> Some c) sets \<and>
    sv_activeTransferSets srv' = sv_activeTransferSets srv \<and>
    (\<forall>t. ts_connection (sv_sets srv' t) = ts_connection (sv_sets srv t) \<and>
      (if t \<in> set sets \<and> ts_connection (sv_sets srv t) = Some c then released (sv_sets srv' t)
       else sv_sets srv' t = sv_sets srv t))"
  using assms
proof (induction sets c srv arbitrary: srv' kept effects rule: release_sets.induct)
  case (2 t sets c srv)
  show ?case
  proof (cases "ts_connection (sv_sets srv t) = Some c")
    case True
    then obtain srv1 e1 e2 where r: "tase2_Server_deactivateDSTransferSet srv t = Some (srv1, e1)"
      "release_sets sets c srv1 = Some (srv', kept, e2)"
      using "2.prems" by (auto split: Option.bind_splits)
    obtain pts v where s1: "srv1 = put_set (srv\<lparr>sv_points := pts\<rparr>) t ((sv_sets srv t)\<lparr>ts_mmsValue := v, ts_info := None\<rparr>)"
      "tase2_DSTransferSet_isEnabled (sv_sets srv1 t) = Some False"
      by (rule deactivate_frame [OF r(1)])
    have "released (sv_sets srv1 t)" using s1 by (simp add: released_def put_set_def)
    moreover have "ts_connection (sv_sets srv1 u) = ts_connection (sv_sets srv u)"
      "u \<noteq> t \<Longrightarrow> sv_sets srv1 u = sv_sets srv u" for u
      using s1(1) by (simp_all add: put_set_def)
    moreover have "sv_activeTransferSets srv1 = sv_activeTransferSets srv" using s1(1) by (simp add: put_set_def)
    moreover have "sv_sets srv1 u = sv_sets srv u" if "ts_connection (sv_sets srv u) \<noteq> Some c" for u
      using s1(1) that True by (auto simp: put_set_def)
    ultimately show ?thesis using "2.IH"(1) [OF True r(1) refl r(2)] True by (auto split: if_splits)
  next
    case False
    then obtain kept' where "release_sets sets c srv = Some (srv', kept', effects)" "kept = t # kept'"
      using "2.prems" by (auto split: Option.bind_splits)
    from "2.IH"(2) [OF False this(1)] this(2) False show ?thesis by auto
  qed
qed simp

lemma next_set_cases:
  "case next_set srv sets c of
     (srv', None) \<Rightarrow> srv' = srv \<and> set sets \<subseteq> set (sv_activeTransferSets srv)
   | (srv', Some t) \<Rightarrow> (\<exists>pre suf. sets = pre @ t # suf \<and> set pre \<subseteq> set (sv_activeTransferSets srv)) \<and>
       t \<notin> set (sv_activeTransferSets srv) \<and>
       sv_activeTransferSets srv' = sv_activeTransferSets srv @ [t] \<and>
       sv_sets srv' = (sv_sets srv)(t := (sv_sets srv t)\<lparr>ts_connection := Some c\<rparr>)"
proof (induction sets)
  case (Cons t sets)
  show ?case
  proof (cases "t \<in> set (sv_activeTransferSets srv)")
    case True
    then have n: "next_set srv (t # sets) c = next_set srv sets c"
      by (simp add: tase2_Server_isTransferSetActive_def list_ex_iff)
    obtain srv' r where "next_set srv sets c = (srv', r)" by fastforce
    with Cons.IH n True show ?thesis
      by (auto split: option.splits) (metis append_Cons insert_subset list.simps(15))
  next
    case False
    then show ?thesis
      by (auto simp: tase2_Server_isTransferSetActive_def list_ex_iff put_set_def intro: exI [of _ "[]"])
  qed
qed simp

text \<open>
  C12: A client reserves a transfer set and loses it with its connection. \<open>getNextDSTransferSet\<close>
  answers the first set of the domain that is not active, makes it active once, for the asking
  connection, and changes no other set; it answers none exactly when all are active. When a
  connection is closed, exactly its sets leave the list of active sets, in unchanged order; they
  are disabled and without context information, and the sets of other connections are untouched.
\<close>

theorem reservation_and_release:
  assumes "distinct (sv_activeTransferSets srv)"
  shows "(case tase2_Server_getNextDSTransferSet srv domain c of
      (srv', None) \<Rightarrow> srv' = srv \<and> set (dom_transferSets domain) \<subseteq> set (sv_activeTransferSets srv)
    | (srv', Some t) \<Rightarrow> (\<exists>pre suf. dom_transferSets domain = pre @ t # suf \<and> set pre \<subseteq> set (sv_activeTransferSets srv)) \<and>
        t \<notin> set (sv_activeTransferSets srv) \<and>
        sv_activeTransferSets srv' = sv_activeTransferSets srv @ [t] \<and> distinct (sv_activeTransferSets srv') \<and>
        ts_connection (sv_sets srv' t) = Some c \<and> (\<forall>u. u \<noteq> t \<longrightarrow> sv_sets srv' u = sv_sets srv u)) \<and>
    (\<forall>srv' effects. tase2_Server_deactivateTransferSets srv c = Some (srv', effects) \<longrightarrow>
      sv_activeTransferSets srv' = filter (\<lambda>t. ts_connection (sv_sets srv t) \<noteq> Some c) (sv_activeTransferSets srv) \<and>
      (\<forall>t. if t \<in> set (sv_activeTransferSets srv) \<and> ts_connection (sv_sets srv t) = Some c
           then released (sv_sets srv' t) else sv_sets srv' t = sv_sets srv t))"
proof (intro conjI allI impI)
  show "case tase2_Server_getNextDSTransferSet srv domain c of
      (srv', None) \<Rightarrow> srv' = srv \<and> set (dom_transferSets domain) \<subseteq> set (sv_activeTransferSets srv)
    | (srv', Some t) \<Rightarrow> (\<exists>pre suf. dom_transferSets domain = pre @ t # suf \<and> set pre \<subseteq> set (sv_activeTransferSets srv)) \<and>
        t \<notin> set (sv_activeTransferSets srv) \<and>
        sv_activeTransferSets srv' = sv_activeTransferSets srv @ [t] \<and> distinct (sv_activeTransferSets srv') \<and>
        ts_connection (sv_sets srv' t) = Some c \<and> (\<forall>u. u \<noteq> t \<longrightarrow> sv_sets srv' u = sv_sets srv u)"
    using next_set_cases [of srv "dom_transferSets domain" c] assms
    by (auto simp: tase2_Server_getNextDSTransferSet_def split: option.splits)
next
  fix srv' effects
  assume "tase2_Server_deactivateTransferSets srv c = Some (srv', effects)"
  then obtain srv1 kept where r: "release_sets (sv_activeTransferSets srv) c srv = Some (srv1, kept, effects)"
    "srv' = srv1\<lparr>sv_activeTransferSets := kept\<rparr>"
    by (auto simp: tase2_Server_deactivateTransferSets_def split: Option.bind_splits)
  from release_sets_frame [OF r(1)] r(2)
  show "sv_activeTransferSets srv' = filter (\<lambda>t. ts_connection (sv_sets srv t) \<noteq> Some c) (sv_activeTransferSets srv)"
    "\<And>t. if t \<in> set (sv_activeTransferSets srv) \<and> ts_connection (sv_sets srv t) = Some c
           then released (sv_sets srv' t) else sv_sets srv' t = sv_sets srv t"
    by auto
qed

section \<open>A concrete server\<close>

text \<open>Domain \<open>I\<close> with the data point \<open>p\<close> and the control point \<open>c\<close>, and one transfer set \<open>ts\<close>.\<close>

definition demo_domain :: Tase2_Domain where
  "demo_domain = the (do {
     d \<leftarrow> appendPointToPointList (Tase2_Domain_create (Some [73])) 0 [112];
     d \<leftarrow> appendPointToPointList d 1 [99];
     Some (appendTransferSet d 0) })"

definition demo_points :: points where
  "demo_points p = \<lparr>dp_isControl = (p = 1), dp_pointName = [if p = 1 then 99 else 112], dp_domainName = Some [73],
     dp_pointValue = Some (ValBoolean True), dp_tagValue = None, dp_activeTransferSets = None\<rparr>"

definition entry :: "cstr \<Rightarrow> MmsNamedVariableListEntry" where
  "entry name = \<lparr>nve_domain = Some [73], nve_variableName = name, nve_nameAddress = 1000, nve_arrayIndex = - 1,
     nve_componentName = None\<rparr>"

definition demo_server :: "cstr list \<Rightarrow> TransferServer" where
  "demo_server names = \<lparr>sv_dataModel = Tase2_DataModel_create\<lparr>dm_domains := [demo_domain]\<rparr>,
     sv_device = \<lparr>mdev_domains = [\<lparr>mdom_domainName = [73], mdom_namedVariableLists =
       [\<lparr>nvl_deletable = True, nvl_name = [100, 115], nvl_listOfVariables = map entry names\<rparr>]\<rparr>],
       mdev_namedVariableLists = []\<rparr>,
     sv_domainName = (\<lambda>_. [73]), sv_sets = (\<lambda>_. the (addTransferSet [116, 115] [73] TASE2_EDITION_2000_08)),
     sv_points = demo_points, sv_activeTransferSets = [], sv_maxDSTSEventQueueSize = - 1,
     sv_criticalReportTimeout = 5000, sv_unconfirmedCriticalReportCounter = 0, sv_nextValue = 10\<rparr>"

text \<open>A structure a client writes: data set \<open>I/ds\<close>, an interval of 1 s, and the given conditions.\<close>

definition demo_write :: "MmsValue \<Rightarrow> bool \<Rightarrow> MmsValue" where
  "demo_write conditions rbe = ValStructure
     [Some (ValStructure [MmsValue_newUnsignedFromUint32 1, Some (ValVisibleString 32 (Some [73])),
        Some (ValVisibleString 32 (Some [100, 115]))]),
      MmsValue_newIntegerFromInt32 0, MmsValue_newIntegerFromInt32 1, MmsValue_newIntegerFromInt32 0,
      MmsValue_newIntegerFromInt32 0, MmsValue_newIntegerFromInt32 0, Some conditions,
      Some (ValBoolean False), Some (ValBoolean False), Some (ValBoolean rbe), Some (ValBoolean False),
      Some (ValBoolean True), Some (MmsValue_newInteger 16)]"

definition enable_and_check ::
    "cstr list \<Rightarrow> MmsValue \<Rightarrow> bool \<Rightarrow> point option \<Rightarrow> (MmsDataAccessError \<times> ts_effect list option) option" where
  "enable_and_check names conditions rbe changed = do {
     (srv, _, _) \<leftarrow> tase2_Server_handleDSTransferSetWrite (demo_server names) (Some [73]) 0
        (Some (cstring ''DSConditionsRequested'')) (ValBitString 5 [0x80]) 7 None 5000;
     (srv, _, result) \<leftarrow> tase2_Server_handleDSTransferSetWrite srv (Some [73]) 0 None (demo_write conditions rbe) 7 None 5000;
     (srv, _) \<leftarrow> (case changed of Some p \<Rightarrow> tase2_Server_triggerTransferSets srv p (\<lambda>_. 6000) | None \<Rightarrow> Some (srv, []));
     Some (result, map_option snd (tase2_Server_checkTransferSets srv (\<lambda>_. 9000) (\<lambda>_ _. 9000))) }"

text \<open>
  Configurations a client can write and have acknowledged that the next check cannot survive.
  With data set \<open>p\<close> the set works: it reports the change of \<open>p\<close>. But a conditions attribute
  without bits enables the set with the stored interval condition and an indeterminate period;
  a control point in the data set, which is skipped, shifts the bit of the changed point to
  a special object, which is then used as a data point; and so is the first of two equal special
  objects.
\<close>

theorem accepted_configurations:
  "enable_and_check [[112]] (ValBitString 5 [0x80]) True (Some 0) = Some (DATA_ACCESS_ERROR_SUCCESS,
     Some [ReportVariables 7 [(Some [73], [112])] [Some (ValBoolean True)] TASE2_REPORT_REASON_INTERVAL_TIMEOUT]) \<and>
   enable_and_check [[112]] (ValBitString 0 []) True None = Some (DATA_ACCESS_ERROR_SUCCESS, None) \<and>
   enable_and_check [[99], [112], cstring ''Transfer_Set_Name''] (ValBitString 5 [0x80]) True (Some 0) =
     Some (DATA_ACCESS_ERROR_SUCCESS, None) \<and>
   enable_and_check [[112], cstring ''Transfer_Set_Name'', cstring ''Transfer_Set_Name''] (ValBitString 5 [0x80]) False None =
     Some (DATA_ACCESS_ERROR_SUCCESS, None)"
  by (intro conjI) code_simp+

section \<open>Rights\<close>

text \<open>What the grants \<open>ops\<close> of a table for domain \<open>d\<close> let a client put into a data set.\<close>

definition entry_allowed :: "TransferServer \<Rightarrow> nat \<Rightarrow> blt_op list \<Rightarrow> MmsNamedVariableListEntry \<Rightarrow> bool" where
  "entry_allowed srv d ops e \<longleftrightarrow> nve_arrayIndex e = - 1 \<and> nve_componentName e = None \<and>
     (case nve_domain e of
        Some domainName \<Rightarrow> domainName = sv_domainName srv d
      | None \<Rightarrow>
          nve_variableName e \<in> set special_names \<or>
          (\<exists>dp. HashTree_find (dom_dataPointHashTree (dm_vcc (sv_dataModel srv))) (nve_variableName e) = Some dp \<and>
             ((\<exists>wt. AddDataPoint dp True wt \<in> set ops) \<or>
              (\<exists>cbid st gt oper. AddControlPoint dp cbid st gt oper True \<in> set ops))) \<or>
          (\<exists>dp base. HashTree_find (dom_dataPointHashTree (dm_vcc (sv_dataModel srv))) base = Some dp \<and>
             nve_variableName e = base @ cstring ''_TAG'' \<and>
             (\<exists>cbid st gt oper re. AddControlPoint dp cbid st gt oper re \<in> set ops)))"

lemma endsWith_tag:
  "StringUtils_endsWith name (cstring ''_TAG'') \<Longrightarrow> name = take (length name - 4) name @ cstring ''_TAG''"
proof -
  assume "StringUtils_endsWith name (cstring ''_TAG'')"
  moreover have "length (cstring ''_TAG'') = 4" by (simp add: cstring_def)
  ultimately have "drop (length name - 4) name = cstring ''_TAG''"
    by (simp only: StringUtils_endsWith_def split: if_splits)
  then show ?thesis using append_take_drop_id [of "length name - 4" name] by simp
qed

lemma checked_entry:
  assumes "Tase2_BilateralTable_create bltId (Some d) apTitle q ids = Some (blt0, ids')" "distinct_points ops"
    "for_each ops run_op blt0 = Some blt" "checkDataSetEntry srv blt e = Some True"
  shows "entry_allowed srv d ops e"
proof -
  have rights: "BilateralTable_checkDataPointAccess blt None dp BLT_ACCESS_ALLOW_READ \<longleftrightarrow>
      (\<exists>wt. AddDataPoint dp True wt \<in> set ops) \<or> (\<exists>cbid st gt oper. AddControlPoint dp cbid st gt oper True \<in> set ops)" for dp
    using access_rights [OF assms(1,2)] assms(3)
    by (auto simp: rights_mask_flags [symmetric] data_rights_def control_rights_def) metis+
  obtain blt' where "for_each ops run_op blt0 = Some blt'" "blt_domain blt' = Some d"
    "AvlTree_find (blt_controlPoints blt') = map_of (control_entries ops)"
    by (rule configured [OF assms(1,2)])
  then have b: "blt_domain blt = Some d" "AvlTree_find (blt_controlPoints blt) = map_of (control_entries ops)"
    using assms(3) by simp_all
  have control: "\<exists>cbid st gt oper re. AddControlPoint dp cbid st gt oper re \<in> set ops"
    if "map_of (control_entries ops) dp = Some x" for dp x
    using map_of_SomeD [OF that] unfolding set_control_entries by blast
  have tag: "\<exists>dp base. HashTree_find tree base = Some dp \<and> nve_variableName e = base @ cstring ''_TAG'' \<and>
      (\<exists>cbid st gt oper re. AddControlPoint dp cbid st gt oper re \<in> set ops)"
    if "HashTree_find tree (take (length (nve_variableName e) - 4) (nve_variableName e)) = Some dp"
      "StringUtils_endsWith (nve_variableName e) (cstring ''_TAG'')" "map_of (control_entries ops) dp = Some x" for tree dp x
    using that(1) endsWith_tag [OF that(2)] control [OF that(3)] by (intro exI [of _ dp] exI [of _ "take (length (nve_variableName e) - 4) (nve_variableName e)"] conjI)
  show ?thesis
    using assms(4) rights
    by (auto simp: checkDataSetEntry_def entry_allowed_def b Let_def split: if_splits option.splits)
      (rule tag)
qed

lemma checkDataSetACL_all:
  "checkDataSetACL srv blt es = Some True \<Longrightarrow> e \<in> set es \<Longrightarrow> checkDataSetEntry srv blt e = Some True"
  by (induction es) (auto split: Option.bind_splits if_splits)

text \<open>
  C19: A client with a bilateral table can only enable a transfer set whose data set its table
  allows: every entry is a whole variable that lies in the domain of the table, or is a special
  object, a point of the VCC that was granted for reading, or the tag of a VCC point that was
  granted as a control point, with whatever rights.
\<close>

theorem data_set_rights:
  assumes "Tase2_BilateralTable_create bltId (Some d) apTitle q ids = Some (blt0, ids')" "distinct_points ops"
    "for_each ops run_op blt0 = Some blt"
    "enableDSTransferSet srv domainName t c v (Some blt) now = Some (srv', effects, True)"
  shows "\<exists>name variableList. MmsValue_getElement v 0 = Some name \<and>
    checkIfDataSetExists (sv_device srv) name = Some (Some variableList) \<and>
    (\<forall>e \<in> set (nvl_listOfVariables variableList). entry_allowed srv d ops e)"
proof -
  obtain name variableList where n: "MmsValue_getElement v 0 = Some name"
    "checkIfDataSetExists (sv_device srv) name = Some (Some variableList)"
    "checkDataSetACL srv blt (nvl_listOfVariables variableList) = Some True"
    using assms(4)
    by (auto simp: enableDSTransferSet_def Let_def split: Option.bind_splits option.splits if_splits prod.splits)
  then show ?thesis using checked_entry [OF assms(1-3)] checkDataSetACL_all by blast
qed

lemma created_set:
  obtains ts where "addTransferSet name domainName e = Some ts" "set_typed ts"
    "tase2_DSTransferSet_isEnabled ts = Some False" "ts_info ts = None" "ts_edition ts = e" "ts_connection ts = None"
proof -
  have "spec_ok (createDSTransferSet e)"
    by (auto simp: createDSTransferSet_def createMmsObjectName_def)
  then obtain v where v: "MmsValue_newDefaultValue (createDSTransferSet e) = Some v" "mms_ok v"
    "conforms (createDSTransferSet e) v" using default_conforms by blast
  define ts where "ts = \<lparr>ts_name = name, ts_domainName = domainName, ts_mmsValue = v, ts_edition = e,
           ts_connection = None, ts_dataPoints = None, ts_info = None\<rparr>"
  have "v = ValStructure (map MmsValue_newDefaultValue (element_specs e))"
    using v(1) by (simp add: createDSTransferSet_specs)
  then have "ts_element_value ts (int (status_position e)) = Some (MmsValue_newBoolean False)"
    using status_position(1,2) [of e] by (simp add: ts_def ts_element_value_def MmsValue_getElement_def)
  then have "tase2_DSTransferSet_isEnabled ts = Some False"
    by (simp add: isEnabled_element ts_def MmsValue_newBoolean_def)
  then show thesis using that [of ts] v by (simp add: addTransferSet_def set_typed_def ts_def)
qed

theorem crashing_writes_witness:
  "\<exists>ts. addTransferSet [116] [73] TASE2_EDITION_1996_08 = Some ts \<and>
    tase2_Server_handleDSTransferSetWrite (sample_server ts) (Some [73]) 0 (Some (cstring ''DataSetName'')) (ValStructure []) 7 None 5 = None \<and>
    tase2_Server_handleDSTransferSetWrite (sample_server ts) (Some [73]) 0 (Some (cstring ''EventCodeRequested'')) (MmsValue_newInteger 16) 7 None 5 = None"
proof -
  obtain ts where ts: "addTransferSet [116] [73] TASE2_EDITION_1996_08 = Some ts" "set_typed ts"
    "tase2_DSTransferSet_isEnabled ts = Some False" "ts_edition ts = TASE2_EDITION_1996_08"
    by (rule created_set)
  have "sv_sets (sample_server ts) 0 = ts" by (simp add: sample_server_def)
  then show ?thesis using crashing_writes [of "sample_server ts" 0 "Some [73]" 7 None 5] ts by simp
qed

theorem acknowledged_but_lost_witness:
  "\<exists>ts. addTransferSet [116] [73] TASE2_EDITION_2000_08 = Some ts \<and>
    tase2_Server_handleDSTransferSetWrite (sample_server ts) (Some [73]) 0 None (sample_attributes 0x80 True True True False) 7 None 5 =
      Some (sample_server ts, [], DATA_ACCESS_ERROR_SUCCESS) \<and> tase2_DSTransferSet_isEnabled ts = Some False"
proof -
  obtain ts where ts: "addTransferSet [116] [73] TASE2_EDITION_2000_08 = Some ts" "set_typed ts"
    "tase2_DSTransferSet_isEnabled ts = Some False" "ts_edition ts = TASE2_EDITION_2000_08"
    by (rule created_set)
  have "(do { ts \<leftarrow> addTransferSet [116] [73] TASE2_EDITION_2000_08;
      MmsValue_equalTypes (ts_mmsValue ts) (sample_attributes 0x80 True True True False) }) = Some True"
    by code_simp
  then have "MmsValue_equalTypes (ts_mmsValue (sv_sets (sample_server ts) 0)) (sample_attributes 0x80 True True True False) = Some True"
    using ts(1) by (simp add: sample_server_def)
  moreover have "MmsValue_getElement (sample_attributes 0x80 True True True False) 11 = Some (ValBoolean False)"
    by code_simp
  moreover have "sv_sets (sample_server ts) 0 = ts" by (simp add: sample_server_def)
  ultimately show ?thesis using acknowledged_but_lost [of "sample_server ts" 0 _ "Some [73]" 7 None 5 undefined] ts by simp
qed

theorem reservation_and_release_witness:
  "\<exists>srv t srv' effects. tase2_Server_getNextDSTransferSet (demo_server []) demo_domain 7 = (srv, Some t) \<and>
     sv_activeTransferSets srv = [0] \<and>
     tase2_Server_deactivateTransferSets srv 7 = Some (srv', effects) \<and> sv_activeTransferSets srv' = []"
proof -
  obtain srv r where g: "tase2_Server_getNextDSTransferSet (demo_server []) demo_domain 7 = (srv, r)" by fastforce
  have "snd (tase2_Server_getNextDSTransferSet (demo_server []) demo_domain 7) = Some 0" by code_simp
  then have r: "r = Some 0" using g by simp
  have d: "distinct (sv_activeTransferSets (demo_server []))" by (simp add: demo_server_def)
  from reservation_and_release [OF this, of demo_domain 7] g r
  have a: "sv_activeTransferSets srv = [0]" "ts_connection (sv_sets srv 0) = Some 7" by (auto simp: demo_server_def)
  have "tase2_Server_deactivateTransferSets (fst (tase2_Server_getNextDSTransferSet (demo_server []) demo_domain 7)) 7 \<noteq> None"
    by code_simp
  then obtain srv' effects where s: "tase2_Server_deactivateTransferSets srv 7 = Some (srv', effects)"
    using g by auto
  have "distinct (sv_activeTransferSets srv)" using a by simp
  from reservation_and_release [OF this, of demo_domain 7] s a
  have "sv_activeTransferSets srv' = []" by (auto split: prod.splits)
  with g r a s show ?thesis by blast
qed

theorem data_set_rights_witness:
  "\<exists>blt0 ids' blt srv' effects name variableList.
     Tase2_BilateralTable_create [66] (Some 0) [49, 46, 49, 46, 57] 12 (\<lambda>_. None) = Some (blt0, ids') \<and>
     for_each sample_ops run_op blt0 = Some blt \<and>
     enableDSTransferSet (demo_server [[112]]) (Some [73]) 0 7 (demo_write (ValBitString 5 [0x80]) True) (Some blt) 5 =
       Some (srv', effects, True) \<and>
     checkIfDataSetExists (sv_device (demo_server [[112]])) name = Some (Some variableList) \<and>
     (\<forall>e \<in> set (nvl_listOfVariables variableList). entry_allowed (demo_server [[112]]) 0 sample_ops e)"
proof -
  let ?create = "Tase2_BilateralTable_create [66] (Some 0) [49, 46, 49, 46, 57] 12 (\<lambda>_. None)"
  let ?v = "demo_write (ValBitString 5 [0x80]) True"
  have "(do { (blt0, _) \<leftarrow> ?create; blt \<leftarrow> for_each sample_ops run_op blt0;
      (_, _, ok) \<leftarrow> enableDSTransferSet (demo_server [[112]]) (Some [73]) 0 7 ?v (Some blt) 5; Some ok }) = Some True"
    by code_simp
  then obtain blt0 ids' blt srv' effects where s: "?create = Some (blt0, ids')" "for_each sample_ops run_op blt0 = Some blt"
    "enableDSTransferSet (demo_server [[112]]) (Some [73]) 0 7 ?v (Some blt) 5 = Some (srv', effects, True)"
    by (auto split: Option.bind_splits)
  from data_set_rights [OF s(1) sample_ops_distinct s(2,3)] s show ?thesis by blast
qed

end
