(* ===== verification/MmsData.thy ===== *)
theory MmsData
  imports MmsValue_Laws BerDecoder
begin

text \<open>
  \<^verbatim>\<open>libmms/src/mms/iso_mms/server/mms_access_result.c\<close>: MMS values on the wire. Every value a server
  answers or reports goes through \<open>MmsValue_encodeMmsData\<close>; \<open>MmsValue_decodeMmsData\<close> reads values
  from entries of journals.

  The two uses of the encoder are two functions: \<open>encodedSize\<close> (\<open>encode\<close> false) and the writer.
  The decoder works on \<open>int\<close> positions like \<open>BerDecoder_decodeLength\<close>, whose return value it does
  not check everywhere; \<open>g\<close> gives the indeterminate contents of its local \<open>dataLength\<close>. A C
  loop that may not end takes fuel.
\<close>

section \<open>Encoding\<close>

fun encodedSize :: "MmsValue \<Rightarrow> nat option"
and component_sizes :: "MmsValue option list \<Rightarrow> nat option" where
  "encodedSize (ValArray cs) = do {
     elementsSize \<leftarrow> component_sizes cs;
     Some (1 + elementsSize + BerEncoder_determineLengthSize (of_nat elementsSize)) }"
| "encodedSize (ValStructure cs) = do {
     componentsSize \<leftarrow> component_sizes cs;
     Some (1 + componentsSize + BerEncoder_determineLengthSize (of_nat componentsSize)) }"
| "encodedSize (ValBoolean _) = Some 3"
| "encodedSize (ValBitString sz _) = Some (BerEncoder_determineEncodedBitStringSize sz)"
| "encodedSize (ValInteger v) = Some (2 + asn1_size v)"
| "encodedSize (ValUnsigned v) = Some (2 + asn1_size v)"
| "encodedSize (ValFloat _ formatWidth _) = Some (formatWidth div 8 + 1 + 2)"
| "encodedSize (ValOctetString sz _ _) = Some (1 + BerEncoder_determineLengthSize (of_nat sz) + sz)"
| "encodedSize (ValVisibleString _ buf) = Some (BerEncoder_determineEncodedStringSize buf)"
| "encodedSize (ValMmsString _ buf) = Some (BerEncoder_determineEncodedStringSize buf)"
| "encodedSize (ValUtcTime _) = Some 10"
| "encodedSize (ValBinaryTime sz _) = Some (2 + sz)"
| "encodedSize (ValDataAccessError e) = do {
     n \<leftarrow> BerEncoder_UInt32determineEncodedSize (word_of_int e);
     Some (2 + n) }"
| "component_sizes [] = Some 0"
| "component_sizes (c # cs) = do {
     v \<leftarrow> c;
     n \<leftarrow> encodedSize v;
     m \<leftarrow> component_sizes cs;
     Some (n + m) }"

fun MmsValue_encodeMmsData :: "MmsValue \<Rightarrow> cursor \<Rightarrow> cursor option"
and encode_components :: "MmsValue option list \<Rightarrow> cursor \<Rightarrow> cursor option" where
  "MmsValue_encodeMmsData (ValArray cs) c = do {
     elementsSize \<leftarrow> component_sizes cs;
     c \<leftarrow> put 0xa1 c;
     c \<leftarrow> BerEncoder_encodeLength (of_nat elementsSize) c;
     encode_components cs c }"
| "MmsValue_encodeMmsData (ValStructure cs) c = do {
     componentsSize \<leftarrow> component_sizes cs;
     c \<leftarrow> put 0xa2 c;
     c \<leftarrow> BerEncoder_encodeLength (of_nat componentsSize) c;
     encode_components cs c }"
| "MmsValue_encodeMmsData (ValBoolean b) c = BerEncoder_encodeBoolean 0x83 b c"
| "MmsValue_encodeMmsData (ValBitString sz buf) c = BerEncoder_encodeBitString 0x84 sz buf c"
| "MmsValue_encodeMmsData (ValInteger v) c = BerEncoder_encodeAsn1PrimitiveValue 0x85 v c"
| "MmsValue_encodeMmsData (ValUnsigned v) c = BerEncoder_encodeAsn1PrimitiveValue 0x86 v c"
| "MmsValue_encodeMmsData (ValFloat exponentWidth formatWidth buf) c = do {
     c \<leftarrow> BerEncoder_encodeTL 0x87 (of_nat (formatWidth div 8 + 1)) c;
     BerEncoder_encodeFloat buf (of_nat formatWidth) (of_nat exponentWidth) c }"
| "MmsValue_encodeMmsData (ValOctetString sz _ buf) c = BerEncoder_encodeOctetString 0x89 buf (of_nat sz) c"
| "MmsValue_encodeMmsData (ValVisibleString _ buf) c = BerEncoder_encodeStringWithTag 0x8a buf c"
| "MmsValue_encodeMmsData (ValMmsString _ buf) c = BerEncoder_encodeStringWithTag 0x90 buf c"
| "MmsValue_encodeMmsData (ValUtcTime buf) c = BerEncoder_encodeOctetString 0x91 buf 8 c"
| "MmsValue_encodeMmsData (ValBinaryTime sz buf) c = BerEncoder_encodeOctetString 0x8c buf (of_nat sz) c"
| "MmsValue_encodeMmsData (ValDataAccessError e) c = do {
     len \<leftarrow> BerEncoder_UInt32determineEncodedSize (word_of_int e);
     c \<leftarrow> BerEncoder_encodeTL 0x80 (of_nat len) c;
     BerEncoder_encodeUInt32 (word_of_int e) c }"
| "encode_components [] c = Some c"
| "encode_components (e # es) c = do {
     v \<leftarrow> e;
     c \<leftarrow> MmsValue_encodeMmsData v c;
     encode_components es c }"

section \<open>Decoding\<close>

text \<open>\<open>BerDecoder_decodeLength\<close> with the fuel it needs.\<close>

definition decode_length :: "u8 list \<Rightarrow> int \<Rightarrow> int \<Rightarrow> int \<Rightarrow> (int \<times> int) outcome" where
  "decode_length buffer len bufPos maxBufPos =
     BerDecoder_decodeLength (Suc (nat (maxBufPos - bufPos))) buffer len bufPos maxBufPos"

definition element_tags :: "u8 list" where
  "element_tags = [0x80, 0xa1, 0xa2, 0x83, 0x84, 0x85, 0x86, 0x87, 0x89, 0x8a, 0x8c, 0x91, 0x00]"

text \<open>The counter loop; \<open>elementLength\<close> keeps its value when a length cannot be decoded.\<close>

fun getNumberOfElements :: "nat \<Rightarrow> u8 list \<Rightarrow> int \<Rightarrow> int \<Rightarrow> int \<Rightarrow> int \<Rightarrow> int outcome" where
  "getNumberOfElements fuel buffer elementIndex bufPos elementLength elementEndBufPos =
     (if bufPos < elementEndBufPos then
        case fuel of 0 \<Rightarrow> NoFuel | Suc fuel \<Rightarrow>
        (case rdi buffer bufPos of
           None \<Rightarrow> OOB
         | Some tag \<Rightarrow>
            (case decode_length buffer elementLength (wrap32 (bufPos + 1)) elementEndBufPos of
               OOB \<Rightarrow> OOB
             | NoFuel \<Rightarrow> NoFuel
             | Ret (bufPos, elementLength) \<Rightarrow>
                 if wrap32 (bufPos + elementLength) > elementEndBufPos then Ret (- 1)
                 else if tag \<in> set element_tags then
                   getNumberOfElements fuel buffer (elementIndex + 1) (wrap32 (bufPos + elementLength))
                     elementLength elementEndBufPos
                 else Ret (- 1)))
      else Ret elementIndex)"

declare getNumberOfElements.simps [simp del]

text \<open>A string of \<open>sz\<close> bytes; the C string in them ends at the first zero byte.\<close>

definition MmsValue_newStringFromByteArray :: "u8 list \<Rightarrow> nat \<Rightarrow> MmsType \<Rightarrow> MmsValue option" where
  "MmsValue_newStringFromByteArray byteArray sz type = do {
     buf \<leftarrow> memcpy (replicate sz 0) byteArray sz;
     string_value type (wrap16 (int sz)) (Some (takeWhile (\<lambda>b. b \<noteq> 0) buf)) }"

text \<open>The octets at a position in front of the buffer are not accessible.\<close>

definition at :: "u8 list \<Rightarrow> int \<Rightarrow> u8 list option" where
  "at buffer bufPos = (if 0 \<le> bufPos \<and> nat bufPos \<le> length buffer then Some (drop (nat bufPos) buffer) else None)"

definition decode_integer :: "u8 list \<Rightarrow> int \<Rightarrow> int \<Rightarrow> Asn1PrimitiveValue option" where
  "decode_integer buffer bufPos dataLength = do {
     let v = (if wrap32 (dataLength * 8) \<le> 32 then BerInteger_createInt32 else BerInteger_createInt64);
     src \<leftarrow> at buffer bufPos;
     octets \<leftarrow> memcpy (asn1_octets v) src (nat dataLength);
     Some (v\<lparr>asn1_octets := octets, asn1_size := nat dataLength mod 256\<rparr>) }"

text \<open>A value that is not structured; the inner \<open>None\<close> is a null pointer.\<close>

definition decode_leaf :: "u8 \<Rightarrow> u8 list \<Rightarrow> int \<Rightarrow> int \<Rightarrow> MmsValue option option" where
  "decode_leaf tag buffer bufPos dataLength =
     (if tag = 0x80 then do {
        src \<leftarrow> at buffer bufPos;
        e \<leftarrow> BerDecoder_decodeUint32 src (nat dataLength) 0;
        Some (Some (ValDataAccessError (sint e))) }
      else if tag = 0x83 then do {
        src \<leftarrow> at buffer bufPos;
        b \<leftarrow> BerDecoder_decodeBoolean src 0;
        Some (Some (MmsValue_newBoolean b)) }
      else if tag = 0x84 then do {
        padding \<leftarrow> rdi buffer bufPos;
        let bitStringLength = 8 * (dataLength - 1) - uint padding;
        if dataLength < 1 then None
        else do {
          src \<leftarrow> at buffer (bufPos + 1);
          buf \<leftarrow> memcpy (replicate (bitStringByteSize (nat \<bar>bitStringLength\<bar>)) 0) src (nat (dataLength - 1));
          Some (Some (ValBitString (nat \<bar>bitStringLength\<bar>) buf)) } }
      else if tag = 0x85 then do { v \<leftarrow> decode_integer buffer bufPos dataLength; Some (Some (ValInteger v)) }
      else if tag = 0x86 then do { v \<leftarrow> decode_integer buffer bufPos dataLength; Some (Some (ValUnsigned v)) }
      else if tag = 0x87 then
        if dataLength = 9 then do {
          src \<leftarrow> at buffer bufPos;
          d \<leftarrow> BerDecoder_decodeDouble src 0;
          Some (Some (MmsValue_newDouble d)) }
        else if dataLength = 5 then do {
          src \<leftarrow> at buffer bufPos;
          d \<leftarrow> BerDecoder_decodeFloat src 0;
          Some (Some (MmsValue_newFloat d)) }
        else Some None
      else if tag = 0x89 then do {
        src \<leftarrow> at buffer bufPos;
        buf \<leftarrow> memcpy (replicate (nat dataLength) 0) src (nat dataLength);
        Some (Some (ValOctetString (nat dataLength mod 65536) (nat dataLength mod 65536) buf)) }
      else if tag = 0x8a then do {
        src \<leftarrow> at buffer bufPos;
        v \<leftarrow> MmsValue_newStringFromByteArray src (nat dataLength) MMS_VISIBLE_STRING;
        Some (Some v) }
      else if tag = 0x8c then
        if dataLength = 4 \<or> dataLength = 6 then do {
          src \<leftarrow> at buffer bufPos;
          buf \<leftarrow> memcpy (replicate 6 0) src (nat dataLength);
          Some (Some (ValBinaryTime (nat dataLength) buf)) }
        else Some None
      else if tag = 0x90 then do {
        src \<leftarrow> at buffer bufPos;
        v \<leftarrow> MmsValue_newStringFromByteArray src (nat dataLength) MMS_STRING;
        Some (Some v) }
      else if tag = 0x91 then
        if dataLength = 8 then do {
          src \<leftarrow> at buffer bufPos;
          v \<leftarrow> MmsValue_newUtcTime 0 \<bind> (\<lambda>v. MmsValue_setUtcTimeByBuffer v src);
          Some (Some v) }
        else Some None
      else Some None)"

text \<open>
  \<open>Ret None\<close> is a null result, \<open>Ret (Some (v, p))\<close> the value with \<open>*endBufPos\<close>. A negative
  element count makes the allocation fail. The elements are decoded with the length of the whole
  content.
\<close>

function MmsValue_decodeMmsData ::
    "nat \<Rightarrow> (int \<Rightarrow> int) \<Rightarrow> u8 list \<Rightarrow> int \<Rightarrow> int \<Rightarrow> ((MmsValue \<times> int) option) outcome"
and decode_elements ::
    "nat \<Rightarrow> (int \<Rightarrow> int) \<Rightarrow> u8 list \<Rightarrow> nat \<Rightarrow> int \<Rightarrow> int \<Rightarrow> int \<Rightarrow> ((MmsValue option list \<times> int) option) outcome" where
  "MmsValue_decodeMmsData fuel g buffer bufPos bufferLength =
     (let dataEndBufPos = wrap32 (bufPos + bufferLength) in
      case fuel of 0 \<Rightarrow> NoFuel | Suc fuel \<Rightarrow>
      (case rdi buffer bufPos of
         None \<Rightarrow> OOB
       | Some tag \<Rightarrow>
         (case decode_length buffer (g bufPos) (wrap32 (bufPos + 1)) dataEndBufPos of
            OOB \<Rightarrow> OOB
          | NoFuel \<Rightarrow> NoFuel
          | Ret (bufPos, dataLength) \<Rightarrow>
             if wrap32 (bufPos + dataLength) > dataEndBufPos then Ret None
             else if tag = 0xa1 \<or> tag = 0xa2 then
               (case getNumberOfElements fuel buffer 0 bufPos dataLength (wrap32 (bufPos + dataLength)) of
                  OOB \<Rightarrow> OOB
                | NoFuel \<Rightarrow> NoFuel
                | Ret elementCount \<Rightarrow>
                    if elementCount < 0 then Ret None
                    else
                      (case decode_elements fuel g buffer (nat elementCount) bufPos dataLength dataEndBufPos of
                         Ret (Some (vs, p)) \<Rightarrow> Ret (Some (if tag = 0xa1 then ValArray vs else ValStructure vs, p))
                       | Ret None \<Rightarrow> Ret None
                       | OOB \<Rightarrow> OOB
                       | NoFuel \<Rightarrow> NoFuel))
             else
               (case decode_leaf tag buffer bufPos dataLength of
                  None \<Rightarrow> OOB
                | Some None \<Rightarrow> Ret None
                | Some (Some v) \<Rightarrow> Ret (Some (v, wrap32 (bufPos + dataLength)))))))"
| "decode_elements fuel g buffer 0 bufPos dataLength dataEndBufPos = Ret (Some ([], bufPos))"
| "decode_elements fuel g buffer (Suc k) bufPos dataLength dataEndBufPos =
     (case decode_length buffer 0 (wrap32 (bufPos + 1)) dataEndBufPos of
        OOB \<Rightarrow> OOB
      | NoFuel \<Rightarrow> NoFuel
      | Ret (newBufPos, elementLength) \<Rightarrow>
          if newBufPos = - 1 then Ret None
          else
            (case MmsValue_decodeMmsData fuel g buffer bufPos dataLength of
               OOB \<Rightarrow> OOB
             | NoFuel \<Rightarrow> NoFuel
             | Ret None \<Rightarrow> Ret None
             | Ret (Some (v, _)) \<Rightarrow>
                 (case decode_elements fuel g buffer k (wrap32 (newBufPos + elementLength)) dataLength dataEndBufPos of
                    Ret (Some (vs, p)) \<Rightarrow> Ret (Some (Some v # vs, p))
                  | Ret None \<Rightarrow> Ret None
                  | OOB \<Rightarrow> OOB
                  | NoFuel \<Rightarrow> NoFuel)))"
  by pat_completeness auto
termination
  by (relation "measures [\<lambda>a. case a of Inl (f, _) \<Rightarrow> f | Inr (f, _) \<Rightarrow> f,
        \<lambda>a. case a of Inl _ \<Rightarrow> 0 | Inr (_, _, _, k, _) \<Rightarrow> k]") auto

declare MmsValue_decodeMmsData.simps [simp del]

end
