(* ===== verification/MmsData_Laws.thy ===== *)
theory MmsData_Laws
  imports MmsData
begin

text \<open>
  The wire format of MMS values: a reference encoding in tag-length-value form, the encoder and its
  size function against it, and the decoder as its inverse on the values it supports.
\<close>

section \<open>Lengths in a buffer\<close>

lemma holds_length:
  assumes "holds buf p (ber_length_bytes len)" "uint len < 2 ^ 24"
    "int (p + length (ber_length_bytes len)) + uint len \<le> m" "m < 2 ^ 31"
  shows "decode_length buf l0 (int p) m = Ret (int (p + length (ber_length_bytes len)), uint len)"
proof -
  have "BerEncoder_encodeLength len (buf, p) = Some (buf, p + length (ber_length_bytes len))"
    using holds_puts [OF assms(1)] by (simp add: encodeLength_puts)
  then show ?thesis unfolding decode_length_def by (rule decodeLength_encoded) (use assms(2-4) in simp_all)
qed

section \<open>The reference encoding\<close>

fun data_tag :: "MmsValue \<Rightarrow> u8" where
  "data_tag (ValArray _) = 0xa1"
| "data_tag (ValStructure _) = 0xa2"
| "data_tag (ValBoolean _) = 0x83"
| "data_tag (ValBitString _ _) = 0x84"
| "data_tag (ValInteger _) = 0x85"
| "data_tag (ValUnsigned _) = 0x86"
| "data_tag (ValFloat _ _ _) = 0x87"
| "data_tag (ValOctetString _ _ _) = 0x89"
| "data_tag (ValVisibleString _ _) = 0x8a"
| "data_tag (ValMmsString _ _) = 0x90"
| "data_tag (ValUtcTime _) = 0x91"
| "data_tag (ValBinaryTime _ _) = 0x8c"
| "data_tag (ValDataAccessError _) = 0x80"

fun data_content :: "MmsValue \<Rightarrow> u8 list" where
  "data_content (ValArray cs) = concat (map (\<lambda>c. case c of Some v \<Rightarrow> tlv (data_tag v) (data_content v) | None \<Rightarrow> []) cs)"
| "data_content (ValStructure cs) = concat (map (\<lambda>c. case c of Some v \<Rightarrow> tlv (data_tag v) (data_content v) | None \<Rightarrow> []) cs)"
| "data_content (ValBoolean b) = [if b then 0xff else 0]"
| "data_content (ValBitString sz buf) = of_nat (8 * length buf - sz) # buf"
| "data_content (ValInteger v) = ber_content v"
| "data_content (ValUnsigned v) = ber_content v"
| "data_content (ValFloat exponentWidth formatWidth buf) = of_nat exponentWidth # rev buf"
| "data_content (ValOctetString sz _ buf) = take sz buf"
| "data_content (ValVisibleString _ buf) = (case buf of Some s \<Rightarrow> s | None \<Rightarrow> [])"
| "data_content (ValMmsString _ buf) = (case buf of Some s \<Rightarrow> s | None \<Rightarrow> [])"
| "data_content (ValUtcTime buf) = buf"
| "data_content (ValBinaryTime sz buf) = take sz buf"
| "data_content (ValDataAccessError e) = strip (0 # rev (le_bytes 4 (word_of_int e :: u32)))"

definition data_bytes :: "MmsValue \<Rightarrow> u8 list" where
  "data_bytes v = tlv (data_tag v) (data_content v)"

text \<open>
  The values the codec supports: no null pointers, bit strings whose unused bits are zero and
  whose length octets have the size the size function reports, integers that fit the decoder's
  objects, IEEE floats, and no MMS strings.
\<close>

fun wire_ok :: "MmsValue \<Rightarrow> bool" where
  "wire_ok (ValArray cs) \<longleftrightarrow> (\<forall>c \<in> set cs. case c of Some v \<Rightarrow> wire_ok v | None \<Rightarrow> False)"
| "wire_ok (ValStructure cs) \<longleftrightarrow> (\<forall>c \<in> set cs. case c of Some v \<Rightarrow> wire_ok v | None \<Rightarrow> False)"
| "wire_ok (ValBoolean _) \<longleftrightarrow> True"
| "wire_ok (ValBitString sz buf) \<longleftrightarrow> length buf = bitStringByteSize sz \<and> sz \<le> 1008 \<and>
     (buf = [] \<or> last buf AND padding_mask (8 * length buf - sz) = last buf)"
| "wire_ok (ValInteger v) \<longleftrightarrow> ber_integer_ok v \<and> asn1_size v \<le> 9"
| "wire_ok (ValUnsigned v) \<longleftrightarrow> ber_integer_ok v \<and> asn1_size v \<le> 9"
| "wire_ok (ValFloat exponentWidth formatWidth buf) \<longleftrightarrow>
     (exponentWidth, formatWidth) \<in> {(8, 32), (11, 64)} \<and> length buf = formatWidth div 8"
| "wire_ok (ValOctetString sz maxSize buf) \<longleftrightarrow> sz \<le> maxSize \<and> length buf = maxSize"
| "wire_ok (ValVisibleString _ buf) \<longleftrightarrow> (case buf of Some s \<Rightarrow> 0 \<notin> set s \<and> length s < 32768 | None \<Rightarrow> False)"
| "wire_ok (ValMmsString _ _) \<longleftrightarrow> False"
| "wire_ok (ValUtcTime buf) \<longleftrightarrow> length buf = 8"
| "wire_ok (ValBinaryTime sz buf) \<longleftrightarrow> sz \<in> {4, 6} \<and> length buf = 6"
| "wire_ok (ValDataAccessError e) \<longleftrightarrow> - (2 ^ 31) \<le> e \<and> e < 2 ^ 31"

lemma wire_ok_components:
  assumes "\<forall>c \<in> set cs. case c of Some v \<Rightarrow> wire_ok v | None \<Rightarrow> False"
  obtains vs where "cs = map Some vs" "\<forall>v \<in> set vs. wire_ok v"
proof -
  have "cs = map Some (map the cs)" using assms by (induction cs) (auto split: option.splits)
  moreover have "\<forall>v \<in> set (map the cs). wire_ok v" using assms by (auto split: option.splits)
  ultimately show thesis by (rule that)
qed

lemma concat_bytes:
  "concat (map (\<lambda>c. case c of Some v \<Rightarrow> tlv (data_tag v) (data_content v) | None \<Rightarrow> []) (map Some vs)) =
   concat (map data_bytes vs)"
  by (induction vs) (simp_all add: data_bytes_def)

text \<open>An induction over these values.\<close>

lemma wire_induct [consumes 1, case_names arr struct leaf]:
  assumes "wire_ok v"
    and "\<And>vs. (\<And>v. v \<in> set vs \<Longrightarrow> wire_ok v \<and> P v) \<Longrightarrow> P (ValArray (map Some vs))"
    and "\<And>vs. (\<And>v. v \<in> set vs \<Longrightarrow> wire_ok v \<and> P v) \<Longrightarrow> P (ValStructure (map Some vs))"
    and "\<And>v. wire_ok v \<Longrightarrow> components v = None \<Longrightarrow> P v"
  shows "P v"
  using assms(1)
proof (induction v)
  case (ValArray cs)
  then obtain vs where vs: "cs = map Some vs" "\<forall>v \<in> set vs. wire_ok v" by (auto elim: wire_ok_components)
  then have "wire_ok v \<and> P v" if "v \<in> set vs" for v using ValArray.IH [of "Some v" v] that by auto
  then show ?case using assms(2) vs(1) by blast
next
  case (ValStructure cs)
  then obtain vs where vs: "cs = map Some vs" "\<forall>v \<in> set vs. wire_ok v" by (auto elim: wire_ok_components)
  then have "wire_ok v \<and> P v" if "v \<in> set vs" for v using ValStructure.IH [of "Some v" v] that by auto
  then show ?case using assms(3) vs(1) by blast
qed (use assms(4) in auto)


section \<open>The encoder writes the reference encoding\<close>

lemma length_tlv:
  "length bs < 65535 \<Longrightarrow> length (tlv tag bs) = 1 + BerEncoder_determineLengthSize (of_nat (length bs)) + length bs"
proof -
  assume n: "length bs < 65535"
  have "(of_nat (length bs) :: u32) \<noteq> 65535"
  proof
    assume "(of_nat (length bs) :: u32) = 65535"
    then have "unat (of_nat (length bs) :: u32) = unat (65535 :: u32)" by simp
    moreover have "unat (of_nat (length bs) :: u32) = length bs" using n by (simp add: unat_of_nat)
    moreover have "unat (65535 :: u32) = 65535" by simp
    ultimately show False using n by linarith
  qed
  then show ?thesis by (simp add: tlv_def length_ber_length_bytes)
qed

lemma content_shorter: "length (data_content v) < length (data_bytes v)"
  by (simp add: data_bytes_def tlv_def)

lemma component_shorter: "v \<in> set vs \<Longrightarrow> length (data_bytes v) \<le> length (concat (map data_bytes vs))"
  by (induction vs) auto

lemma determineLengthSize_small: "n < 128 \<Longrightarrow> BerEncoder_determineLengthSize (of_nat n) = 1"
  by (simp add: BerEncoder_determineLengthSize_def word_less_nat_alt unat_of_nat)

lemma bit_bytes:
  "bitStringByteSize sz = bitString_byteSize sz" "sz \<le> 8 * bitStringByteSize sz" "8 * bitStringByteSize sz < sz + 8"
  "sz \<le> 1008 \<Longrightarrow> bitStringByteSize sz \<le> 126"
  by (simp_all add: bitStringByteSize_def bitString_byteSize_def Let_def; presburger)+

lemma component_sizes_bytes:
  assumes "\<And>v. v \<in> set vs \<Longrightarrow> encodedSize v = Some (length (data_bytes v))"
  shows "component_sizes (map Some vs) = Some (length (concat (map data_bytes vs)))"
  using assms by (induction vs) simp_all

lemma components_content:
  "data_content (ValArray (map Some vs)) = concat (map data_bytes vs)"
  "data_content (ValStructure (map Some vs)) = concat (map data_bytes vs)"
  by (simp_all only: data_content.simps concat_bytes)

lemma components_short:
  assumes "length (data_bytes v) < 65535" "data_content v = concat (map data_bytes vs)" "u \<in> set vs"
  shows "length (data_bytes u) < 65535"
  using component_shorter [OF assms(3)] content_shorter [of v] assms(1,2) by simp

lemma data_bytes_length:
  "length (data_bytes v) < 65535 \<Longrightarrow> length (data_bytes v) =
     1 + BerEncoder_determineLengthSize (of_nat (length (data_content v))) + length (data_content v)"
  using content_shorter [of v] unfolding data_bytes_def by (intro length_tlv) simp

lemma leaf_size:
  assumes "wire_ok v" "components v = None"
  shows "encodedSize v = Some (1 + BerEncoder_determineLengthSize (of_nat (length (data_content v))) +
    length (data_content v))"
proof (cases v)
  case (ValBitString sz buf)
  have n: "bitStringByteSize sz \<le> 126" "length buf = bitStringByteSize sz"
    using assms(1) bit_bytes(4) unfolding ValBitString by auto
  then show ?thesis
    using determineLengthSize_small [of "bitStringByteSize sz + 1"]
      determineLengthSize_small [of "bitStringByteSize sz"]
    by (simp add: ValBitString BerEncoder_determineEncodedBitStringSize_def Let_def bit_bytes(1) [symmetric]
        del: of_nat_add of_nat_Suc)
next
  case (ValDataAccessError e)
  have "length (strip (0 # rev (le_bytes 4 (w :: u32)))) < 128" for w
    using strip_length_le [of "0 # rev (le_bytes 4 w)"] by (simp add: length_le_bytes)
  then show ?thesis by (simp add: ValDataAccessError UInt32determineEncodedSize_eq determineLengthSize_small)
qed (use assms in \<open>auto simp: determineLengthSize_small [of "Suc 0", simplified]
      determineLengthSize_small [of 5, simplified] determineLengthSize_small [of 8, simplified]
      determineLengthSize_small [of 9, simplified] length_ber_content
      BerEncoder_determineEncodedStringSize_def determineLengthSize_small split: option.splits\<close>)

lemma encodedSize_bytes:
  assumes "wire_ok v" "length (data_bytes v) < 65535"
  shows "encodedSize v = Some (length (data_bytes v))"
  using assms
proof (induction v rule: wire_induct)
  case (arr vs)
  then have "component_sizes (map Some vs) = Some (length (concat (map data_bytes vs)))"
    using components_short [OF arr.prems components_content(1)] by (intro component_sizes_bytes) simp
  then show ?case unfolding data_bytes_length [OF arr.prems] components_content by simp
next
  case (struct vs)
  then have "component_sizes (map Some vs) = Some (length (concat (map data_bytes vs)))"
    using components_short [OF struct.prems components_content(2)] by (intro component_sizes_bytes) simp
  then show ?case unfolding data_bytes_length [OF struct.prems] components_content by simp
next
  case (leaf v)
  then show ?case using leaf_size [OF leaf(1,2)] unfolding data_bytes_length [OF leaf(3)] by simp
qed

text \<open>The size function never reports a size it does not also write, up to 65534 octets.\<close>

lemma component_sizes_exact:
  assumes "component_sizes (map Some vs) = Some m" "m < 65535"
    "\<And>v n. v \<in> set vs \<Longrightarrow> encodedSize v = Some n \<Longrightarrow> n < 65535 \<Longrightarrow> length (data_bytes v) = n"
  shows "length (concat (map data_bytes vs)) = m"
  using assms
proof (induction vs arbitrary: m)
  case (Cons v vs)
  obtain n k where nk: "encodedSize v = Some n" "component_sizes (map Some vs) = Some k" "m = n + k"
    using Cons.prems(1) by (auto split: Option.bind_splits)
  have "length (concat (map data_bytes vs)) = k" using Cons nk by auto
  then show ?case using Cons.prems nk by simp
qed simp

lemma encodedSize_exact:
  assumes "wire_ok v" "encodedSize v = Some n" "n < 65535"
  shows "length (data_bytes v) = n"
  using assms
proof (induction v arbitrary: n rule: wire_induct)
  case (arr vs)
  obtain m where m: "component_sizes (map Some vs) = Some m" "n = 1 + m + BerEncoder_determineLengthSize (of_nat m)"
    using arr.prems(1) by (auto split: Option.bind_splits)
  have "length (data_content (ValArray (map Some vs))) = m"
    unfolding components_content using arr m by (intro component_sizes_exact) auto
  then show ?case using m arr.prems(2) unfolding data_bytes_def by (subst length_tlv) simp_all
next
  case (struct vs)
  obtain m where m: "component_sizes (map Some vs) = Some m" "n = 1 + m + BerEncoder_determineLengthSize (of_nat m)"
    using struct.prems(1) by (auto split: Option.bind_splits)
  have "length (data_content (ValStructure (map Some vs))) = m"
    unfolding components_content using struct m by (intro component_sizes_exact) auto
  then show ?case using m struct.prems(2) unfolding data_bytes_def by (subst length_tlv) simp_all
next
  case (leaf v)
  then show ?case using leaf_size [OF leaf(1,2)] unfolding data_bytes_def by (subst length_tlv) simp_all
qed

text \<open>A bit string's last octet, masked once it is written.\<close>

lemma put_from_whole: "put_from src 0 (length src) c = puts src c"
  by (subst put_from_puts) simp_all

lemma put_from_fun: "put_from src 0 (length src) = puts src"
  by (rule ext) (rule put_from_whole)

lemma put_from_take: "n \<le> length src \<Longrightarrow> put_from src 0 n c = puts (take n src) c"
  by (subst put_from_puts) simp_all

lemma puts_last:
  assumes "puts bs c = Some (buf, p)" "bs \<noteq> []"
  shows "rd buf (p - 1) = Some (last bs) \<and> wr buf (p - 1) (last bs) = Some buf"
proof -
  obtain b q where c: "c = (b, q)" by (cases c)
  have p: "p = q + length bs" "buf = splice b q bs" "q + length bs \<le> length b"
    using assms c by (auto simp: puts_iff split: if_splits)
  have i: "p - 1 = q + (length bs - 1)" "length bs - 1 < length bs" using p(1) assms(2) by (cases bs; simp)+
  have "q + (length bs - 1) < length b" using p(3) i(2) by linarith
  then have n0: "p - 1 < length buf" unfolding i(1) using p(2,3) by (simp add: length_splice)
  have n: "p - 1 < length buf" "buf ! (p - 1) = last bs"
    using n0 p(2,3) i(2) assms(2) splice_nth [of q bs b "length bs - 1"] unfolding i(1)
    by (simp_all only: last_conv_nth [OF assms(2)] HOL.simp_thms)
  then show ?thesis using list_update_id [of buf "p - 1"] by (simp add: rd_def wr_def)
qed

lemma encodeBitString_puts:
  assumes "wire_ok (ValBitString sz buf)"
  shows "BerEncoder_encodeBitString tag sz buf c = puts (tlv tag (of_nat (8 * length buf - sz) # buf)) c"
proof -
  let ?pre = "tag # ber_length_bytes (of_nat (length buf + 1)) @ [of_nat (8 * length buf - sz)]"
  have n: "bitString_byteSize sz = length buf" using assms by (simp add: bit_bytes(1))
  have m: "padding_mask 0 = - 1" by (simp add: padding_mask_def)
  have eq: "BerEncoder_encodeBitString tag sz buf c = do {
     (buffer, bufPos) \<leftarrow> puts (?pre @ buf) c;
     b \<leftarrow> rd buffer (bufPos - 1);
     buffer \<leftarrow> wr buffer (bufPos - 1) (b AND padding_mask (8 * length buf - sz));
     Some (buffer, bufPos) }"
    unfolding BerEncoder_encodeBitString_def Let_def n put_from_whole encodeLength_puts
    by (simp add: puts_append puts_fun mult.commute bind_assoc)
  have tlv: "tlv tag (of_nat (8 * length buf - sz) # buf) = ?pre @ buf" by (simp add: tlv_def)
  have l: "last (?pre @ buf) AND padding_mask (8 * length buf - sz) = last (?pre @ buf)"
  proof (cases "buf = []")
    case True
    then have "sz = 0" using assms by (simp add: bitStringByteSize_def split: if_splits) presburger
    then show ?thesis using True m by simp
  next
    case False
    have "last buf AND padding_mask (8 * length buf - sz) = last buf" using assms False
      unfolding wire_ok.simps by blast
    then show ?thesis using False by (simp only: last_append append_is_Nil_conv list.distinct if_False HOL.simp_thms)
  qed
  show ?thesis unfolding eq tlv using puts_last [of "?pre @ buf" c] l
    by (auto split: Option.bind_splits)
qed


lemma component_puts:
  assumes "\<And>v c. v \<in> set vs \<Longrightarrow> MmsValue_encodeMmsData v c = puts (data_bytes v) c"
  shows "encode_components (map Some vs) c = puts (concat (map data_bytes vs)) c"
  using assms by (induction vs arbitrary: c) (simp_all add: puts_append cong: Option.bind_cong)

lemma puts_append_fun: "puts (xs @ ys) = (\<lambda>c. puts xs c \<bind> puts ys)"
  by (rule ext) (simp add: puts_append)

lemma encodeFloat_bytes:
  assumes "length buf = n" "n \<le> 8" "unat fw div 8 = n"
  shows "BerEncoder_encodeFloat buf fw ew c = puts (ew # rev buf) c"
proof -
  have "put_from buf 0 n (ew # replicate 8 0, 1) = Some (ew # buf @ replicate (8 - n) 0, n + 1)"
    using assms by (subst put_from_puts) (simp_all add: puts_eq splice_def del: puts.simps)
  moreover have "put_from (ew # rev buf @ replicate (8 - n) 0) 0 (n + 1) c = puts (ew # rev buf) c"
    using assms by (subst put_from_puts) (simp_all del: puts.simps)
  ultimately show ?thesis using assms
    by (simp add: BerEncoder_encodeFloat_def BerEncoder_revertByteOrder_rev Let_def
        del: put_from.simps puts.simps)
qed

lemma encodeBoolean_tlv: "BerEncoder_encodeBoolean tag b c = puts (tlv tag [if b then 0xff else 0]) c"
  by (simp add: BerEncoder_encodeBoolean_def tlv_def ber_length_bytes_def puts_fun)

lemma encodeAsn1_tlv:
  "ber_integer_ok v \<Longrightarrow> BerEncoder_encodeAsn1PrimitiveValue tag v c = puts (tlv tag (ber_content v)) c"
  by (simp add: BerEncoder_encodeAsn1PrimitiveValue_def tlv_def ber_content_def ber_integer_ok_def
      encodeLength_puts put_from_take puts_append_fun puts_append puts_fun)

lemma encodeOctetString_tlv:
  "n \<le> length buf \<Longrightarrow> n < 2 ^ 32 \<Longrightarrow>
   BerEncoder_encodeOctetString tag buf (of_nat n) c = puts (tlv tag (take n buf)) c"
  by (simp add: BerEncoder_encodeOctetString_def tlv_def unat_of_nat encodeLength_puts put_from_take
      puts_append_fun puts_append puts_fun)

lemma encodeString_tlv:
  "BerEncoder_encodeStringWithTag tag (Some s) c = puts (tlv tag s) c"
  by (simp add: BerEncoder_encodeStringWithTag_def tlv_def encodeLength_puts put_from_fun
      puts_append_fun puts_append puts_fun)

lemma encodeTL_then_tlv:
  assumes "\<And>c. f c = puts bs c" "len = of_nat (length bs)"
  shows "BerEncoder_encodeTL tag len c \<bind> f = puts (tlv tag bs) c"
proof -
  have "f = puts bs" using assms(1) by blast
  then show ?thesis
    by (simp add: assms(2) BerEncoder_encodeTL_def tlv_def encodeLength_puts puts_append_fun puts_append puts_fun)
qed

lemma encodeFloat_tlv:
  assumes "(ew, fw) \<in> {(8, 32), (11, 64)}" "length buf = fw div 8"
  shows "BerEncoder_encodeTL tag (of_nat (fw div 8 + 1)) c \<bind> BerEncoder_encodeFloat buf (of_nat fw) (of_nat ew) =
    puts (tlv tag (of_nat ew # rev buf)) c"
  using assms by (intro encodeTL_then_tlv encodeFloat_bytes) auto

lemma encodeError_tlv:
  "(BerEncoder_UInt32determineEncodedSize e \<bind>
     (\<lambda>len. BerEncoder_encodeTL tag (of_nat len) c \<bind> BerEncoder_encodeUInt32 e)) =
   puts (tlv tag (strip (0 # rev (le_bytes 4 e)))) c"
  by (simp add: UInt32determineEncodedSize_eq) (intro encodeTL_then_tlv encodeUInt32_puts refl)

lemmas leaf_puts = encodeBoolean_tlv encodeAsn1_tlv encodeOctetString_tlv encodeString_tlv
  encodeOctetString_tlv [of 8, simplified] encodeOctetString_tlv [of 4, simplified]
  encodeOctetString_tlv [of 6, simplified]

lemma component_puts':
  assumes "\<And>v c. v \<in> set vs \<Longrightarrow> MmsValue_encodeMmsData v c = puts (data_bytes v) c"
  shows "encode_components (map Some vs) = puts (concat (map data_bytes vs))"
  using component_puts [OF assms] by blast

lemma length_data_content: "length (data_bytes v) < 65535 \<Longrightarrow> length (data_content v) < 65535"
  using content_shorter [of v] by simp

lemma encodeMmsData_puts:
  assumes "wire_ok v" "length (data_bytes v) < 65535"
  shows "MmsValue_encodeMmsData v c = puts (data_bytes v) c"
  using assms
proof (induction v arbitrary: c rule: wire_induct)
  case (arr vs)
  have "MmsValue_encodeMmsData u c = puts (data_bytes u) c" if "u \<in> set vs" for u c
    using arr.IH [OF that] components_short [OF arr.prems components_content(1) that] by blast
  moreover have "component_sizes (map Some vs) = Some (length (concat (map data_bytes vs)))"
    using components_short [OF arr.prems components_content(1)] arr.IH
    by (intro component_sizes_bytes encodedSize_bytes) simp_all
  ultimately show ?case unfolding data_bytes_def [of "ValArray _"] components_content tlv_def
    by (simp add: component_puts' encodeLength_puts puts_append_fun puts_append puts_fun)
next
  case (struct vs)
  have "MmsValue_encodeMmsData u c = puts (data_bytes u) c" if "u \<in> set vs" for u c
    using struct.IH [OF that] components_short [OF struct.prems components_content(2) that] by blast
  moreover have "component_sizes (map Some vs) = Some (length (concat (map data_bytes vs)))"
    using components_short [OF struct.prems components_content(2)] struct.IH
    by (intro component_sizes_bytes encodedSize_bytes) simp_all
  ultimately show ?case unfolding data_bytes_def [of "ValStructure _"] components_content tlv_def
    by (simp add: component_puts' encodeLength_puts puts_append_fun puts_append puts_fun)
next
  case (leaf v)
  show ?case unfolding data_bytes_def
  proof (cases v)
    case (ValBitString sz buf)
    show "MmsValue_encodeMmsData v c = puts (tlv (data_tag v) (data_content v)) c"
      using encodeBitString_puts leaf(1) unfolding ValBitString by simp
  next
    case (ValFloat ew fw buf)
    show "MmsValue_encodeMmsData v c = puts (tlv (data_tag v) (data_content v)) c"
      using encodeFloat_tlv [of ew fw buf] leaf(1) unfolding ValFloat by simp
  qed (use leaf length_data_content [OF leaf(3)] in \<open>auto simp: leaf_puts encodeError_tlv split: option.splits\<close>)
qed

section \<open>The decoder reads the reference encoding\<close>

lemma be_uint_inject: "length xs = length ys \<Longrightarrow> be_uint xs = be_uint ys \<Longrightarrow> xs = ys"
proof (induction xs ys rule: list_induct2)
  case (Cons x xs y ys)
  have "uint x = be_uint (x # xs) div 256 ^ length xs" "uint y = be_uint (y # ys) div 256 ^ length xs"
    using be_uint_less [of xs] be_uint_less [of ys] be_uint_nonneg [of xs] be_uint_nonneg [of ys] Cons.hyps
    by (simp_all add: be_uint_Cons)
  then have "uint x = uint y" using Cons.prems by simp
  moreover from this have "be_uint xs = be_uint ys" using Cons.prems Cons.hyps by (simp add: be_uint_Cons)
  ultimately show ?case using Cons.IH by (simp add: word_uint_eq_iff)
qed simp

lemma le_bytes_be_uint:
  assumes "length bs = n" "8 * n = LENGTH('a::len)"
  shows "le_bytes n (word_of_int (be_uint (rev bs)) :: 'a word) = bs"
proof -
  have p: "(256 :: int) ^ n = 2 ^ LENGTH('a)" using assms(2) power_mult [of "2 :: int" 8 n] by simp
  have "be_uint (rev bs) < 2 ^ LENGTH('a)" using be_uint_less [of "rev bs"] assms(1) by (simp add: p)
  then have "uint (word_of_int (be_uint (rev bs)) :: 'a word) = be_uint (rev bs)"
    using be_uint_nonneg [of "rev bs"] by (subst uint_word_of_int) simp
  then have "be_uint (rev (le_bytes n (word_of_int (be_uint (rev bs)) :: 'a word))) = be_uint (rev bs)"
    using be_uint_less [of "rev bs"] be_uint_nonneg [of "rev bs"] assms(1) by (simp add: be_uint_le_bytes)
  then show ?thesis using be_uint_inject [of "rev (le_bytes n (word_of_int (be_uint (rev bs)) :: 'a word))" "rev bs"]
    assms(1) by (simp add: length_le_bytes)
qed

lemma at_holds: "holds buf p bs \<Longrightarrow> at buf (int p) = Some (bs @ drop (length bs) (drop p buf))"
  by (simp add: at_def holds_def) (metis append_take_drop_id drop_drop add.commute)

lemma sint_word_of_int_id: "- (2 ^ 31) \<le> e \<Longrightarrow> e < 2 ^ 31 \<Longrightarrow> sint (word_of_int e :: u32) = e"
  by (simp add: sint_sbintrunc' signed_take_bit_int_eq_self)

lemma decode_integer_eq:
  assumes "ber_integer_ok v" "asn1_size v \<le> 9" "holds buf p (ber_content v)"
  obtains w where "decode_integer buf (int p) (int (asn1_size v)) = Some w" "ber_integer_ok w"
    "ber_content w = ber_content v"
proof -
  let ?n = "asn1_size v"
  define a where "a = (if ?n \<le> 4 then BerInteger_createInt32 else BerInteger_createInt64)"
  have wrap: "wrap32 (int ?n * 8) = int ?n * 8" using assms(2) by (intro wrap32_id) auto
  have c: "wrap32 (int ?n * 8) \<le> 32 \<longleftrightarrow> ?n \<le> 4" unfolding wrap by linarith
  have a: "length (asn1_octets a) = asn1_maxSize a" "?n \<le> asn1_maxSize a"
    using assms(2) by (simp_all add: a_def BerInteger_createInt32_def BerInteger_createInt64_def
        Asn1PrimitiveValue_create_def)
  let ?rest = "drop ?n (drop p buf)"
  have src: "at buf (int p) = Some (ber_content v @ ?rest)" and len: "length (ber_content v) = ?n"
    using at_holds [OF assms(3)] length_ber_content [OF assms(1)] by simp_all
  let ?w = "a\<lparr>asn1_octets := ber_content v @ drop ?n (asn1_octets a), asn1_size := ?n\<rparr>"
  have "decode_integer buf (int p) (int ?n) = Some ?w"
    unfolding decode_integer_def Let_def c a_def [symmetric] src
    using a len assms(2) by (simp add: memcpy_eq)
  moreover have "ber_integer_ok ?w" "ber_content ?w = ber_content v"
    using a len assms(1) by (simp_all add: ber_integer_ok_def ber_content_def)
  ultimately show thesis by (rule that)
qed

lemma decode_error_eq:
  assumes "holds buf p bs" "bs = strip (0 # rev (le_bytes 4 (word_of_int e :: u32)))" "- (2 ^ 31) \<le> e" "e < 2 ^ 31"
  shows "decode_leaf 0x80 buf (int p) (int (length bs)) = Some (Some (ValDataAccessError e))"
proof -
  let ?w = "word_of_int e :: u32"
  have "uint ?w mod 256 ^ 4 = uint ?w" using uint_lt2p [of ?w] by simp
  then have "be_sint bs = uint ?w" unfolding assms(2)
    by (simp add: be_sint_strip be_sint_Cons be_uint_le_bytes)
  then have "be_uint bs = uint ?w" using be_sint_nonneg [of bs] by simp
  then have "BerDecoder_decodeUint32 (bs @ drop (length bs) (drop p buf)) (length bs) 0 = Some ?w"
    using decodeUint32_value [of 0 "length bs" "bs @ drop (length bs) (drop p buf)"] by simp
  then show ?thesis using at_holds [OF assms(1)] sint_word_of_int_id [OF assms(3,4)]
    by (simp add: decode_leaf_def)
qed


lemma decode_bits_eq:
  assumes "wire_ok (ValBitString sz bs)" "holds buf p (of_nat (8 * length bs - sz) # bs)"
  shows "decode_leaf 0x84 buf (int p) (int (length bs + 1)) = Some (Some (ValBitString sz bs))"
proof -
  have n: "bitStringByteSize sz = length bs" using assms(1) by simp
  define k where "k = 8 * length bs - sz"
  have b: "8 * length bs = sz + k" "k < 8"
    using bit_bytes(2,3) [of sz] unfolding k_def n by simp_all
  have h: "p < length buf" "buf ! p = of_nat k" "holds buf (Suc p) bs"
    using assms(2) unfolding k_def by (simp_all only: holds_Cons)
  have pad: "uint (of_nat k :: u8) = int k"
    using b(2) by (simp add: uint_nat unat_of_nat)
  have r: "rdi buf (int p) = Some (of_nat k)" using h by (simp add: rdi_def rd_def)
  have src: "at buf (int p + 1) = Some (bs @ drop (length bs) (drop (Suc p) buf))"
    using at_holds [OF h(3)] by (simp add: add.commute)
  have m: "8 * (int (length bs + 1) - 1) - int k = int sz" using b(1) by simp
  have c: "\<not> int (length bs + 1) < 1" "nat (int (length bs + 1) - 1) = length bs" by simp_all
  have cpy: "memcpy (replicate (length bs) 0) (bs @ drop (length bs) (drop (Suc p) buf)) (length bs) = Some bs"
    by (simp add: memcpy_eq)
  show ?thesis unfolding decode_leaf_def r bind.simps Let_def pad m src c abs_of_nat nat_int n cpy
    using c(1) by simp
qed

lemma decode_float_eq:
  assumes "holds buf p (ew # rev bs)" "length bs = 4"
  shows "decode_leaf 0x87 buf (int p) 5 = Some (Some (MmsValue_newFloat (word_of_int (be_uint (rev bs)))))"
proof -
  have "read_reversed (ew # rev bs @ rest) 1 4 (replicate 4 0) = Some bs" for rest
    using read_reversed_eq [of 1 4 "ew # rev bs @ rest" "replicate 4 0" "[]"] assms(2)
    by (simp del: read_reversed.simps)
  then show ?thesis using at_holds [OF assms(1)] assms(2)
    by (simp add: decode_leaf_def BerDecoder_decodeFloat_def del: read_reversed.simps)
qed

lemma decode_double_eq:
  assumes "holds buf p (ew # rev bs)" "length bs = 8"
  shows "decode_leaf 0x87 buf (int p) 9 = Some (Some (MmsValue_newDouble (word_of_int (be_uint (rev bs)))))"
proof -
  have "read_reversed (ew # rev bs @ rest) 1 8 (replicate 8 0) = Some bs" for rest
    using read_reversed_eq [of 1 8 "ew # rev bs @ rest" "replicate 8 0" "[]"] assms(2)
    by (simp del: read_reversed.simps)
  then show ?thesis using at_holds [OF assms(1)] assms(2)
    by (simp add: decode_leaf_def BerDecoder_decodeDouble_def del: read_reversed.simps)
qed

lemma decode_string_eq:
  assumes "holds buf p s" "0 \<notin> set s" "length s < 32768"
  shows "decode_leaf 0x8a buf (int p) (int (length s)) = Some (Some (ValVisibleString (int (length s)) (Some s)))"
proof -
  have "takeWhile (\<lambda>b. b \<noteq> 0) s = s" using assms(2) by (simp add: takeWhile_eq_all_conv) blast
  moreover have "wrap16 (int (length s)) = int (length s)" using assms(3) by (intro wrap16_id) auto
  ultimately show ?thesis using at_holds [OF assms(1)]
    by (simp add: decode_leaf_def MmsValue_newStringFromByteArray_def memcpy_eq string_value_def)
qed

lemma decode_octets_eq:
  assumes "holds buf p bs" "length bs < 65536"
  shows "decode_leaf 0x89 buf (int p) (int (length bs)) =
    Some (Some (ValOctetString (length bs) (length bs) bs))"
  using at_holds [OF assms(1)] assms(2) by (simp add: decode_leaf_def memcpy_eq)

lemma decode_binary_time_eq:
  assumes "holds buf p bs" "length bs = 4 \<or> length bs = 6"
  shows "decode_leaf 0x8c buf (int p) (int (length bs)) =
    Some (Some (ValBinaryTime (length bs) (bs @ replicate (6 - length bs) 0)))"
  using at_holds [OF assms(1)] assms(2) by (auto simp: decode_leaf_def memcpy_eq)

lemma decode_utc_eq:
  assumes "holds buf p bs" "length bs = 8"
  shows "decode_leaf 0x91 buf (int p) 8 = Some (Some (ValUtcTime bs))"
  using at_holds [OF assms(1)] assms(2)
  by (simp add: decode_leaf_def memcpy_eq MmsValue_newUtcTime_def store_seconds_def length_le_bytes)

lemma decode_boolean_eq:
  assumes "holds buf p [if b then 0xff else 0]"
  shows "decode_leaf 0x83 buf (int p) 1 = Some (Some (MmsValue_newBoolean b))"
  using at_holds [OF assms] by (simp add: decode_leaf_def BerDecoder_decodeBoolean_def rd_def)

lemma decode_leaf_eq:
  assumes "wire_ok v" "components v = None" "holds buf p (data_content v)" "length (data_content v) < 65535"
  shows "\<exists>w. decode_leaf (data_tag v) buf (int p) (int (length (data_content v))) = Some (Some w) \<and>
    MmsValue_equals v w = Some True"
proof (cases v)
  case (ValBoolean b)
  then show ?thesis using decode_boolean_eq [of buf p b] assms(3)
    by (simp add: MmsValue_equals.simps MmsValue_newBoolean_def)
next
  case (ValBitString sz bs)
  then show ?thesis using decode_bits_eq [of sz bs buf p] assms(1,3)
    by (auto simp: MmsValue_equals.simps memcmp_eq_refl add.commute)
next
  case (ValInteger i)
  then obtain w where w: "decode_integer buf (int p) (int (asn1_size i)) = Some w" "ber_integer_ok w"
    "ber_content w = ber_content i" using decode_integer_eq [of i buf p] assms(1,3) by auto
  then show ?thesis using assms(1) ValInteger
    by (simp add: decode_leaf_def MmsValue_equals.simps compare_iff length_ber_content)
next
  case (ValUnsigned i)
  then obtain w where w: "decode_integer buf (int p) (int (asn1_size i)) = Some w" "ber_integer_ok w"
    "ber_content w = ber_content i" using decode_integer_eq [of i buf p] assms(1,3) by auto
  then show ?thesis using assms(1) ValUnsigned
    by (simp add: decode_leaf_def MmsValue_equals.simps compare_iff length_ber_content)
next
  case (ValFloat ew fw bs)
  then consider "fw = 32" "length bs = 4" | "fw = 64" "length bs = 8" using assms(1) by auto
  then show ?thesis
  proof cases
    case 1
    then show ?thesis using ValFloat decode_float_eq [of buf p "of_nat ew" bs] le_bytes_be_uint [of bs 4, where 'a = 32] assms(3)
      by (simp add: MmsValue_equals.simps MmsValue_newFloat_def memcmp_eq_take)
  next
    case 2
    then show ?thesis using ValFloat decode_double_eq [of buf p "of_nat ew" bs] le_bytes_be_uint [of bs 8, where 'a = 64] assms(3)
      by (simp add: MmsValue_equals.simps MmsValue_newDouble_def memcmp_eq_take)
  qed
next
  case (ValOctetString sz m bs)
  then show ?thesis using decode_octets_eq [of buf p "take sz bs"] assms
    by (simp add: MmsValue_equals.simps memcmp_eq_take)
next
  case (ValVisibleString sz s)
  then show ?thesis using decode_string_eq [of buf p "data_content v"] assms
    by (auto simp: MmsValue_equals.simps split: option.splits)
next
  case (ValUtcTime bs)
  then show ?thesis using decode_utc_eq [of buf p bs] assms
    by (simp add: MmsValue_equals.simps memcmp_eq_take)
next
  case (ValBinaryTime sz bs)
  then show ?thesis using decode_binary_time_eq [of buf p "take sz bs"] assms
    by (auto simp: MmsValue_equals.simps memcmp_eq_take)
next
  case (ValDataAccessError e)
  then show ?thesis using decode_error_eq [of buf p "data_content v" e] assms
    by (simp add: MmsValue_equals.simps)
qed (use assms in auto)

lemma holds_tlv:
  assumes "holds buf p (tlv tag bs)" "length bs < 65535" "int (p + length (tlv tag bs)) \<le> m" "m < 2 ^ 31"
  defines "q \<equiv> p + length (tlv tag bs) - length bs"
  shows "rdi buf (int p) = Some tag"
    "decode_length buf l0 (wrap32 (int p + 1)) m = Ret (int q, int (length bs))"
    "holds buf q bs" "q + length bs = p + length (tlv tag bs)" "p < q"
proof -
  let ?lb = "ber_length_bytes (of_nat (length bs))"
  have h: "p < length buf" "buf ! p = tag" "holds buf (Suc p) ?lb" "holds buf (Suc p + length ?lb) bs"
    using assms(1) by (simp_all add: tlv_def holds_Cons holds_append)
  have q: "q = Suc p + length ?lb" by (simp add: q_def tlv_def)
  have u: "uint (of_nat (length bs) :: u32) = int (length bs)"
    using assms(2) by (simp add: uint_nat unat_of_nat)
  show "rdi buf (int p) = Some tag" using h by (simp add: rdi_def rd_def)
  have w: "wrap32 (int p + 1) = int (Suc p)"
    using assms(3,4) by (subst wrap32_id) (simp_all add: tlv_def)
  show "decode_length buf l0 (wrap32 (int p + 1)) m = Ret (int q, int (length bs))"
    using holds_length [OF h(3)] assms(2-4) unfolding w q u by (simp add: tlv_def)
  show "holds buf q bs" using h(4) by (simp add: q)
  show "q + length bs = p + length (tlv tag bs)" "p < q" by (simp_all add: q tlv_def)
qed

text \<open>The elements of a structured value, one after the other.\<close>

lemma data_tag_element: "wire_ok v \<Longrightarrow> data_tag v \<in> set element_tags"
  by (cases v) (simp_all add: element_tags_def)

lemma getNumberOfElements_eq:
  assumes "\<forall>v \<in> set vs. wire_ok v \<and> length (data_content v) < 65535"
    "holds buf p (concat (map data_bytes vs))" "e = int (p + length (concat (map data_bytes vs)))" "e < 2 ^ 31"
    "length (concat (map data_bytes vs)) \<le> fuel"
  shows "getNumberOfElements fuel buf idx (int p) l0 e = Ret (idx + int (length vs))"
  using assms
proof (induction vs arbitrary: p fuel idx l0)
  case Nil
  then show ?case by (simp add: getNumberOfElements.simps)
next
  case (Cons v vs)
  let ?n = "length (data_bytes v)"
  have h: "holds buf p (tlv (data_tag v) (data_content v))" "holds buf (p + ?n) (concat (map data_bytes vs))"
    using Cons.prems(2) by (simp_all add: holds_append data_bytes_def [of v])
  have n: "0 < ?n" by (simp add: data_bytes_def tlv_def)
  obtain f where f: "fuel = Suc f" using Cons.prems(5) n by (cases fuel) auto
  have le: "int (p + length (tlv (data_tag v) (data_content v))) \<le> e"
    using Cons.prems(3) by (simp add: data_bytes_def)
  note t = holds_tlv [OF h(1) _ le Cons.prems(4)]
  define q where "q = p + length (tlv (data_tag v) (data_content v)) - length (data_content v)"
  have q: "q + length (data_content v) = p + ?n" using t(4) Cons.prems(1) by (simp add: q_def data_bytes_def)
  have w: "wrap32 (int q + int (length (data_content v))) = int (p + ?n)"
    using Cons.prems(3,4) arg_cong [OF q, of int] by (subst wrap32_id) simp_all
  have ih: "getNumberOfElements f buf (idx + 1) (int (p + ?n)) l0 e = Ret (idx + 1 + int (length vs))" for l0
    using Cons.prems h(2) n f by (intro Cons.IH; simp; linarith)
  have lt: "int p < e" using Cons.prems(3) n unfolding list.map concat.simps length_append by linarith
  have ok: "length (data_content v) < 65535" "data_tag v \<in> set element_tags"
    using Cons.prems(1) data_tag_element [of v] by simp_all
  show ?case
    unfolding f getNumberOfElements.simps [of "Suc f"] nat.case if_P [OF lt] t(1) [OF ok(1)] t(2) [OF ok(1)]
      option.case outcome.case prod.case q_def [symmetric] w if_P [OF ok(2)] ih
    using Cons.prems(3) by simp
qed

lemma decode_elements_eq:
  assumes "\<And>v p. v \<in> set vs \<Longrightarrow> holds buf p (data_bytes v) \<Longrightarrow>
      \<exists>w. MmsValue_decodeMmsData fuel g buf (int p) dataLength = Ret (Some (w, int (p + length (data_bytes v)))) \<and>
        MmsValue_equals v w = Some True"
    "\<forall>v \<in> set vs. length (data_content v) < 65535"
    "holds buf p (concat (map data_bytes vs))" "int (p + length (concat (map data_bytes vs))) \<le> e" "e < 2 ^ 31"
  shows "\<exists>ws. decode_elements fuel g buf (length vs) (int p) dataLength e =
      Ret (Some (map Some ws, int (p + length (concat (map data_bytes vs))))) \<and> length ws = length vs \<and>
      equal_components (map Some vs) (map Some ws) = Some True"
  using assms
proof (induction vs arbitrary: p)
  case (Cons v vs)
  let ?n = "length (data_bytes v)"
  have h: "holds buf p (tlv (data_tag v) (data_content v))" "holds buf (p + ?n) (concat (map data_bytes vs))"
    using Cons.prems(3) by (simp_all add: holds_append data_bytes_def [of v])
  have le: "int (p + length (tlv (data_tag v) (data_content v))) \<le> e"
    using Cons.prems(4) by (simp add: data_bytes_def)
  note t = holds_tlv [OF h(1) _ le Cons.prems(5)]
  define q where "q = p + length (tlv (data_tag v) (data_content v)) - length (data_content v)"
  have ok: "length (data_content v) < 65535" using Cons.prems(2) by simp
  have q: "q + length (data_content v) = p + ?n" using t(4) [OF ok] by (simp add: q_def data_bytes_def)
  have w: "wrap32 (int q + int (length (data_content v))) = int (p + ?n)"
    using Cons.prems(4,5) arg_cong [OF q, of int] by (subst wrap32_id) simp_all
  obtain w where v: "MmsValue_decodeMmsData fuel g buf (int p) dataLength = Ret (Some (w, int (p + ?n)))"
    "MmsValue_equals v w = Some True" using Cons.prems(1) [of v p] h(1) by (auto simp: data_bytes_def)
  have "\<exists>ws. decode_elements fuel g buf (length vs) (int (p + ?n)) dataLength e =
      Ret (Some (map Some ws, int (p + ?n + length (concat (map data_bytes vs))))) \<and> length ws = length vs \<and>
      equal_components (map Some vs) (map Some ws) = Some True"
    using Cons.prems h(2) by (intro Cons.IH) (simp_all add: add.assoc)
  then obtain ws where ws: "decode_elements fuel g buf (length vs) (int (p + ?n)) dataLength e =
      Ret (Some (map Some ws, int (p + ?n + length (concat (map data_bytes vs)))))" "length ws = length vs"
      "equal_components (map Some vs) (map Some ws) = Some True" by blast
  have ne: "int q \<noteq> - 1" by simp
  have "decode_elements fuel g buf (length (v # vs)) (int p) dataLength e =
      Ret (Some (map Some (w # ws), int (p + length (concat (map data_bytes (v # vs))))))"
    unfolding list.size add_Suc_right add_0_right decode_elements.simps t(2) [OF ok] outcome.case prod.case
      q_def [symmetric] if_not_P [OF ne] v(1) option.case w ws(1) by (simp add: add.assoc)
  then show ?case using ws v(2) by (intro exI [of _ "w # ws"]) simp
qed simp


definition structured :: "u8 \<Rightarrow> MmsValue option list \<Rightarrow> MmsValue" where
  "structured tag = (if tag = 0xa1 then ValArray else ValStructure)"

text \<open>What the decoder does with the contents behind a header it accepts, ending at \<open>e\<close>.\<close>

definition content_result ::
    "nat \<Rightarrow> (int \<Rightarrow> int) \<Rightarrow> u8 list \<Rightarrow> u8 \<Rightarrow> int \<Rightarrow> int \<Rightarrow> int \<Rightarrow> int \<Rightarrow> ((MmsValue \<times> int) option) outcome" where
  "content_result f g buf tag q n e dend =
     (if tag = 0xa1 \<or> tag = 0xa2 then
        (case getNumberOfElements f buf 0 q n e of
           OOB \<Rightarrow> OOB
         | NoFuel \<Rightarrow> NoFuel
         | Ret elementCount \<Rightarrow>
             if elementCount < 0 then Ret None
             else
               (case decode_elements f g buf (nat elementCount) q n dend of
                  Ret (Some (vs, p)) \<Rightarrow> Ret (Some (structured tag vs, p))
                | Ret None \<Rightarrow> Ret None
                | OOB \<Rightarrow> OOB
                | NoFuel \<Rightarrow> NoFuel))
      else
        (case decode_leaf tag buf q n of
           None \<Rightarrow> OOB
         | Some None \<Rightarrow> Ret None
         | Some (Some v) \<Rightarrow> Ret (Some (v, e))))"

lemma decode_header:
  assumes "holds buf p (data_bytes v)" "length (data_content v) < 65535"
    "int (length (data_bytes v)) \<le> bl" "int p + bl < 2 ^ 31"
  obtains q where "holds buf q (data_content v)" "q + length (data_content v) = p + length (data_bytes v)"
    "MmsValue_decodeMmsData (Suc f) g buf (int p) bl =
       content_result f g buf (data_tag v) (int q) (int (length (data_content v)))
         (int (p + length (data_bytes v))) (int p + bl)"
proof -
  have h: "holds buf p (tlv (data_tag v) (data_content v))" using assms(1) by (simp add: data_bytes_def)
  have le: "int (p + length (tlv (data_tag v) (data_content v))) \<le> int p + bl"
    using assms(3) by (simp add: data_bytes_def)
  note t = holds_tlv [OF h assms(2) le assms(4)]
  define q where "q = p + length (tlv (data_tag v) (data_content v)) - length (data_content v)"
  have q: "q + length (data_content v) = p + length (data_bytes v)" using t(4) by (simp add: q_def data_bytes_def)
  have w1: "wrap32 (int p + bl) = int p + bl" using assms(3,4) by (intro wrap32_id) simp_all
  have w2: "wrap32 (int q + int (length (data_content v))) = int (p + length (data_bytes v))"
    using assms(3,4) arg_cong [OF q, of int] by (subst wrap32_id) simp_all
  have n: "\<not> int (p + length (data_bytes v)) > int p + bl" using assms(3) by simp
  show thesis
  proof (rule that [of q])
    show "holds buf q (data_content v)" using t(3) by (simp add: q_def)
    show "q + length (data_content v) = p + length (data_bytes v)" by (rule q)
  next
    show "MmsValue_decodeMmsData (Suc f) g buf (int p) bl =
       content_result f g buf (data_tag v) (int q) (int (length (data_content v)))
         (int (p + length (data_bytes v))) (int p + bl)"
      unfolding MmsValue_decodeMmsData.simps Let_def w1 nat.case t(1) t(2) option.case outcome.case prod.case
        q_def [symmetric] w2 if_not_P [OF n] structured_def content_result_def
      by (auto split: outcome.splits option.splits)
  qed
qed

lemma decode_structured:
  assumes vs: "\<And>v. v \<in> set vs \<Longrightarrow> wire_ok v \<and> (\<forall>p fuel bl. holds buf p (data_bytes v) \<longrightarrow>
      length (data_bytes v) \<le> fuel \<longrightarrow> int (length (data_bytes v)) \<le> bl \<longrightarrow> int p + bl < 2 ^ 31 \<longrightarrow>
      (\<exists>w. MmsValue_decodeMmsData fuel g buf (int p) bl = Ret (Some (w, int (p + length (data_bytes v)))) \<and>
        MmsValue_equals v w = Some True))"
    and v: "v = structured tag (map Some vs)" "tag = 0xa1 \<or> tag = 0xa2"
    and len: "int (length buf) + 65535 < 2 ^ 31" "length (data_bytes v) < 65535"
    and "holds buf p (data_bytes v)" "length (data_bytes v) \<le> fuel"
      "int (length (data_bytes v)) \<le> bl" "int p + bl < 2 ^ 31"
  shows "\<exists>w. MmsValue_decodeMmsData fuel g buf (int p) bl = Ret (Some (w, int (p + length (data_bytes v)))) \<and>
        MmsValue_equals v w = Some True"
proof -
  let ?c = "concat (map data_bytes vs)"
  have c: "data_content v = ?c" and tag: "data_tag v = tag"
    using v components_content [of vs] by (auto simp: structured_def)
  have lc: "length ?c < length (data_bytes v)" using content_shorter [of v] c by simp
  have el: "length (data_bytes u) \<le> length ?c" if "u \<in> set vs" for u using component_shorter [OF that] .
  have el2: "length (data_content u) < 65535" if "u \<in> set vs" for u
    using el [OF that] content_shorter [of u] lc len(2) by linarith
  obtain f where f: "fuel = Suc f" using assms(7) lc by (cases fuel) auto
  obtain q where q: "holds buf q (data_content v)" "q + length (data_content v) = p + length (data_bytes v)"
    and eq: "MmsValue_decodeMmsData fuel g buf (int p) bl =
       content_result f g buf (data_tag v) (int q) (int (length (data_content v)))
         (int (p + length (data_bytes v))) (int p + bl)"
    using decode_header [OF assms(6) _ assms(8,9), of f g] lc len(2) f c by auto
  have hq: "holds buf q ?c" "q + length ?c = p + length (data_bytes v)" using q c by simp_all
  have count: "getNumberOfElements f buf 0 (int q) (int (length ?c)) (int (p + length (data_bytes v))) =
      Ret (0 + int (length vs))"
    using hq vs el2 assms(6-9) lc f by (intro getNumberOfElements_eq) simp_all
  have ws: "\<exists>ws. decode_elements f g buf (length vs) (int q) (int (length ?c)) (int p + bl) =
      Ret (Some (map Some ws, int (q + length ?c))) \<and> length ws = length vs \<and>
      equal_components (map Some vs) (map Some ws) = Some True"
  proof (rule decode_elements_eq)
    fix u p'
    assume u: "u \<in> set vs" "holds buf p' (data_bytes u)"
    have "p' \<le> length buf" using u(2) by (simp add: holds_def)
    then have "int p' + int (length ?c) < 2 ^ 31" using lc len by linarith
    moreover have "length (data_bytes u) \<le> f" using el [OF u(1)] lc assms(7) f by linarith
    ultimately show "\<exists>w. MmsValue_decodeMmsData f g buf (int p') (int (length ?c)) =
        Ret (Some (w, int (p' + length (data_bytes u)))) \<and> MmsValue_equals u w = Some True"
      using vs [OF u(1)] u(2) el [OF u(1)] by (simp only: of_nat_le_iff)
  qed (use el2 hq assms(8,9) in simp_all)
  then obtain ws where ws: "decode_elements f g buf (length vs) (int q) (int (length ?c)) (int p + bl) =
      Ret (Some (map Some ws, int (q + length ?c)))" "length ws = length vs"
      "equal_components (map Some vs) (map Some ws) = Some True" by blast
  have "MmsValue_decodeMmsData fuel g buf (int p) bl =
      Ret (Some (structured tag (map Some ws), int (p + length (data_bytes v))))"
    unfolding eq tag c content_result_def count using ws(1) v(2) hq(2) by simp
  moreover have "MmsValue_equals v (structured tag (map Some ws)) = Some True"
    using ws v(1) by (simp add: MmsValue_equals.simps structured_def)
  ultimately show ?thesis by blast
qed

lemma decodeMmsData_eq:
  assumes "wire_ok v" "int (length buf) + 65535 < 2 ^ 31" "length (data_bytes v) < 65535"
    "holds buf p (data_bytes v)" "length (data_bytes v) \<le> fuel"
    "int (length (data_bytes v)) \<le> bl" "int p + bl < 2 ^ 31"
  shows "\<exists>w. MmsValue_decodeMmsData fuel g buf (int p) bl = Ret (Some (w, int (p + length (data_bytes v)))) \<and>
    MmsValue_equals v w = Some True"
  using assms(1,3-7)
proof (induction v arbitrary: p fuel bl rule: wire_induct)
  case (arr vs)
  note short = components_short [OF arr.prems(1) components_content(1)]
  show ?case
    by (rule decode_structured [where vs = vs and tag = "0xa1"]) (use arr short assms(2) in \<open>auto simp: structured_def\<close>)
next
  case (struct vs)
  note short = components_short [OF struct.prems(1) components_content(2)]
  show ?case
    by (rule decode_structured [where vs = vs and tag = "0xa2"]) (use struct short assms(2) in \<open>auto simp: structured_def\<close>)
next
  case (leaf v)
  obtain f where f: "fuel = Suc f" using leaf.prems(3) content_shorter [of v] by (cases fuel) auto
  have lc: "length (data_content v) < 65535" using content_shorter [of v] leaf.prems(1) by simp
  have tag: "\<not> (data_tag v = 0xa1 \<or> data_tag v = 0xa2)" using leaf.hyps by (cases v) auto
  show ?case
  proof (rule decode_header [OF leaf.prems(2) lc leaf.prems(4,5), of f g])
    fix q
    assume q: "holds buf q (data_content v)"
    assume eq: "MmsValue_decodeMmsData (Suc f) g buf (int p) bl = content_result f g buf (data_tag v) (int q) (int (length (data_content v)))
         (int (p + length (data_bytes v))) (int p + bl)"
    show ?thesis using decode_leaf_eq [OF leaf.hyps q lc] unfolding f eq content_result_def if_not_P [OF tag] by auto
  qed
qed

section \<open>The round trip, and what breaks the decoder\<close>


definition report_value :: MmsValue where
  "report_value = ValStructure [Some (ValVisibleString 2 (Some [84, 83])), Some (ValBitString 5 [0xb8]),
     Some (ValArray [Some (ValFloat 8 32 [0, 0, 128, 63]), Some (ValBoolean True)])]"


text \<open>A structure whose last element has a tag and no length.\<close>

definition endless_message :: "u8 list" where
  "endless_message = [0xa2, 6, 0x83, 3, 0, 0, 0, 0x83]"

lemma endless_facts:
  "rdi endless_message 0 = Some 0xa2" "rdi endless_message 2 = Some 0x83" "rdi endless_message 7 = Some 0x83"
  "decode_length endless_message 6 3 8 = Ret (4, 3)"
  "decode_length endless_message 3 3 8 = Ret (4, 3)"
  "decode_length endless_message 3 8 8 = Ret (- 1, 3)"
  "wrap32 1 = 1" "wrap32 2 = 2" "wrap32 3 = 3" "wrap32 7 = 7" "wrap32 8 = 8" "(0x83 :: u8) \<in> set element_tags"
  by code_simp+

lemma endless_header: "decode_length endless_message l0 1 8 = Ret (2, 6)"
  using holds_length [of endless_message 1 6 8 l0] by (simp add: holds_def ber_length_bytes_def endless_message_def)

lemma endless_round:
  "getNumberOfElements (Suc (Suc fuel)) endless_message i 2 3 8 = getNumberOfElements fuel endless_message (i + 1 + 1) 2 3 8"
  "getNumberOfElements (Suc 0) endless_message i 2 3 8 = NoFuel"
proof -
  show "getNumberOfElements (Suc (Suc fuel)) endless_message i 2 3 8 =
      getNumberOfElements fuel endless_message (i + 1 + 1) 2 3 8"
    by (subst getNumberOfElements.simps, simp add: endless_facts,
        subst getNumberOfElements.simps, simp add: endless_facts)
  show "getNumberOfElements (Suc 0) endless_message i 2 3 8 = NoFuel"
    by (simp add: getNumberOfElements.simps endless_facts)
qed

lemma endless_count: "getNumberOfElements fuel endless_message i 2 3 8 = NoFuel"
  by (induction fuel arbitrary: i rule: induct_nat_012)
    (simp_all add: endless_round getNumberOfElements.simps [of 0])

lemma endless_count_first: "getNumberOfElements fuel endless_message i 2 6 8 = NoFuel"
proof (cases fuel)
  case (Suc f)
  have "getNumberOfElements f endless_message (i + 1) 7 3 8 = NoFuel"
    using endless_count [of _ "i + 1 + 1"]
    by (subst getNumberOfElements.simps) (simp add: endless_facts split: nat.split)
  then show ?thesis unfolding Suc by (subst getNumberOfElements.simps) (simp add: endless_facts)
qed (simp add: getNumberOfElements.simps)

lemma endless_decode: "MmsValue_decodeMmsData fuel g endless_message 0 8 = NoFuel"
  by (subst MmsValue_decodeMmsData.simps)
    (simp add: endless_facts endless_header endless_count_first split: nat.split)


end
