(* ===== verification/PointValue.thy ===== *)
theory PointValue
  imports ControlPoint
begin

text \<open>
  Point values (\<^verbatim>\<open>tase2_common/tase2_point_value.c\<close>): an MMS value with the type of the point it is
  the value of. A structured value holds value, time stamp, flags and change counter at positions
  that depend on the type; a state keeps its value and flags in one bit string.

  \<open>None\<close> is the use of a null pointer, mostly of an element that does not exist. The C functions
  come in two versions that differ in the log messages and the error code only: the version
  without the error code is the first component of the version with it. Floats are bit patterns;
  the conversions between the two formats are parameters.
\<close>

section \<open>Data\<close>

datatype Tase2_PointValueType =
  TASE2_VALUE_TYPE_STATE | TASE2_VALUE_TYPE_STATE_SUPPLEMENTAL | TASE2_VALUE_TYPE_DISCRETE
  | TASE2_VALUE_TYPE_REAL | TASE2_VALUE_TYPE_SINGLE_EVENT | TASE2_VALUE_TYPE_PACKED_EVENT
  | TASE2_VALUE_TYPE_ERROR | TASE2_VALUE_TYPE_UNKNOWN | TASE2_VALUE_TYPE_STATE_OR_STATE_SUPPLEMENTAL
  | TASE2_VALUE_TYPE_STATE_OR_DISCRETE

datatype Tase2_PointValueError = TASE2_POINT_VALUE_ERROR_OK | TASE2_POINT_VALUE_ERROR_WRONG_TYPE

datatype Tase2_TimeStampClass = TASE2_NO_TIMESTAMP | TASE2_TIMESTAMP | TASE2_TIMESTAMP_EXTENDED

datatype Tase2_ClientError =
  TASE2_CLIENT_ERROR_OK | TASE2_CLIENT_ERROR_FAILED | TASE2_CLIENT_ERROR_TIMEOUT
  | TASE2_CLIENT_ERROR_ACCESS_DENIED | TASE2_CLIENT_ERROR_TEMPORARILY_UNAVAILABLE
  | TASE2_CLIENT_ERROR_INVALID_ARGUMENT | TASE2_CLIENT_ERROR_INVALID_RETURN_VALUE
  | TASE2_CLIENT_ERROR_OTHER | TASE2_CLIENT_ERROR_OBJECT_NOT_EXISTING | TASE2_CLIENT_ERROR_OBJECT_EXISTS

record PointValue =
  pv_type :: Tase2_PointValueType
  pv_value :: MmsValue

record float_formats =
  fmt_to_float :: "u64 \<Rightarrow> u32"
  fmt_to_double :: "u32 \<Rightarrow> u64"

definition NAN :: u32 where "NAN = 0x7fc00000"

text \<open>\<open>MmsValue_getType\<close> of a pointer.\<close>

definition type_of :: "MmsValue option \<Rightarrow> MmsType option" where
  "type_of ptr = map_option MmsValue_getType ptr"

fun MmsValue_setFloat :: "float_formats \<Rightarrow> MmsValue \<Rightarrow> u32 \<Rightarrow> MmsValue option" where
  "MmsValue_setFloat fmt (ValFloat exponentWidth formatWidth buf) newFloatValue =
     (if formatWidth = 32 then map_option (ValFloat exponentWidth formatWidth) (memcpy buf (le_bytes 4 newFloatValue) 4)
      else if formatWidth = 64
      then map_option (ValFloat exponentWidth formatWidth) (memcpy buf (le_bytes 8 (fmt_to_double fmt newFloatValue)) 8)
      else Some (ValFloat exponentWidth formatWidth buf))"
| "MmsValue_setFloat fmt self newFloatValue = Some self"

text \<open>The union member of another type is not an error code.\<close>

fun MmsValue_getDataAccessError :: "MmsValue \<Rightarrow> MmsDataAccessError option" where
  "MmsValue_getDataAccessError (ValDataAccessError e) = Some e"
| "MmsValue_getDataAccessError _ = None"

section \<open>Construction\<close>

definition Tase2_PointValue_getType :: "PointValue \<Rightarrow> Tase2_PointValueType" where
  "Tase2_PointValue_getType self = pv_type self"

definition Tase2_PointValue_setType :: "PointValue \<Rightarrow> Tase2_PointValueType \<Rightarrow> PointValue" where
  "Tase2_PointValue_setType self type = self\<lparr>pv_type := type\<rparr>"

definition Tase2_PointValue_getCopy :: "PointValue \<Rightarrow> PointValue option" where
  "Tase2_PointValue_getCopy self = do {
     v \<leftarrow> MmsValue_clone (pv_value self);
     Some \<lparr>pv_type = pv_type self, pv_value = v\<rparr> }"

text \<open>A new structure with its elements set one after the other, and a new bit string of flags.\<close>

definition new_structure :: "MmsValue list \<Rightarrow> MmsValue" where
  "new_structure es = foldl (\<lambda>v (i, e). MmsValue_setElement v (int i) (Some e))
     (MmsValue_createEmptyStructure (length es)) (zip [0..<length es] es)"

definition new_flags :: "u8 \<Rightarrow> MmsValue option" where
  "new_flags flags = MmsValue_setBitStringFromInteger (MmsValue_newBitString 8) (ucast flags)"

definition new_cov :: "u16 \<Rightarrow> MmsValue option" where
  "new_cov cov = MmsValue_setUint16 (MmsValue_newUnsigned 16) cov"

definition createTimeTagExtended :: "u64 \<Rightarrow> MmsValue option" where
  "createTimeTagExtended timeTagExtended = do {
     element1 \<leftarrow> MmsValue_newIntegerFromInt32 (ucast (timeTagExtended div 1000));
     element2 \<leftarrow> MmsValue_newIntegerFromInt16 (ucast (timeTagExtended mod 1000));
     Some (new_structure [element1, element2]) }"

definition new_point_value :: "Tase2_PointValueType \<Rightarrow> MmsValue option list \<Rightarrow> PointValue option" where
  "new_point_value type es = do {
     es \<leftarrow> those es;
     Some \<lparr>pv_type = type, pv_value = new_structure es\<rparr> }"

definition Tase2_PointValue_createReal :: "u32 \<Rightarrow> PointValue option" where
  "Tase2_PointValue_createReal value =
     Some \<lparr>pv_type = TASE2_VALUE_TYPE_REAL, pv_value = MmsValue_newFloat value\<rparr>"

definition Tase2_PointValue_createDiscrete :: "u32 \<Rightarrow> PointValue option" where
  "Tase2_PointValue_createDiscrete value = do {
     v \<leftarrow> MmsValue_newIntegerFromInt32 value;
     Some \<lparr>pv_type = TASE2_VALUE_TYPE_DISCRETE, pv_value = v\<rparr> }"

definition Tase2_PointValue_createState :: "u8 \<Rightarrow> PointValue option" where
  "Tase2_PointValue_createState value = do {
     v \<leftarrow> new_flags value;
     Some \<lparr>pv_type = TASE2_VALUE_TYPE_STATE, pv_value = v\<rparr> }"

definition Tase2_PointValue_createStateSupplemental :: "u8 \<Rightarrow> PointValue option" where
  "Tase2_PointValue_createStateSupplemental value = do {
     v \<leftarrow> new_flags value;
     Some \<lparr>pv_type = TASE2_VALUE_TYPE_STATE_SUPPLEMENTAL, pv_value = v\<rparr> }"

definition Tase2_PointValue_createRealQ :: "u32 \<Rightarrow> u8 \<Rightarrow> PointValue option" where
  "Tase2_PointValue_createRealQ value flags =
     new_point_value TASE2_VALUE_TYPE_REAL [Some (MmsValue_newFloat value), new_flags flags]"

definition Tase2_PointValue_createDiscreteQ :: "u32 \<Rightarrow> u8 \<Rightarrow> PointValue option" where
  "Tase2_PointValue_createDiscreteQ value flags =
     new_point_value TASE2_VALUE_TYPE_DISCRETE [MmsValue_newIntegerFromInt32 value, new_flags flags]"

definition Tase2_PointValue_createStateQ :: "u8 \<Rightarrow> u8 \<Rightarrow> PointValue option" where
  "Tase2_PointValue_createStateQ value flags =
     new_point_value TASE2_VALUE_TYPE_STATE_SUPPLEMENTAL [new_flags value, new_flags flags]"

definition Tase2_PointValue_createStateSupplementalQ :: "u8 \<Rightarrow> u8 \<Rightarrow> PointValue option" where
  "Tase2_PointValue_createStateSupplementalQ value flags =
     new_point_value TASE2_VALUE_TYPE_STATE_SUPPLEMENTAL [new_flags value, new_flags flags]"

definition Tase2_PointValue_createRealQTimeTag :: "u32 \<Rightarrow> u8 \<Rightarrow> u32 \<Rightarrow> PointValue option" where
  "Tase2_PointValue_createRealQTimeTag value flags timeTag =
     new_point_value TASE2_VALUE_TYPE_REAL
       [Some (MmsValue_newFloat value), MmsValue_newIntegerFromInt32 timeTag, new_flags flags]"

definition Tase2_PointValue_createStateQTimeTag :: "u8 \<Rightarrow> u32 \<Rightarrow> PointValue option" where
  "Tase2_PointValue_createStateQTimeTag valueAndFlags timeTag =
     new_point_value TASE2_VALUE_TYPE_STATE [MmsValue_newIntegerFromInt32 timeTag, new_flags valueAndFlags]"

definition Tase2_PointValue_createDiscreteQTimeTag :: "u32 \<Rightarrow> u8 \<Rightarrow> u32 \<Rightarrow> PointValue option" where
  "Tase2_PointValue_createDiscreteQTimeTag value flags timeTag =
     new_point_value TASE2_VALUE_TYPE_DISCRETE
       [MmsValue_newIntegerFromInt32 value, MmsValue_newIntegerFromInt32 timeTag, new_flags flags]"

definition Tase2_PointValue_createStateSupplementalQTimeTag :: "u8 \<Rightarrow> u8 \<Rightarrow> u32 \<Rightarrow> PointValue option" where
  "Tase2_PointValue_createStateSupplementalQTimeTag value flags timeTag =
     new_point_value TASE2_VALUE_TYPE_STATE_SUPPLEMENTAL
       [new_flags value, MmsValue_newIntegerFromInt32 timeTag, new_flags flags]"

definition Tase2_PointValue_createRealExtended :: "u32 \<Rightarrow> u8 \<Rightarrow> u32 \<Rightarrow> u16 \<Rightarrow> PointValue option" where
  "Tase2_PointValue_createRealExtended value flags timeTag cov =
     new_point_value TASE2_VALUE_TYPE_REAL
       [Some (MmsValue_newFloat value), MmsValue_newIntegerFromInt32 timeTag, new_flags flags, new_cov cov]"

definition Tase2_PointValue_createStateExtended :: "u8 \<Rightarrow> u32 \<Rightarrow> u16 \<Rightarrow> PointValue option" where
  "Tase2_PointValue_createStateExtended valueAndFlags timeTag cov =
     new_point_value TASE2_VALUE_TYPE_STATE
       [MmsValue_newIntegerFromInt32 timeTag, new_flags valueAndFlags, new_cov cov]"

definition Tase2_PointValue_createDiscreteExtended :: "u32 \<Rightarrow> u8 \<Rightarrow> u32 \<Rightarrow> u16 \<Rightarrow> PointValue option" where
  "Tase2_PointValue_createDiscreteExtended value flags timeTag cov =
     new_point_value TASE2_VALUE_TYPE_DISCRETE
       [MmsValue_newIntegerFromInt32 value, MmsValue_newIntegerFromInt32 timeTag, new_flags flags, new_cov cov]"

definition Tase2_PointValue_createStateSupplementalExtended :: "u8 \<Rightarrow> u8 \<Rightarrow> u32 \<Rightarrow> u16 \<Rightarrow> PointValue option" where
  "Tase2_PointValue_createStateSupplementalExtended value flags timeTag cov =
     new_point_value TASE2_VALUE_TYPE_STATE_SUPPLEMENTAL
       [new_flags value, MmsValue_newIntegerFromInt32 timeTag, new_flags flags, new_cov cov]"

definition Tase2_PointValue_createRealQTimeTagExtended :: "u32 \<Rightarrow> u8 \<Rightarrow> u64 \<Rightarrow> PointValue option" where
  "Tase2_PointValue_createRealQTimeTagExtended value flags timeTagExtended =
     new_point_value TASE2_VALUE_TYPE_REAL
       [Some (MmsValue_newFloat value), createTimeTagExtended timeTagExtended, new_flags flags]"

definition Tase2_PointValue_createStateQTimeTagExtended :: "u8 \<Rightarrow> u64 \<Rightarrow> PointValue option" where
  "Tase2_PointValue_createStateQTimeTagExtended valueAndFlags timeTagExtended =
     new_point_value TASE2_VALUE_TYPE_STATE [createTimeTagExtended timeTagExtended, new_flags valueAndFlags]"

definition Tase2_PointValue_createDiscreteQTimeTagExtended :: "u32 \<Rightarrow> u8 \<Rightarrow> u64 \<Rightarrow> PointValue option" where
  "Tase2_PointValue_createDiscreteQTimeTagExtended value flags timeTagExtended =
     new_point_value TASE2_VALUE_TYPE_DISCRETE
       [MmsValue_newIntegerFromInt32 value, createTimeTagExtended timeTagExtended, new_flags flags]"

definition Tase2_PointValue_createStateSupplementalQTimeTagExtended :: "u8 \<Rightarrow> u8 \<Rightarrow> u64 \<Rightarrow> PointValue option" where
  "Tase2_PointValue_createStateSupplementalQTimeTagExtended value flags timeTagExtended =
     new_point_value TASE2_VALUE_TYPE_STATE_SUPPLEMENTAL
       [new_flags value, createTimeTagExtended timeTagExtended, new_flags flags]"

section \<open>The value\<close>

text \<open>
  Reading: the value if it has the type, else element 0 of a structure if that has; \<open>None\<close>
  inside is a wrong type. Writing changes the same place.
\<close>

definition value_place :: "MmsType \<Rightarrow> MmsValue \<Rightarrow> int option option option" where
  "value_place t v =
     (if MmsValue_getType v = t then Some (Some None)
      else if MmsValue_getType v = MMS_STRUCTURE then do {
        ty \<leftarrow> type_of (MmsValue_getElement v 0);
        Some (if ty = t then Some (Some 0) else None) }
      else Some None)"

text \<open>\<open>None\<close> is the value itself, \<open>Some i\<close> its element \<open>i\<close>.\<close>

definition read_place :: "MmsValue \<Rightarrow> int option \<Rightarrow> MmsValue option" where
  "read_place v place = (case place of None \<Rightarrow> Some v | Some i \<Rightarrow> MmsValue_getElement v i)"

definition change_place :: "MmsValue \<Rightarrow> int option \<Rightarrow> (MmsValue \<Rightarrow> MmsValue option) \<Rightarrow> MmsValue option" where
  "change_place v place f = (case place of None \<Rightarrow> f v | Some i \<Rightarrow> change_element (Some v) i f)"

definition get_or ::
    "MmsValue \<Rightarrow> int option option option \<Rightarrow> (MmsValue \<Rightarrow> 'a option) \<Rightarrow> 'a \<Rightarrow> ('a \<times> Tase2_PointValueError) option" where
  "get_or v place f default_value = do {
     p \<leftarrow> place;
     (case p of
        None \<Rightarrow> Some (default_value, TASE2_POINT_VALUE_ERROR_WRONG_TYPE)
      | Some p \<Rightarrow> do {
          e \<leftarrow> read_place v p;
          x \<leftarrow> f e;
          Some (x, TASE2_POINT_VALUE_ERROR_OK) }) }"

definition set_or ::
    "PointValue \<Rightarrow> int option option option \<Rightarrow> (MmsValue \<Rightarrow> MmsValue option) \<Rightarrow> (PointValue \<times> Tase2_PointValueError) option" where
  "set_or self place f = do {
     p \<leftarrow> place;
     (case p of
        None \<Rightarrow> Some (self, TASE2_POINT_VALUE_ERROR_WRONG_TYPE)
      | Some p \<Rightarrow> do {
          v \<leftarrow> change_place (pv_value self) p f;
          Some (self\<lparr>pv_value := v\<rparr>, TASE2_POINT_VALUE_ERROR_OK) }) }"

definition Tase2_PointValue_getValueRealEx :: "float_formats \<Rightarrow> PointValue \<Rightarrow> (u32 \<times> Tase2_PointValueError) option" where
  "Tase2_PointValue_getValueRealEx fmt self =
     get_or (pv_value self) (value_place MMS_FLOAT (pv_value self)) (MmsValue_toFloat (fmt_to_float fmt)) NAN"

definition Tase2_PointValue_getValueReal :: "float_formats \<Rightarrow> PointValue \<Rightarrow> u32 option" where
  "Tase2_PointValue_getValueReal fmt self = map_option fst (Tase2_PointValue_getValueRealEx fmt self)"

definition Tase2_PointValue_setValueRealEx ::
    "float_formats \<Rightarrow> PointValue \<Rightarrow> u32 \<Rightarrow> (PointValue \<times> Tase2_PointValueError) option" where
  "Tase2_PointValue_setValueRealEx fmt self value =
     set_or self (value_place MMS_FLOAT (pv_value self)) (\<lambda>e. MmsValue_setFloat fmt e value)"

definition Tase2_PointValue_setValueReal :: "float_formats \<Rightarrow> PointValue \<Rightarrow> u32 \<Rightarrow> PointValue option" where
  "Tase2_PointValue_setValueReal fmt self value = map_option fst (Tase2_PointValue_setValueRealEx fmt self value)"

definition Tase2_PointValue_getValueDiscreteEx :: "PointValue \<Rightarrow> (u32 \<times> Tase2_PointValueError) option" where
  "Tase2_PointValue_getValueDiscreteEx self =
     get_or (pv_value self) (value_place MMS_INTEGER (pv_value self)) MmsValue_toInt32 0"

definition Tase2_PointValue_getValueDiscrete :: "PointValue \<Rightarrow> u32 option" where
  "Tase2_PointValue_getValueDiscrete self = map_option fst (Tase2_PointValue_getValueDiscreteEx self)"

definition Tase2_PointValue_setValueDiscreteEx :: "PointValue \<Rightarrow> u32 \<Rightarrow> (PointValue \<times> Tase2_PointValueError) option" where
  "Tase2_PointValue_setValueDiscreteEx self value =
     set_or self (value_place MMS_INTEGER (pv_value self)) (\<lambda>e. MmsValue_setInt32 e value)"

definition Tase2_PointValue_setValueDiscrete :: "PointValue \<Rightarrow> u32 \<Rightarrow> PointValue option" where
  "Tase2_PointValue_setValueDiscrete self value = map_option fst (Tase2_PointValue_setValueDiscreteEx self value)"

text \<open>The state is in the first of the elements 0 and 1 that is a bit string.\<close>

definition get_bits :: "MmsValue \<Rightarrow> u8 option" where
  "get_bits v = map_option ucast (MmsValue_getBitStringAsInteger v)"

definition state_place :: "MmsValue \<Rightarrow> int option option option" where
  "state_place v =
     (if MmsValue_getType v = MMS_BIT_STRING then Some (Some None)
      else if MmsValue_getType v = MMS_STRUCTURE then do {
        t0 \<leftarrow> type_of (MmsValue_getElement v 0);
        if t0 = MMS_BIT_STRING then Some (Some (Some 0))
        else do {
          t1 \<leftarrow> type_of (MmsValue_getElement v 1);
          Some (if t1 = MMS_BIT_STRING then Some (Some 1) else None) } }
      else Some None)"

definition Tase2_PointValue_getValueStateEx :: "PointValue \<Rightarrow> (u8 \<times> Tase2_PointValueError) option" where
  "Tase2_PointValue_getValueStateEx self = get_or (pv_value self) (state_place (pv_value self)) get_bits 0xff"

definition Tase2_PointValue_getValueState :: "PointValue \<Rightarrow> u8 option" where
  "Tase2_PointValue_getValueState self = map_option fst (Tase2_PointValue_getValueStateEx self)"

definition Tase2_PointValue_setValueStateEx :: "PointValue \<Rightarrow> u8 \<Rightarrow> (PointValue \<times> Tase2_PointValueError) option" where
  "Tase2_PointValue_setValueStateEx self value =
     set_or self (state_place (pv_value self)) (\<lambda>e. MmsValue_setBitStringFromInteger e (ucast value))"

definition Tase2_PointValue_setValueState :: "PointValue \<Rightarrow> u8 \<Rightarrow> PointValue option" where
  "Tase2_PointValue_setValueState self value = map_option fst (Tase2_PointValue_setValueStateEx self value)"

definition Tase2_PointValue_getValueStateSupplementalEx :: "PointValue \<Rightarrow> (u8 \<times> Tase2_PointValueError) option" where
  "Tase2_PointValue_getValueStateSupplementalEx self =
     get_or (pv_value self) (value_place MMS_BIT_STRING (pv_value self)) get_bits 0xff"

definition Tase2_PointValue_getValueStateSupplemental :: "PointValue \<Rightarrow> u8 option" where
  "Tase2_PointValue_getValueStateSupplemental self = map_option fst (Tase2_PointValue_getValueStateSupplementalEx self)"

definition Tase2_PointValue_setValueStateSupplementalEx ::
    "PointValue \<Rightarrow> u8 \<Rightarrow> (PointValue \<times> Tase2_PointValueError) option" where
  "Tase2_PointValue_setValueStateSupplementalEx self value =
     set_or self (value_place MMS_BIT_STRING (pv_value self)) (\<lambda>e. MmsValue_setBitStringFromInteger e (ucast value))"

definition Tase2_PointValue_setValueStateSupplemental :: "PointValue \<Rightarrow> u8 \<Rightarrow> PointValue option" where
  "Tase2_PointValue_setValueStateSupplemental self value =
     map_option fst (Tase2_PointValue_setValueStateSupplementalEx self value)"

section \<open>Time stamps\<close>

fun contains_struct_or_int :: "MmsValue option list \<Rightarrow> bool option" where
  "contains_struct_or_int [] = Some False"
| "contains_struct_or_int (e # es) = do {
     t \<leftarrow> type_of e;
     if t = MMS_INTEGER \<or> t = MMS_STRUCTURE then Some True else contains_struct_or_int es }"

definition containsStructOrInt :: "PointValue \<Rightarrow> bool option" where
  "containsStructOrInt self =
     (case pv_value self of ValStructure es \<Rightarrow> contains_struct_or_int es | _ \<Rightarrow> Some False)"

text \<open>Seconds and milliseconds are widened with their sign.\<close>

definition read_extended :: "MmsValue \<Rightarrow> u64 option" where
  "read_extended tsValue = do {
     s \<leftarrow> MmsValue_getElement tsValue 0 \<bind> MmsValue_toInt32;
     ms \<leftarrow> MmsValue_getElement tsValue 1 \<bind> MmsValue_toInt32;
     Some (scast s * 1000 + scast ms) }"

definition convertMmsTimestampToMsTime :: "MmsValue option \<Rightarrow> u64 option" where
  "convertMmsTimestampToMsTime tsValue =
     (case tsValue of
        Some v \<Rightarrow>
          if MmsValue_getType v = MMS_STRUCTURE then read_extended v
          else do { s \<leftarrow> MmsValue_toInt32 v; Some (scast s * 1000) }
      | None \<Rightarrow> Some 0)"

definition is_time :: "MmsType \<Rightarrow> bool" where
  "is_time t \<longleftrightarrow> t = MMS_INTEGER \<or> t = MMS_STRUCTURE"

definition getMmsTimestamp :: "PointValue \<Rightarrow> MmsValue option option" where
  "getMmsTimestamp self =
     (let v = pv_value self; type = pv_type self in
      if MmsValue_getType v = MMS_STRUCTURE \<and> (case MmsValue_getArraySize v of Some n \<Rightarrow> n > 1 | None \<Rightarrow> False) then
        if type \<in> {TASE2_VALUE_TYPE_STATE, TASE2_VALUE_TYPE_STATE_SUPPLEMENTAL,
             TASE2_VALUE_TYPE_STATE_OR_STATE_SUPPLEMENTAL, TASE2_VALUE_TYPE_STATE_OR_DISCRETE} then do {
          firstElement \<leftarrow> MmsValue_getElement v 0;
          if is_time (MmsValue_getType firstElement) then Some (Some firstElement)
          else do {
            secondElement \<leftarrow> MmsValue_getElement v 1;
            Some (if is_time (MmsValue_getType secondElement) then Some secondElement else None) } }
        else if type \<in> {TASE2_VALUE_TYPE_DISCRETE, TASE2_VALUE_TYPE_REAL} then do {
          secondElement \<leftarrow> MmsValue_getElement v 1;
          Some (if is_time (MmsValue_getType secondElement) then Some secondElement else None) }
        else if type = TASE2_VALUE_TYPE_SINGLE_EVENT then Some (MmsValue_getElement v 1)
        else if type = TASE2_VALUE_TYPE_PACKED_EVENT then Some (MmsValue_getElement v 2)
        else Some None
      else Some None)"

definition Tase2_PointValue_getTimeStampClass :: "PointValue \<Rightarrow> Tase2_TimeStampClass option" where
  "Tase2_PointValue_getTimeStampClass self = do {
     tsValue \<leftarrow> getMmsTimestamp self;
     Some (case tsValue of
       Some v \<Rightarrow> if MmsValue_getType v = MMS_STRUCTURE then TASE2_TIMESTAMP_EXTENDED else TASE2_TIMESTAMP
     | None \<Rightarrow> TASE2_NO_TIMESTAMP) }"

definition Tase2_PointValue_getTimeStampEx :: "PointValue \<Rightarrow> (u64 \<times> Tase2_PointValueError) option" where
  "Tase2_PointValue_getTimeStampEx self = do {
     tsValue \<leftarrow> getMmsTimestamp self;
     t \<leftarrow> convertMmsTimestampToMsTime tsValue;
     Some (t, if tsValue = None then TASE2_POINT_VALUE_ERROR_WRONG_TYPE else TASE2_POINT_VALUE_ERROR_OK) }"

definition Tase2_PointValue_getTimeStamp :: "PointValue \<Rightarrow> u64 option" where
  "Tase2_PointValue_getTimeStamp self = map_option fst (Tase2_PointValue_getTimeStampEx self)"

definition Tase2_PointValue_hasTimeStamp :: "PointValue \<Rightarrow> bool option" where
  "Tase2_PointValue_hasTimeStamp self =
     (case pv_type self of
        TASE2_VALUE_TYPE_STATE \<Rightarrow> containsStructOrInt self
      | TASE2_VALUE_TYPE_STATE_SUPPLEMENTAL \<Rightarrow> containsStructOrInt self
      | TASE2_VALUE_TYPE_STATE_OR_STATE_SUPPLEMENTAL \<Rightarrow> containsStructOrInt self
      | TASE2_VALUE_TYPE_REAL \<Rightarrow> containsStructOrInt self
      | TASE2_VALUE_TYPE_DISCRETE \<Rightarrow>
          Some (MmsValue_getType (pv_value self) = MMS_STRUCTURE \<and>
            (case MmsValue_getArraySize (pv_value self) of Some n \<Rightarrow> n > 2 | None \<Rightarrow> False))
      | TASE2_VALUE_TYPE_STATE_OR_DISCRETE \<Rightarrow> Some False
      | TASE2_VALUE_TYPE_SINGLE_EVENT \<Rightarrow> Some True
      | TASE2_VALUE_TYPE_PACKED_EVENT \<Rightarrow> Some True
      | _ \<Rightarrow> Some False)"

text \<open>A time stamp object, set to a time in milliseconds.\<close>

definition set_extended :: "MmsValue \<Rightarrow> u64 \<Rightarrow> MmsValue option" where
  "set_extended tsValue timestamp = do {
     v \<leftarrow> change_element (Some tsValue) 0 (\<lambda>e. MmsValue_setInt32 e (ucast (timestamp div 1000)));
     change_element (Some v) 1 (\<lambda>e. MmsValue_setInt16 e (ucast (timestamp mod 1000))) }"

definition set_time :: "MmsValue \<Rightarrow> u64 \<Rightarrow> MmsValue option" where
  "set_time tsValue timestamp =
     (if MmsValue_getType tsValue = MMS_STRUCTURE then set_extended tsValue timestamp
      else MmsValue_setInt32 tsValue (ucast (timestamp div 1000)))"

definition Tase2_PointValue_setTimeStampEx :: "PointValue \<Rightarrow> u64 \<Rightarrow> (PointValue \<times> Tase2_PointValueError) option" where
  "Tase2_PointValue_setTimeStampEx self timestamp =
     set_or self
       (Some (if MmsValue_getType (pv_value self) = MMS_STRUCTURE then
          Some (Some (if pv_type self = TASE2_VALUE_TYPE_STATE then 0
                      else if pv_type self = TASE2_VALUE_TYPE_SINGLE_EVENT then 2
                      else if pv_type self = TASE2_VALUE_TYPE_PACKED_EVENT then 3 else 1))
        else None))
       (\<lambda>tsValue. set_time tsValue timestamp)"

definition Tase2_PointValue_setTimeStamp :: "PointValue \<Rightarrow> u64 \<Rightarrow> PointValue option" where
  "Tase2_PointValue_setTimeStamp self timestamp = map_option fst (Tase2_PointValue_setTimeStampEx self timestamp)"

section \<open>Flags\<close>

definition Tase2_PointValue_getFlagsEx :: "PointValue \<Rightarrow> (u8 \<times> Tase2_PointValueError) option" where
  "Tase2_PointValue_getFlagsEx self =
     (let v = pv_value self in
      get_or v
        (if MmsValue_getType v = MMS_STRUCTURE then do {
           t1 \<leftarrow> type_of (MmsValue_getElement v 1);
           let i = (if pv_type self \<noteq> TASE2_VALUE_TYPE_STATE \<and> t1 \<noteq> MMS_BIT_STRING then 2 else 1);
           t \<leftarrow> type_of (MmsValue_getElement v i);
           Some (if t = MMS_BIT_STRING then Some (Some i) else None) }
         else Some (if MmsValue_getType v = MMS_BIT_STRING \<and> pv_type self \<noteq> TASE2_VALUE_TYPE_STATE
                    then Some None else None))
        get_bits 0xff)"

definition Tase2_PointValue_getFlags :: "PointValue \<Rightarrow> u8 option" where
  "Tase2_PointValue_getFlags self = map_option fst (Tase2_PointValue_getFlagsEx self)"

definition setFlags :: "MmsValue \<Rightarrow> u8 \<Rightarrow> MmsValue option" where
  "setFlags flagsValue flags = do {
     value \<leftarrow> get_bits flagsValue;
     MmsValue_setBitStringFromInteger flagsValue (ucast ((value AND 0x03) OR (flags AND 0xfc))) }"

text \<open>
  For a state the variable that is tested is shadowed by the one set in the structured case: it is
  still null there, after the elements were looked at.
\<close>

definition Tase2_PointValue_setFlagsEx :: "PointValue \<Rightarrow> u8 \<Rightarrow> (PointValue \<times> Tase2_PointValueError) option" where
  "Tase2_PointValue_setFlagsEx self flags =
     (let v = pv_value self; structured = (MmsValue_getType v = MMS_STRUCTURE) in
      set_or self
        (if pv_type self = TASE2_VALUE_TYPE_STATE then
           if structured then do {
             t1 \<leftarrow> type_of (MmsValue_getElement v 1);
             Some None }
           else Some (if MmsValue_getType v = MMS_BIT_STRING then Some None else None)
         else if structured then
           Some (case type_of (MmsValue_getElement v 1) of
             None \<Rightarrow> None
           | Some t1 \<Rightarrow>
               let i = (if t1 \<noteq> MMS_BIT_STRING then 2 else 1) in
               if type_of (MmsValue_getElement v i) = Some MMS_BIT_STRING then Some (Some i) else None)
         else Some None)
        (\<lambda>flagsValue. setFlags flagsValue flags))"

definition Tase2_PointValue_setFlags :: "PointValue \<Rightarrow> u8 \<Rightarrow> PointValue option" where
  "Tase2_PointValue_setFlags self flags = map_option fst (Tase2_PointValue_setFlagsEx self flags)"

section \<open>Change counters and protection events\<close>

text \<open>The element at a position of a structure, if it is there and has the type.\<close>

definition element_place :: "MmsValue \<Rightarrow> int \<Rightarrow> MmsType \<Rightarrow> int option option option" where
  "element_place v i t =
     Some (if MmsValue_getType v = MMS_STRUCTURE \<and> type_of (MmsValue_getElement v i) = Some t
           then Some (Some i) else None)"

definition cov_place :: "PointValue \<Rightarrow> int option option option" where
  "cov_place self =
     element_place (pv_value self) (if pv_type self = TASE2_VALUE_TYPE_STATE then 2 else 3) MMS_UNSIGNED"

definition Tase2_PointValue_getCOVEx :: "PointValue \<Rightarrow> (u16 \<times> Tase2_PointValueError) option" where
  "Tase2_PointValue_getCOVEx self =
     get_or (pv_value self) (cov_place self) (\<lambda>e. map_option ucast (MmsValue_toUint32 e)) 0xffff"

definition Tase2_PointValue_getCOV :: "PointValue \<Rightarrow> u16 option" where
  "Tase2_PointValue_getCOV self = map_option fst (Tase2_PointValue_getCOVEx self)"

definition Tase2_PointValue_setCOVEx :: "PointValue \<Rightarrow> u16 \<Rightarrow> (PointValue \<times> Tase2_PointValueError) option" where
  "Tase2_PointValue_setCOVEx self cov = set_or self (cov_place self) (\<lambda>e. MmsValue_setUint16 e cov)"

definition Tase2_PointValue_setCOV :: "PointValue \<Rightarrow> u16 \<Rightarrow> PointValue option" where
  "Tase2_PointValue_setCOV self cov = map_option fst (Tase2_PointValue_setCOVEx self cov)"

definition Tase2_PointValue_getSingleEventFlagsEx :: "PointValue \<Rightarrow> (u8 \<times> Tase2_PointValueError) option" where
  "Tase2_PointValue_getSingleEventFlagsEx self =
     get_or (pv_value self) (element_place (pv_value self) 0 MMS_BIT_STRING) get_bits 0xff"

definition Tase2_PointValue_getSingleEventFlags :: "PointValue \<Rightarrow> u8 option" where
  "Tase2_PointValue_getSingleEventFlags self = map_option fst (Tase2_PointValue_getSingleEventFlagsEx self)"

definition set_bits_at :: "PointValue \<Rightarrow> int \<Rightarrow> u8 \<Rightarrow> (PointValue \<times> Tase2_PointValueError) option" where
  "set_bits_at self i bits =
     set_or self (element_place (pv_value self) i MMS_BIT_STRING) (\<lambda>e. MmsValue_setBitStringFromInteger e (ucast bits))"

text \<open>Both returns of this function are the wrong type.\<close>

definition Tase2_PointValue_setSingleEventFlagsEx ::
    "PointValue \<Rightarrow> u8 \<Rightarrow> (PointValue \<times> Tase2_PointValueError) option" where
  "Tase2_PointValue_setSingleEventFlagsEx self eventFlags =
     map_option (\<lambda>(s, _). (s, TASE2_POINT_VALUE_ERROR_WRONG_TYPE)) (set_bits_at self 0 eventFlags)"

definition Tase2_PointValue_setSingleEventFlags :: "PointValue \<Rightarrow> u8 \<Rightarrow> PointValue option" where
  "Tase2_PointValue_setSingleEventFlags self eventFlags =
     map_option fst (Tase2_PointValue_setSingleEventFlagsEx self eventFlags)"

definition Tase2_PointValue_getPackedEventEx :: "PointValue \<Rightarrow> (u8 \<times> Tase2_PointValueError) option" where
  "Tase2_PointValue_getPackedEventEx self =
     get_or (pv_value self) (element_place (pv_value self) 0 MMS_BIT_STRING) get_bits 0xff"

definition Tase2_PointValue_getPackedEvent :: "PointValue \<Rightarrow> u8 option" where
  "Tase2_PointValue_getPackedEvent self = map_option fst (Tase2_PointValue_getPackedEventEx self)"

definition Tase2_PointValue_setPackedEventEx :: "PointValue \<Rightarrow> u8 \<Rightarrow> (PointValue \<times> Tase2_PointValueError) option" where
  "Tase2_PointValue_setPackedEventEx self packedEvent = set_bits_at self 0 packedEvent"

definition Tase2_PointValue_setPackedEvent :: "PointValue \<Rightarrow> u8 \<Rightarrow> PointValue option" where
  "Tase2_PointValue_setPackedEvent self packedEvent = map_option fst (Tase2_PointValue_setPackedEventEx self packedEvent)"

definition Tase2_PointValue_getPackedEventFlagsEx :: "PointValue \<Rightarrow> (u8 \<times> Tase2_PointValueError) option" where
  "Tase2_PointValue_getPackedEventFlagsEx self =
     get_or (pv_value self) (element_place (pv_value self) 1 MMS_BIT_STRING) get_bits 0xff"

definition Tase2_PointValue_getPackedEventFlags :: "PointValue \<Rightarrow> u8 option" where
  "Tase2_PointValue_getPackedEventFlags self = map_option fst (Tase2_PointValue_getPackedEventFlagsEx self)"

definition Tase2_PointValue_setPackedEventFlagsEx ::
    "PointValue \<Rightarrow> u8 \<Rightarrow> (PointValue \<times> Tase2_PointValueError) option" where
  "Tase2_PointValue_setPackedEventFlagsEx self flags = set_bits_at self 1 flags"

definition Tase2_PointValue_setPackedEventFlags :: "PointValue \<Rightarrow> u8 \<Rightarrow> PointValue option" where
  "Tase2_PointValue_setPackedEventFlags self flags = map_option fst (Tase2_PointValue_setPackedEventFlagsEx self flags)"

definition operating_time_place :: "PointValue \<Rightarrow> int option option option" where
  "operating_time_place self =
     element_place (pv_value self) (if pv_type self = TASE2_VALUE_TYPE_SINGLE_EVENT then 1 else 2) MMS_INTEGER"

definition Tase2_PointValue_getOperatingTimeEx :: "PointValue \<Rightarrow> (u32 \<times> Tase2_PointValueError) option" where
  "Tase2_PointValue_getOperatingTimeEx self =
     get_or (pv_value self) (operating_time_place self) MmsValue_toInt32 0"

definition Tase2_PointValue_getOperatingTime :: "PointValue \<Rightarrow> u32 option" where
  "Tase2_PointValue_getOperatingTime self = map_option fst (Tase2_PointValue_getOperatingTimeEx self)"

definition Tase2_PointValue_setOperatingTimeEx :: "PointValue \<Rightarrow> u32 \<Rightarrow> (PointValue \<times> Tase2_PointValueError) option" where
  "Tase2_PointValue_setOperatingTimeEx self operatingTime =
     set_or self (operating_time_place self) (\<lambda>e. MmsValue_setInt32 e operatingTime)"

definition Tase2_PointValue_setOperatingTime :: "PointValue \<Rightarrow> u32 \<Rightarrow> PointValue option" where
  "Tase2_PointValue_setOperatingTime self operatingTime =
     map_option fst (Tase2_PointValue_setOperatingTimeEx self operatingTime)"

definition event_time_place :: "PointValue \<Rightarrow> int option option option" where
  "event_time_place self =
     element_place (pv_value self) (if pv_type self = TASE2_VALUE_TYPE_SINGLE_EVENT then 2 else 3) MMS_STRUCTURE"

definition Tase2_PointValue_getEventTimeEx :: "PointValue \<Rightarrow> (u64 \<times> Tase2_PointValueError) option" where
  "Tase2_PointValue_getEventTimeEx self = get_or (pv_value self) (event_time_place self) read_extended 0"

definition Tase2_PointValue_getEventTime :: "PointValue \<Rightarrow> u64 option" where
  "Tase2_PointValue_getEventTime self = map_option fst (Tase2_PointValue_getEventTimeEx self)"

definition Tase2_PointValue_setEventTimeEx :: "PointValue \<Rightarrow> u64 \<Rightarrow> (PointValue \<times> Tase2_PointValueError) option" where
  "Tase2_PointValue_setEventTimeEx self eventTime =
     set_or self (event_time_place self) (\<lambda>e. set_extended e eventTime)"

definition Tase2_PointValue_setEventTime :: "PointValue \<Rightarrow> u64 \<Rightarrow> PointValue option" where
  "Tase2_PointValue_setEventTime self eventTime = map_option fst (Tase2_PointValue_setEventTimeEx self eventTime)"

section \<open>Errors\<close>

definition convertDataAccessErrorToClientError :: "MmsDataAccessError \<Rightarrow> Tase2_ClientError" where
  "convertDataAccessErrorToClientError dataAccessError =
     (if dataAccessError = DATA_ACCESS_ERROR_SUCCESS then TASE2_CLIENT_ERROR_OK
      else if dataAccessError = DATA_ACCESS_ERROR_TEMPORARILY_UNAVAILABLE then TASE2_CLIENT_ERROR_TEMPORARILY_UNAVAILABLE
      else if dataAccessError = DATA_ACCESS_ERROR_OBJECT_ACCESS_DENIED then TASE2_CLIENT_ERROR_ACCESS_DENIED
      else if dataAccessError \<in> {5, DATA_ACCESS_ERROR_OBJECT_ATTRIBUTE_INCONSISTENT, DATA_ACCESS_ERROR_OBJECT_VALUE_INVALID}
      then TASE2_CLIENT_ERROR_INVALID_ARGUMENT
      else if dataAccessError = DATA_ACCESS_ERROR_OBJECT_NONE_EXISTENT then TASE2_CLIENT_ERROR_OBJECT_NOT_EXISTING
      else TASE2_CLIENT_ERROR_OTHER)"

definition Tase2_PointValue_getError :: "PointValue \<Rightarrow> Tase2_ClientError option" where
  "Tase2_PointValue_getError self =
     (if pv_type self = TASE2_VALUE_TYPE_ERROR
      then map_option convertDataAccessErrorToClientError (MmsValue_getDataAccessError (pv_value self))
      else Some TASE2_CLIENT_ERROR_OK)"

end
