(* ===== verification/IndicationPoint.thy ===== *)
theory IndicationPoint
  imports PointValue
begin

text \<open>
  Indication points and protection equipment: their creation and the setters the application uses
  (\<^verbatim>\<open>tase2_server/tase2_model.c\<close>), and the variables the server creates for them
  (\<^verbatim>\<open>tase2_server/tase2_server.c\<close>).

  The value of a point is null until the server is created. A setter changes the value in place,
  and \<open>ip_hasChanged\<close> when the value or the flags differ from the old ones; a setter that does not
  fit the point writes a log message and changes nothing. Floats are compared as IEEE values.
\<close>

section \<open>Data\<close>

datatype Tase2_IndicationPointType =
  TASE2_IND_POINT_TYPE_REAL | TASE2_IND_POINT_TYPE_STATE | TASE2_IND_POINT_TYPE_DISCRETE
  | TASE2_IND_POINT_TYPE_STATE_SUPPLEMENTAL

datatype Tase2_QualityClass = TASE2_NO_QUALITY | TASE2_QUALITY

record IndicationPoint =
  ip_valueType :: Tase2_PointValueType
  ip_pointValue :: "MmsValue option"
  ip_serverCachedValue :: "MmsValue option"
  ip_pointType :: Tase2_IndicationPointType
  ip_qualityClass :: Tase2_QualityClass
  ip_timeStampClass :: Tase2_TimeStampClass
  ip_hasCov :: bool
  ip_readOnly :: bool
  ip_hasDeadband :: bool
  ip_hasChanged :: bool

record ProtectionEquipment =
  pe_valueType :: Tase2_PointValueType
  pe_pointValue :: "MmsValue option"
  pe_serverCachedValue :: "MmsValue option"
  pe_isPacked :: bool

fun indication_value_type :: "Tase2_IndicationPointType \<Rightarrow> Tase2_PointValueType" where
  "indication_value_type TASE2_IND_POINT_TYPE_REAL = TASE2_VALUE_TYPE_REAL"
| "indication_value_type TASE2_IND_POINT_TYPE_STATE = TASE2_VALUE_TYPE_STATE"
| "indication_value_type TASE2_IND_POINT_TYPE_STATE_SUPPLEMENTAL = TASE2_VALUE_TYPE_STATE_SUPPLEMENTAL"
| "indication_value_type TASE2_IND_POINT_TYPE_DISCRETE = TASE2_VALUE_TYPE_DISCRETE"

definition Tase2_IndicationPoint_create ::
    "Tase2_IndicationPointType \<Rightarrow> Tase2_QualityClass \<Rightarrow> Tase2_TimeStampClass \<Rightarrow> bool \<Rightarrow> bool \<Rightarrow> IndicationPoint" where
  "Tase2_IndicationPoint_create pointType qualityClass timeStampClass hasCOV readOnly =
     \<lparr>ip_valueType = indication_value_type pointType, ip_pointValue = None, ip_serverCachedValue = None,
      ip_pointType = pointType, ip_qualityClass = qualityClass, ip_timeStampClass = timeStampClass,
      ip_hasCov = hasCOV, ip_readOnly = readOnly, ip_hasDeadband = False, ip_hasChanged = False\<rparr>"

definition Tase2_ProtectionEquipment_create :: "bool \<Rightarrow> ProtectionEquipment" where
  "Tase2_ProtectionEquipment_create isPacked =
     \<lparr>pe_valueType = (if isPacked then TASE2_VALUE_TYPE_PACKED_EVENT else TASE2_VALUE_TYPE_SINGLE_EVENT),
      pe_pointValue = None, pe_serverCachedValue = None, pe_isPacked = isPacked\<rparr>"

section \<open>The variables of the points\<close>

definition CreateValueType :: "IndicationPoint \<Rightarrow> MmsVariableSpecification" where
  "CreateValueType point =
     (case ip_pointType point of
        TASE2_IND_POINT_TYPE_REAL \<Rightarrow> SpecFloat 8 32
      | TASE2_IND_POINT_TYPE_DISCRETE \<Rightarrow> SpecInteger 32
      | TASE2_IND_POINT_TYPE_STATE \<Rightarrow> SpecBitString 8
      | TASE2_IND_POINT_TYPE_STATE_SUPPLEMENTAL \<Rightarrow> SpecBitString 8)"

definition CreateTimeStamp :: MmsVariableSpecification where
  "CreateTimeStamp = SpecInteger 32"

definition CreateTimeStampExtended :: MmsVariableSpecification where
  "CreateTimeStampExtended = SpecStructure [SpecInteger 32, SpecInteger 16]"

text \<open>The number of elements that is allocated, and the elements that are set, from index 0 on.\<close>

definition indication_structSize :: "IndicationPoint \<Rightarrow> nat" where
  "indication_structSize point =
     (if ip_hasCov point then if ip_pointType point = TASE2_IND_POINT_TYPE_STATE then 3 else 4
      else 1 +
        (if ip_qualityClass point \<noteq> TASE2_NO_QUALITY then
           if ip_pointType point = TASE2_IND_POINT_TYPE_STATE \<and> ip_timeStampClass point \<noteq> TASE2_NO_TIMESTAMP
           then 0 else 1
         else 0) +
        (if ip_timeStampClass point \<noteq> TASE2_NO_TIMESTAMP then 1 else 0))"

definition indication_elements :: "IndicationPoint \<Rightarrow> MmsVariableSpecification list" where
  "indication_elements point =
     (if ip_pointType point = TASE2_IND_POINT_TYPE_STATE \<and> ip_timeStampClass point \<noteq> TASE2_NO_TIMESTAMP
      then [] else [CreateValueType point]) @
     (if ip_timeStampClass point \<noteq> TASE2_NO_TIMESTAMP
      then [if ip_timeStampClass point = TASE2_TIMESTAMP then CreateTimeStamp else CreateTimeStampExtended] else []) @
     (if ip_qualityClass point \<noteq> TASE2_NO_QUALITY \<or> ip_pointType point = TASE2_IND_POINT_TYPE_STATE
      then [SpecBitString 8] else []) @
     (if ip_hasCov point then [SpecUnsigned 16] else [])"

text \<open>An element that was not set is a null pointer, which the default value of the variable uses.\<close>

definition indication_spec :: "IndicationPoint \<Rightarrow> MmsVariableSpecification option" where
  "indication_spec point =
     (if \<not> ip_hasCov point \<and> ip_qualityClass point = TASE2_NO_QUALITY \<and> ip_timeStampClass point = TASE2_NO_TIMESTAMP
      then Some (CreateValueType point)
      else if length (indication_elements point) = indication_structSize point
      then Some (SpecStructure (indication_elements point)) else None)"

definition createIndicationPointVariable :: "IndicationPoint \<Rightarrow> IndicationPoint option" where
  "createIndicationPointVariable point = do {
     varSpec \<leftarrow> indication_spec point;
     v \<leftarrow> MmsValue_newDefaultValue varSpec;
     w \<leftarrow> MmsValue_newDefaultValue varSpec;
     Some (point\<lparr>ip_pointValue := Some v, ip_serverCachedValue := Some w\<rparr>) }"

definition protection_spec :: "ProtectionEquipment \<Rightarrow> MmsVariableSpecification" where
  "protection_spec point = SpecStructure
     (if pe_isPacked point
      then [SpecBitString 8, SpecBitString 8, SpecInteger 16, CreateTimeStampExtended]
      else [SpecBitString 8, SpecInteger 16, CreateTimeStampExtended])"

definition createProtectionEventVariable :: "ProtectionEquipment \<Rightarrow> ProtectionEquipment option" where
  "createProtectionEventVariable point = do {
     v \<leftarrow> MmsValue_newDefaultValue (protection_spec point);
     w \<leftarrow> MmsValue_newDefaultValue (protection_spec point);
     Some (point\<lparr>pe_pointValue := Some v, pe_serverCachedValue := Some w\<rparr>) }"

section \<open>Updating a value in place\<close>

definition float_nan :: "u32 \<Rightarrow> bool" where
  "float_nan x \<longleftrightarrow> x AND 0x7fffffff > 0x7f800000"

definition float_eq :: "u32 \<Rightarrow> u32 \<Rightarrow> bool" where
  "float_eq x y \<longleftrightarrow> \<not> float_nan x \<and> \<not> float_nan y \<and> (x = y \<or> (x OR y) AND 0x7fffffff = 0)"

text \<open>The new value with whether it is a change.\<close>

definition updateFloatValue :: "float_formats \<Rightarrow> u32 \<Rightarrow> MmsValue \<Rightarrow> (MmsValue \<times> bool) option" where
  "updateFloatValue fmt value mmsValue = do {
     oldValue \<leftarrow> MmsValue_toFloat (fmt_to_float fmt) mmsValue;
     if \<not> float_eq oldValue value then do { v \<leftarrow> MmsValue_setFloat fmt mmsValue value; Some (v, True) }
     else Some (mmsValue, False) }"

definition updateDiscreteValue :: "u32 \<Rightarrow> MmsValue \<Rightarrow> (MmsValue \<times> bool) option" where
  "updateDiscreteValue value mmsValue = do {
     oldValue \<leftarrow> MmsValue_toInt32 mmsValue;
     if oldValue \<noteq> value then do { v \<leftarrow> MmsValue_setInt32 mmsValue value; Some (v, True) }
     else Some (mmsValue, False) }"

definition updateFlagsValue :: "u8 \<Rightarrow> MmsValue \<Rightarrow> (MmsValue \<times> bool) option" where
  "updateFlagsValue flags mmsValue = do {
     oldFlags \<leftarrow> get_bits mmsValue;
     if oldFlags \<noteq> flags then do { v \<leftarrow> MmsValue_setBitStringFromInteger mmsValue (ucast flags); Some (v, True) }
     else Some (mmsValue, False) }"

text \<open>Setting a time stamp is not a change.\<close>

definition updateTime :: "u64 \<Rightarrow> MmsValue \<Rightarrow> (MmsValue \<times> bool) option" where
  "updateTime timestamp mmsValue = do { v \<leftarrow> set_time mmsValue timestamp; Some (v, False) }"

definition update_place ::
    "int option \<Rightarrow> (MmsValue \<Rightarrow> (MmsValue \<times> bool) option) \<Rightarrow> MmsValue \<times> bool \<Rightarrow> (MmsValue \<times> bool) option" where
  "update_place place f s = (case s of (v, changed) \<Rightarrow> do {
     e \<leftarrow> read_place v place;
     (_, c) \<leftarrow> f e;
     v \<leftarrow> change_place v place (\<lambda>e. map_option fst (f e));
     Some (v, changed \<or> c) })"

text \<open>The updates of a setter that fits the point, in order, if the point has a value.\<close>

definition update_point ::
    "IndicationPoint \<Rightarrow> bool \<Rightarrow> (MmsValue \<Rightarrow> (int option \<times> (MmsValue \<Rightarrow> (MmsValue \<times> bool) option)) list) \<Rightarrow>
     IndicationPoint option" where
  "update_point self fits updates =
     (if fits then
        case ip_pointValue self of
          None \<Rightarrow> Some self
        | Some v \<Rightarrow> do {
            (v, changed) \<leftarrow> for_each (updates v) (\<lambda>(place, f). update_place place f) (v, ip_hasChanged self);
            Some (self\<lparr>ip_pointValue := Some v, ip_hasChanged := changed\<rparr>) }
      else Some self)"

text \<open>Element 0 of a structure, or the value itself; the element that holds the flags.\<close>

definition first_place :: "MmsValue \<Rightarrow> int option" where
  "first_place v = (if MmsValue_getType v = MMS_STRUCTURE then Some 0 else None)"

definition flags_index :: "IndicationPoint \<Rightarrow> int" where
  "flags_index self = (if ip_timeStampClass self = TASE2_NO_TIMESTAMP then 1 else 2)"

section \<open>Setters of indication points\<close>

definition Tase2_IndicationPoint_setReal :: "float_formats \<Rightarrow> IndicationPoint \<Rightarrow> u32 \<Rightarrow> IndicationPoint option" where
  "Tase2_IndicationPoint_setReal fmt self value =
     update_point self (ip_pointType self = TASE2_IND_POINT_TYPE_REAL)
       (\<lambda>v. [(first_place v, updateFloatValue fmt value)])"

definition Tase2_IndicationPoint_setRealQ ::
    "float_formats \<Rightarrow> IndicationPoint \<Rightarrow> u32 \<Rightarrow> u8 \<Rightarrow> IndicationPoint option" where
  "Tase2_IndicationPoint_setRealQ fmt self value flags =
     update_point self (ip_pointType self = TASE2_IND_POINT_TYPE_REAL \<and> ip_qualityClass self = TASE2_QUALITY)
       (\<lambda>v. [(Some 0, updateFloatValue fmt value), (Some (flags_index self), updateFlagsValue flags)])"

definition Tase2_IndicationPoint_setRealQTimeStamp ::
    "float_formats \<Rightarrow> IndicationPoint \<Rightarrow> u32 \<Rightarrow> u8 \<Rightarrow> u64 \<Rightarrow> IndicationPoint option" where
  "Tase2_IndicationPoint_setRealQTimeStamp fmt self value flags timestamp =
     update_point self (ip_pointType self = TASE2_IND_POINT_TYPE_REAL \<and> ip_qualityClass self = TASE2_QUALITY \<and>
         ip_timeStampClass self \<noteq> TASE2_NO_TIMESTAMP)
       (\<lambda>v. [(Some 0, updateFloatValue fmt value), (Some 2, updateFlagsValue flags), (Some 1, updateTime timestamp)])"

definition Tase2_IndicationPoint_setDiscrete :: "IndicationPoint \<Rightarrow> u32 \<Rightarrow> IndicationPoint option" where
  "Tase2_IndicationPoint_setDiscrete self value =
     update_point self (ip_pointType self = TASE2_IND_POINT_TYPE_DISCRETE)
       (\<lambda>v. [(first_place v, updateDiscreteValue value)])"

definition Tase2_IndicationPoint_setDiscreteQ :: "IndicationPoint \<Rightarrow> u32 \<Rightarrow> u8 \<Rightarrow> IndicationPoint option" where
  "Tase2_IndicationPoint_setDiscreteQ self value flags =
     update_point self (ip_pointType self = TASE2_IND_POINT_TYPE_DISCRETE \<and> ip_qualityClass self = TASE2_QUALITY)
       (\<lambda>v. [(Some 0, updateDiscreteValue value), (Some (flags_index self), updateFlagsValue flags)])"

definition Tase2_IndicationPoint_setDiscreteQTimeStamp ::
    "IndicationPoint \<Rightarrow> u32 \<Rightarrow> u8 \<Rightarrow> u64 \<Rightarrow> IndicationPoint option" where
  "Tase2_IndicationPoint_setDiscreteQTimeStamp self value flags timestamp =
     update_point self (ip_pointType self = TASE2_IND_POINT_TYPE_DISCRETE \<and> ip_qualityClass self = TASE2_QUALITY \<and>
         ip_timeStampClass self \<noteq> TASE2_NO_TIMESTAMP)
       (\<lambda>v. [(Some 0, updateDiscreteValue value), (Some 2, updateFlagsValue flags), (Some 1, updateTime timestamp)])"

definition Tase2_IndicationPoint_setState :: "IndicationPoint \<Rightarrow> u8 \<Rightarrow> IndicationPoint option" where
  "Tase2_IndicationPoint_setState self value =
     update_point self (ip_pointType self = TASE2_IND_POINT_TYPE_STATE)
       (\<lambda>v. [(if MmsValue_getType v = MMS_STRUCTURE
               then if ip_timeStampClass self \<noteq> TASE2_NO_TIMESTAMP then Some 1 else Some 0 else None,
              updateFlagsValue value)])"

definition Tase2_IndicationPoint_setStateTimeStamp :: "IndicationPoint \<Rightarrow> u8 \<Rightarrow> u64 \<Rightarrow> IndicationPoint option" where
  "Tase2_IndicationPoint_setStateTimeStamp self value timestamp =
     update_point self (ip_pointType self = TASE2_IND_POINT_TYPE_STATE \<and> ip_timeStampClass self \<noteq> TASE2_NO_TIMESTAMP)
       (\<lambda>v. if MmsValue_getType v = MMS_STRUCTURE
             then [(Some 0, updateTime timestamp), (Some 1, updateFlagsValue value)]
             else [(None, updateFlagsValue value)])"

definition Tase2_IndicationPoint_setStateSupplemental :: "IndicationPoint \<Rightarrow> u8 \<Rightarrow> IndicationPoint option" where
  "Tase2_IndicationPoint_setStateSupplemental self value =
     update_point self (ip_pointType self = TASE2_IND_POINT_TYPE_STATE_SUPPLEMENTAL)
       (\<lambda>v. [(first_place v, updateFlagsValue value)])"

text \<open>The flags parameter of these two functions is not used: the flags are set to the value.\<close>

definition Tase2_IndicationPoint_setStateSupplementalQ :: "IndicationPoint \<Rightarrow> u8 \<Rightarrow> u8 \<Rightarrow> IndicationPoint option" where
  "Tase2_IndicationPoint_setStateSupplementalQ self value flags =
     update_point self (ip_pointType self = TASE2_IND_POINT_TYPE_STATE_SUPPLEMENTAL \<and> ip_qualityClass self = TASE2_QUALITY)
       (\<lambda>v. if MmsValue_getType v = MMS_STRUCTURE
             then [(Some 0, updateFlagsValue value), (Some (flags_index self), updateFlagsValue value)] else [])"

definition Tase2_IndicationPoint_setStateSupplementalQTimeStamp ::
    "IndicationPoint \<Rightarrow> u8 \<Rightarrow> u8 \<Rightarrow> u64 \<Rightarrow> IndicationPoint option" where
  "Tase2_IndicationPoint_setStateSupplementalQTimeStamp self value flags timestamp =
     update_point self (ip_pointType self = TASE2_IND_POINT_TYPE_STATE_SUPPLEMENTAL \<and>
         ip_qualityClass self = TASE2_QUALITY \<and> ip_timeStampClass self \<noteq> TASE2_NO_TIMESTAMP)
       (\<lambda>v. if MmsValue_getType v = MMS_STRUCTURE
             then [(Some 0, updateFlagsValue value), (Some 2, updateFlagsValue value), (Some 1, updateTime timestamp)]
             else [])"

text \<open>The flags of a state replace the upper six bits of the bit string.\<close>

definition updateStateQuality :: "u8 \<Rightarrow> MmsValue \<Rightarrow> (MmsValue \<times> bool) option" where
  "updateStateQuality flags stateVal =
     (if MmsValue_getType stateVal = MMS_BIT_STRING then do {
        value \<leftarrow> get_bits stateVal;
        if flags AND 0xfc \<noteq> value AND 0xfc then do {
          v \<leftarrow> MmsValue_setBitStringFromInteger stateVal (ucast ((value AND 0x03) OR (flags AND 0xfc)));
          Some (v, True) }
        else Some (stateVal, False) }
      else Some (stateVal, False))"

definition Tase2_IndicationPoint_setQuality :: "IndicationPoint \<Rightarrow> u8 \<Rightarrow> IndicationPoint option" where
  "Tase2_IndicationPoint_setQuality self flags =
     (if ip_pointType self = TASE2_IND_POINT_TYPE_STATE then
        update_point self True
          (\<lambda>v. [(if MmsValue_getType v = MMS_STRUCTURE then Some 1 else None, updateStateQuality flags)])
      else update_point self (ip_qualityClass self \<noteq> TASE2_NO_QUALITY)
          (\<lambda>v. [(Some (flags_index self), updateFlagsValue flags)]))"

definition Tase2_IndicationPoint_setTimeStamp :: "IndicationPoint \<Rightarrow> u64 \<Rightarrow> IndicationPoint option" where
  "Tase2_IndicationPoint_setTimeStamp self timestamp =
     update_point self (ip_timeStampClass self \<noteq> TASE2_NO_TIMESTAMP)
       (\<lambda>v. [(Some (if ip_pointType self = TASE2_IND_POINT_TYPE_STATE then 0 else 1), updateTime timestamp)])"

definition cov_index :: "IndicationPoint \<Rightarrow> int" where
  "cov_index self =
     (if ip_pointType self = TASE2_IND_POINT_TYPE_STATE then 2 else 3) -
     (if ip_qualityClass self = TASE2_NO_QUALITY \<and>
         \<not> (ip_pointType self = TASE2_IND_POINT_TYPE_STATE \<and> ip_timeStampClass self \<noteq> TASE2_NO_TIMESTAMP)
      then 1 else 0) -
     (if ip_timeStampClass self = TASE2_NO_TIMESTAMP then 1 else 0)"

definition Tase2_IndicationPoint_setCOV :: "IndicationPoint \<Rightarrow> u16 \<Rightarrow> IndicationPoint option" where
  "Tase2_IndicationPoint_setCOV self cov =
     update_point self (ip_hasCov self)
       (\<lambda>v. [(Some (cov_index self), \<lambda>e. map_option (\<lambda>e. (e, False)) (MmsValue_setUint16 e cov))])"

definition Tase2_DataPoint_getPointValue :: "IndicationPoint \<Rightarrow> PointValue option" where
  "Tase2_DataPoint_getPointValue self =
     map_option (\<lambda>v. \<lparr>pv_type = ip_valueType self, pv_value = v\<rparr>) (ip_pointValue self)"

section \<open>Setters of protection equipment\<close>

definition change_equipment ::
    "ProtectionEquipment \<Rightarrow> int \<Rightarrow> (MmsValue \<Rightarrow> MmsValue option) \<Rightarrow> ProtectionEquipment option" where
  "change_equipment self i f =
     (case pe_pointValue self of
        None \<Rightarrow> Some self
      | Some v \<Rightarrow> do { v \<leftarrow> change_element (Some v) i f; Some (self\<lparr>pe_pointValue := Some v\<rparr>) })"


text \<open>This setter does not test for the null value.\<close>

definition Tase2_ProtectionEquipment_setSingleEventFlags :: "ProtectionEquipment \<Rightarrow> u8 \<Rightarrow> ProtectionEquipment option" where
  "Tase2_ProtectionEquipment_setSingleEventFlags self eventFlags =
     (if \<not> pe_isPacked self then do {
        v \<leftarrow> change_element (pe_pointValue self) 0 (\<lambda>e. MmsValue_setBitStringFromInteger e (ucast eventFlags));
        Some (self\<lparr>pe_pointValue := Some v\<rparr>) }
      else Some self)"

definition Tase2_ProtectionEquipment_setPackedEvent :: "ProtectionEquipment \<Rightarrow> u8 \<Rightarrow> ProtectionEquipment option" where
  "Tase2_ProtectionEquipment_setPackedEvent self packedEvent =
     (if pe_isPacked self
      then change_equipment self 0 (\<lambda>e. MmsValue_setBitStringFromInteger e (ucast packedEvent)) else Some self)"

definition Tase2_ProtectionEquipment_setPackedEventFlags :: "ProtectionEquipment \<Rightarrow> u8 \<Rightarrow> ProtectionEquipment option" where
  "Tase2_ProtectionEquipment_setPackedEventFlags self flags =
     (if pe_isPacked self
      then change_equipment self 1 (\<lambda>e. MmsValue_setBitStringFromInteger e (ucast flags)) else Some self)"

definition Tase2_ProtectionEquipment_setOperatingTime :: "ProtectionEquipment \<Rightarrow> u32 \<Rightarrow> ProtectionEquipment option" where
  "Tase2_ProtectionEquipment_setOperatingTime self operatingTime =
     change_equipment self (if pe_isPacked self then 2 else 1) (\<lambda>e. MmsValue_setInt32 e operatingTime)"

definition Tase2_ProtectionEquipment_setEventTime :: "ProtectionEquipment \<Rightarrow> u64 \<Rightarrow> ProtectionEquipment option" where
  "Tase2_ProtectionEquipment_setEventTime self eventTime =
     change_equipment self (if pe_isPacked self then 3 else 2) (\<lambda>e. set_extended e eventTime)"

definition protection_value :: "ProtectionEquipment \<Rightarrow> PointValue option" where
  "protection_value self = map_option (\<lambda>v. \<lparr>pv_type = pe_valueType self, pv_value = v\<rparr>) (pe_pointValue self)"

end
