(* ===== verification/Points_Laws.thy ===== *)
theory Points_Laws
  imports IndicationPoint ControlPoint_Laws
begin

text \<open>
  Indication points refine an abstract point: a value, flags, a time stamp and a change counter,
  with the note whether something changed. The abstract point says what every setter of the
  application does; the MMS value of the point is tied to it cell by cell, and the getters that a
  client uses on the point value read the abstract fields.
\<close>

section \<open>Cells\<close>

datatype cell = FloatCell u32 | IntCell u32 | BitsCell u8 | TimeCell u64 | ExtendedTimeCell u64 | CovCell u16

definition holds_int :: "u32 \<Rightarrow> MmsValue \<Rightarrow> bool" where
  "holds_int i v \<longleftrightarrow> (\<exists>b. v = ValInteger b \<and> ber_integer_ok b \<and> 4 \<le> asn1_maxSize b \<and>
     BerInteger_toInt32 b = Some (Some i))"

fun holds_cell :: "cell \<Rightarrow> MmsValue \<Rightarrow> bool" where
  "holds_cell (FloatCell r) v \<longleftrightarrow>
     (\<exists>buf. v = ValFloat 8 32 buf \<and> length buf = 4 \<and> word_of_int (be_uint (rev buf)) = r)"
| "holds_cell (IntCell i) v \<longleftrightarrow> holds_int i v"
| "holds_cell (BitsCell b) v \<longleftrightarrow> (\<exists>buf. v = ValBitString 8 buf \<and> length buf = 1 \<and> get_bits v = Some b)"
| "holds_cell (TimeCell t) v \<longleftrightarrow> (\<exists>i. holds_int i v \<and> scast i * 1000 = t)"
| "holds_cell (ExtendedTimeCell t) v \<longleftrightarrow>
     (\<exists>a b i j. v = ValStructure [Some a, Some b] \<and> holds_int i a \<and> holds_int j b \<and> scast i * 1000 + scast j = t)"
| "holds_cell (CovCell c) v \<longleftrightarrow>
     (\<exists>b. v = ValUnsigned b \<and> ber_integer_ok b \<and> 2 \<le> asn1_maxSize b \<and> BerInteger_toUint32 b = Some (Some (ucast c)))"

definition stored_seconds :: "u64 \<Rightarrow> u64" where
  "stored_seconds t = scast (ucast (t div 1000) :: u32)"

definition stored_cov :: "u16 \<Rightarrow> u16" where
  "stored_cov c = (if c < 0xff80 then c else c mod 256)"

text \<open>An update turns a value that holds one cell into one that holds another.\<close>

definition cell_update :: "(MmsValue \<Rightarrow> (MmsValue \<times> bool) option) \<Rightarrow> cell \<Rightarrow> cell \<Rightarrow> bool \<Rightarrow> bool" where
  "cell_update f c d e \<longleftrightarrow> (\<forall>v. holds_cell c v \<longrightarrow> (\<exists>w. f v = Some (w, e) \<and> holds_cell d w))"

lemma cell_updateI:
  "(\<And>v. holds_cell c v \<Longrightarrow> \<exists>w. f v = Some (w, e) \<and> holds_cell d w) \<Longrightarrow> cell_update f c d e"
  by (simp add: cell_update_def)

lemma be_uint_le4: "word_of_int (be_uint (rev (le_bytes 4 (x :: u32)))) = x"
  using uint_lt2p [of x] by (simp add: be_uint_le_bytes)

lemma set_float: "holds_cell (FloatCell r) v \<Longrightarrow> \<exists>w. MmsValue_setFloat fmt v x = Some w \<and> holds_cell (FloatCell x) w"
  by (auto simp: memcpy_eq length_le_bytes be_uint_le4)

lemma get_float: "holds_cell (FloatCell r) v \<Longrightarrow> MmsValue_toFloat d v = Some r"
  by auto

lemma set_ber_int32:
  assumes "ber_integer_ok b" "4 \<le> asn1_maxSize b"
  obtains c where "BerInteger_setInt32 b w = Some (c, True)" "ber_integer_ok c"
    "4 \<le> asn1_maxSize c" "BerInteger_toInt32 c = Some (Some w)"
proof -
  let ?bs = "rev (le_bytes 4 w)"
  have len: "length (strip ?bs) \<le> 4" by (rule strip_le) (simp add: length_le_bytes)
  have ne: "le_bytes 4 w \<noteq> []" using length_le_bytes [of 4 w] by auto
  obtain c where c: "setIntegerValue b (le_bytes 4 w) 4 = Some (c, True)" "ber_integer_ok c"
    "ber_content c = strip ?bs" "asn1_maxSize c = asn1_maxSize b"
    using setIntegerValue_ok [of "le_bytes 4 w" 4 b] assms len ne by (auto simp: length_le_bytes)
  have "ber_value c = sint w"
    unfolding ber_value_def c(3) be_sint_strip by (rule be_sint_le_bytes) simp
  moreover have "asn1_size c \<le> 4" using length_ber_content [OF c(2)] c(3) len by simp
  ultimately have "BerInteger_toInt32 c = Some (Some w)" using toInt32_value [OF c(2)] by simp
  with c assms show ?thesis by (intro that) (simp_all add: BerInteger_setInt32_def)
qed

lemma set_int32: "holds_int i v \<Longrightarrow> \<exists>w. MmsValue_setInt32 v x = Some w \<and> holds_int x w"
  unfolding holds_int_def MmsValue_setInt32_def
  by (elim exE conjE, rule set_ber_int32 [where w = x]) auto

lemma set_int16: "holds_int i v \<Longrightarrow> \<exists>w. MmsValue_setInt16 v x = Some w \<and> holds_int (scast x) w"
  unfolding holds_int_def MmsValue_setInt16_def
  by (elim exE conjE, rule set_ber_int32 [where w = "scast x"]) auto

lemma get_int32: "holds_int i v \<Longrightarrow> MmsValue_toInt32 v = Some i"
  by (auto simp: holds_int_def MmsValue_toInt32_def)

lemma int_type: "holds_int i v \<Longrightarrow> MmsValue_getType v = MMS_INTEGER"
  by (auto simp: holds_int_def)

lemma set_bits: "holds_cell (BitsCell b) v \<Longrightarrow>
  \<exists>w. MmsValue_setBitStringFromInteger v (ucast x) = Some w \<and> holds_cell (BitsCell x) w"
proof -
  assume "holds_cell (BitsCell b) v"
  then obtain buf where v: "v = ValBitString 8 buf" "length buf = 1" by auto
  then have ok: "mms_ok (ValBitString 8 buf)" by (simp add: bitStringByteSize_def)
  obtain c y where c: "for_each [0..<8] store_low_bit (ValBitString 8 buf, ucast x) = Some (ValBitString 8 c, y)"
    "mms_ok (ValBitString 8 c)" "\<forall>i < 8. bit_at c i = bit (ucast x :: u32) i"
    using store_bits_eq [OF ok, of "[0..<8]" "ucast x"] by auto
  have eq: "map (bit_at c) [0..<8] = map (bit (ucast x :: u32)) [0..<8]" using c(3) by simp
  have "MmsValue_getBitStringAsInteger (ValBitString 8 c) = Some (take_bit 8 (ucast x))"
    using getAsInteger_bits(1) [OF c(2)]
    by (simp only: bits_of.simps eq horner_sum_bit_eq_take_bit)
  moreover have "ucast (take_bit 8 (ucast x :: u32)) = x"
    by (rule bit_word_eqI) (simp add: bit_simps)
  ultimately have "get_bits (ValBitString 8 c) = Some x" by (simp add: get_bits_def)
  with c v show ?thesis by (auto simp: MmsValue_setBitStringFromInteger_def bitStringByteSize_def)
qed

lemma stored_cov_uint:
  assumes "uint (hi :: u8) * 256 + uint (lo :: u8) = uint c"
  shows "be_uint (strip [hi, lo]) = uint (stored_cov c)"
proof -
  have b: "uint hi < 256" "uint lo < 256" "0 \<le> uint lo" "0 \<le> uint hi"
    using uint_lt2p [of hi] uint_lt2p [of lo] by simp_all
  have st: "uint (stored_cov c) = (if uint c < 0xff80 then uint c else uint c mod 256)"
    by (simp add: stored_cov_def word_less_def uint_mod)
  have be: "be_uint [hi, lo] = uint hi * 256 + uint lo" "be_uint [lo] = uint lo"
    by (simp_all add: be_uint_def)
  show ?thesis
  proof (cases "redundant hi lo")
    case True
    then have "uint hi = 0 \<and> uint lo < 128 \<or> uint hi = 255 \<and> 128 \<le> uint lo" by (simp add: redundant_uint)
    then show ?thesis
    proof
      assume h: "uint hi = 0 \<and> uint lo < 128"
      then have "uint c = uint lo" using assms by simp
      with h show ?thesis using st True be by simp
    next
      assume h: "uint hi = 255 \<and> 128 \<le> uint lo"
      then have c: "uint c = 255 * 256 + uint lo" using assms by simp
      then have "uint c mod 256 = uint lo" using b unfolding c mod_mult_self3 by simp
      with h c show ?thesis using st True be by simp
    qed
  next
    case False
    then have "\<not> (uint hi = 255 \<and> 128 \<le> uint lo)" by (simp add: redundant_uint)
    then have "uint c < 0xff80" using assms b by linarith
    then show ?thesis using assms st False be by simp
  qed
qed

lemma set_cov: "holds_cell (CovCell d) v \<Longrightarrow>
  \<exists>w. MmsValue_setUint16 v c = Some w \<and> holds_cell (CovCell (stored_cov c)) w"
proof -
  assume "holds_cell (CovCell d) v"
  then obtain b where b: "v = ValUnsigned b" "ber_integer_ok b" "2 \<le> asn1_maxSize b" by auto
  have ne: "le_bytes 2 c \<noteq> []" using length_le_bytes [of 2 c] by auto
  have len: "length (strip (rev (le_bytes 2 c))) \<le> 2" by (rule strip_le) (simp add: length_le_bytes)
  obtain e where e: "setIntegerValue b (le_bytes 2 c) 2 = Some (e, True)" "ber_integer_ok e"
    "ber_content e = strip (rev (le_bytes 2 c))" "asn1_maxSize e = asn1_maxSize b"
    using setIntegerValue_ok [of "le_bytes 2 c" 2 b] b len ne by (auto simp: length_le_bytes)
  obtain lo hi where le: "le_bytes 2 c = [lo, hi]"
    by (simp add: le_bytes_def upt_conv_Cons)
  have "be_uint [hi, lo] = uint c"
    using be_uint_le_bytes [of 2 c] uint_lt2p [of c] by (simp add: le)
  then have "be_uint (ber_content e) = uint (stored_cov c)"
    unfolding e(3) le using stored_cov_uint [of hi lo c] by (simp add: be_uint_def)
  moreover have "asn1_size e \<le> 5" using length_ber_content [OF e(2)] e(3) len by simp
  ultimately have u: "BerInteger_toUint32 e = Some (Some (ucast (stored_cov c)))"
    unfolding ucast_eq by (simp only: toUint32_value [OF e(2)])
  have "MmsValue_setUint16 v c = Some (ValUnsigned e)"
    using b e(1) by (simp add: MmsValue_setUint16_def BerInteger_setUint16_def)
  moreover have "holds_cell (CovCell (stored_cov c)) (ValUnsigned e)"
    using b(3) e(2,4) u by simp
  ultimately show ?thesis by blast
qed

lemma u16_u32: "ucast (ucast (c :: u16) :: u32) = c"
  by (rule bit_word_eqI) (simp add: bit_simps)

lemma get_cov: "holds_cell (CovCell c) v \<Longrightarrow> map_option ucast (MmsValue_toUint32 v) = Some c"
  by (auto simp: MmsValue_toUint32_def u16_u32)

lemma sint_small: "0 \<le> x \<Longrightarrow> x < 2 ^ (LENGTH('a) - 1) \<Longrightarrow> sint (word_of_int x :: 'a::len word) = x"
  by (simp add: sint_sbintrunc' signed_take_bit_int_eq_self)

lemma ms_scast: "(scast (scast (ucast (t mod 1000 :: u64) :: u16) :: u32) :: u64) = t mod 1000"
proof -
  define x where "x = uint t mod 1000"
  have x: "0 \<le> x" "x < 1000" by (simp_all add: x_def)
  have "uint (t mod 1000) = x" by (simp add: uint_mod x_def)
  then have tx: "t mod 1000 = word_of_int x" by (metis word_of_int_uint)
  have s16: "sint (word_of_int x :: u16) = x" by (rule sint_small) (use x in simp_all)
  have s32: "sint (word_of_int x :: u32) = x" by (rule sint_small) (use x in simp_all)
  have "uint (word_of_int x :: u64) = x" by (subst uint_word_of_int) (use x in simp)
  then have "(ucast (word_of_int x :: u64) :: u16) = word_of_int x" unfolding ucast_eq by simp
  moreover have "(scast (word_of_int x :: u16) :: u32) = word_of_int x" unfolding scast_eq s16 ..
  moreover have "(scast (word_of_int x :: u32) :: u64) = word_of_int x" unfolding scast_eq s32 ..
  ultimately show ?thesis unfolding tx by simp
qed

lemma set_time_cell:
  "holds_cell (TimeCell x) v \<Longrightarrow> \<exists>w. set_time v t = Some w \<and> holds_cell (TimeCell (stored_seconds t * 1000)) w"
  using set_int32 [where x = "ucast (t div 1000)"]
  by (fastforce simp: set_time_def int_type stored_seconds_def)

lemma set_extended_cell:
  assumes "holds_cell (ExtendedTimeCell x) v"
  shows "\<exists>w. set_extended v t = Some w \<and> holds_cell (ExtendedTimeCell (stored_seconds t * 1000 + t mod 1000)) w"
proof -
  obtain a b i j where v: "v = ValStructure [Some a, Some b]" "holds_int i a" "holds_int j b"
    using assms by auto
  obtain a' where a: "MmsValue_setInt32 a (ucast (t div 1000)) = Some a'" "holds_int (ucast (t div 1000)) a'"
    using set_int32 [OF v(2)] by blast
  obtain b' where b: "MmsValue_setInt16 b (ucast (t mod 1000)) = Some b'" "holds_int (scast (ucast (t mod 1000) :: u16)) b'"
    using set_int16 [OF v(3)] by blast
  have "set_extended v t = Some (ValStructure [Some a', Some b'])"
    unfolding set_extended_def change_element_def v(1) using a(1) b(1) by simp
  moreover have "holds_cell (ExtendedTimeCell (stored_seconds t * 1000 + t mod 1000)) (ValStructure [Some a', Some b'])"
    unfolding holds_cell.simps
    by (intro exI conjI, rule refl, rule a(2), rule b(2)) (simp add: stored_seconds_def ms_scast)
  ultimately show ?thesis by blast
qed

lemma set_time_extended: "holds_cell (ExtendedTimeCell x) v \<Longrightarrow> set_time v t = set_extended v t"
  by (auto simp: set_time_def)

lemma update_float: "cell_update (updateFloatValue fmt w) (FloatCell r)
    (FloatCell (if float_eq r w then r else w)) (\<not> float_eq r w)"
proof (rule cell_updateI)
  fix v assume v: "holds_cell (FloatCell r) v"
  then obtain u where "MmsValue_setFloat fmt v w = Some u" "holds_cell (FloatCell w) u" using set_float by blast
  with v get_float [OF v] show "\<exists>u. updateFloatValue fmt w v = Some (u, \<not> float_eq r w) \<and>
      holds_cell (FloatCell (if float_eq r w then r else w)) u"
    by (cases "float_eq r w") (simp_all add: updateFloatValue_def del: holds_cell.simps)
qed

lemma update_discrete: "cell_update (updateDiscreteValue w) (IntCell i) (IntCell w) (i \<noteq> w)"
proof (rule cell_updateI)
  fix v assume "holds_cell (IntCell i) v"
  then have v: "holds_int i v" by simp
  obtain u where "MmsValue_setInt32 v w = Some u" "holds_int w u" using set_int32 [OF v] by blast
  with v get_int32 show "\<exists>u. updateDiscreteValue w v = Some (u, i \<noteq> w) \<and> holds_cell (IntCell w) u"
    by (cases "i = w") (auto simp: updateDiscreteValue_def)
qed

lemma update_flags: "cell_update (updateFlagsValue w) (BitsCell b) (BitsCell w) (b \<noteq> w)"
proof (rule cell_updateI)
  fix v assume v: "holds_cell (BitsCell b) v"
  then obtain u where "MmsValue_setBitStringFromInteger v (ucast w) = Some u" "holds_cell (BitsCell w) u"
    using set_bits by blast
  with v show "\<exists>u. updateFlagsValue w v = Some (u, b \<noteq> w) \<and> holds_cell (BitsCell w) u"
    by (cases "b = w") (auto simp: updateFlagsValue_def)
qed

lemma update_state_quality: "cell_update (updateStateQuality f) (BitsCell b)
    (BitsCell (if f AND 0xfc \<noteq> b AND 0xfc then (b AND 0x03) OR (f AND 0xfc) else b)) (f AND 0xfc \<noteq> b AND 0xfc)"
proof (rule cell_updateI)
  fix v assume v: "holds_cell (BitsCell b) v"
  then obtain u where u: "MmsValue_setBitStringFromInteger v (ucast ((b AND 0x03) OR (f AND 0xfc))) = Some u"
    "holds_cell (BitsCell ((b AND 0x03) OR (f AND 0xfc))) u"
    using set_bits by blast
  from v have "get_bits v = Some b" "MmsValue_getType v = MMS_BIT_STRING" by auto
  then show "\<exists>u. updateStateQuality f v = Some (u, f AND 0xfc \<noteq> b AND 0xfc) \<and>
      holds_cell (BitsCell (if f AND 0xfc \<noteq> b AND 0xfc then (b AND 0x03) OR (f AND 0xfc) else b)) u"
    using u v by (cases "f AND 0xfc = b AND 0xfc") (simp_all add: updateStateQuality_def del: holds_cell.simps)
qed

lemma update_time:
  "cell_update (updateTime t) (TimeCell x) (TimeCell (stored_seconds t * 1000)) False"
  "cell_update (updateTime t) (ExtendedTimeCell x) (ExtendedTimeCell (stored_seconds t * 1000 + t mod 1000)) False"
proof -
  show "cell_update (updateTime t) (TimeCell x) (TimeCell (stored_seconds t * 1000)) False"
  proof (rule cell_updateI)
    fix v assume "holds_cell (TimeCell x) v"
    from set_time_cell [OF this, of t]
    show "\<exists>w. updateTime t v = Some (w, False) \<and> holds_cell (TimeCell (stored_seconds t * 1000)) w"
      by (force simp: updateTime_def simp del: holds_cell.simps)
  qed
  show "cell_update (updateTime t) (ExtendedTimeCell x)
    (ExtendedTimeCell (stored_seconds t * 1000 + t mod 1000)) False"
  proof (rule cell_updateI)
    fix v assume v: "holds_cell (ExtendedTimeCell x) v"
    from set_extended_cell [OF v, of t] set_time_extended [OF v, of t]
    show "\<exists>w. updateTime t v = Some (w, False) \<and>
        holds_cell (ExtendedTimeCell (stored_seconds t * 1000 + t mod 1000)) w"
      by (force simp: updateTime_def simp del: holds_cell.simps)
  qed
qed

lemma update_cov: "cell_update (\<lambda>e. map_option (\<lambda>e. (e, False)) (MmsValue_setUint16 e c)) (CovCell d)
    (CovCell (stored_cov c)) False"
proof (rule cell_updateI)
  fix v assume "holds_cell (CovCell d) v"
  from set_cov [OF this, of c]
  show "\<exists>w. map_option (\<lambda>e. (e, False)) (MmsValue_setUint16 v c) = Some (w, False) \<and>
      holds_cell (CovCell (stored_cov c)) w"
    by (force simp del: holds_cell.simps)
qed

section \<open>The abstract point\<close>

record point_state =
  ps_value :: u32
  ps_flags :: u8
  ps_time :: u64
  ps_cov :: u16
  ps_changed :: bool

text \<open>The nineteen point types of the standard the documentation of the server lists.\<close>

definition documented :: "IndicationPoint \<Rightarrow> bool" where
  "documented p \<longleftrightarrow>
     (ip_hasCov p \<longrightarrow> ip_timeStampClass p = TASE2_TIMESTAMP) \<and>
     (ip_timeStampClass p \<noteq> TASE2_NO_TIMESTAMP \<longrightarrow> ip_qualityClass p = TASE2_QUALITY) \<and>
     (ip_pointType p = TASE2_IND_POINT_TYPE_STATE \<longrightarrow>
       ip_qualityClass p = TASE2_QUALITY \<longrightarrow> ip_timeStampClass p \<noteq> TASE2_NO_TIMESTAMP)"

fun value_cell :: "Tase2_IndicationPointType \<Rightarrow> u32 \<Rightarrow> cell" where
  "value_cell TASE2_IND_POINT_TYPE_REAL w = FloatCell w"
| "value_cell TASE2_IND_POINT_TYPE_DISCRETE w = IntCell w"
| "value_cell TASE2_IND_POINT_TYPE_STATE w = BitsCell (ucast w)"
| "value_cell TASE2_IND_POINT_TYPE_STATE_SUPPLEMENTAL w = BitsCell (ucast w)"

fun time_cells :: "Tase2_TimeStampClass \<Rightarrow> u64 \<Rightarrow> cell list" where
  "time_cells TASE2_NO_TIMESTAMP t = []"
| "time_cells TASE2_TIMESTAMP t = [TimeCell t]"
| "time_cells TASE2_TIMESTAMP_EXTENDED t = [ExtendedTimeCell t]"

text \<open>A state carries its flags in the value.\<close>

definition point_cells :: "IndicationPoint \<Rightarrow> point_state \<Rightarrow> cell list" where
  "point_cells p st =
     (if ip_pointType p = TASE2_IND_POINT_TYPE_STATE
      then time_cells (ip_timeStampClass p) (ps_time st) @ [value_cell (ip_pointType p) (ps_value st)]
      else [value_cell (ip_pointType p) (ps_value st)] @ time_cells (ip_timeStampClass p) (ps_time st) @
           [BitsCell (ps_flags st)]) @
     (if ip_hasCov p then [CovCell (ps_cov st)] else [])"

definition holds_cells :: "cell list \<Rightarrow> MmsValue \<Rightarrow> bool" where
  "holds_cells cs v \<longleftrightarrow> (\<exists>vs. v = ValStructure (map Some vs) \<and> list_all2 holds_cell cs vs)"

definition point_holds :: "IndicationPoint \<Rightarrow> point_state \<Rightarrow> bool" where
  "point_holds p st \<longleftrightarrow> documented p \<and> ip_valueType p = indication_value_type (ip_pointType p) \<and>
     ip_hasChanged p = ps_changed st \<and>
     (\<exists>v. ip_pointValue p = Some v \<and>
       (if ip_qualityClass p = TASE2_NO_QUALITY then holds_cell (value_cell (ip_pointType p) (ps_value st)) v
        else holds_cells (point_cells p st) v))"

section \<open>The setters\<close>

datatype point_command =
  SetReal u32 | SetRealQ u32 u8 | SetRealQTimeStamp u32 u8 u64
  | SetDiscrete u32 | SetDiscreteQ u32 u8 | SetDiscreteQTimeStamp u32 u8 u64
  | SetState u8 | SetStateTimeStamp u8 u64
  | SetStateSupplemental u8 | SetStateSupplementalQ u8 u8 | SetStateSupplementalQTimeStamp u8 u8 u64
  | SetQuality u8 | SetTimeStamp u64 | SetCOV u16

fun run_command :: "float_formats \<Rightarrow> point_command \<Rightarrow> IndicationPoint \<Rightarrow> IndicationPoint option" where
  "run_command fmt (SetReal w) p = Tase2_IndicationPoint_setReal fmt p w"
| "run_command fmt (SetRealQ w f) p = Tase2_IndicationPoint_setRealQ fmt p w f"
| "run_command fmt (SetRealQTimeStamp w f t) p = Tase2_IndicationPoint_setRealQTimeStamp fmt p w f t"
| "run_command fmt (SetDiscrete w) p = Tase2_IndicationPoint_setDiscrete p w"
| "run_command fmt (SetDiscreteQ w f) p = Tase2_IndicationPoint_setDiscreteQ p w f"
| "run_command fmt (SetDiscreteQTimeStamp w f t) p = Tase2_IndicationPoint_setDiscreteQTimeStamp p w f t"
| "run_command fmt (SetState b) p = Tase2_IndicationPoint_setState p b"
| "run_command fmt (SetStateTimeStamp b t) p = Tase2_IndicationPoint_setStateTimeStamp p b t"
| "run_command fmt (SetStateSupplemental b) p = Tase2_IndicationPoint_setStateSupplemental p b"
| "run_command fmt (SetStateSupplementalQ b f) p = Tase2_IndicationPoint_setStateSupplementalQ p b f"
| "run_command fmt (SetStateSupplementalQTimeStamp b f t) p =
     Tase2_IndicationPoint_setStateSupplementalQTimeStamp p b f t"
| "run_command fmt (SetQuality f) p = Tase2_IndicationPoint_setQuality p f"
| "run_command fmt (SetTimeStamp t) p = Tase2_IndicationPoint_setTimeStamp p t"
| "run_command fmt (SetCOV c) p = Tase2_IndicationPoint_setCOV p c"

text \<open>What they do to the abstract point: a change is noted when value or flags differ.\<close>

definition put_value :: "u32 \<Rightarrow> point_state \<Rightarrow> point_state" where
  "put_value w st = st\<lparr>ps_value := w, ps_changed := ps_changed st \<or> ps_value st \<noteq> w\<rparr>"

definition put_float :: "u32 \<Rightarrow> point_state \<Rightarrow> point_state" where
  "put_float w st = (if float_eq (ps_value st) w then st else st\<lparr>ps_value := w, ps_changed := True\<rparr>)"

definition put_bits :: "u8 \<Rightarrow> point_state \<Rightarrow> point_state" where
  "put_bits b st = st\<lparr>ps_value := ucast b, ps_changed := ps_changed st \<or> (ucast (ps_value st) :: u8) \<noteq> b\<rparr>"

definition put_flags :: "u8 \<Rightarrow> point_state \<Rightarrow> point_state" where
  "put_flags f st = st\<lparr>ps_flags := f, ps_changed := ps_changed st \<or> ps_flags st \<noteq> f\<rparr>"

text \<open>A time stamp has the resolution of its class, a counter loses its upper octet from 65408 on.\<close>

definition put_time :: "Tase2_TimeStampClass \<Rightarrow> u64 \<Rightarrow> point_state \<Rightarrow> point_state" where
  "put_time c t st = st\<lparr>ps_time :=
     stored_seconds t * 1000 + (if c = TASE2_TIMESTAMP_EXTENDED then t mod 1000 else 0)\<rparr>"

definition state_quality :: "u8 \<Rightarrow> point_state \<Rightarrow> point_state" where
  "state_quality f st = (let b = ucast (ps_value st) in put_bits ((b AND 0x03) OR (f AND 0xfc)) st)"

text \<open>The setters of supplemental states put the value where the flags are.\<close>

fun point_effect :: "Tase2_IndicationPointType \<Rightarrow> Tase2_QualityClass \<Rightarrow> Tase2_TimeStampClass \<Rightarrow> bool \<Rightarrow>
    point_command \<Rightarrow> point_state \<Rightarrow> point_state" where
  "point_effect ty q c cov (SetReal w) st = (if ty = TASE2_IND_POINT_TYPE_REAL then put_float w st else st)"
| "point_effect ty q c cov (SetRealQ w f) st =
     (if ty = TASE2_IND_POINT_TYPE_REAL \<and> q = TASE2_QUALITY then put_flags f (put_float w st) else st)"
| "point_effect ty q c cov (SetRealQTimeStamp w f t) st =
     (if ty = TASE2_IND_POINT_TYPE_REAL \<and> c \<noteq> TASE2_NO_TIMESTAMP
      then put_time c t (put_flags f (put_float w st)) else st)"
| "point_effect ty q c cov (SetDiscrete w) st = (if ty = TASE2_IND_POINT_TYPE_DISCRETE then put_value w st else st)"
| "point_effect ty q c cov (SetDiscreteQ w f) st =
     (if ty = TASE2_IND_POINT_TYPE_DISCRETE \<and> q = TASE2_QUALITY then put_flags f (put_value w st) else st)"
| "point_effect ty q c cov (SetDiscreteQTimeStamp w f t) st =
     (if ty = TASE2_IND_POINT_TYPE_DISCRETE \<and> c \<noteq> TASE2_NO_TIMESTAMP
      then put_time c t (put_flags f (put_value w st)) else st)"
| "point_effect ty q c cov (SetState b) st = (if ty = TASE2_IND_POINT_TYPE_STATE then put_bits b st else st)"
| "point_effect ty q c cov (SetStateTimeStamp b t) st =
     (if ty = TASE2_IND_POINT_TYPE_STATE \<and> c \<noteq> TASE2_NO_TIMESTAMP then put_bits b (put_time c t st) else st)"
| "point_effect ty q c cov (SetStateSupplemental b) st =
     (if ty = TASE2_IND_POINT_TYPE_STATE_SUPPLEMENTAL then put_bits b st else st)"
| "point_effect ty q c cov (SetStateSupplementalQ b f) st =
     (if ty = TASE2_IND_POINT_TYPE_STATE_SUPPLEMENTAL \<and> q = TASE2_QUALITY then put_flags b (put_bits b st) else st)"
| "point_effect ty q c cov (SetStateSupplementalQTimeStamp b f t) st =
     (if ty = TASE2_IND_POINT_TYPE_STATE_SUPPLEMENTAL \<and> c \<noteq> TASE2_NO_TIMESTAMP
      then put_time c t (put_flags b (put_bits b st)) else st)"
| "point_effect ty q c cov (SetQuality f) st =
     (if ty = TASE2_IND_POINT_TYPE_STATE then state_quality f st
      else if q = TASE2_QUALITY then put_flags f st else st)"
| "point_effect ty q c cov (SetTimeStamp t) st = (if c \<noteq> TASE2_NO_TIMESTAMP then put_time c t st else st)"
| "point_effect ty q c cov (SetCOV w) st = (if cov then st\<lparr>ps_cov := stored_cov w\<rparr> else st)"

definition effect_on :: "IndicationPoint \<Rightarrow> point_command \<Rightarrow> point_state \<Rightarrow> point_state" where
  "effect_on p = point_effect (ip_pointType p) (ip_qualityClass p) (ip_timeStampClass p) (ip_hasCov p)"

text \<open>A list of updates of a structure, cell by cell.\<close>

inductive updates_sim ::
    "(int option \<times> (MmsValue \<Rightarrow> (MmsValue \<times> bool) option)) list \<Rightarrow> cell list \<Rightarrow> bool \<Rightarrow> cell list \<Rightarrow> bool \<Rightarrow> bool"
where
  sim_Nil: "updates_sim [] cs b cs b"
| sim_Cons: "0 \<le> i \<Longrightarrow> nat i < length cs \<Longrightarrow> cell_update f (cs ! nat i) d e \<Longrightarrow>
    updates_sim us (cs[nat i := d]) (b \<or> e) cs' b' \<Longrightarrow> updates_sim ((Some i, f) # us) cs b cs' b'"

lemma update_cell:
  assumes "holds_cells cs v" "0 \<le> i" "nat i < length cs" "cell_update f (cs ! nat i) d e"
  shows "\<exists>v'. update_place (Some i) f (v, b) = Some (v', b \<or> e) \<and> holds_cells (cs[nat i := d]) v'"
proof -
  obtain vs where v: "v = ValStructure (map Some vs)" and vs: "list_all2 holds_cell cs vs"
    using assms(1) by (auto simp: holds_cells_def)
  have len: "length vs = length cs" using vs by (simp add: list_all2_lengthD)
  have "holds_cell (cs ! nat i) (vs ! nat i)" using vs assms(3) by (simp add: list_all2_nthD)
  then obtain w where w: "f (vs ! nat i) = Some (w, e)" "holds_cell d w"
    using assms(4) by (auto simp: cell_update_def)
  have "MmsValue_getElement v i = Some (vs ! nat i)"
    using assms(2,3) len by (simp add: v MmsValue_getElement_def nat_less_iff)
  moreover have "MmsValue_setElement v i (Some w) = ValStructure (map Some (vs[nat i := w]))"
    using assms(2,3) len by (simp add: v nat_less_iff map_update)
  ultimately have "update_place (Some i) f (v, b) = Some (ValStructure (map Some (vs[nat i := w])), b \<or> e)"
    using w by (simp add: update_place_def read_place_def change_place_def change_element_def)
  moreover have "list_all2 holds_cell (cs[nat i := d]) (vs[nat i := w])"
    using vs w(2) by (rule list_all2_update_cong)
  ultimately show ?thesis by (auto simp: holds_cells_def)
qed

lemma updates_run:
  "updates_sim us cs b cs' b' \<Longrightarrow> holds_cells cs v \<Longrightarrow>
   \<exists>v'. for_each us (\<lambda>(place, f). update_place place f) (v, b) = Some (v', b') \<and> holds_cells cs' v'"
proof (induction arbitrary: v rule: updates_sim.induct)
  case (sim_Cons i cs f d e us b cs' b')
  from update_cell [OF sim_Cons.prems sim_Cons.hyps(1-3), of b]
  obtain v1 where v1: "update_place (Some i) f (v, b) = Some (v1, b \<or> e)" "holds_cells (cs[nat i := d]) v1"
    by blast
  with sim_Cons.IH [OF v1(2)] show ?case by simp
qed simp

lemma sim_done: "cs = cs' \<Longrightarrow> b = b' \<Longrightarrow> updates_sim [] cs b cs' b'"
  by (simp add: sim_Nil)

definition same_point :: "IndicationPoint \<Rightarrow> IndicationPoint \<Rightarrow> bool" where
  "same_point p p' \<longleftrightarrow> (\<exists>v c. p' = p\<lparr>ip_pointValue := v, ip_hasChanged := c\<rparr>)"

definition command_ok :: "IndicationPoint \<Rightarrow> IndicationPoint option \<Rightarrow> point_state \<Rightarrow> bool" where
  "command_ok p r st \<longleftrightarrow> (\<exists>p'. r = Some p' \<and> same_point p p' \<and> point_holds p' st)"

lemma point_cells_same [simp]: "point_cells (p\<lparr>ip_pointValue := v, ip_hasChanged := c\<rparr>) st = point_cells p st"
  by (simp add: point_cells_def)

lemma command_unchanged: "point_holds p st \<Longrightarrow> command_ok p (Some p) st"
  by (auto simp: command_ok_def same_point_def intro!: exI [of _ "ip_pointValue p"] exI [of _ "ip_hasChanged p"])

lemma command_structured:
  assumes p: "point_holds p st" and q: "ip_qualityClass p = TASE2_QUALITY" and "fits"
    and sim: "\<And>v. MmsValue_getType v = MMS_STRUCTURE \<Longrightarrow>
      updates_sim (ups v) (point_cells p st) (ps_changed st) (point_cells p st') (ps_changed st')"
  shows "command_ok p (update_point p fits ups) st'"
proof -
  obtain v where v: "ip_pointValue p = Some v" "holds_cells (point_cells p st) v"
    using p q by (auto simp: point_holds_def)
  then have "MmsValue_getType v = MMS_STRUCTURE" by (auto simp: holds_cells_def)
  from updates_run [OF sim [OF this] v(2)]
  obtain v' where v': "for_each (ups v) (\<lambda>(place, f). update_place place f) (v, ps_changed st) = Some (v', ps_changed st')"
    "holds_cells (point_cells p st') v'" by blast
  have ch: "ip_hasChanged p = ps_changed st" using p by (simp add: point_holds_def)
  have "update_point p fits ups = Some (p\<lparr>ip_pointValue := Some v', ip_hasChanged := ps_changed st'\<rparr>)"
    using v(1) v'(1) \<open>fits\<close> by (simp add: update_point_def ch)
  moreover have "point_holds (p\<lparr>ip_pointValue := Some v', ip_hasChanged := ps_changed st'\<rparr>) st'"
    using p q v'(2) by (simp add: point_holds_def documented_def)
  ultimately show ?thesis by (auto simp: command_ok_def same_point_def)
qed

lemma command_single:
  assumes p: "point_holds p st" and q: "ip_qualityClass p = TASE2_NO_QUALITY" and "fits"
    and ups: "\<And>v. MmsValue_getType v \<noteq> MMS_STRUCTURE \<Longrightarrow> ups v = [(None, f)]"
    and f: "cell_update f (value_cell (ip_pointType p) (ps_value st)) (value_cell (ip_pointType p) (ps_value st')) e"
    and e: "ps_changed st' = (ps_changed st \<or> e)"
  shows "command_ok p (update_point p fits ups) st'"
proof -
  obtain v where v: "ip_pointValue p = Some v" "holds_cell (value_cell (ip_pointType p) (ps_value st)) v"
    using p q by (auto simp: point_holds_def)
  then have "MmsValue_getType v \<noteq> MMS_STRUCTURE" by (cases "ip_pointType p") (auto simp: holds_int_def)
  then have us: "ups v = [(None, f)]" by (rule ups)
  obtain w where w: "f v = Some (w, e)" "holds_cell (value_cell (ip_pointType p) (ps_value st')) w"
    using f v(2) by (auto simp: cell_update_def)
  have ch: "ip_hasChanged p = ps_changed st" using p by (simp add: point_holds_def)
  have "update_point p fits ups = Some (p\<lparr>ip_pointValue := Some w, ip_hasChanged := ps_changed st'\<rparr>)"
    using v(1) w(1) \<open>fits\<close>
    by (simp add: update_point_def us update_place_def read_place_def change_place_def ch e)
  moreover have "point_holds (p\<lparr>ip_pointValue := Some w, ip_hasChanged := ps_changed st'\<rparr>) st'"
    using p q w(2) by (auto simp: point_holds_def documented_def)
  ultimately show ?thesis by (auto simp: command_ok_def same_point_def)
qed

lemma command_misfit: "point_holds p st \<Longrightarrow> command_ok p (update_point p False ups) st"
  by (simp add: update_point_def command_unchanged)

lemmas sim_simps = point_cells_def documented_def flags_index_def cov_index_def

text \<open>Points that are not states: value first, then time stamp, flags and counter.\<close>

definition value_effect :: "Tase2_IndicationPointType \<Rightarrow> (MmsValue \<Rightarrow> (MmsValue \<times> bool) option) \<Rightarrow>
    point_state \<Rightarrow> point_state \<Rightarrow> bool" where
  "value_effect ty f st st' \<longleftrightarrow> (\<exists>w e. st' = st\<lparr>ps_value := w, ps_changed := ps_changed st \<or> e\<rparr> \<and>
     cell_update f (value_cell ty (ps_value st)) (value_cell ty w) e)"

lemma value_effectE:
  assumes "value_effect ty f st st'"
  obtains w e where "st' = st\<lparr>ps_value := w, ps_changed := ps_changed st \<or> e\<rparr>"
    "cell_update f (value_cell ty (ps_value st)) (value_cell ty w) e"
  using assms by (auto simp: value_effect_def)

lemma set_value:
  assumes p: "point_holds p st" and ty: "ip_pointType p \<noteq> TASE2_IND_POINT_TYPE_STATE"
    and f: "value_effect (ip_pointType p) f st st'" and "fits"
  shows "command_ok p (update_point p fits (\<lambda>v. [(first_place v, f)])) st'"
proof (rule value_effectE [OF f])
  fix w e assume st': "st' = st\<lparr>ps_value := w, ps_changed := ps_changed st \<or> e\<rparr>"
    and c: "cell_update f (value_cell (ip_pointType p) (ps_value st)) (value_cell (ip_pointType p) w) e"
  show ?thesis
  proof (cases "ip_qualityClass p")
    case TASE2_NO_QUALITY
    then show ?thesis using p c \<open>fits\<close> st' by (intro command_single) (simp_all add: first_place_def)
  next
    case TASE2_QUALITY
    show ?thesis
    proof (rule command_structured [OF p TASE2_QUALITY \<open>fits\<close>])
      fix v assume v: "MmsValue_getType v = MMS_STRUCTURE"
      have "updates_sim [(Some 0, f)] (point_cells p st) (ps_changed st) (point_cells p st') (ps_changed st')"
        using c ty by (intro sim_Cons sim_done) (simp_all add: sim_simps st')
      with v show "updates_sim [(first_place v, f)] (point_cells p st) (ps_changed st) (point_cells p st') (ps_changed st')"
        by (simp add: first_place_def)
    qed
  qed
qed

lemma set_value_q:
  assumes p: "point_holds p st" and ty: "ip_pointType p \<noteq> TASE2_IND_POINT_TYPE_STATE"
    and q: "ip_qualityClass p = TASE2_QUALITY"
    and f: "value_effect (ip_pointType p) f st st'" and "fits"
    and ups: "\<And>v. MmsValue_getType v = MMS_STRUCTURE \<Longrightarrow>
      ups v = [(Some 0, f), (Some (flags_index p), updateFlagsValue fl)]"
  shows "command_ok p (update_point p fits ups) (put_flags fl st')"
proof (rule value_effectE [OF f])
  fix w e assume st': "st' = st\<lparr>ps_value := w, ps_changed := ps_changed st \<or> e\<rparr>"
    and c: "cell_update f (value_cell (ip_pointType p) (ps_value st)) (value_cell (ip_pointType p) w) e"
  show ?thesis
  proof (rule command_structured [OF p q \<open>fits\<close>])
    fix v assume v: "MmsValue_getType v = MMS_STRUCTURE"
    have "updates_sim [(Some 0, f), (Some (flags_index p), updateFlagsValue fl)] (point_cells p st)
        (ps_changed st) (point_cells p (put_flags fl st')) (ps_changed (put_flags fl st'))"
      using c ty update_flags [of fl "ps_flags st"]
      by (cases "ip_timeStampClass p"; intro sim_Cons sim_done) (simp_all add: sim_simps st' put_flags_def)
    with v show "updates_sim (ups v) (point_cells p st)
        (ps_changed st) (point_cells p (put_flags fl st')) (ps_changed (put_flags fl st'))"
      by (simp add: ups)
  qed
qed

lemma set_value_qt:
  assumes p: "point_holds p st" and ty: "ip_pointType p \<noteq> TASE2_IND_POINT_TYPE_STATE"
    and t: "ip_timeStampClass p \<noteq> TASE2_NO_TIMESTAMP"
    and f: "value_effect (ip_pointType p) f st st'" and "fits"
    and ups: "\<And>v. MmsValue_getType v = MMS_STRUCTURE \<Longrightarrow>
      ups v = [(Some 0, f), (Some 2, updateFlagsValue fl), (Some 1, updateTime tm)]"
  shows "command_ok p (update_point p fits ups) (put_time (ip_timeStampClass p) tm (put_flags fl st'))"
    (is "command_ok _ _ ?st")
proof (rule value_effectE [OF f])
  fix w e assume st': "st' = st\<lparr>ps_value := w, ps_changed := ps_changed st \<or> e\<rparr>"
    and c: "cell_update f (value_cell (ip_pointType p) (ps_value st)) (value_cell (ip_pointType p) w) e"
  have q: "ip_qualityClass p = TASE2_QUALITY" using p t by (simp add: point_holds_def documented_def)
  show ?thesis
  proof (rule command_structured [OF p q \<open>fits\<close>])
    fix v assume v: "MmsValue_getType v = MMS_STRUCTURE"
    have "updates_sim [(Some 0, f), (Some 2, updateFlagsValue fl), (Some 1, updateTime tm)] (point_cells p st)
        (ps_changed st) (point_cells p ?st) (ps_changed ?st)"
      using c ty t update_flags [of fl "ps_flags st"] update_time [of tm "ps_time st"]
      by (cases "ip_timeStampClass p"; intro sim_Cons sim_done)
        (simp_all add: sim_simps st' put_flags_def put_time_def, simp_all)
    with v show "updates_sim (ups v) (point_cells p st) (ps_changed st) (point_cells p ?st) (ps_changed ?st)"
      by (simp add: ups)
  qed
qed

lemma u8_u32: "ucast (ucast (b :: u8) :: u32) = b"
  by (rule bit_word_eqI) (simp add: bit_simps)

lemma value_effects:
  "value_effect TASE2_IND_POINT_TYPE_REAL (updateFloatValue fmt w) st (put_float w st)"
  "value_effect TASE2_IND_POINT_TYPE_DISCRETE (updateDiscreteValue w) st (put_value w st)"
  "value_effect TASE2_IND_POINT_TYPE_STATE_SUPPLEMENTAL (updateFlagsValue b) st (put_bits b st)"
proof -
  show "value_effect TASE2_IND_POINT_TYPE_REAL (updateFloatValue fmt w) st (put_float w st)"
    unfolding value_effect_def using update_float [of fmt w "ps_value st"]
    by (intro exI [of _ "if float_eq (ps_value st) w then ps_value st else w"]
        exI [of _ "\<not> float_eq (ps_value st) w"]) (simp add: put_float_def)
  show "value_effect TASE2_IND_POINT_TYPE_DISCRETE (updateDiscreteValue w) st (put_value w st)"
    unfolding value_effect_def using update_discrete [of w "ps_value st"]
    by (intro exI [of _ w] exI [of _ "ps_value st \<noteq> w"]) (simp add: put_value_def)
  show "value_effect TASE2_IND_POINT_TYPE_STATE_SUPPLEMENTAL (updateFlagsValue b) st (put_bits b st)"
    unfolding value_effect_def using update_flags [of b "ucast (ps_value st)"]
    by (intro exI [of _ "ucast b"] exI [of _ "ucast (ps_value st) \<noteq> b"]) (simp add: put_bits_def u8_u32)
qed

text \<open>States.\<close>

lemma set_state:
  assumes p: "point_holds p st" and ty: "ip_pointType p = TASE2_IND_POINT_TYPE_STATE" and "fits"
    and c: "cell_update f (BitsCell (ucast (ps_value st))) (BitsCell b) e"
    and st': "st' = st\<lparr>ps_value := ucast b, ps_changed := ps_changed st \<or> e\<rparr>"
    and ups: "\<And>v. ups v = [(if MmsValue_getType v = MMS_STRUCTURE then Some 1 else None, f)] \<or>
      ups v = [(if MmsValue_getType v = MMS_STRUCTURE
               then if ip_timeStampClass p \<noteq> TASE2_NO_TIMESTAMP then Some 1 else Some 0 else None, f)]"
  shows "command_ok p (update_point p fits ups) st'"
proof (cases "ip_qualityClass p")
  case TASE2_NO_QUALITY
  have "ups v = [(None, f)]" if "MmsValue_getType v \<noteq> MMS_STRUCTURE" for v using ups [of v] that by auto
  then show ?thesis using p c ty \<open>fits\<close> st' TASE2_NO_QUALITY by (intro command_single) (simp_all add: u8_u32)
next
  case TASE2_QUALITY
  then have t: "ip_timeStampClass p \<noteq> TASE2_NO_TIMESTAMP" using p ty by (auto simp: point_holds_def documented_def)
  show ?thesis
  proof (rule command_structured [OF p TASE2_QUALITY \<open>fits\<close>])
    fix v assume "MmsValue_getType v = MMS_STRUCTURE"
    then have "ups v = [(Some 1, f)]" using ups [of v] t by auto
    moreover have "updates_sim [(Some 1, f)] (point_cells p st) (ps_changed st) (point_cells p st') (ps_changed st')"
      using c ty t by (cases "ip_timeStampClass p"; intro sim_Cons sim_done) (simp_all add: sim_simps st' u8_u32)
    ultimately show "updates_sim (ups v) (point_cells p st) (ps_changed st) (point_cells p st') (ps_changed st')"
      by simp
  qed
qed

lemma set_state_time:
  assumes p: "point_holds p st" and ty: "ip_pointType p = TASE2_IND_POINT_TYPE_STATE"
    and t: "ip_timeStampClass p \<noteq> TASE2_NO_TIMESTAMP" and "fits"
    and ups: "\<And>v. MmsValue_getType v = MMS_STRUCTURE \<Longrightarrow>
      ups v = [(Some 0, updateTime tm), (Some 1, updateFlagsValue b)]"
  shows "command_ok p (update_point p fits ups) (put_bits b (put_time (ip_timeStampClass p) tm st))"
    (is "command_ok _ _ ?st")
proof -
  have q: "ip_qualityClass p = TASE2_QUALITY" using p t by (simp add: point_holds_def documented_def)
  show ?thesis
  proof (rule command_structured [OF p q \<open>fits\<close>])
    fix v assume v: "MmsValue_getType v = MMS_STRUCTURE"
    have "updates_sim [(Some 0, updateTime tm), (Some 1, updateFlagsValue b)] (point_cells p st)
        (ps_changed st) (point_cells p ?st) (ps_changed ?st)"
      using ty t update_flags [of b "ucast (ps_value st)"] update_time [of tm "ps_time st"]
      by (cases "ip_timeStampClass p"; intro sim_Cons sim_done)
        (simp_all add: sim_simps put_bits_def put_time_def u8_u32, simp_all)
    with v show "updates_sim (ups v) (point_cells p st) (ps_changed st) (point_cells p ?st) (ps_changed ?st)"
      by (simp add: ups)
  qed
qed

lemma quality_bits: "f AND 0xfc \<noteq> b AND 0xfc \<longleftrightarrow> b \<noteq> (b AND 0x03) OR (f AND 0xfc)" for b :: u8
proof
  assume ne: "f AND 0xfc \<noteq> b AND 0xfc"
  show "b \<noteq> (b AND 0x03) OR (f AND 0xfc)"
  proof
    assume "b = (b AND 0x03) OR (f AND 0xfc)"
    then have "b AND 0xfc = ((b AND 0x03) OR (f AND 0xfc)) AND 0xfc" by simp
    also have "\<dots> = (b AND 0x03 AND 0xfc) OR (f AND 0xfc)"
      by (simp only: bit.conj_disj_distrib2 and.assoc and.idem)
    finally show False using ne by simp
  qed
next
  assume ne: "b \<noteq> (b AND 0x03) OR (f AND 0xfc)"
  have "b = (b AND 0x03) OR (b AND 0xfc)"
  proof -
    have "(b AND 0x03) OR (b AND 0xfc) = b AND (0x03 OR 0xfc)" by (simp only: bit.conj_disj_distrib)
    also have "(0x03 OR 0xfc :: u8) = - 1" by simp
    finally show ?thesis by simp
  qed
  with ne show "f AND 0xfc \<noteq> b AND 0xfc" by metis
qed

lemma set_quality:
  assumes p: "point_holds p st"
  shows "command_ok p (Tase2_IndicationPoint_setQuality p f) (effect_on p (SetQuality f) st)"
proof (cases "ip_pointType p = TASE2_IND_POINT_TYPE_STATE")
  case True
  define b where "b = (ucast (ps_value st) :: u8)"
  have upd: "cell_update (updateStateQuality f) (BitsCell (ucast (ps_value st)))
      (BitsCell ((b AND 0x03) OR (f AND 0xfc))) (b \<noteq> (b AND 0x03) OR (f AND 0xfc))"
    using update_state_quality [of f b] quality_bits [of f b]
    by (cases "f AND 0xfc = b AND 0xfc") (simp_all add: b_def [symmetric])
  have "command_ok p (update_point p True
      (\<lambda>v. [(if MmsValue_getType v = MMS_STRUCTURE then Some 1 else None, updateStateQuality f)]))
      (put_bits ((b AND 0x03) OR (f AND 0xfc)) st)"
    by (rule set_state [OF p True _ upd]) (simp_all add: put_bits_def b_def)
  with True show ?thesis
    by (simp add: Tase2_IndicationPoint_setQuality_def effect_on_def state_quality_def b_def Let_def)
next
  case False
  show ?thesis
  proof (cases "ip_qualityClass p")
    case TASE2_NO_QUALITY
    with False command_misfit [OF p] show ?thesis
      by (simp add: Tase2_IndicationPoint_setQuality_def effect_on_def)
  next
    case TASE2_QUALITY
    have "updates_sim [(Some (flags_index p), updateFlagsValue f)] (point_cells p st) (ps_changed st)
        (point_cells p (put_flags f st)) (ps_changed (put_flags f st))"
      using False update_flags [of f "ps_flags st"]
      by (cases "ip_timeStampClass p"; intro sim_Cons sim_done) (simp_all add: sim_simps put_flags_def)
    then have "command_ok p (update_point p True (\<lambda>v. [(Some (flags_index p), updateFlagsValue f)])) (put_flags f st)"
      by (intro command_structured [OF p TASE2_QUALITY]) simp_all
    with False TASE2_QUALITY show ?thesis
      by (simp add: Tase2_IndicationPoint_setQuality_def effect_on_def)
  qed
qed

lemma set_time_stamp:
  assumes p: "point_holds p st"
  shows "command_ok p (Tase2_IndicationPoint_setTimeStamp p tm) (effect_on p (SetTimeStamp tm) st)"
proof (cases "ip_timeStampClass p = TASE2_NO_TIMESTAMP")
  case True
  with command_misfit [OF p] show ?thesis
    by (simp add: Tase2_IndicationPoint_setTimeStamp_def effect_on_def)
next
  case False
  let ?st = "put_time (ip_timeStampClass p) tm st"
  have q: "ip_qualityClass p = TASE2_QUALITY" using p False by (simp add: point_holds_def documented_def)
  have "updates_sim [(Some (if ip_pointType p = TASE2_IND_POINT_TYPE_STATE then 0 else 1), updateTime tm)]
      (point_cells p st) (ps_changed st) (point_cells p ?st) (ps_changed ?st)"
    using False update_time [of tm "ps_time st"]
    by (cases "ip_timeStampClass p"; cases "ip_pointType p = TASE2_IND_POINT_TYPE_STATE"; simp;
        intro sim_Cons sim_done) (simp_all add: sim_simps put_time_def, simp_all)
  then have "command_ok p (update_point p True (\<lambda>v. [(Some (if ip_pointType p = TASE2_IND_POINT_TYPE_STATE
      then 0 else 1), updateTime tm)])) ?st"
    by (intro command_structured [OF p q]) simp_all
  with False show ?thesis by (simp add: Tase2_IndicationPoint_setTimeStamp_def effect_on_def)
qed

lemma set_counter:
  assumes p: "point_holds p st"
  shows "command_ok p (Tase2_IndicationPoint_setCOV p c) (effect_on p (SetCOV c) st)"
proof (cases "ip_hasCov p")
  case False
  with command_misfit [OF p] show ?thesis by (simp add: Tase2_IndicationPoint_setCOV_def effect_on_def)
next
  case True
  let ?st = "st\<lparr>ps_cov := stored_cov c\<rparr>"
  have t: "ip_timeStampClass p = TASE2_TIMESTAMP" and q: "ip_qualityClass p = TASE2_QUALITY"
    using p True by (auto simp: point_holds_def documented_def)
  have "updates_sim [(Some (cov_index p), \<lambda>e. map_option (\<lambda>e. (e, False)) (MmsValue_setUint16 e c))]
      (point_cells p st) (ps_changed st) (point_cells p ?st) (ps_changed ?st)"
    using True t q update_cov [of c "ps_cov st"]
    by (cases "ip_pointType p = TASE2_IND_POINT_TYPE_STATE"; intro sim_Cons sim_done)
      (simp_all add: sim_simps, simp_all)
  then have "command_ok p (update_point p True
      (\<lambda>v. [(Some (cov_index p), \<lambda>e. map_option (\<lambda>e. (e, False)) (MmsValue_setUint16 e c))])) ?st"
    by (intro command_structured [OF p q]) simp_all
  with True show ?thesis by (simp add: Tase2_IndicationPoint_setCOV_def effect_on_def)
qed

lemma command_refines:
  assumes p: "point_holds p st"
  shows "command_ok p (run_command fmt c p) (effect_on p c st)"
proof -
  note defs = effect_on_def Tase2_IndicationPoint_setReal_def Tase2_IndicationPoint_setRealQ_def
    Tase2_IndicationPoint_setRealQTimeStamp_def Tase2_IndicationPoint_setDiscrete_def
    Tase2_IndicationPoint_setDiscreteQ_def Tase2_IndicationPoint_setDiscreteQTimeStamp_def
    Tase2_IndicationPoint_setState_def Tase2_IndicationPoint_setStateTimeStamp_def
    Tase2_IndicationPoint_setStateSupplemental_def Tase2_IndicationPoint_setStateSupplementalQ_def
    Tase2_IndicationPoint_setStateSupplementalQTimeStamp_def
  have tq: "ip_qualityClass p = TASE2_QUALITY" if "ip_timeStampClass p \<noteq> TASE2_NO_TIMESTAMP"
    using p that by (simp add: point_holds_def documented_def)
  have up: "command_ok p (update_point p fits ups) (if fits' then st' else st)"
    if "fits = fits'" "fits' \<Longrightarrow> command_ok p (update_point p True ups) st'" for fits fits' ups st'
    using that command_misfit [OF p, of ups] by (cases fits') simp_all
  note fx = value_effects
  show ?thesis
  proof (cases c)
    case (SetReal w) show ?thesis unfolding SetReal run_command.simps defs point_effect.simps
      by (rule up) (auto simp: fx intro: set_value [OF p])
  next
    case (SetRealQ w f) show ?thesis unfolding SetRealQ run_command.simps defs point_effect.simps
      by (rule up) (auto simp: fx intro!: set_value_q [OF p])
  next
    case (SetRealQTimeStamp w f t)
    show ?thesis unfolding SetRealQTimeStamp run_command.simps defs point_effect.simps
      by (rule up) (auto simp: fx tq intro!: set_value_qt [OF p])
  next
    case (SetDiscrete w) show ?thesis unfolding SetDiscrete run_command.simps defs point_effect.simps
      by (rule up) (auto simp: fx intro: set_value [OF p])
  next
    case (SetDiscreteQ w f) show ?thesis unfolding SetDiscreteQ run_command.simps defs point_effect.simps
      by (rule up) (auto simp: fx intro!: set_value_q [OF p])
  next
    case (SetDiscreteQTimeStamp w f t)
    show ?thesis unfolding SetDiscreteQTimeStamp run_command.simps defs point_effect.simps
      by (rule up) (auto simp: fx tq intro!: set_value_qt [OF p])
  next
    case (SetState b)
    have "command_ok p (update_point p True (\<lambda>v. [(if MmsValue_getType v = MMS_STRUCTURE
               then if ip_timeStampClass p \<noteq> TASE2_NO_TIMESTAMP then Some 1 else Some 0 else None,
              updateFlagsValue b)])) (put_bits b st)" if "ip_pointType p = TASE2_IND_POINT_TYPE_STATE"
      by (rule set_state [OF p that _ update_flags [of b "ucast (ps_value st)"]]) (simp_all add: put_bits_def)
    then show ?thesis unfolding SetState run_command.simps defs point_effect.simps by (rule up [OF refl])
  next
    case (SetStateTimeStamp b t) show ?thesis unfolding SetStateTimeStamp run_command.simps defs point_effect.simps
      by (rule up) (auto intro!: set_state_time [OF p])
  next
    case (SetStateSupplemental b)
    show ?thesis unfolding SetStateSupplemental run_command.simps defs point_effect.simps
      by (rule up) (auto simp: fx intro: set_value [OF p])
  next
    case (SetStateSupplementalQ b f)
    show ?thesis unfolding SetStateSupplementalQ run_command.simps defs point_effect.simps
      by (rule up) (auto simp: fx intro!: set_value_q [OF p])
  next
    case (SetStateSupplementalQTimeStamp b f t)
    show ?thesis unfolding SetStateSupplementalQTimeStamp run_command.simps defs point_effect.simps
      by (rule up) (auto simp: fx tq intro!: set_value_qt [OF p])
  qed (simp_all add: set_quality [OF p] set_time_stamp [OF p] set_counter [OF p])
qed

text \<open>A sequence of setters.\<close>

definition run_commands :: "float_formats \<Rightarrow> point_command list \<Rightarrow> IndicationPoint \<Rightarrow> IndicationPoint option" where
  "run_commands fmt cs p = for_each cs (run_command fmt) p"

lemma same_point_effect: "same_point p p' \<Longrightarrow> effect_on p' = effect_on p"
  by (auto simp: same_point_def effect_on_def)

lemma same_point_trans: "same_point p q \<Longrightarrow> same_point q r \<Longrightarrow> same_point p r"
  unfolding same_point_def by (elim exE) (simp, blast)

lemma commands_refine:
  "point_holds p st \<Longrightarrow> command_ok p (run_commands fmt cs p) (fold (effect_on p) cs st)"
proof (induction cs arbitrary: p st)
  case Nil
  then show ?case by (simp add: run_commands_def command_unchanged)
next
  case (Cons c cs)
  from command_refines [OF Cons.prems, of fmt c]
  obtain q where q: "run_command fmt c p = Some q" "same_point p q" "point_holds q (effect_on p c st)"
    by (auto simp: command_ok_def)
  from Cons.IH [OF q(3)] q(1,2) show ?case
    by (auto simp: command_ok_def run_commands_def same_point_effect dest: same_point_trans)
qed

section \<open>What is read\<close>

text \<open>What the getters answer on a point value of the given type.\<close>

definition value_reads :: "float_formats \<Rightarrow> Tase2_IndicationPointType \<Rightarrow> Tase2_QualityClass \<Rightarrow>
    Tase2_TimeStampClass \<Rightarrow> bool \<Rightarrow> PointValue \<Rightarrow> point_state \<Rightarrow> bool" where
  "value_reads fmt ty q c cov pv st \<longleftrightarrow>
     Tase2_PointValue_getType pv = indication_value_type ty \<and>
     (case ty of
        TASE2_IND_POINT_TYPE_REAL \<Rightarrow>
          Tase2_PointValue_getValueRealEx fmt pv = Some (ps_value st, TASE2_POINT_VALUE_ERROR_OK)
      | TASE2_IND_POINT_TYPE_DISCRETE \<Rightarrow>
          Tase2_PointValue_getValueDiscreteEx pv = Some (ps_value st, TASE2_POINT_VALUE_ERROR_OK)
      | TASE2_IND_POINT_TYPE_STATE \<Rightarrow>
          Tase2_PointValue_getValueStateEx pv = Some (ucast (ps_value st), TASE2_POINT_VALUE_ERROR_OK)
      | TASE2_IND_POINT_TYPE_STATE_SUPPLEMENTAL \<Rightarrow>
          Tase2_PointValue_getValueStateSupplementalEx pv = Some (ucast (ps_value st), TASE2_POINT_VALUE_ERROR_OK)) \<and>
     (q = TASE2_QUALITY \<longrightarrow> Tase2_PointValue_getFlagsEx pv =
        Some (if ty = TASE2_IND_POINT_TYPE_STATE then ucast (ps_value st) else ps_flags st,
          TASE2_POINT_VALUE_ERROR_OK)) \<and>
     Tase2_PointValue_getTimeStampClass pv = Some c \<and>
     Tase2_PointValue_hasTimeStamp pv = Some (c \<noteq> TASE2_NO_TIMESTAMP) \<and>
     (c \<noteq> TASE2_NO_TIMESTAMP \<longrightarrow>
        Tase2_PointValue_getTimeStampEx pv = Some (ps_time st, TASE2_POINT_VALUE_ERROR_OK)) \<and>
     (cov \<longrightarrow> Tase2_PointValue_getCOVEx pv = Some (ps_cov st, TASE2_POINT_VALUE_ERROR_OK))"

definition point_reads :: "float_formats \<Rightarrow> IndicationPoint \<Rightarrow> point_state \<Rightarrow> bool" where
  "point_reads fmt p st \<longleftrightarrow> (\<exists>pv. Tase2_DataPoint_getPointValue p = Some pv \<and>
     value_reads fmt (ip_pointType p) (ip_qualityClass p) (ip_timeStampClass p) (ip_hasCov p) pv st)"

lemma getElement_structure:
  "MmsValue_getElement (ValStructure es) i = (if i < 0 \<or> i \<ge> int (length es) then None else es ! nat i)"
  by (simp add: MmsValue_getElement_def)

lemma read_cells:
  "holds_cell (FloatCell r) v \<Longrightarrow> MmsValue_getType v = MMS_FLOAT \<and> MmsValue_toFloat d v = Some r"
  "holds_cell (IntCell i) v \<Longrightarrow> MmsValue_getType v = MMS_INTEGER \<and> MmsValue_toInt32 v = Some i"
  "holds_cell (BitsCell b) v \<Longrightarrow> MmsValue_getType v = MMS_BIT_STRING \<and> get_bits v = Some b"
  "holds_cell (TimeCell t) v \<Longrightarrow> MmsValue_getType v = MMS_INTEGER \<and> convertMmsTimestampToMsTime (Some v) = Some t"
  "holds_cell (ExtendedTimeCell t) v \<Longrightarrow> MmsValue_getType v = MMS_STRUCTURE \<and> convertMmsTimestampToMsTime (Some v) = Some t"
  "holds_cell (CovCell c) v \<Longrightarrow> MmsValue_getType v = MMS_UNSIGNED \<and> MmsValue_toUint32 v = Some (ucast c)"
  by (auto simp: int_type get_int32 get_cov convertMmsTimestampToMsTime_def read_extended_def u16_u32
      MmsValue_toUint32_def dest: int_type get_int32)

lemmas reader_defs = Tase2_DataPoint_getPointValue_def Tase2_PointValue_getType_def
  Tase2_PointValue_getValueRealEx_def Tase2_PointValue_getValueDiscreteEx_def
  Tase2_PointValue_getValueStateEx_def Tase2_PointValue_getValueStateSupplementalEx_def
  Tase2_PointValue_getFlagsEx_def Tase2_PointValue_getTimeStampClass_def
  Tase2_PointValue_hasTimeStamp_def Tase2_PointValue_getTimeStampEx_def Tase2_PointValue_getCOVEx_def
  get_or_def read_place_def value_place_def state_place_def cov_place_def element_place_def
  getMmsTimestamp_def containsStructOrInt_def type_of_def is_time_def MmsValue_getArraySize_def

lemma leaf_type: "MmsValue_getType v \<noteq> MMS_STRUCTURE \<Longrightarrow> (case v of ValStructure es \<Rightarrow> f es | _ \<Rightarrow> c) = c"
  by (cases v) simp_all

lemma value_cell_reads:
  "ty = TASE2_IND_POINT_TYPE_REAL \<Longrightarrow> holds_cell (value_cell ty w) v \<Longrightarrow>
     MmsValue_getType v = MMS_FLOAT \<and> MmsValue_toFloat d v = Some w"
  "ty = TASE2_IND_POINT_TYPE_DISCRETE \<Longrightarrow> holds_cell (value_cell ty w) v \<Longrightarrow>
     MmsValue_getType v = MMS_INTEGER \<and> MmsValue_toInt32 v = Some w"
  "ty = TASE2_IND_POINT_TYPE_STATE \<Longrightarrow> holds_cell (value_cell ty w) v \<Longrightarrow>
     MmsValue_getType v = MMS_BIT_STRING \<and> get_bits v = Some (ucast w)"
  "ty = TASE2_IND_POINT_TYPE_STATE_SUPPLEMENTAL \<Longrightarrow> holds_cell (value_cell ty w) v \<Longrightarrow>
     MmsValue_getType v = MMS_BIT_STRING \<and> get_bits v = Some (ucast w)"
  using read_cells by (simp_all del: holds_cell.simps)

lemma single_reads:
  assumes "ip_pointValue p = Some v" "ip_valueType p = indication_value_type (ip_pointType p)"
    "holds_cell (value_cell (ip_pointType p) (ps_value st)) v" "ip_qualityClass p = TASE2_NO_QUALITY"
    "ip_timeStampClass p = TASE2_NO_TIMESTAMP" "\<not> ip_hasCov p"
  shows "point_reads fmt p st"
proof -
  note simps = point_reads_def value_reads_def reader_defs leaf_type convertMmsTimestampToMsTime_def
  show ?thesis
  proof (cases "ip_pointType p")
    case TASE2_IND_POINT_TYPE_REAL
    with value_cell_reads(1) [OF this assms(3), of "fmt_to_float fmt"] assms(1,2,4-6)
    show ?thesis by (simp add: simps)
  next
    case TASE2_IND_POINT_TYPE_DISCRETE
    with value_cell_reads(2) [OF this assms(3)] assms(1,2,4-6) show ?thesis by (simp add: simps)
  next
    case TASE2_IND_POINT_TYPE_STATE
    with value_cell_reads(3) [OF this assms(3)] assms(1,2,4-6) show ?thesis by (simp add: simps)
  next
    case TASE2_IND_POINT_TYPE_STATE_SUPPLEMENTAL
    with value_cell_reads(4) [OF this assms(3)] assms(1,2,4-6) show ?thesis by (simp add: simps)
  qed
qed

lemma structured_reads:
  assumes p: "ip_pointValue p = Some v" "ip_valueType p = indication_value_type (ip_pointType p)"
    "documented p" "ip_qualityClass p = TASE2_QUALITY" and v: "holds_cells (point_cells p st) v"
  shows "point_reads fmt p st"
proof -
  obtain vs where vs: "v = ValStructure (map Some vs)" "list_all2 holds_cell (point_cells p st) vs"
    using v by (auto simp: holds_cells_def)
  note read = read_cells(1) [where d = "fmt_to_float fmt"] read_cells(2-6)
  show ?thesis
    using vs p
    apply (cases "ip_pointType p"; cases "ip_timeStampClass p"; cases "ip_hasCov p")
    apply (simp_all add: point_cells_def documented_def list_all2_Cons1 del: holds_cell.simps)
    apply (clarsimp simp del: holds_cell.simps, (drule read)+,
        simp add: point_reads_def value_reads_def reader_defs getElement_structure u16_u32)+
    done
qed

lemma holds_reads: "point_holds p st \<Longrightarrow> point_reads fmt p st"
proof (cases "ip_qualityClass p")
  case TASE2_NO_QUALITY
  moreover assume "point_holds p st"
  ultimately show ?thesis by (auto simp: point_holds_def documented_def intro!: single_reads)
next
  case TASE2_QUALITY
  moreover assume "point_holds p st"
  ultimately show ?thesis by (auto simp: point_holds_def intro: structured_reads)
qed

section \<open>Creation\<close>

definition new_state :: point_state where
  "new_state = \<lparr>ps_value = 0, ps_flags = 0, ps_time = 0, ps_cov = 0, ps_changed = False\<rparr>"

lemma default_cells:
  "holds_cell (FloatCell 0) (ValFloat 8 32 [0, 0, 0, 0])"
  "holds_cell (IntCell 0) (MmsValue_newInteger 32)"
  "holds_cell (TimeCell 0) (MmsValue_newInteger 32)"
  "holds_cell (BitsCell 0) (MmsValue_newBitString 8)"
  "holds_cell (ExtendedTimeCell 0) (ValStructure [Some (MmsValue_newInteger 32), Some (MmsValue_newInteger 16)])"
  "holds_cell (CovCell 0) (MmsValue_newUnsigned 16)"
proof -
  have i: "holds_int 0 (MmsValue_newInteger n)" if "n \<le> 32" for n
    using that by (simp add: holds_int_def MmsValue_newInteger_def) code_simp
  show "holds_cell (IntCell 0) (MmsValue_newInteger 32)" "holds_cell (TimeCell 0) (MmsValue_newInteger 32)"
    "holds_cell (ExtendedTimeCell 0) (ValStructure [Some (MmsValue_newInteger 32), Some (MmsValue_newInteger 16)])"
    using i [of 32] i [of 16] by (auto intro!: exI [of _ "0 :: u32"])
  show "holds_cell (FloatCell 0) (ValFloat 8 32 [0, 0, 0, 0])" by (simp add: be_uint_def)
  show "holds_cell (BitsCell 0) (MmsValue_newBitString 8)"
    by (simp add: MmsValue_newBitString_def bitStringByteSize_def) code_simp
  show "holds_cell (CovCell 0) (MmsValue_newUnsigned 16)"
    by (simp add: MmsValue_newUnsigned_def) code_simp
qed

lemma holds_cells_Nil: "holds_cells [] (ValStructure [])"
  by (simp add: holds_cells_def)

lemma holds_cells_Cons:
  assumes v: "holds_cell a v" and es: "holds_cells cs (ValStructure es)"
  shows "holds_cells (a # cs) (ValStructure (Some v # es))"
proof -
  obtain vs where "es = map Some vs" "list_all2 holds_cell cs vs" using es by (auto simp: holds_cells_def)
  with v show ?thesis by (auto simp: holds_cells_def intro!: exI [of _ "v # vs"])
qed

lemma created_value:
  assumes "documented p"
  shows "\<exists>v. indication_spec p \<bind> MmsValue_newDefaultValue = Some v \<and>
    (if ip_qualityClass p = TASE2_NO_QUALITY then holds_cell (value_cell (ip_pointType p) 0) v
     else holds_cells (point_cells p new_state) v)"
proof -
  note defs = indication_spec_def indication_elements_def indication_structSize_def CreateValueType_def
    CreateTimeStamp_def CreateTimeStampExtended_def
  have z: "replicate 4 (0 :: u8) = [0, 0, 0, 0]" by (simp add: numeral_eq_Suc)
  show ?thesis
    using assms default_cells
    apply (cases "ip_pointType p"; cases "ip_qualityClass p"; cases "ip_timeStampClass p"; cases "ip_hasCov p")
    apply (simp_all add: defs documented_def point_cells_def new_state_def z del: holds_cell.simps)
    apply (intro holds_cells_Nil holds_cells_Cons, assumption+)+
    done
qed

lemma indication_creatable:
  "createIndicationPointVariable p = None \<longleftrightarrow>
     ip_hasCov p \<and> ip_pointType p \<noteq> TASE2_IND_POINT_TYPE_STATE \<and>
     (ip_qualityClass p = TASE2_NO_QUALITY \<or> ip_timeStampClass p = TASE2_NO_TIMESTAMP)"
proof -
  have d: "MmsValue_newDefaultValue (CreateValueType p) \<noteq> None"
    by (cases "ip_pointType p") (simp_all add: CreateValueType_def)
  have "indication_spec p = None \<longleftrightarrow> ip_hasCov p \<and> ip_pointType p \<noteq> TASE2_IND_POINT_TYPE_STATE \<and>
     (ip_qualityClass p = TASE2_NO_QUALITY \<or> ip_timeStampClass p = TASE2_NO_TIMESTAMP)"
    by (cases "ip_pointType p"; cases "ip_qualityClass p"; cases "ip_timeStampClass p"; cases "ip_hasCov p";
      simp add: indication_spec_def indication_elements_def indication_structSize_def)
  moreover have "createIndicationPointVariable p = None \<longleftrightarrow> indication_spec p = None"
    using d by (auto simp: createIndicationPointVariable_def indication_spec_def split: if_splits)
  ultimately show ?thesis by simp
qed

lemma created_point:
  assumes "documented p" "ip_valueType p = indication_value_type (ip_pointType p)" "\<not> ip_hasChanged p"
  shows "\<exists>v. createIndicationPointVariable p = Some (p\<lparr>ip_pointValue := Some v, ip_serverCachedValue := Some v\<rparr>) \<and>
    point_holds (p\<lparr>ip_pointValue := Some v, ip_serverCachedValue := Some v\<rparr>) new_state"
proof -
  obtain v where v: "indication_spec p \<bind> MmsValue_newDefaultValue = Some v"
    "if ip_qualityClass p = TASE2_NO_QUALITY then holds_cell (value_cell (ip_pointType p) 0) v
     else holds_cells (point_cells p new_state) v"
    using created_value [OF assms(1)] by blast
  from v(1) obtain s where "indication_spec p = Some s" "MmsValue_newDefaultValue s = Some v"
    by (auto split: Option.bind_splits)
  then have "createIndicationPointVariable p = Some (p\<lparr>ip_pointValue := Some v, ip_serverCachedValue := Some v\<rparr>)"
    by (simp add: createIndicationPointVariable_def)
  moreover have "point_holds (p\<lparr>ip_pointValue := Some v, ip_serverCachedValue := Some v\<rparr>) new_state"
    using v(2) assms by (auto simp: point_holds_def documented_def point_cells_def new_state_def)
  ultimately show ?thesis by blast
qed

section \<open>Created point values\<close>

lemma new_int_object: "ber_integer_ok BerInteger_createInt32" "4 \<le> asn1_maxSize BerInteger_createInt32"
  by (simp_all add: BerInteger_createInt32_def ber_integer_ok_def Asn1PrimitiveValue_create_def)

lemma new_int: "\<exists>v. MmsValue_newIntegerFromInt32 i = Some v \<and> holds_int i v"
  by (rule set_ber_int32 [OF new_int_object, of i])
    (simp add: MmsValue_newIntegerFromInt32_def BerInteger_createFromInt32_def holds_int_def)

lemma new_int16: "\<exists>v. MmsValue_newIntegerFromInt16 i = Some v \<and> holds_int (scast i) v"
  by (rule set_ber_int32 [OF new_int_object, of "scast i"])
    (simp add: MmsValue_newIntegerFromInt16_def BerInteger_createFromInt32_def holds_int_def)

lemma new_bits: "\<exists>v. new_flags b = Some v \<and> holds_cell (BitsCell b) v"
  using set_bits [OF default_cells(4), of b] by (simp add: new_flags_def)

lemma new_float: "holds_cell (FloatCell r) (MmsValue_newFloat r)"
  by (simp add: MmsValue_newFloat_def length_le_bytes be_uint_le4)

lemma new_counter: "\<exists>v. new_cov c = Some v \<and> holds_cell (CovCell (stored_cov c)) v"
  using set_cov [OF default_cells(6), of c] by (simp add: new_cov_def)

lemma fill_structure:
  "foldl (\<lambda>v (i, e). MmsValue_setElement v (int i) (Some e)) (ValStructure (map Some xs @ replicate (length ys) None))
     (zip [length xs..<length xs + length ys] ys) = ValStructure (map Some (xs @ ys))"
proof (induction ys arbitrary: xs)
  case (Cons y ys)
  have "[length xs..<length xs + length (y # ys)] = length xs # [length (xs @ [y])..<length (xs @ [y]) + length ys]"
    by (subst upt_conv_Cons) (simp_all del: upt_Suc)
  then show ?case using Cons.IH [of "xs @ [y]"] by (simp add: list_update_append)
qed simp

lemma new_structure_eq: "new_structure es = ValStructure (map Some es)"
  using fill_structure [of "[]" es] by (simp add: new_structure_def MmsValue_createEmptyStructure_def)

lemma new_time: "\<exists>v. MmsValue_newIntegerFromInt32 t = Some v \<and> holds_cell (TimeCell (scast t * 1000)) v"
  using new_int [of t] by auto

lemma new_extended: "\<exists>v. createTimeTagExtended t = Some v \<and>
  holds_cell (ExtendedTimeCell (stored_seconds t * 1000 + t mod 1000)) v"
proof -
  obtain a where a: "MmsValue_newIntegerFromInt32 (ucast (t div 1000)) = Some a" "holds_int (ucast (t div 1000)) a"
    using new_int by blast
  obtain b where b: "MmsValue_newIntegerFromInt16 (ucast (t mod 1000)) = Some b"
    "holds_int (scast (ucast (t mod 1000) :: u16)) b"
    using new_int16 by blast
  have "holds_cell (ExtendedTimeCell (stored_seconds t * 1000 + t mod 1000)) (ValStructure [Some a, Some b])"
    unfolding holds_cell.simps
    by (intro exI conjI, rule refl, rule a(2), rule b(2)) (simp add: stored_seconds_def ms_scast)
  with a(1) b(1) show ?thesis by (simp add: createTimeTagExtended_def new_structure_eq)
qed

text \<open>A created value reads as the parameters of its creator.\<close>

definition created_reads :: "float_formats \<Rightarrow> Tase2_IndicationPointType \<Rightarrow> Tase2_QualityClass \<Rightarrow>
    Tase2_TimeStampClass \<Rightarrow> bool \<Rightarrow> PointValue option \<Rightarrow> point_state \<Rightarrow> bool" where
  "created_reads fmt ty q c cov r st \<longleftrightarrow> (\<exists>pv. r = Some pv \<and> value_reads fmt ty q c cov pv st)"

definition with_values :: "u32 \<Rightarrow> u8 \<Rightarrow> u64 \<Rightarrow> u16 \<Rightarrow> point_state" where
  "with_values v f t c = \<lparr>ps_value = v, ps_flags = f, ps_time = t, ps_cov = c, ps_changed = False\<rparr>"

lemma point_reads_value:
  assumes "point_reads fmt ((Tase2_IndicationPoint_create ty q c cov False)\<lparr>ip_pointValue := Some v\<rparr>) st"
  shows "value_reads fmt ty q c cov \<lparr>pv_type = indication_value_type ty, pv_value = v\<rparr> st"
  using assms by (simp add: point_reads_def Tase2_DataPoint_getPointValue_def Tase2_IndicationPoint_create_def)

lemma created_single:
  assumes "holds_cell (value_cell ty w) v"
  shows "created_reads fmt ty TASE2_NO_QUALITY TASE2_NO_TIMESTAMP False
    (Some \<lparr>pv_type = indication_value_type ty, pv_value = v\<rparr>) (with_values w f t k)"
proof -
  have "point_reads fmt ((Tase2_IndicationPoint_create ty TASE2_NO_QUALITY TASE2_NO_TIMESTAMP False False)
      \<lparr>ip_pointValue := Some v\<rparr>) (with_values w f t k)"
    using assms by (intro single_reads) (simp_all add: Tase2_IndicationPoint_create_def with_values_def)
  from point_reads_value [OF this] show ?thesis by (simp add: created_reads_def)
qed

lemma created_structured:
  assumes "documented (Tase2_IndicationPoint_create ty TASE2_QUALITY c cov False)"
    and "holds_cells (point_cells (Tase2_IndicationPoint_create ty TASE2_QUALITY c cov False) st) (new_structure es)"
    and "those vs = Some es" and "pt = indication_value_type ty"
  shows "created_reads fmt ty TASE2_QUALITY c cov (new_point_value pt vs) st"
proof -
  let ?p = "(Tase2_IndicationPoint_create ty TASE2_QUALITY c cov False)\<lparr>ip_pointValue := Some (new_structure es)\<rparr>"
  have "point_reads fmt ?p st"
  proof (rule structured_reads)
    show "documented ?p" using assms(1) by (simp add: documented_def)
    have "point_cells ?p st = point_cells (Tase2_IndicationPoint_create ty TASE2_QUALITY c cov False) st"
      by (simp add: point_cells_def)
    then show "holds_cells (point_cells ?p st) (new_structure es)" using assms(2) by simp
  qed (simp_all add: Tase2_IndicationPoint_create_def)
  from point_reads_value [OF this] assms(3,4) show ?thesis by (simp add: created_reads_def new_point_value_def)
qed

lemma indication_create_fields [simp]:
  "ip_pointType (Tase2_IndicationPoint_create ty q c cov ro) = ty"
  "ip_qualityClass (Tase2_IndicationPoint_create ty q c cov ro) = q"
  "ip_timeStampClass (Tase2_IndicationPoint_create ty q c cov ro) = c"
  "ip_hasCov (Tase2_IndicationPoint_create ty q c cov ro) = cov"
  "ip_valueType (Tase2_IndicationPoint_create ty q c cov ro) = indication_value_type ty"
  "\<not> ip_hasChanged (Tase2_IndicationPoint_create ty q c cov ro)"
  by (simp_all add: Tase2_IndicationPoint_create_def)

lemma created_cells:
  assumes "documented (Tase2_IndicationPoint_create ty TASE2_QUALITY c cov False)"
    and "pt = indication_value_type ty"
    and "list_all2 (\<lambda>d r. \<exists>v. r = Some v \<and> holds_cell d v)
      (point_cells (Tase2_IndicationPoint_create ty TASE2_QUALITY c cov False) st) rs"
  shows "created_reads fmt ty TASE2_QUALITY c cov (new_point_value pt rs) st"
proof -
  let ?cs = "point_cells (Tase2_IndicationPoint_create ty TASE2_QUALITY c cov False) st"
  obtain es where es: "those rs = Some es" "list_all2 holds_cell ?cs es"
    using assms(3)
  proof (induction rs arbitrary: thesis rule: list_all2_induct)
    case (Cons d cs r rs)
    then obtain v es where "r = Some v" "holds_cell d v" "those rs = Some es" "list_all2 holds_cell cs es"
      by blast
    then show ?case by (intro Cons.prems [of "v # es"]) simp_all
  qed simp
  have "holds_cells ?cs (new_structure es)" using es(2) by (auto simp: holds_cells_def new_structure_eq)
  from created_structured [OF assms(1) this es(1) assms(2)] show ?thesis .
qed

text \<open>
  A point value made by any of the nineteen creators of the documented types reads back as the
  parameters: the type, the value, the flags, the class of the time stamp and whether there is
  one, the time (whole seconds from \<open>timeTag\<close>, milliseconds from an extended time tag) and the
  change counter, each without an error. A state carries its flags in the value.
\<close>

theorem point_value_roundtrip:
  "let st = with_values v f; flat = (\<lambda>b. with_values (ucast (b :: u8)) f); ts = scast (timeTag :: u32) * 1000;
     ext = stored_seconds t * 1000 + t mod 1000 in
   created_reads fmt TASE2_IND_POINT_TYPE_REAL TASE2_NO_QUALITY TASE2_NO_TIMESTAMP False
     (Tase2_PointValue_createReal v) (st 0 0) \<and>
   created_reads fmt TASE2_IND_POINT_TYPE_DISCRETE TASE2_NO_QUALITY TASE2_NO_TIMESTAMP False
     (Tase2_PointValue_createDiscrete v) (st 0 0) \<and>
   created_reads fmt TASE2_IND_POINT_TYPE_STATE TASE2_NO_QUALITY TASE2_NO_TIMESTAMP False
     (Tase2_PointValue_createState b) (flat b 0 0) \<and>
   created_reads fmt TASE2_IND_POINT_TYPE_STATE_SUPPLEMENTAL TASE2_NO_QUALITY TASE2_NO_TIMESTAMP False
     (Tase2_PointValue_createStateSupplemental b) (flat b 0 0) \<and>
   created_reads fmt TASE2_IND_POINT_TYPE_REAL TASE2_QUALITY TASE2_NO_TIMESTAMP False
     (Tase2_PointValue_createRealQ v f) (st 0 0) \<and>
   created_reads fmt TASE2_IND_POINT_TYPE_DISCRETE TASE2_QUALITY TASE2_NO_TIMESTAMP False
     (Tase2_PointValue_createDiscreteQ v f) (st 0 0) \<and>
   created_reads fmt TASE2_IND_POINT_TYPE_STATE_SUPPLEMENTAL TASE2_QUALITY TASE2_NO_TIMESTAMP False
     (Tase2_PointValue_createStateSupplementalQ b f) (flat b 0 0) \<and>
   created_reads fmt TASE2_IND_POINT_TYPE_REAL TASE2_QUALITY TASE2_TIMESTAMP False
     (Tase2_PointValue_createRealQTimeTag v f timeTag) (st ts 0) \<and>
   created_reads fmt TASE2_IND_POINT_TYPE_STATE TASE2_QUALITY TASE2_TIMESTAMP False
     (Tase2_PointValue_createStateQTimeTag b timeTag) (flat b ts 0) \<and>
   created_reads fmt TASE2_IND_POINT_TYPE_DISCRETE TASE2_QUALITY TASE2_TIMESTAMP False
     (Tase2_PointValue_createDiscreteQTimeTag v f timeTag) (st ts 0) \<and>
   created_reads fmt TASE2_IND_POINT_TYPE_STATE_SUPPLEMENTAL TASE2_QUALITY TASE2_TIMESTAMP False
     (Tase2_PointValue_createStateSupplementalQTimeTag b f timeTag) (flat b ts 0) \<and>
   created_reads fmt TASE2_IND_POINT_TYPE_REAL TASE2_QUALITY TASE2_TIMESTAMP True
     (Tase2_PointValue_createRealExtended v f timeTag c) (st ts (stored_cov c)) \<and>
   created_reads fmt TASE2_IND_POINT_TYPE_STATE TASE2_QUALITY TASE2_TIMESTAMP True
     (Tase2_PointValue_createStateExtended b timeTag c) (flat b ts (stored_cov c)) \<and>
   created_reads fmt TASE2_IND_POINT_TYPE_DISCRETE TASE2_QUALITY TASE2_TIMESTAMP True
     (Tase2_PointValue_createDiscreteExtended v f timeTag c) (st ts (stored_cov c)) \<and>
   created_reads fmt TASE2_IND_POINT_TYPE_STATE_SUPPLEMENTAL TASE2_QUALITY TASE2_TIMESTAMP True
     (Tase2_PointValue_createStateSupplementalExtended b f timeTag c) (flat b ts (stored_cov c)) \<and>
   created_reads fmt TASE2_IND_POINT_TYPE_REAL TASE2_QUALITY TASE2_TIMESTAMP_EXTENDED False
     (Tase2_PointValue_createRealQTimeTagExtended v f t) (st ext 0) \<and>
   created_reads fmt TASE2_IND_POINT_TYPE_STATE TASE2_QUALITY TASE2_TIMESTAMP_EXTENDED False
     (Tase2_PointValue_createStateQTimeTagExtended b t) (flat b ext 0) \<and>
   created_reads fmt TASE2_IND_POINT_TYPE_DISCRETE TASE2_QUALITY TASE2_TIMESTAMP_EXTENDED False
     (Tase2_PointValue_createDiscreteQTimeTagExtended v f t) (st ext 0) \<and>
   created_reads fmt TASE2_IND_POINT_TYPE_STATE_SUPPLEMENTAL TASE2_QUALITY TASE2_TIMESTAMP_EXTENDED False
     (Tase2_PointValue_createStateSupplementalQTimeTagExtended b f t) (flat b ext 0)"
proof -
  have r0: "holds_cell (value_cell TASE2_IND_POINT_TYPE_REAL v) (MmsValue_newFloat v)" using new_float by simp
  obtain x where i0: "MmsValue_newIntegerFromInt32 v = Some x" "holds_cell (value_cell TASE2_IND_POINT_TYPE_DISCRETE v) x"
    using new_int [of v] by auto
  obtain y where b: "new_flags b = Some y" "holds_cell (BitsCell b) y" using new_bits by blast
  then have b0: "new_flags b = Some y" "holds_cell (value_cell TASE2_IND_POINT_TYPE_STATE (ucast b)) y"
    "holds_cell (value_cell TASE2_IND_POINT_TYPE_STATE_SUPPLEMENTAL (ucast b)) y"
    by (simp_all add: u8_u32)
  have i: "\<exists>x. MmsValue_newIntegerFromInt32 v = Some x \<and> holds_cell (IntCell v) x" using new_int by simp
  have r: "\<exists>x. Some (MmsValue_newFloat v) = Some x \<and> holds_cell (FloatCell v) x" using new_float by blast
  note cells = r i new_bits new_counter new_time [of timeTag] new_extended
  note defs = Tase2_PointValue_createRealQ_def Tase2_PointValue_createDiscreteQ_def
    Tase2_PointValue_createStateSupplementalQ_def
    Tase2_PointValue_createRealQTimeTag_def Tase2_PointValue_createStateQTimeTag_def
    Tase2_PointValue_createDiscreteQTimeTag_def Tase2_PointValue_createStateSupplementalQTimeTag_def
    Tase2_PointValue_createRealExtended_def Tase2_PointValue_createStateExtended_def
    Tase2_PointValue_createDiscreteExtended_def Tase2_PointValue_createStateSupplementalExtended_def
    Tase2_PointValue_createRealQTimeTagExtended_def Tase2_PointValue_createStateQTimeTagExtended_def
    Tase2_PointValue_createDiscreteQTimeTagExtended_def
    Tase2_PointValue_createStateSupplementalQTimeTagExtended_def
  note simps = documented_def point_cells_def with_values_def u8_u32 new_float
  show ?thesis
    unfolding Let_def
  proof (intro conjI, goal_cases)
    case 1
    then show ?case using created_single [OF r0] by (simp add: Tase2_PointValue_createReal_def)
  next
    case 2
    then show ?case using created_single [OF i0(2)] i0(1) by (simp add: Tase2_PointValue_createDiscrete_def)
  next
    case 3
    then show ?case using created_single [OF b0(2)] b0(1) by (simp add: Tase2_PointValue_createState_def)
  next
    case 4
    then show ?case using created_single [OF b0(3)] b0(1)
      by (simp add: Tase2_PointValue_createStateSupplemental_def)
  qed (unfold defs; rule created_cells; simp add: simps cells del: holds_cell.simps)+
qed

section \<open>Properties of indication points\<close>



text \<open>
  Which variables can be created: exactly the points with a change counter that are not states
  and lack quality or time stamp make the server use an element that was never set.
\<close>

theorem indication_variable_created:
  "createIndicationPointVariable p = None \<longleftrightarrow>
     ip_hasCov p \<and> ip_pointType p \<noteq> TASE2_IND_POINT_TYPE_STATE \<and>
     (ip_qualityClass p = TASE2_NO_QUALITY \<or> ip_timeStampClass p = TASE2_NO_TIMESTAMP)"
  by (rule indication_creatable)

lemma change_cell:
  assumes "holds_cells cs v" "0 \<le> i" "nat i < length cs"
    and f: "\<And>e. holds_cell (cs ! nat i) e \<Longrightarrow> \<exists>w. f e = Some w \<and> holds_cell d w"
  shows "\<exists>w. change_element (Some v) i f = Some w \<and> holds_cells (cs[nat i := d]) w"
proof -
  have "cell_update (\<lambda>e. map_option (\<lambda>e. (e, False)) (f e)) (cs ! nat i) d False"
    using f by (fastforce intro!: cell_updateI simp del: holds_cell.simps)
  from update_cell [OF assms(1-3) this, of False]
  show ?thesis
    by (auto simp: update_place_def read_place_def change_place_def change_element_def option.map_comp o_def
        split: Option.bind_splits)
qed

text \<open>The value of a protection event: flags, for packed ones the event first, then the two times.\<close>

definition event_cells :: "bool \<Rightarrow> u8 \<Rightarrow> u8 \<Rightarrow> u32 \<Rightarrow> u64 \<Rightarrow> cell list" where
  "event_cells packed ev f o_time e_time =
     (if packed then [BitsCell ev] else []) @ [BitsCell f, IntCell o_time, ExtendedTimeCell e_time]"

lemma default_int16: "holds_cell (IntCell 0) (MmsValue_newInteger 16)"
  by (simp add: holds_int_def MmsValue_newInteger_def) code_simp

lemma event_created:
  "\<exists>v. createProtectionEventVariable (Tase2_ProtectionEquipment_create packed) =
     Some ((Tase2_ProtectionEquipment_create packed)\<lparr>pe_pointValue := Some v, pe_serverCachedValue := Some v\<rparr>) \<and>
     holds_cells (event_cells packed 0 0 0 0) v"
proof -
  have "holds_cells (event_cells packed 0 0 0 0) (ValStructure
     ((if packed then [Some (MmsValue_newBitString 8)] else []) @ [Some (MmsValue_newBitString 8),
      Some (MmsValue_newInteger 16), Some (ValStructure [Some (MmsValue_newInteger 32), Some (MmsValue_newInteger 16)])]))"
    using default_cells default_int16
    by (cases packed) (simp_all add: event_cells_def holds_cells_Nil holds_cells_Cons del: holds_cell.simps)
  then show ?thesis
    by (cases packed) (simp_all add: createProtectionEventVariable_def protection_spec_def
        Tase2_ProtectionEquipment_create_def CreateTimeStampExtended_def)
qed

lemma set_event_cells:
  assumes "holds_cells (event_cells packed ev f ot et) v"
  shows "packed \<Longrightarrow> \<exists>w. change_element (Some v) 0 (\<lambda>e. MmsValue_setBitStringFromInteger e (ucast b)) = Some w \<and>
      holds_cells (event_cells packed b f ot et) w"
    "\<exists>w. change_element (Some v) (if packed then 1 else 0) (\<lambda>e. MmsValue_setBitStringFromInteger e (ucast b)) = Some w \<and>
      holds_cells (event_cells packed ev b ot et) w"
    "\<exists>w. change_element (Some v) (if packed then 2 else 1) (\<lambda>e. MmsValue_setInt32 e i) = Some w \<and>
      holds_cells (event_cells packed ev f i et) w"
    "\<exists>w. change_element (Some v) (if packed then 3 else 2) (\<lambda>e. set_extended e t) = Some w \<and>
      holds_cells (event_cells packed ev f ot (stored_seconds t * 1000 + t mod 1000)) w"
proof -
  have b: "holds_cell (BitsCell c) e \<Longrightarrow> \<exists>w. MmsValue_setBitStringFromInteger e (ucast b) = Some w \<and>
    holds_cell (BitsCell b) w" for c e by (rule set_bits)
  have i: "holds_cell (IntCell c) e \<Longrightarrow> \<exists>w. MmsValue_setInt32 e i = Some w \<and> holds_cell (IntCell i) w" for c e
    using set_int32 by simp
  have c1: "nat (if packed then 1 else 0) = (if packed then 1 else 0)"
    "nat (if packed then 2 else 1) = (if packed then 2 else 1)"
    "nat (if packed then 3 else 2) = (if packed then 3 else 2)" by simp_all
  show "\<exists>w. change_element (Some v) 0 (\<lambda>e. MmsValue_setBitStringFromInteger e (ucast b)) = Some w \<and>
      holds_cells (event_cells packed b f ot et) w" if packed
    using change_cell [OF assms, of 0 "\<lambda>e. MmsValue_setBitStringFromInteger e (ucast b)" "BitsCell b"] b that
    by (simp add: event_cells_def del: holds_cell.simps)
  show "\<exists>w. change_element (Some v) (if packed then 1 else 0) (\<lambda>e. MmsValue_setBitStringFromInteger e (ucast b)) = Some w \<and>
      holds_cells (event_cells packed ev b ot et) w"
    using change_cell [OF assms, of "if packed then 1 else 0" "\<lambda>e. MmsValue_setBitStringFromInteger e (ucast b)" "BitsCell b"] b
    by (cases packed) (simp_all add: event_cells_def del: holds_cell.simps)
  show "\<exists>w. change_element (Some v) (if packed then 2 else 1) (\<lambda>e. MmsValue_setInt32 e i) = Some w \<and>
      holds_cells (event_cells packed ev f i et) w"
    using change_cell [OF assms, of "if packed then 2 else 1" "\<lambda>e. MmsValue_setInt32 e i" "IntCell i"] i
    by (cases packed) (simp_all add: event_cells_def del: holds_cell.simps)
  show "\<exists>w. change_element (Some v) (if packed then 3 else 2) (\<lambda>e. set_extended e t) = Some w \<and>
      holds_cells (event_cells packed ev f ot (stored_seconds t * 1000 + t mod 1000)) w"
    using change_cell [OF assms, of "if packed then 3 else 2" "\<lambda>e. set_extended e t"
        "ExtendedTimeCell (stored_seconds t * 1000 + t mod 1000)"] set_extended_cell [of et _ t]
    by (cases packed) (simp_all add: event_cells_def del: holds_cell.simps)
qed

text \<open>
  A protection equipment point delivers what the application sets: after its variable is
  created, and the event, the flags and the two times are set, the getters of the point value
  answer them without an error. The general getter of the time stamp answers the operating time.
\<close>

theorem protection_roundtrip:
  "let p = Tase2_ProtectionEquipment_create False in
   (\<exists>q pv. createProtectionEventVariable p \<bind> (\<lambda>p. Tase2_ProtectionEquipment_setSingleEventFlags p f) \<bind>
        (\<lambda>p. Tase2_ProtectionEquipment_setOperatingTime p ot) \<bind>
        (\<lambda>p. Tase2_ProtectionEquipment_setEventTime p t) = Some q \<and> protection_value q = Some pv \<and>
      Tase2_PointValue_getType pv = TASE2_VALUE_TYPE_SINGLE_EVENT \<and>
      Tase2_PointValue_getSingleEventFlagsEx pv = Some (f, TASE2_POINT_VALUE_ERROR_OK) \<and>
      Tase2_PointValue_getOperatingTimeEx pv = Some (ot, TASE2_POINT_VALUE_ERROR_OK) \<and>
      Tase2_PointValue_getEventTimeEx pv =
        Some (stored_seconds t * 1000 + t mod 1000, TASE2_POINT_VALUE_ERROR_OK) \<and>
      Tase2_PointValue_getTimeStampEx pv = Some (scast ot * 1000, TASE2_POINT_VALUE_ERROR_OK)) \<and>
   (let p = Tase2_ProtectionEquipment_create True in
    \<exists>q pv. createProtectionEventVariable p \<bind> (\<lambda>p. Tase2_ProtectionEquipment_setPackedEvent p ev) \<bind>
        (\<lambda>p. Tase2_ProtectionEquipment_setPackedEventFlags p f) \<bind>
        (\<lambda>p. Tase2_ProtectionEquipment_setOperatingTime p ot) \<bind>
        (\<lambda>p. Tase2_ProtectionEquipment_setEventTime p t) = Some q \<and> protection_value q = Some pv \<and>
      Tase2_PointValue_getType pv = TASE2_VALUE_TYPE_PACKED_EVENT \<and>
      Tase2_PointValue_getPackedEventEx pv = Some (ev, TASE2_POINT_VALUE_ERROR_OK) \<and>
      Tase2_PointValue_getPackedEventFlagsEx pv = Some (f, TASE2_POINT_VALUE_ERROR_OK) \<and>
      Tase2_PointValue_getOperatingTimeEx pv = Some (ot, TASE2_POINT_VALUE_ERROR_OK) \<and>
      Tase2_PointValue_getEventTimeEx pv =
        Some (stored_seconds t * 1000 + t mod 1000, TASE2_POINT_VALUE_ERROR_OK) \<and>
      Tase2_PointValue_getTimeStampEx pv = Some (scast ot * 1000, TASE2_POINT_VALUE_ERROR_OK))"
proof -
  note setters = Tase2_ProtectionEquipment_setSingleEventFlags_def Tase2_ProtectionEquipment_setPackedEvent_def
    Tase2_ProtectionEquipment_setPackedEventFlags_def Tase2_ProtectionEquipment_setOperatingTime_def
    Tase2_ProtectionEquipment_setEventTime_def change_equipment_def Tase2_ProtectionEquipment_create_def
    protection_value_def
  note getters = Tase2_PointValue_getType_def Tase2_PointValue_getSingleEventFlagsEx_def
    Tase2_PointValue_getPackedEventEx_def Tase2_PointValue_getPackedEventFlagsEx_def
    Tase2_PointValue_getOperatingTimeEx_def Tase2_PointValue_getEventTimeEx_def
    Tase2_PointValue_getTimeStampEx_def operating_time_place_def event_time_place_def
    get_or_def read_place_def element_place_def getMmsTimestamp_def type_of_def MmsValue_getArraySize_def
    getElement_structure convertMmsTimestampToMsTime_def
  let ?et = "stored_seconds t * 1000 + t mod 1000"
  have ext: "MmsValue_getType v = MMS_STRUCTURE \<and> read_extended v = Some x" if "holds_cell (ExtendedTimeCell x) v" for x v
    using read_cells(5) [OF that] by (auto simp: convertMmsTimestampToMsTime_def)
  show ?thesis
    unfolding Let_def
  proof (intro conjI, goal_cases)
    case 1
    obtain v0 where v0: "createProtectionEventVariable (Tase2_ProtectionEquipment_create False) =
        Some ((Tase2_ProtectionEquipment_create False)\<lparr>pe_pointValue := Some v0, pe_serverCachedValue := Some v0\<rparr>)"
      "holds_cells (event_cells False 0 0 0 0) v0" using event_created [of False] by blast
    obtain v1 where v1: "change_element (Some v0) 0 (\<lambda>e. MmsValue_setBitStringFromInteger e (ucast f)) = Some v1"
      "holds_cells (event_cells False 0 f 0 0) v1" using set_event_cells(2) [OF v0(2), of f] by auto
    obtain v2 where v2: "change_element (Some v1) 1 (\<lambda>e. MmsValue_setInt32 e ot) = Some v2"
      "holds_cells (event_cells False 0 f ot 0) v2" using set_event_cells(3) [OF v1(2), of ot] by auto
    obtain v3 where v3: "change_element (Some v2) 2 (\<lambda>e. set_extended e t) = Some v3"
      "holds_cells (event_cells False 0 f ot ?et) v3" using set_event_cells(4) [OF v2(2), of t] by auto
    obtain a b c where v: "v3 = ValStructure [Some a, Some b, Some c]" "holds_cell (BitsCell f) a"
      "holds_cell (IntCell ot) b" "holds_cell (ExtendedTimeCell ?et) c"
      using v3(2) by (auto simp: holds_cells_def event_cells_def list_all2_Cons1 simp del: holds_cell.simps)
    show ?case
      unfolding v0(1) using v1(1) v2(1) v3(1) read_cells(3) [OF v(2)] read_cells(2) [OF v(3)] ext [OF v(4)]
      by (simp add: setters, simp add: v(1) getters)
  next
    case 2
    obtain v0 where v0: "createProtectionEventVariable (Tase2_ProtectionEquipment_create True) =
        Some ((Tase2_ProtectionEquipment_create True)\<lparr>pe_pointValue := Some v0, pe_serverCachedValue := Some v0\<rparr>)"
      "holds_cells (event_cells True 0 0 0 0) v0" using event_created [of True] by blast
    obtain v1 where v1: "change_element (Some v0) 0 (\<lambda>e. MmsValue_setBitStringFromInteger e (ucast ev)) = Some v1"
      "holds_cells (event_cells True ev 0 0 0) v1" using set_event_cells(1) [OF v0(2), of ev] by auto
    obtain v2 where v2: "change_element (Some v1) 1 (\<lambda>e. MmsValue_setBitStringFromInteger e (ucast f)) = Some v2"
      "holds_cells (event_cells True ev f 0 0) v2" using set_event_cells(2) [OF v1(2), of f] by auto
    obtain v3 where v3: "change_element (Some v2) 2 (\<lambda>e. MmsValue_setInt32 e ot) = Some v3"
      "holds_cells (event_cells True ev f ot 0) v3" using set_event_cells(3) [OF v2(2), of ot] by auto
    obtain v4 where v4: "change_element (Some v3) 3 (\<lambda>e. set_extended e t) = Some v4"
      "holds_cells (event_cells True ev f ot ?et) v4" using set_event_cells(4) [OF v3(2), of t] by auto
    obtain a b c d where v: "v4 = ValStructure [Some a, Some b, Some c, Some d]" "holds_cell (BitsCell ev) a"
      "holds_cell (BitsCell f) b" "holds_cell (IntCell ot) c" "holds_cell (ExtendedTimeCell ?et) d"
      using v4(2) by (auto simp: holds_cells_def event_cells_def list_all2_Cons1 simp del: holds_cell.simps)
    show ?case
      unfolding v0(1) using v1(1) v2(1) v3(1) v4(1) read_cells(3) [OF v(2)] read_cells(3) [OF v(3)]
        read_cells(2) [OF v(4)] ext [OF v(5)]
      by (simp add: setters, simp add: v(1) getters)
  qed
qed

lemma stored_seconds_exact:
  assumes "t < 2147483648000"
  shows "stored_seconds t * 1000 = t - t mod 1000"
proof -
  define x where "x = uint t div 1000"
  have t: "0 \<le> uint t" "uint t < 2147483648000" using assms by (simp_all add: word_less_def)
  then have x: "0 \<le> x" "x < 2147483648" unfolding x_def by linarith+
  have "uint (t div 1000) = x" by (simp add: uint_div x_def)
  then have d: "t div 1000 = word_of_int x" by (metis word_of_int_uint)
  have "uint (word_of_int x :: u64) = x" by (subst uint_word_of_int) (use x in simp)
  then have "(ucast (word_of_int x :: u64) :: u32) = word_of_int x" unfolding ucast_eq by simp
  moreover have "sint (word_of_int x :: u32) = x" by (rule sint_small) (use x in simp_all)
  then have "(scast (word_of_int x :: u32) :: u64) = word_of_int x" unfolding scast_eq by simp
  ultimately have "stored_seconds t = t div 1000" unfolding stored_seconds_def d by simp
  then have "stored_seconds t * 1000 + t mod 1000 = t" by (simp add: div_mult_mod_eq)
  then show ?thesis by (simp add: eq_diff_eq)
qed

text \<open>
  An extended time stamp keeps every time before 2038 exactly, in milliseconds; a plain one
  keeps its seconds.
\<close>

theorem time_stamp_exact:
  assumes "t < 2147483648000"
  shows "(\<exists>w. set_time (ValStructure [Some (MmsValue_newInteger 32), Some (MmsValue_newInteger 16)]) t = Some w \<and>
      convertMmsTimestampToMsTime (Some w) = Some t) \<and>
    (\<exists>w. set_time (MmsValue_newInteger 32) t = Some w \<and>
      convertMmsTimestampToMsTime (Some w) = Some (t - t mod 1000))"
proof -
  let ?s = "stored_seconds t * 1000"
  have e: "?s = t - t mod 1000" by (rule stored_seconds_exact [OF assms])
  obtain v where v: "set_time (ValStructure [Some (MmsValue_newInteger 32), Some (MmsValue_newInteger 16)]) t = Some v"
    "holds_cell (ExtendedTimeCell (?s + t mod 1000)) v"
    using set_extended_cell [OF default_cells(5), of t] set_time_extended [OF default_cells(5), of t] by metis
  obtain w where w: "set_time (MmsValue_newInteger 32) t = Some w" "holds_cell (TimeCell ?s) w"
    using set_time_cell [OF default_cells(3), of t] by blast
  show ?thesis using v(1) w(1) read_cells(5) [OF v(2)] read_cells(4) [OF w(2)] by (simp add: e)
qed

theorem time_stamp_exact_witness:
  "\<exists>w. set_time (ValStructure [Some (MmsValue_newInteger 32), Some (MmsValue_newInteger 16)]) 1700000000123 = Some w \<and>
      convertMmsTimestampToMsTime (Some w) = Some 1700000000123"
  using time_stamp_exact [of 1700000000123] by simp

text \<open>
  What the setters get wrong: the flags given for a supplemental state are not used; the flags
  of a structured state cannot be set in a point value, and setting the flags of a single event
  always answers the wrong type; the creator of a state with flags makes a supplemental state; the
  time stamp of 2038-01-19 03:14:08 is read as a time before 1970 (modulo \<open>2 ^ 64\<close>) and the change
  counter 65535 as 255; a negative zero is not stored over a zero while storing the same NaN again
  is a change; the flags of a protection point without a value use a null pointer.
\<close>

theorem point_defects:
  "Tase2_IndicationPoint_setStateSupplementalQ p b f = Tase2_IndicationPoint_setStateSupplementalQ p b g \<and>
   Tase2_IndicationPoint_setStateSupplementalQTimeStamp p b f t =
     Tase2_IndicationPoint_setStateSupplementalQTimeStamp p b g t \<and>
   Tase2_PointValue_setFlagsEx \<lparr>pv_type = TASE2_VALUE_TYPE_STATE, pv_value = ValStructure es\<rparr> f \<in>
     {None, Some (\<lparr>pv_type = TASE2_VALUE_TYPE_STATE, pv_value = ValStructure es\<rparr>, TASE2_POINT_VALUE_ERROR_WRONG_TYPE)} \<and>
   map_option snd (Tase2_PointValue_setSingleEventFlagsEx pv f) \<in> {None, Some TASE2_POINT_VALUE_ERROR_WRONG_TYPE} \<and>
   map_option pv_type (Tase2_PointValue_createStateQ b f) = Some TASE2_VALUE_TYPE_STATE_SUPPLEMENTAL \<and>
   set_time (MmsValue_newInteger 32) 2147483648000 \<bind> (\<lambda>w. convertMmsTimestampToMsTime (Some w)) =
     Some (- 2147483648000) \<and>
   (createIndicationPointVariable (Tase2_IndicationPoint_create TASE2_IND_POINT_TYPE_REAL TASE2_QUALITY
       TASE2_TIMESTAMP True False) \<bind> (\<lambda>p. Tase2_IndicationPoint_setCOV p 65535)) \<bind>
     Tase2_DataPoint_getPointValue \<bind> Tase2_PointValue_getCOV = Some 255 \<and>
   updateFloatValue fmt 0x80000000 (MmsValue_newFloat 0) = Some (MmsValue_newFloat 0, False) \<and>
   map_option snd (updateFloatValue fmt NAN (MmsValue_newFloat NAN)) = Some True \<and>
   Tase2_ProtectionEquipment_setSingleEventFlags (Tase2_ProtectionEquipment_create False) f = None"
proof (intro conjI, goal_cases)
  case 3
  show ?case by (auto simp: Tase2_PointValue_setFlagsEx_def set_or_def Let_def split: Option.bind_splits)
next
  case 4
  show ?case by (cases "set_bits_at pv 0 f") (auto simp: Tase2_PointValue_setSingleEventFlagsEx_def)
next
  case 5
  obtain x y where "new_flags b = Some x" "new_flags f = Some y" using new_bits by blast
  then show ?case by (simp add: Tase2_PointValue_createStateQ_def new_point_value_def)
next
  case 6
  show ?case by code_simp
next
  case 7
  show ?case by code_simp
next
  case 8
  have "float_eq 0 0x80000000" by code_simp
  with get_float [OF new_float, of "fmt_to_float fmt" 0] show ?case by (simp add: updateFloatValue_def)
next
  case 9
  have "\<not> float_eq NAN NAN" by code_simp
  moreover obtain w where "MmsValue_setFloat fmt (MmsValue_newFloat NAN) NAN = Some w"
    using set_float [OF new_float, of fmt NAN NAN] by blast
  ultimately show ?case using get_float [OF new_float, of "fmt_to_float fmt" NAN] by (simp add: updateFloatValue_def)
qed (simp_all add: Tase2_IndicationPoint_setStateSupplementalQ_def
    Tase2_IndicationPoint_setStateSupplementalQTimeStamp_def Tase2_ProtectionEquipment_setSingleEventFlags_def
    Tase2_ProtectionEquipment_create_def change_element_def)

end
