(* ===== verification/MmsError.thy ===== *)
theory MmsError
  imports Main
begin

text \<open>The error codes of \<^verbatim>\<open>mms/inc/mms_common.h\<close> that client and server share.\<close>

datatype MmsError = MMS_ERROR_NONE | MMS_ERROR_CONNECTION_REJECTED | MMS_ERROR_CONNECTION_LOST
  | MMS_ERROR_SERVICE_TIMEOUT | MMS_ERROR_PARSING_RESPONSE | MMS_ERROR_HARDWARE_FAULT
  | MMS_ERROR_CONCLUDE_REJECTED | MMS_ERROR_INVALID_ARGUMENTS | MMS_ERROR_OUTSTANDING_CALL_LIMIT
  | MMS_ERROR_OTHER | MMS_ERROR_VMDSTATE_OTHER | MMS_ERROR_APPLICATION_REFERENCE_OTHER
  | MMS_ERROR_DEFINITION_OTHER | MMS_ERROR_DEFINITION_INVALID_ADDRESS | MMS_ERROR_DEFINITION_TYPE_UNSUPPORTED
  | MMS_ERROR_DEFINITION_TYPE_INCONSISTENT | MMS_ERROR_DEFINITION_OBJECT_UNDEFINED
  | MMS_ERROR_DEFINITION_OBJECT_EXISTS | MMS_ERROR_DEFINITION_OBJECT_ATTRIBUTE_INCONSISTENT
  | MMS_ERROR_RESOURCE_OTHER | MMS_ERROR_RESOURCE_CAPABILITY_UNAVAILABLE
  | MMS_ERROR_SERVICE_OTHER | MMS_ERROR_SERVICE_OBJECT_CONSTRAINT_CONFLICT
  | MMS_ERROR_SERVICE_PREEMPT_OTHER | MMS_ERROR_TIME_RESOLUTION_OTHER
  | MMS_ERROR_ACCESS_OTHER | MMS_ERROR_ACCESS_OBJECT_NON_EXISTENT | MMS_ERROR_ACCESS_OBJECT_ACCESS_UNSUPPORTED
  | MMS_ERROR_ACCESS_OBJECT_ACCESS_DENIED | MMS_ERROR_ACCESS_OBJECT_INVALIDATED
  | MMS_ERROR_ACCESS_OBJECT_VALUE_INVALID | MMS_ERROR_ACCESS_TEMPORARILY_UNAVAILABLE
  | MMS_ERROR_FILE_OTHER | MMS_ERROR_FILE_FILENAME_AMBIGUOUS | MMS_ERROR_FILE_FILE_BUSY
  | MMS_ERROR_FILE_FILENAME_SYNTAX_ERROR | MMS_ERROR_FILE_CONTENT_TYPE_INVALID | MMS_ERROR_FILE_POSITION_INVALID
  | MMS_ERROR_FILE_FILE_ACCESS_DENIED | MMS_ERROR_FILE_FILE_NON_EXISTENT | MMS_ERROR_FILE_DUPLICATE_FILENAME
  | MMS_ERROR_FILE_INSUFFICIENT_SPACE_IN_FILESTORE
  | MMS_ERROR_REJECT_OTHER | MMS_ERROR_REJECT_UNKNOWN_PDU_TYPE | MMS_ERROR_REJECT_INVALID_PDU
  | MMS_ERROR_REJECT_UNRECOGNIZED_SERVICE | MMS_ERROR_REJECT_UNRECOGNIZED_MODIFIER
  | MMS_ERROR_REJECT_REQUEST_INVALID_ARGUMENT | MMS_ERROR_REJECT_MAX_OUTSTANDING_SERVICES_EXCEEDED

end
