(* ===== verification/Access.thy ===== *)
theory Access
  imports TransferSetServer IndicationPoint MmsError
begin

text \<open>
  What a client reaches through the MMS handlers of the server (\<^verbatim>\<open>tase2_server/tase2_server.c\<close>): the
  reads and writes of variables with their checks against the bilateral table, the changes of data
  sets, the end of a connection, and the online values the application updates.

  A point is one of the three structures that extend \<open>sTase2_DataPoint\<close>, at an address. The value
  and the tag of a point are also in the table \<open>sv_points\<close> of the transfer sets; \<open>store_object\<close> keeps
  both the same. A domain's address is 0 for the VCC and one more than the position in the list of
  domains for the others. Log messages are left out; notifications of the application are
  recorded whether or not it has installed a handler.
\<close>

section \<open>The server\<close>

datatype Tase2_DataPointType =
  TASE2_POINT_TYPE_INDICATION | TASE2_POINT_TYPE_CONTROL | TASE2_POINT_TYPE_PROTECTION_EVENT

datatype point_object =
    IndicationObject IndicationPoint
  | ControlObject ControlPoint
  | ProtectionObject ProtectionEquipment

fun object_type :: "point_object \<Rightarrow> Tase2_DataPointType" where
  "object_type (IndicationObject _) = TASE2_POINT_TYPE_INDICATION"
| "object_type (ControlObject _) = TASE2_POINT_TYPE_CONTROL"
| "object_type (ProtectionObject _) = TASE2_POINT_TYPE_PROTECTION_EVENT"

fun object_value :: "point_object \<Rightarrow> MmsValue option" where
  "object_value (IndicationObject ip) = ip_pointValue ip"
| "object_value (ControlObject cp) = cp_pointValue cp"
| "object_value (ProtectionObject pe) = pe_pointValue pe"

fun object_cached :: "point_object \<Rightarrow> MmsValue option" where
  "object_cached (IndicationObject ip) = ip_serverCachedValue ip"
| "object_cached (ControlObject cp) = cp_serverCachedValue cp"
| "object_cached (ProtectionObject pe) = pe_serverCachedValue pe"

fun object_tag :: "point_object \<Rightarrow> MmsValue option" where
  "object_tag (ControlObject cp) = cp_tagValue cp"
| "object_tag _ = None"

fun set_object_value :: "point_object \<Rightarrow> MmsValue \<Rightarrow> point_object" where
  "set_object_value (IndicationObject ip) v = IndicationObject (ip\<lparr>ip_pointValue := Some v\<rparr>)"
| "set_object_value (ControlObject cp) v = ControlObject (cp\<lparr>cp_pointValue := Some v\<rparr>)"
| "set_object_value (ProtectionObject pe) v = ProtectionObject (pe\<lparr>pe_pointValue := Some v\<rparr>)"

fun set_object_cached :: "point_object \<Rightarrow> MmsValue \<Rightarrow> point_object" where
  "set_object_cached (IndicationObject ip) v = IndicationObject (ip\<lparr>ip_serverCachedValue := Some v\<rparr>)"
| "set_object_cached (ControlObject cp) v = ControlObject (cp\<lparr>cp_serverCachedValue := Some v\<rparr>)"
| "set_object_cached (ProtectionObject pe) v = ProtectionObject (pe\<lparr>pe_serverCachedValue := Some v\<rparr>)"

text \<open>\<open>as_token\<close> is the security token of a connection: the address of its table.\<close>

record AccessServer =
  as_transfer :: TransferServer
  as_control :: control_server
  as_objects :: "point \<Rightarrow> point_object"
  as_bilateralTableId :: "nat \<Rightarrow> cstr option"
  as_tables :: "nat \<Rightarrow> BilateralTable"
  as_token :: "nat \<Rightarrow> nat option"
  as_imEnabledConnections :: "nat list"
  as_writeDataHandler :: "(nat \<Rightarrow> point \<Rightarrow> PointValue \<Rightarrow> int) option"

datatype access_effect =
    ControlEffect point control_effect
  | TransferEffect ts_effect
  | WriteDataHandlerCalled nat point PointValue
  | IMTransferSetEvent nat "nat option" bool
  | DataSetChanged bool "nat option" "nat option" cstr "point list"
  | ClientConnectionEvent nat "nat option" bool

datatype read_result = ReadValue "MmsValue option" | ReadError MmsDataAccessError

datatype MmsObjectScope = MMS_DOMAIN_SPECIFIC | MMS_ASSOCIATION_SPECIFIC | MMS_VMD_SPECIFIC

definition connection_table :: "AccessServer \<Rightarrow> nat \<Rightarrow> BilateralTable option" where
  "connection_table srv connection = map_option (as_tables srv) (as_token srv connection)"

definition store_object :: "AccessServer \<Rightarrow> point \<Rightarrow> point_object \<Rightarrow> AccessServer" where
  "store_object srv p obj =
     (let ts = as_transfer srv; pts = sv_points ts in
      srv\<lparr>as_objects := (as_objects srv)(p := obj),
          as_transfer := ts\<lparr>sv_points := pts(p := (pts p)\<lparr>dp_pointValue := object_value obj,
            dp_tagValue := object_tag obj\<rparr>)\<rparr>\<rparr>)"

definition trigger :: "AccessServer \<Rightarrow> point \<Rightarrow> (nat \<Rightarrow> u64) \<Rightarrow> (AccessServer \<times> access_effect list) option" where
  "trigger srv p clock = do {
     (ts, effects) \<leftarrow> tase2_Server_triggerTransferSets (as_transfer srv) p clock;
     Some (srv\<lparr>as_transfer := ts\<rparr>, map TransferEffect effects) }"

section \<open>Domains\<close>

fun find_domain :: "nat \<Rightarrow> Tase2_Domain list \<Rightarrow> cstr \<Rightarrow> (nat \<times> Tase2_Domain) option" where
  "find_domain i [] domainName = None"
| "find_domain i (d # ds) domainName =
     (if dom_name d = Some domainName then Some (i, d) else find_domain (i + 1) ds domainName)"

definition request_domain :: "AccessServer \<Rightarrow> cstr option \<Rightarrow> (nat \<times> Tase2_Domain) option" where
  "request_domain srv domain =
     (let model = sv_dataModel (as_transfer srv) in
      case domain of
        None \<Rightarrow> Some (0, dm_vcc model)
      | Some domainName \<Rightarrow> find_domain 1 (dm_domains model) domainName)"

text \<open>The domain at an address.\<close>

definition domain_at :: "Tase2_DataModel \<Rightarrow> nat \<Rightarrow> Tase2_Domain option" where
  "domain_at model d = (if d = 0 then Some (dm_vcc model)
     else if d - 1 < length (dm_domains model) then Some (dm_domains model ! (d - 1)) else None)"

text \<open>The table's domain is compared for a named domain only.\<close>

definition wrong_domain ::
    "cstr option \<Rightarrow> BilateralTable option \<Rightarrow> (nat \<times> Tase2_Domain) option \<Rightarrow> bool" where
  "wrong_domain domain blt tase2Domain \<longleftrightarrow>
     domain \<noteq> None \<and> (case blt of None \<Rightarrow> False | Some blt \<Rightarrow> blt_domain blt \<noteq> map_option fst tase2Domain)"

definition point_allowed :: "BilateralTable option \<Rightarrow> nat \<Rightarrow> point \<Rightarrow> nat \<Rightarrow> bool" where
  "point_allowed blt d p flags =
     (case blt of None \<Rightarrow> True | Some blt \<Rightarrow> BilateralTable_checkDataPointAccess blt (Some d) p flags)"

definition control_allowed :: "BilateralTable option \<Rightarrow> nat \<Rightarrow> point \<Rightarrow> nat \<Rightarrow> bool" where
  "control_allowed blt d p flags =
     (case blt of None \<Rightarrow> True | Some blt \<Rightarrow> BilateralTable_checkControlPointAccess blt (Some d) p flags)"

section \<open>Reading\<close>

text \<open>The result of an operation on a control point with what it triggers.\<close>

definition control_done ::
    "AccessServer \<Rightarrow> point \<Rightarrow> ControlPoint \<times> control_effect list \<times> MmsDataAccessError \<Rightarrow> (nat \<Rightarrow> u64) \<Rightarrow>
     (AccessServer \<times> access_effect list \<times> MmsDataAccessError) option" where
  "control_done srv p r clock = (case r of (cp, effects, result) \<Rightarrow> do {
     let srv = store_object srv p (ControlObject cp);
     (srv, triggered) \<leftarrow> (if TransferSetsTriggered \<in> set effects then trigger srv p clock else Some (srv, []));
     Some (srv, map (ControlEffect p) effects @ triggered, result) })"

type_synonym read_response = "(AccessServer \<times> access_effect list \<times> read_result) option"

text \<open>A select; the check-back id of the table's entry goes into the value that is returned.\<close>

definition read_select ::
    "AccessServer \<Rightarrow> BilateralTable option \<Rightarrow> nat \<Rightarrow> point \<Rightarrow> ControlPoint \<Rightarrow> nat \<Rightarrow> u64 \<Rightarrow> (nat \<Rightarrow> u64) \<Rightarrow> read_response" where
  "read_select srv blt d p cp connection now clock =
     (case cp_sboValue cp of
        None \<Rightarrow> Some (srv, [], ReadError DATA_ACCESS_ERROR_OBJECT_ATTRIBUTE_INCONSISTENT)
      | Some sboValue \<Rightarrow>
          if \<not> control_allowed blt d p BLT_ACCESS_ALLOW_OPERATE
          then Some (srv, [], ReadError DATA_ACCESS_ERROR_OBJECT_ACCESS_DENIED)
          else do {
            cp \<leftarrow> (case blt of
                     None \<Rightarrow> Some cp
                   | Some blt \<Rightarrow> do {
                       checkBackId \<leftarrow> BilateralTable_getCheckBackId blt p;
                       sboValue \<leftarrow> MmsValue_setInt16 sboValue checkBackId;
                       Some (cp\<lparr>cp_sboValue := Some sboValue\<rparr>) });
            (cp, effects, selectResult) \<leftarrow> selectControl (as_control srv) cp connection now;
            (srv, effects, selectResult) \<leftarrow> control_done srv p (cp, effects, selectResult) clock;
            Some (srv, effects,
              if selectResult = DATA_ACCESS_ERROR_SUCCESS then ReadValue (cp_sboValue cp) else ReadError selectResult) })"

definition read_tag ::
    "AccessServer \<Rightarrow> BilateralTable option \<Rightarrow> nat \<Rightarrow> point \<Rightarrow> ControlPoint \<Rightarrow> u64 \<Rightarrow> read_response" where
  "read_tag srv blt d p cp now =
     (if \<not> control_allowed blt d p BLT_ACCESS_ALLOW_GET_TAG
      then Some (srv, [], ReadError DATA_ACCESS_ERROR_OBJECT_ACCESS_DENIED)
      else do {
        (cp, v) \<leftarrow> readTag (as_control srv) cp now;
        Some (store_object srv p (ControlObject cp), [], ReadValue v) })"

definition read_point ::
    "AccessServer \<Rightarrow> BilateralTable option \<Rightarrow> nat \<Rightarrow> point \<Rightarrow> bool \<Rightarrow> bool \<Rightarrow> nat \<Rightarrow> u64 \<Rightarrow> (nat \<Rightarrow> u64) \<Rightarrow> read_response" where
  "read_point srv blt d p isSBO isTag connection now clock =
     (let obj = as_objects srv p;
          checkResult = (if object_type obj = TASE2_POINT_TYPE_CONTROL
            then control_allowed blt d p BLT_ACCESS_ALLOW_READ else point_allowed blt d p BLT_ACCESS_ALLOW_READ) in
      if \<not> checkResult then Some (srv, [], ReadError DATA_ACCESS_ERROR_OBJECT_ACCESS_DENIED)
      else if isSBO then
        (case obj of
           ControlObject cp \<Rightarrow> read_select srv blt d p cp connection now clock
         | _ \<Rightarrow> Some (srv, [], ReadError DATA_ACCESS_ERROR_OBJECT_ACCESS_UNSUPPORTED))
      else if isTag then
        (case obj of
           ControlObject cp \<Rightarrow> read_tag srv blt d p cp now
         | _ \<Rightarrow> Some (srv, [], ReadError DATA_ACCESS_ERROR_OBJECT_ACCESS_UNSUPPORTED))
      else Some (srv, [], ReadValue (object_value obj)))"

text \<open>A name that is no data point; it is the one left after a suffix was cut off.\<close>

definition read_special ::
    "AccessServer \<Rightarrow> nat \<Rightarrow> Tase2_Domain \<Rightarrow> cstr \<Rightarrow> nat \<Rightarrow> read_response" where
  "read_special srv d domain variableId connection =
     (if variableId = cstring ''Bilateral_Table_ID'' then do {
        bltVal \<leftarrow> MmsValue_newVisibleString (as_bilateralTableId srv d);
        Some (srv, [], ReadValue (Some bltVal)) }
      else if variableId = cstring ''Next_DSTransfer_Set'' then do {
        let (ts, dsTs) = tase2_Server_getNextDSTransferSet (as_transfer srv) domain connection;
        let srv = srv\<lparr>as_transfer := ts\<rparr>;
        (case dsTs of
           None \<Rightarrow> Some (srv, [], ReadError DATA_ACCESS_ERROR_TEMPORARILY_UNAVAILABLE)
         | Some t \<Rightarrow> do {
             v \<leftarrow> tase2_createObjectNameValue (dom_name domain) (ts_name (sv_sets ts t));
             Some (srv, [], ReadValue (Some v)) }) }
      else
        (case find (\<lambda>t. ts_name (sv_sets (as_transfer srv) t) = variableId) (dom_transferSets domain) of
           Some t \<Rightarrow> Some (srv, [], ReadValue (Some (ts_mmsValue (sv_sets (as_transfer srv) t))))
         | None \<Rightarrow> Some (srv, [], ReadError DATA_ACCESS_ERROR_OBJECT_ACCESS_DENIED)))"

definition is_select_name :: "cstr \<Rightarrow> bool" where
  "is_select_name variableId \<longleftrightarrow> length variableId > 4 \<and> StringUtils_endsWith variableId (cstring ''_SBO'')"

definition is_tag_name :: "cstr \<Rightarrow> bool" where
  "is_tag_name variableId \<longleftrightarrow> length variableId > 4 \<and> StringUtils_endsWith variableId (cstring ''_TAG'')"

definition mmsReadVariableHandler ::
    "AccessServer \<Rightarrow> cstr option \<Rightarrow> cstr \<Rightarrow> nat \<Rightarrow> u64 \<Rightarrow> (nat \<Rightarrow> u64) \<Rightarrow> read_response" where
  "mmsReadVariableHandler srv domain variableId connection now clock =
     (let variableId = take 99 variableId;
          blt = connection_table srv connection;
          tase2Domain = request_domain srv domain in
      if wrong_domain domain blt tase2Domain
      then Some (srv, [], ReadError DATA_ACCESS_ERROR_OBJECT_ACCESS_DENIED)
      else case tase2Domain of
        None \<Rightarrow> Some (srv, [], ReadError DATA_ACCESS_ERROR_OBJECT_ACCESS_DENIED)
      | Some (d, tase2Domain) \<Rightarrow>
          let isSBO = is_select_name variableId; isTag = is_tag_name variableId;
              variableId = (if isTag \<or> isSBO then take (length variableId - 4) variableId else variableId) in
          case HashTree_find (dom_dataPointHashTree tase2Domain) variableId of
            Some p \<Rightarrow> read_point srv blt d p isSBO isTag connection now clock
          | None \<Rightarrow> read_special srv d tase2Domain variableId connection)"

section \<open>Writing\<close>

type_synonym write_response = "(AccessServer \<times> access_effect list \<times> MmsDataAccessError) option"

definition getPointValueType :: "point_object \<Rightarrow> Tase2_PointValueType option" where
  "getPointValueType obj =
     (case obj of
        IndicationObject ip \<Rightarrow> Some (indication_value_type (ip_pointType ip))
      | ProtectionObject pe \<Rightarrow>
          Some (if pe_isPacked pe then TASE2_VALUE_TYPE_PACKED_EVENT else TASE2_VALUE_TYPE_SINGLE_EVENT)
      | ControlObject cp \<Rightarrow> None)"

definition tase2_server_IsIMTransferSetEnabled :: "AccessServer \<Rightarrow> nat \<Rightarrow> bool" where
  "tase2_server_IsIMTransferSetEnabled srv connection \<longleftrightarrow> connection \<in> set (as_imEnabledConnections srv)"

definition tase2_server_EnableIMTransferSet :: "AccessServer \<Rightarrow> nat \<Rightarrow> AccessServer \<times> access_effect list" where
  "tase2_server_EnableIMTransferSet srv connection =
     (srv\<lparr>as_imEnabledConnections := as_imEnabledConnections srv @ [connection]\<rparr>,
      [IMTransferSetEvent connection (as_token srv connection) True])"

definition tase2_server_DisableIMTransferSet :: "AccessServer \<Rightarrow> nat \<Rightarrow> AccessServer \<times> access_effect list" where
  "tase2_server_DisableIMTransferSet srv connection =
     (srv\<lparr>as_imEnabledConnections := remove1 connection (as_imEnabledConnections srv)\<rparr>,
      [IMTransferSetEvent connection (as_token srv connection) False])"

definition write_association :: "AccessServer \<Rightarrow> cstr \<Rightarrow> MmsValue \<Rightarrow> nat \<Rightarrow> write_response" where
  "write_association srv variableId v connection =
     (if variableId = cstring ''IM_Transfer_Set'' then do {
        enable \<leftarrow> MmsValue_getBoolean v;
        let (srv, effects) = (if enable then
              if \<not> tase2_server_IsIMTransferSetEnabled srv connection
              then tase2_server_EnableIMTransferSet srv connection else (srv, [])
            else tase2_server_DisableIMTransferSet srv connection);
        Some (srv, effects, DATA_ACCESS_ERROR_SUCCESS) }
      else Some (srv, [], DATA_ACCESS_ERROR_OBJECT_NONE_EXISTENT))"

text \<open>The result of the update of the value is ignored.\<close>

definition write_indication ::
    "AccessServer \<Rightarrow> BilateralTable option \<Rightarrow> nat \<Rightarrow> point \<Rightarrow> IndicationPoint \<Rightarrow> MmsValue \<Rightarrow> write_response" where
  "write_indication srv blt d p ip v =
     (if ip_readOnly ip then Some (srv, [], DATA_ACCESS_ERROR_OBJECT_ACCESS_DENIED)
      else if \<not> point_allowed blt d p BLT_ACCESS_ALLOW_WRITE
      then Some (srv, [], DATA_ACCESS_ERROR_OBJECT_ACCESS_DENIED)
      else do {
        type \<leftarrow> getPointValueType (IndicationObject ip);
        let pointValue = \<lparr>pv_type = type, pv_value = v\<rparr>;
        let (effects, retCode) = (case as_writeDataHandler srv of
              Some h \<Rightarrow> ([WriteDataHandlerCalled d p pointValue], h d p pointValue)
            | None \<Rightarrow> ([], DATA_ACCESS_ERROR_SUCCESS));
        if retCode = DATA_ACCESS_ERROR_SUCCESS then do {
          old \<leftarrow> ip_pointValue ip;
          (new, _) \<leftarrow> MmsValue_update old v;
          Some (store_object srv p (set_object_value (IndicationObject ip) new), effects, retCode) }
        else Some (srv, effects, retCode) })"

definition write_point ::
    "AccessServer \<Rightarrow> BilateralTable option \<Rightarrow> nat \<Rightarrow> point \<Rightarrow> cstr option \<Rightarrow> MmsValue \<Rightarrow> nat \<Rightarrow> u64 \<Rightarrow>
     (nat \<Rightarrow> u64) \<Rightarrow> write_response" where
  "write_point srv blt d p componentName v connection now clock =
     (if componentName \<noteq> None then Some (srv, [], DATA_ACCESS_ERROR_OBJECT_ACCESS_UNSUPPORTED)
      else case as_objects srv p of
        IndicationObject ip \<Rightarrow> write_indication srv blt d p ip v
      | ControlObject cp \<Rightarrow>
          if \<not> control_allowed blt d p BLT_ACCESS_ALLOW_OPERATE
          then Some (srv, [], DATA_ACCESS_ERROR_OBJECT_ACCESS_DENIED)
          else operateControl (as_control srv) cp connection v now \<bind> (\<lambda>r. control_done srv p r clock)
      | ProtectionObject pe \<Rightarrow> Some (srv, [], DATA_ACCESS_ERROR_OBJECT_ACCESS_DENIED))"

text \<open>The control point with a tag whose tag the name is; the copy of the name is cut at 129 characters.\<close>

definition tag_point :: "AccessServer \<Rightarrow> Tase2_Domain \<Rightarrow> cstr \<Rightarrow> (point \<times> ControlPoint) option" where
  "tag_point srv domain variableId =
     (let variableIdBuf = take 129 variableId in
      if StringUtils_endsWith variableId (cstring ''_TAG'') \<and> length variableIdBuf > 4 then
        (case HashTree_find (dom_dataPointHashTree domain) (take (length variableIdBuf - 4) variableIdBuf) of
           None \<Rightarrow> None
         | Some p \<Rightarrow>
             (case as_objects srv p of
                ControlObject cp \<Rightarrow> if cp_hasTag cp then Some (p, cp) else None
              | _ \<Rightarrow> None))
      else None)"

definition write_tag ::
    "AccessServer \<Rightarrow> BilateralTable option \<Rightarrow> nat \<Rightarrow> point \<Rightarrow> ControlPoint \<Rightarrow> cstr option \<Rightarrow> MmsValue \<Rightarrow> nat \<Rightarrow> u64 \<Rightarrow>
     (nat \<Rightarrow> u64) \<Rightarrow> write_response" where
  "write_tag srv blt d p cp componentName v connection now clock =
     (if componentName \<noteq> None then Some (srv, [], DATA_ACCESS_ERROR_OBJECT_ACCESS_UNSUPPORTED)
      else if \<not> control_allowed blt d p BLT_ACCESS_ALLOW_SET_TAG
      then Some (srv, [], DATA_ACCESS_ERROR_OBJECT_ACCESS_DENIED)
      else setTag (as_control srv) cp (as_token srv connection) v now \<bind> (\<lambda>r. control_done srv p r clock))"

definition write_transfer_set ::
    "AccessServer \<Rightarrow> cstr option \<Rightarrow> Tase2_Domain \<Rightarrow> cstr \<Rightarrow> cstr option \<Rightarrow> MmsValue \<Rightarrow> nat \<Rightarrow> u64 \<Rightarrow> write_response" where
  "write_transfer_set srv domain tase2Domain variableId componentName v connection now =
     (case find (\<lambda>t. ts_name (sv_sets (as_transfer srv) t) = variableId) (dom_transferSets tase2Domain) of
        Some t \<Rightarrow> do {
          (ts, effects, result) \<leftarrow> tase2_Server_handleDSTransferSetWrite (as_transfer srv) domain t componentName v
            connection (connection_table srv connection) now;
          Some (srv\<lparr>as_transfer := ts\<rparr>, map TransferEffect effects, result) }
      | None \<Rightarrow> Some (srv, [], DATA_ACCESS_ERROR_OBJECT_ACCESS_DENIED))"

definition mmsWriteVariableHandler ::
    "AccessServer \<Rightarrow> MmsObjectScope \<Rightarrow> cstr option \<Rightarrow> cstr \<Rightarrow> cstr option \<Rightarrow> MmsValue \<Rightarrow> nat \<Rightarrow> u64 \<Rightarrow>
     (nat \<Rightarrow> u64) \<Rightarrow> write_response" where
  "mmsWriteVariableHandler srv objectScope domain variableId componentName v connection now clock =
     (if objectScope = MMS_ASSOCIATION_SPECIFIC then write_association srv variableId v connection
      else
        let blt = connection_table srv connection; tase2Domain = request_domain srv domain in
        if wrong_domain domain blt tase2Domain then Some (srv, [], DATA_ACCESS_ERROR_OBJECT_ACCESS_DENIED)
        else case tase2Domain of
          None \<Rightarrow> Some (srv, [], DATA_ACCESS_ERROR_OBJECT_ACCESS_DENIED)
        | Some (d, tase2Domain) \<Rightarrow>
            case HashTree_find (dom_dataPointHashTree tase2Domain) variableId of
              Some p \<Rightarrow> write_point srv blt d p componentName v connection now clock
            | None \<Rightarrow>
                case tag_point srv tase2Domain variableId of
                  Some (p, cp) \<Rightarrow> write_tag srv blt d p cp componentName v connection now clock
                | None \<Rightarrow> write_transfer_set srv domain tase2Domain variableId componentName v connection now)"

text \<open>The variable of association scope.\<close>

definition mmsAASpecVarSpecHandler :: "cstr \<Rightarrow> MmsVariableSpecification option" where
  "mmsAASpecVarSpecHandler variableName =
     (if variableName = cstring ''IM_Transfer_Set'' then Some SpecBoolean else None)"

section \<open>Data sets and connections\<close>

definition data_set_points :: "Tase2_DataModel \<Rightarrow> MmsNamedVariableListEntry list \<Rightarrow> point list" where
  "data_set_points model vars = List.map_filter (\<lambda>entry.
     case nve_domain entry of
       Some d \<Rightarrow>
         (case Tase2_DataModel_getDomain model d of
            Some domain \<Rightarrow> Tase2_Domain_getDataPoint domain (nve_variableName entry)
          | None \<Rightarrow> None)
     | None \<Rightarrow> Tase2_Domain_getDataPoint (dm_vcc model) (nve_variableName entry)) vars"

text \<open>
  A data set is created or deleted in a domain; \<open>peer\<close> tells whether the endpoint knows the
  connection. The domain that is reported is null for a client without a table.
\<close>

definition mmsNamedVariableListChangedHandler ::
    "AccessServer \<Rightarrow> bool \<Rightarrow> (cstr option \<times> MmsNamedVariableList) option \<Rightarrow> nat \<Rightarrow> bool \<Rightarrow>
     access_effect list \<times> MmsError" where
  "mmsNamedVariableListChangedHandler srv created variableList connection peer =
     (case variableList of
        None \<Rightarrow> ([], MMS_ERROR_ACCESS_OBJECT_ACCESS_DENIED)
      | Some (domain, variableList) \<Rightarrow>
          if \<not> peer then ([], MMS_ERROR_NONE)
          else
            let blt = connection_table srv connection;
                tase2Domain = (if blt = None \<or> domain = None then None
                               else map_option fst (request_domain srv domain));
                allowed = (case blt of None \<Rightarrow> True
                  | Some blt \<Rightarrow> domain \<noteq> None \<and> blt_domain blt = tase2Domain) in
            if allowed
            then ([DataSetChanged created (as_token srv connection) tase2Domain (nvl_name variableList)
                     (data_set_points (sv_dataModel (as_transfer srv)) (nvl_listOfVariables variableList))],
                  MMS_ERROR_NONE)
            else ([], MMS_ERROR_ACCESS_OBJECT_ACCESS_DENIED))"

datatype MmsEndpointEvent = MMS_ENDPOINT_EVENT_NEW_CONNECTION | MMS_ENDPOINT_EVENT_CONNECTION_CLOSED

definition Tase2_Server_mmsConnectionHandler ::
    "AccessServer \<Rightarrow> nat \<Rightarrow> MmsEndpointEvent \<Rightarrow> (AccessServer \<times> access_effect list) option" where
  "Tase2_Server_mmsConnectionHandler srv connection event =
     (case event of
        MMS_ENDPOINT_EVENT_CONNECTION_CLOSED \<Rightarrow> do {
          (ts, released) \<leftarrow> tase2_Server_deactivateTransferSets (as_transfer srv) connection;
          let (srv, disabled) = tase2_server_DisableIMTransferSet (srv\<lparr>as_transfer := ts\<rparr>) connection;
          Some (srv, map TransferEffect released @ disabled @
            [ClientConnectionEvent connection (as_token srv connection) False]) }
      | MMS_ENDPOINT_EVENT_NEW_CONNECTION \<Rightarrow>
          Some (srv, [ClientConnectionEvent connection (as_token srv connection) True]))"

section \<open>Online values\<close>

definition update_cached :: "point_object \<Rightarrow> point_object option" where
  "update_cached obj = do {
     cached \<leftarrow> object_cached obj;
     v \<leftarrow> object_value obj;
     (cached, _) \<leftarrow> MmsValue_update cached v;
     Some (set_object_cached obj cached) }"

definition Tase2_Server_updateOnlineValue ::
    "AccessServer \<Rightarrow> point \<Rightarrow> (nat \<Rightarrow> u64) \<Rightarrow> (AccessServer \<times> access_effect list) option" where
  "Tase2_Server_updateOnlineValue srv p clock =
     (case as_objects srv p of
        ControlObject cp \<Rightarrow> trigger srv p clock
      | ProtectionObject pe \<Rightarrow> do {
          v \<leftarrow> pe_pointValue pe;
          cached \<leftarrow> pe_serverCachedValue pe;
          same \<leftarrow> MmsValue_equals v cached;
          if same then Some (srv, [])
          else do {
            obj \<leftarrow> update_cached (ProtectionObject pe);
            trigger (store_object srv p obj) p clock } }
      | IndicationObject ip \<Rightarrow> do {
          obj \<leftarrow> update_cached (IndicationObject ip);
          let srv = store_object srv p obj;
          if ip_hasChanged ip then do {
            (srv, effects) \<leftarrow> trigger srv p clock;
            Some (case as_objects srv p of
                IndicationObject ip \<Rightarrow> (store_object srv p (IndicationObject (ip\<lparr>ip_hasChanged := False\<rparr>)), effects)
              | _ \<Rightarrow> (srv, effects)) }
          else Some (srv, []) })"

definition Tase2_Server_updateOnlineValueNoTrigger :: "AccessServer \<Rightarrow> point \<Rightarrow> AccessServer option" where
  "Tase2_Server_updateOnlineValueNoTrigger srv p =
     (let obj = as_objects srv p in
      if object_type obj \<noteq> TASE2_POINT_TYPE_CONTROL then do {
        obj \<leftarrow> update_cached obj;
        Some (store_object srv p obj) }
      else Some srv)"

definition Tase2_Server_updateByOnlineValue :: "AccessServer \<Rightarrow> point \<Rightarrow> AccessServer option" where
  "Tase2_Server_updateByOnlineValue srv p =
     (let obj = as_objects srv p in do {
        v \<leftarrow> object_value obj;
        cached \<leftarrow> object_cached obj;
        (v, _) \<leftarrow> MmsValue_update v cached;
        Some (store_object srv p (set_object_value obj v)) })"

end
