(* ===== verification/Access_Laws.thy ===== *)
theory Access_Laws
  imports Access TransferSetServer_Laws ControlPoint_Laws Points_Laws
begin

text \<open>
  Laws of the access to the server: every effect on a point and every change of it is covered by
  a right of the connection's table, over arbitrary runs of requests; what is refused leaves the
  server as it is; the values the reports read are the values of the points; the connection's end;
  the online values; and what goes wrong.
\<close>

section \<open>Frames of the transfer sets\<close>

text \<open>The transfer sets change the references of the points, never their values.\<close>

definition same_values :: "points \<Rightarrow> points \<Rightarrow> bool" where
  "same_values pts pts' \<longleftrightarrow> (\<forall>p. dp_pointValue (pts' p) = dp_pointValue (pts p) \<and> dp_tagValue (pts' p) = dp_tagValue (pts p))"

definition transfer_frame :: "TransferServer \<Rightarrow> TransferServer \<Rightarrow> bool" where
  "transfer_frame srv srv' \<longleftrightarrow> sv_dataModel srv' = sv_dataModel srv \<and> same_values (sv_points srv) (sv_points srv')"

lemma same_values_refl [simp, intro]: "same_values pts pts"
  by (simp add: same_values_def)

lemma same_values_trans [trans]: "same_values a b \<Longrightarrow> same_values b c \<Longrightarrow> same_values a c"
  by (simp add: same_values_def)

lemma same_values_refs [simp]:
  "same_values pts (pts'(p := (pts' p)\<lparr>dp_activeTransferSets := r\<rparr>)) \<longleftrightarrow> same_values pts pts'"
  by (auto simp: same_values_def)

lemma transfer_frame_refl [simp]: "transfer_frame srv srv"
  by (simp add: transfer_frame_def)

lemma transfer_frame_trans [trans]: "transfer_frame a b \<Longrightarrow> transfer_frame b c \<Longrightarrow> transfer_frame a c"
  by (auto simp: transfer_frame_def intro: same_values_trans)

lemma transfer_frame_updates [simp]:
  "transfer_frame srv (put_set srv' t ts) \<longleftrightarrow> transfer_frame srv srv'"
  "transfer_frame srv (srv'\<lparr>sv_activeTransferSets := a\<rparr>) \<longleftrightarrow> transfer_frame srv srv'"
  "transfer_frame srv (srv'\<lparr>sv_nextValue := n\<rparr>) \<longleftrightarrow> transfer_frame srv srv'"
  "transfer_frame (srv\<lparr>sv_activeTransferSets := a\<rparr>) srv' \<longleftrightarrow> transfer_frame srv srv'"
  by (simp_all add: transfer_frame_def put_set_def)

lemma remove_references_values:
  "removeTransferSetReferenceFromDataPoint info t dps pts = Some pts' \<Longrightarrow> same_values pts pts'"
  unfolding removeTransferSetReferenceFromDataPoint_def
proof (induction dps arbitrary: pts)
  case (Cons e dps)
  obtain pts1 where r: "remove_reference info t e pts = Some pts1"
    "for_each dps (remove_reference info t) pts1 = Some pts'"
    using Cons.prems by (auto split: Option.bind_splits)
  have "same_values pts pts1"
    using r(1) by (auto simp: remove_reference_def split: Option.bind_splits ts_element.splits if_splits option.splits)
  then show ?case using Cons.IH [OF r(2)] by (rule same_values_trans)
qed simp

lemma deactivate_values:
  "tase2_Server_deactivateDSTransferSet srv t = Some (srv', effects) \<Longrightarrow> transfer_frame srv srv'"
  by (auto simp: tase2_Server_deactivateDSTransferSet_def Let_def transfer_frame_def put_set_def
      split: Option.bind_splits if_splits option.splits dest: remove_references_values)

lemma enable_entry_values:
  "enable_entry model dn t c en (pts, ts, a) = Some ((pts', ts', a'), ok) \<Longrightarrow> same_values pts pts'"
  by (auto simp: enable_entry_def reference_point_def Let_def
      split: Option.bind_splits if_splits option.splits)

lemma enable_entries_values:
  "enable_entries model dn t c es (pts, ts, a) = Some ((pts', ts', a'), ok) \<Longrightarrow> same_values pts pts'"
proof (induction es arbitrary: c pts ts a)
  case (Cons en es)
  obtain pts1 ts1 a1 ok1 where e: "enable_entry model dn t c en (pts, ts, a) = Some ((pts1, ts1, a1), ok1)"
    "(if ok1 then enable_entries model dn t (c + 1) es (pts1, ts1, a1) else Some ((pts1, ts1, a1), False)) =
      Some ((pts', ts', a'), ok)"
    using Cons.prems by (auto split: Option.bind_splits)
  have "same_values pts1 pts'" using e(2) Cons.IH by (auto split: if_splits)
  with enable_entry_values [OF e(1)] show ?case by (rule same_values_trans)
qed simp

lemma enable_values:
  assumes "enableDSTransferSet srv dn t c v blt now = Some (srv', effects, ok)"
  shows "transfer_frame srv srv'"
  using assms
  by (fastforce simp: enableDSTransferSet_def Let_def transfer_frame_def put_set_def
      split: Option.bind_splits if_splits option.splits dest: remove_references_values enable_entries_values
      intro: same_values_trans)

lemma update_attribute_values: "update_attribute srv t i v = Some srv' \<Longrightarrow> transfer_frame srv srv'"
  by (auto simp: update_attribute_def Let_def split: Option.bind_splits)

lemma update_set_values: "update_set srv t v = Some srv' \<Longrightarrow> transfer_frame srv srv'"
  by (auto simp: update_set_def Let_def split: Option.bind_splits)

lemma write_status_values:
  assumes "write_status srv dn t v c blt now = Some (srv', effects, r)"
  shows "transfer_frame srv srv'"
  using assms unfolding write_status_def Let_def
  by (auto split: Option.bind_splits if_splits
      dest!: update_attribute_values enable_values deactivate_values) (meson transfer_frame_trans)+

lemma write_structure_values:
  assumes "write_structure srv dn t v c blt now = Some (srv', effects, r)"
  shows "transfer_frame srv srv'"
  using assms unfolding write_structure_def Let_def
  by (auto split: Option.bind_splits if_splits
      dest!: update_set_values enable_values deactivate_values) (meson transfer_frame_trans)+

lemma handle_write_values:
  assumes "tase2_Server_handleDSTransferSetWrite srv dn t name v c blt now = Some (srv', effects, r)"
  shows "transfer_frame srv srv'"
  using assms
  by (auto simp: tase2_Server_handleDSTransferSetWrite_def write_attribute_def
      split: option.splits if_splits Option.bind_splits
      dest: write_status_values write_structure_values update_attribute_values)

lemma next_set_values: "next_set srv sets c = (srv', r) \<Longrightarrow> transfer_frame srv srv'"
  by (induction srv sets c rule: next_set.induct) (auto split: if_splits)

lemma release_values: "release_sets sets c srv = Some (srv', kept, effects) \<Longrightarrow> transfer_frame srv srv'"
proof (induction sets c srv arbitrary: srv' kept effects rule: release_sets.induct)
  case (2 t sets c srv)
  show ?case
  proof (cases "ts_connection (sv_sets srv t) = Some c")
    case True
    then obtain srv1 e1 e2 where r: "tase2_Server_deactivateDSTransferSet srv t = Some (srv1, e1)"
      "release_sets sets c srv1 = Some (srv', kept, e2)"
      using "2.prems" by (auto split: Option.bind_splits)
    from deactivate_values [OF r(1)] "2.IH"(1) [OF True r(1) refl r(2)] show ?thesis
      by (rule transfer_frame_trans)
  next
    case False
    with "2.prems" "2.IH"(2) show ?thesis by (auto split: Option.bind_splits)
  qed
qed simp

lemma check_reference_values:
  "check_reference clock p r (srv, effects) = Some (srv', effects') \<Longrightarrow> transfer_frame srv srv'"
  by (auto simp: check_reference_def Let_def split: prod.splits option.splits Option.bind_splits if_splits)

lemma check_references_values:
  "for_each refs (check_reference clock p) (srv, effects) = Some (srv', effects') \<Longrightarrow> transfer_frame srv srv'"
proof (induction refs arbitrary: srv effects)
  case (Cons r refs)
  obtain srv1 effects1 where r: "check_reference clock p r (srv, effects) = Some (srv1, effects1)"
    "for_each refs (check_reference clock p) (srv1, effects1) = Some (srv', effects')"
    using Cons.prems by (auto split: Option.bind_splits)
  from check_reference_values [OF r(1)] Cons.IH [OF r(2)] show ?case by (rule transfer_frame_trans)
qed simp

lemma trigger_values:
  "tase2_Server_triggerTransferSets srv p clock = Some (srv', effects) \<Longrightarrow> transfer_frame srv srv'"
  by (auto simp: tase2_Server_triggerTransferSets_def tase2_checkVariable_def
      split: if_splits option.splits dest: check_references_values)


section \<open>Rights\<close>

text \<open>
  The rights of a table, as the abstract rights of \<open>BLT_access_rights\<close>. A client without a table may
  do everything; one with a table everything in the table's domain, and elsewhere what an entry
  grants. A data point's rights may come from either tree.
\<close>

definition control_right :: "BilateralTable \<Rightarrow> point \<Rightarrow> access_right \<Rightarrow> bool" where
  "control_right blt p r \<longleftrightarrow>
     (\<exists>en. AvlTree_find (blt_controlPoints blt) p = Some en \<and> bit (unat (ble_accessFlags en)) (right_bit r))"

definition data_right :: "BilateralTable \<Rightarrow> point \<Rightarrow> access_right \<Rightarrow> bool" where
  "data_right blt p r \<longleftrightarrow> control_right blt p r \<or>
     (\<exists>en. AvlTree_find (blt_dataPoints blt) p = Some en \<and> bit (unat (ble_accessFlags en)) (right_bit r))"

definition in_domain :: "AccessServer \<Rightarrow> nat \<Rightarrow> point \<Rightarrow> bool" where
  "in_domain srv d p \<longleftrightarrow> (\<exists>tase2Domain variableId. domain_at (sv_dataModel (as_transfer srv)) d = Some tase2Domain \<and>
     HashTree_find (dom_dataPointHashTree tase2Domain) variableId = Some p)"

definition owns :: "AccessServer \<Rightarrow> BilateralTable \<Rightarrow> point \<Rightarrow> bool" where
  "owns srv blt p \<longleftrightarrow> (\<exists>d. blt_domain blt = Some d \<and> in_domain srv d p)"

definition may_control :: "AccessServer \<Rightarrow> nat \<Rightarrow> point \<Rightarrow> access_right \<Rightarrow> bool" where
  "may_control srv c p r \<longleftrightarrow> (\<forall>blt. connection_table srv c = Some blt \<longrightarrow> owns srv blt p \<or> control_right blt p r)"

definition may_data :: "AccessServer \<Rightarrow> nat \<Rightarrow> point \<Rightarrow> access_right \<Rightarrow> bool" where
  "may_data srv c p r \<longleftrightarrow> (\<forall>blt. connection_table srv c = Some blt \<longrightarrow> owns srv blt p \<or> data_right blt p r)"

lemma may_control_data: "may_control srv c p r \<Longrightarrow> may_data srv c p r"
  by (auto simp: may_control_def may_data_def data_right_def)

lemma control_check:
  assumes "control_allowed (connection_table srv c) d p (rights_mask [r])" "in_domain srv d p"
  shows "may_control srv c p r"
proof (cases "connection_table srv c")
  case (Some blt)
  then have "blt_domain blt = Some d \<or> control_right blt p r"
    using assms(1) by (auto simp: control_allowed_def control_right_def
        BilateralTable_checkControlPointAccess_def mask_all split: option.splits if_splits)
  with Some assms(2) show ?thesis by (auto simp: may_control_def owns_def)
qed (simp add: may_control_def)

lemma point_check:
  assumes "point_allowed (connection_table srv c) d p (rights_mask [r])" "in_domain srv d p"
  shows "may_data srv c p r"
proof (cases "connection_table srv c")
  case (Some blt)
  then have "blt_domain blt = Some d \<or> data_right blt p r"
    using assms(1) by (auto simp: point_allowed_def data_right_def control_right_def Let_def
        BilateralTable_checkDataPointAccess_def mask_any mask_any [unfolded neq0_conv] split: option.splits if_splits)
  with Some assms(2) show ?thesis by (auto simp: may_data_def owns_def)
qed (simp add: may_data_def)

lemmas control_checks = control_check [where r = Read, unfolded rights_mask_flags]
  control_check [where r = Operate, unfolded rights_mask_flags]
  control_check [where r = GetTag, unfolded rights_mask_flags]
  control_check [where r = SetTag, unfolded rights_mask_flags]

lemmas point_checks = point_check [where r = Read, unfolded rights_mask_flags]
  point_check [where r = Write, unfolded rights_mask_flags]

text \<open>What an effect on a point needs.\<close>

fun control_needs :: "control_effect \<Rightarrow> access_right set" where
  "control_needs SelectHandlerCalled = {Read, Operate}"
| "control_needs (OperateHandlerCalled _) = {Operate}"
| "control_needs (OperateHandlerExCalled _ _) = {Operate}"
| "control_needs (SetTagHandlerCalled _ _) = {SetTag}"
| "control_needs TransferSetsTriggered = {}"

fun covered :: "AccessServer \<Rightarrow> nat \<Rightarrow> access_effect \<Rightarrow> bool" where
  "covered srv c (ControlEffect p e) \<longleftrightarrow> (\<forall>r \<in> control_needs e. may_control srv c p r)"
| "covered srv c (WriteDataHandlerCalled d p v) \<longleftrightarrow> may_data srv c p Write \<and> in_domain srv d p"
| "covered srv c _ \<longleftrightarrow> True"

text \<open>The parts no request changes, and what a request may change of an object.\<close>

definition same_site :: "AccessServer \<Rightarrow> AccessServer \<Rightarrow> bool" where
  "same_site srv srv' \<longleftrightarrow> sv_dataModel (as_transfer srv') = sv_dataModel (as_transfer srv) \<and>
     as_control srv' = as_control srv \<and> as_tables srv' = as_tables srv \<and> as_token srv' = as_token srv \<and>
     as_bilateralTableId srv' = as_bilateralTableId srv \<and> as_writeDataHandler srv' = as_writeDataHandler srv"

definition justified :: "AccessServer \<Rightarrow> nat \<Rightarrow> point \<Rightarrow> point_object \<Rightarrow> point_object \<Rightarrow> bool" where
  "justified srv c p old new \<longleftrightarrow>
     (object_value new \<noteq> object_value old \<longrightarrow>
        may_control srv c p Operate \<or> object_type old = TASE2_POINT_TYPE_INDICATION \<and> may_data srv c p Write) \<and>
     (new \<noteq> old \<longrightarrow>
        (\<exists>r. may_control srv c p r) \<or> object_type old = TASE2_POINT_TYPE_INDICATION \<and> may_data srv c p Write) \<and>
     object_type new = object_type old"

definition values_shared :: "AccessServer \<Rightarrow> bool" where
  "values_shared srv \<longleftrightarrow> (\<forall>p. dp_pointValue (sv_points (as_transfer srv) p) = object_value (as_objects srv p) \<and>
     dp_tagValue (sv_points (as_transfer srv) p) = object_tag (as_objects srv p))"

definition messages_kept :: "AccessServer \<Rightarrow> nat \<Rightarrow> AccessServer \<Rightarrow> bool" where
  "messages_kept srv c srv' \<longleftrightarrow>
     (distinct (as_imEnabledConnections srv) \<longrightarrow> distinct (as_imEnabledConnections srv')) \<and>
     (\<forall>c'. c' \<noteq> c \<longrightarrow> (c' \<in> set (as_imEnabledConnections srv') \<longleftrightarrow> c' \<in> set (as_imEnabledConnections srv)))"

definition request_ok :: "AccessServer \<Rightarrow> nat \<Rightarrow> AccessServer \<Rightarrow> access_effect list \<Rightarrow> bool" where
  "request_ok srv c srv' effects \<longleftrightarrow> same_site srv srv' \<and> (values_shared srv \<longrightarrow> values_shared srv') \<and>
     messages_kept srv c srv' \<and>
     (\<forall>e \<in> set effects. covered srv c e) \<and>
     (\<forall>p. justified srv c p (as_objects srv p) (as_objects srv' p))"

lemma justified_refl [simp]: "justified srv c p obj obj"
  by (simp add: justified_def)

lemma messages_kept_same [simp]:
  "as_imEnabledConnections srv' = as_imEnabledConnections srv \<Longrightarrow> messages_kept srv c srv'"
  by (simp add: messages_kept_def)

lemma request_ok_unchanged [simp]: "request_ok srv c srv []"
  by (simp add: request_ok_def same_site_def)

lemma store_object_fields [simp]:
  "as_objects (store_object srv p obj) = (as_objects srv)(p := obj)"
  "as_imEnabledConnections (store_object srv p obj) = as_imEnabledConnections srv"
  "as_token (store_object srv p obj) = as_token srv" "as_tables (store_object srv p obj) = as_tables srv"
  "sv_activeTransferSets (as_transfer (store_object srv p obj)) = sv_activeTransferSets (as_transfer srv)"
  "sv_sets (as_transfer (store_object srv p obj)) = sv_sets (as_transfer srv)"
  by (simp_all add: store_object_def Let_def)

lemma store_object_site [simp]: "same_site srv (store_object srv' p obj) \<longleftrightarrow> same_site srv srv'"
  by (simp add: same_site_def store_object_def Let_def)

lemma store_object_shared: "values_shared srv \<Longrightarrow> values_shared (store_object srv p obj)"
  by (auto simp: values_shared_def store_object_def Let_def)

lemma transfer_frame_shared:
  "transfer_frame (as_transfer srv) ts \<Longrightarrow> values_shared srv \<Longrightarrow> values_shared (srv\<lparr>as_transfer := ts\<rparr>)"
  by (simp add: values_shared_def transfer_frame_def same_values_def)

lemma transfer_frame_site: "transfer_frame (as_transfer srv) ts \<Longrightarrow> same_site srv (srv\<lparr>as_transfer := ts\<rparr>)"
  by (simp add: same_site_def transfer_frame_def)

lemma transfer_request:
  assumes "transfer_frame (as_transfer srv) ts" "\<forall>e \<in> set effects. \<exists>f. e = TransferEffect f"
  shows "request_ok srv c (srv\<lparr>as_transfer := ts\<rparr>) effects"
  using assms transfer_frame_shared [OF assms(1)] transfer_frame_site [OF assms(1)]
  by (auto simp: request_ok_def)

lemma same_site_refl [simp]: "same_site srv srv"
  by (simp add: same_site_def)

lemma same_site_trans: "same_site a b \<Longrightarrow> same_site b c \<Longrightarrow> same_site a c"
  by (simp add: same_site_def)

lemma trigger_frame:
  assumes "trigger srv p clock = Some (srv', effects)"
  shows "\<exists>ts. srv' = srv\<lparr>as_transfer := ts\<rparr> \<and> transfer_frame (as_transfer srv) ts"
    "\<forall>e \<in> set effects. \<exists>f. e = TransferEffect f"
  using assms by (auto simp: trigger_def split: Option.bind_splits dest: trigger_values)

lemma control_done_frame:
  assumes "control_done srv p (cp, effects, r) clock = Some (srv', effects', r')"
  shows "r' = r" "as_objects srv' = (as_objects srv)(p := ControlObject cp)" "same_site srv srv'"
    "values_shared srv \<longrightarrow> values_shared srv'" "as_imEnabledConnections srv' = as_imEnabledConnections srv"
    "\<forall>e \<in> set effects'. (\<exists>f \<in> set effects. e = ControlEffect p f) \<or> (\<exists>f. e = TransferEffect f)"
proof -
  let ?srv1 = "store_object srv p (ControlObject cp)"
  obtain triggered where t: "(if TransferSetsTriggered \<in> set effects then trigger ?srv1 p clock else Some (?srv1, [])) =
      Some (srv', triggered)" "effects' = map (ControlEffect p) effects @ triggered" "r' = r"
    using assms by (auto simp: control_done_def Let_def split: Option.bind_splits)
  have f: "(\<exists>ts. srv' = ?srv1\<lparr>as_transfer := ts\<rparr> \<and> transfer_frame (as_transfer ?srv1) ts) \<and>
      (\<forall>e \<in> set triggered. \<exists>f. e = TransferEffect f)"
  proof (cases "TransferSetsTriggered \<in> set effects")
    case True
    then show ?thesis using t(1) trigger_frame [of ?srv1 p clock srv' triggered] by auto
  next
    case False
    then have "srv' = ?srv1\<lparr>as_transfer := as_transfer ?srv1\<rparr>" "triggered = []" using t(1) by (simp_all)
    then show ?thesis by (metis transfer_frame_refl list.set(1) empty_iff)
  qed
  then obtain ts where ts: "srv' = ?srv1\<lparr>as_transfer := ts\<rparr>" "transfer_frame (as_transfer ?srv1) ts" by blast
  show "r' = r" by (rule t(3))
  show "as_objects srv' = (as_objects srv)(p := ControlObject cp)"
    "as_imEnabledConnections srv' = as_imEnabledConnections srv" using ts(1) by simp_all
  show "same_site srv srv'" using transfer_frame_site [OF ts(2)] ts(1) same_site_trans [of srv ?srv1 srv'] by simp
  show "values_shared srv \<longrightarrow> values_shared srv'"
    using transfer_frame_shared [OF ts(2)] store_object_shared [of srv p "ControlObject cp"] ts(1) by simp
  show "\<forall>e \<in> set effects'. (\<exists>f \<in> set effects. e = ControlEffect p f) \<or> (\<exists>f. e = TransferEffect f)"
    using f t(2) by auto
qed


section \<open>One request\<close>

lemma setArmedFlag_value: "tase2_ControlPoint_setArmedFlag cp b = Some cp' \<Longrightarrow> cp_pointValue cp' = cp_pointValue cp"
  by (auto simp: tase2_ControlPoint_setArmedFlag_def split: if_splits Option.bind_splits)

lemma selectControl_frame:
  assumes "selectControl s cp c t = Some (cp', effects, r)"
  shows "cp_pointValue cp' = cp_pointValue cp" "set effects \<subseteq> {SelectHandlerCalled}"
    "r \<noteq> DATA_ACCESS_ERROR_SUCCESS \<longrightarrow> cp' = cp"
  using assms
  by (auto simp: selectControl_def Let_def access_errors TASE2_RESULT_SUCCESS_def
      split: if_splits Option.bind_splits option.splits dest!: setArmedFlag_value)

lemma operate_handler_effects:
  "call_operate_handler s cp v = Some (effects, r) \<Longrightarrow> e \<in> set effects \<Longrightarrow> control_needs e \<subseteq> {Operate}"
  by (auto simp: call_operate_handler_def split: option.splits Option.bind_splits)

lemma operateControl_effects:
  assumes "operateControl s cp c v t = Some (cp', effects, r)" "e \<in> set effects"
  shows "control_needs e \<subseteq> {Operate}"
  using assms
  by (auto simp: operateControl_def split: if_splits Option.bind_splits option.splits dest!: operate_handler_effects)

lemma setTag_value:
  assumes "setTag s cp blt v t = Some (cp', effects, r)"
  shows "cp_pointValue cp' = cp_pointValue cp" "\<forall>e \<in> set effects. control_needs e \<subseteq> {SetTag}"
  using assms
  by (auto simp: setTag_def Let_def split: if_splits Option.bind_splits option.splits)

lemma readTag_value: "readTag s cp t = Some (cp', v) \<Longrightarrow> cp_pointValue cp' = cp_pointValue cp"
  by (auto simp: readTag_def split: if_splits Option.bind_splits dest!: setArmedFlag_value)

text \<open>An operation on a control point, by what its effects and its change of the value need.\<close>

lemma control_request:
  assumes "control_done srv p (cp', effects, r) clock = Some (srv', effects', r')"
    "as_objects srv p = ControlObject cp" "may_control srv c p k"
    "cp_pointValue cp' \<noteq> cp_pointValue cp \<longrightarrow> may_control srv c p Operate"
    "\<forall>e \<in> set effects. \<forall>k \<in> control_needs e. may_control srv c p k"
  shows "request_ok srv c srv' effects'" "r' = r"
proof -
  note d = control_done_frame [OF assms(1)]
  have "justified srv c p (ControlObject cp) (ControlObject cp')"
    using assms(3,4) by (auto simp: justified_def)
  then show "request_ok srv c srv' effects'"
    using d assms(2,5) by (fastforce simp: request_ok_def)
  show "r' = r" by (rule d(1))
qed

lemma read_select_ok:
  assumes "read_select srv (connection_table srv c) d p cp c now clock = Some (srv', effects, r)"
    "as_objects srv p = ControlObject cp" "in_domain srv d p" "may_control srv c p Read"
  shows "request_ok srv c srv' effects"
proof (cases "cp_sboValue cp = None \<or> \<not> control_allowed (connection_table srv c) d p BLT_ACCESS_ALLOW_OPERATE")
  case True
  then show ?thesis using assms(1) by (auto simp: read_select_def split: option.splits)
next
  case False
  then have operate: "may_control srv c p Operate" using control_checks(2) assms(3) by blast
  obtain sboValue cp1 cp2 effs res res' where cp1: "cp_pointValue cp1 = cp_pointValue cp"
    "selectControl (as_control srv) cp1 c now = Some (cp2, effs, res)"
    "control_done srv p (cp2, effs, res) clock = Some (srv', effects, res')"
    using assms(1) False
    by (auto simp: read_select_def split: option.splits Option.bind_splits)
      (fastforce intro: that [of "cp\<lparr>cp_sboValue := _\<rparr>"])
  note s = selectControl_frame [OF cp1(2)]
  show ?thesis
    using control_request(1) [OF cp1(3) assms(2) operate] s(1,2) cp1(1) operate assms(4) by fastforce
qed

lemma read_tag_ok:
  assumes "read_tag srv (connection_table srv c) d p cp now = Some (srv', effects, r)"
    "as_objects srv p = ControlObject cp" "in_domain srv d p"
  shows "request_ok srv c srv' effects"
proof (cases "control_allowed (connection_table srv c) d p BLT_ACCESS_ALLOW_GET_TAG")
  case True
  then have g: "may_control srv c p GetTag" using control_checks(3) assms(3) by blast
  obtain cp1 v where r: "readTag (as_control srv) cp now = Some (cp1, v)"
    "srv' = store_object srv p (ControlObject cp1)" "effects = []"
    using assms(1) True by (auto simp: read_tag_def split: Option.bind_splits)
  have "justified srv c p (ControlObject cp) (ControlObject cp1)"
    using readTag_value [OF r(1)] g by (auto simp: justified_def)
  then show ?thesis using r assms(2) store_object_shared by (simp add: request_ok_def)
next
  case False
  then show ?thesis using assms(1) by (simp add: read_tag_def)
qed

definition read_check :: "AccessServer \<Rightarrow> nat \<Rightarrow> nat \<Rightarrow> point \<Rightarrow> bool" where
  "read_check srv c d p =
     (if object_type (as_objects srv p) = TASE2_POINT_TYPE_CONTROL
      then control_allowed (connection_table srv c) d p BLT_ACCESS_ALLOW_READ
      else point_allowed (connection_table srv c) d p BLT_ACCESS_ALLOW_READ)"

lemma read_check_right: "read_check srv c d p \<Longrightarrow> in_domain srv d p \<Longrightarrow> may_data srv c p Read"
  by (auto simp: read_check_def split: if_splits intro: control_checks(1) [THEN may_control_data] point_checks(1))

lemma read_point_ok:
  assumes "read_point srv (connection_table srv c) d p isSBO isTag c now clock = Some (srv', effects, r)" "in_domain srv d p"
  shows "request_ok srv c srv' effects"
    "\<not> read_check srv c d p \<Longrightarrow> srv' = srv \<and> effects = [] \<and> r = ReadError DATA_ACCESS_ERROR_OBJECT_ACCESS_DENIED"
proof -
  show "request_ok srv c srv' effects"
  proof (cases "as_objects srv p")
    case (ControlObject cp)
    show ?thesis
    proof (cases "control_allowed (connection_table srv c) d p BLT_ACCESS_ALLOW_READ")
      case True
      then have "may_control srv c p Read" using control_checks(1) assms(2) by blast
      then show ?thesis
        using assms(1) ControlObject read_select_ok [OF _ ControlObject assms(2)] read_tag_ok [OF _ ControlObject assms(2)]
        by (auto simp: read_point_def Let_def split: if_splits)
    qed (use assms(1) ControlObject in \<open>auto simp: read_point_def Let_def split: if_splits\<close>)
  qed (use assms(1) in \<open>auto simp: read_point_def Let_def split: if_splits\<close>)
  show "srv' = srv \<and> effects = [] \<and> r = ReadError DATA_ACCESS_ERROR_OBJECT_ACCESS_DENIED" if "\<not> read_check srv c d p"
    using assms(1) that by (auto simp: read_point_def read_check_def Let_def split: if_splits)
qed

lemma read_special_ok:
  assumes "read_special srv d tase2Domain variableId c = Some (srv', effects, r)"
  shows "request_ok srv c srv' effects"
proof (cases "variableId = cstring ''Next_DSTransfer_Set'' \<and> variableId \<noteq> cstring ''Bilateral_Table_ID''")
  case True
  obtain ts t where n: "tase2_Server_getNextDSTransferSet (as_transfer srv) tase2Domain c = (ts, t)" by fastforce
  with True assms have "srv' = srv\<lparr>as_transfer := ts\<rparr>" "effects = []"
    by (auto simp: read_special_def Let_def split: option.splits Option.bind_splits)
  moreover have "transfer_frame (as_transfer srv) ts"
    using n by (auto simp: tase2_Server_getNextDSTransferSet_def dest: next_set_values)
  ultimately show ?thesis using transfer_request [of srv ts "[]" c] by simp
next
  case False
  then show ?thesis using assms by (auto simp: read_special_def split: if_splits Option.bind_splits option.splits)
qed


lemma find_domain_at:
  "find_domain i ds domainName = Some (j, d) \<Longrightarrow> \<exists>k < length ds. j = i + k \<and> d = ds ! k \<and> dom_name d = Some domainName"
proof (induction i ds domainName rule: find_domain.induct)
  case (2 i d' ds domainName)
  show ?case
  proof (cases "dom_name d' = Some domainName")
    case False
    then obtain k where "k < length ds" "j = i + 1 + k" "d = ds ! k" "dom_name d = Some domainName" using 2 by auto
    then show ?thesis by (intro exI [of _ "Suc k"]) simp
  qed (use 2(2) in auto)
qed simp

lemma request_domain_at:
  assumes "request_domain srv domain = Some (d, tase2Domain)"
  shows "domain_at (sv_dataModel (as_transfer srv)) d = Some tase2Domain"
proof (cases domain)
  case (Some n)
  then obtain k where "k < length (dm_domains (sv_dataModel (as_transfer srv)))" "d = 1 + k"
    "tase2Domain = dm_domains (sv_dataModel (as_transfer srv)) ! k"
    using assms find_domain_at by (fastforce simp: request_domain_def Let_def)
  then show ?thesis by (simp add: domain_at_def)
qed (use assms in \<open>simp add: request_domain_def domain_at_def Let_def\<close>)

lemma found_in_domain:
  assumes "request_domain srv domain = Some (d, tase2Domain)"
    "HashTree_find (dom_dataPointHashTree tase2Domain) variableId = Some p"
  shows "in_domain srv d p"
  using request_domain_at [OF assms(1)] assms(2) by (auto simp: in_domain_def)

lemma read_handler_ok:
  assumes "mmsReadVariableHandler srv domain variableId c now clock = Some (srv', effects, r)"
  shows "request_ok srv c srv' effects"
  using assms
  by (auto simp: mmsReadVariableHandler_def Let_def split: if_splits option.splits prod.splits
      intro: read_special_ok dest!: read_point_ok(1) [OF _ found_in_domain])

lemma write_association_ok:
  assumes "write_association srv variableId v c = Some (srv', effects, r)"
  shows "request_ok srv c srv' effects"
  using assms
  by (auto simp: write_association_def tase2_server_EnableIMTransferSet_def tase2_server_DisableIMTransferSet_def
      tase2_server_IsIMTransferSetEnabled_def request_ok_def same_site_def messages_kept_def values_shared_def
      split: if_splits Option.bind_splits)

lemma write_indication_ok:
  assumes "write_indication srv (connection_table srv c) d p ip v = Some (srv', effects, r)"
    "as_objects srv p = IndicationObject ip" "in_domain srv d p"
  shows "request_ok srv c srv' effects"
proof (cases "point_allowed (connection_table srv c) d p BLT_ACCESS_ALLOW_WRITE \<and> \<not> ip_readOnly ip")
  case True
  then have w: "may_data srv c p Write" using point_checks(2) assms(3) by blast
  then have j: "justified srv c p (IndicationObject ip) (IndicationObject ip')" for ip'
    by (simp add: justified_def)
  have "(\<exists>ip'. srv' = store_object srv p (IndicationObject ip')) \<or> srv' = srv"
    using assms(1) True
    by (auto simp: write_indication_def Let_def split: option.splits Option.bind_splits if_splits prod.splits)
  moreover have "\<forall>e \<in> set effects. covered srv c e"
    using assms(1,3) True w
    by (auto simp: write_indication_def Let_def split: option.splits Option.bind_splits if_splits prod.splits)
  ultimately show ?thesis using j assms(2) store_object_shared same_site_refl by (auto simp: request_ok_def)
next
  case False
  then show ?thesis using assms(1) by (auto simp: write_indication_def split: if_splits)
qed

lemma write_point_ok:
  assumes "write_point srv (connection_table srv c) d p componentName v c now clock = Some (srv', effects, r)"
    "in_domain srv d p"
  shows "request_ok srv c srv' effects"
proof (cases "\<exists>cp. as_objects srv p = ControlObject cp \<and> componentName = None \<and>
    control_allowed (connection_table srv c) d p BLT_ACCESS_ALLOW_OPERATE")
  case True
  then obtain cp where cp: "as_objects srv p = ControlObject cp" and o: "may_control srv c p Operate"
    using control_checks(2) assms(2) by blast
  obtain cp' effs res where "operateControl (as_control srv) cp c v now = Some (cp', effs, res)"
    "control_done srv p (cp', effs, res) clock = Some (srv', effects, r)"
    using assms(1) True cp by (auto simp: write_point_def split: Option.bind_splits)
  then show ?thesis using control_request(1) [OF _ cp o] operateControl_effects o by blast
next
  case False
  then show ?thesis
    using assms write_indication_ok
    by (auto simp: write_point_def split: if_splits point_object.splits)
qed

lemma write_tag_ok:
  assumes "write_tag srv (connection_table srv c) d p cp componentName v c now clock = Some (srv', effects, r)"
    "as_objects srv p = ControlObject cp" "in_domain srv d p"
  shows "request_ok srv c srv' effects"
proof (cases "componentName = None \<and> control_allowed (connection_table srv c) d p BLT_ACCESS_ALLOW_SET_TAG")
  case True
  then have s: "may_control srv c p SetTag" using control_checks(4) assms(3) by blast
  obtain cp' effs res where t: "setTag (as_control srv) cp (as_token srv c) v now = Some (cp', effs, res)"
    "control_done srv p (cp', effs, res) clock = Some (srv', effects, r)"
    using assms(1) True by (auto simp: write_tag_def split: Option.bind_splits)
  show ?thesis using control_request(1) [OF t(2) assms(2) s] setTag_value [OF t(1)] s by blast
next
  case False
  then show ?thesis using assms(1) by (auto simp: write_tag_def split: if_splits)
qed

lemma write_transfer_set_ok:
  assumes "write_transfer_set srv domain tase2Domain variableId componentName v c now = Some (srv', effects, r)"
  shows "request_ok srv c srv' effects"
  using assms
  by (auto simp: write_transfer_set_def split: option.splits Option.bind_splits
      intro!: transfer_request dest: handle_write_values)

lemma tag_point_in_domain:
  assumes "tag_point srv tase2Domain variableId = Some (p, cp)" "request_domain srv domain = Some (d, tase2Domain)"
  shows "as_objects srv p = ControlObject cp \<and> in_domain srv d p"
  using assms found_in_domain [OF assms(2)]
  by (auto simp: tag_point_def Let_def split: if_splits option.splits point_object.splits)

lemma write_handler_ok:
  assumes "mmsWriteVariableHandler srv scope domain variableId componentName v c now clock = Some (srv', effects, r)"
  shows "request_ok srv c srv' effects"
  using assms
  by (auto simp: mmsWriteVariableHandler_def Let_def split: if_splits option.splits prod.splits
      intro: write_association_ok write_transfer_set_ok
      dest!: write_point_ok [OF _ found_in_domain]
      dest: write_tag_ok [OF _ tag_point_in_domain [THEN conjunct1] tag_point_in_domain [THEN conjunct2]])

lemma connection_handler_ok:
  assumes "Tase2_Server_mmsConnectionHandler srv c event = Some (srv', effects)"
  shows "request_ok srv c srv' effects"
proof (cases event)
  case MMS_ENDPOINT_EVENT_CONNECTION_CLOSED
  then obtain ts released where r: "tase2_Server_deactivateTransferSets (as_transfer srv) c = Some (ts, released)"
    "srv' = srv\<lparr>as_transfer := ts, as_imEnabledConnections := remove1 c (as_imEnabledConnections srv)\<rparr>"
    "\<forall>e \<in> set effects. covered srv c e"
    using assms
    by (auto simp: Tase2_Server_mmsConnectionHandler_def tase2_server_DisableIMTransferSet_def Let_def
        split: Option.bind_splits)
  have "transfer_frame (as_transfer srv) ts"
    using r(1) by (auto simp: tase2_Server_deactivateTransferSets_def split: Option.bind_splits dest: release_values)
  then show ?thesis using r(2,3)
    by (auto simp: request_ok_def same_site_def transfer_frame_def values_shared_def same_values_def messages_kept_def)
qed (use assms in \<open>auto simp: Tase2_Server_mmsConnectionHandler_def request_ok_def\<close>)


section \<open>Runs\<close>

text \<open>The requests of a client and the answers it gets.\<close>

datatype access_request =
    ReadVariable "cstr option" cstr
  | WriteVariable MmsObjectScope "cstr option" cstr "cstr option" MmsValue
  | ConnectionEvent MmsEndpointEvent

datatype access_answer = ReadAnswer read_result | WriteAnswer MmsDataAccessError | NoAnswer

fun serve ::
    "AccessServer \<Rightarrow> nat \<Rightarrow> access_request \<Rightarrow> u64 \<Rightarrow> (nat \<Rightarrow> u64) \<Rightarrow>
     (AccessServer \<times> access_effect list \<times> access_answer) option" where
  "serve srv c (ReadVariable domain variableId) now clock =
     map_option (\<lambda>(srv, effects, r). (srv, effects, ReadAnswer r))
       (mmsReadVariableHandler srv domain variableId c now clock)"
| "serve srv c (WriteVariable scope domain variableId componentName v) now clock =
     map_option (\<lambda>(srv, effects, r). (srv, effects, WriteAnswer r))
       (mmsWriteVariableHandler srv scope domain variableId componentName v c now clock)"
| "serve srv c (ConnectionEvent event) now clock =
     map_option (\<lambda>(srv, effects). (srv, effects, NoAnswer)) (Tase2_Server_mmsConnectionHandler srv c event)"

text \<open>
  What the application does to a point between two requests: any change of an object that keeps
  its kind, and the functions of the online values.
\<close>

inductive application_step :: "AccessServer \<Rightarrow> AccessServer \<Rightarrow> bool" where
  change: "object_type obj = object_type (as_objects srv p) \<Longrightarrow> application_step srv (store_object srv p obj)"
| update: "Tase2_Server_updateOnlineValue srv p clock = Some (srv', effects) \<Longrightarrow> application_step srv srv'"
| store: "Tase2_Server_updateOnlineValueNoTrigger srv p = Some srv' \<Longrightarrow> application_step srv srv'"
| restore: "Tase2_Server_updateByOnlineValue srv p = Some srv' \<Longrightarrow> application_step srv srv'"

record access_entry =
  en_connection :: nat
  en_request :: access_request
  en_before :: AccessServer
  en_effects :: "access_effect list"
  en_answer :: access_answer
  en_after :: AccessServer

inductive access_run :: "AccessServer \<Rightarrow> access_entry list \<Rightarrow> AccessServer \<Rightarrow> bool" where
  start: "access_run srv [] srv"
| client: "access_run srv0 tr srv \<Longrightarrow> serve srv c req now clock = Some (srv', effects, answer) \<Longrightarrow>
    access_run srv0 (tr @ [\<lparr>en_connection = c, en_request = req, en_before = srv, en_effects = effects,
      en_answer = answer, en_after = srv'\<rparr>]) srv'"
| application: "access_run srv0 tr srv \<Longrightarrow> application_step srv srv' \<Longrightarrow> access_run srv0 tr srv'"

inductive_cases start_cases: "access_run srv [] srv'"

lemma serve_ok: "serve srv c req now clock = Some (srv', effects, answer) \<Longrightarrow> request_ok srv c srv' effects"
  by (cases req) (auto intro: read_handler_ok write_handler_ok connection_handler_ok)

definition application_ok :: "AccessServer \<Rightarrow> AccessServer \<Rightarrow> bool" where
  "application_ok srv srv' \<longleftrightarrow> same_site srv srv' \<and> (values_shared srv \<longrightarrow> values_shared srv') \<and>
     as_imEnabledConnections srv' = as_imEnabledConnections srv"

lemma application_ok_refl: "application_ok srv srv"
  by (simp add: application_ok_def)

lemma application_ok_trans: "application_ok a b \<Longrightarrow> application_ok b c \<Longrightarrow> application_ok a c"
  by (auto simp: application_ok_def same_site_def)

lemma store_application: "application_ok srv (store_object srv p obj)"
  by (simp add: application_ok_def store_object_shared)

lemma trigger_application: "trigger srv p clock = Some (srv', effects) \<Longrightarrow> application_ok srv srv'"
  using trigger_frame [of srv p clock srv' effects] transfer_frame_shared transfer_frame_site
  by (fastforce simp: application_ok_def)

lemma application_step_ok: "application_step srv srv' \<Longrightarrow> application_ok srv srv'"
proof (induction rule: application_step.induct)
  case (update srv p clock srv' effects)
  then show ?case
    by (auto simp: Tase2_Server_updateOnlineValue_def Let_def
        split: point_object.splits Option.bind_splits if_splits
        dest!: trigger_application
        intro: store_application application_ok_refl application_ok_trans)
      (meson store_application application_ok_trans)+
qed (auto simp: Tase2_Server_updateOnlineValueNoTrigger_def Tase2_Server_updateByOnlineValue_def Let_def
    split: if_splits Option.bind_splits intro: store_application application_ok_refl)

lemma run_site: "access_run srv0 tr srv \<Longrightarrow> same_site srv0 srv"
proof (induction rule: access_run.induct)
  case (client srv0 tr srv c req now clock srv' effects answer)
  then show ?case using serve_ok [OF client(2)] by (auto simp: request_ok_def intro: same_site_trans)
next
  case (application srv0 tr srv srv')
  then show ?case using application_step_ok by (auto simp: application_ok_def intro: same_site_trans)
qed simp

lemma site_rights:
  assumes "same_site srv0 srv"
  shows "may_control srv c p r = may_control srv0 c p r" "may_data srv c p r = may_data srv0 c p r"
    "in_domain srv d p = in_domain srv0 d p" "connection_table srv c = connection_table srv0 c"
  using assms
  by (simp_all add: same_site_def may_control_def may_data_def owns_def in_domain_def connection_table_def)

lemma site_covered: "same_site srv0 srv \<Longrightarrow> covered srv c e = covered srv0 c e"
  by (cases e) (simp_all add: site_rights)

lemma site_justified: "same_site srv0 srv \<Longrightarrow> justified srv c p a b = justified srv0 c p a b"
  by (simp add: justified_def site_rights)

text \<open>The name a read looks up in the domain's points.\<close>

definition point_name :: "cstr \<Rightarrow> cstr" where
  "point_name variableId = (let n = take 99 variableId in
     if is_tag_name n \<or> is_select_name n then take (length n - 4) n else n)"

lemma read_handler_point:
  assumes "mmsReadVariableHandler srv domain variableId c now clock = Some (srv', effects, ReadValue v)"
    "request_domain srv domain = Some (d, tase2Domain)"
    "HashTree_find (dom_dataPointHashTree tase2Domain) (point_name variableId) = Some p"
  shows "may_data srv c p Read"
proof -
  have "in_domain srv d p" by (rule found_in_domain [OF assms(2,3)])
  moreover obtain isSBO isTag where "read_point srv (connection_table srv c) d p isSBO isTag c now clock =
      Some (srv', effects, ReadValue v)"
    using assms by (auto simp: mmsReadVariableHandler_def point_name_def Let_def split: if_splits)
  ultimately show ?thesis using read_point_ok(2) read_check_right by blast
qed

text \<open>
  C1: Complete mediation. In every run of requests of any number of clients, interleaved with
  anything the application does to its points, every effect on a point has the right it needs in
  the table of the connection that caused it: a select the rights to read and operate, a call of
  the operate handler the right to operate, a call of the tag handler the right to tag, a call of
  the write handler the right to write; the value
  of a point (its tag, its select) is only answered with the right to read it. No request changes the value of a point without the right
  to operate or write it, none changes a point without a right on it, and none changes its kind.
  The rights are those of the start: no request changes a table or the data model.
\<close>

theorem complete_mediation:
  assumes "access_run srv0 tr srv" "en \<in> set tr"
  shows "(\<forall>e \<in> set (en_effects en). covered srv0 (en_connection en) e) \<and>
    (\<forall>p. justified srv0 (en_connection en) p (as_objects (en_before en) p) (as_objects (en_after en) p)) \<and>
    (\<forall>domain variableId v d tase2Domain p.
       en_request en = ReadVariable domain variableId \<and> en_answer en = ReadAnswer (ReadValue v) \<and>
       request_domain srv0 domain = Some (d, tase2Domain) \<and>
       HashTree_find (dom_dataPointHashTree tase2Domain) (point_name variableId) = Some p \<longrightarrow>
       may_data srv0 (en_connection en) p Read)"
  using assms
proof (induction rule: access_run.induct)
  case (client srv0 tr srv c req now clock srv' effects answer)
  have d: "request_domain srv domain = request_domain srv0 domain" for domain
    using run_site [OF client(1)] by (simp add: request_domain_def same_site_def)
  show ?case
    using client serve_ok [OF client(2)] run_site [OF client(1)] read_handler_point [of srv _ _ c now clock]
    by (auto simp: request_ok_def site_covered site_justified site_rights d)
qed auto



section \<open>Refusals\<close>

definition point_right :: "AccessServer \<Rightarrow> BilateralTable \<Rightarrow> point \<Rightarrow> access_right \<Rightarrow> bool" where
  "point_right srv blt p r \<longleftrightarrow>
     (if object_type (as_objects srv p) = TASE2_POINT_TYPE_CONTROL then control_right blt p r else data_right blt p r)"

lemma control_allowed_foreign:
  "blt_domain blt \<noteq> Some d \<Longrightarrow> control_allowed (Some blt) d p (rights_mask [r]) \<longleftrightarrow> control_right blt p r"
  by (auto simp: control_allowed_def control_right_def BilateralTable_checkControlPointAccess_def mask_all
      split: option.splits)

lemma point_allowed_foreign:
  "blt_domain blt \<noteq> Some d \<Longrightarrow> point_allowed (Some blt) d p (rights_mask [r]) \<longleftrightarrow> data_right blt p r"
  by (auto simp: point_allowed_def data_right_def control_right_def BilateralTable_checkDataPointAccess_def Let_def
      mask_any mask_any [unfolded neq0_conv] split: option.splits)

lemmas foreign_checks = control_allowed_foreign [where r = Read, unfolded rights_mask_flags]
  control_allowed_foreign [where r = Operate, unfolded rights_mask_flags]
  control_allowed_foreign [where r = GetTag, unfolded rights_mask_flags]
  control_allowed_foreign [where r = SetTag, unfolded rights_mask_flags]
  point_allowed_foreign [where r = Read, unfolded rights_mask_flags]
  point_allowed_foreign [where r = Write, unfolded rights_mask_flags]

text \<open>What the table refuses of a point: the read of a name, and the write.\<close>

definition read_refused :: "AccessServer \<Rightarrow> BilateralTable \<Rightarrow> cstr \<Rightarrow> point \<Rightarrow> bool" where
  "read_refused srv blt variableId p \<longleftrightarrow> \<not> point_right srv blt p Read \<or>
     (\<exists>cp. as_objects srv p = ControlObject cp \<and>
       (if is_select_name (take 99 variableId) then cp_sboValue cp \<noteq> None \<and> \<not> control_right blt p Operate
        else is_tag_name (take 99 variableId) \<and> \<not> control_right blt p GetTag))"

definition write_refused :: "AccessServer \<Rightarrow> BilateralTable \<Rightarrow> point \<Rightarrow> bool" where
  "write_refused srv blt p \<longleftrightarrow>
     (case as_objects srv p of
        IndicationObject ip \<Rightarrow> ip_readOnly ip \<or> \<not> data_right blt p Write
      | ControlObject cp \<Rightarrow> \<not> control_right blt p Operate
      | ProtectionObject pe \<Rightarrow> True)"

lemma suffix_exclusive: "is_select_name n \<Longrightarrow> \<not> is_tag_name n"
  by (auto simp: is_select_name_def is_tag_name_def StringUtils_endsWith_def cstring_def split: if_splits)

text \<open>
  C14: What the table refuses leaves no trace. A client with a table that names another domain than
  the table's, or none of the model, is refused every read and every write of a variable. For the
  points of the VCC, when that is not the table's domain, the entries decide: without the right to
  read, and for a select or a tag the right for it, a read is refused, and without the right to
  write, operate or tag a write is. In each case the answer is access denied, the server is as
  before and no handler is called.
\<close>

theorem refused_requests:
  assumes "connection_table srv c = Some blt"
  shows "(\<forall>n. blt_domain blt \<noteq> map_option fst (request_domain srv (Some n)) \<longrightarrow>
      mmsReadVariableHandler srv (Some n) variableId c now clock =
        Some (srv, [], ReadError DATA_ACCESS_ERROR_OBJECT_ACCESS_DENIED) \<and>
      (scope \<noteq> MMS_ASSOCIATION_SPECIFIC \<longrightarrow>
        mmsWriteVariableHandler srv scope (Some n) variableId componentName v c now clock =
          Some (srv, [], DATA_ACCESS_ERROR_OBJECT_ACCESS_DENIED))) \<and>
    (blt_domain blt \<noteq> Some 0 \<longrightarrow>
      (let vcc = dm_vcc (sv_dataModel (as_transfer srv)); points = dom_dataPointHashTree vcc in
       (\<forall>p. HashTree_find points (point_name variableId) = Some p \<and> read_refused srv blt variableId p \<longrightarrow>
          mmsReadVariableHandler srv None variableId c now clock =
            Some (srv, [], ReadError DATA_ACCESS_ERROR_OBJECT_ACCESS_DENIED)) \<and>
       (\<forall>p. HashTree_find points variableId = Some p \<and> write_refused srv blt p \<and> scope \<noteq> MMS_ASSOCIATION_SPECIFIC \<longrightarrow>
          mmsWriteVariableHandler srv scope None variableId None v c now clock =
            Some (srv, [], DATA_ACCESS_ERROR_OBJECT_ACCESS_DENIED)) \<and>
       (\<forall>p cp. HashTree_find points variableId = None \<and> tag_point srv vcc variableId = Some (p, cp) \<and>
            \<not> control_right blt p SetTag \<and> scope \<noteq> MMS_ASSOCIATION_SPECIFIC \<longrightarrow>
          mmsWriteVariableHandler srv scope None variableId None v c now clock =
            Some (srv, [], DATA_ACCESS_ERROR_OBJECT_ACCESS_DENIED))))"
proof -
  let ?vcc = "dm_vcc (sv_dataModel (as_transfer srv))"
  let ?denied = "Some (srv, [], ReadError DATA_ACCESS_ERROR_OBJECT_ACCESS_DENIED)"
  let ?refused = "Some (srv, [] :: access_effect list, DATA_ACCESS_ERROR_OBJECT_ACCESS_DENIED)"
  have vcc: "request_domain srv None = Some (0, ?vcc)" by (simp add: request_domain_def Let_def)
  have 1: "mmsReadVariableHandler srv (Some n) variableId c now clock = ?denied \<and>
      (scope \<noteq> MMS_ASSOCIATION_SPECIFIC \<longrightarrow>
        mmsWriteVariableHandler srv scope (Some n) variableId componentName v c now clock = ?refused)"
    if "blt_domain blt \<noteq> map_option fst (request_domain srv (Some n))" for n
    using that assms by (simp add: mmsReadVariableHandler_def mmsWriteVariableHandler_def wrong_domain_def Let_def)
  have 2: "mmsReadVariableHandler srv None variableId c now clock = ?denied"
    if d: "blt_domain blt \<noteq> Some 0" and f: "HashTree_find (dom_dataPointHashTree ?vcc) (point_name variableId) = Some p"
      and r: "read_refused srv blt variableId p" for p
  proof -
    note checks = foreign_checks [OF d]
    have h: "mmsReadVariableHandler srv None variableId c now clock =
        read_point srv (Some blt) 0 p (is_select_name (take 99 variableId)) (is_tag_name (take 99 variableId)) c now clock"
      using f assms vcc by (simp add: mmsReadVariableHandler_def wrong_domain_def point_name_def Let_def disj_commute)
    show ?thesis
    proof (cases "point_right srv blt p Read")
      case False
      then show ?thesis using h checks by (auto simp: read_point_def point_right_def Let_def)
    next
      case True
      then show ?thesis using h checks r suffix_exclusive
        by (auto simp: read_point_def point_right_def read_refused_def read_select_def read_tag_def Let_def
            split: if_splits)
    qed
  qed
  have 3: "mmsWriteVariableHandler srv scope None variableId None v c now clock = ?refused"
    if "blt_domain blt \<noteq> Some 0" "HashTree_find (dom_dataPointHashTree ?vcc) variableId = Some p"
      "write_refused srv blt p" "scope \<noteq> MMS_ASSOCIATION_SPECIFIC" for p
    using that(2-4) assms vcc foreign_checks [OF that(1)]
    by (auto simp: mmsWriteVariableHandler_def wrong_domain_def write_point_def write_refused_def write_indication_def
        Let_def split: point_object.splits)
  have 4: "mmsWriteVariableHandler srv scope None variableId None v c now clock = ?refused"
    if "blt_domain blt \<noteq> Some 0" "HashTree_find (dom_dataPointHashTree ?vcc) variableId = None"
      "tag_point srv ?vcc variableId = Some (p, cp)" "\<not> control_right blt p SetTag" "scope \<noteq> MMS_ASSOCIATION_SPECIFIC" for p cp
    using that(2-5) assms vcc foreign_checks [OF that(1)]
    by (simp add: mmsWriteVariableHandler_def wrong_domain_def write_tag_def Let_def)
  show ?thesis
    unfolding Let_def using 1 2 3 4 by blast
qed


section \<open>The end of a connection\<close>

text \<open>
  C16: What a connection leaves behind. When it is closed, it is out of the list for information
  messages and no active transfer set belongs to it any more; the sets of the other connections stay
  active in their order, and the application is told last. The points are as before: a control the
  connection has selected stays selected.
\<close>

theorem connection_ended:
  assumes "Tase2_Server_mmsConnectionHandler srv c MMS_ENDPOINT_EVENT_CONNECTION_CLOSED = Some (srv', effects)"
    "distinct (as_imEnabledConnections srv)"
  shows "set (as_imEnabledConnections srv') = set (as_imEnabledConnections srv) - {c} \<and>
    sv_activeTransferSets (as_transfer srv') =
      filter (\<lambda>t. ts_connection (sv_sets (as_transfer srv) t) \<noteq> Some c) (sv_activeTransferSets (as_transfer srv)) \<and>
    (\<forall>t \<in> set (sv_activeTransferSets (as_transfer srv')). ts_connection (sv_sets (as_transfer srv') t) \<noteq> Some c \<and>
      sv_sets (as_transfer srv') t = sv_sets (as_transfer srv) t) \<and>
    as_objects srv' = as_objects srv \<and> last effects = ClientConnectionEvent c (as_token srv c) False"
proof -
  obtain ts kept released where r: "release_sets (sv_activeTransferSets (as_transfer srv)) c (as_transfer srv) = Some (ts, kept, released)"
    "srv' = srv\<lparr>as_transfer := ts\<lparr>sv_activeTransferSets := kept\<rparr>, as_imEnabledConnections := remove1 c (as_imEnabledConnections srv)\<rparr>"
    "last effects = ClientConnectionEvent c (as_token srv c) False"
    using assms(1)
    by (auto simp: Tase2_Server_mmsConnectionHandler_def tase2_server_DisableIMTransferSet_def
        tase2_Server_deactivateTransferSets_def Let_def split: Option.bind_splits)
  note f = release_sets_frame [OF r(1)]
  show ?thesis using f r(2,3) assms(2) by auto
qed

section \<open>Names with a suffix\<close>

lemma stripped:
  assumes "n \<noteq> []" "length n + 4 \<le> 99" "s = cstring ''_TAG'' \<or> s = cstring ''_SBO''"
  shows "take 99 (n @ s) = n @ s" "is_tag_name (n @ s) \<or> is_select_name (n @ s)"
    "point_name (n @ s) = n"
proof -
  have l: "length s = 4" using assms(3) by (auto simp: cstring_def)
  show t: "take 99 (n @ s) = n @ s" using assms(2) l by simp
  show e: "is_tag_name (n @ s) \<or> is_select_name (n @ s)"
    using assms(1,3) l by (auto simp: is_tag_name_def is_select_name_def StringUtils_endsWith_def)
  show "point_name (n @ s) = n" using t e l by (simp add: point_name_def)
qed

text \<open>
  What the handlers take for granted. A name that is no point is looked up without its suffix
  everywhere: a read of it with \<open>_TAG\<close> or \<open>_SBO\<close> appended answers what the name itself does, so
  \<open>Next_DSTransfer_Set_TAG\<close> reserves a transfer set, and a transfer set whose own name has the suffix
  is not found by it. And a value of another type than the indication point's is acknowledged with
  success when the application has no objection, but not stored.
\<close>

theorem access_defects:
  assumes "n \<noteq> []" "length n + 4 \<le> 99" "point_name n = n" "s = cstring ''_TAG'' \<or> s = cstring ''_SBO''"
    "request_domain srv domain = Some (d, tase2Domain)"
    "HashTree_find (dom_dataPointHashTree tase2Domain) n = None"
    "ip_pointValue ip = Some old" "MmsValue_getType old \<noteq> MmsValue_getType v" "\<not> ip_readOnly ip"
    "point_allowed blt d p BLT_ACCESS_ALLOW_WRITE" "as_writeDataHandler srv = None"
  shows "mmsReadVariableHandler srv domain (n @ s) c now clock = mmsReadVariableHandler srv domain n c now clock \<and>
    write_indication srv blt d p ip v = Some (store_object srv p (IndicationObject ip), [], DATA_ACCESS_ERROR_SUCCESS)"
proof -
  note s = stripped [OF assms(1,2,4)]
  have p: "take 99 n = n" using assms(2) by simp
  have "\<not> is_tag_name n \<and> \<not> is_select_name n"
    using assms(1,3) p by (auto simp: point_name_def is_tag_name_def is_select_name_def)
  then have "mmsReadVariableHandler srv domain (n @ s) c now clock = mmsReadVariableHandler srv domain n c now clock"
    using s p assms(5,6) by (simp add: mmsReadVariableHandler_def point_name_def Let_def)
  moreover have same: "ip\<lparr>ip_pointValue := Some old\<rparr> = ip" using assms(7) by (cases ip) simp
  have "write_indication srv blt d p ip v = Some (store_object srv p (IndicationObject ip), [], DATA_ACCESS_ERROR_SUCCESS)"
    using assms(7,9-11) update_mismatch [OF assms(8)]
    by (simp add: write_indication_def getPointValueType_def Let_def same)
  ultimately show ?thesis ..
qed

section \<open>Examples\<close>

text \<open>
  A server whose VCC has the control point \<open>v\<close> (20) and the indication point \<open>w\<close> (10). Connection 7
  has a table for another domain that grants to operate \<open>v\<close>, connection 8 has none.
\<close>

definition access_vcc :: Tase2_Domain where
  "access_vcc = the (do {
     d \<leftarrow> appendPointToPointList (Tase2_Domain_create None) 20 [118];
     d \<leftarrow> appendPointToPointList d 10 [119];
     Some (appendTransferSet d 0) })"

definition access_table :: BilateralTable where
  "access_table = the (for_each [AddControlPoint 20 7 False False True False] run_op
     \<lparr>blt_bltId = [66], blt_appAddr = zero_address, blt_domain = Some 1, blt_dataPoints = AvlTree_create,
      blt_controlPoints = AvlTree_create, blt_informationMessages = []\<rparr>)"

definition access_indication :: IndicationPoint where
  "access_indication = \<lparr>ip_valueType = TASE2_VALUE_TYPE_DISCRETE, ip_pointValue = Some (MmsValue_newInteger 32),
     ip_serverCachedValue = Some (MmsValue_newInteger 32), ip_pointType = TASE2_IND_POINT_TYPE_DISCRETE,
     ip_qualityClass = TASE2_NO_QUALITY, ip_timeStampClass = TASE2_NO_TIMESTAMP, ip_hasCov = False,
     ip_readOnly = False, ip_hasDeadband = False, ip_hasChanged = False\<rparr>"

definition access_objects :: "point \<Rightarrow> point_object" where
  "access_objects p = (if p = 20 then ControlObject (sample_control\<lparr>cp_deviceClass := TASE2_DEVICE_CLASS_DIRECT\<rparr>)
     else IndicationObject access_indication)"

definition access_demo :: AccessServer where
  "access_demo = \<lparr>as_transfer = (demo_server [])\<lparr>sv_dataModel := (sv_dataModel (demo_server []))\<lparr>dm_vcc := access_vcc\<rparr>,
       sv_points := (\<lambda>p. (demo_points p)\<lparr>dp_pointValue := object_value (access_objects p),
         dp_tagValue := object_tag (access_objects p)\<rparr>)\<rparr>,
     as_control = (plain_server 10000)\<lparr>srv_operateHandler := Some (\<lambda>_ _. TASE2_RESULT_SUCCESS)\<rparr>,
     as_objects = access_objects, as_bilateralTableId = (\<lambda>_. None), as_tables = (\<lambda>_. access_table),
     as_token = (\<lambda>c. if c = 7 then Some 0 else None), as_imEnabledConnections = [], as_writeDataHandler = None\<rparr>"

definition access_command :: MmsValue where
  "access_command = ValInteger \<lparr>asn1_size = 1, asn1_maxSize = 1, asn1_octets = [1]\<rparr>"

theorem complete_mediation_witness:
  "\<exists>en srv e. access_run access_demo [en] srv \<and> ControlEffect 20 (OperateHandlerCalled e) \<in> set (en_effects en) \<and>
     en_connection en = 7 \<and> may_control access_demo 7 20 Operate \<and> may_control access_demo 8 20 Read"
proof -
  let ?req = "WriteVariable MMS_VMD_SPECIFIC None [118] None access_command"
  have "(case serve access_demo 7 ?req 20000 (\<lambda>_. 0) of
      Some (srv, effects, answer) \<Rightarrow> ControlEffect 20 (OperateHandlerCalled (DiscreteValue 1)) \<in> set effects | None \<Rightarrow> False)"
    by code_simp
  then obtain srv effects answer where s: "serve access_demo 7 ?req 20000 (\<lambda>_. 0) = Some (srv, effects, answer)"
    "ControlEffect 20 (OperateHandlerCalled (DiscreteValue 1)) \<in> set effects"
    by (auto split: option.splits)
  from access_run.client [OF access_run.start s(1)] obtain en where
    r: "access_run access_demo [en] srv" "en_connection en = 7" "en_effects en = effects" by fastforce
  from complete_mediation [OF r(1), of en] s(2) r(2,3) have "may_control access_demo 7 20 Operate" by fastforce
  moreover have "may_control access_demo 8 20 Read"
    by (simp add: may_control_def connection_table_def access_demo_def)
  ultimately show ?thesis using r s(2) by blast
qed

lemma access_demo_shared: "values_shared access_demo"
  by (simp add: values_shared_def access_demo_def)


theorem refused_requests_witness:
  "mmsReadVariableHandler access_demo None [119] 7 20000 (\<lambda>_. 0) =
     Some (access_demo, [], ReadError DATA_ACCESS_ERROR_OBJECT_ACCESS_DENIED) \<and>
   mmsWriteVariableHandler access_demo MMS_VMD_SPECIFIC None [119] None (ValBoolean True) 7 20000 (\<lambda>_. 0) =
     Some (access_demo, [], DATA_ACCESS_ERROR_OBJECT_ACCESS_DENIED)"
proof -
  have c: "connection_table access_demo 7 = Some access_table" by (simp add: connection_table_def access_demo_def)
  have d: "blt_domain access_table \<noteq> Some 0" by code_simp
  have v: "HashTree_find (dom_dataPointHashTree (dm_vcc (sv_dataModel (as_transfer access_demo)))) [119] = Some 10"
    "point_name [119] = [119]" by code_simp+
  have "AvlTree_find (blt_controlPoints access_table) 10 = None" "AvlTree_find (blt_dataPoints access_table) 10 = None"
    by code_simp+
  then have "\<not> data_right access_table 10 r" for r by (simp add: data_right_def control_right_def)
  moreover have "as_objects access_demo 10 = IndicationObject access_indication"
    by (simp add: access_demo_def access_objects_def)
  ultimately have r: "read_refused access_demo access_table [119] 10" "write_refused access_demo access_table 10"
    by (simp_all add: read_refused_def write_refused_def point_right_def)
  from refused_requests [OF c, where variableId = "[119]" and scope = MMS_VMD_SPECIFIC and
      v = "ValBoolean True" and now = 20000 and clock = "\<lambda>_. 0"] d v r
  show ?thesis by (simp add: Let_def)
qed

theorem connection_ended_witness:
  "\<exists>srv effects. Tase2_Server_mmsConnectionHandler (access_demo\<lparr>as_imEnabledConnections := [8, 7]\<rparr>) 7
     MMS_ENDPOINT_EVENT_CONNECTION_CLOSED = Some (srv, effects) \<and> set (as_imEnabledConnections srv) = {8}"
proof -
  let ?srv = "access_demo\<lparr>as_imEnabledConnections := [8, 7]\<rparr>"
  have "Tase2_Server_mmsConnectionHandler ?srv 7 MMS_ENDPOINT_EVENT_CONNECTION_CLOSED \<noteq> None" by code_simp
  then obtain srv effects where s: "Tase2_Server_mmsConnectionHandler ?srv 7 MMS_ENDPOINT_EVENT_CONNECTION_CLOSED = Some (srv, effects)"
    by auto
  have "distinct (as_imEnabledConnections ?srv)" by simp
  from connection_ended [OF s this] s show ?thesis by auto
qed

theorem access_defects_witness:
  "mmsReadVariableHandler access_demo None (cstring ''Next_DSTransfer_Set_TAG'') 8 20000 (\<lambda>_. 0) =
     mmsReadVariableHandler access_demo None (cstring ''Next_DSTransfer_Set'') 8 20000 (\<lambda>_. 0) \<and>
   write_indication access_demo None 0 10 access_indication (ValBoolean True) =
     Some (store_object access_demo 10 (IndicationObject access_indication), [], DATA_ACCESS_ERROR_SUCCESS)"
proof -
  let ?n = "cstring ''Next_DSTransfer_Set''"
  have r: "request_domain access_demo None = Some (0, access_vcc)"
    by (simp add: request_domain_def access_demo_def Let_def)
  have f: "HashTree_find (dom_dataPointHashTree access_vcc) ?n = None" by code_simp
  have n: "?n \<noteq> []" "length ?n + 4 \<le> 99" "point_name ?n = ?n" by code_simp+
  have i: "ip_pointValue access_indication = Some (MmsValue_newInteger 32)" "\<not> ip_readOnly access_indication"
    by (simp_all add: access_indication_def)
  have t: "MmsValue_getType (MmsValue_newInteger 32) \<noteq> MmsValue_getType (ValBoolean True)" by code_simp
  have w: "point_allowed None 0 10 BLT_ACCESS_ALLOW_WRITE" "as_writeDataHandler access_demo = None"
    by (simp_all add: point_allowed_def access_demo_def)
  have s: "cstring ''_TAG'' = cstring ''_TAG'' \<or> cstring ''_TAG'' = cstring ''_SBO''" by simp
  have c: "?n @ cstring ''_TAG'' = cstring ''Next_DSTransfer_Set_TAG''" by code_simp
  from access_defects [OF n s r f i(1) t i(2) w, of 8 20000 "\<lambda>_. 0"] show ?thesis unfolding c .
qed

end
