(* ===== verification/ServerCreate.thy ===== *)
theory ServerCreate
  imports Access
begin

text \<open>
  The creation of the server's MMS device from the data model (\<^verbatim>\<open>tase2_server/tase2_server.c\<close>): the
  named variables of every domain and of the VCC with the sizes of their arrays, the data sets,
  and the values of the system variables.

  A device and a domain have the same first members, the array of named variables and the tree of
  their names: \<open>NamedVariables\<close>. The array is allocated with the number of variables computed
  beforehand; an element that has not been written is \<open>None\<close>, a write outside it makes the result
  \<open>None\<close>. The names of the components of a variable are left out.
\<close>

section \<open>Named variables\<close>

type_synonym NamedVariable = "cstr \<times> MmsVariableSpecification"

record NamedVariables =
  nv_namedVariables :: "NamedVariable option list"
  nv_namedVariablesHashTree :: "MmsVariableSpecification HashTreeNode"

definition new_variables :: "nat \<Rightarrow> NamedVariables" where
  "new_variables namedVariablesCount =
     \<lparr>nv_namedVariables = replicate namedVariablesCount None, nv_namedVariablesHashTree = HashTree_create\<rparr>"

definition MmsDomain_addNamedVariable :: "NamedVariables \<Rightarrow> nat \<Rightarrow> NamedVariable \<Rightarrow> NamedVariables option" where
  "MmsDomain_addNamedVariable self idx varSpec =
     (if idx < length (nv_namedVariables self) then do {
        t \<leftarrow> HashTree_add (\<lambda>_. snd varSpec) (nv_namedVariablesHashTree self) (fst varSpec) (Some (snd varSpec));
        Some \<lparr>nv_namedVariables = (nv_namedVariables self)[idx := Some varSpec], nv_namedVariablesHashTree = t\<rparr> }
      else None)"

definition MmsDomain_getNamedVariable :: "NamedVariables \<Rightarrow> cstr \<Rightarrow> MmsVariableSpecification option" where
  "MmsDomain_getNamedVariable self nameId = HashTree_find (nv_namedVariablesHashTree self) nameId"

text \<open>\<open>MmsDomain_addNamedVariable(domain, variableIndex++, varSpec)\<close> for each of the variables.\<close>

type_synonym variables = "NamedVariables \<times> nat"

definition add_next :: "NamedVariable \<Rightarrow> variables \<Rightarrow> variables option" where
  "add_next varSpec s = (case s of (vars, variableIndex) \<Rightarrow>
     map_option (\<lambda>vars. (vars, variableIndex + 1)) (MmsDomain_addNamedVariable vars variableIndex varSpec))"

definition createIntVariable :: "cstr \<Rightarrow> int \<Rightarrow> NamedVariable" where
  "createIntVariable name bitSize = (name, SpecInteger bitSize)"

definition createInt16Variable :: "cstr \<Rightarrow> NamedVariable" where
  "createInt16Variable name = createIntVariable name 16"

definition createUIntVariable :: "cstr \<Rightarrow> int \<Rightarrow> NamedVariable" where
  "createUIntVariable name bitSize = (name, SpecUnsigned bitSize)"

definition createUInt8Variable :: "cstr \<Rightarrow> NamedVariable" where
  "createUInt8Variable name = createUIntVariable name 8"

definition createVisibleStringVariable :: "cstr \<Rightarrow> int \<Rightarrow> NamedVariable" where
  "createVisibleStringVariable name sz = (name, SpecVisibleString sz)"

definition createBitStringVariable :: "cstr \<Rightarrow> int \<Rightarrow> NamedVariable" where
  "createBitStringVariable name bitSize = (name, SpecBitString bitSize)"

definition createTase2Version :: NamedVariable where
  "createTase2Version = (cstring ''TASE2_Version'', SpecStructure
     [snd (createInt16Variable (cstring ''MajorVersionNumber'')), snd (createInt16Variable (cstring ''MinorVersionNumber''))])"

definition createSupportedFeatures :: "cstr \<Rightarrow> NamedVariable" where
  "createSupportedFeatures name = (name, SpecBitString 12)"

definition createBilateralTableId :: NamedVariable where
  "createBilateralTableId = (cstring ''Bilateral_Table_ID'', SpecVisibleString 32)"

definition createInfoHeader :: NamedVariable where
  "createInfoHeader = (cstring ''Info_Mess_Header'', SpecStructure
     (map snd [createIntVariable (cstring ''InfoReference'') 32, createIntVariable (cstring ''LocalReference'') 32,
       createIntVariable (cstring ''MessageId'') 32, createIntVariable (cstring ''Size'') 32]))"

text \<open>\<open>sprintf\<close> with \<open>%d\<close>; \<open>int\<close> has at most ten digits.\<close>

definition print_int :: "u32 \<Rightarrow> cstr" where
  "print_int i = (if sint i < 0 then cstring ''-'' else []) @ decimal (nat \<bar>sint i\<bar>)"

definition infoBufferName :: "u32 \<Rightarrow> cstr" where
  "infoBufferName sz = cstring ''Info_Buff_'' @ print_int sz"

definition createInfoBuf :: "u32 \<Rightarrow> NamedVariable" where
  "createInfoBuf sz = (infoBufferName sz, SpecOctetString (sint sz))"

section \<open>Counting\<close>

definition getDomainCount :: "Tase2_DataModel \<Rightarrow> nat" where
  "getDomainCount dataModel = length (dm_domains dataModel)"

definition getInfoMessageCount :: "Tase2_Domain \<Rightarrow> nat" where
  "getInfoMessageCount domain = length (dom_informationMessages domain)"

fun point_variables_count :: "point_object \<Rightarrow> nat" where
  "point_variables_count (ControlObject cp) =
     1 + (if cp_hasTag cp then 1 else 0) + (if cp_deviceClass cp = TASE2_DEVICE_CLASS_SBO then 1 else 0)"
| "point_variables_count _ = 1"

definition getVariablesCount :: "(point \<Rightarrow> point_object) \<Rightarrow> Tase2_Domain \<Rightarrow> nat" where
  "getVariablesCount objects domain =
     sum_list (map (\<lambda>p. point_variables_count (objects p)) (dom_dataPoints domain)) + length (dom_transferSets domain)"

section \<open>The variables of the points\<close>

definition control_point_variables :: "cstr \<Rightarrow> ControlPoint \<Rightarrow> NamedVariable list" where
  "control_point_variables pointName cp =
     (pointName, control_value_spec (cp_pointType cp)) #
     (if cp_deviceClass cp = TASE2_DEVICE_CLASS_SBO then [(pointName @ cstring ''_SBO'', SpecInteger 16)] else []) @
     (if cp_hasTag cp then [(pointName @ cstring ''_TAG'', tag_spec)] else [])"

definition addPointVariables :: "cstr \<Rightarrow> point_object \<Rightarrow> variables \<Rightarrow> (point_object \<times> variables) option" where
  "addPointVariables pointName obj s =
     (case obj of
        IndicationObject ip \<Rightarrow> do {
          varSpec \<leftarrow> indication_spec ip;
          s \<leftarrow> add_next (pointName, varSpec) s;
          ip \<leftarrow> createIndicationPointVariable ip;
          Some (IndicationObject ip, s) }
      | ControlObject cp \<Rightarrow> do {
          s \<leftarrow> for_each (control_point_variables pointName cp) add_next s;
          cp \<leftarrow> createControlPointVariables cp;
          Some (ControlObject cp, s) }
      | ProtectionObject pe \<Rightarrow> do {
          s \<leftarrow> add_next (pointName, protection_spec pe) s;
          pe \<leftarrow> createProtectionEventVariable pe;
          Some (ProtectionObject pe, s) })"

text \<open>The state of the loops: what is created so far of the points, the transfer sets, the variables.\<close>

record create_state =
  cs_objects :: "point \<Rightarrow> point_object"
  cs_sets :: "nat \<Rightarrow> DSTransferSet"
  cs_variables :: variables

definition add_variable :: "NamedVariable \<Rightarrow> create_state \<Rightarrow> create_state option" where
  "add_variable varSpec s = do {
     vars \<leftarrow> add_next varSpec (cs_variables s);
     Some (s\<lparr>cs_variables := vars\<rparr>) }"

definition add_point :: "(point \<Rightarrow> cstr) \<Rightarrow> point \<Rightarrow> create_state \<Rightarrow> create_state option" where
  "add_point pointName p s = do {
     (obj, vars) \<leftarrow> addPointVariables (pointName p) (cs_objects s p) (cs_variables s);
     Some (s\<lparr>cs_objects := (cs_objects s)(p := obj), cs_variables := vars\<rparr>) }"

definition add_set :: "Tase2_Edition \<Rightarrow> nat \<Rightarrow> create_state \<Rightarrow> create_state option" where
  "add_set edition t s = do {
     let ts = cs_sets s t;
     vars \<leftarrow> add_next (ts_name ts, createDSTransferSet edition) (cs_variables s);
     v \<leftarrow> MmsValue_newDefaultValue (createDSTransferSet edition);
     Some (s\<lparr>cs_sets := (cs_sets s)(t := ts\<lparr>ts_edition := edition, ts_mmsValue := v\<rparr>), cs_variables := vars\<rparr>) }"

section \<open>Data sets\<close>

definition MmsNamedVariableListEntry_create :: "nat \<Rightarrow> cstr option \<Rightarrow> cstr \<Rightarrow> u32 \<Rightarrow> cstr option \<Rightarrow> MmsNamedVariableListEntry" where
  "MmsNamedVariableListEntry_create a domain variableName arrayIndex componentName =
     \<lparr>nve_domain = domain, nve_variableName = variableName, nve_nameAddress = a, nve_arrayIndex = arrayIndex,
      nve_componentName = componentName\<rparr>"

text \<open>
  The variable list of a data set of the domain with address \<open>d\<close>. The copy of an entry's name lies
  at \<open>address\<close>. The name of the MMS domain is null for the VCC, whose lists are the device's.
\<close>

definition data_set_list :: "(cstr \<Rightarrow> nat) \<Rightarrow> nat \<Rightarrow> cstr option \<Rightarrow> Tase2_DataSet \<Rightarrow> MmsNamedVariableList" where
  "data_set_list address d mmsDomain dataSet =
     foldl (\<lambda>mmsVarList en. MmsNamedVariableList_addVariable mmsVarList
         (MmsNamedVariableListEntry_create (address (dse_variableName en))
           (if dse_domain en = Some d then mmsDomain else None) (dse_variableName en) (- 1) None))
       (MmsNamedVariableList_create (ds_name dataSet) False) (ds_entries dataSet)"

definition addDataSets ::
    "(cstr \<Rightarrow> nat) \<Rightarrow> nat \<Rightarrow> cstr option \<Rightarrow> Tase2_Domain \<Rightarrow> MmsNamedVariableList list \<Rightarrow> MmsNamedVariableList list" where
  "addDataSets address d mmsDomain domain lists' = lists' @ map (data_set_list address d mmsDomain) (dom_dataSets domain)"

section \<open>The device\<close>

definition special_variables :: "NamedVariable list" where
  "special_variables = [(cstring ''Transfer_Set_Name'', createMmsObjectName),
     createBitStringVariable (cstring ''DSConditions_Detected'') 5, createInt16Variable (cstring ''Event_Code_Detected''),
     createIntVariable (cstring ''Transfer_Set_Time_Stamp'') 32]"

definition message_variables :: "Tase2_Domain \<Rightarrow> NamedVariable list" where
  "message_variables domain =
     (if dom_informationMessages domain \<noteq> [] then
        createInfoHeader # map (\<lambda>im. createInfoBuf (imsg_maxSize im)) (dom_informationMessages domain)
      else [])"

definition message_variables_count :: "Tase2_Domain \<Rightarrow> nat" where
  "message_variables_count domain =
     (if dom_informationMessages domain \<noteq> [] then 1 + getInfoMessageCount domain else 0)"

text \<open>A domain of the device: its variables with what they create.\<close>

definition create_domain ::
    "(point \<Rightarrow> cstr) \<Rightarrow> bool \<Rightarrow> Tase2_Edition \<Rightarrow> Tase2_Domain \<Rightarrow> create_state \<Rightarrow> create_state option" where
  "create_domain pointName hideSpecialTSVariables edition domain s = do {
     let specialTSVariablesCount = (if hideSpecialTSVariables then 0 else 4);
     let count = getVariablesCount (cs_objects s) domain + specialTSVariablesCount + 2 + message_variables_count domain;
     let s = s\<lparr>cs_variables := (new_variables count, 0)\<rparr>;
     s \<leftarrow> (if \<not> hideSpecialTSVariables then for_each special_variables add_variable s else Some s);
     s \<leftarrow> add_variable (cstring ''Next_DSTransfer_Set'', createMmsObjectName) s;
     s \<leftarrow> add_variable createBilateralTableId s;
     s \<leftarrow> for_each (message_variables domain) add_variable s;
     s \<leftarrow> for_each (dom_dataPoints domain) (add_point pointName) s;
     for_each (dom_transferSets domain) (add_set edition) s }"

text \<open>The variables of the device itself; the transfer sets of the VCC are counted and not added.\<close>

definition create_vcc :: "(point \<Rightarrow> cstr) \<Rightarrow> Tase2_Domain \<Rightarrow> create_state \<Rightarrow> create_state option" where
  "create_vcc pointName vcc s = do {
     let count = getVariablesCount (cs_objects s) vcc + 2 + message_variables_count vcc;
     let s = s\<lparr>cs_variables := (new_variables count, 0)\<rparr>;
     s \<leftarrow> add_variable (createSupportedFeatures (cstring ''Supported_Features'')) s;
     s \<leftarrow> add_variable createTase2Version s;
     s \<leftarrow> for_each (message_variables vcc) add_variable s;
     for_each (dom_dataPoints vcc) (add_point pointName) s }"

record DeviceModel =
  dev_device :: MmsDevice
  dev_namedVariables :: NamedVariables
  dev_domainVariables :: "NamedVariables list"

fun create_domains ::
    "(point \<Rightarrow> cstr) \<Rightarrow> bool \<Rightarrow> Tase2_Edition \<Rightarrow> (cstr \<Rightarrow> nat) \<Rightarrow> nat \<Rightarrow> Tase2_Domain list \<Rightarrow> create_state \<Rightarrow>
     (create_state \<times> (MmsDomain \<times> NamedVariables) list) option" where
  "create_domains pointName hide edition address d [] s = Some (s, [])"
| "create_domains pointName hide edition address d (domain # domains) s = do {
     name \<leftarrow> dom_name domain;
     s \<leftarrow> create_domain pointName hide edition domain s;
     let mmsDomain = \<lparr>mdom_domainName = name, mdom_namedVariableLists = addDataSets address d (Some name) domain []\<rparr>;
     (s', ds) \<leftarrow> create_domains pointName hide edition address (d + 1) domains s;
     Some (s', (mmsDomain, fst (cs_variables s)) # ds) }"

definition createMmsDeviceDataModel ::
    "(point \<Rightarrow> cstr) \<Rightarrow> (cstr \<Rightarrow> nat) \<Rightarrow> Tase2_DataModel \<Rightarrow> (point \<Rightarrow> point_object) \<Rightarrow> (nat \<Rightarrow> DSTransferSet) \<Rightarrow>
     (DeviceModel \<times> (point \<Rightarrow> point_object) \<times> (nat \<Rightarrow> DSTransferSet)) option" where
  "createMmsDeviceDataModel pointName address dataModel objects sets = do {
     let s = \<lparr>cs_objects = objects, cs_sets = sets, cs_variables = (new_variables 0, 0)\<rparr>;
     (s, ds) \<leftarrow> create_domains pointName (dm_hideSpecialTSVariables dataModel) (dm_edition dataModel) address 1
                 (dm_domains dataModel) s;
     let vcc = dm_vcc dataModel;
     s \<leftarrow> create_vcc pointName vcc s;
     Some (\<lparr>dev_device = \<lparr>mdev_domains = map fst ds, mdev_namedVariableLists = addDataSets address 0 None vcc []\<rparr>,
            dev_namedVariables = fst (cs_variables s), dev_domainVariables = map snd ds\<rparr>,
           cs_objects s, cs_sets s) }"

section \<open>System variables\<close>

definition createNewTase2VersionValue :: "u16 \<Rightarrow> u16 \<Rightarrow> MmsValue option" where
  "createNewTase2VersionValue major minor = do {
     a \<leftarrow> MmsValue_newIntegerFromInt16 major;
     b \<leftarrow> MmsValue_newIntegerFromInt16 minor;
     Some (ValStructure [Some a, Some b]) }"

text \<open>The values that are put into the value cache, by domain (null for the VCC) and name.\<close>

definition initializeSystemVariables ::
    "Tase2_DataModel \<Rightarrow> (nat \<Rightarrow> cstr option) \<Rightarrow> (cstr option \<times> cstr \<times> MmsValue) list option" where
  "initializeSystemVariables dataModel bilateralTableId = do {
     version \<leftarrow> (if dm_edition dataModel = TASE2_EDITION_2000_08 then createNewTase2VersionValue 2000 8
                else createNewTase2VersionValue 1996 8);
     supportedFeatures \<leftarrow> MmsValue_setBitStringFromInteger (MmsValue_newBitString 12) (1 OR 2 OR 8 OR 16);
     let ids = List.map_filter (\<lambda>(d, domain). map_option (\<lambda>blt. (dom_name domain, blt)) (bilateralTableId d))
                 (zip [1..<length (dm_domains dataModel) + 1] (dm_domains dataModel));
     vals \<leftarrow> those (map (\<lambda>(n, blt). map_option (\<lambda>v. (n, cstring ''Bilateral_Table_ID'', v))
                (MmsValue_newVisibleString (Some blt))) ids);
     Some ([(None, cstring ''TASE2_Version'', version), (None, cstring ''Supported_Features'', supportedFeatures)] @ vals) }"

end
