(* ===== verification/ServerCreate_Laws.thy ===== *)
theory ServerCreate_Laws
  imports ServerCreate Access_Laws
begin

text \<open>
  Laws of the creation of the device: the arrays of named variables have exactly the number of
  elements the functions count, every one of them is written and every variable is found by its
  name; the points, sets and data sets the creation leaves behind; and what it gets wrong.
\<close>

section \<open>Filling an array of variables\<close>

definition name_hash :: "NamedVariable \<Rightarrow> u32" where
  "name_hash v = hash_string (fst v)"

definition filled :: "nat \<Rightarrow> NamedVariable list \<Rightarrow> variables \<Rightarrow> bool" where
  "filled count vs s \<longleftrightarrow> snd s = length vs \<and> length vs \<le> count \<and>
     nv_namedVariables (fst s) = map Some vs @ replicate (count - length vs) None \<and>
     for_each vs (\<lambda>(k, v) t. HashTree_add undefined t k (Some v)) HashTree_create = Some (nv_namedVariablesHashTree (fst s))"

lemma HashTree_add_pointer: "HashTree_add kp t k (Some v) = HashTree_add kp' t k (Some v)"
  by (simp add: HashTree_add_def HashTreeNode_create_def)

lemma filled_new [simp]: "filled count [] (new_variables count, 0)"
  by (simp add: filled_def new_variables_def)

lemma add_next_filled:
  assumes "filled count vs s" "length vs < count" "distinct (map name_hash (vs @ [v]))"
  shows "\<exists>s'. add_next v s = Some s' \<and> filled count (vs @ [v]) s'"
proof -
  obtain vars i where s: "s = (vars, i)" by (cases s)
  let ?add = "\<lambda>(k, v) t. HashTree_add undefined t k (Some v)"
  have "distinct (map (\<lambda>e. hash_string (fst e)) (vs @ [v]))" using assms(3) by (simp add: name_hash_def [abs_def])
  from HashTree_lookup [OF this, of undefined] obtain t
    where "for_each (vs @ [v]) ?add HashTree_create = Some t" by blast
  then have t: "?add v (nv_namedVariablesHashTree vars) = Some t" "for_each (vs @ [v]) ?add HashTree_create = Some t"
    using assms(1) s by (auto simp: filled_def for_each_append split: Option.bind_splits prod.splits)
  have "HashTree_add (\<lambda>_. snd v) (nv_namedVariablesHashTree vars) (fst v) (Some (snd v)) = Some t"
    using t(1) HashTree_add_pointer [of "\<lambda>_. snd v" _ _ _ undefined] by (simp add: case_prod_unfold)
  moreover have "(map Some vs @ replicate (count - length vs) None)[length vs := Some v] =
      map Some (vs @ [v]) @ replicate (count - length (vs @ [v])) None"
    using assms(2) by (simp add: list_update_append Suc_diff_Suc [symmetric])
  ultimately show ?thesis
    using assms(1,2) s t(2) by (auto simp: filled_def add_next_def MmsDomain_addNamedVariable_def)
qed

lemma add_all_filled:
  assumes "filled count vs s" "length vs + length ws \<le> count" "distinct (map name_hash (vs @ ws))"
  shows "\<exists>s'. for_each ws add_next s = Some s' \<and> filled count (vs @ ws) s'"
  using assms
proof (induction ws arbitrary: vs s)
  case (Cons w ws)
  obtain s1 where s1: "add_next w s = Some s1" "filled count (vs @ [w]) s1"
    using add_next_filled [OF Cons.prems(1), of w] Cons.prems(2,3) by auto
  have "\<exists>s'. for_each ws add_next s1 = Some s' \<and> filled count ((vs @ [w]) @ ws) s'"
    by (rule Cons.IH [OF s1(2)]) (use Cons.prems(2,3) in auto)
  with s1(1) show ?case by simp
qed simp

lemma filled_found:
  assumes "filled count vs s" "distinct (map name_hash vs)" "(n, spec) \<in> set vs"
  shows "MmsDomain_getNamedVariable (fst s) n = Some spec"
proof -
  have "distinct (map (\<lambda>e. hash_string (fst e)) vs)" using assms(2) by (simp add: name_hash_def [abs_def])
  from HashTree_lookup [OF this, of undefined] obtain t where
    t: "for_each vs (\<lambda>(k, v) t. HashTree_add undefined t k (Some v)) HashTree_create = Some t"
    "\<forall>k v. (k, v) \<in> set vs \<longrightarrow> HashTree_find t k = Some v" by blast
  then show ?thesis using assms(1,3) by (simp add: filled_def MmsDomain_getNamedVariable_def)
qed

section \<open>The variables of a domain\<close>

text \<open>The specification: the variables in the order they are created.\<close>

definition indication_type :: "IndicationPoint \<Rightarrow> MmsVariableSpecification" where
  "indication_type ip = (case indication_spec ip of Some spec \<Rightarrow> spec | None \<Rightarrow> SpecBoolean)"

fun point_variables :: "cstr \<Rightarrow> point_object \<Rightarrow> NamedVariable list" where
  "point_variables n (IndicationObject ip) = [(n, indication_type ip)]"
| "point_variables n (ControlObject cp) = control_point_variables n cp"
| "point_variables n (ProtectionObject pe) = [(n, protection_spec pe)]"

definition domain_variables ::
    "(point \<Rightarrow> cstr) \<Rightarrow> bool \<Rightarrow> Tase2_Edition \<Rightarrow> (point \<Rightarrow> point_object) \<Rightarrow> (nat \<Rightarrow> DSTransferSet) \<Rightarrow> Tase2_Domain \<Rightarrow>
     NamedVariable list" where
  "domain_variables pointName hide edition objects sets domain =
     (if hide then [] else special_variables) @
     [(cstring ''Next_DSTransfer_Set'', createMmsObjectName), createBilateralTableId] @ message_variables domain @
     concat (map (\<lambda>p. point_variables (pointName p) (objects p)) (dom_dataPoints domain)) @
     map (\<lambda>t. (ts_name (sets t), createDSTransferSet edition)) (dom_transferSets domain)"

definition vcc_variables :: "(point \<Rightarrow> cstr) \<Rightarrow> (point \<Rightarrow> point_object) \<Rightarrow> Tase2_Domain \<Rightarrow> NamedVariable list" where
  "vcc_variables pointName objects vcc =
     [createSupportedFeatures (cstring ''Supported_Features''), createTase2Version] @ message_variables vcc @
     concat (map (\<lambda>p. point_variables (pointName p) (objects p)) (dom_dataPoints vcc))"

text \<open>What creation keeps of a point: its variables. A point that can be created.\<close>

definition same_variables :: "(point \<Rightarrow> point_object) \<Rightarrow> (point \<Rightarrow> point_object) \<Rightarrow> bool" where
  "same_variables objects objects' \<longleftrightarrow> (\<forall>p n. point_variables n (objects' p) = point_variables n (objects p) \<and>
     point_variables_count (objects' p) = point_variables_count (objects p))"

definition creatable :: "point_object \<Rightarrow> bool" where
  "creatable obj = (case obj of IndicationObject ip \<Rightarrow> indication_spec ip \<noteq> None | _ \<Rightarrow> True)"

definition all_creatable :: "(point \<Rightarrow> point_object) \<Rightarrow> bool" where
  "all_creatable objects \<longleftrightarrow> (\<forall>p. creatable (objects p))"

definition same_names :: "(nat \<Rightarrow> DSTransferSet) \<Rightarrow> (nat \<Rightarrow> DSTransferSet) \<Rightarrow> bool" where
  "same_names sets sets' \<longleftrightarrow> (\<forall>t. ts_name (sets' t) = ts_name (sets t))"

lemma point_variables_length: "length (point_variables n obj) = point_variables_count obj"
  by (cases obj) (auto simp: control_point_variables_def)

lemma indication_config:
  "indication_spec (ip\<lparr>ip_pointValue := v, ip_serverCachedValue := w\<rparr>) = indication_spec ip"
  by (simp add: indication_spec_def indication_elements_def indication_structSize_def CreateValueType_def)

lemma value_type_ok: "spec_ok (CreateValueType ip)"
  by (cases "ip_pointType ip") (simp_all add: CreateValueType_def)

lemma creatable_point_created:
  assumes "creatable obj" "filled count vs s" "length vs + length (point_variables n obj) \<le> count"
    "distinct (map name_hash (vs @ point_variables n obj))"
  shows "\<exists>obj' s'. addPointVariables n obj s = Some (obj', s') \<and> filled count (vs @ point_variables n obj) s' \<and>
    creatable obj' \<and> (\<forall>m. point_variables m obj' = point_variables m obj) \<and>
    point_variables_count obj' = point_variables_count obj"
proof (cases obj)
  case (IndicationObject ip)
  then obtain spec where spec: "indication_spec ip = Some spec" using assms(1) by (auto simp: creatable_def)
  then have "spec_ok spec"
    by (auto simp: indication_spec_def indication_elements_def value_type_ok CreateTimeStamp_def
        CreateTimeStampExtended_def split: if_splits)
  then obtain v where v: "MmsValue_newDefaultValue spec = Some v" using default_conforms by blast
  obtain s' where s': "add_next (n, spec) s = Some s'" "filled count (vs @ [(n, spec)]) s'"
    using add_next_filled [OF assms(2), of "(n, spec)"] assms(3,4) IndicationObject spec by (auto simp: indication_type_def)
  show ?thesis
    using IndicationObject spec v s'
    by (auto simp: addPointVariables_def createIndicationPointVariable_def indication_type_def creatable_def indication_config)
next
  case (ControlObject cp)
  obtain i where "MmsValue_newIntegerFromInt16 (cp_checkBackId cp) = Some i"
    using createFromInt32_total [of "scast (cp_checkBackId cp)"]
    by (fastforce simp: MmsValue_newIntegerFromInt16_def MmsValue_newIntegerFromInt32_def)
  then have "\<exists>cp'. createControlPointVariables cp = Some cp' \<and> cp_pointType cp' = cp_pointType cp \<and>
      cp_deviceClass cp' = cp_deviceClass cp \<and> cp_hasTag cp' = cp_hasTag cp"
    by (simp add: createControlPointVariables_def Let_def)
  then obtain cp' where cp': "createControlPointVariables cp = Some cp'" "cp_pointType cp' = cp_pointType cp"
    "cp_deviceClass cp' = cp_deviceClass cp" "cp_hasTag cp' = cp_hasTag cp" by blast
  obtain s' where "for_each (control_point_variables n cp) add_next s = Some s'"
    "filled count (vs @ control_point_variables n cp) s'"
    using add_all_filled [OF assms(2), of "control_point_variables n cp"] assms(3,4) ControlObject by auto
  then show ?thesis
    using ControlObject cp' by (auto simp: addPointVariables_def creatable_def control_point_variables_def)
next
  case (ProtectionObject pe)
  have "spec_ok (protection_spec pe)" by (simp add: protection_spec_def CreateTimeStampExtended_def)
  then obtain v where v: "MmsValue_newDefaultValue (protection_spec pe) = Some v" using default_conforms by blast
  obtain s' where "add_next (n, protection_spec pe) s = Some s'" "filled count (vs @ [(n, protection_spec pe)]) s'"
    using add_next_filled [OF assms(2), of "(n, protection_spec pe)"] assms(3,4) ProtectionObject by auto
  then show ?thesis
    using ProtectionObject v
    by (auto simp: addPointVariables_def createProtectionEventVariable_def creatable_def protection_spec_def)
qed


text \<open>The loops over variables, points and sets, from the state \<open>s\<close> with the variables \<open>vs\<close>.\<close>

definition creating ::
    "(point \<Rightarrow> point_object) \<Rightarrow> (nat \<Rightarrow> DSTransferSet) \<Rightarrow> nat \<Rightarrow> NamedVariable list \<Rightarrow> create_state \<Rightarrow> bool" where
  "creating objects sets count vs s \<longleftrightarrow> filled count vs (cs_variables s) \<and> all_creatable (cs_objects s) \<and>
     same_variables objects (cs_objects s) \<and> same_names sets (cs_sets s)"

lemma add_steps:
  "add_next v (cs_variables s) = Some vars \<Longrightarrow> add_variable v s = Some (s\<lparr>cs_variables := vars\<rparr>)"
  "addPointVariables (pointName p) (cs_objects s p) (cs_variables s) = Some (obj, vars) \<Longrightarrow>
   add_point pointName p s = Some (s\<lparr>cs_objects := (cs_objects s)(p := obj), cs_variables := vars\<rparr>)"
  "add_next (ts_name (cs_sets s t), createDSTransferSet edition) (cs_variables s) = Some vars \<Longrightarrow>
   MmsValue_newDefaultValue (createDSTransferSet edition) = Some w \<Longrightarrow>
   add_set edition t s = Some (s\<lparr>cs_sets := (cs_sets s)(t := (cs_sets s t)\<lparr>ts_edition := edition, ts_mmsValue := w\<rparr>),
     cs_variables := vars\<rparr>)"
  by (simp_all add: add_variable_def add_point_def add_set_def Let_def)

lemma creating_variables:
  assumes "creating objects sets count vs s" "length vs + length ws \<le> count" "distinct (map name_hash (vs @ ws))"
  shows "\<exists>s'. for_each ws add_variable s = Some s' \<and> creating objects sets count (vs @ ws) s'"
  using assms
proof (induction ws arbitrary: vs s)
  case (Cons w ws)
  obtain s1 where s1: "add_next w (cs_variables s) = Some s1" "filled count (vs @ [w]) s1"
    using add_next_filled [of count vs "cs_variables s" w] Cons.prems by (auto simp: creating_def)
  have "\<exists>s'. for_each ws add_variable (s\<lparr>cs_variables := s1\<rparr>) = Some s' \<and> creating objects sets count ((vs @ [w]) @ ws) s'"
    by (rule Cons.IH) (use Cons.prems s1 in \<open>auto simp: creating_def\<close>)
  with add_steps(1) [OF s1(1)] show ?case by simp
qed simp

lemma creating_points:
  assumes "creating objects sets count vs s" "ws = concat (map (\<lambda>p. point_variables (pointName p) (objects p)) ps)"
    "length vs + length ws \<le> count" "distinct (map name_hash (vs @ ws))"
  shows "\<exists>s'. for_each ps (add_point pointName) s = Some s' \<and> creating objects sets count (vs @ ws) s'"
  using assms
proof (induction ps arbitrary: vs ws s)
  case (Cons p ps)
  let ?w = "point_variables (pointName p) (objects p)"
  let ?ws = "concat (map (\<lambda>p. point_variables (pointName p) (objects p)) ps)"
  have w: "point_variables (pointName p) (cs_objects s p) = ?w" "creatable (cs_objects s p)"
    using Cons.prems(1) by (auto simp: creating_def same_variables_def all_creatable_def)
  obtain obj s1 where s1: "addPointVariables (pointName p) (cs_objects s p) (cs_variables s) = Some (obj, s1)"
    "filled count (vs @ ?w) s1" "creatable obj" "\<forall>m. point_variables m obj = point_variables m (cs_objects s p)"
    "point_variables_count obj = point_variables_count (cs_objects s p)"
    using creatable_point_created [OF w(2), of count vs "cs_variables s" "pointName p"] Cons.prems w(1)
    by (auto simp: creating_def Int_Un_distrib)
  let ?s = "s\<lparr>cs_objects := (cs_objects s)(p := obj), cs_variables := s1\<rparr>"
  have "\<exists>s'. for_each ps (add_point pointName) ?s = Some s' \<and> creating objects sets count ((vs @ ?w) @ ?ws) s'"
    by (rule Cons.IH [OF _ refl])
      (use Cons.prems s1 in \<open>auto simp: creating_def same_variables_def all_creatable_def\<close>)
  with add_steps(2) [where pointName = pointName, OF s1(1)] Cons.prems(2) show ?case by simp
qed simp

lemma creating_sets:
  assumes "creating objects sets count vs s" "ws = map (\<lambda>t. (ts_name (sets t), createDSTransferSet edition)) ts"
    "length vs + length ws \<le> count" "distinct (map name_hash (vs @ ws))"
  shows "\<exists>s'. for_each ts (add_set edition) s = Some s' \<and> creating objects sets count (vs @ ws) s'"
  using assms
proof (induction ts arbitrary: vs ws s)
  case (Cons t ts)
  let ?w = "(ts_name (sets t), createDSTransferSet edition)"
  let ?ws = "map (\<lambda>t. (ts_name (sets t), createDSTransferSet edition)) ts"
  have "spec_ok (createDSTransferSet edition)" by (auto simp: createDSTransferSet_def createMmsObjectName_def)
  then obtain v where v: "MmsValue_newDefaultValue (createDSTransferSet edition) = Some v" using default_conforms by blast
  have n: "ts_name (cs_sets s t) = ts_name (sets t)" using Cons.prems(1) by (simp add: creating_def same_names_def)
  obtain s1 where s1: "add_next ?w (cs_variables s) = Some s1" "filled count (vs @ [?w]) s1"
    using add_next_filled [of count vs "cs_variables s" ?w] Cons.prems by (auto simp: creating_def)
  let ?s = "s\<lparr>cs_sets := (cs_sets s)(t := (cs_sets s t)\<lparr>ts_edition := edition, ts_mmsValue := v\<rparr>), cs_variables := s1\<rparr>"
  have "\<exists>s'. for_each ts (add_set edition) ?s = Some s' \<and> creating objects sets count ((vs @ [?w]) @ ?ws) s'"
    by (rule Cons.IH [OF _ refl]) (use Cons.prems s1 n in \<open>auto simp: creating_def same_names_def\<close>)
  with add_steps(3) [OF s1(1) [folded n] v] n Cons.prems(2) show ?case by simp
qed simp

lemma variables_count:
  assumes "same_variables objects objects'"
  shows "length (concat (map (\<lambda>p. point_variables (pointName p) (objects p)) ps)) =
    sum_list (map (\<lambda>p. point_variables_count (objects' p)) ps)"
  using assms by (simp add: length_concat comp_def point_variables_length same_variables_def)

lemma message_count: "length (message_variables domain) = message_variables_count domain"
  by (simp add: message_variables_def message_variables_count_def getInfoMessageCount_def)

definition ready :: "(point \<Rightarrow> point_object) \<Rightarrow> (nat \<Rightarrow> DSTransferSet) \<Rightarrow> create_state \<Rightarrow> bool" where
  "ready objects sets s \<longleftrightarrow>
     all_creatable (cs_objects s) \<and> same_variables objects (cs_objects s) \<and> same_names sets (cs_sets s)"

lemma created_domain:
  assumes "ready objects sets s" "distinct (map name_hash (domain_variables pointName hide edition objects sets domain))"
  shows "\<exists>s'. create_domain pointName hide edition domain s = Some s' \<and> ready objects sets s' \<and>
    filled (length (domain_variables pointName hide edition objects sets domain))
      (domain_variables pointName hide edition objects sets domain) (cs_variables s')"
proof -
  define sp where "sp = (if hide then [] else special_variables)"
  define sys where "sys = [(cstring ''Next_DSTransfer_Set'', createMmsObjectName), createBilateralTableId]"
  define ms where "ms = message_variables domain"
  define ps where "ps = concat (map (\<lambda>p. point_variables (pointName p) (objects p)) (dom_dataPoints domain))"
  define ts where "ts = map (\<lambda>t. (ts_name (sets t), createDSTransferSet edition)) (dom_transferSets domain)"
  define count where "count = length (sp @ sys @ ms @ ps @ ts)"
  have vars: "domain_variables pointName hide edition objects sets domain = sp @ sys @ ms @ ps @ ts"
    by (simp add: domain_variables_def sp_def sys_def ms_def ps_def ts_def)
  have d: "distinct (map name_hash (sp @ sys @ ms @ ps @ ts))" using assms(2) vars by simp
  have count_eq: "getVariablesCount (cs_objects s) domain + (if hide then 0 else 4) + 2 + message_variables_count domain = count"
    using assms(1) variables_count [of objects "cs_objects s" pointName "dom_dataPoints domain"]
    by (simp add: count_def getVariablesCount_def sp_def sys_def ms_def ps_def ts_def message_count ready_def special_variables_def)
  let ?s0 = "s\<lparr>cs_variables := (new_variables count, 0)\<rparr>"
  have c0: "creating objects sets count [] ?s0" using assms(1) by (simp add: creating_def ready_def)
  obtain s1 where s1: "(if \<not> hide then for_each special_variables add_variable ?s0 else Some ?s0) = Some s1"
    "creating objects sets count sp s1"
    using creating_variables [OF c0, of sp] c0 d by (auto simp: count_def sp_def Int_Un_distrib split: if_splits)
  obtain s2 where s2: "for_each sys add_variable s1 = Some s2" "creating objects sets count (sp @ sys) s2"
    using creating_variables [OF s1(2), of sys] d by (auto simp: count_def Int_Un_distrib)
  obtain s3 where s3: "for_each ms add_variable s2 = Some s3" "creating objects sets count ((sp @ sys) @ ms) s3"
    using creating_variables [OF s2(2), of ms] d by (auto simp: count_def Int_Un_distrib)
  obtain s4 where s4: "for_each (dom_dataPoints domain) (add_point pointName) s3 = Some s4"
    "creating objects sets count (((sp @ sys) @ ms) @ ps) s4"
    using creating_points [OF s3(2) ps_def] d by (auto simp: count_def Int_Un_distrib)
  obtain s5 where s5: "for_each (dom_transferSets domain) (add_set edition) s4 = Some s5"
    "creating objects sets count ((((sp @ sys) @ ms) @ ps) @ ts) s5"
    using creating_sets [OF s4(2) ts_def] d by (auto simp: count_def Int_Un_distrib)
  have "create_domain pointName hide edition domain s = Some s5"
    unfolding create_domain_def Let_def count_eq
    using s1(1) s2(1) s3(1) s4(1) s5(1) by (auto simp: sys_def ms_def split: Option.bind_splits)
  then show ?thesis using s5(2) by (auto simp: creating_def ready_def vars count_def)
qed


lemma created_vcc:
  assumes "ready objects sets s" "distinct (map name_hash (vcc_variables pointName objects vcc))" "dom_transferSets vcc = []"
  shows "\<exists>s'. create_vcc pointName vcc s = Some s' \<and>
    filled (length (vcc_variables pointName objects vcc)) (vcc_variables pointName objects vcc) (cs_variables s')"
proof -
  define sys where "sys = [createSupportedFeatures (cstring ''Supported_Features''), createTase2Version]"
  define ms where "ms = message_variables vcc"
  define ps where "ps = concat (map (\<lambda>p. point_variables (pointName p) (objects p)) (dom_dataPoints vcc))"
  define count where "count = length (sys @ ms @ ps)"
  have vars: "vcc_variables pointName objects vcc = sys @ ms @ ps"
    by (simp add: vcc_variables_def sys_def ms_def ps_def)
  have d: "distinct (map name_hash (sys @ ms @ ps))" using assms(2) vars by simp
  have count_eq: "getVariablesCount (cs_objects s) vcc + 2 + message_variables_count vcc = count"
    using assms(1,3) variables_count [of objects "cs_objects s" pointName "dom_dataPoints vcc"]
    by (simp add: count_def getVariablesCount_def sys_def ms_def ps_def message_count ready_def)
  let ?s0 = "s\<lparr>cs_variables := (new_variables count, 0)\<rparr>"
  have c0: "creating objects sets count [] ?s0" using assms(1) by (simp add: creating_def ready_def)
  obtain s1 where s1: "for_each sys add_variable ?s0 = Some s1" "creating objects sets count sys s1"
    using creating_variables [OF c0, of sys] d by (auto simp: count_def)
  obtain s2 where s2: "for_each ms add_variable s1 = Some s2" "creating objects sets count (sys @ ms) s2"
    using creating_variables [OF s1(2), of ms] d by (auto simp: count_def Int_Un_distrib)
  obtain s3 where s3: "for_each (dom_dataPoints vcc) (add_point pointName) s2 = Some s3"
    "creating objects sets count ((sys @ ms) @ ps) s3"
    using creating_points [OF s2(2) ps_def] d by (auto simp: count_def Int_Un_distrib)
  have "create_vcc pointName vcc s = Some s3"
    unfolding create_vcc_def Let_def count_eq
    using s1(1) s2(1) s3(1) by (auto simp: sys_def ms_def split: Option.bind_splits)
  then show ?thesis using s3(2) by (auto simp: creating_def vars count_def)
qed

text \<open>What a device's array holds: exactly the variables, each found by its name.\<close>

definition holds_variables :: "NamedVariables \<Rightarrow> NamedVariable list \<Rightarrow> bool" where
  "holds_variables vars vs \<longleftrightarrow> nv_namedVariables vars = map Some vs \<and>
     (\<forall>(n, spec) \<in> set vs. MmsDomain_getNamedVariable vars n = Some spec)"

lemma filled_holds:
  "filled (length vs) vs s \<Longrightarrow> distinct (map name_hash vs) \<Longrightarrow> holds_variables (fst s) vs"
  using filled_found by (fastforce simp: holds_variables_def filled_def)

lemma created_domains:
  assumes "ready objects sets s" "\<forall>domain \<in> set domains. dom_name domain \<noteq> None \<and>
    distinct (map name_hash (domain_variables pointName hide edition objects sets domain))"
  shows "\<exists>s' ds. create_domains pointName hide edition address d domains s = Some (s', ds) \<and> ready objects sets s' \<and>
    list_all2 (\<lambda>(mmsDomain, vars) domain. dom_name domain = Some (mdom_domainName mmsDomain) \<and>
      holds_variables vars (domain_variables pointName hide edition objects sets domain)) ds domains"
  using assms
proof (induction domains arbitrary: d s)
  case (Cons domain domains)
  obtain name where n: "dom_name domain = Some name" using Cons.prems(2) by auto
  obtain s1 where s1: "create_domain pointName hide edition domain s = Some s1" "ready objects sets s1"
    "holds_variables (fst (cs_variables s1)) (domain_variables pointName hide edition objects sets domain)"
    using created_domain [OF Cons.prems(1)] Cons.prems(2) filled_holds by (metis list.set_intros(1))
  obtain s2 ds where "create_domains pointName hide edition address (d + 1) domains s1 = Some (s2, ds)"
    "ready objects sets s2" "list_all2 (\<lambda>(mmsDomain, vars) domain. dom_name domain = Some (mdom_domainName mmsDomain) \<and>
      holds_variables vars (domain_variables pointName hide edition objects sets domain)) ds domains"
    using Cons.IH [OF s1(2), of "d + 1"] Cons.prems(2) by (auto simp del: One_nat_def)
  with n s1 show ?case by simp
qed simp

text \<open>
  C17: The creation of the MMS device of a data model. As long as the names of the variables of a
  domain have distinct hash codes and no indication point has an impossible combination of
  attributes, it succeeds; the array of named variables of every domain, whose size is computed
  beforehand, holds exactly the domain's variables, in their order: the special and system
  variables, the buffers for information messages, the points with the variables of their select and
  tag, the transfer sets. No element is written outside the array and none is left out, and every
  variable is found by its name. The same holds for the variables of the VCC.
\<close>

theorem device_created:
  assumes "\<forall>p. creatable (objects p)" "dom_transferSets (dm_vcc model) = []"
    "\<forall>domain \<in> set (dm_domains model). dom_name domain \<noteq> None \<and> distinct (map name_hash
      (domain_variables pointName (dm_hideSpecialTSVariables model) (dm_edition model) objects sets domain))"
    "distinct (map name_hash (vcc_variables pointName objects (dm_vcc model)))"
  shows "\<exists>dev objects' sets'. createMmsDeviceDataModel pointName address model objects sets = Some (dev, objects', sets') \<and>
    map (\<lambda>d. Some (mdom_domainName d)) (mdev_domains (dev_device dev)) = map dom_name (dm_domains model) \<and>
    list_all2 holds_variables (dev_domainVariables dev)
      (map (domain_variables pointName (dm_hideSpecialTSVariables model) (dm_edition model) objects sets) (dm_domains model)) \<and>
    holds_variables (dev_namedVariables dev) (vcc_variables pointName objects (dm_vcc model))"
proof -
  let ?s0 = "\<lparr>cs_objects = objects, cs_sets = sets, cs_variables = (new_variables 0, 0)\<rparr>"
  have r: "ready objects sets ?s0" using assms(1) by (simp add: ready_def all_creatable_def same_variables_def same_names_def)
  obtain s ds where s: "create_domains pointName (dm_hideSpecialTSVariables model) (dm_edition model) address 1 (dm_domains model) ?s0 =
      Some (s, ds)" "ready objects sets s"
    "list_all2 (\<lambda>(mmsDomain, vars) domain. dom_name domain = Some (mdom_domainName mmsDomain) \<and> holds_variables vars
      (domain_variables pointName (dm_hideSpecialTSVariables model) (dm_edition model) objects sets domain)) ds (dm_domains model)"
    using created_domains [OF r assms(3)] by blast
  obtain s' where s': "create_vcc pointName (dm_vcc model) s = Some s'"
    "holds_variables (fst (cs_variables s')) (vcc_variables pointName objects (dm_vcc model))"
    using created_vcc [OF s(2) assms(4,2)] filled_holds assms(4) by blast
  show ?thesis
    using s(1,3) s' by (auto simp: createMmsDeviceDataModel_def Let_def list_all2_conv_all_nth case_prod_unfold intro: nth_equalityI)
qed

definition demo_names :: "point \<Rightarrow> cstr" where
  "demo_names p = (if p = 20 then [118] else if p = 10 then [119] else if p = 0 then [112] else [99])"

definition demo_model :: Tase2_DataModel where
  "demo_model = \<lparr>dm_vcc = access_vcc\<lparr>dom_transferSets := []\<rparr>, dm_domains = [demo_domain],
     dm_hideSpecialTSVariables = True, dm_edition = TASE2_EDITION_2000_08\<rparr>"

definition demo_sets :: "nat \<Rightarrow> DSTransferSet" where
  "demo_sets = (\<lambda>_. the (addTransferSet [116, 115] [73] TASE2_EDITION_2000_08))"

theorem device_created_witness:
  "\<exists>dev objects' sets'. createMmsDeviceDataModel demo_names (\<lambda>_. 0) demo_model access_objects demo_sets =
     Some (dev, objects', sets') \<and> holds_variables (dev_namedVariables dev) (vcc_variables demo_names access_objects (dm_vcc demo_model))"
proof -
  have i: "indication_spec access_indication \<noteq> None" by code_simp
  then have "\<forall>p. creatable (access_objects p)" by (simp add: creatable_def access_objects_def)
  moreover have "dom_transferSets (dm_vcc demo_model) = []" by (simp add: demo_model_def)
  moreover have "list_all (\<lambda>domain. dom_name domain \<noteq> None \<and> distinct (map name_hash (domain_variables demo_names
      (dm_hideSpecialTSVariables demo_model) (dm_edition demo_model) access_objects demo_sets domain))) (dm_domains demo_model)"
    by code_simp
  moreover have "distinct (map name_hash (vcc_variables demo_names access_objects (dm_vcc demo_model)))" by code_simp
  ultimately show ?thesis
    using device_created [of access_objects demo_model demo_names demo_sets "\<lambda>_. 0"] by (auto simp: list_all_iff)
qed

text \<open>
  An entry of a data set that belongs to another domain than the data set becomes an entry of the
  VCC: a data set of the VCC cannot hold a variable of a domain at all.
\<close>

theorem foreign_entry_in_vcc:
  assumes "en \<in> set (ds_entries dataSet)" "dse_domain en \<noteq> Some d \<or> mmsDomain = None"
  shows "MmsNamedVariableListEntry_create (address (dse_variableName en)) None (dse_variableName en) (- 1) None \<in>
    set (nvl_listOfVariables (data_set_list address d mmsDomain dataSet))"
proof -
  have "nvl_listOfVariables (foldl (\<lambda>l en. MmsNamedVariableList_addVariable l (f en)) l xs) = nvl_listOfVariables l @ map f xs"
    for f :: "Tase2_DataSetEntry \<Rightarrow> MmsNamedVariableListEntry" and l xs
    by (induction xs arbitrary: l) (simp_all add: MmsNamedVariableList_addVariable_def)
  then show ?thesis using assms
    by (auto simp: data_set_list_def MmsNamedVariableList_create_def intro!: rev_image_eqI [of en])
qed

end
