(* ===== verification/InformationMessage.thy ===== *)
theory InformationMessage
  imports ServerCreate
begin

text \<open>
  Information messages (\<^verbatim>\<open>tase2_server/im_transfer_set.c\<close>): the application sends a message of some
  octets in the smallest buffer of the domain that holds it, to every client that has enabled its
  information message transfer set and may receive it.

  A domain is an address; null is the VCC. A report is an effect: the connection with the names of
  its variables and their values. Locks are left out.
\<close>

record InformationReport =
  ir_connection :: nat
  ir_variables :: "(cstr option \<times> cstr) list"
  ir_values :: "MmsValue list"

text \<open>
  The search for the buffer; the state is the best buffer so far, by its position and size. The
  differences are computed in \<open>int\<close>.
\<close>

fun search_buffer :: "u32 \<Rightarrow> nat \<Rightarrow> InformationMessage list \<Rightarrow> (nat \<times> u32) option \<Rightarrow> (nat \<times> u32) option" where
  "search_buffer sz i [] infoBuf = infoBuf"
| "search_buffer sz i (im # ims) infoBuf =
     search_buffer sz (i + 1) ims
       (if sint sz \<le> sint (imsg_maxSize im) then
          case infoBuf of
            Some (_, maxSize) \<Rightarrow>
              if sint (imsg_maxSize im - sz) < sint (maxSize - sz) then Some (i, imsg_maxSize im) else infoBuf
          | None \<Rightarrow> Some (i, imsg_maxSize im)
        else infoBuf)"

definition report_allowed :: "AccessServer \<Rightarrow> nat option \<Rightarrow> u32 \<Rightarrow> u32 \<Rightarrow> nat \<Rightarrow> bool" where
  "report_allowed srv domain infoRef localRef connection =
     (case connection_table srv connection of
        Some blt \<Rightarrow> BilateralTable_checkInformationMessageAccess blt domain infoRef localRef
      | None \<Rightarrow> True)"

definition info_header :: "u32 \<Rightarrow> u32 \<Rightarrow> u32 \<Rightarrow> u32 \<Rightarrow> MmsValue" where
  "info_header infoRef localRef msgId sz = ValStructure
     [MmsValue_newIntegerFromInt32 infoRef, MmsValue_newIntegerFromInt32 localRef,
      MmsValue_newIntegerFromInt32 msgId, MmsValue_newIntegerFromInt32 sz]"

text \<open>
  The contents of the buffer: cleared, then the message copied. A negative size is a huge
  number of octets for the copy.
\<close>

definition fill_buffer :: "InformationMessage \<Rightarrow> u32 \<Rightarrow> u8 list \<Rightarrow> InformationMessage option" where
  "fill_buffer infoMsg sz buffer =
     (case imsg_infoBuf infoMsg of
        ValOctetString n mx buf \<Rightarrow> do {
          buf \<leftarrow> memcpy buf (replicate (unat (imsg_maxSize infoMsg)) 0) (unat (imsg_maxSize infoMsg));
          buf \<leftarrow> memcpy buf buffer (unat (scast sz :: u64));
          Some (infoMsg\<lparr>imsg_infoBuf := ValOctetString n mx buf\<rparr>) }
      | _ \<Rightarrow> None)"

text \<open>The buffer afterwards with the reports; \<open>None\<close> inside when the message is too large.\<close>

definition sendInformationMessage ::
    "AccessServer \<Rightarrow> nat option \<Rightarrow> cstr option \<Rightarrow> u32 \<Rightarrow> u32 \<Rightarrow> u32 \<Rightarrow> u32 \<Rightarrow> InformationMessage \<Rightarrow> u8 list \<Rightarrow>
     (InformationMessage \<times> InformationReport list) option option" where
  "sendInformationMessage srv domain domainName infoRef localRef msgId sz infoMsg buffer =
     (if sint sz \<le> sint (imsg_maxSize infoMsg) then do {
        infoMsg \<leftarrow> fill_buffer infoMsg sz buffer;
        let vars = [(domainName, cstring ''Info_Mess_Header''), (domainName, infoBufferName (imsg_maxSize infoMsg))];
        let vals = [info_header infoRef localRef msgId sz, imsg_infoBuf infoMsg];
        Some (Some (infoMsg,
          map (\<lambda>c. \<lparr>ir_connection = c, ir_variables = vars, ir_values = vals\<rparr>)
            (filter (report_allowed srv domain infoRef localRef) (as_imEnabledConnections srv)))) }
      else Some None)"

definition put_domain :: "Tase2_DataModel \<Rightarrow> nat \<Rightarrow> Tase2_Domain \<Rightarrow> Tase2_DataModel" where
  "put_domain model d domain =
     (if d = 0 then model\<lparr>dm_vcc := domain\<rparr> else model\<lparr>dm_domains := (dm_domains model)[d - 1 := domain]\<rparr>)"

definition put_messages :: "AccessServer \<Rightarrow> nat \<Rightarrow> Tase2_Domain \<Rightarrow> InformationMessage list \<Rightarrow> AccessServer" where
  "put_messages srv d domain ims = srv\<lparr>as_transfer := (as_transfer srv)\<lparr>sv_dataModel :=
     put_domain (sv_dataModel (as_transfer srv)) d (domain\<lparr>dom_informationMessages := ims\<rparr>)\<rparr>\<rparr>"

definition Tase2_Server_sendInformationMessage ::
    "AccessServer \<Rightarrow> nat option \<Rightarrow> u32 \<Rightarrow> u32 \<Rightarrow> u32 \<Rightarrow> u32 \<Rightarrow> u8 list \<Rightarrow>
     (AccessServer \<times> InformationReport list \<times> int) option" where
  "Tase2_Server_sendInformationMessage srv domain infoRef localRef msgId sz buffer = do {
     let d = (case domain of None \<Rightarrow> 0 | Some d \<Rightarrow> d);
     searchDomain \<leftarrow> domain_at (sv_dataModel (as_transfer srv)) d;
     let ims = dom_informationMessages searchDomain;
     if ims = [] then Some (srv, [], 1)
     else case search_buffer sz 0 ims None of
       None \<Rightarrow> Some (srv, [], 2)
     | Some (i, _) \<Rightarrow> do {
         r \<leftarrow> sendInformationMessage srv domain (if domain = None then None else dom_name searchDomain)
                infoRef localRef msgId sz (ims ! i) buffer;
         (case r of
            Some (im, reports) \<Rightarrow> Some (put_messages srv d searchDomain (ims[i := im]), reports, 0)
          | None \<Rightarrow> Some (srv, [], 2)) } }"

end
