(* ===== verification/InformationMessage_Laws.thy ===== *)
theory InformationMessage_Laws
  imports InformationMessage ServerCreate_Laws
begin

text \<open>
  Laws of the information messages: the buffer that is chosen, what is sent and to whom, and the
  sizes that go wrong.
\<close>

section \<open>The buffer\<close>

text \<open>A buffer as \<open>Tase2_Domain_addInformationMessageObject\<close> makes it.\<close>

definition buffer_ok :: "InformationMessage \<Rightarrow> bool" where
  "buffer_ok im \<longleftrightarrow> 0 \<le> sint (imsg_maxSize im) \<and> (\<exists>n mx buf. imsg_infoBuf im = ValOctetString n mx buf \<and>
     n = nat (sint (imsg_maxSize im)) mod 65536 \<and> length buf = nat (sint (imsg_maxSize im)))"

text \<open>The specification: the first of the smallest buffers that hold the message.\<close>

definition best_buffer :: "u32 \<Rightarrow> InformationMessage list \<Rightarrow> nat \<Rightarrow> bool" where
  "best_buffer sz ims i \<longleftrightarrow> i < length ims \<and> sint sz \<le> sint (imsg_maxSize (ims ! i)) \<and>
     (\<forall>j < length ims. sint sz \<le> sint (imsg_maxSize (ims ! j)) \<longrightarrow>
        sint (imsg_maxSize (ims ! i)) \<le> sint (imsg_maxSize (ims ! j)) \<and>
        (j < i \<longrightarrow> sint (imsg_maxSize (ims ! i)) < sint (imsg_maxSize (ims ! j))))"

lemma sint_difference:
  assumes "0 \<le> sint (sz :: u32)" "sint sz \<le> sint a"
  shows "sint (a - sz) = sint a - sint sz"
proof -
  have "sint a < 2 ^ 31" using sint_lt [of a] by simp
  then have "sint (word_of_int (sint a - sint sz) :: u32) = sint a - sint sz" using assms by (intro sint_small) auto
  then show ?thesis by simp
qed

lemma search_snoc:
  "search_buffer sz i (ims @ [im]) b = search_buffer sz (i + length ims) [im] (search_buffer sz i ims b)"
  by (induction sz i ims b rule: search_buffer.induct) simp_all

lemma search_best:
  assumes "0 \<le> sint sz"
  shows "case search_buffer sz 0 ims None of
      None \<Rightarrow> \<forall>im \<in> set ims. sint (imsg_maxSize im) < sint sz
    | Some (i, maxSize) \<Rightarrow> best_buffer sz ims i \<and> maxSize = imsg_maxSize (ims ! i)"
proof (induction ims rule: rev_induct)
  case (snoc im ims)
  show ?case
  proof (cases "search_buffer sz 0 ims None")
    case None
    then have n: "sint (imsg_maxSize x) < sint sz" if "x \<in> set ims" for x using snoc that by simp
    have "sint (imsg_maxSize (ims ! j)) < sint sz" if "j < length ims" for j using n that by simp
    then have "best_buffer sz (ims @ [im]) (length ims)" if "sint sz \<le> sint (imsg_maxSize im)"
      using that by (auto simp: best_buffer_def nth_append less_Suc_eq not_less [symmetric] split: if_splits)
    then show ?thesis using None n by (auto simp: search_snoc)
  next
    case (Some b)
    obtain i maxSize where b: "b = (i, maxSize)" by (cases b)
    have i: "best_buffer sz ims i" "maxSize = imsg_maxSize (ims ! i)" using snoc Some b by simp_all
    show ?thesis
    proof (cases "sint sz \<le> sint (imsg_maxSize im) \<and> sint (imsg_maxSize im) < sint maxSize")
      case True
      then have "best_buffer sz (ims @ [im]) (length ims)"
        using i by (fastforce simp: best_buffer_def nth_append less_Suc_eq)
      moreover have "sint (imsg_maxSize im - sz) < sint (maxSize - sz)"
        using True i assms by (simp add: sint_difference best_buffer_def)
      ultimately show ?thesis using True Some b by (simp add: search_snoc)
    next
      case False
      then have "best_buffer sz (ims @ [im]) i" "(ims @ [im]) ! i = ims ! i"
        using i by (auto simp: best_buffer_def nth_append less_Suc_eq)
      moreover have "\<not> sint (imsg_maxSize im - sz) < sint (maxSize - sz)" if "sint sz \<le> sint (imsg_maxSize im)"
        using False that i assms by (simp add: sint_difference best_buffer_def)
      ultimately show ?thesis using False Some b i by (auto simp: search_snoc)
    qed
  qed
qed simp

lemma put_from_length:
  "put_from src i k (buf, p) = Some (buf', p') \<Longrightarrow> length buf' = length buf \<and> (0 < k \<longrightarrow> p + k \<le> length buf)"
proof (induction k arbitrary: i buf p)
  case (Suc k)
  obtain b buf1 p1 where 1: "put b (buf, p) = Some (buf1, p1)" "put_from src (Suc i) k (buf1, p1) = Some (buf', p')"
    using Suc.prems by (auto split: Option.bind_splits)
  have "length buf1 = length buf" "p1 = Suc p" "p < length buf"
    using 1(1) by (auto simp: put_def wr_def split: if_splits Option.bind_splits)
  with Suc.IH [OF 1(2)] show ?case by (cases k) auto
qed simp

lemma memcpy_too_long: "length dest < k \<Longrightarrow> memcpy dest src k = None"
  using put_from_length [of src 0 k dest 0] by (cases "put_from src 0 k (dest, 0)") (auto simp: memcpy_def)

lemma unat_nonneg:
  assumes "0 \<le> sint (w :: u32)"
  shows "unat w = nat (sint w)"
proof -
  have "sint w < 2 ^ LENGTH(32)" using sint_lt [of w] by simp
  then have "sint w mod 2 ^ LENGTH(32) = sint w" using assms by simp
  then have "uint (word_of_int (sint w) :: u32) = sint w" by (simp only: uint_word_of_int)
  then have "sint w = uint w" by simp
  then show ?thesis by (simp only: unat_eq_nat_uint)
qed

lemma unat_widened: "0 \<le> sint (w :: u32) \<Longrightarrow> unat (scast w :: u64) = nat (sint w)"
proof -
  assume a: "0 \<le> sint w"
  have "sint w < 2 ^ 64" using sint_lt [of w] by simp
  then have "sint w mod 2 ^ LENGTH(64) = sint w" using a by simp
  then have "uint (word_of_int (sint w) :: u64) = sint w" by (simp only: uint_word_of_int)
  then show ?thesis by (simp only: scast_eq unat_eq_nat_uint)
qed

lemma unat_widened_negative: "sint (w :: u32) < 0 \<Longrightarrow> 2 ^ 32 \<le> unat (scast w :: u64)"
proof -
  assume a: "sint w < 0"
  have b: "- (2 ^ 31) \<le> sint w" using sint_ge [of w] by simp
  have "sint w mod 2 ^ LENGTH(64) = (sint w + 2 ^ 64) mod 2 ^ LENGTH(64)" by simp
  also have "\<dots> = sint w + 2 ^ 64" using a b by (intro mod_pos_pos_trivial) simp_all
  finally have "uint (word_of_int (sint w) :: u64) = sint w + 2 ^ 64" by (simp only: uint_word_of_int)
  then have "unat (scast w :: u64) = nat (sint w + 2 ^ 64)" by (simp only: scast_eq unat_eq_nat_uint)
  then show ?thesis using b by simp
qed

lemma fill_ok:
  assumes "buffer_ok im" "0 \<le> sint sz" "sint sz \<le> sint (imsg_maxSize im)" "nat (sint sz) \<le> length buffer"
  shows "\<exists>mx. fill_buffer im sz buffer = Some (im\<lparr>imsg_infoBuf := ValOctetString (nat (sint (imsg_maxSize im)) mod 65536) mx
    (take (nat (sint sz)) buffer @ replicate (nat (sint (imsg_maxSize im)) - nat (sint sz)) 0)\<rparr>)"
proof -
  obtain n mx buf where b: "imsg_infoBuf im = ValOctetString n mx buf" "n = nat (sint (imsg_maxSize im)) mod 65536"
    "length buf = nat (sint (imsg_maxSize im))" using assms(1) by (auto simp: buffer_ok_def)
  have m: "unat (imsg_maxSize im) = nat (sint (imsg_maxSize im))"
    using assms(1) by (simp add: buffer_ok_def unat_nonneg)
  have "nat (sint sz) \<le> nat (sint (imsg_maxSize im))" using assms(3) by simp
  then have "fill_buffer im sz buffer = Some (im\<lparr>imsg_infoBuf := ValOctetString n mx
      (take (nat (sint sz)) buffer @ replicate (nat (sint (imsg_maxSize im)) - nat (sint sz)) 0)\<rparr>)"
    using assms(2,4) b m by (simp add: fill_buffer_def unat_widened memcpy_eq)
  then show ?thesis using b(2) by blast
qed

section \<open>Delivery\<close>

definition info_report :: "cstr option \<Rightarrow> u32 \<Rightarrow> MmsValue \<Rightarrow> MmsValue \<Rightarrow> nat \<Rightarrow> InformationReport" where
  "info_report name maxSize header contents c = \<lparr>ir_connection = c,
     ir_variables = [(name, cstring ''Info_Mess_Header''), (name, infoBufferName maxSize)], ir_values = [header, contents]\<rparr>"


text \<open>
  Sizes that go wrong. A negative size fits every buffer and reaches the copy as a huge number
  of octets; a buffer of 65536 octets has the length 0 in the value that is sent, because an octet
  string keeps its length in 16 bits, so the message arrives empty.
\<close>

theorem information_message_defects:
  assumes "sint sz < 0" "domain_at (sv_dataModel (as_transfer srv)) 0 = Some vcc" "dom_informationMessages vcc \<noteq> []"
    "\<forall>im \<in> set (dom_informationMessages vcc). buffer_ok im"
  shows "Tase2_Server_sendInformationMessage srv None infoRef localRef msgId sz buffer = None \<and>
    (\<exists>d im. Tase2_Domain_addInformationMessageObject vcc 65536 = Some d \<and>
       dom_informationMessages d = dom_informationMessages vcc @ [im] \<and> imsg_maxSize im = 65536 \<and>
       (\<exists>mx buf. imsg_infoBuf im = ValOctetString 0 mx buf))"
proof -
  let ?ims = "dom_informationMessages vcc"
  have small: "\<exists>i m. search_buffer sz n ims (Some (k, m0)) = Some (i, m) \<and> (i = k \<or> n \<le> i \<and> i < n + length ims)"
    for n ims k m0
  proof (induction ims arbitrary: n k m0)
    case (Cons im ims)
    show ?case
      using Cons.IH [of "n + 1" n "imsg_maxSize im"] Cons.IH [of "n + 1" k m0] by (fastforce split: if_splits)
  qed simp
  have fits: "sint sz \<le> sint (imsg_maxSize im)" if "im \<in> set ?ims" for im
    using that assms(1,4) by (fastforce simp: buffer_ok_def)
  obtain im ims where ims: "?ims = im # ims" using assms(3) by (cases ?ims) auto
  then have "search_buffer sz 0 ?ims None = search_buffer sz 1 ims (Some (0, imsg_maxSize im))"
    using fits [of im] by simp
  then obtain i m where s: "search_buffer sz 0 ?ims None = Some (i, m)" "i < length ?ims"
    using small [of 1 ims 0 "imsg_maxSize im"] ims by auto
  then have b: "buffer_ok (?ims ! i)" "sint sz \<le> sint (imsg_maxSize (?ims ! i))" using assms(4) fits by auto
  obtain n mx buf where o: "imsg_infoBuf (?ims ! i) = ValOctetString n mx buf" "length buf = nat (sint (imsg_maxSize (?ims ! i)))"
    using b(1) by (auto simp: buffer_ok_def)
  have "sint (imsg_maxSize (?ims ! i)) < 2 ^ 32" using sint_lt [of "imsg_maxSize (?ims ! i)"] by simp
  then have "length buf < 2 ^ 32" using o(2) by simp
  then have "length buf < unat (scast sz :: u64)"
    using unat_widened_negative [OF assms(1)] by (rule less_le_trans)
  moreover have "memcpy buf (replicate (unat (imsg_maxSize (?ims ! i))) 0) (unat (imsg_maxSize (?ims ! i))) = None \<or>
      (\<exists>buf'. memcpy buf (replicate (unat (imsg_maxSize (?ims ! i))) 0) (unat (imsg_maxSize (?ims ! i))) = Some buf' \<and>
        length buf' = length buf)"
    using put_from_length [of _ 0 _ buf 0] by (cases "memcpy buf (replicate (unat (imsg_maxSize (?ims ! i))) 0) (unat (imsg_maxSize (?ims ! i)))")
      (auto simp: memcpy_def)
  ultimately have "fill_buffer (?ims ! i) sz buffer = None"
    using o(1) memcpy_too_long by (auto simp: fill_buffer_def)
  then have "Tase2_Server_sendInformationMessage srv None infoRef localRef msgId sz buffer = None"
    using s(1) b(2) assms(2,3) by (simp add: Tase2_Server_sendInformationMessage_def sendInformationMessage_def Let_def)
  moreover have "sint (65536 :: u32) = 65536" by simp
  ultimately show ?thesis
    by (simp add: Tase2_Domain_addInformationMessageObject_def MmsValue_newOctetString_def)
qed


section \<open>Examples\<close>

text \<open>Buffers of 10 and 4 octets; connection 7 has a table that grants no messages, 8 has none.\<close>

definition message_vcc :: Tase2_Domain where
  "message_vcc = the (Tase2_Domain_addInformationMessageObject access_vcc 10 \<bind>
     (\<lambda>d. Tase2_Domain_addInformationMessageObject d 4))"

definition message_server :: AccessServer where
  "message_server = access_demo\<lparr>as_imEnabledConnections := [7, 8],
     as_transfer := (as_transfer access_demo)\<lparr>sv_dataModel := (sv_dataModel (as_transfer access_demo))\<lparr>dm_vcc := message_vcc\<rparr>\<rparr>\<rparr>"

lemma message_vcc_buffers:
  "dom_informationMessages message_vcc =
     [\<lparr>imsg_maxSize = 10, imsg_infoBuf = ValOctetString 10 10 (replicate 10 0)\<rparr>,
      \<lparr>imsg_maxSize = 4, imsg_infoBuf = ValOctetString 4 4 (replicate 4 0)\<rparr>]"
proof -
  have "dom_informationMessages access_vcc = []" by code_simp
  then show ?thesis
    by (simp add: message_vcc_def Tase2_Domain_addInformationMessageObject_def MmsValue_newOctetString_def)
qed

lemma message_vcc_ok: "\<forall>im \<in> set (dom_informationMessages message_vcc). buffer_ok im"
  by (simp add: message_vcc_buffers buffer_ok_def)

lemma message_domain: "domain_at (sv_dataModel (as_transfer message_server)) 0 = Some message_vcc"
  by (simp add: domain_at_def message_server_def)


theorem information_message_defects_witness:
  "Tase2_Server_sendInformationMessage message_server None 1 2 3 (- 1) [65] = None"
proof -
  have "sint (- 1 :: u32) < 0" by simp
  then show ?thesis
    using information_message_defects [OF _ message_domain _ message_vcc_ok, of "- 1" 1 2 3 "[65]"]
    by (simp add: message_vcc_buffers)
qed

end
