(* ===== verification/IsoBuffer.thy ===== *)
theory IsoBuffer
  imports BilateralTable
begin

text \<open>
  The buffers of the ISO stack: \<^verbatim>\<open>common/byte_buffer.c\<close> and \<^verbatim>\<open>common/buffer_chain.c\<close> of libmms.

  A \<open>ByteBuffer\<close> is the object its \<open>buffer\<close> pointer designates with the two C \<open>int\<close>s beside it; a
  pointer into the middle of an object is the rest of the object from there on. A buffer chain
  is the list of its parts, \<open>nextPart\<close> being the tail. A layer writes its header into the first
  part and leaves the payload of the layer above where it is.
\<close>

section \<open>Blocks of bytes\<close>

text \<open>\<open>memcpy\<close> out of and into an object; a negative count is a huge \<open>size_t\<close>.\<close>

definition rd_block :: "'a list \<Rightarrow> int \<Rightarrow> int \<Rightarrow> 'a list option" where
  "rd_block buf p n =
     (if 0 \<le> p \<and> 0 \<le> n \<and> p + n \<le> int (length buf) then Some (take (nat n) (drop (nat p) buf)) else None)"

definition wr_block :: "'a list \<Rightarrow> int \<Rightarrow> 'a list \<Rightarrow> 'a list option" where
  "wr_block buf p bs =
     (if 0 \<le> p \<and> p + int (length bs) \<le> int (length buf) then Some (splice buf (nat p) bs) else None)"

lemma rd_block_Some [buf_simps]:
  "0 \<le> p \<Longrightarrow> 0 \<le> n \<Longrightarrow> p + n \<le> int (length buf) \<Longrightarrow>
   rd_block buf p n = Some (take (nat n) (drop (nat p) buf))"
  by (simp add: rd_block_def)

lemma wr_block_Some [buf_simps]:
  "0 \<le> p \<Longrightarrow> p + int (length bs) \<le> int (length buf) \<Longrightarrow> wr_block buf p bs = Some (splice buf (nat p) bs)"
  by (simp add: wr_block_def)

lemma rd_block_eq_Some:
  "rd_block buf p n = Some bs \<longleftrightarrow>
     0 \<le> p \<and> 0 \<le> n \<and> p + n \<le> int (length buf) \<and> bs = take (nat n) (drop (nat p) buf)"
  by (auto simp: rd_block_def)

text \<open>Reading what is known to start at a position.\<close>

lemma rdi_at:
  assumes "drop q buf = xs" "i < length xs"
  shows "rdi buf (int q + int i) = Some (xs ! i)"
proof -
  have "nat (int q + int i) = q + i" by simp
  moreover have "q + i < length buf" using assms by auto
  moreover have "buf ! (q + i) = xs ! i" using assms by (metis nth_drop less_imp_le_nat length_drop less_nat_zero_code nat_le_linear drop_all list.size(3))
  ultimately show ?thesis by (simp add: rdi_def rd_def)
qed

lemma drop_at: "drop q buf = xs @ ys \<Longrightarrow> drop (q + length xs) buf = ys"
  by (metis add.commute append_eq_conv_conj drop_drop)

section \<open>Byte buffers\<close>

record ByteBuffer =
  bb_buffer :: "u8 list"
  bb_maxSize :: int
  bb_size :: int

definition ByteBuffer_create :: "nat \<Rightarrow> ByteBuffer" where
  "ByteBuffer_create maxSize =
     \<lparr>bb_buffer = replicate maxSize 0, bb_maxSize = int maxSize, bb_size = 0\<rparr>"

definition ByteBuffer_wrap :: "u8 list \<Rightarrow> int \<Rightarrow> int \<Rightarrow> ByteBuffer" where
  "ByteBuffer_wrap buf sz maxSz = \<lparr>bb_buffer = buf, bb_maxSize = maxSz, bb_size = sz\<rparr>"

definition ByteBuffer_append :: "ByteBuffer \<Rightarrow> u8 list \<Rightarrow> (int \<times> ByteBuffer) option" where
  "ByteBuffer_append self data =
     (if bb_size self + int (length data) \<le> bb_maxSize self then do {
        buf \<leftarrow> wr_block (bb_buffer self) (bb_size self) data;
        Some (int (length data), self\<lparr>bb_buffer := buf, bb_size := bb_size self + int (length data)\<rparr>) }
      else Some (- 1, self))"

definition ByteBuffer_appendByte :: "ByteBuffer \<Rightarrow> u8 \<Rightarrow> (int \<times> ByteBuffer) option" where
  "ByteBuffer_appendByte self byte =
     (if bb_size self < bb_maxSize self then do {
        buf \<leftarrow> wr_block (bb_buffer self) (bb_size self) [byte];
        Some (1, self\<lparr>bb_buffer := buf, bb_size := bb_size self + 1\<rparr>) }
      else Some (0, self))"

definition ByteBuffer_getBuffer :: "ByteBuffer \<Rightarrow> u8 list" where
  "ByteBuffer_getBuffer self = bb_buffer self"

definition ByteBuffer_getMaxSize :: "ByteBuffer \<Rightarrow> int" where
  "ByteBuffer_getMaxSize self = bb_maxSize self"

definition ByteBuffer_getSize :: "ByteBuffer \<Rightarrow> int" where
  "ByteBuffer_getSize self = bb_size self"

definition ByteBuffer_setSize :: "ByteBuffer \<Rightarrow> int \<Rightarrow> int \<times> ByteBuffer" where
  "ByteBuffer_setSize self sz =
     (let self = (if sz \<le> bb_maxSize self then self\<lparr>bb_size := sz\<rparr> else self) in (bb_size self, self))"

text \<open>The size says how much of the object is in use, and the object is as large as it says.\<close>

definition buffer_ok :: "ByteBuffer \<Rightarrow> bool" where
  "buffer_ok b \<longleftrightarrow> 0 \<le> bb_size b \<and> bb_size b \<le> bb_maxSize b \<and> bb_maxSize b \<le> int (length (bb_buffer b))"

definition buffer_content :: "ByteBuffer \<Rightarrow> u8 list" where
  "buffer_content b = take (nat (bb_size b)) (bb_buffer b)"

lemma ByteBuffer_append_total:
  assumes "buffer_ok b"
  obtains r b' where "ByteBuffer_append b data = Some (r, b')" "buffer_ok b'"
    "buffer_content b' = buffer_content b @ (if r = - 1 then [] else data)"
    "r = - 1 \<longleftrightarrow> bb_maxSize b < bb_size b + int (length data)"
proof (cases "bb_size b + int (length data) \<le> bb_maxSize b")
  case True
  let ?p = "nat (bb_size b)"
  have fits: "?p + length data \<le> length (bb_buffer b)" using assms True by (auto simp: buffer_ok_def)
  have "ByteBuffer_append b data = Some (int (length data),
      b\<lparr>bb_buffer := splice (bb_buffer b) ?p data, bb_size := bb_size b + int (length data)\<rparr>)"
    using assms True by (auto simp: ByteBuffer_append_def wr_block_def buffer_ok_def)
  moreover have "take (nat (bb_size b + int (length data))) (splice (bb_buffer b) ?p data)
      = take ?p (bb_buffer b) @ data"
    using fits assms by (simp add: splice_def buffer_ok_def nat_add_distrib)
  ultimately show ?thesis
    using that assms True fits
    by (auto simp: buffer_ok_def buffer_content_def length_splice)
next
  case False
  then show ?thesis using that assms by (auto simp: ByteBuffer_append_def)
qed

section \<open>Selectors\<close>

text \<open>\<open>size = n\<close> and the copy loop of the transport and session parsers.\<close>

definition read_selector :: "u8 list \<Rightarrow> int \<Rightarrow> nat \<Rightarrow> Selector \<Rightarrow> Selector option" where
  "read_selector buf bufPos n sel = do {
     bs \<leftarrow> rd_block buf bufPos (int n);
     v \<leftarrow> wr_block (sel_value sel) 0 bs;
     Some (sel\<lparr>sel_size := n, sel_value := v\<rparr>) }"

definition sel_ok :: "Selector \<Rightarrow> bool" where
  "sel_ok s \<longleftrightarrow> sel_size s \<le> 16 \<and> length (sel_value s) = 16"

lemma read_selector_ok:
  assumes "sel_ok sel" "m \<le> 16" "0 \<le> p" "p + int m \<le> int (length buf)"
  obtains sel' where "read_selector buf p m sel = Some sel'" "sel_ok sel'"
  using assms that
  by (simp add: read_selector_def rd_block_def wr_block_def sel_ok_def length_splice)

section \<open>Buffer chains\<close>

record ChainPart =
  bc_length :: int
  bc_partLength :: int
  bc_partMaxLength :: int
  bc_buffer :: "u8 list"

type_synonym BufferChain = "ChainPart list"

definition BufferChain_init :: "int \<Rightarrow> int \<Rightarrow> BufferChain \<Rightarrow> u8 list \<Rightarrow> BufferChain" where
  "BufferChain_init len partLength nextPart buf =
     \<lparr>bc_length = len, bc_partLength = partLength, bc_partMaxLength = partLength, bc_buffer = buf\<rparr> # nextPart"

text \<open>
  The loop of \<open>BufferChain_dumpToBuffer\<close>: \<open>self\<close> stays the first part while \<open>currentChain\<close>
  advances.
\<close>

fun dump_loop :: "ChainPart \<Rightarrow> BufferChain \<Rightarrow> cursor \<Rightarrow> cursor option" where
  "dump_loop self [] c = Some c"
| "dump_loop self (current # rest) c = do {
     c \<leftarrow> put_from (bc_buffer self) 0 (nat (bc_partLength self)) c;
     dump_loop self rest c }"

definition BufferChain_dumpToBuffer :: "BufferChain \<Rightarrow> u8 list \<Rightarrow> int \<Rightarrow> (int \<times> u8 list) option" where
  "BufferChain_dumpToBuffer self buf bufferMaxSize = do {
     p \<leftarrow> rd self 0;
     if bc_length p > bufferMaxSize then Some (0, buf)
     else do {
       (buf, n) \<leftarrow> dump_loop p self (buf, 0);
       Some (int n, buf) } }"

text \<open>The bytes of a chain, and when its length fields tell the truth.\<close>

definition part_bytes :: "ChainPart \<Rightarrow> u8 list" where
  "part_bytes p = take (nat (bc_partLength p)) (bc_buffer p)"

definition chain_bytes :: "BufferChain \<Rightarrow> u8 list" where
  "chain_bytes ch = concat (map part_bytes ch)"

fun chain_ok :: "BufferChain \<Rightarrow> bool" where
  "chain_ok [] \<longleftrightarrow> False"
| "chain_ok (p # ps) \<longleftrightarrow>
     0 \<le> bc_partLength p \<and> bc_partLength p \<le> int (length (bc_buffer p)) \<and>
     bc_length p = int (length (chain_bytes (p # ps))) \<and> (ps \<noteq> [] \<longrightarrow> chain_ok ps \<and> 0 < bc_partLength (hd ps))"

lemma chain_bytes_simps [simp]:
  "chain_bytes [] = []" "chain_bytes (p # ps) = part_bytes p @ chain_bytes ps"
  by (simp_all add: chain_bytes_def)

lemma length_part_bytes:
  "0 \<le> bc_partLength p \<Longrightarrow> bc_partLength p \<le> int (length (bc_buffer p)) \<Longrightarrow>
   int (length (part_bytes p)) = bc_partLength p"
  by (simp add: part_bytes_def)

text \<open>A chain of one part is dumped as it is; a chain of two repeats its first part.\<close>

lemma dump_single:
  assumes "chain_ok [p]" "length (part_bytes p) \<le> length buf" "bc_length p \<le> m"
  shows "BufferChain_dumpToBuffer [p] buf m =
    Some (bc_length p, splice buf 0 (part_bytes p))"
proof -
  have "nat (bc_partLength p) \<le> length (bc_buffer p)" using assms(1) by (auto simp: nat_le_iff)
  then have "put_from (bc_buffer p) 0 (nat (bc_partLength p)) (buf, 0)
      = Some (splice buf 0 (part_bytes p), length (part_bytes p))"
    using assms(2) by (simp add: put_from_puts puts_eq part_bytes_def)
  then show ?thesis using assms(1,3) by (auto simp: BufferChain_dumpToBuffer_def rd_def)
qed

lemma dump_repeats_first_part:
  "BufferChain_dumpToBuffer (BufferChain_init 4 2 (BufferChain_init 2 2 [] [3, 4]) [1, 2]) [0, 0, 0, 0] 4
   = Some (4, [1, 2, 1, 2])"
  "chain_bytes (BufferChain_init 4 2 (BufferChain_init 2 2 [] [3, 4]) [1, 2]) = [1, 2, 3, 4]"
  by (simp_all add: BufferChain_dumpToBuffer_def BufferChain_init_def rd_def put_def numeral_2_eq_2
      part_bytes_def)

section \<open>Headers\<close>

text \<open>The length of a chain: the \<open>length\<close> field of its first part.\<close>

definition payload_length :: "BufferChain \<Rightarrow> int option" where
  "payload_length payload = map_option bc_length (rd payload 0)"

text \<open>
  The common end of the writers of the layers: the first part is in use up to \<open>offset\<close>, the payload
  of \<open>n\<close> bytes follows it.
\<close>

definition framed_part :: "ChainPart \<Rightarrow> u8 list \<Rightarrow> int \<Rightarrow> int \<Rightarrow> BufferChain \<Rightarrow> BufferChain" where
  "framed_part buffer buf offset n payload =
     buffer\<lparr>bc_buffer := buf, bc_partLength := offset, bc_length := offset + n\<rparr> # payload"

definition framed :: "u8 list \<Rightarrow> BufferChain \<Rightarrow> BufferChain \<Rightarrow> bool" where
  "framed header payload chain \<longleftrightarrow> chain_ok chain \<and> chain_bytes chain = header @ chain_bytes payload \<and>
     0 \<le> bc_partLength (hd chain) \<and> (header \<noteq> [] \<longrightarrow> 0 < bc_partLength (hd chain))"

lemma bc_length_payload: "chain_ok payload \<Longrightarrow> payload_length payload = Some (int (length (chain_bytes payload)))"
  by (cases payload) (simp_all add: payload_length_def rd_def)

lemma framed_part_ok:
  assumes "chain_ok payload" "0 < bc_partLength (hd payload)" "length header \<le> length (bc_buffer buffer)"
  shows "framed header payload (framed_part buffer (splice (bc_buffer buffer) 0 header) (int (length header))
    (int (length (chain_bytes payload))) payload)"
  using assms splice_read [of 0 header "bc_buffer buffer"] length_splice [of 0 header "bc_buffer buffer"]
  by (simp add: framed_def framed_part_def part_bytes_def)

text \<open>A PDU as the layer below hands it over, with whatever the buffer holds behind it.\<close>

definition message_of :: "BufferChain \<Rightarrow> u8 list \<Rightarrow> int \<Rightarrow> ByteBuffer" where
  "message_of chain post m =
     \<lparr>bb_buffer = chain_bytes chain @ post, bb_maxSize = m, bb_size = int (length (chain_bytes chain))\<rparr>"

end
