(* ===== verification/Cotp.thy ===== *)
theory Cotp
  imports IsoBuffer
begin

text \<open>
  \<^verbatim>\<open>mms/iso_cotp/cotp.c\<close>: the ISO transport protocol over TCP (RFC 1006).

  The network is the value of the connection's socket: the bytes the peer has sent and the
  receiver has not read, how many of them each coming \<open>recv\<close> finds (negative: the connection is
  down), the bytes the network took from us, and what each coming \<open>send\<close> takes together with
  the clock read after it. An exhausted list of reads is a silent peer, an exhausted list of
  writes a broken connection. Messages without TLS are modelled.

  \<open>None\<close> is a C error: an access outside an object, \<open>memcpy\<close> or \<open>recv\<close> with a negative count, a
  shift of 31 bits and more, a null pointer.
\<close>

section \<open>Sockets\<close>

record Socket =
  sk_inbound :: "u8 list"
  sk_ready :: "int list"
  sk_outbound :: "u8 list"
  sk_taken :: "(int \<times> int) list"

text \<open>\<open>recv\<close> of no bytes returns 0, which \<open>Socket_read\<close> takes for a closed connection.\<close>

definition Socket_read :: "int \<Rightarrow> Socket \<Rightarrow> int \<times> u8 list \<times> Socket" where
  "Socket_read sz s =
     (let (r, s) = (case sk_ready s of [] \<Rightarrow> (0, s) | r # rs \<Rightarrow> (r, s\<lparr>sk_ready := rs\<rparr>)) in
      if r < 0 \<or> sz = 0 then (- 1, [], s)
      else let bytes = take (nat (min r sz)) (sk_inbound s)
           in (int (length bytes), bytes, s\<lparr>sk_inbound := drop (length bytes) (sk_inbound s)\<rparr>))"

text \<open>The result of \<open>Socket_write\<close> and the value of \<open>Hal_getTimeInMs\<close> after it.\<close>

definition Socket_write :: "u8 list \<Rightarrow> Socket \<Rightarrow> int \<times> int \<times> Socket" where
  "Socket_write buf s =
     (case sk_taken s of
        [] \<Rightarrow> (- 1, 0, s)
      | (r, t) # rest \<Rightarrow>
         if r < 0 then (- 1, t, s\<lparr>sk_taken := rest\<rparr>)
         else let n = min (nat r) (length buf)
              in (int n, t, s\<lparr>sk_taken := rest, sk_outbound := sk_outbound s @ take n buf\<rparr>))"

section \<open>The connection\<close>

definition COTP_MAX_TPDU_SIZE :: int where
  "COTP_MAX_TPDU_SIZE = 8192"

record CotpOptions =
  opt_tSelSrc :: Selector
  opt_tSelDst :: Selector
  opt_tpduSize :: u8

record CotpConnection =
  cot_state :: int
  cot_remoteRef :: int
  cot_localRef :: int
  cot_protocolClass :: int
  cot_socket :: Socket
  cot_options :: CotpOptions
  cot_isLastDataUnit :: bool
  cot_payload :: ByteBuffer
  cot_writeBuffer :: "ByteBuffer option"
  cot_readBuffer :: ByteBuffer
  cot_packetSize :: u16

datatype CotpIndication = COTP_OK | COTP_ERROR | COTP_CONNECT_INDICATION | COTP_DATA_INDICATION
  | COTP_DISCONNECT_INDICATION | COTP_MORE_FRAGMENTS_FOLLOW

datatype TpktState = TPKT_PACKET_COMPLETE | TPKT_WAITING | TPKT_ERROR

text \<open>\<open>1 << n\<close> on \<open>int\<close>: defined while the result is an \<open>int\<close>.\<close>

definition shift1 :: "nat \<Rightarrow> int option" where
  "shift1 n = (if n < 31 then Some (2 ^ n) else None)"

definition CotpConnection_getTpduSize :: "CotpConnection \<Rightarrow> int option" where
  "CotpConnection_getTpduSize self = shift1 (unat (opt_tpduSize (cot_options self)))"

text \<open>\<open>while ((1 << newTpduSize) < tpduSize) newTpduSize++\<close>\<close>

function grow_tpduSize :: "nat \<Rightarrow> int \<Rightarrow> nat option" where
  "grow_tpduSize newTpduSize tpduSize =
     (case shift1 newTpduSize of
        None \<Rightarrow> None
      | Some s \<Rightarrow> if s < tpduSize then grow_tpduSize (newTpduSize + 1) tpduSize else Some newTpduSize)"
  by auto

termination
  by (relation "measure (\<lambda>(n, t). 31 - n)") (auto simp: shift1_def split: if_splits)

declare grow_tpduSize.simps [simp del]

definition CotpConnection_setTpduSize :: "CotpConnection \<Rightarrow> int \<Rightarrow> CotpConnection option" where
  "CotpConnection_setTpduSize self tpduSize = do {
     let tpduSize = (if tpduSize > COTP_MAX_TPDU_SIZE then COTP_MAX_TPDU_SIZE else tpduSize);
     newTpduSize \<leftarrow> grow_tpduSize 1 tpduSize;
     s \<leftarrow> shift1 newTpduSize;
     let newTpduSize = (if s > tpduSize then newTpduSize - 1 else newTpduSize);
     Some (self\<lparr>cot_options := (cot_options self)\<lparr>opt_tpduSize := of_nat newTpduSize\<rparr>\<rparr>) }"

definition CotpConnection_getPayload :: "CotpConnection \<Rightarrow> ByteBuffer" where
  "CotpConnection_getPayload self = cot_payload self"

definition CotpConnection_getRemoteRef :: "CotpConnection \<Rightarrow> int" where
  "CotpConnection_getRemoteRef self = cot_remoteRef self"

definition CotpConnection_getLocalRef :: "CotpConnection \<Rightarrow> int" where
  "CotpConnection_getLocalRef self = cot_localRef self"

definition CotpConnection_resetPayload :: "CotpConnection \<Rightarrow> CotpConnection" where
  "CotpConnection_resetPayload self = self\<lparr>cot_payload := (cot_payload self)\<lparr>bb_size := 0\<rparr>\<rparr>"

text \<open>The local \<open>tsel\<close> is initialised in its first two bytes; the others are the caller's stack.\<close>

definition CotpConnection_init ::
    "u8 list \<Rightarrow> CotpConnection \<Rightarrow> Socket \<Rightarrow> ByteBuffer \<Rightarrow> ByteBuffer \<Rightarrow> ByteBuffer option \<Rightarrow> CotpConnection option" where
  "CotpConnection_init stack self socket payloadBuffer readBuffer writeBuffer = do {
     let tsel = \<lparr>sel_size = 2, sel_value = [0, 1] @ take 14 stack\<rparr>;
     let self = self\<lparr>cot_state := 0, cot_socket := socket, cot_remoteRef := - 1, cot_localRef := 1,
           cot_protocolClass := - 1,
           cot_options := \<lparr>opt_tSelSrc = tsel, opt_tSelDst = tsel, opt_tpduSize = 0\<rparr>,
           cot_payload := payloadBuffer\<rparr>;
     let self = CotpConnection_resetPayload self;
     self \<leftarrow> CotpConnection_setTpduSize self COTP_MAX_TPDU_SIZE;
     Some (self\<lparr>cot_writeBuffer := writeBuffer, cot_readBuffer := readBuffer, cot_packetSize := 0\<rparr>) }"

section \<open>Writing\<close>

definition put_selector :: "u8 \<Rightarrow> Selector \<Rightarrow> cursor \<Rightarrow> cursor option" where
  "put_selector code sel c =
     (if sel_size sel \<noteq> 0 then do {
        c \<leftarrow> puts [code, of_nat (sel_size sel)] c;
        put_from (sel_value sel) 0 (sel_size sel) c }
      else Some c)"

definition writeOptions :: "CotpConnection \<Rightarrow> CotpConnection option" where
  "writeOptions self = do {
     wb \<leftarrow> cot_writeBuffer self;
     let opts = cot_options self;
     c \<leftarrow> (if opt_tpduSize opts \<noteq> 0 then puts [0xc0, 0x01, opt_tpduSize opts] (bb_buffer wb, nat (bb_size wb))
          else Some (bb_buffer wb, nat (bb_size wb)));
     c \<leftarrow> put_selector 0xc2 (opt_tSelDst opts) c;
     (buf, bufPos) \<leftarrow> put_selector 0xc1 (opt_tSelSrc opts) c;
     Some (self\<lparr>cot_writeBuffer := Some (wb\<lparr>bb_buffer := buf, bb_size := int bufPos\<rparr>)\<rparr>) }"

definition getOptionsLength :: "CotpConnection \<Rightarrow> int" where
  "getOptionsLength self =
     (let opts = cot_options self in
      (if opt_tpduSize opts \<noteq> 0 then 3 else 0) +
      (if sel_size (opt_tSelDst opts) \<noteq> 0 then 2 + int (sel_size (opt_tSelDst opts)) else 0) +
      (if sel_size (opt_tSelSrc opts) \<noteq> 0 then 2 + int (sel_size (opt_tSelSrc opts)) else 0))"

text \<open>The writers of bytes at fixed positions of the write buffer.\<close>

definition write_at :: "CotpConnection \<Rightarrow> nat \<Rightarrow> u8 list \<Rightarrow> CotpConnection option" where
  "write_at self p bs = do {
     wb \<leftarrow> cot_writeBuffer self;
     (buf, bufPos) \<leftarrow> puts bs (bb_buffer wb, p);
     Some (self\<lparr>cot_writeBuffer := Some (wb\<lparr>bb_buffer := buf, bb_size := int bufPos\<rparr>)\<rparr>) }"

definition hi_byte :: "int \<Rightarrow> u8" where
  "hi_byte x = word_of_int (x sdiv 0x100)"

definition lo_byte :: "int \<Rightarrow> u8" where
  "lo_byte x = word_of_int (x AND 0xff)"

definition writeStaticConnectResponseHeader :: "CotpConnection \<Rightarrow> int \<Rightarrow> CotpConnection option" where
  "writeStaticConnectResponseHeader self optionsLength =
     write_at self 4
       [word_of_int (6 + optionsLength), 0xd0,
        hi_byte (cot_remoteRef self), lo_byte (cot_remoteRef self),
        hi_byte (cot_localRef self), lo_byte (cot_localRef self),
        word_of_int (cot_protocolClass self)]"

definition writeRfc1006Header :: "CotpConnection \<Rightarrow> int \<Rightarrow> CotpConnection option" where
  "writeRfc1006Header self len = write_at self 0 [0x03, 0x00, hi_byte len, lo_byte len]"

definition writeDataTpduHeader :: "CotpConnection \<Rightarrow> bool \<Rightarrow> CotpConnection option" where
  "writeDataTpduHeader self isLastUnit =
     write_at self 4 [0x02, 0xf0, if isLastUnit then 0x80 else 0x00]"

text \<open>
  The \<open>do \<dots> while\<close> of \<open>sendBuffer\<close>: the offset of \<open>buffer\<close> in the write buffer, \<open>remainingSize\<close>
  and the deadline once it is set. Every round consumes a \<open>send\<close>.
\<close>

function send_loop :: "u8 list \<Rightarrow> int \<Rightarrow> int \<Rightarrow> int option \<Rightarrow> Socket \<Rightarrow> (bool \<times> Socket) option" where
  "send_loop buf pos remainingSize timeout s =
     (case rd_block buf pos remainingSize of
        None \<Rightarrow> None
      | Some bytes \<Rightarrow>
         (case Socket_write bytes s of
            (sentBytes, now, s') \<Rightarrow>
              if sentBytes = - 1 then Some (False, s')
              else if (case timeout of None \<Rightarrow> False | Some deadline \<Rightarrow> now > deadline) then Some (False, s')
              else let timeout = (case timeout of None \<Rightarrow> Some (now + 200) | Some t \<Rightarrow> Some t);
                       pos = pos + sentBytes; remainingSize = remainingSize - sentBytes
                   in if remainingSize > 0 then send_loop buf pos remainingSize timeout s'
                      else Some (True, s')))"
  by auto

termination
  by (relation "measure (\<lambda>(buf, p, n, t, s). length (sk_taken s))")
    (auto simp: Socket_write_def Let_def split: list.splits if_splits)

declare send_loop.simps [simp del]

definition sendBuffer :: "CotpConnection \<Rightarrow> (bool \<times> CotpConnection) option" where
  "sendBuffer self = do {
     wb \<leftarrow> cot_writeBuffer self;
     (retVal, s) \<leftarrow> send_loop (ByteBuffer_getBuffer wb) 0 (ByteBuffer_getSize wb) None (cot_socket self);
     let self = self\<lparr>cot_socket := s\<rparr>;
     Some (if retVal then (True, self\<lparr>cot_writeBuffer := Some (snd (ByteBuffer_setSize wb 0))\<rparr>)
           else (False, self)) }"

text \<open>
  The copy loop of a fragment: \<open>k\<close> bytes from position \<open>currentChainIndex\<close> of the current part,
  going on to the next part when this one is used up.
\<close>

fun copy_chain :: "nat \<Rightarrow> BufferChain \<Rightarrow> int \<Rightarrow> cursor \<Rightarrow> (BufferChain \<times> int \<times> cursor) option" where
  "copy_chain 0 chain idx c = Some (chain, idx, c)"
| "copy_chain (Suc k) [] idx c = None"
| "copy_chain (Suc k) (p # ps) idx c =
     (case (if idx \<ge> bc_partLength p then (ps, 0) else (p # ps, idx)) of
        ([], idx) \<Rightarrow> None
      | (q # qs, idx) \<Rightarrow> do {
          b \<leftarrow> rdi (bc_buffer q) idx;
          c \<leftarrow> put b c;
          copy_chain k (q # qs) (idx + 1) c })"

text \<open>The \<open>while (fragments > 0)\<close> loop.\<close>

fun send_fragments ::
    "nat \<Rightarrow> int \<Rightarrow> int \<Rightarrow> int \<Rightarrow> BufferChain \<Rightarrow> int \<Rightarrow> CotpConnection \<Rightarrow> (CotpIndication \<times> CotpConnection) option" where
  "send_fragments 0 fragmentPayloadSize len currentBufPos chain idx self = Some (COTP_OK, self)"
| "send_fragments (Suc fragments) fragmentPayloadSize len currentBufPos chain idx self = do {
     let (currentLimit, lastUnit) =
       (if Suc fragments > 1 then (currentBufPos + fragmentPayloadSize, False) else (len, True));
     self \<leftarrow> writeRfc1006Header self (7 + (currentLimit - currentBufPos));
     self \<leftarrow> writeDataTpduHeader self lastUnit;
     wb \<leftarrow> cot_writeBuffer self;
     (chain, idx, buf, bufPos) \<leftarrow> copy_chain (nat (currentLimit - currentBufPos)) chain idx (bb_buffer wb, 7);
     let self = self\<lparr>cot_writeBuffer := Some (wb\<lparr>bb_buffer := buf, bb_size := int bufPos\<rparr>)\<rparr>;
     (sent, self) \<leftarrow> sendBuffer self;
     if \<not> sent then Some (COTP_ERROR, self)
     else send_fragments fragments fragmentPayloadSize len (max currentBufPos currentLimit) chain idx self }"

definition CotpConnection_sendDataMessage ::
    "CotpConnection \<Rightarrow> BufferChain \<Rightarrow> (CotpIndication \<times> CotpConnection) option" where
  "CotpConnection_sendDataMessage self payload = do {
     p \<leftarrow> rd payload 0;
     tpduSize \<leftarrow> CotpConnection_getTpduSize self;
     let fragmentPayloadSize = tpduSize - 3;
     fragments \<leftarrow>
       (if bc_length p > fragmentPayloadSize then
          if fragmentPayloadSize = 0 then None
          else Some (bc_length p sdiv fragmentPayloadSize +
                     (if bc_length p smod fragmentPayloadSize \<noteq> 0 then 1 else 0))
        else Some 1);
     send_fragments (nat fragments) fragmentPayloadSize (bc_length p) 0 payload 0 self }"

definition allocateWriteBuffer :: "CotpConnection \<Rightarrow> CotpConnection option" where
  "allocateWriteBuffer self =
     (if cot_writeBuffer self = None then do {
        tpduSize \<leftarrow> CotpConnection_getTpduSize self;
        Some (self\<lparr>cot_writeBuffer := Some (ByteBuffer_create (nat (tpduSize + 4)))\<rparr>) }
      else Some self)"

definition CotpConnection_sendConnectionRequestMessage ::
    "CotpConnection \<Rightarrow> IsoApplicationAddress \<Rightarrow> IsoApplicationAddress \<Rightarrow> (CotpIndication \<times> CotpConnection) option" where
  "CotpConnection_sendConnectionRequestMessage self remoteAddress localAddress = do {
     self \<leftarrow> allocateWriteBuffer self;
     let self = self\<lparr>cot_options := (cot_options self)\<lparr>opt_tSelDst := iaa_tSelector remoteAddress,
                                                    opt_tSelSrc := iaa_tSelector localAddress\<rparr>\<rparr>;
     let cotpRequestSize = getOptionsLength self + 6;
     let conRequestSize = cotpRequestSize + 5;
     wb \<leftarrow> cot_writeBuffer self;
     if bb_maxSize wb < conRequestSize then Some (COTP_ERROR, self)
     else do {
       self \<leftarrow> writeRfc1006Header self conRequestSize;
       self \<leftarrow> write_at self 4
         [word_of_int cotpRequestSize, 0xe0, 0x00, 0x00, hi_byte (cot_localRef self), lo_byte (cot_localRef self), 0x00];
       self \<leftarrow> writeOptions self;
       (sent, self) \<leftarrow> sendBuffer self;
       Some (if sent then COTP_OK else COTP_ERROR, self) } }"

definition CotpConnection_sendConnectionResponseMessage ::
    "CotpConnection \<Rightarrow> (CotpIndication \<times> CotpConnection) option" where
  "CotpConnection_sendConnectionResponseMessage self = do {
     self \<leftarrow> allocateWriteBuffer self;
     let optionsLength = getOptionsLength self;
     let messageLength = 11 + optionsLength;
     self \<leftarrow> writeRfc1006Header self messageLength;
     self \<leftarrow> writeStaticConnectResponseHeader self optionsLength;
     self \<leftarrow> writeOptions self;
     (sent, self) \<leftarrow> sendBuffer self;
     Some (if sent then COTP_OK else COTP_ERROR, self) }"

section \<open>Parsing\<close>

definition getUint16 :: "u8 list \<Rightarrow> int option" where
  "getUint16 buf = do { h \<leftarrow> rd buf 0; l \<leftarrow> rd buf 1; Some (uint h * 0x100 + uint l) }"

function parseOptions :: "CotpConnection \<Rightarrow> u8 list \<Rightarrow> int \<Rightarrow> int \<Rightarrow> (bool \<times> CotpConnection) option" where
  "parseOptions self buf bufPos bufLen =
     (if bufPos < bufLen then do {
        optionType \<leftarrow> rdi buf bufPos;
        optionLen \<leftarrow> rdi buf (bufPos + 1);
        let pos = bufPos + 2;
        let opts = cot_options self;
        if uint optionLen > bufLen - pos then Some (False, self)
        else if optionType = 0xc0 then
          (if optionLen = 1 then do {
             v \<leftarrow> rdi buf pos;
             requestedTpduSize \<leftarrow> shift1 (unat v);
             self \<leftarrow> CotpConnection_setTpduSize self requestedTpduSize;
             parseOptions self buf (bufPos + 3) bufLen }
           else Some (False, self))
        else if optionType = 0xc1 then
          (if optionLen < 17 then do {
             sel \<leftarrow> read_selector buf pos (unat optionLen) (opt_tSelSrc opts);
             parseOptions (self\<lparr>cot_options := opts\<lparr>opt_tSelSrc := sel\<rparr>\<rparr>) buf
               (bufPos + 2 + uint optionLen) bufLen }
           else Some (False, self))
        else if optionType = 0xc2 then
          (if optionLen < 17 then do {
             sel \<leftarrow> read_selector buf pos (unat optionLen) (opt_tSelDst opts);
             parseOptions (self\<lparr>cot_options := opts\<lparr>opt_tSelDst := sel\<rparr>\<rparr>) buf
               (bufPos + 2 + uint optionLen) bufLen }
           else Some (False, self))
        else if optionType = 0xc6 then
          (if optionLen = 1 then parseOptions self buf (bufPos + 3) bufLen
           else Some (False, self))
        else parseOptions self buf (bufPos + 2 + uint optionLen) bufLen }
      else Some (True, self))"
  by pat_completeness auto

termination
proof (relation "measure (\<lambda>(self, buf, p, n). nat (n - p))", goal_cases)
  case 1
  show ?case by simp
qed (use uint_u8_bounds(1) in \<open>auto simp: nat_less_eq_zless intro: less_le_trans [of _ 0]\<close>)

declare parseOptions.simps [simp del]

definition parseConnectRequestTpdu :: "CotpConnection \<Rightarrow> u8 list \<Rightarrow> u8 \<Rightarrow> (bool \<times> CotpConnection) option" where
  "parseConnectRequestTpdu self buf len =
     (if len < 6 then Some (False, self)
      else do {
        ref \<leftarrow> getUint16 (drop 2 buf);
        cls \<leftarrow> rd buf 4;
        parseOptions (self\<lparr>cot_remoteRef := ref, cot_protocolClass := uint cls\<rparr>) (drop 5 buf) 0 (uint len - 6) })"

definition parseConnectConfirmTpdu :: "CotpConnection \<Rightarrow> u8 list \<Rightarrow> u8 \<Rightarrow> (bool \<times> CotpConnection) option" where
  "parseConnectConfirmTpdu self buf len =
     (if len < 6 then Some (False, self)
      else do {
        ref \<leftarrow> getUint16 buf;
        cls \<leftarrow> rd buf 4;
        parseOptions (self\<lparr>cot_remoteRef := ref, cot_protocolClass := uint cls\<rparr>) (drop 5 buf) 0 (uint len - 6) })"

definition parseDataTpdu :: "CotpConnection \<Rightarrow> u8 list \<Rightarrow> u8 \<Rightarrow> (bool \<times> CotpConnection) option" where
  "parseDataTpdu self buf len =
     (if len \<noteq> 2 then Some (False, self)
      else do {
        flowControl \<leftarrow> rd buf 0;
        Some (True, self\<lparr>cot_isLastDataUnit := (flowControl AND 0x80 \<noteq> 0)\<rparr>) })"

definition addPayloadToBuffer :: "CotpConnection \<Rightarrow> u8 list \<Rightarrow> int \<Rightarrow> (bool \<times> CotpConnection) option" where
  "addPayloadToBuffer self buf payloadLength =
     (let pl = cot_payload self in
      if bb_size pl + payloadLength > bb_maxSize pl then Some (False, self)
      else do {
        bs \<leftarrow> rd_block buf 0 payloadLength;
        b \<leftarrow> wr_block (bb_buffer pl) (bb_size pl) bs;
        Some (True, self\<lparr>cot_payload := pl\<lparr>bb_buffer := b, bb_size := bb_size pl + payloadLength\<rparr>\<rparr>) })"

definition parseCotpMessage :: "CotpConnection \<Rightarrow> (CotpIndication \<times> CotpConnection) option" where
  "parseCotpMessage self = do {
     let buf = drop 4 (bb_buffer (cot_readBuffer self));
     let tpduLength = bb_size (cot_readBuffer self) - 4;
     len \<leftarrow> rd buf 0;
     if uint len > tpduLength then Some (COTP_ERROR, self)
     else do {
       tpduType \<leftarrow> rd buf 1;
       if tpduType = 0xe0 then do {
         (ok, self) \<leftarrow> parseConnectRequestTpdu self (drop 2 buf) len;
         Some (if ok then COTP_CONNECT_INDICATION else COTP_ERROR, self) }
       else if tpduType = 0xd0 then do {
         (ok, self) \<leftarrow> parseConnectConfirmTpdu self (drop 2 buf) len;
         Some (if ok then COTP_CONNECT_INDICATION else COTP_ERROR, self) }
       else if tpduType = 0xf0 then do {
         (ok, self) \<leftarrow> parseDataTpdu self (drop 2 buf) len;
         if ok then do {
           (added, self) \<leftarrow> addPayloadToBuffer self (drop 3 buf) (tpduLength - 3);
           Some (if \<not> added then COTP_ERROR
                 else if cot_isLastDataUnit self then COTP_DATA_INDICATION
                 else COTP_MORE_FRAGMENTS_FOLLOW, self) }
         else Some (COTP_ERROR, self) }
       else Some (COTP_ERROR, self) } }"

definition CotpConnection_parseIncomingMessage :: "CotpConnection \<Rightarrow> (CotpIndication \<times> CotpConnection) option" where
  "CotpConnection_parseIncomingMessage self = do {
     (indication, self) \<leftarrow> parseCotpMessage self;
     Some (indication, self\<lparr>cot_readBuffer := (cot_readBuffer self)\<lparr>bb_size := 0\<rparr>, cot_packetSize := 0\<rparr>) }"

section \<open>Reading a packet\<close>

definition readFromSocket :: "CotpConnection \<Rightarrow> int \<Rightarrow> int \<Rightarrow> (int \<times> CotpConnection) option" where
  "readFromSocket self pos sz = do {
     let rb = cot_readBuffer self;
     _ \<leftarrow> rd_block (bb_buffer rb) pos sz;
     let (n, bytes, s) = Socket_read sz (cot_socket self);
     b \<leftarrow> wr_block (bb_buffer rb) pos bytes;
     Some (n, self\<lparr>cot_socket := s, cot_readBuffer := rb\<lparr>bb_buffer := b\<rparr>\<rparr>) }"

definition set_read_size :: "CotpConnection \<Rightarrow> int \<Rightarrow> CotpConnection" where
  "set_read_size self n = self\<lparr>cot_readBuffer := (cot_readBuffer self)\<lparr>bb_size := n\<rparr>\<rparr>"

text \<open>The part of \<open>CotpConnection_readToTpktBuffer\<close> after the header is complete.\<close>

definition read_tpkt_body :: "CotpConnection \<Rightarrow> int \<Rightarrow> (TpktState \<times> CotpConnection) option" where
  "read_tpkt_body self bufPos = do {
     (readBytes, self) \<leftarrow> readFromSocket self bufPos (uint (cot_packetSize self) - bufPos);
     if readBytes < 0 then Some (TPKT_ERROR, self)
     else let bufPos = bufPos + readBytes in
       if bufPos < uint (cot_packetSize self) then Some (TPKT_WAITING, set_read_size self bufPos)
       else Some (TPKT_PACKET_COMPLETE, set_read_size self bufPos) }"

definition CotpConnection_readToTpktBuffer :: "CotpConnection \<Rightarrow> (TpktState \<times> CotpConnection) option" where
  "CotpConnection_readToTpktBuffer self = do {
     let bufferSize = bb_maxSize (cot_readBuffer self);
     let bufPos = bb_size (cot_readBuffer self);
     if \<not> bufferSize > 4 then None
     else if bufPos < 4 then do {
       (readBytes, self) \<leftarrow> readFromSocket self bufPos (4 - bufPos);
       if readBytes < 0 then Some (TPKT_ERROR, self)
       else do {
         let bufPos = bufPos + readBytes;
         if bufPos = 4 then do {
           b0 \<leftarrow> rd (bb_buffer (cot_readBuffer self)) 0;
           b1 \<leftarrow> rd (bb_buffer (cot_readBuffer self)) 1;
           if b0 = 3 \<and> b1 = 0 then do {
             n \<leftarrow> getUint16 (drop 2 (bb_buffer (cot_readBuffer self)));
             let self = self\<lparr>cot_packetSize := word_of_int n\<rparr>;
             if uint (cot_packetSize self) > bufferSize then Some (TPKT_ERROR, self)
             else read_tpkt_body self bufPos }
           else Some (TPKT_ERROR, self) }
         else Some (TPKT_WAITING, set_read_size self bufPos) } }
     else read_tpkt_body self bufPos }"

end
