(* ===== verification/Cotp_Laws.thy ===== *)
theory Cotp_Laws
  imports Cotp
begin

text \<open>
  Laws of the transport layer: the negotiated TPDU size, what \<open>sendBuffer\<close> puts on the wire, the
  fragmentation of a message and its reassembly from a byte stream that arrives in arbitrary
  portions, the exchange of the connection options, and the inputs the parser mishandles.
\<close>

section \<open>TPDU size\<close>

lemma shift1_Some [simp]: "n < 31 \<Longrightarrow> shift1 n = Some (2 ^ n)"
  by (simp add: shift1_def)

lemma grow_tpduSize_result:
  assumes "n \<le> 13" "t \<le> 8192"
  shows "\<exists>m. grow_tpduSize n t = Some m \<and> n \<le> m \<and> m \<le> 13 \<and> t \<le> 2 ^ m \<and> (m = n \<or> 2 ^ (m - 1) < t)"
  using assms
proof (induction n t rule: grow_tpduSize.induct)
  case (1 n t)
  show ?case
  proof (cases "2 ^ n < t")
    case True
    have "n \<noteq> 13" using True "1.prems" by auto
    then have n: "Suc n \<le> 13" using "1.prems" by simp
    then obtain m where m: "grow_tpduSize (Suc n) t = Some m" "Suc n \<le> m" "m \<le> 13" "t \<le> 2 ^ m"
        "m = Suc n \<or> 2 ^ (m - 1) < t"
      using "1.IH" [of "2 ^ n"] "1.prems" True by auto
    then have "grow_tpduSize n t = Some m" using True n by (subst grow_tpduSize.simps) simp
    moreover have "2 ^ (m - 1) < t" using m(5) True by auto
    ultimately show ?thesis using m by (intro exI [of _ m]) auto
  next
    case False
    then have "grow_tpduSize n t = Some n" using "1.prems" by (subst grow_tpduSize.simps) simp
    then show ?thesis using False "1.prems" by auto
  qed
qed

text \<open>
  \<open>setTpduSize\<close> stores the exponent of the largest power of two within the request and the maximum
  of 8192; a request below 2 leaves the size 1.
\<close>

lemma setTpduSize_result:
  obtains k where
    "CotpConnection_setTpduSize self t =
       Some (self\<lparr>cot_options := (cot_options self)\<lparr>opt_tpduSize := of_nat k\<rparr>\<rparr>)"
    "k \<le> 13" "1 \<le> t \<longrightarrow> 2 ^ k \<le> t" "min t 8192 < 2 ^ Suc k"
proof -
  define u where "u = (if t > COTP_MAX_TPDU_SIZE then COTP_MAX_TPDU_SIZE else t)"
  have u: "u \<le> 8192" "u \<le> t" "u = min t 8192" by (auto simp: u_def COTP_MAX_TPDU_SIZE_def)
  obtain m where m: "grow_tpduSize 1 u = Some m" "1 \<le> m" "m \<le> 13" "u \<le> 2 ^ m" "m = 1 \<or> 2 ^ (m - 1) < u"
    using grow_tpduSize_result [of 1 u] u by auto
  define k where "k = (if 2 ^ m > u then m - 1 else m)"
  have S: "CotpConnection_setTpduSize self t =
      Some (self\<lparr>cot_options := (cot_options self)\<lparr>opt_tpduSize := of_nat k\<rparr>\<rparr>)"
    using m by (simp add: CotpConnection_setTpduSize_def u_def [symmetric] k_def Let_def)
  have k: "k \<le> 13" using m by (auto simp: k_def)
  moreover have "2 ^ k \<le> t" if "1 \<le> t"
  proof (cases "2 ^ m > u")
    case True
    then show ?thesis using m(5) u(2) that by (auto simp: k_def)
  next
    case False
    then show ?thesis using u(2) by (simp add: k_def)
  qed
  moreover have "min t 8192 < 2 ^ Suc k"
  proof (cases "2 ^ m > u")
    case True
    then show ?thesis using m(2) u(3) by (simp add: k_def)
  next
    case False
    have "(2::int) ^ m < 2 ^ Suc m" by simp
    then show ?thesis using False m(4) u(3) by (simp add: k_def del: power_Suc)
  qed
  ultimately show ?thesis using that S by blast
qed

lemma setTpduSize_power:
  assumes "k \<le> 13"
  shows "CotpConnection_setTpduSize self (2 ^ k) =
    Some (self\<lparr>cot_options := (cot_options self)\<lparr>opt_tpduSize := of_nat k\<rparr>\<rparr>)"
proof -
  obtain j where j: "CotpConnection_setTpduSize self (2 ^ k) =
       Some (self\<lparr>cot_options := (cot_options self)\<lparr>opt_tpduSize := of_nat j\<rparr>\<rparr>)"
    "(1::int) \<le> 2 ^ k \<longrightarrow> (2::int) ^ j \<le> 2 ^ k" "min (2 ^ k) 8192 < (2::int) ^ Suc j"
    using setTpduSize_result [of self "2 ^ k"] by metis
  have "(2::int) ^ k \<le> 2 ^ 13" using assms by (intro power_increasing) auto
  then have "(2::int) ^ k < 2 ^ Suc j" using j(3) by simp
  then have "k < Suc j" by (simp only: power_strict_increasing_iff)
  moreover have "j \<le> k" using j(2) by simp
  ultimately have "j = k" by simp
  then show ?thesis using j(1) by simp
qed

section \<open>What is sent\<close>

text \<open>
  One \<open>sendBuffer\<close>: a prefix of the block leaves, all of it when the result is true. The reading
  side of the socket is untouched.
\<close>

text \<open>A network that takes the next \<open>m\<close> blocks of up to \<open>n\<close> bytes whole.\<close>

definition taking :: "nat \<Rightarrow> nat \<Rightarrow> Socket \<Rightarrow> bool" where
  "taking n m s \<longleftrightarrow> m \<le> length (sk_taken s) \<and> (\<forall>(r, t) \<in> set (sk_taken s). int n \<le> r)"

lemma send_loop_taking:
  assumes "taking m (Suc i) s" "nat n \<le> m" "0 \<le> p" "0 \<le> n" "p + n \<le> int (length buf)"
  shows "\<exists>s'. send_loop buf p n None s = Some (True, s') \<and> taking m i s'"
proof -
  obtain r t rest where s: "sk_taken s = (r, t) # rest" "int m \<le> r"
    using assms(1) by (cases "sk_taken s") (auto simp: taking_def)
  let ?bytes = "take (nat n) (drop (nat p) buf)"
  have len: "length ?bytes = nat n" using assms(3-5) by simp
  have "min (nat r) (length ?bytes) = nat n" using s(2) assms(2) len by linarith
  then have w: "Socket_write ?bytes s = (n, t, s\<lparr>sk_taken := rest, sk_outbound := sk_outbound s @ ?bytes\<rparr>)"
    using s assms(4) len by (simp add: Socket_write_def Let_def del: length_take length_drop)
  have "rd_block buf p n = Some ?bytes" using assms(3-5) by (simp add: rd_block_def)
  then have "send_loop buf p n None s = Some (True, s\<lparr>sk_taken := rest, sk_outbound := sk_outbound s @ ?bytes\<rparr>)"
    using assms(4) w by (subst send_loop.simps) simp
  then show ?thesis using assms(1) s by (auto simp: taking_def)
qed

lemma send_loop_result:
  assumes "0 \<le> p" "0 \<le> n" "p + n \<le> int (length buf)"
  shows "\<exists>ok s' k. send_loop buf p n T s = Some (ok, s') \<and> k \<le> nat n \<and> (ok \<longrightarrow> k = nat n) \<and>
    sk_outbound s' = sk_outbound s @ take k (drop (nat p) buf) \<and>
    sk_inbound s' = sk_inbound s \<and> sk_ready s' = sk_ready s"
  using assms
proof (induction buf p n T s rule: send_loop.induct)
  case (1 buf p n T s)
  let ?bytes = "take (nat n) (drop (nat p) buf)"
  have rb: "rd_block buf p n = Some ?bytes" using "1.prems" by (simp add: rd_block_def)
  have len: "length ?bytes = nat n" using "1.prems" by simp
  obtain r now s' where w: "Socket_write ?bytes s = (r, now, s')" by (cases "Socket_write ?bytes s")
  show ?case
  proof (cases "r = - 1")
    case True
    then have s': "sk_outbound s' = sk_outbound s" "sk_inbound s' = sk_inbound s" "sk_ready s' = sk_ready s"
      using w by (auto simp: Socket_write_def Let_def split: list.splits if_splits)
    have "send_loop buf p n T s = Some (False, s')"
      using True rb w by (subst send_loop.simps) simp
    then show ?thesis using s' by (intro exI [of _ False] exI [of _ s'] exI [of _ 0]) auto
  next
    case False
    then have r: "0 \<le> r" "r \<le> n" and s': "sk_outbound s' = sk_outbound s @ take (nat r) ?bytes"
        "sk_inbound s' = sk_inbound s" "sk_ready s' = sk_ready s"
      using w len "1.prems"(2) by (auto simp: Socket_write_def Let_def min_def split: list.splits if_splits)
    have out: "sk_outbound s' = sk_outbound s @ take (nat r) (drop (nat p) buf)"
      using s'(1) r by (simp add: min_def)
    show ?thesis
    proof (cases "case T of None \<Rightarrow> False | Some deadline \<Rightarrow> now > deadline")
      case True
      then have "send_loop buf p n T s = Some (False, s')"
        using \<open>r \<noteq> - 1\<close> rb w by (subst send_loop.simps) simp
      then show ?thesis using s' out r by (intro exI [of _ False] exI [of _ s'] exI [of _ "nat r"]) auto
    next
      case late: False
      let ?T = "case T of None \<Rightarrow> Some (now + 200) | Some t \<Rightarrow> Some t"
      show ?thesis
      proof (cases "n - r > 0")
        case True
        have L: "send_loop buf p n T s = send_loop buf (p + r) (n - r) ?T s'"
          using \<open>r \<noteq> - 1\<close> late True rb w by (subst send_loop.simps) (simp add: Let_def)
        obtain ok s'' k where IH: "send_loop buf (p + r) (n - r) ?T s' = Some (ok, s'')" "k \<le> nat (n - r)"
          "ok \<longrightarrow> k = nat (n - r)" "sk_outbound s'' = sk_outbound s' @ take k (drop (nat (p + r)) buf)"
          "sk_inbound s'' = sk_inbound s'" "sk_ready s'' = sk_ready s'"
          using "1.IH" [OF rb w [symmetric] refl \<open>r \<noteq> - 1\<close> late refl refl refl] True "1.prems" r by auto
        have "sk_outbound s'' = sk_outbound s @ take (nat r + k) (drop (nat p) buf)"
          using IH(4) out r "1.prems"(1) by (simp add: take_add nat_add_distrib add.commute [of "nat p" "nat r"])
        then show ?thesis
          using L IH s' r by (intro exI [of _ ok] exI [of _ s''] exI [of _ "nat r + k"]) auto
      next
        case False
        then have "send_loop buf p n T s = Some (True, s')"
          using \<open>r \<noteq> - 1\<close> late rb w by (subst send_loop.simps) (simp add: Let_def)
        then show ?thesis
          using s' out r False by (intro exI [of _ True] exI [of _ s'] exI [of _ "nat r"]) auto
      qed
    qed
  qed
qed

definition write_ok :: "nat \<Rightarrow> CotpConnection \<Rightarrow> bool" where
  "write_ok n self \<longleftrightarrow> (\<exists>wb. cot_writeBuffer self = Some wb \<and> 0 \<le> bb_maxSize wb \<and> n \<le> length (bb_buffer wb))"

text \<open>Two connections that differ only in what has been written.\<close>

definition same_but_written :: "CotpConnection \<Rightarrow> CotpConnection \<Rightarrow> bool" where
  "same_but_written self self' \<longleftrightarrow>
     self' = self\<lparr>cot_writeBuffer := cot_writeBuffer self',
       cot_socket := (cot_socket self)\<lparr>sk_outbound := sk_outbound (cot_socket self'),
                                       sk_taken := sk_taken (cot_socket self')\<rparr>\<rparr>"

lemma same_but_written_refl [simp, intro]: "same_but_written self self"
  by (simp add: same_but_written_def)

lemma same_but_written_trans [trans]:
  "same_but_written a b \<Longrightarrow> same_but_written b c \<Longrightarrow> same_but_written a c"
  unfolding same_but_written_def
  by (cases a; cases b; cases c; cases "cot_socket a"; cases "cot_socket b"; cases "cot_socket c") simp

lemma same_but_written_fields:
  "same_but_written a b \<Longrightarrow> cot_options b = cot_options a \<and> cot_localRef b = cot_localRef a \<and>
   cot_remoteRef b = cot_remoteRef a \<and> cot_readBuffer b = cot_readBuffer a \<and> cot_payload b = cot_payload a"
  unfolding same_but_written_def by (metis CotpConnection.select_convs CotpConnection.update_convs CotpConnection.surjective)

lemma write_at_result:
  assumes "cot_writeBuffer self = Some wb" "p + length bs \<le> length (bb_buffer wb)"
  shows "write_at self p bs =
    Some (self\<lparr>cot_writeBuffer := Some (wb\<lparr>bb_buffer := splice (bb_buffer wb) p bs, bb_size := int (p + length bs)\<rparr>)\<rparr>)"
  using assms by (simp add: write_at_def puts_eq)

lemma sendBuffer_result:
  assumes "cot_writeBuffer self = Some wb" "0 \<le> bb_size wb" "bb_size wb \<le> int (length (bb_buffer wb))"
    "0 \<le> bb_maxSize wb"
  shows "\<exists>ok self' k. sendBuffer self = Some (ok, self') \<and> same_but_written self self' \<and>
    sk_outbound (cot_socket self') = sk_outbound (cot_socket self) @ take k (buffer_content wb) \<and>
    k \<le> nat (bb_size wb) \<and> (ok \<longrightarrow> k = nat (bb_size wb)) \<and>
    cot_writeBuffer self' = Some (if ok then wb\<lparr>bb_size := 0\<rparr> else wb) \<and>
    (\<forall>m i. taking m (Suc i) (cot_socket self) \<and> nat (bb_size wb) \<le> m \<longrightarrow> ok \<and> taking m i (cot_socket self'))"
proof -
  obtain ok s' k where L: "send_loop (bb_buffer wb) 0 (bb_size wb) None (cot_socket self) = Some (ok, s')"
      "k \<le> nat (bb_size wb)" "ok \<longrightarrow> k = nat (bb_size wb)"
      "sk_outbound s' = sk_outbound (cot_socket self) @ take k (bb_buffer wb)"
      "sk_inbound s' = sk_inbound (cot_socket self)" "sk_ready s' = sk_ready (cot_socket self)"
    using send_loop_result [of 0 "bb_size wb" "bb_buffer wb" None "cot_socket self"] assms by auto
  have s': "s' = (cot_socket self)\<lparr>sk_outbound := sk_outbound s', sk_taken := sk_taken s'\<rparr>"
    using L(5,6) by (cases s'; cases "cot_socket self") simp
  have tk: "take k (bb_buffer wb) = take k (buffer_content wb)"
    using L(2) by (simp add: buffer_content_def min_def)
  have T: "ok \<and> taking m i s'" if "taking m (Suc i) (cot_socket self)" "nat (bb_size wb) \<le> m" for m i
    using send_loop_taking [OF that, of 0 "bb_buffer wb"] assms L(1) by auto
  show ?thesis
    using L(1-4) assms s' tk T
    by (intro exI [of _ ok] exI [of _ k]
          exI [of _ "if ok then self\<lparr>cot_socket := s', cot_writeBuffer := Some (wb\<lparr>bb_size := 0\<rparr>)\<rparr>
                     else self\<lparr>cot_socket := s'\<rparr>"])
      (auto simp: sendBuffer_def ByteBuffer_getBuffer_def ByteBuffer_getSize_def ByteBuffer_setSize_def
         same_but_written_def)
qed

text \<open>\<open>sendBuffer\<close> after a block was assembled: \<open>buffer_content\<close> is the block.\<close>

definition assembled :: "CotpConnection \<Rightarrow> u8 list \<Rightarrow> bool" where
  "assembled self bs \<longleftrightarrow> (\<exists>wb. cot_writeBuffer self = Some wb \<and> 0 \<le> bb_maxSize wb \<and>
     bb_size wb = int (length bs) \<and> length bs \<le> length (bb_buffer wb) \<and> buffer_content wb = bs)"

lemma sendBuffer_assembled:
  assumes "assembled self bs" "write_ok n self"
  obtains ok self' k where "sendBuffer self = Some (ok, self')" "same_but_written self self'" "write_ok n self'"
    "sk_outbound (cot_socket self') = sk_outbound (cot_socket self) @ take k bs"
    "k \<le> length bs" "ok \<longrightarrow> k = length bs"
    "\<And>m i. taking m (Suc i) (cot_socket self) \<Longrightarrow> length bs \<le> m \<Longrightarrow> ok \<and> taking m i (cot_socket self')"
proof -
  obtain wb where wb: "cot_writeBuffer self = Some wb" "0 \<le> bb_maxSize wb"
     "bb_size wb = int (length bs)" "length bs \<le> length (bb_buffer wb)" "buffer_content wb = bs"
    using assms(1) unfolding assembled_def by blast
  then obtain ok self' k where r: "sendBuffer self = Some (ok, self')" "same_but_written self self'"
    "sk_outbound (cot_socket self') = sk_outbound (cot_socket self) @ take k bs"
    "k \<le> length bs" "ok \<longrightarrow> k = length bs" "cot_writeBuffer self' = Some (if ok then wb\<lparr>bb_size := 0\<rparr> else wb)"
    "\<forall>m i. taking m (Suc i) (cot_socket self) \<and> length bs \<le> m \<longrightarrow> ok \<and> taking m i (cot_socket self')"
    using sendBuffer_result [of self wb] by auto
  moreover have "write_ok n self'" using assms(2) wb(1) r(6) by (auto simp: write_ok_def)
  ultimately show ?thesis using that by blast
qed

section \<open>Fragments\<close>

lemma sdiv_nonneg: "0 \<le> a \<Longrightarrow> 0 < b \<Longrightarrow> a sdiv b = a div b" for a b :: int
  by (auto simp: signed_divide_int_def sgn_if)

lemma smod_nonneg: "0 \<le> a \<Longrightarrow> 0 < b \<Longrightarrow> a smod b = a mod b" for a b :: int
  by (auto simp: signed_modulo_int_def sgn_if)

text \<open>The bytes of a chain that follow position \<open>idx\<close> of its first part.\<close>

fun chain_rest :: "BufferChain \<Rightarrow> int \<Rightarrow> u8 list" where
  "chain_rest [] idx = []"
| "chain_rest (p # ps) idx = drop (nat idx) (part_bytes p) @ chain_bytes ps"

fun chain_at :: "BufferChain \<Rightarrow> int \<Rightarrow> bool" where
  "chain_at [] idx \<longleftrightarrow> False"
| "chain_at (p # ps) idx \<longleftrightarrow>
     0 \<le> idx \<and> idx \<le> bc_partLength p \<and> bc_partLength p \<le> int (length (bc_buffer p)) \<and>
     (ps \<noteq> [] \<longrightarrow> chain_ok ps \<and> 0 < bc_partLength (hd ps))"

lemma chain_ok_at: "chain_ok ch \<Longrightarrow> chain_at ch 0 \<and> chain_rest ch 0 = chain_bytes ch"
  by (cases ch) auto

lemma copy_step:
  assumes "chain_at (p # ps) idx" "idx < bc_partLength p" "pos < length buf"
  shows "rdi (bc_buffer p) idx = Some (hd (chain_rest (p # ps) idx))"
    "chain_at (p # ps) (idx + 1)" "chain_rest (p # ps) (idx + 1) = tl (chain_rest (p # ps) idx)"
proof -
  have i: "nat idx < length (part_bytes p)" "nat idx < length (bc_buffer p)" "nat (idx + 1) = Suc (nat idx)"
    using assms by (auto simp: part_bytes_def)
  then have d: "drop (nat idx) (part_bytes p) = part_bytes p ! nat idx # drop (Suc (nat idx)) (part_bytes p)"
    by (simp add: Cons_nth_drop_Suc)
  have "part_bytes p ! nat idx = bc_buffer p ! nat idx"
    using assms by (simp add: part_bytes_def)
  then show "rdi (bc_buffer p) idx = Some (hd (chain_rest (p # ps) idx))"
    using d i assms by (simp add: rdi_def rd_def)
  show "chain_at (p # ps) (idx + 1)" using assms by auto
  show "chain_rest (p # ps) (idx + 1) = tl (chain_rest (p # ps) idx)"
    using d i by simp
qed

lemma copy_chain_result:
  assumes "chain_at ch idx" "k \<le> length (chain_rest ch idx)" "pos + k \<le> length buf"
  shows "\<exists>ch' idx'. copy_chain k ch idx (buf, pos) =
      Some (ch', idx', splice buf pos (take k (chain_rest ch idx)), pos + k) \<and>
    chain_at ch' idx' \<and> chain_rest ch' idx' = drop k (chain_rest ch idx)"
  using assms
proof (induction k arbitrary: ch idx buf pos)
  case 0
  then show ?case by (simp add: buf_simps)
next
  case (Suc k)
  have step: ?case
    if c: "chain_at (q # qs) i" "i < bc_partLength q" "chain_rest (q # qs) i = chain_rest ch idx"
      and e: "copy_chain (Suc k) ch idx (buf, pos) = do {
          b \<leftarrow> rdi (bc_buffer q) i; c \<leftarrow> put b (buf, pos); copy_chain k (q # qs) (i + 1) c }" for q qs i
  proof -
    have pos: "pos < length buf" using Suc.prems by simp
    note s = copy_step [OF c(1,2) pos]
    let ?b = "hd (chain_rest (q # qs) i)"
    have ne: "chain_rest ch idx = ?b # tl (chain_rest ch idx)"
      using Suc.prems(2) c(3) by (cases "chain_rest ch idx") auto
    have "k \<le> length (chain_rest (q # qs) (i + 1))" using s(3) Suc.prems(2) c(3) by simp
    then obtain ch' idx' where IH: "copy_chain k (q # qs) (i + 1) (buf[pos := ?b], Suc pos) =
        Some (ch', idx', splice (buf[pos := ?b]) (Suc pos) (take k (chain_rest (q # qs) (i + 1))), Suc pos + k)"
      "chain_at ch' idx'" "chain_rest ch' idx' = drop k (chain_rest (q # qs) (i + 1))"
      using Suc.IH [OF s(2), of "Suc pos" "buf[pos := ?b]"] Suc.prems(3) by auto
    have "take (Suc k) (chain_rest ch idx) = ?b # take k (chain_rest (q # qs) (i + 1))"
      "drop (Suc k) (chain_rest ch idx) = drop k (chain_rest (q # qs) (i + 1))"
      using ne s(3) c(3) by (metis take_Suc_Cons, metis drop_Suc)
    then show ?thesis
      using IH e s(1) pos by (auto simp: put_def splice_Cons)
  qed
  obtain p ps where ch: "ch = p # ps" using Suc.prems(1) by (cases ch) auto
  show ?case
  proof (cases "idx \<ge> bc_partLength p")
    case False
    then show ?thesis using step [of p ps idx] Suc.prems(1) ch by simp
  next
    case True
    then have "idx = bc_partLength p" using Suc.prems(1) ch by simp
    then have "drop (nat idx) (part_bytes p) = []" by (simp add: part_bytes_def)
    then have r: "chain_rest ch idx = chain_bytes ps" using ch by simp
    then obtain q qs where ps: "ps = q # qs" using Suc.prems(2) by (cases ps) auto
    have "chain_at (q # qs) 0" "0 < bc_partLength q" "chain_rest (q # qs) 0 = chain_bytes ps"
      using Suc.prems(1) ch ps chain_ok_at [of ps] by auto
    then show ?thesis using step [of q qs 0] True ch ps r by simp
  qed
qed

text \<open>The message cut into pieces of \<open>n\<close> bytes; an empty message is one empty piece.\<close>

function chop :: "nat \<Rightarrow> 'a list \<Rightarrow> 'a list list" where
  "chop n xs = (if n = 0 \<or> length xs \<le> n then [xs] else take n xs # chop n (drop n xs))"
  by auto

termination
  by (relation "measure (\<lambda>(n, xs). length xs)") auto

declare chop.simps [simp del]

lemma chop_short: "length xs \<le> n \<Longrightarrow> chop n xs = [xs]"
  by (subst chop.simps) simp

lemma chop_long: "0 < n \<Longrightarrow> n < length xs \<Longrightarrow> chop n xs = take n xs # chop n (drop n xs)"
  by (subst chop.simps) simp

lemma chop_nonempty [simp]: "chop n xs \<noteq> []"
  by (subst chop.simps) simp

lemma concat_chop: "concat (chop n xs) = xs"
  by (induction n xs rule: chop.induct) (subst chop.simps, simp)

lemma chop_pieces: "0 < n \<Longrightarrow> p \<in> set (chop n xs) \<Longrightarrow> length p \<le> n"
proof (induction n xs rule: chop.induct)
  case (1 n xs)
  then show ?case
    by (cases "length xs \<le> n") (auto simp: chop_short chop_long)
qed

text \<open>The number of pieces, as \<open>CotpConnection_sendDataMessage\<close> computes it.\<close>

lemma length_chop:
  assumes "0 < n" "xs \<noteq> []"
  shows "int (length (chop n xs)) =
    int (length xs) div int n + (if int (length xs) mod int n \<noteq> 0 then 1 else 0)"
  using assms
proof (induction n xs rule: chop.induct)
  case (1 n xs)
  show ?case
  proof (cases "length xs \<le> n")
    case True
    show ?thesis
    proof (cases "length xs = n")
      case True
      then show ?thesis using "1.prems" by (simp add: chop_short)
    next
      case False
      then have "length xs < n" using True by simp
      then have "int (length xs) div int n = 0" "int (length xs) mod int n = int (length xs)"
        by (simp_all add: div_pos_pos_trivial mod_pos_pos_trivial)
      then show ?thesis using True "1.prems" by (simp add: chop_short)
    qed
  next
    case False
    then have ne: "drop n xs \<noteq> []" and len: "length xs = length (drop n xs) + n" by auto
    have "int (length xs) div int n = int (length (drop n xs)) div int n + 1"
      "int (length xs) mod int n = int (length (drop n xs)) mod int n"
      unfolding len using "1.prems" div_add_self2 [of "int n" "int (length (drop n xs))"] by simp_all
    then show ?thesis
      using False "1.IH" [OF _ "1.prems"(1) ne] "1.prems" by (simp add: chop_long)
  qed
qed

text \<open>The packets on the wire.\<close>

definition dt_header :: "bool \<Rightarrow> nat \<Rightarrow> u8 list" where
  "dt_header eot n = [0x03, 0x00, hi_byte (7 + int n), lo_byte (7 + int n), 0x02, 0xf0, if eot then 0x80 else 0x00]"

definition dt_packet :: "bool \<Rightarrow> u8 list \<Rightarrow> u8 list" where
  "dt_packet eot bs = dt_header eot (length bs) @ bs"

fun dt_stream :: "u8 list list \<Rightarrow> u8 list" where
  "dt_stream [] = []"
| "dt_stream [f] = dt_packet True f"
| "dt_stream (f # fs) = dt_packet False f @ dt_stream fs"

lemma length_dt_header [simp]: "length (dt_header eot n) = 7"
  by (simp add: dt_header_def)

lemma length_dt_packet: "length (dt_packet eot bs) = 7 + length bs"
  by (simp add: dt_packet_def)

lemma dt_stream_Cons: "fs \<noteq> [] \<Longrightarrow> dt_stream (f # fs) = dt_packet False f @ dt_stream fs"
  by (cases fs) auto

lemma fragment_assembled:
  assumes "chain_at ch idx" "c \<le> length (chain_rest ch idx)" "write_ok (7 + F) self" "c \<le> F"
  obtains s1 s2 wb ch' idx' buf where
    "writeRfc1006Header self (7 + int c) = Some s1" "writeDataTpduHeader s1 eot = Some s2"
    "cot_writeBuffer s2 = Some wb" "copy_chain c ch idx (bb_buffer wb, 7) = Some (ch', idx', buf, 7 + c)"
    "chain_at ch' idx'" "chain_rest ch' idx' = drop c (chain_rest ch idx)"
    "cot_socket s2 = cot_socket self"
    "same_but_written self (s2\<lparr>cot_writeBuffer := Some (wb\<lparr>bb_buffer := buf, bb_size := int (7 + c)\<rparr>)\<rparr>)"
    "write_ok (7 + F) (s2\<lparr>cot_writeBuffer := Some (wb\<lparr>bb_buffer := buf, bb_size := int (7 + c)\<rparr>)\<rparr>)"
    "assembled (s2\<lparr>cot_writeBuffer := Some (wb\<lparr>bb_buffer := buf, bb_size := int (7 + c)\<rparr>)\<rparr>)
       (dt_packet eot (take c (chain_rest ch idx)))"
proof -
  obtain w where w: "cot_writeBuffer self = Some w" "0 \<le> bb_maxSize w" "7 + F \<le> length (bb_buffer w)"
    using assms(3) unfolding write_ok_def by blast
  let ?h = "dt_header eot c" and ?bs = "take c (chain_rest ch idx)"
  let ?s1 = "self\<lparr>cot_writeBuffer := Some (w\<lparr>bb_buffer := splice (bb_buffer w) 0 (take 4 ?h), bb_size := 4\<rparr>)\<rparr>"
  let ?w = "w\<lparr>bb_buffer := splice (bb_buffer w) 0 ?h, bb_size := 7\<rparr>"
  have sp: "splice (splice (bb_buffer w) 0 (take 4 ?h)) 4 (drop 4 ?h) = splice (bb_buffer w) 0 ?h"
    using w(3) splice_append [of 0 "take 4 ?h" "bb_buffer w" "drop 4 ?h"] by simp
  have 1: "writeRfc1006Header self (7 + int c) = Some ?s1"
    using w by (simp add: writeRfc1006Header_def write_at_result dt_header_def)
  have "length (splice (bb_buffer w) 0 (take 4 ?h)) = length (bb_buffer w)"
    using w(3) by (simp add: length_splice)
  then have 2: "writeDataTpduHeader ?s1 eot = Some (self\<lparr>cot_writeBuffer := Some ?w\<rparr>)"
    using w(3) sp by (simp add: writeDataTpduHeader_def write_at_result dt_header_def)
  have lw: "length (splice (bb_buffer w) 0 ?h) = length (bb_buffer w)"
    using w(3) by (simp add: length_splice)
  obtain ch' idx' where C: "copy_chain c ch idx (bb_buffer ?w, 7) =
      Some (ch', idx', splice (splice (bb_buffer w) 0 ?h) 7 ?bs, 7 + c)"
    "chain_at ch' idx'" "chain_rest ch' idx' = drop c (chain_rest ch idx)"
    using copy_chain_result [OF assms(1,2), of 7 "bb_buffer ?w"] w(3) lw assms(4) by auto
  have len: "length ?bs = c" using assms(2) by simp
  have buf: "splice (splice (bb_buffer w) 0 ?h) 7 ?bs = splice (bb_buffer w) 0 (?h @ ?bs)"
    using w(3) splice_append [of 0 ?h "bb_buffer w" ?bs] by simp
  have fit: "length (?h @ ?bs) \<le> length (bb_buffer w)" using len w(3) assms(4) by simp
  then have lb: "length (splice (bb_buffer w) 0 (?h @ ?bs)) = length (bb_buffer w)"
    by (intro length_splice) simp
  have "take (7 + c) (splice (bb_buffer w) 0 (?h @ ?bs)) = ?h @ ?bs"
    using splice_read [of 0 "?h @ ?bs" "bb_buffer w"] fit len by simp
  then show ?thesis
    using that [OF 1 2] C buf w lb len fit assms(4)
    by (simp add: same_but_written_def write_ok_def assembled_def buffer_content_def dt_packet_def nat_add_distrib)
qed

lemma send_fragments_result:
  assumes "0 < F" "length (chop F (chain_rest ch idx)) = m" "chain_at ch idx"
    "len = cur + int (length (chain_rest ch idx))" "write_ok (7 + F) self"
  shows "\<exists>r self' k. send_fragments m (int F) len cur ch idx self = Some (r, self') \<and>
    same_but_written self self' \<and> write_ok (7 + F) self' \<and>
    sk_outbound (cot_socket self') =
      sk_outbound (cot_socket self) @ take k (dt_stream (chop F (chain_rest ch idx))) \<and>
    (r = COTP_OK \<and> k = length (dt_stream (chop F (chain_rest ch idx))) \<or> r = COTP_ERROR) \<and>
    (taking (7 + F) m (cot_socket self) \<longrightarrow> r = COTP_OK)"
  using assms
proof (induction m arbitrary: ch idx cur self)
  case 0
  then show ?case by simp
next
  case (Suc m)
  let ?rest = "chain_rest ch idx"
  define eot where "eot = (length ?rest \<le> F)"
  define c where "c = (if eot then length ?rest else F)"
  have chop: "chop F ?rest = (if eot then [?rest] else take F ?rest # chop F (drop F ?rest))"
    using Suc.prems(1) by (auto simp: eot_def chop_short chop_long)
  have m: "m = 0 \<longleftrightarrow> eot" "\<not> eot \<Longrightarrow> length (chop F (drop F ?rest)) = m"
    using Suc.prems(2) chop chop_nonempty [of F "drop F ?rest"] by (auto split: if_splits)
  have c: "c \<le> length ?rest" "c \<le> F" by (auto simp: c_def eot_def)
  have stream: "dt_stream (chop F ?rest) = dt_packet eot (take c ?rest) @
      (if eot then [] else dt_stream (chop F (drop F ?rest)))"
    using chop by (auto simp: c_def dt_stream_Cons)
  have lim: "(if Suc m > 1 then (cur + int F, False) else (len, True)) = (cur + int c, eot)"
    using m(1) Suc.prems(4) by (auto simp: c_def)
  obtain s1 s2 wb ch' idx' buf where f:
    "writeRfc1006Header self (7 + int c) = Some s1" "writeDataTpduHeader s1 eot = Some s2"
    "cot_writeBuffer s2 = Some wb" "copy_chain c ch idx (bb_buffer wb, 7) = Some (ch', idx', buf, 7 + c)"
    "chain_at ch' idx'" "chain_rest ch' idx' = drop c ?rest" "cot_socket s2 = cot_socket self"
    "same_but_written self (s2\<lparr>cot_writeBuffer := Some (wb\<lparr>bb_buffer := buf, bb_size := int (7 + c)\<rparr>)\<rparr>)"
    "write_ok (7 + F) (s2\<lparr>cot_writeBuffer := Some (wb\<lparr>bb_buffer := buf, bb_size := int (7 + c)\<rparr>)\<rparr>)"
    "assembled (s2\<lparr>cot_writeBuffer := Some (wb\<lparr>bb_buffer := buf, bb_size := int (7 + c)\<rparr>)\<rparr>)
       (dt_packet eot (take c ?rest))"
    using fragment_assembled [OF Suc.prems(3) c(1) Suc.prems(5) c(2), of eot] by blast
  let ?s3 = "s2\<lparr>cot_writeBuffer := Some (wb\<lparr>bb_buffer := buf, bb_size := int (7 + c)\<rparr>)\<rparr>"
  obtain ok s4 k where s: "sendBuffer ?s3 = Some (ok, s4)" "same_but_written ?s3 s4" "write_ok (7 + F) s4"
    "sk_outbound (cot_socket s4) = sk_outbound (cot_socket ?s3) @ take k (dt_packet eot (take c ?rest))"
    "k \<le> length (dt_packet eot (take c ?rest))" "ok \<longrightarrow> k = length (dt_packet eot (take c ?rest))"
    "\<And>m i. taking m (Suc i) (cot_socket ?s3) \<Longrightarrow> length (dt_packet eot (take c ?rest)) \<le> m \<Longrightarrow>
       ok \<and> taking m i (cot_socket s4)"
    using sendBuffer_assembled [OF f(10,9)] by blast
  have T: "ok \<and> taking (7 + F) m (cot_socket s4)" if "taking (7 + F) (Suc m) (cot_socket self)"
    using s(7) [of "7 + F" m] that f(7) c by (simp add: length_dt_packet)
  have S: "send_fragments (Suc m) (int F) len cur ch idx self =
      (if \<not> ok then Some (COTP_ERROR, s4)
       else send_fragments m (int F) len (cur + int c) ch' idx' s4)"
    using f(1-4) s(1) by (simp only: send_fragments.simps lim Let_def prod.case) simp
  have same: "same_but_written self s4" using f(8) s(2) by (rule same_but_written_trans)
  show ?case
  proof (cases ok)
    case False
    then show ?thesis
      using S same s(3-5) f(7) stream T
      by (intro exI [of _ COTP_ERROR] exI [of _ s4] exI [of _ k]) auto
  next
    case ok: True
    show ?thesis
    proof (cases eot)
      case True
      then have "send_fragments m (int F) len (cur + int c) ch' idx' s4 = Some (COTP_OK, s4)"
        using m(1) by simp
      then show ?thesis
        using S ok same s(3,4,6) f(7) stream True
        by (intro exI [of _ COTP_OK] exI [of _ s4] exI [of _ "length (dt_packet eot (take c ?rest))"]) auto
    next
      case False
      then have r: "chain_rest ch' idx' = drop F ?rest" "c = F" using f(6) by (auto simp: c_def)
      have "len = cur + int c + int (length (chain_rest ch' idx'))"
        using Suc.prems(4) c(1) f(6) by simp
      then obtain r' s5 j where IH: "send_fragments m (int F) len (cur + int c) ch' idx' s4 = Some (r', s5)"
        "same_but_written s4 s5" "write_ok (7 + F) s5"
        "sk_outbound (cot_socket s5) = sk_outbound (cot_socket s4) @ take j (dt_stream (chop F (chain_rest ch' idx')))"
        "r' = COTP_OK \<and> j = length (dt_stream (chop F (chain_rest ch' idx'))) \<or> r' = COTP_ERROR"
        "taking (7 + F) m (cot_socket s4) \<longrightarrow> r' = COTP_OK"
        using Suc.IH [of ch' idx' "cur + int c" s4] Suc.prems(1) m(2) [OF False] f(5) r s(3) by auto
      show ?thesis
        using S ok IH same_but_written_trans [OF same IH(2)] s(4,6) f(7) stream False r T
        by (intro exI [of _ r'] exI [of _ s5]
             exI [of _ "length (dt_packet eot (take c ?rest)) + j"]) auto
    qed
  qed
qed

section \<open>What is received\<close>

text \<open>
  A well-formed TPKT packet with at least one byte of content, and a reader that has its first
  \<open>k\<close> bytes while the others, and after them \<open>rest\<close>, are still in the network.
\<close>

definition tpkt :: "u8 list \<Rightarrow> bool" where
  "tpkt pkt \<longleftrightarrow> 5 \<le> length pkt \<and> pkt ! 0 = 3 \<and> pkt ! 1 = 0 \<and>
     uint (pkt ! 2) * 256 + uint (pkt ! 3) = int (length pkt)"

definition partly_read :: "nat \<Rightarrow> u8 list \<Rightarrow> u8 list \<Rightarrow> CotpConnection \<Rightarrow> bool" where
  "partly_read k pkt rest self \<longleftrightarrow> k < length pkt \<and>
     int (length pkt) \<le> bb_maxSize (cot_readBuffer self) \<and>
     bb_maxSize (cot_readBuffer self) \<le> int (length (bb_buffer (cot_readBuffer self))) \<and>
     take k (bb_buffer (cot_readBuffer self)) = take k pkt \<and>
     sk_inbound (cot_socket self) = drop k pkt @ rest \<and>
     (4 \<le> k \<longrightarrow> uint (cot_packetSize self) = int (length pkt)) \<and>
     (\<forall>r \<in> set (sk_ready (cot_socket self)). 0 \<le> r)"

definition receiving :: "nat \<Rightarrow> u8 list \<Rightarrow> u8 list \<Rightarrow> CotpConnection \<Rightarrow> bool" where
  "receiving k pkt rest self \<longleftrightarrow> partly_read k pkt rest self \<and> bb_size (cot_readBuffer self) = int k"

definition received :: "u8 list \<Rightarrow> u8 list \<Rightarrow> CotpConnection \<Rightarrow> bool" where
  "received pkt rest self \<longleftrightarrow> bb_size (cot_readBuffer self) = int (length pkt) \<and>
     length pkt \<le> length (bb_buffer (cot_readBuffer self)) \<and>
     take (length pkt) (bb_buffer (cot_readBuffer self)) = pkt \<and>
     sk_inbound (cot_socket self) = rest"

definition read_frame :: "nat \<Rightarrow> CotpConnection \<Rightarrow> CotpConnection \<Rightarrow> bool" where
  "read_frame d self self' \<longleftrightarrow>
     self' = self\<lparr>cot_readBuffer := cot_readBuffer self', cot_packetSize := cot_packetSize self',
       cot_socket := (cot_socket self)\<lparr>sk_inbound := sk_inbound (cot_socket self'),
                                       sk_ready := drop d (sk_ready (cot_socket self))\<rparr>\<rparr> \<and>
     bb_maxSize (cot_readBuffer self') = bb_maxSize (cot_readBuffer self) \<and>
     length (bb_buffer (cot_readBuffer self')) = length (bb_buffer (cot_readBuffer self))"

lemma read_frame_ready: "read_frame d a b \<Longrightarrow> sk_ready (cot_socket b) = drop d (sk_ready (cot_socket a))"
  unfolding read_frame_def by (elim conjE) (erule ssubst, simp)

lemma read_frame_trans:
  "read_frame d a b \<Longrightarrow> read_frame e b c \<Longrightarrow> read_frame (d + e) a c"
  unfolding read_frame_def
  by (cases a; cases b; cases c; cases "cot_socket a"; cases "cot_socket b"; cases "cot_socket c")
    (simp add: add.commute)

text \<open>The network may have made \<open>d\<close> reads wait or not.\<close>

definition progress :: "CotpConnection \<Rightarrow> bool" where
  "progress self \<longleftrightarrow> 2 \<le> length (sk_ready (cot_socket self)) \<and> (\<forall>r \<in> set (sk_ready (cot_socket self)). 0 < r)"

lemma progress_hd: "progress self \<Longrightarrow> sk_ready (cot_socket self) \<noteq> [] \<and> 0 < hd (sk_ready (cot_socket self))"
  unfolding progress_def by (cases "sk_ready (cot_socket self)") auto

lemma readFromSocket_result:
  assumes "0 < n" "p + n \<le> length (bb_buffer (cot_readBuffer self))"
    "sk_inbound (cot_socket self) = xs @ rest" "length xs = n" "\<forall>r \<in> set (sk_ready (cot_socket self)). 0 \<le> r"
  obtains j where "readFromSocket self (int p) (int n) = Some (int j,
      self\<lparr>cot_socket := (cot_socket self)\<lparr>sk_inbound := drop j xs @ rest, sk_ready := tl (sk_ready (cot_socket self))\<rparr>,
           cot_readBuffer := (cot_readBuffer self)\<lparr>bb_buffer := splice (bb_buffer (cot_readBuffer self)) p (take j xs)\<rparr>\<rparr>)"
    "j \<le> n" "sk_ready (cot_socket self) \<noteq> [] \<and> 0 < hd (sk_ready (cot_socket self)) \<longrightarrow> 0 < j"
proof (cases "sk_ready (cot_socket self)")
  case Nil
  have s: "cot_socket self\<lparr>sk_inbound := xs @ rest, sk_ready := []\<rparr> = cot_socket self"
    using Nil assms(3) by (cases "cot_socket self") simp
  have "readFromSocket self (int p) (int n) = Some (int 0,
      self\<lparr>cot_socket := (cot_socket self)\<lparr>sk_inbound := drop 0 xs @ rest, sk_ready := []\<rparr>,
           cot_readBuffer := (cot_readBuffer self)\<lparr>bb_buffer := splice (bb_buffer (cot_readBuffer self)) p (take 0 xs)\<rparr>\<rparr>)"
    using assms(1-3) Nil s by (simp add: readFromSocket_def Socket_read_def rd_block_def wr_block_def Let_def)
  then show ?thesis using that [of 0] Nil by simp
next
  case (Cons r rs)
  define j where "j = nat (min r (int n))"
  have r: "0 \<le> r" using assms(5) Cons by simp
  have j: "j \<le> n" "0 < r \<longrightarrow> 0 < j" using assms(1) by (auto simp: j_def)
  have tk: "take j (xs @ rest) = take j xs" "drop j (xs @ rest) = drop j xs @ rest" "min (length xs) j = j"
    using j assms(4) by auto
  have "readFromSocket self (int p) (int n) = Some (int j,
      self\<lparr>cot_socket := (cot_socket self)\<lparr>sk_inbound := drop j xs @ rest, sk_ready := rs\<rparr>,
           cot_readBuffer := (cot_readBuffer self)\<lparr>bb_buffer := splice (bb_buffer (cot_readBuffer self)) p (take j xs)\<rparr>\<rparr>)"
    using assms(1,2,3,4) Cons r j tk
    by (simp add: readFromSocket_def Socket_read_def rd_block_def wr_block_def Let_def j_def [symmetric])
  then show ?thesis using that [of j] Cons j by simp
qed

lemma splice_take:
  assumes "take k buf = take k pkt" "k + j \<le> length pkt" "length pkt \<le> length buf"
  shows "take (k + j) (splice buf k (take j (drop k pkt))) = take (k + j) pkt"
proof -
  have "length (take k buf @ take j (drop k pkt)) = k + j" using assms by simp
  then have "take (k + j) (splice buf k (take j (drop k pkt))) = take k buf @ take j (drop k pkt)"
    unfolding splice_def by (metis append_assoc append_eq_conv_conj)
  then show ?thesis using assms(1) by (simp add: take_add)
qed

text \<open>Reading on in a packet whose header is complete.\<close>

lemma read_tpkt_body_result:
  assumes "partly_read k pkt rest self" "4 \<le> k"
  shows "\<exists>st self'. read_tpkt_body self (int k) = Some (st, self') \<and> read_frame 1 self self' \<and>
    (st = TPKT_PACKET_COMPLETE \<and> received pkt rest self' \<or>
     st = TPKT_WAITING \<and> (\<exists>k'. receiving k' pkt rest self' \<and> k \<le> k' \<and>
       (sk_ready (cot_socket self) \<noteq> [] \<and> 0 < hd (sk_ready (cot_socket self)) \<longrightarrow> k < k')))"
proof -
  note P = assms(1) [unfolded partly_read_def]
  let ?n = "length pkt - k" and ?ready = "sk_ready (cot_socket self)"
  have n: "uint (cot_packetSize self) = int (length pkt)" "uint (cot_packetSize self) - int k = int ?n"
    using P assms(2) by auto
  obtain j where j: "readFromSocket self (int k) (int ?n) = Some (int j,
      self\<lparr>cot_socket := (cot_socket self)\<lparr>sk_inbound := drop j (drop k pkt) @ rest, sk_ready := tl ?ready\<rparr>,
           cot_readBuffer := (cot_readBuffer self)\<lparr>bb_buffer := splice (bb_buffer (cot_readBuffer self)) k (take j (drop k pkt))\<rparr>\<rparr>)"
    "j \<le> ?n" "?ready \<noteq> [] \<and> 0 < hd ?ready \<longrightarrow> 0 < j"
    using readFromSocket_result [of ?n k self "drop k pkt" rest] P by auto
  let ?s = "self\<lparr>cot_socket := (cot_socket self)\<lparr>sk_inbound := drop j (drop k pkt) @ rest, sk_ready := tl ?ready\<rparr>,
           cot_readBuffer := (cot_readBuffer self)\<lparr>bb_buffer := splice (bb_buffer (cot_readBuffer self)) k (take j (drop k pkt)), bb_size := int (k + j)\<rparr>\<rparr>"
  have t: "take (k + j) (splice (bb_buffer (cot_readBuffer self)) k (take j (drop k pkt))) = take (k + j) pkt"
    using splice_take [of k "bb_buffer (cot_readBuffer self)" pkt j] P j(2) by auto
  have l: "length (splice (bb_buffer (cot_readBuffer self)) k (take j (drop k pkt))) = length (bb_buffer (cot_readBuffer self))"
    using P j(2) by (intro length_splice) auto
  have ready: "\<forall>r \<in> set (tl ?ready). 0 \<le> r"
    using P by (cases ?ready) auto
  have B: "read_tpkt_body self (int k) =
      Some (if k + j < length pkt then TPKT_WAITING else TPKT_PACKET_COMPLETE, ?s)"
    unfolding read_tpkt_body_def n(2) j(1) by (simp add: n(1) set_read_size_def)
  have F: "read_frame 1 self ?s" using l by (simp add: read_frame_def drop_Suc)
  show ?thesis
  proof (cases "k + j < length pkt")
    case True
    have "receiving (k + j) pkt rest ?s"
      using P True t l ready n by (simp add: receiving_def partly_read_def add.commute)
    moreover have "k \<le> k + j \<and> (?ready \<noteq> [] \<and> 0 < hd ?ready \<longrightarrow> k < k + j)" using j(3) by simp
    moreover have "read_tpkt_body self (int k) = Some (TPKT_WAITING, ?s)" using B True by simp
    ultimately show ?thesis using F by blast
  next
    case False
    then have kj: "k + j = length pkt" using j(2) P by linarith
    have "received pkt rest ?s"
      using P kj t l by (auto simp: received_def)
    moreover have "read_tpkt_body self (int k) = Some (TPKT_PACKET_COMPLETE, ?s)" using B False by simp
    ultimately show ?thesis using F by blast
  qed
qed

text \<open>
  One call of \<open>CotpConnection_readToTpktBuffer\<close>: the packet is complete and nothing behind it
  was taken from the network, or the reader waits for the rest of it. When every read finds
  something it has got on.
\<close>

lemma readToTpktBuffer_result:
  assumes "receiving k pkt rest self" "tpkt pkt"
  shows "\<exists>st self' d. CotpConnection_readToTpktBuffer self = Some (st, self') \<and> d \<le> 2 \<and> read_frame d self self' \<and>
    (st = TPKT_PACKET_COMPLETE \<and> received pkt rest self' \<or>
     st = TPKT_WAITING \<and> (\<exists>k'. receiving k' pkt rest self' \<and> k \<le> k' \<and> (progress self \<longrightarrow> k < k')))"
proof -
  have P: "partly_read k pkt rest self" "bb_size (cot_readBuffer self) = int k"
    using assms(1) by (auto simp: receiving_def)
  note P' = P(1) [unfolded partly_read_def]
  have pkt: "5 \<le> length pkt" "pkt ! 0 = 3" "pkt ! 1 = 0" "uint (pkt ! 2) * 256 + uint (pkt ! 3) = int (length pkt)"
    using assms(2) by (auto simp: tpkt_def)
  have big: "4 < bb_maxSize (cot_readBuffer self)" using P' pkt(1) by linarith
  let ?ready = "sk_ready (cot_socket self)"
  show ?thesis
  proof (cases "4 \<le> k")
    case True
    have "CotpConnection_readToTpktBuffer self = read_tpkt_body self (int k)"
      using big True P(2) by (simp add: CotpConnection_readToTpktBuffer_def)
    then show ?thesis
      using read_tpkt_body_result [OF P(1) True] progress_hd by (metis one_le_numeral)
  next
    case False
    then have k: "k < 4" by simp
    let ?xs = "take (4 - k) (drop k pkt)" and ?rest = "drop 4 pkt @ rest"
    have "drop k pkt = ?xs @ drop (4 - k) (drop k pkt)" by (rule append_take_drop_id [symmetric])
    moreover have "drop (4 - k) (drop k pkt) = drop 4 pkt" using k by simp
    ultimately have xs: "drop k pkt = ?xs @ drop 4 pkt" by metis
    have lx: "length ?xs = 4 - k" using pkt(1) k by simp
    obtain j where j: "readFromSocket self (int k) (int (4 - k)) = Some (int j,
        self\<lparr>cot_socket := (cot_socket self)\<lparr>sk_inbound := drop j ?xs @ ?rest, sk_ready := tl ?ready\<rparr>,
             cot_readBuffer := (cot_readBuffer self)\<lparr>bb_buffer := splice (bb_buffer (cot_readBuffer self)) k (take j ?xs)\<rparr>\<rparr>)"
      "j \<le> 4 - k" "?ready \<noteq> [] \<and> 0 < hd ?ready \<longrightarrow> 0 < j"
    proof (rule readFromSocket_result [of "4 - k" k self ?xs ?rest])
      show "0 < 4 - k" using k by simp
      show "k + (4 - k) \<le> length (bb_buffer (cot_readBuffer self))" using P' k pkt(1) by linarith
      show "sk_inbound (cot_socket self) = ?xs @ ?rest" using P' xs by (metis append.assoc)
    qed (use P' lx in blast)+
    let ?buf = "splice (bb_buffer (cot_readBuffer self)) k (take j (drop k pkt))"
    let ?s = "self\<lparr>cot_socket := (cot_socket self)\<lparr>sk_inbound := drop (k + j) pkt @ rest, sk_ready := tl ?ready\<rparr>,
                   cot_readBuffer := (cot_readBuffer self)\<lparr>bb_buffer := ?buf\<rparr>\<rparr>"
    have tj: "take j ?xs = take j (drop k pkt)" using j(2) by (simp add: min_def)
    have "drop j (?xs @ drop 4 pkt) = drop j ?xs @ drop 4 pkt" using j(2) lx by simp
    then have dj: "drop j ?xs @ ?rest = drop (k + j) pkt @ rest"
      by (simp add: xs [symmetric] add.commute)
    have R: "readFromSocket self (int k) (4 - int k) = Some (int j, ?s)"
      using j(1) k unfolding tj dj by (simp add: of_nat_diff)
    have t: "take (k + j) ?buf = take (k + j) pkt"
      using splice_take [of k "bb_buffer (cot_readBuffer self)" pkt j] P' j(2) pkt(1) by auto
    have l: "length ?buf = length (bb_buffer (cot_readBuffer self))"
      using P' j(2) pkt(1) by (intro length_splice) auto
    have ready: "\<forall>r \<in> set (tl ?ready). 0 \<le> r" using P' by (cases ?ready) auto
    have F: "read_frame 1 self ?s" using l by (simp add: read_frame_def drop_Suc)
    show ?thesis
    proof (cases "k + j = 4")
      case False
      then have kj: "k + j < 4" using j(2) k by simp
      let ?w = "set_read_size ?s (int (k + j))"
      have "CotpConnection_readToTpktBuffer self = Some (TPKT_WAITING, ?w)"
        using R big P(2) k False by (simp add: CotpConnection_readToTpktBuffer_def Let_def)
      moreover have "read_frame 1 self ?w"
        using l by (simp add: read_frame_def set_read_size_def drop_Suc)
      moreover have "receiving (k + j) pkt rest ?w"
        using P' kj t l ready pkt(1) by (simp add: receiving_def partly_read_def set_read_size_def)
      moreover have "k \<le> k + j \<and> (progress self \<longrightarrow> k < k + j)" using j(3) progress_hd [of self] by auto
      moreover have "(1::nat) \<le> 2" by simp
      ultimately show ?thesis by blast
    next
      case True
      then have kj: "int k + int j = 4" by simp
      let ?s' = "?s\<lparr>cot_packetSize := word_of_int (int (length pkt))\<rparr>"
      have lb: "4 \<le> length ?buf" using l P' pkt(1) by linarith
      have nth: "?buf ! i = pkt ! i" if "i < 4" for i
        using t that True by (metis nth_take)
      have b: "rd ?buf 0 = Some 3" "rd ?buf 1 = Some 0" "getUint16 (drop 2 ?buf) = Some (int (length pkt))"
        using nth [of 0] nth [of 1] nth [of 2] nth [of 3] pkt(2-4) lb
        by (auto simp: rd_def getUint16_def)
      have "uint (pkt ! 2) * 256 + uint (pkt ! 3) < 65536"
        using uint_u8_bounds [of "pkt ! 2"] uint_u8_bounds [of "pkt ! 3"] by linarith
      then have small: "int (length pkt) < 65536" using pkt(4) by simp
      have ps: "uint (word_of_int (int (length pkt)) :: u16) = int (length pkt)"
        unfolding uint_word_of_int using small by (intro mod_pos_pos_trivial) simp_all
      have "CotpConnection_readToTpktBuffer self = read_tpkt_body ?s' (int k + int j)"
        using R big P(2) k True b ps P' by (simp add: CotpConnection_readToTpktBuffer_def Let_def)
      then have "CotpConnection_readToTpktBuffer self = read_tpkt_body ?s' 4"
        by (simp only: kj)
      moreover have "partly_read 4 pkt rest ?s'"
        using P' t l ready pkt(1) ps True by (simp add: partly_read_def)
      then obtain st self' where B: "read_tpkt_body ?s' (int 4) = Some (st, self')" "read_frame 1 ?s' self'"
        "st = TPKT_PACKET_COMPLETE \<and> received pkt rest self' \<or>
         st = TPKT_WAITING \<and> (\<exists>k'. receiving k' pkt rest self' \<and> 4 \<le> k')"
        using read_tpkt_body_result [of 4 pkt rest ?s'] by blast
      moreover have "read_frame (1 + 1) self self'"
        by (rule read_frame_trans [OF _ B(2)]) (use l in \<open>simp add: read_frame_def drop_Suc\<close>)
      then have "read_frame 2 self self'" by (simp only: one_add_one)
      moreover have "k \<le> k' \<and> (progress self \<longrightarrow> k < k')" if "4 \<le> k'" for k' using that k by simp
      moreover have "(2::nat) \<le> 2" by simp
      ultimately show ?thesis by (metis of_nat_numeral)
    qed
  qed
qed

section \<open>A message from one end to the other\<close>

text \<open>
  The receiver's loop: packets are read and parsed until a message is complete, \<open>n\<close> calls of
  \<open>CotpConnection_readToTpktBuffer\<close> at most; \<open>COTP_OK\<close> stands for a message still under way.
\<close>

fun receive_message :: "nat \<Rightarrow> CotpConnection \<Rightarrow> (CotpIndication \<times> CotpConnection) option" where
  "receive_message 0 self = Some (COTP_OK, self)"
| "receive_message (Suc n) self = do {
     (state, self) \<leftarrow> CotpConnection_readToTpktBuffer self;
     case state of
       TPKT_WAITING \<Rightarrow> receive_message n self
     | TPKT_ERROR \<Rightarrow> Some (COTP_ERROR, self)
     | TPKT_PACKET_COMPLETE \<Rightarrow> do {
         (ind, self) \<leftarrow> CotpConnection_parseIncomingMessage self;
         if ind = COTP_MORE_FRAGMENTS_FOLLOW then receive_message n self else Some (ind, self) } }"

lemma hi_lo_bytes:
  assumes "0 \<le> x" "x < 65536"
  shows "uint (hi_byte x) * 256 + uint (lo_byte x) = x"
proof -
  have "x sdiv 0x100 = x div 256" using assms by (auto simp: signed_divide_int_def sgn_if)
  moreover have "x div 256 mod 256 = x div 256" using assms by (intro mod_pos_pos_trivial) auto
  ultimately have "uint (hi_byte x) = x div 256"
    by (simp add: hi_byte_def uint_word_of_int)
  moreover have "x AND 0xff = x mod 256"
    using take_bit_eq_mask [of 8 x] by (simp add: take_bit_eq_mod mask_eq_exp_minus_1)
  then have "uint (lo_byte x) = x mod 256"
    by (simp add: lo_byte_def uint_word_of_int)
  ultimately show ?thesis by simp
qed

lemma tpkt_dt_packet: "7 + length bs < 65536 \<Longrightarrow> tpkt (dt_packet eot bs)"
  using hi_lo_bytes [of "7 + int (length bs)"]
  by (simp add: tpkt_def dt_packet_def dt_header_def)

lemma parse_dt:
  assumes "received (dt_packet eot bs) rest self" "buffer_ok (cot_payload self)"
    "bb_size (cot_payload self) + int (length bs) \<le> bb_maxSize (cot_payload self)"
  obtains pl where "CotpConnection_parseIncomingMessage self =
     Some (if eot then COTP_DATA_INDICATION else COTP_MORE_FRAGMENTS_FOLLOW,
       self\<lparr>cot_isLastDataUnit := eot, cot_payload := pl,
            cot_readBuffer := (cot_readBuffer self)\<lparr>bb_size := 0\<rparr>, cot_packetSize := 0\<rparr>)"
    "buffer_ok pl" "bb_maxSize pl = bb_maxSize (cot_payload self)"
    "buffer_content pl = buffer_content (cot_payload self) @ bs"
    "bb_size pl = bb_size (cot_payload self) + int (length bs)"
proof -
  let ?buf = "bb_buffer (cot_readBuffer self)" and ?n = "length bs"
  have R: "bb_size (cot_readBuffer self) = 7 + int ?n" "7 + ?n \<le> length ?buf"
    "take (7 + ?n) ?buf = dt_header eot ?n @ bs"
    using assms(1) by (auto simp: received_def length_dt_packet dt_packet_def)
  define tl7 where "tl7 = drop (7 + ?n) ?buf"
  have buf: "?buf = dt_header eot ?n @ bs @ tl7"
    unfolding tl7_def using R(3) by (metis append_assoc append_take_drop_id)
  define pl where "pl = (cot_payload self)\<lparr>bb_buffer := splice (bb_buffer (cot_payload self)) (nat (bb_size (cot_payload self))) bs,
      bb_size := bb_size (cot_payload self) + int ?n\<rparr>"
  have A: "addPayloadToBuffer s (bs @ tl7) (int ?n) = Some (True, s\<lparr>cot_payload := pl\<rparr>)"
    if "cot_payload s = cot_payload self" for s
    using assms(2,3) that
    by (simp add: addPayloadToBuffer_def buffer_ok_def rd_block_def wr_block_def pl_def Let_def)
  have d: "drop 4 ?buf = [0x02, 0xf0, if eot then 0x80 else 0x00] @ bs @ tl7"
    by (simp add: buf dt_header_def)
  have P: "parseCotpMessage self =
      Some (if eot then COTP_DATA_INDICATION else COTP_MORE_FRAGMENTS_FOLLOW,
        self\<lparr>cot_isLastDataUnit := eot, cot_payload := pl\<rparr>)"
    unfolding parseCotpMessage_def Let_def d
    using R(1) A [of "self\<lparr>cot_isLastDataUnit := True\<rparr>"] A [of "self\<lparr>cot_isLastDataUnit := False\<rparr>"]
    by (simp add: rd_def parseDataTpdu_def)
  show ?thesis
  proof (rule that [of pl])
    show "CotpConnection_parseIncomingMessage self =
       Some (if eot then COTP_DATA_INDICATION else COTP_MORE_FRAGMENTS_FOLLOW,
         self\<lparr>cot_isLastDataUnit := eot, cot_payload := pl,
            cot_readBuffer := (cot_readBuffer self)\<lparr>bb_size := 0\<rparr>, cot_packetSize := 0\<rparr>)"
      by (simp add: CotpConnection_parseIncomingMessage_def P)
    have fits: "nat (bb_size (cot_payload self)) + ?n \<le> length (bb_buffer (cot_payload self))"
      using assms(2,3) by (auto simp: buffer_ok_def)
    show "buffer_ok pl"
      using assms(2,3) fits by (auto simp: pl_def buffer_ok_def length_splice)
    show "buffer_content pl = buffer_content (cot_payload self) @ bs"
      using assms(2) fits by (simp add: pl_def buffer_content_def buffer_ok_def nat_add_distrib splice_def)
  qed (simp_all add: pl_def)
qed

text \<open>The network delivers at least a byte per read, in enough reads for \<open>n\<close> calls.\<close>

definition delivering :: "nat \<Rightarrow> CotpConnection \<Rightarrow> bool" where
  "delivering n self \<longleftrightarrow>
     2 * n \<le> length (sk_ready (cot_socket self)) \<and> (\<forall>r \<in> set (sk_ready (cot_socket self)). 0 < r)"

lemma delivering_step: "delivering (Suc n) self \<Longrightarrow> progress self"
  "delivering (Suc n) self \<Longrightarrow> d \<le> 2 \<Longrightarrow> sk_ready (cot_socket self') = drop d (sk_ready (cot_socket self)) \<Longrightarrow>
   delivering n self'"
  unfolding delivering_def progress_def by (auto dest: in_set_dropD)

definition reader_ok :: "nat \<Rightarrow> CotpConnection \<Rightarrow> bool" where
  "reader_ok n self \<longleftrightarrow> int n \<le> bb_maxSize (cot_readBuffer self) \<and>
     bb_maxSize (cot_readBuffer self) \<le> int (length (bb_buffer (cot_readBuffer self))) \<and>
     (\<forall>r \<in> set (sk_ready (cot_socket self)). 0 \<le> r)"

lemma receiving_0:
  "reader_ok (length pkt) self \<Longrightarrow> 0 < length pkt \<Longrightarrow> bb_size (cot_readBuffer self) = 0 \<Longrightarrow>
   sk_inbound (cot_socket self) = pkt @ rest \<Longrightarrow> receiving 0 pkt rest self"
  by (simp add: receiving_def partly_read_def reader_ok_def)

lemma reader_ok_frame:
  "read_frame d self self' \<Longrightarrow> reader_ok n self \<Longrightarrow> reader_ok n self'"
  using read_frame_ready [of d self self'] by (auto simp: read_frame_def reader_ok_def dest: in_set_dropD)

lemma read_frame_payload: "read_frame d self self' \<Longrightarrow> cot_payload self' = cot_payload self"
  unfolding read_frame_def by (elim conjE) (erule ssubst, simp)

lemma dt_stream_length: "length f < length (dt_stream (f # fs))"
  by (cases fs) (auto simp: length_dt_packet)

text \<open>
  A message received from the middle of its first packet on, in whatever portions the network
  delivers it: never an error, and never a byte of what follows the message.
\<close>

lemma receive_stream:
  assumes "receiving k (hd_packet) (tl_stream @ rest) self"
    "dt_stream fs = hd_packet @ tl_stream" "hd_packet = dt_packet (length fs = 1) (hd fs)" "fs \<noteq> []"
    "\<forall>f \<in> set fs. 7 + length f \<le> N" "N < 65536" "reader_ok N self" "buffer_ok (cot_payload self)"
    "bb_size (cot_payload self) + int (length (concat fs)) \<le> bb_maxSize (cot_payload self)"
  shows "\<exists>ind self'. receive_message n self = Some (ind, self') \<and>
    (ind = COTP_DATA_INDICATION \<and> sk_inbound (cot_socket self') = rest \<and> buffer_ok (cot_payload self') \<and>
       buffer_content (cot_payload self') = buffer_content (cot_payload self) @ concat fs \<or>
     ind = COTP_OK \<and> \<not> (length (dt_stream fs) \<le> n + k \<and> delivering n self))"
  using assms
proof (induction n arbitrary: k hd_packet tl_stream fs self)
  case 0
  then show ?case by (auto simp: receiving_def partly_read_def)
next
  case (Suc n)
  let ?f = "hd fs"
  have f: "7 + length ?f \<le> N" using Suc.prems(4,5) by simp
  then have pkt: "tpkt hd_packet" using tpkt_dt_packet Suc.prems(3,6) by simp
  obtain st s1 d where r: "CotpConnection_readToTpktBuffer self = Some (st, s1)" "d \<le> 2" "read_frame d self s1"
    "st = TPKT_PACKET_COMPLETE \<and> received hd_packet (tl_stream @ rest) s1 \<or>
     st = TPKT_WAITING \<and> (\<exists>k'. receiving k' hd_packet (tl_stream @ rest) s1 \<and> k \<le> k' \<and> (progress self \<longrightarrow> k < k'))"
    using readToTpktBuffer_result [OF Suc.prems(1) pkt] by blast
  have s1: "cot_payload s1 = cot_payload self" "reader_ok N s1"
    "sk_ready (cot_socket s1) = drop d (sk_ready (cot_socket self))"
    using read_frame_payload [OF r(3)] reader_ok_frame [OF r(3) Suc.prems(7)] read_frame_ready [OF r(3)] by simp_all
  have live: "delivering n s1" if "delivering (Suc n) self"
    using delivering_step(2) [OF that r(2)] s1(3) by simp
  have k: "k < length hd_packet" using Suc.prems(1) by (simp add: receiving_def partly_read_def)
  from r(4) show ?case
  proof (elim disjE conjE exE)
    fix k' assume w: "st = TPKT_WAITING" "receiving k' hd_packet (tl_stream @ rest) s1" "k \<le> k'"
      "progress self \<longrightarrow> k < k'"
    then obtain ind s2 where IH: "receive_message n s1 = Some (ind, s2)"
      "ind = COTP_DATA_INDICATION \<and> sk_inbound (cot_socket s2) = rest \<and> buffer_ok (cot_payload s2) \<and>
         buffer_content (cot_payload s2) = buffer_content (cot_payload s1) @ concat fs \<or>
       ind = COTP_OK \<and> \<not> (length (dt_stream fs) \<le> n + k' \<and> delivering n s1)"
      using Suc.IH [OF w(2) Suc.prems(2-6)] Suc.prems(8,9) s1(1,2) by metis
    have "length (dt_stream fs) \<le> n + k' \<and> delivering n s1"
      if "length (dt_stream fs) \<le> Suc n + k \<and> delivering (Suc n) self"
      using that w(4) delivering_step(1) [of n self] live by auto
    then show ?thesis using IH r(1) w(1) s1(1) by auto
  next
    assume c: "st = TPKT_PACKET_COMPLETE" "received hd_packet (tl_stream @ rest) s1"
    have fit: "bb_size (cot_payload s1) + int (length ?f) \<le> bb_maxSize (cot_payload s1)"
      using Suc.prems(4,9) s1(1) by (cases fs) auto
    obtain pl where P: "CotpConnection_parseIncomingMessage s1 =
       Some (if length fs = 1 then COTP_DATA_INDICATION else COTP_MORE_FRAGMENTS_FOLLOW,
         s1\<lparr>cot_isLastDataUnit := (length fs = 1), cot_payload := pl,
              cot_readBuffer := (cot_readBuffer s1)\<lparr>bb_size := 0\<rparr>, cot_packetSize := 0\<rparr>)"
      "buffer_ok pl" "bb_maxSize pl = bb_maxSize (cot_payload self)"
      "buffer_content pl = buffer_content (cot_payload self) @ ?f"
      "bb_size pl = bb_size (cot_payload self) + int (length ?f)"
      using parse_dt [OF c(2) [unfolded Suc.prems(3)]] Suc.prems(8) s1(1) fit by (metis (no_types))
    let ?s2 = "s1\<lparr>cot_isLastDataUnit := (length fs = 1), cot_payload := pl,
              cot_readBuffer := (cot_readBuffer s1)\<lparr>bb_size := 0\<rparr>, cot_packetSize := 0\<rparr>"
    show ?thesis
    proof (cases "length fs = 1")
      case True
      then have fs: "fs = [?f]" using Suc.prems(4) by (cases fs) auto
      then have "tl_stream = []" using Suc.prems(2,3) by (metis append_self_conv dt_stream.simps(2) True)
      then have "sk_inbound (cot_socket ?s2) = rest" using c(2) by (simp add: received_def)
      moreover have "concat fs = ?f" by (subst fs) simp
      ultimately show ?thesis using r(1) c(1) P(1,2,4) True by auto
    next
      case False
      then obtain gs where fs: "fs = ?f # gs" "gs \<noteq> []" using Suc.prems(4) by (cases fs) auto
      have st: "dt_stream fs = hd_packet @ dt_stream gs"
        using fs Suc.prems(3) False dt_stream_Cons by metis
      then have tls: "tl_stream = dt_stream gs" using Suc.prems(2) by simp
      let ?pkt = "dt_packet (length gs = 1) (hd gs)"
      obtain ts where ts: "dt_stream gs = ?pkt @ ts"
        using fs(2) by (cases gs rule: dt_stream.cases) auto
      have g: "7 + length (hd gs) \<le> N" "\<forall>f \<in> set gs. 7 + length f \<le> N"
        using Suc.prems(5) fs by (metis list.set_intros(2) list.set_sel(1))+
      have "reader_ok N ?s2" using s1(2) by (simp add: reader_ok_def)
      moreover have "receiving 0 ?pkt (ts @ rest) ?s2"
        using calculation g(1) c(2) ts tls
        by (intro receiving_0) (auto simp: length_dt_packet reader_ok_def received_def)
      moreover have "bb_size pl + int (length (concat gs)) \<le> bb_maxSize pl"
        using Suc.prems(9) P(3,5) by (subst (asm) fs(1)) simp
      ultimately obtain ind s3 where IH: "receive_message n ?s2 = Some (ind, s3)"
        "ind = COTP_DATA_INDICATION \<and> sk_inbound (cot_socket s3) = rest \<and> buffer_ok (cot_payload s3) \<and>
           buffer_content (cot_payload s3) = buffer_content pl @ concat gs \<or>
         ind = COTP_OK \<and> \<not> (length (dt_stream gs) \<le> n + 0 \<and> delivering n ?s2)"
        using Suc.IH [of 0 ?pkt ts ?s2 gs] ts fs(2) g(2) Suc.prems(6) P(2) by auto
      have "length (dt_stream gs) \<le> n \<and> delivering n ?s2"
        if "length (dt_stream fs) \<le> Suc n + k \<and> delivering (Suc n) self"
        using that st k live by (simp add: delivering_def)
      moreover have "concat fs = ?f @ concat gs" by (subst fs(1)) simp
      ultimately show ?thesis using IH r(1) c(1) P(1,4) False by auto
    qed
  qed
qed

definition tpdu_exponent :: "nat \<Rightarrow> CotpConnection \<Rightarrow> bool" where
  "tpdu_exponent e self \<longleftrightarrow> opt_tpduSize (cot_options self) = of_nat e \<and> 2 \<le> e \<and> e \<le> 13"

text \<open>
  \<open>CotpConnection_sendDataMessage\<close>: the message leaves in pieces of the TPDU size less the three
  bytes of the header; an error leaves a prefix of the stream on the wire.
\<close>

lemma sendDataMessage_result:
  assumes "tpdu_exponent e self" "write_ok (4 + 2 ^ e) self" "chain_ok ch"
  obtains r self' k where "CotpConnection_sendDataMessage self ch = Some (r, self')"
    "same_but_written self self'"
    "sk_outbound (cot_socket self') =
       sk_outbound (cot_socket self) @ take k (dt_stream (chop (2 ^ e - 3) (chain_bytes ch)))"
    "r = COTP_OK \<and> k = length (dt_stream (chop (2 ^ e - 3) (chain_bytes ch))) \<or> r = COTP_ERROR"
    "taking (4 + 2 ^ e) (length (chop (2 ^ e - 3) (chain_bytes ch))) (cot_socket self) \<longrightarrow> r = COTP_OK"
proof -
  let ?F = "2 ^ e - 3 :: nat" and ?bs = "chain_bytes ch"
  have e: "2 \<le> e" "e \<le> 13" "opt_tpduSize (cot_options self) = of_nat e"
    using assms(1) by (auto simp: tpdu_exponent_def)
  have "(2::nat) ^ 2 \<le> 2 ^ e" using e(1) by (intro power_increasing) auto
  then have F: "0 < ?F" "7 + ?F = 4 + 2 ^ e" "int ?F = 2 ^ e - 3" by (auto simp: of_nat_diff)
  have "unat (of_nat e :: u8) = e" using e(2) by (simp add: unat_of_nat)
  then have size: "CotpConnection_getTpduSize self = Some (2 ^ e)"
    using e by (simp add: CotpConnection_getTpduSize_def)
  obtain p ps where ch: "ch = p # ps" "bc_length p = int (length ?bs)"
    using assms(3) by (cases ch) auto
  have at: "chain_at ch 0" "chain_rest ch 0 = ?bs" using chain_ok_at [OF assms(3)] by auto
  define m where "m = length (chop ?F ?bs)"
  have m: "(if bc_length p > int ?F then
        if int ?F = 0 then None
        else Some (bc_length p sdiv int ?F + (if bc_length p smod int ?F \<noteq> 0 then 1 else 0))
      else Some 1) = Some (int m)"
  proof (cases "bc_length p > int ?F")
    case True
    then have "?bs \<noteq> []" using ch(2) by auto
    moreover have "bc_length p sdiv int ?F = bc_length p div int ?F"
      "bc_length p smod int ?F = bc_length p mod int ?F"
      using F(1) ch(2) sdiv_nonneg [of "bc_length p" "int ?F"] smod_nonneg [of "bc_length p" "int ?F"] by linarith+
    moreover have "(2::int) ^ e \<noteq> 3" using F(1,3) by linarith
    ultimately show ?thesis using True F(1) length_chop [OF F(1), of ?bs] ch(2) by (simp add: m_def)
  next
    case False
    then show ?thesis using ch(2) by (simp add: m_def chop_short)
  qed
  have S: "CotpConnection_sendDataMessage self ch =
      send_fragments m (int ?F) (bc_length p) 0 ch 0 self"
    using size m ch(1) unfolding F(3)
    by (simp add: CotpConnection_sendDataMessage_def rd_def Let_def split: if_splits)
  show ?thesis
    using send_fragments_result [OF F(1), of ch 0 m "bc_length p" 0 self] at assms(2) ch(2) that
    unfolding S F(2) m_def by auto
qed

text \<open>A receiver between two messages, with room for packets of \<open>n\<close> bytes.\<close>

definition idle_reader :: "nat \<Rightarrow> CotpConnection \<Rightarrow> bool" where
  "idle_reader n self \<longleftrightarrow> reader_ok n self \<and> bb_size (cot_readBuffer self) = 0 \<and> buffer_ok (cot_payload self)"

lemma receive_stream_idle:
  assumes "idle_reader (7 + F) self" "0 < F" "7 + F < 65536"
    "sk_inbound (cot_socket self) = dt_stream (chop F bs) @ rest"
    "bb_size (cot_payload self) + int (length bs) \<le> bb_maxSize (cot_payload self)"
  shows "\<exists>ind self'. receive_message n self = Some (ind, self') \<and>
    (ind = COTP_DATA_INDICATION \<and> sk_inbound (cot_socket self') = rest \<and> buffer_ok (cot_payload self') \<and>
       buffer_content (cot_payload self') = buffer_content (cot_payload self) @ bs \<or>
     ind = COTP_OK \<and> \<not> (length (dt_stream (chop F bs)) \<le> n \<and> delivering n self))"
proof -
  let ?fs = "chop F bs"
  let ?pkt = "dt_packet (length ?fs = 1) (hd ?fs)"
  obtain ts where ts: "dt_stream ?fs = ?pkt @ ts"
    using chop_nonempty [of F bs] by (cases ?fs rule: dt_stream.cases) auto
  have pieces: "\<forall>f \<in> set ?fs. 7 + length f \<le> 7 + F" using chop_pieces [OF assms(2)] by auto
  have len: "length ?pkt \<le> 7 + F"
    using pieces chop_nonempty [of F bs] by (simp add: length_dt_packet)
  have ok: "reader_ok (7 + F) self" "bb_size (cot_readBuffer self) = 0" "buffer_ok (cot_payload self)"
    using assms(1) by (simp_all add: idle_reader_def)
  have "reader_ok (length ?pkt) self" using ok(1) len by (simp add: reader_ok_def)
  then have "receiving 0 ?pkt (ts @ rest) self"
    using ok(2) assms(4) ts by (intro receiving_0) (simp_all add: length_dt_packet)
  then show ?thesis
    using receive_stream [of 0 ?pkt ts rest self ?fs "7 + F" n] ts pieces assms(3,5) ok
    by (simp add: concat_chop)
qed

lemma sent_message_received:
  assumes "tpdu_exponent e self" "write_ok (4 + 2 ^ e) self" "chain_ok payload"
    "CotpConnection_sendDataMessage self payload = Some (COTP_OK, self')"
    "sk_outbound (cot_socket self') = sk_outbound (cot_socket self) @ wire"
    "idle_reader (4 + 2 ^ e) peer" "sk_inbound (cot_socket peer) = wire @ rest"
    "bb_size (cot_payload peer) + int (length (chain_bytes payload)) \<le> bb_maxSize (cot_payload peer)"
  shows "\<exists>ind peer'. receive_message n peer = Some (ind, peer') \<and>
    (ind = COTP_DATA_INDICATION \<and> sk_inbound (cot_socket peer') = rest \<and> buffer_ok (cot_payload peer') \<and>
       buffer_content (cot_payload peer') = buffer_content (cot_payload peer) @ chain_bytes payload \<or>
     ind = COTP_OK \<and> \<not> (length wire \<le> n \<and> delivering n peer))"
proof -
  let ?F = "2 ^ e - 3 :: nat"
  have e: "2 \<le> e" "e \<le> 13" using assms(1) by (auto simp: tpdu_exponent_def)
  have "(2::nat) ^ 2 \<le> 2 ^ e" "(2::nat) ^ e \<le> 2 ^ 13" using e by (intro power_increasing; simp)+
  then have F: "0 < ?F" "7 + ?F = 4 + 2 ^ e" "7 + ?F < 65536" by auto
  obtain r s k where S: "CotpConnection_sendDataMessage self payload = Some (r, s)"
    "sk_outbound (cot_socket s) = sk_outbound (cot_socket self) @ take k (dt_stream (chop ?F (chain_bytes payload)))"
    "r = COTP_OK \<and> k = length (dt_stream (chop ?F (chain_bytes payload))) \<or> r = COTP_ERROR"
    by (rule sendDataMessage_result [OF assms(1-3)]) blast
  then have "wire = dt_stream (chop ?F (chain_bytes payload))"
    using assms(4,5) by auto
  then show ?thesis
    using receive_stream_idle [of ?F peer "chain_bytes payload" rest n] F assms(6-8) by simp
qed


definition demo_connection :: "nat \<Rightarrow> nat \<Rightarrow> Socket \<Rightarrow> CotpConnection" where
  "demo_connection e n s =
     (let sel = \<lparr>sel_size = 2, sel_value = [0, 1] @ replicate 14 0\<rparr> in
      \<lparr>cot_state = 0, cot_remoteRef = - 1, cot_localRef = 1, cot_protocolClass = - 1, cot_socket = s,
       cot_options = \<lparr>opt_tSelSrc = sel, opt_tSelDst = sel, opt_tpduSize = of_nat e\<rparr>,
       cot_isLastDataUnit = False, cot_payload = ByteBuffer_create n,
       cot_writeBuffer = Some (ByteBuffer_create n), cot_readBuffer = ByteBuffer_create n, cot_packetSize = 0\<rparr>)"

lemma demo_connection_ok:
  "2 \<le> e \<Longrightarrow> e \<le> 13 \<Longrightarrow> tpdu_exponent e (demo_connection e n s)"
  "k \<le> n \<Longrightarrow> write_ok k (demo_connection e n s)"
  "k \<le> n \<Longrightarrow> \<forall>r \<in> set (sk_ready s). 0 \<le> r \<Longrightarrow> idle_reader k (demo_connection e n s)"
  by (simp_all add: demo_connection_def Let_def tpdu_exponent_def write_ok_def ByteBuffer_create_def
      idle_reader_def reader_ok_def buffer_ok_def)


end
