(* ===== verification/Cotp_Connect.thy ===== *)
theory Cotp_Connect
  imports Cotp_Laws
begin

text \<open>
  Laws of the connection phase of the transport layer: the connection request that is written
  and what the peer takes from it, the safety of the parser on arbitrary packets, and the inputs
  that defeat it.
\<close>

section \<open>The connection request\<close>

definition sel_bytes :: "u8 \<Rightarrow> Selector \<Rightarrow> u8 list" where
  "sel_bytes code s =
     (if sel_size s \<noteq> 0 then [code, of_nat (sel_size s)] @ take (sel_size s) (sel_value s) else [])"

definition option_bytes :: "CotpOptions \<Rightarrow> u8 list" where
  "option_bytes opts =
     (if opt_tpduSize opts \<noteq> 0 then [0xc0, 0x01, opt_tpduSize opts] else []) @
     sel_bytes 0xc2 (opt_tSelDst opts) @ sel_bytes 0xc1 (opt_tSelSrc opts)"

definition options_ok :: "CotpOptions \<Rightarrow> bool" where
  "options_ok opts \<longleftrightarrow> unat (opt_tpduSize opts) \<le> 13 \<and> sel_ok (opt_tSelDst opts) \<and> sel_ok (opt_tSelSrc opts)"

lemma length_sel_bytes: "sel_ok s \<Longrightarrow> length (sel_bytes c s) = (if sel_size s \<noteq> 0 then 2 + sel_size s else 0)"
  by (simp add: sel_bytes_def sel_ok_def)

lemma length_option_bytes:
  assumes "options_ok (cot_options self)"
  shows "int (length (option_bytes (cot_options self))) = getOptionsLength self"
    "length (option_bytes (cot_options self)) \<le> 39"
  using assms
  by (auto simp: option_bytes_def options_ok_def length_sel_bytes getOptionsLength_def Let_def sel_ok_def)

lemma put_selector_puts: "sel_ok s \<Longrightarrow> put_selector code s = puts (sel_bytes code s)"
  by (rule ext) (simp add: put_selector_def sel_bytes_def sel_ok_def put_from_puts puts_append puts_fun)

lemma puts_bind: "do { c \<leftarrow> puts xs c; c \<leftarrow> puts ys c; c \<leftarrow> puts zs c; f c } = do { c \<leftarrow> puts (xs @ ys @ zs) c; f c }"
  by (simp add: puts_append)

lemma writeOptions_result:
  assumes "options_ok (cot_options self)" "cot_writeBuffer self = Some wb" "bb_size wb = int n"
    "n + length (option_bytes (cot_options self)) \<le> length (bb_buffer wb)"
  shows "writeOptions self = Some (self\<lparr>cot_writeBuffer := Some (wb\<lparr>
      bb_buffer := splice (bb_buffer wb) n (option_bytes (cot_options self)),
      bb_size := int (n + length (option_bytes (cot_options self)))\<rparr>)\<rparr>)"
proof -
  let ?o = "cot_options self" and ?c = "(bb_buffer wb, n)"
  have t: "(if opt_tpduSize ?o \<noteq> 0 then puts [0xc0, 0x01, opt_tpduSize ?o] ?c else Some ?c) =
      puts (if opt_tpduSize ?o \<noteq> 0 then [0xc0, 0x01, opt_tpduSize ?o] else []) ?c"
    by (simp only: puts.simps(1) split: if_split) simp
  have s: "put_selector 0xc2 (opt_tSelDst ?o) = puts (sel_bytes 0xc2 (opt_tSelDst ?o))"
    "put_selector 0xc1 (opt_tSelSrc ?o) = puts (sel_bytes 0xc1 (opt_tSelSrc ?o))"
    using assms(1) by (simp_all add: options_ok_def put_selector_puts)
  have "writeOptions self = do { c \<leftarrow> puts (option_bytes ?o) ?c;
      case c of (buf, bufPos) \<Rightarrow> Some (self\<lparr>cot_writeBuffer := Some (wb\<lparr>bb_buffer := buf, bb_size := int bufPos\<rparr>)\<rparr>) }"
    unfolding writeOptions_def option_bytes_def puts_bind [symmetric] assms(2,3) Let_def Option.bind.simps
    unfolding nat_int t s ..
  then show ?thesis using puts_eq [OF assms(4)] by simp
qed

definition cr_packet :: "CotpConnection \<Rightarrow> u8 list" where
  "cr_packet self =
     (let n = int (length (option_bytes (cot_options self))) in
      [0x03, 0x00, hi_byte (11 + n), lo_byte (11 + n), word_of_int (6 + n), 0xe0, 0x00, 0x00,
       hi_byte (cot_localRef self), lo_byte (cot_localRef self), 0x00] @ option_bytes (cot_options self))"

lemma length_cr_packet: "length (cr_packet self) = 11 + length (option_bytes (cot_options self))"
  by (simp add: cr_packet_def Let_def)

text \<open>What the client sends.\<close>

lemma sendConnectionRequest_result:
  fixes self :: CotpConnection and remote :: IsoApplicationAddress and loc :: IsoApplicationAddress
  defines "s1 \<equiv> self\<lparr>cot_options := (cot_options self)\<lparr>opt_tSelDst := iaa_tSelector remote, opt_tSelSrc := iaa_tSelector loc\<rparr>\<rparr>"
  assumes "options_ok (cot_options s1)" "cot_writeBuffer self = Some wb" "50 \<le> bb_maxSize wb"
    "50 \<le> length (bb_buffer wb)"
  obtains r self' k where
    "CotpConnection_sendConnectionRequestMessage self remote loc = Some (r, self')"
    "same_but_written s1 self'"
    "sk_outbound (cot_socket self') = sk_outbound (cot_socket self) @ take k (cr_packet s1)"
    "r = COTP_OK \<and> k = length (cr_packet s1) \<or> r = COTP_ERROR"
    "taking 50 1 (cot_socket self) \<longrightarrow> r = COTP_OK"
proof -
  let ?ob = "option_bytes (cot_options s1)" and ?pkt = "cr_packet s1" and ?b = "bb_buffer wb"
  note L = length_option_bytes [OF assms(2)]
  have fields: "cot_writeBuffer s1 = Some wb" "cot_localRef s1 = cot_localRef self" "cot_socket s1 = cot_socket self"
    by (simp_all add: s1_def assms(3))
  have W1: "writeRfc1006Header s1 (getOptionsLength s1 + 6 + 5) =
      Some (s1\<lparr>cot_writeBuffer := Some (wb\<lparr>bb_buffer := splice ?b 0 (take 4 ?pkt), bb_size := 4\<rparr>)\<rparr>)"
    using assms(5) fields(1) L(1)
    by (simp add: writeRfc1006Header_def write_at_result cr_packet_def Let_def algebra_simps)
  have l4: "length (splice ?b 0 (take 4 ?pkt)) = length ?b"
    using assms(5) by (simp add: length_splice cr_packet_def Let_def)
  have sp: "splice (splice ?b 0 (take 4 ?pkt)) 4 (take 7 (drop 4 ?pkt)) = splice ?b 0 (take 11 ?pkt)"
    using assms(5) splice_append [of 0 "take 4 ?pkt" ?b "take 7 (drop 4 ?pkt)"] take_add [of 4 7 ?pkt]
    by (simp add: length_cr_packet)
  have d7: "[word_of_int (getOptionsLength s1 + 6), 0xe0, 0x00, 0x00, hi_byte (cot_localRef s1), lo_byte (cot_localRef s1), 0x00]
      = take 7 (drop 4 ?pkt)"
    by (simp add: cr_packet_def Let_def L(1) [symmetric] add.commute)
  have W2: "write_at (s1\<lparr>cot_writeBuffer := Some (wb\<lparr>bb_buffer := splice ?b 0 (take 4 ?pkt), bb_size := 4\<rparr>)\<rparr>) 4
      (take 7 (drop 4 ?pkt)) =
      Some (s1\<lparr>cot_writeBuffer := Some (wb\<lparr>bb_buffer := splice ?b 0 (take 11 ?pkt), bb_size := 11\<rparr>)\<rparr>)"
    using assms(5) l4 sp write_at_result [of "s1\<lparr>cot_writeBuffer := Some (wb\<lparr>bb_buffer := splice ?b 0 (take 4 ?pkt), bb_size := 4\<rparr>)\<rparr>"
      "wb\<lparr>bb_buffer := splice ?b 0 (take 4 ?pkt), bb_size := 4\<rparr>" 4 "take 7 (drop 4 ?pkt)"]
    by (simp add: length_cr_packet)
  have l11: "length (splice ?b 0 (take 11 ?pkt)) = length ?b"
    using assms(5) by (simp add: length_splice cr_packet_def Let_def)
  let ?s3 = "s1\<lparr>cot_writeBuffer := Some (wb\<lparr>bb_buffer := splice ?b 0 ?pkt, bb_size := int (length ?pkt)\<rparr>)\<rparr>"
  have ob: "take 11 ?pkt @ ?ob = ?pkt" "length (take 11 ?pkt) = 11" by (simp_all add: cr_packet_def Let_def)
  have sp3: "splice (splice ?b 0 (take 11 ?pkt)) 11 ?ob = splice ?b 0 ?pkt"
    using splice_append [of 0 "take 11 ?pkt" ?b ?ob, unfolded ob] assms(5) by simp
  have W3: "writeOptions (s1\<lparr>cot_writeBuffer := Some (wb\<lparr>bb_buffer := splice ?b 0 (take 11 ?pkt), bb_size := 11\<rparr>)\<rparr>) = Some ?s3"
    using writeOptions_result [of "s1\<lparr>cot_writeBuffer := Some (wb\<lparr>bb_buffer := splice ?b 0 (take 11 ?pkt), bb_size := 11\<rparr>)\<rparr>" _ 11]
      assms(2,5) L(2) l11 sp3 by (simp add: length_cr_packet)
  have fit: "length ?pkt \<le> length ?b" "length ?pkt \<le> 50" using assms(5) L(2) by (simp_all add: length_cr_packet)
  have "length (splice ?b 0 ?pkt) = length ?b" using fit by (intro length_splice) simp
  then have "assembled ?s3 ?pkt" "write_ok 0 ?s3"
    using fit assms(4) splice_read [of 0 ?pkt ?b] by (auto simp: assembled_def write_ok_def buffer_content_def)
  then obtain ok s4 k where S: "sendBuffer ?s3 = Some (ok, s4)" "same_but_written ?s3 s4"
    "sk_outbound (cot_socket s4) = sk_outbound (cot_socket ?s3) @ take k ?pkt"
    "ok \<longrightarrow> k = length ?pkt"
    "\<And>m i. taking m (Suc i) (cot_socket ?s3) \<Longrightarrow> length ?pkt \<le> m \<Longrightarrow> ok"
    using sendBuffer_assembled [of ?s3 ?pkt 0] by metis
  have big: "\<not> bb_maxSize wb < getOptionsLength s1 + 6 + 5" using L assms(4) by linarith
  have A: "allocateWriteBuffer self = Some self" using assms(3) by (simp add: allocateWriteBuffer_def)
  have R: "CotpConnection_sendConnectionRequestMessage self remote loc =
      Some (if ok then COTP_OK else COTP_ERROR, s4)"
    unfolding CotpConnection_sendConnectionRequestMessage_def A Let_def Option.bind.simps s1_def [symmetric]
    using W1 W2 [folded d7] W3 S(1) fields big by simp
  have same: "same_but_written s1 s4"
    by (rule same_but_written_trans [OF _ S(2)]) (simp add: same_but_written_def)
  show ?thesis
  proof (rule that [OF R same])
    show "sk_outbound (cot_socket s4) = sk_outbound (cot_socket self) @ take k (cr_packet s1)"
      using S(3) fields(3) by simp
    show "(if ok then COTP_OK else COTP_ERROR) = COTP_OK \<and> k = length (cr_packet s1) \<or>
        (if ok then COTP_OK else COTP_ERROR) = COTP_ERROR"
      using S(4) by simp
    show "taking 50 1 (cot_socket self) \<longrightarrow> (if ok then COTP_OK else COTP_ERROR) = COTP_OK"
      using S(5) [of 50 0] fields(3) fit(2) by simp
  qed
qed

text \<open>What the server takes from it.\<close>

definition adopt_sel :: "Selector \<Rightarrow> Selector \<Rightarrow> Selector" where
  "adopt_sel theirs mine =
     (if sel_size theirs = 0 then mine
      else mine\<lparr>sel_size := sel_size theirs,
                sel_value := splice (sel_value mine) 0 (take (sel_size theirs) (sel_value theirs))\<rparr>)"

definition adopt_options :: "CotpOptions \<Rightarrow> CotpOptions \<Rightarrow> CotpOptions" where
  "adopt_options theirs mine =
     mine\<lparr>opt_tpduSize := (if opt_tpduSize theirs = 0 then opt_tpduSize mine else opt_tpduSize theirs),
          opt_tSelDst := adopt_sel (opt_tSelDst theirs) (opt_tSelDst mine),
          opt_tSelSrc := adopt_sel (opt_tSelSrc theirs) (opt_tSelSrc mine)\<rparr>"

text \<open>The selector in use is the one that was sent.\<close>

lemma adopt_sel_value:
  assumes "sel_ok theirs" "sel_ok mine" "sel_size theirs \<noteq> 0"
  shows "sel_size (adopt_sel theirs mine) = sel_size theirs"
    "take (sel_size theirs) (sel_value (adopt_sel theirs mine)) = take (sel_size theirs) (sel_value theirs)"
  using assms splice_read [of 0 "take (sel_size theirs) (sel_value theirs)" "sel_value mine"]
  by (auto simp: adopt_sel_def sel_ok_def min_def)

lemma rdi_drop: "drop q buf = b # bs \<Longrightarrow> rdi buf (int q) = Some b"
  by (metis drop_eq_Nil2 hd_drop_conv_nth linorder_not_less list.discI list.sel(1) nat_int of_nat_0_le_iff rd_Some rdi_def)

lemma option_head:
  assumes "drop q buf = t # l # bs" "n \<le> int (length buf)" "int q < n"
  shows "rdi buf (int q) = Some t" "rdi buf (int q + 1) = Some l"
proof -
  have "drop (Suc q) buf = l # bs" using assms(1) by (metis drop_Suc list.sel(3) tl_drop)
  then show "rdi buf (int q + 1) = Some l" using rdi_drop [of "Suc q" buf l bs] by (simp add: add.commute)
qed (rule rdi_drop [OF assms(1)])

lemma parse_tpduSize_option:
  assumes "drop q buf = [0xc0, 0x01, v] @ bs" "unat v \<le> 13" "int q + 3 \<le> n" "n \<le> int (length buf)"
  shows "parseOptions self buf (int q) n =
    parseOptions (self\<lparr>cot_options := (cot_options self)\<lparr>opt_tpduSize := v\<rparr>\<rparr>) buf (int (q + 3)) n"
proof -
  have d: "drop q buf = 0xc0 # 0x01 # v # bs" using assms(1) by simp
  have "rdi buf (int q) = Some 0xc0" "rdi buf (int q + 1) = Some 0x01"
    using option_head [OF d assms(4)] assms(3) by simp_all
  moreover have "drop (Suc (Suc q)) buf = v # bs" using d by (metis drop_Suc list.sel(3) tl_drop)
  then have "rdi buf (int q + 2) = Some v" using rdi_drop [of "Suc (Suc q)" buf v bs] by (simp add: add.commute)
  ultimately show ?thesis
    using assms(2,3) setTpduSize_power [OF assms(2), of self]
    by (subst parseOptions.simps) (simp add: Let_def add.commute)
qed

lemma read_selector_result:
  assumes "drop (Suc (Suc q)) buf = take m v @ bs" "m \<le> 16" "length v = 16" "length (sel_value sel) = 16"
    "int q + 2 + int m \<le> int (length buf)"
  shows "read_selector buf (int q + 2) m sel =
    Some (sel\<lparr>sel_size := m, sel_value := splice (sel_value sel) 0 (take m v)\<rparr>)"
proof -
  have "nat (int q + 2) = Suc (Suc q)" by simp
  moreover have "take m (drop (Suc (Suc q)) buf) = take m v" using assms(1-3) by simp
  ultimately have "rd_block buf (int q + 2) (int m) = Some (take m v)"
    using assms(5) by (simp add: rd_block_def)
  then show ?thesis using assms(2-4) by (simp add: read_selector_def wr_block_def)
qed

lemma parse_selector_options:
  assumes "drop q buf = sel_bytes code s @ bs" "sel_ok s" "sel_ok mine"
    "int q + int (length (sel_bytes code s)) \<le> n" "n \<le> int (length buf)"
    "mine = (if code = 0xc1 then opt_tSelSrc (cot_options self) else opt_tSelDst (cot_options self))"
    "code = 0xc1 \<or> code = 0xc2"
  shows "parseOptions self buf (int q) n =
    parseOptions (self\<lparr>cot_options := (if code = 0xc1 then (cot_options self)\<lparr>opt_tSelSrc := adopt_sel s mine\<rparr>
                       else (cot_options self)\<lparr>opt_tSelDst := adopt_sel s mine\<rparr>)\<rparr>)
      buf (int (q + length (sel_bytes code s))) n"
proof (cases "sel_size s = 0")
  case True
  then show ?thesis using assms(6,7) by (auto simp: sel_bytes_def adopt_sel_def)
next
  case False
  let ?m = "sel_size s" and ?v = "sel_value s"
  have m: "?m \<le> 16" "length ?v = 16" using assms(2) by (auto simp: sel_ok_def)
  have len: "length (sel_bytes code s) = 2 + ?m" using False assms(2) by (simp add: length_sel_bytes)
  have d: "drop q buf = code # of_nat ?m # take ?m ?v @ bs" using assms(1) False by (simp add: sel_bytes_def)
  have h: "rdi buf (int q) = Some code" "rdi buf (int q + 1) = Some (of_nat ?m)"
    using option_head [OF d assms(5)] assms(4) len by simp_all
  have d2: "drop (Suc (Suc q)) buf = take ?m ?v @ bs" using d by (metis drop_Suc list.sel(3) tl_drop)
  have u: "unat (of_nat ?m :: u8) = ?m" "uint (of_nat ?m :: u8) = int ?m" "(of_nat ?m :: u8) < 17"
    using m(1) by (simp_all add: unat_of_nat word_less_nat_alt uint_nat)
  have r: "read_selector buf (int q + 2) ?m mine = Some (adopt_sel s mine)"
    using read_selector_result [OF d2 m, of mine] assms(3-5) len False by (simp add: adopt_sel_def sel_ok_def)
  have fits: "\<not> uint (of_nat ?m :: u8) > n - (int q + 2)" "int q < n" using assms(4) len u(2) by simp_all
  have e: "int q + 2 + uint (of_nat ?m :: u8) = int (q + length (sel_bytes code s))" using len u(2) by simp
  have three: "(0xc1 :: u8) \<noteq> 0xc0" "(0xc2 :: u8) \<noteq> 0xc0" "(0xc2 :: u8) \<noteq> 0xc1" by simp_all
  from assms(7) show ?thesis
  proof
    assume c: "code = 0xc1"
    then have r1: "read_selector buf (int q + 2) ?m (opt_tSelSrc (cot_options self)) =
        Some (adopt_sel s (opt_tSelSrc (cot_options self)))" using r assms(6) by simp
    show ?thesis
      unfolding c if_P [OF refl] using assms(6) c
      by (subst parseOptions.simps) (simp only: h [unfolded c] r1 fits e [unfolded c] u(1,3) three Option.bind.simps Let_def simp_thms if_True if_False)
  next
    assume c: "code = 0xc2"
    then have r2: "read_selector buf (int q + 2) ?m (opt_tSelDst (cot_options self)) =
        Some (adopt_sel s (opt_tSelDst (cot_options self)))" using r assms(6) by simp
    show ?thesis
      unfolding c using assms(6) c
      by (subst parseOptions.simps) (simp only: h [unfolded c] r2 fits e [unfolded c] u(1,3) three three [symmetric] Option.bind.simps Let_def simp_thms if_True if_False)
  qed
qed

lemma parse_option_bytes:
  assumes "drop q buf = option_bytes opts @ bs" "options_ok opts" "options_ok (cot_options self)"
    "n = int (q + length (option_bytes opts))" "n \<le> int (length buf)"
  shows "parseOptions self buf (int q) n =
    Some (True, self\<lparr>cot_options := adopt_options opts (cot_options self)\<rparr>)"
proof -
  let ?t = "if opt_tpduSize opts \<noteq> 0 then [0xc0, 0x01, opt_tpduSize opts] else []"
  let ?d = "sel_bytes 0xc2 (opt_tSelDst opts)" and ?s = "sel_bytes 0xc1 (opt_tSelSrc opts)"
  let ?mine = "cot_options self"
  let ?o1 = "?mine\<lparr>opt_tpduSize := (if opt_tpduSize opts = 0 then opt_tpduSize ?mine else opt_tpduSize opts)\<rparr>"
  let ?o2 = "?o1\<lparr>opt_tSelDst := adopt_sel (opt_tSelDst opts) (opt_tSelDst ?mine)\<rparr>"
  have ob: "option_bytes opts = ?t @ ?d @ ?s" by (simp add: option_bytes_def)
  have ok: "sel_ok (opt_tSelDst opts)" "sel_ok (opt_tSelSrc opts)" "sel_ok (opt_tSelDst ?mine)" "sel_ok (opt_tSelSrc ?mine)"
    "unat (opt_tpduSize opts) \<le> 13" using assms(2,3) by (auto simp: options_ok_def)
  have d1: "drop (q + length ?t) buf = ?d @ ?s @ bs"
    using assms(1) ob drop_drop [of "length ?t" q buf] by (simp add: add.commute)
  have d2: "drop (q + length ?t + length ?d) buf = ?s @ bs"
    using d1 drop_drop [of "length ?d" "q + length ?t" buf] by (simp add: add.commute)
  have n: "n = int (q + length ?t + length ?d + length ?s)" using assms(4) ob by simp
  have 1: "parseOptions self buf (int q) n =
      parseOptions (self\<lparr>cot_options := ?o1\<rparr>) buf (int (q + length ?t)) n"
  proof (cases "opt_tpduSize opts = 0")
    case False
    then show ?thesis
      using parse_tpduSize_option [of q buf "opt_tpduSize opts" "?d @ ?s @ bs" n self] assms(1,5) ok(5) ob n
      by (simp add: add.commute)
  qed simp
  also have 2: "\<dots> = parseOptions (self\<lparr>cot_options := ?o2\<rparr>) buf (int (q + length ?t + length ?d)) n"
    using parse_selector_options [OF d1 ok(1,3), of n "self\<lparr>cot_options := ?o1\<rparr>"] n assms(5) by simp
  also have 3: "\<dots> = parseOptions (self\<lparr>cot_options := adopt_options opts ?mine\<rparr>) buf n n"
    using parse_selector_options [OF d2 ok(2,4), of n "self\<lparr>cot_options := ?o2\<rparr>"] n assms(5)
    by (simp add: adopt_options_def)
  finally show ?thesis by (simp add: parseOptions.simps)
qed

lemma parse_cr:
  assumes "received (cr_packet client) rest self" "options_ok (cot_options client)" "options_ok (cot_options self)"
    "0 \<le> cot_localRef client" "cot_localRef client < 65536"
  shows "CotpConnection_parseIncomingMessage self =
    Some (COTP_CONNECT_INDICATION,
      self\<lparr>cot_remoteRef := cot_localRef client, cot_protocolClass := 0,
           cot_options := adopt_options (cot_options client) (cot_options self),
           cot_readBuffer := (cot_readBuffer self)\<lparr>bb_size := 0\<rparr>, cot_packetSize := 0\<rparr>)"
proof -
  let ?buf = "bb_buffer (cot_readBuffer self)" and ?ob = "option_bytes (cot_options client)"
  let ?n = "int (length ?ob)" and ?ref = "cot_localRef client"
  have n: "length ?ob \<le> 39" using length_option_bytes(2) [OF assms(2)] .
  have R: "bb_size (cot_readBuffer self) = int (length (cr_packet client))"
    "take (length (cr_packet client)) ?buf = cr_packet client" using assms(1) by (auto simp: received_def)
  define post where "post = drop (length (cr_packet client)) ?buf"
  have buf: "?buf = cr_packet client @ post" unfolding post_def using R(2) by (metis append_take_drop_id)
  have d: "drop 4 ?buf = [word_of_int (6 + ?n), 0xe0, 0x00, 0x00, hi_byte ?ref, lo_byte ?ref, 0x00] @ ?ob @ post"
    by (simp add: buf cr_packet_def Let_def)
  have len: "uint (word_of_int (6 + ?n) :: u8) = 6 + ?n"
    unfolding uint_word_of_int using n by (intro mod_pos_pos_trivial) simp_all
  then have six: "\<not> (word_of_int (6 + ?n) :: u8) < 6" by (simp add: word_less_def)
  have O: "parseOptions s (?ob @ post) 0 ?n = Some (True, s\<lparr>cot_options := adopt_options (cot_options client) (cot_options s)\<rparr>)"
    if "cot_options s = cot_options self" for s
    using parse_option_bytes [of 0 "?ob @ post" "cot_options client" post s ?n] assms(2,3) that by simp
  have P: "parseCotpMessage self = Some (COTP_CONNECT_INDICATION,
      self\<lparr>cot_remoteRef := ?ref, cot_protocolClass := 0,
           cot_options := adopt_options (cot_options client) (cot_options self)\<rparr>)"
    unfolding parseCotpMessage_def Let_def d
    using R(1) len six O [of "self\<lparr>cot_remoteRef := ?ref, cot_protocolClass := 0\<rparr>"] hi_lo_bytes [OF assms(4,5)]
    by (simp add: rd_def length_cr_packet parseConnectRequestTpdu_def getUint16_def)
  show ?thesis by (simp add: CotpConnection_parseIncomingMessage_def P)
qed

text \<open>One packet that is not a part of a longer message, received in whatever portions.\<close>

lemma receive_packet:
  assumes "receiving k pkt rest self" "tpkt pkt"
    "\<And>s d. received pkt rest s \<Longrightarrow> read_frame d self s \<Longrightarrow>
       \<exists>ind s'. CotpConnection_parseIncomingMessage s = Some (ind, s') \<and> ind \<noteq> COTP_MORE_FRAGMENTS_FOLLOW \<and> Q ind s'"
  shows "\<exists>ind self'. receive_message n self = Some (ind, self') \<and>
    (Q ind self' \<or> ind = COTP_OK \<and> \<not> (length pkt \<le> n + k \<and> delivering n self))"
  using assms
proof (induction n arbitrary: k self)
  case 0
  then show ?case by (auto simp: receiving_def partly_read_def)
next
  case (Suc n)
  obtain st s1 d where r: "CotpConnection_readToTpktBuffer self = Some (st, s1)" "d \<le> 2" "read_frame d self s1"
    "st = TPKT_PACKET_COMPLETE \<and> received pkt rest s1 \<or>
     st = TPKT_WAITING \<and> (\<exists>k'. receiving k' pkt rest s1 \<and> k \<le> k' \<and> (progress self \<longrightarrow> k < k'))"
    using readToTpktBuffer_result [OF Suc.prems(1,2)] by blast
  from r(4) show ?case
  proof (elim disjE conjE exE)
    fix k' assume w: "st = TPKT_WAITING" "receiving k' pkt rest s1" "k \<le> k'" "progress self \<longrightarrow> k < k'"
    obtain ind s2 where IH: "receive_message n s1 = Some (ind, s2)"
      "Q ind s2 \<or> ind = COTP_OK \<and> \<not> (length pkt \<le> n + k' \<and> delivering n s1)"
      using Suc.IH [OF w(2) Suc.prems(2)] Suc.prems(3) read_frame_trans [OF r(3)] by metis
    have "length pkt \<le> n + k' \<and> delivering n s1" if "length pkt \<le> Suc n + k \<and> delivering (Suc n) self"
      using that w(4) delivering_step [of n self] r(2) read_frame_ready [OF r(3)] by auto
    then show ?thesis using IH r(1) w(1) by auto
  next
    assume c: "st = TPKT_PACKET_COMPLETE" "received pkt rest s1"
    then show ?thesis using Suc.prems(3) [OF c(2) r(3)] r(1) by auto
  qed
qed

lemma read_frame_fields:
  "read_frame d a b \<Longrightarrow> cot_options b = cot_options a \<and> cot_payload b = cot_payload a"
  unfolding read_frame_def by (elim conjE) (erule ssubst, simp)

text \<open>
  C25: the connection request. The server that receives what the client's
  \<open>CotpConnection_sendConnectionRequestMessage\<close> put on the wire, in whatever portions, reports a
  connection indication; its remote reference is the client's local reference, and the T-selectors
  and the TPDU size of the request have replaced its own where the request carries them.
\<close>

theorem connection_request_received:
  assumes "sel_ok (iaa_tSelector remote)" "sel_ok (iaa_tSelector loc)"
    "unat (opt_tpduSize (cot_options client)) \<le> 13" "0 \<le> cot_localRef client" "cot_localRef client < 65536"
    "cot_writeBuffer client = Some wb" "50 \<le> bb_maxSize wb" "50 \<le> length (bb_buffer wb)"
    "CotpConnection_sendConnectionRequestMessage client remote loc = Some (COTP_OK, client')"
    "sk_outbound (cot_socket client') = sk_outbound (cot_socket client) @ wire"
    "idle_reader 50 server" "options_ok (cot_options server)" "sk_inbound (cot_socket server) = wire @ rest"
  shows "\<exists>ind server'. receive_message n server = Some (ind, server') \<and>
    (ind = COTP_CONNECT_INDICATION \<and> sk_inbound (cot_socket server') = rest \<and>
       CotpConnection_getRemoteRef server' = CotpConnection_getLocalRef client \<and>
       cot_options server' = adopt_options
         ((cot_options client)\<lparr>opt_tSelDst := iaa_tSelector remote, opt_tSelSrc := iaa_tSelector loc\<rparr>)
         (cot_options server) \<or>
     ind = COTP_OK \<and> \<not> (length wire \<le> n \<and> delivering n server))"
proof -
  let ?c = "client\<lparr>cot_options := (cot_options client)\<lparr>opt_tSelDst := iaa_tSelector remote, opt_tSelSrc := iaa_tSelector loc\<rparr>\<rparr>"
  have ok: "options_ok (cot_options ?c)" using assms(1-3) by (simp add: options_ok_def)
  have "wire = cr_packet ?c"
    by (rule sendConnectionRequest_result [OF ok assms(6-8)]) (use assms(9,10) in auto)
  note wire = this
  have len: "length (cr_packet ?c) \<le> 50" using length_option_bytes(2) [OF ok] by (simp add: length_cr_packet)
  have R: "receiving 0 wire rest server"
    using assms(11,13) len wire by (intro receiving_0) (auto simp: idle_reader_def reader_ok_def length_cr_packet)
  have T: "tpkt wire"
    using hi_lo_bytes [of "11 + int (length (option_bytes (cot_options ?c)))"] len wire
    by (simp add: tpkt_def cr_packet_def Let_def)
  let ?Q = "\<lambda>ind s'. ind = COTP_CONNECT_INDICATION \<and> sk_inbound (cot_socket s') = rest \<and>
       CotpConnection_getRemoteRef s' = CotpConnection_getLocalRef client \<and>
       cot_options s' = adopt_options (cot_options ?c) (cot_options server)"
  have P: "\<exists>ind s'. CotpConnection_parseIncomingMessage s = Some (ind, s') \<and>
      ind \<noteq> COTP_MORE_FRAGMENTS_FOLLOW \<and> ?Q ind s'"
    if s: "received wire rest s" "read_frame d server s" for s d
    using parse_cr [of ?c rest s] s(1) wire ok assms(4,5,12) read_frame_fields [OF s(2)]
    by (simp add: CotpConnection_getRemoteRef_def CotpConnection_getLocalRef_def received_def)
  show ?thesis using receive_packet [OF R T, of ?Q n] P by simp
qed

theorem connection_request_received_witness:
  "\<exists>client' wire ind server'.
    CotpConnection_sendConnectionRequestMessage
      (demo_connection 13 64 \<lparr>sk_inbound = [], sk_ready = [], sk_outbound = [], sk_taken = [(100, 0)]\<rparr>)
      (zero_address\<lparr>iaa_tSelector := \<lparr>sel_size = 1, sel_value = 7 # replicate 15 0\<rparr>\<rparr>) zero_address = Some (COTP_OK, client') \<and>
    sk_outbound (cot_socket client') = wire \<and>
    receive_message (length wire)
      (demo_connection 10 64 \<lparr>sk_inbound = wire, sk_ready = replicate (2 * length wire) 1, sk_outbound = [], sk_taken = []\<rparr>)
      = Some (COTP_CONNECT_INDICATION, server') \<and>
    opt_tpduSize (cot_options server') = 13 \<and> sel_size (opt_tSelDst (cot_options server')) = 1"
proof -
  let ?remote = "zero_address\<lparr>iaa_tSelector := \<lparr>sel_size = 1, sel_value = 7 # replicate 15 0\<rparr>\<rparr>"
  let ?s = "demo_connection 13 64 \<lparr>sk_inbound = [], sk_ready = [], sk_outbound = [], sk_taken = [(100, 0)]\<rparr>"
  have sel: "sel_ok (iaa_tSelector ?remote)" "sel_ok (iaa_tSelector zero_address)"
    by (simp_all add: sel_ok_def zero_address_def)
  have c: "unat (opt_tpduSize (cot_options ?s)) \<le> 13" "0 \<le> cot_localRef ?s" "cot_localRef ?s < 65536"
    "cot_writeBuffer ?s = Some (ByteBuffer_create 64)" "sk_outbound (cot_socket ?s) = []" "taking 50 1 (cot_socket ?s)"
    by (simp_all add: demo_connection_def Let_def taking_def)
  have b: "50 \<le> bb_maxSize (ByteBuffer_create 64)" "50 \<le> length (bb_buffer (ByteBuffer_create 64))"
    by (simp_all add: ByteBuffer_create_def)
  have ok: "options_ok (cot_options (?s\<lparr>cot_options := (cot_options ?s)\<lparr>opt_tSelDst := iaa_tSelector ?remote, opt_tSelSrc := iaa_tSelector zero_address\<rparr>\<rparr>))"
    using sel c(1) by (simp add: options_ok_def)
  obtain client' where C: "CotpConnection_sendConnectionRequestMessage ?s ?remote zero_address = Some (COTP_OK, client')"
    by (rule sendConnectionRequest_result [OF ok c(4) b]) (use c(6) in auto)
  define wire where "wire = sk_outbound (cot_socket client')"
  let ?p = "demo_connection 10 64 \<lparr>sk_inbound = wire, sk_ready = replicate (2 * length wire) 1, sk_outbound = [], sk_taken = []\<rparr>"
  have p: "idle_reader 50 ?p" "delivering (length wire) ?p" by (simp add: demo_connection_ok, simp add: demo_connection_def Let_def delivering_def)
  have po: "options_ok (cot_options ?p)" "sk_inbound (cot_socket ?p) = wire @ []"
    by (simp_all add: demo_connection_def Let_def options_ok_def sel_ok_def unat_of_nat)
  obtain server' where S: "receive_message (length wire) ?p = Some (COTP_CONNECT_INDICATION, server')"
    "cot_options server' = adopt_options ((cot_options ?s)\<lparr>opt_tSelDst := iaa_tSelector ?remote, opt_tSelSrc := iaa_tSelector zero_address\<rparr>) (cot_options ?p)"
    using connection_request_received [OF sel c(1-4) b C _ p(1) po, of "length wire"] p(2) c(5) by (auto simp: wire_def)
  have "opt_tpduSize (cot_options server') = 13" "sel_size (opt_tSelDst (cot_options server')) = 1"
    unfolding S(2) by (simp_all add: adopt_options_def adopt_sel_def demo_connection_def Let_def)
  then show ?thesis using C S(1) unfolding wire_def by blast
qed

section \<open>Arbitrary packets\<close>

text \<open>
  A TPDU size option whose value is 31 or more makes \<open>parseOptions\<close> shift too far; nothing else
  in the variable part does harm, and the options stay well-formed.
\<close>

definition wide_shift :: "u8 list \<Rightarrow> int \<Rightarrow> bool" where
  "wide_shift buf n \<longleftrightarrow> (\<exists>q. int q + 2 < n + 1 \<and> rd buf q = Some 0xc0 \<and> rd buf (q + 1) = Some 1 \<and>
     (\<exists>v. rd buf (q + 2) = Some v \<and> 31 \<le> unat v))"

lemma setTpduSize_ok:
  assumes "options_ok (cot_options self)" "CotpConnection_setTpduSize self t = Some self'"
  shows "options_ok (cot_options self')"
proof -
  obtain k where "self' = self\<lparr>cot_options := (cot_options self)\<lparr>opt_tpduSize := of_nat k\<rparr>\<rparr>" "k \<le> 13"
    using setTpduSize_result [of self t] assms(2) by (metis option.inject)
  then show ?thesis using assms(1) by (simp add: options_ok_def unat_of_nat)
qed

lemma wide_shiftI:
  assumes "0 \<le> p" "p + 2 < n + 1" "rdi buf p = Some 0xc0" "rdi buf (p + 1) = Some 1" "rdi buf (p + 2) = Some v" "31 \<le> unat v"
  shows "wide_shift buf n"
proof -
  have "nat (p + 1) = nat p + 1" "nat (p + 2) = nat p + 2" using assms(1) by simp_all
  then show ?thesis
    unfolding wide_shift_def using assms by (intro exI [of _ "nat p"]) (simp add: rdi_def)
qed

text \<open>What a result of the option parser has to satisfy.\<close>

definition options_result :: "u8 list \<Rightarrow> int \<Rightarrow> CotpConnection \<Rightarrow> (bool \<times> CotpConnection) option \<Rightarrow> bool" where
  "options_result buf n self r \<longleftrightarrow> (case r of
      None \<Rightarrow> wide_shift buf n
    | Some (ok, self') \<Rightarrow> options_ok (cot_options self') \<and> (\<exists>opts. self' = self\<lparr>cot_options := opts\<rparr>))"

lemma options_result_step:
  "options_result buf n (self\<lparr>cot_options := opts\<rparr>) r \<Longrightarrow> options_result buf n self r"
  by (auto simp: options_result_def split: option.splits)

lemma options_result_self: "options_ok (cot_options self) \<Longrightarrow> options_result buf n self (Some (ok, self))"
  unfolding options_result_def by (simp, metis CotpConnection.surjective CotpConnection.update_convs(6))

lemma parseOptions_safe:
  assumes "0 \<le> p" "n < int (length buf)" "options_ok (cot_options self)"
  shows "options_result buf n self (parseOptions self buf p n)"
  using assms
proof (induction self buf p n rule: parseOptions.induct)
  case (1 self buf p n)
  note ok = "1.prems"(3)
  show ?case
  proof (cases "p < n")
    case False
    then show ?thesis using options_result_self [OF ok] by (subst parseOptions.simps) simp
  next
    case True
    obtain t l where t: "rdi buf p = Some t" and l: "rdi buf (p + 1) = Some l"
      using True "1.prems" by (simp add: rdi_Some)
    show ?thesis
    proof (cases "uint l > n - (p + 2)")
      case True
      then show ?thesis
        using options_result_self [OF ok] \<open>p < n\<close> t l by (subst parseOptions.simps) simp
    next
      case fits: False
      have u: "0 \<le> uint l" by simp
      note IH = "1.IH" [OF True t l refl refl fits]
      note step = parseOptions.simps [of self buf p n, unfolded if_P [OF True]]
      have sel: "\<exists>sel'. read_selector buf (p + 2) (unat l) sel = Some sel' \<and> sel_ok sel'"
        if "sel_ok sel" "l < 17" for sel
      proof -
        have "unat l \<le> 16" using that(2) by (simp add: word_less_nat_alt)
        moreover have "p + 2 + int (unat l) \<le> int (length buf)" using fits "1.prems"(2) by simp
        ultimately show ?thesis
          using read_selector_ok [OF that(1), of "unat l" "p + 2" buf] "1.prems"(1) by (metis add_nonneg_nonneg zero_le_numeral)
      qed
      consider "t = 0xc0" | "t = 0xc1" | "t = 0xc2" | "t = 0xc6" | "t \<notin> {0xc0, 0xc1, 0xc2, 0xc6}" by auto
      then show ?thesis
      proof cases
        case 1
        show ?thesis
        proof (cases "l = 1")
          case l1: True
          obtain v where v: "rdi buf (p + 2) = Some v" using fits l1 "1.prems" by (simp add: rdi_Some)
          show ?thesis
          proof (cases "unat v < 31")
            case True
            obtain self2 opts where S: "CotpConnection_setTpduSize self (2 ^ unat v) = Some self2"
              "self2 = self\<lparr>cot_options := opts\<rparr>"
              using setTpduSize_result [of self "2 ^ unat v"] by metis
            have "options_result buf n self2 (parseOptions self2 buf (p + 3) n)"
              using IH(1) [OF 1 l1 v _ S(1)] True setTpduSize_ok [OF ok S(1)] "1.prems" by simp
            then show ?thesis
              using t l fits 1 l1 v True S options_result_step by (subst step) simp
          next
            case False
            then have "wide_shift buf n" using wide_shiftI [OF "1.prems"(1)] t l 1 l1 v fits by simp
            then show ?thesis
              using t l fits 1 l1 v False by (subst step) (simp add: options_result_def shift1_def)
          qed
        qed (use t l fits 1 options_result_self [OF ok] in \<open>subst step, simp\<close>)
      next
        case 2
        show ?thesis
        proof (cases "l < 17")
          case l17: True
          obtain sel' where s': "read_selector buf (p + 2) (unat l) (opt_tSelSrc (cot_options self)) = Some sel'" "sel_ok sel'"
            using sel [OF _ l17] ok by (auto simp: options_ok_def)
          show ?thesis
            using t l fits 2 l17 s' IH(2) [OF _ 2 l17 s'(1)] "1.prems" u options_result_step
            by (subst step) (simp add: options_ok_def)
        qed (use t l fits 2 options_result_self [OF ok] in \<open>subst step, simp\<close>)
      next
        case 3
        show ?thesis
        proof (cases "l < 17")
          case l17: True
          obtain sel' where s': "read_selector buf (p + 2) (unat l) (opt_tSelDst (cot_options self)) = Some sel'" "sel_ok sel'"
            using sel [OF _ l17] ok by (auto simp: options_ok_def)
          show ?thesis
            using t l fits 3 l17 s' IH(3) [OF _ _ 3 l17 s'(1)] "1.prems" u options_result_step
            by (subst step) (simp add: options_ok_def)
        qed (use t l fits 3 options_result_self [OF ok] in \<open>subst step, simp\<close>)
      next
        case 4
        show ?thesis
        proof (cases "l = 1")
          case l1: True
          show ?thesis
            using t l fits 4 l1 IH(4) [OF _ _ _ 4 l1] "1.prems" by (subst step) simp
        qed (use t l fits 4 options_result_self [OF ok] in \<open>subst step, simp\<close>)
      next
        case 5
        then show ?thesis
          using t l fits IH(5) "1.prems" u by (subst step) simp
      qed
    qed
  qed
qed

text \<open>A connection as it is between two packets, with a receive buffer of the size the stack allocates or less.\<close>

definition parser_ok :: "CotpConnection \<Rightarrow> bool" where
  "parser_ok self \<longleftrightarrow> options_ok (cot_options self) \<and> buffer_ok (cot_payload self) \<and>
     0 \<le> bb_size (cot_readBuffer self) \<and>
     bb_size (cot_readBuffer self) \<le> int (length (bb_buffer (cot_readBuffer self))) \<and>
     300 \<le> length (bb_buffer (cot_readBuffer self))"

lemma addPayloadToBuffer_safe:
  assumes "buffer_ok (cot_payload self)" "n \<le> int (length buf)"
  shows "case addPayloadToBuffer self buf n of
      None \<Rightarrow> n < 0
    | Some (ok, self') \<Rightarrow> \<exists>pl bs. self' = self\<lparr>cot_payload := pl\<rparr> \<and> buffer_ok pl \<and>
        buffer_content pl = buffer_content (cot_payload self) @ bs"
proof (cases "bb_size (cot_payload self) + n > bb_maxSize (cot_payload self)")
  case True
  then show ?thesis
    using assms(1) by (simp add: addPayloadToBuffer_def Let_def) (metis CotpConnection.surjective CotpConnection.update_convs(8) append_Nil2)
next
  case fits: False
  show ?thesis
  proof (cases "n < 0")
    case True
    then show ?thesis using fits by (simp add: addPayloadToBuffer_def Let_def rd_block_def)
  next
    case False
    let ?pl = "cot_payload self" and ?bs = "take (nat n) buf"
    have b: "length ?bs = nat n" "0 \<le> bb_size ?pl" "bb_size ?pl + n \<le> int (length (bb_buffer ?pl))"
      using assms False fits by (auto simp: buffer_ok_def)
    have len: "nat (bb_size ?pl) + length ?bs \<le> length (bb_buffer ?pl)" using b False by linarith
    let ?pl' = "?pl\<lparr>bb_buffer := splice (bb_buffer ?pl) (nat (bb_size ?pl)) ?bs, bb_size := bb_size ?pl + n\<rparr>"
    have "addPayloadToBuffer self buf n = Some (True, self\<lparr>cot_payload := ?pl'\<rparr>)"
      using fits False assms(2) b by (simp add: addPayloadToBuffer_def Let_def rd_block_def wr_block_def)
    moreover have "buffer_ok ?pl'"
      using assms(1) fits False length_splice [OF len] by (simp add: buffer_ok_def)
    moreover have "buffer_content ?pl' = buffer_content ?pl @ ?bs"
      using len b False by (simp add: buffer_content_def splice_def nat_add_distrib)
    ultimately show ?thesis by (simp, metis)
  qed
qed

text \<open>
  What a result of the packet parser has to satisfy: the state stays well-formed, the payload only
  grows, and the only faults are a data packet without its third byte and a wide shift.
\<close>

definition parser_result :: "CotpConnection \<Rightarrow> (CotpIndication \<times> CotpConnection) option \<Rightarrow> bool" where
  "parser_result self r \<longleftrightarrow> (case r of
      None \<Rightarrow> bb_size (cot_readBuffer self) = 6 \<and> rd (bb_buffer (cot_readBuffer self)) 4 = Some 2 \<and>
          rd (bb_buffer (cot_readBuffer self)) 5 = Some 0xf0 \<or>
        wide_shift (drop 11 (bb_buffer (cot_readBuffer self))) (uint (bb_buffer (cot_readBuffer self) ! 4) - 6)
    | Some (ind, self') \<Rightarrow> options_ok (cot_options self') \<and> buffer_ok (cot_payload self') \<and>
        cot_socket self' = cot_socket self \<and> ind \<noteq> COTP_OK \<and>
        (\<exists>bs. buffer_content (cot_payload self') = buffer_content (cot_payload self) @ bs))"

lemma connect_result:
  assumes "parser_ok self"
    "options_result (drop 11 (bb_buffer (cot_readBuffer self))) (uint (bb_buffer (cot_readBuffer self) ! 4) - 6)
       (self\<lparr>cot_remoteRef := ref, cot_protocolClass := cls\<rparr>) r"
  shows "parser_result self (do { (ok, self) \<leftarrow> r; Some (if ok then COTP_CONNECT_INDICATION else COTP_ERROR, self) })"
  using assms
  by (cases r) (auto simp: parser_result_def options_result_def parser_ok_def intro: exI [of _ "[]"])

lemma parseCotpMessage_safe:
  assumes "parser_ok self"
  shows "parser_result self (parseCotpMessage self)"
proof -
  let ?b = "bb_buffer (cot_readBuffer self)" and ?n = "bb_size (cot_readBuffer self)"
  have L: "300 \<le> length ?b" "?n \<le> int (length ?b)" "0 \<le> ?n" "options_ok (cot_options self)" "buffer_ok (cot_payload self)"
    using assms by (auto simp: parser_ok_def)
  have keep: "parser_result self (Some (COTP_ERROR, self))"
    using L by (auto simp: parser_result_def intro: exI [of _ "[]"])
  have r: "rd (drop 4 ?b) 0 = Some (?b ! 4)" "rd (drop 4 ?b) 1 = Some (?b ! 5)" "rd (drop 6 ?b) 0 = Some (?b ! 6)"
    "rd (drop 6 ?b) 4 = Some (?b ! 10)" "getUint16 (drop 2 (drop 6 ?b)) = Some (uint (?b ! 8) * 256 + uint (?b ! 9))"
    "getUint16 (drop 6 ?b) = Some (uint (?b ! 6) * 256 + uint (?b ! 7))"
    using L(1) by (simp_all add: rd_def getUint16_def)
  let ?len = "?b ! 4"
  have u: "uint ?len < 256" by (rule uint_u8_bounds)
  have O: "options_result (drop 11 ?b) (uint ?len - 6) s (parseOptions s (drop 11 ?b) 0 (uint ?len - 6))"
    if "cot_options s = cot_options self" for s
    using parseOptions_safe [of 0 "uint ?len - 6" "drop 11 ?b" s] L u that by simp
  show ?thesis
  proof (cases "uint ?len > ?n - 4")
    case True
    then show ?thesis using keep r by (simp add: parseCotpMessage_def Let_def)
  next
    case fits: False
    consider "?b ! 5 = 0xe0" | "?b ! 5 = 0xd0" | "?b ! 5 = 0xf0" | "?b ! 5 \<notin> {0xe0, 0xd0, 0xf0}" by auto
    then show ?thesis
    proof cases
      case 1
      show ?thesis
      proof (cases "?len < 6")
        case True
        then show ?thesis using keep r fits 1 by (simp add: parseCotpMessage_def Let_def parseConnectRequestTpdu_def)
      next
        case False
        then show ?thesis
          using r fits 1 connect_result [OF assms O]
          by (simp add: parseCotpMessage_def Let_def parseConnectRequestTpdu_def)
      qed
    next
      case 2
      show ?thesis
      proof (cases "?len < 6")
        case True
        then show ?thesis using keep r fits 2 by (simp add: parseCotpMessage_def Let_def parseConnectConfirmTpdu_def)
      next
        case False
        then show ?thesis
          using r fits 2 connect_result [OF assms O]
          by (simp add: parseCotpMessage_def Let_def parseConnectConfirmTpdu_def)
      qed
    next
      case 3
      show ?thesis
      proof (cases "?len = 2")
        case False
        then show ?thesis using keep r fits 3 by (simp add: parseCotpMessage_def Let_def parseDataTpdu_def)
      next
        case True
        let ?s = "self\<lparr>cot_isLastDataUnit := (?b ! 6 AND 0x80 \<noteq> 0)\<rparr>"
        have A: "case addPayloadToBuffer ?s (drop 7 ?b) (?n - 7) of
            None \<Rightarrow> ?n - 7 < 0
          | Some (ok, self') \<Rightarrow> \<exists>pl bs. self' = ?s\<lparr>cot_payload := pl\<rparr> \<and> buffer_ok pl \<and>
              buffer_content pl = buffer_content (cot_payload ?s) @ bs"
          using addPayloadToBuffer_safe [of ?s "?n - 7" "drop 7 ?b"] L by simp
        have P: "parseCotpMessage self = do {
            (added, self) \<leftarrow> addPayloadToBuffer ?s (drop 7 ?b) (?n - 7);
            Some (if \<not> added then COTP_ERROR else if cot_isLastDataUnit self then COTP_DATA_INDICATION
                  else COTP_MORE_FRAGMENTS_FOLLOW, self) }"
          using r fits 3 True by (simp add: parseCotpMessage_def Let_def parseDataTpdu_def)
        show ?thesis
        proof (cases "addPayloadToBuffer ?s (drop 7 ?b) (?n - 7)")
          case None
          then have "?n = 6" using A fits True by simp
          then show ?thesis using None P r 3 True L(1) by (simp add: parser_result_def rd_def)
        next
          case (Some res)
          then show ?thesis using A P L by (cases res) (auto simp: parser_result_def)
        qed
      qed
    next
      case 4
      then show ?thesis using keep r fits by (simp add: parseCotpMessage_def Let_def)
    qed
  qed
qed

text \<open>
  C26: an arbitrary packet in the receive buffer. \<open>CotpConnection_parseIncomingMessage\<close> returns an
  indication, empties the receive buffer, leaves the options and the payload buffer well-formed
  (T-selectors of at most 16 bytes, a TPDU size of at most 8192, the payload within its buffer) and
  only appends to the payload; it commits a C error only on a data packet of six bytes and on a
  TPDU size option of 31 or more.
\<close>

theorem incoming_message_safe:
  assumes "parser_ok self"
  shows "case CotpConnection_parseIncomingMessage self of
      None \<Rightarrow> bb_size (cot_readBuffer self) = 6 \<and> rd (bb_buffer (cot_readBuffer self)) 4 = Some 2 \<and>
          rd (bb_buffer (cot_readBuffer self)) 5 = Some 0xf0 \<or>
        wide_shift (drop 11 (bb_buffer (cot_readBuffer self))) (uint (bb_buffer (cot_readBuffer self) ! 4) - 6)
    | Some (ind, self') \<Rightarrow> options_ok (cot_options self') \<and> buffer_ok (cot_payload self') \<and>
        cot_socket self' = cot_socket self \<and> ind \<noteq> COTP_OK \<and>
        bb_size (cot_readBuffer self') = 0 \<and> cot_packetSize self' = 0 \<and>
        (\<exists>bs. buffer_content (cot_payload self') = buffer_content (cot_payload self) @ bs)"
  using parseCotpMessage_safe [OF assms]
  by (auto simp: CotpConnection_parseIncomingMessage_def parser_result_def split: option.splits)

theorem incoming_message_safe_witness:
  "CotpConnection_parseIncomingMessage (demo_connection 10 400 \<lparr>sk_inbound = [], sk_ready = [], sk_outbound = [], sk_taken = []\<rparr>) \<noteq> None"
proof -
  let ?s = "demo_connection 10 400 \<lparr>sk_inbound = [], sk_ready = [], sk_outbound = [], sk_taken = []\<rparr>"
  have p: "parser_ok ?s"
    by (simp add: parser_ok_def demo_connection_def Let_def options_ok_def sel_ok_def unat_of_nat buffer_ok_def ByteBuffer_create_def)
  have b: "bb_buffer (cot_readBuffer ?s) = replicate 400 0" "bb_size (cot_readBuffer ?s) = 0"
    by (simp_all add: demo_connection_def Let_def ByteBuffer_create_def)
  have "\<not> wide_shift (drop 11 (bb_buffer (cot_readBuffer ?s))) (uint (bb_buffer (cot_readBuffer ?s) ! 4) - 6)"
    unfolding b by (simp add: wide_shift_def)
  then show ?thesis
    using incoming_message_safe [OF p] b(2) by (auto split: option.splits)
qed

section \<open>What goes wrong\<close>

lemma six_byte_data_packet:
  assumes "buffer_ok (cot_payload self)" "bb_size (cot_readBuffer self) = 6"
    "bb_buffer (cot_readBuffer self) = pre @ [2, 0xf0] @ post" "length pre = 4"
  shows "CotpConnection_parseIncomingMessage self = None"
proof -
  let ?b = "bb_buffer (cot_readBuffer self)"
  have d: "drop 4 ?b = 2 # 0xf0 # post" using assms(3,4) by simp
  have A: "addPayloadToBuffer s bs (- 1) = None" if "cot_payload s = cot_payload self" for s bs
    using assms(1) that by (auto simp: addPayloadToBuffer_def Let_def rd_block_def buffer_ok_def)
  show ?thesis
    unfolding CotpConnection_parseIncomingMessage_def parseCotpMessage_def Let_def d
    using assms(2) A by (cases post) (auto simp: rd_def parseDataTpdu_def split: Option.bind_splits)
qed

lemma tiny_tpdu_nothing_sent:
  assumes "opt_tpduSize (cot_options self) = of_nat e" "e \<le> 1" "payload = p # ps" "2 \<le> bc_length p"
  shows "CotpConnection_sendDataMessage self payload = Some (COTP_OK, self)"
proof -
  have e: "e = 0 \<or> e = 1" using assms(2) by auto
  have "bc_length p sdiv (- 1) + (if bc_length p smod (- 1) \<noteq> 0 then 1 else 0) \<le> 0"
    "bc_length p sdiv (- 2) + (if bc_length p smod (- 2) \<noteq> 0 then 1 else 0) \<le> 0"
    using assms(4) by (auto simp: signed_divide_int_def sgn_if)
  then show ?thesis
    using e assms by (auto simp: CotpConnection_sendDataMessage_def CotpConnection_getTpduSize_def rd_def Let_def)
qed

lemma short_tpkt_header:
  assumes "bb_size (cot_readBuffer self) = 0" "4 < bb_maxSize (cot_readBuffer self)"
    "bb_maxSize (cot_readBuffer self) \<le> int (length (bb_buffer (cot_readBuffer self)))"
    "sk_inbound (cot_socket self) = [3, 0, 0, n] @ rest" "n < 4" "sk_ready (cot_socket self) = r # rs" "4 \<le> r"
  shows "CotpConnection_readToTpktBuffer self = None"
proof -
  let ?b = "bb_buffer (cot_readBuffer self)"
  have len: "4 \<le> length ?b" using assms(2,3) by linarith
  have S: "Socket_read 4 (cot_socket self) =
      (4, [3, 0, 0, n], (cot_socket self)\<lparr>sk_ready := rs, sk_inbound := rest\<rparr>)"
    using assms(4,6,7) by (simp add: Socket_read_def Let_def min_def)
  have R: "readFromSocket self 0 4 = Some (4, self\<lparr>cot_socket := (cot_socket self)\<lparr>sk_ready := rs, sk_inbound := rest\<rparr>,
      cot_readBuffer := (cot_readBuffer self)\<lparr>bb_buffer := splice ?b 0 [3, 0, 0, n]\<rparr>\<rparr>)"
    using len S by (simp add: readFromSocket_def Let_def rd_block_def wr_block_def)
  have b: "splice ?b 0 [3, 0, 0, n] = 3 # 0 # 0 # n # drop 4 ?b"
    by (simp add: splice_def eval_nat_numeral)
  have u: "uint n < 4" using assms(5) by (simp add: word_less_def)
  then have p: "uint (word_of_int (uint n) :: u16) = uint n"
    unfolding uint_word_of_int by (intro mod_pos_pos_trivial) simp_all
  have B: "read_tpkt_body s 4 = None" if "cot_packetSize s = word_of_int (uint n)" for s
    using that p u by (simp add: read_tpkt_body_def readFromSocket_def rd_block_def Let_def)
  show ?thesis
    using assms(1,2) R b p u B
    by (simp add: CotpConnection_readToTpktBuffer_def Let_def getUint16_def rd_def)
qed

text \<open>The references of a connect confirm: the one that is taken is the destination's.\<close>

lemma confirm_reference:
  assumes "bb_buffer (cot_readBuffer self) = [3, 0, 0, 11, 6, 0xd0, d1, d0, s1, s0, 0] @ post"
    "bb_size (cot_readBuffer self) = 11"
  shows "\<exists>self'. CotpConnection_parseIncomingMessage self = Some (COTP_CONNECT_INDICATION, self') \<and>
    CotpConnection_getRemoteRef self' = uint d1 * 256 + uint d0"
proof -
  have "parseCotpMessage self =
      Some (COTP_CONNECT_INDICATION, self\<lparr>cot_remoteRef := uint d1 * 256 + uint d0, cot_protocolClass := 0\<rparr>)"
    using assms
    by (simp add: parseCotpMessage_def Let_def rd_def parseConnectConfirmTpdu_def getUint16_def parseOptions.simps)
  then show ?thesis by (simp add: CotpConnection_parseIncomingMessage_def CotpConnection_getRemoteRef_def)
qed

text \<open>
  Inputs the transport layer mishandles. (1) A TPKT header that announces fewer than four bytes
  makes the reader call \<open>recv\<close> with a negative count. (2) A data packet of six bytes, whose
  header lacks the third byte, makes \<open>addPayloadToBuffer\<close> copy a block of -1 bytes. (3) A peer that
  asks for a TPDU size of \<open>2 ^ 0\<close> or \<open>2 ^ 1\<close> is answered with nothing: the number of fragments comes
  out negative or zero, no byte is written and the message counts as sent. (4) A connect confirm
  leaves the destination reference, that is the receiver's own, as the remote reference.
\<close>

theorem transport_defects:
  assumes "bb_size (cot_readBuffer c1) = 0" "4 < bb_maxSize (cot_readBuffer c1)"
    "bb_maxSize (cot_readBuffer c1) \<le> int (length (bb_buffer (cot_readBuffer c1)))"
    "sk_inbound (cot_socket c1) = [3, 0, 0, n] @ rest" "n < 4" "sk_ready (cot_socket c1) = r # rs" "4 \<le> r"
    "buffer_ok (cot_payload c2)" "bb_size (cot_readBuffer c2) = 6"
    "bb_buffer (cot_readBuffer c2) = [3, 0, 0, 6, 2, 0xf0] @ post"
    "CotpConnection_setTpduSize c3 (2 ^ e) = Some c3'" "e \<le> 1" "2 \<le> bc_length p"
    "bb_buffer (cot_readBuffer c4) = [3, 0, 0, 11, 6, 0xd0, d1, d0, s1, s0, 0] @ post'"
    "bb_size (cot_readBuffer c4) = 11"
  shows "CotpConnection_readToTpktBuffer c1 = None \<and>
    CotpConnection_parseIncomingMessage c2 = None \<and>
    CotpConnection_sendDataMessage c3' (p # ps) = Some (COTP_OK, c3') \<and>
    (\<exists>c4'. CotpConnection_parseIncomingMessage c4 = Some (COTP_CONNECT_INDICATION, c4') \<and>
       CotpConnection_getRemoteRef c4' = uint d1 * 256 + uint d0)"
proof (intro conjI)
  show "CotpConnection_readToTpktBuffer c1 = None" by (rule short_tpkt_header [OF assms(1-7)])
  show "CotpConnection_parseIncomingMessage c2 = None"
    using six_byte_data_packet [OF assms(8,9), of "[3, 0, 0, 6]" post] assms(10) by simp
  show "CotpConnection_sendDataMessage c3' (p # ps) = Some (COTP_OK, c3')"
    using setTpduSize_power [of e c3] assms(11-13) tiny_tpdu_nothing_sent [of c3' e "p # ps" p ps] by auto
  show "\<exists>c4'. CotpConnection_parseIncomingMessage c4 = Some (COTP_CONNECT_INDICATION, c4') \<and>
      CotpConnection_getRemoteRef c4' = uint d1 * 256 + uint d0"
    by (rule confirm_reference [OF assms(14,15)])
qed

end
