(* ===== verification/IsoSession.thy ===== *)
theory IsoSession
  imports IsoBuffer
begin

text \<open>
  \<^verbatim>\<open>mms/iso_session/iso_session.c\<close>: the ISO session protocol.

  A session PDU is written into the first part of a buffer chain in front of its payload, and
  parsed from the payload buffer of the transport connection. Offsets are C \<open>int\<close>s; \<open>None\<close> is an
  access outside the message's buffer object. The parser follows the lengths it reads without
  comparing them with the size of the message, so it may well read behind it.
\<close>

section \<open>The session\<close>

record IsoSession =
  ses_callingSessionSelector :: Selector
  ses_calledSessionSelector :: Selector
  ses_sessionRequirement :: u16
  ses_protocolOptions :: u8
  ses_userData :: ByteBuffer

datatype IsoSessionIndication = SESSION_OK | SESSION_ERROR | SESSION_CONNECT | SESSION_GIVE_TOKEN
  | SESSION_DATA | SESSION_ABORT | SESSION_FINISH | SESSION_DISCONNECT | SESSION_NOT_FINISHED

definition IsoSession_init :: IsoSession where
  "IsoSession_init =
     \<lparr>ses_callingSessionSelector = \<lparr>sel_size = 2, sel_value = (replicate 16 0)[0 := 0, 1 := 1]\<rparr>,
      ses_calledSessionSelector = \<lparr>sel_size = 2, sel_value = (replicate 16 0)[0 := 0, 1 := 1]\<rparr>,
      ses_sessionRequirement = 0x0002, ses_protocolOptions = 0,
      ses_userData = \<lparr>bb_buffer = [], bb_maxSize = 0, bb_size = 0\<rparr>\<rparr>"

definition IsoSession_getUserData :: "IsoSession \<Rightarrow> ByteBuffer" where
  "IsoSession_getUserData session = ses_userData session"

section \<open>Parsing\<close>

text \<open>The loop of \<open>parseAcceptParameters\<close>; the flags are \<open>hasProtocolOptions\<close> and \<open>hasProtocolVersion\<close>.\<close>

function accept_loop ::
    "u8 list \<Rightarrow> int \<Rightarrow> bool \<Rightarrow> bool \<Rightarrow> int \<Rightarrow> IsoSession \<Rightarrow> ((int \<times> bool \<times> bool) option \<times> IsoSession) option" where
  "accept_loop buf maxOffset hasOptions hasVersion offset session =
     (if offset < maxOffset then do {
        pi \<leftarrow> rdi buf offset;
        param_len \<leftarrow> rdi buf (offset + 1);
        if pi = 19 then
          (if param_len \<noteq> 1 then Some (None, session)
           else do {
             v \<leftarrow> rdi buf (offset + 2);
             accept_loop buf maxOffset True hasVersion (offset + 3) (session\<lparr>ses_protocolOptions := v\<rparr>) })
        else if pi = 21 then accept_loop buf maxOffset hasOptions hasVersion (offset + 6) session
        else if pi = 22 then do {
          v \<leftarrow> rdi buf (offset + 2);
          if v \<noteq> 2 then Some (None, session)
          else accept_loop buf maxOffset hasOptions True (offset + 3) session }
        else if pi = 26 then do {
          _ \<leftarrow> rdi buf (offset + 2);
          accept_loop buf maxOffset hasOptions hasVersion (offset + 3) session }
        else if pi \<in> {23, 55, 56, 57, 58} then
          accept_loop buf maxOffset hasOptions hasVersion (offset + 2 + uint param_len) session
        else accept_loop buf maxOffset hasOptions hasVersion (offset + 2) session }
      else Some (Some (offset, hasOptions, hasVersion), session))"
  by pat_completeness auto

termination
proof (relation "measure (\<lambda>(buf, m, a, b, p, s). nat (m - p))", goal_cases)
  case 1
  show ?case by simp
qed (use uint_u8_bounds(1) in \<open>auto simp: nat_less_eq_zless intro: less_le_trans [of _ 0]\<close>)

declare accept_loop.simps [simp del]

definition parseAcceptParameters :: "IsoSession \<Rightarrow> ByteBuffer \<Rightarrow> int \<Rightarrow> int \<Rightarrow> (int \<times> IsoSession) option" where
  "parseAcceptParameters session message startOffset parameterLength = do {
     (r, session) \<leftarrow> accept_loop (bb_buffer message) (startOffset + parameterLength) False False startOffset session;
     Some (case r of
             Some (offset, hasOptions, hasVersion) \<Rightarrow>
               if hasOptions \<and> hasVersion then (offset - startOffset, session) else (- 1, session)
           | None \<Rightarrow> (- 1, session)) }"

lemma accept_loop_offset:
  "accept_loop buf m a b p s = Some (Some (q, a', b'), s') \<Longrightarrow> p \<le> q"
proof (induction buf m a b p s rule: accept_loop.induct)
  case (1 buf m a b p s)
  note step = "1.prems" [unfolded accept_loop.simps [of buf m a b p s]]
  show ?case
  proof (cases "p < m")
    case False
    then show ?thesis using step by simp
  next
    case True
    then obtain pi l where r: "rdi buf p = Some pi" "rdi buf (p + 1) = Some l"
      using step by (auto split: Option.bind_splits)
    have u: "p \<le> p + 2 + uint l" by simp
    note IH = "1.IH" [OF True r]
    consider "pi = 19" | "pi = 21" | "pi = 22" | "pi = 26" | "pi \<in> {23, 55, 56, 57, 58}"
      | "pi \<notin> {19, 21, 22, 26, 23, 55, 56, 57, 58}" by auto
    then show ?thesis
    proof cases
      case 5
      then have "pi \<noteq> 19 \<and> pi \<noteq> 21 \<and> pi \<noteq> 22 \<and> pi \<noteq> 26" by auto
      then show ?thesis using step True r IH(5) 5 u by (simp only: simp_thms if_True if_False Option.bind.simps True_implies_equals)
    qed (use step True r IH in \<open>auto split: if_splits Option.bind_splits\<close>)
  qed
qed

function header_loop ::
    "ByteBuffer \<Rightarrow> int \<Rightarrow> int \<Rightarrow> IsoSession \<Rightarrow> (IsoSessionIndication \<times> IsoSession) option" where
  "header_loop message parametersOctets offset session =
     (if offset < parametersOctets + 2 then do {
        pgi \<leftarrow> rdi (bb_buffer message) offset;
        parameterLength \<leftarrow> rdi (bb_buffer message) (offset + 1);
        if pgi \<in> {1, 17, 25, 49, 60} then
          header_loop message parametersOctets (offset + 2 + uint parameterLength) session
        else if pgi = 5 then do {
          (connectAcceptLen, session) \<leftarrow> parseAcceptParameters session message (offset + 2) (uint parameterLength);
          if connectAcceptLen = - 1 then Some (SESSION_ERROR, session)
          else header_loop message parametersOctets (offset + 2 + connectAcceptLen) session }
        else if pgi = 20 then
          (if parameterLength \<noteq> 2 then Some (SESSION_ERROR, session)
           else do {
             h \<leftarrow> rdi (bb_buffer message) (offset + 2);
             l \<leftarrow> rdi (bb_buffer message) (offset + 3);
             header_loop message parametersOctets (offset + 4)
               (session\<lparr>ses_sessionRequirement := word_of_int (uint h * 0x100 + uint l)\<rparr>) })
        else if pgi = 51 then
          (if parameterLength > 16 then Some (SESSION_ERROR, session)
           else do {
             sel \<leftarrow> read_selector (bb_buffer message) (offset + 2) (unat parameterLength) (ses_callingSessionSelector session);
             header_loop message parametersOctets (offset + 2 + uint parameterLength)
               (session\<lparr>ses_callingSessionSelector := sel\<rparr>) })
        else if pgi = 52 then
          (if parameterLength > 16 then Some (SESSION_ERROR, session)
           else do {
             sel \<leftarrow> read_selector (bb_buffer message) (offset + 2) (unat parameterLength) (ses_calledSessionSelector session);
             header_loop message parametersOctets (offset + 2 + uint parameterLength)
               (session\<lparr>ses_calledSessionSelector := sel\<rparr>) })
        else if pgi = 193 then
          Some (SESSION_OK, session\<lparr>ses_userData :=
            ByteBuffer_wrap (drop (nat (offset + 2)) (bb_buffer message))
              (bb_size message - (offset + 2)) (bb_maxSize message - (offset + 2))\<rparr>)
        else header_loop message parametersOctets (offset + 2) session }
      else Some (SESSION_ERROR, session))"
  by pat_completeness auto

termination
proof (relation "measure (\<lambda>(msg, n, p, s). nat (n + 2 - p))", goal_cases)
  case 1
  show ?case by simp
next
  case (3 message n p s pgi l x r s')
  then have "r \<noteq> - 1" "parseAcceptParameters s message (p + 2) (uint l) = Some (r, s')" by auto
  then have "0 \<le> r"
    by (auto simp: parseAcceptParameters_def dest!: accept_loop_offset split: Option.bind_splits option.splits if_splits)
  then show ?case using 3(1) by (simp add: nat_less_eq_zless)
qed (auto simp: nat_less_eq_zless intro: le_less_trans [of _ 0])

declare header_loop.simps [simp del]

definition parseSessionHeaderParameters :: "IsoSession \<Rightarrow> ByteBuffer \<Rightarrow> int \<Rightarrow> (IsoSessionIndication \<times> IsoSession) option" where
  "parseSessionHeaderParameters session message parametersOctets = header_loop message parametersOctets 2 session"

definition IsoSession_parseMessage :: "IsoSession \<Rightarrow> ByteBuffer \<Rightarrow> (IsoSessionIndication \<times> IsoSession) option" where
  "IsoSession_parseMessage session message =
     (if \<not> bb_size message > 1 then Some (SESSION_ERROR, session)
      else do {
        id \<leftarrow> rd (bb_buffer message) 0;
        len \<leftarrow> rd (bb_buffer message) 1;
        let with_header = (\<lambda>ind.
          if uint len \<noteq> bb_size message - 2 then Some (SESSION_ERROR, session)
          else do {
            (r, session) \<leftarrow> parseSessionHeaderParameters session message (uint len);
            Some (if r = SESSION_OK then ind else SESSION_ERROR, session) });
        if id = 13 then with_header SESSION_CONNECT
        else if id = 14 then with_header SESSION_CONNECT
        else if id = 1 then
          (if bb_size message < 4 then Some (SESSION_ERROR, session)
           else do {
             b2 \<leftarrow> rd (bb_buffer message) 2;
             b3 \<leftarrow> rd (bb_buffer message) 3;
             Some (if len = 0 \<and> b2 = 1 \<and> b3 = 0 then
                     (SESSION_DATA, session\<lparr>ses_userData := ByteBuffer_wrap (drop 4 (bb_buffer message))
                        (bb_size message - 4) (bb_maxSize message - 4)\<rparr>)
                   else (SESSION_ERROR, session)) })
        else if id = 8 then Some (SESSION_NOT_FINISHED, session)
        else if id = 9 then with_header SESSION_FINISH
        else if id = 10 then with_header SESSION_DISCONNECT
        else if id = 25 then Some (SESSION_ABORT, session)
        else Some (SESSION_ERROR, session) })"

section \<open>Writing\<close>

definition dataSpdu :: "u8 list" where
  "dataSpdu = [0x01, 0x00, 0x01, 0x00]"

definition IsoSession_createDataSpdu :: "IsoSession \<Rightarrow> ChainPart \<Rightarrow> BufferChain \<Rightarrow> BufferChain option" where
  "IsoSession_createDataSpdu session buffer payload = do {
     n \<leftarrow> payload_length payload;
     Some (buffer\<lparr>bc_buffer := dataSpdu, bc_partLength := 4, bc_length := 4 + n\<rparr> # payload) }"

definition encodeConnectAcceptItem :: "u8 \<Rightarrow> cursor \<Rightarrow> cursor option" where
  "encodeConnectAcceptItem options c = puts [5, 6, 0x13, 1, options, 0x16, 1, 2] c"

definition encodeConnectionIdentifier :: "u8 \<Rightarrow> cursor \<Rightarrow> cursor option" where
  "encodeConnectionIdentifier reasonCode c = puts [1, 2, 17, 1, 1, 50, 1, reasonCode] c"

definition encodeSessionRequirement :: "IsoSession \<Rightarrow> cursor \<Rightarrow> cursor option" where
  "encodeSessionRequirement self c =
     puts [0x14, 2, ucast (ses_sessionRequirement self div 0x100), ucast (ses_sessionRequirement self AND 0x00ff)] c"

definition encodeCallingSessionSelector :: "IsoSession \<Rightarrow> cursor \<Rightarrow> cursor option" where
  "encodeCallingSessionSelector self c = do {
     let sel = ses_callingSessionSelector self;
     c \<leftarrow> puts [0x33, of_nat (sel_size sel)] c;
     put_from (sel_value sel) 0 (sel_size sel) c }"

definition encodeCalledSessionSelector :: "IsoSession \<Rightarrow> cursor \<Rightarrow> cursor option" where
  "encodeCalledSessionSelector self c = do {
     let sel = ses_calledSessionSelector self;
     c \<leftarrow> puts [0x34, of_nat (sel_size sel)] c;
     put_from (sel_value sel) 0 (sel_size sel) c }"

definition encodeSessionUserData :: "u8 \<Rightarrow> cursor \<Rightarrow> cursor option" where
  "encodeSessionUserData payloadLength c = puts [0xc1, payloadLength] c"

definition IsoSession_createConnectSpdu ::
    "IsoSession \<Rightarrow> IsoApplicationAddress \<Rightarrow> IsoApplicationAddress \<Rightarrow> ChainPart \<Rightarrow> BufferChain \<Rightarrow> (IsoSession \<times> BufferChain) option" where
  "IsoSession_createConnectSpdu self remoteAddress localAddress buffer payload = do {
     n \<leftarrow> payload_length payload;
     (buf, p) \<leftarrow> put 13 (bc_buffer buffer, 0);
     let lengthOffset = p;
     let self = self\<lparr>ses_calledSessionSelector := iaa_sSelector remoteAddress,
                    ses_callingSessionSelector := iaa_sSelector localAddress\<rparr>;
     c \<leftarrow> encodeConnectAcceptItem 0 (buf, p + 1);
     c \<leftarrow> encodeSessionRequirement self c;
     c \<leftarrow> encodeCallingSessionSelector self c;
     c \<leftarrow> encodeCalledSessionSelector self c;
     (buf, offset) \<leftarrow> encodeSessionUserData (word_of_int n) c;
     buf \<leftarrow> wr buf lengthOffset (word_of_int (int offset - int lengthOffset - 1 + n));
     Some (self, framed_part buffer buf (int offset) n payload) }"

definition IsoSession_createAcceptSpdu :: "IsoSession \<Rightarrow> ChainPart \<Rightarrow> BufferChain \<Rightarrow> BufferChain option" where
  "IsoSession_createAcceptSpdu self buffer payload = do {
     n \<leftarrow> payload_length payload;
     (buf, p) \<leftarrow> put 14 (bc_buffer buffer, 0);
     let lengthOffset = p;
     c \<leftarrow> encodeConnectAcceptItem (ses_protocolOptions self) (buf, p + 1);
     c \<leftarrow> encodeSessionRequirement self c;
     c \<leftarrow> encodeCalledSessionSelector self c;
     (buf, offset) \<leftarrow> encodeSessionUserData (word_of_int n) c;
     buf \<leftarrow> wr buf lengthOffset (word_of_int (int offset - int lengthOffset - 1 + n));
     Some (framed_part buffer buf (int offset) n payload) }"

definition IsoSession_createAbortSpdu :: "IsoSession \<Rightarrow> ChainPart \<Rightarrow> BufferChain \<Rightarrow> BufferChain option" where
  "IsoSession_createAbortSpdu self buffer payload = do {
     n \<leftarrow> payload_length payload;
     (buf, offset) \<leftarrow> puts [25, word_of_int (5 + n), 17, 1, 11, 193, word_of_int n] (bc_buffer buffer, 0);
     Some (framed_part buffer buf (int offset) n payload) }"

definition IsoSession_createFinishSpdu :: "IsoSession \<Rightarrow> ChainPart \<Rightarrow> BufferChain \<Rightarrow> BufferChain option" where
  "IsoSession_createFinishSpdu self buffer payload = do {
     n \<leftarrow> payload_length payload;
     (buf, offset) \<leftarrow> puts [9, word_of_int (2 + n), 193, word_of_int n] (bc_buffer buffer, 0);
     Some (framed_part buffer buf (int offset) n payload) }"

definition IsoSession_createDisconnectSpdu :: "IsoSession \<Rightarrow> ChainPart \<Rightarrow> BufferChain \<Rightarrow> BufferChain option" where
  "IsoSession_createDisconnectSpdu self buffer payload = do {
     n \<leftarrow> payload_length payload;
     (buf, offset) \<leftarrow> puts [10, word_of_int (2 + n), 193, word_of_int n] (bc_buffer buffer, 0);
     Some (framed_part buffer buf (int offset) n payload) }"

text \<open>\<open>IsoSession_createRefuseSpdu\<close> writes into the buffer but neither the length nor the chain.\<close>

definition IsoSession_createRefuseSpdu :: "ChainPart \<Rightarrow> u8 \<Rightarrow> ChainPart option" where
  "IsoSession_createRefuseSpdu buffer reasonCode = do {
     (buf, p) \<leftarrow> put 12 (bc_buffer buffer, 0);
     (buf, offset) \<leftarrow> encodeConnectionIdentifier reasonCode (buf, p + 1);
     Some (buffer\<lparr>bc_buffer := buf\<rparr>) }"

end
