(* ===== verification/IsoSession_Laws.thy ===== *)
theory IsoSession_Laws
  imports IsoSession Cotp_Connect
begin

text \<open>
  Laws of the session layer: the parser takes from a session PDU what the writer put into it, and
  it stays within the receive buffer whatever the bytes are.
\<close>

section \<open>What is written\<close>

definition ssel_bytes :: "u8 \<Rightarrow> Selector \<Rightarrow> u8 list" where
  "ssel_bytes code s = [code, of_nat (sel_size s)] @ take (sel_size s) (sel_value s)"

definition accept_item :: "u8 \<Rightarrow> u8 list" where
  "accept_item options = [5, 6, 0x13, 1, options, 0x16, 1, 2]"

definition requirement_bytes :: "IsoSession \<Rightarrow> u8 list" where
  "requirement_bytes self =
     [0x14, 2, ucast (ses_sessionRequirement self div 0x100), ucast (ses_sessionRequirement self AND 0x00ff)]"

definition connect_header :: "IsoSession \<Rightarrow> nat \<Rightarrow> u8 list" where
  "connect_header self n =
     (let body = accept_item 0 @ requirement_bytes self @ ssel_bytes 0x33 (ses_callingSessionSelector self) @
                 ssel_bytes 0x34 (ses_calledSessionSelector self) @ [0xc1, of_nat n]
      in [13, of_nat (length body + n)] @ body)"

definition accept_header :: "IsoSession \<Rightarrow> nat \<Rightarrow> u8 list" where
  "accept_header self n =
     (let body = accept_item (ses_protocolOptions self) @ requirement_bytes self @
                 ssel_bytes 0x34 (ses_calledSessionSelector self) @ [0xc1, of_nat n]
      in [14, of_nat (length body + n)] @ body)"

lemma length_ssel_bytes: "sel_ok s \<Longrightarrow> length (ssel_bytes code s) = 2 + sel_size s"
  by (simp add: ssel_bytes_def sel_ok_def)

lemma encode_selector: "sel_ok s \<Longrightarrow>
    do { c \<leftarrow> puts [code, of_nat (sel_size s)] c; put_from (sel_value s) 0 (sel_size s) c } = puts (ssel_bytes code s) c"
  unfolding ssel_bytes_def puts_append by (simp add: sel_ok_def put_from_puts)

text \<open>A header assembled from \<open>k\<close> bytes on, its second byte filled in at the end.\<close>

lemma patched_header:
  assumes "2 + length body \<le> length buf"
  shows "puts body (splice buf 0 [t], 2) = Some (splice (splice buf 0 [t]) 2 body, 2 + length body)"
    "wr (splice (splice buf 0 [t]) 2 body) 1 l = Some (splice buf 0 ([t, l] @ body))"
proof -
  have len: "length (splice buf 0 [t]) = length buf" using assms by (simp add: length_splice)
  then show "puts body (splice buf 0 [t], 2) = Some (splice (splice buf 0 [t]) 2 body, 2 + length body)"
    using assms by (simp add: puts_eq)
  obtain a b rest where buf: "buf = a # b # rest"
    using assms by (cases buf; cases "tl buf") auto
  show "wr (splice (splice buf 0 [t]) 2 body) 1 l = Some (splice buf 0 ([t, l] @ body))"
    by (simp add: buf splice_def wr_def)
qed

lemma connect_written:
  fixes self :: IsoSession and remote :: IsoApplicationAddress and loc :: IsoApplicationAddress
  defines "s1 \<equiv> self\<lparr>ses_calledSessionSelector := iaa_sSelector remote, ses_callingSessionSelector := iaa_sSelector loc\<rparr>"
  assumes "sel_ok (iaa_sSelector remote)" "sel_ok (iaa_sSelector loc)" "chain_ok payload"
    "0 < bc_partLength (hd payload)" "52 \<le> length (bc_buffer buffer)"
  obtains chain where "IsoSession_createConnectSpdu self remote loc buffer payload = Some (s1, chain)"
    "framed (connect_header s1 (length (chain_bytes payload))) payload chain"
proof -
  let ?n = "length (chain_bytes payload)" and ?b = "bc_buffer buffer"
  define body where "body = accept_item 0 @ requirement_bytes s1 @ ssel_bytes 0x33 (ses_callingSessionSelector s1) @
      ssel_bytes 0x34 (ses_calledSessionSelector s1) @ [0xc1, of_nat ?n]"
  have fields: "ses_calledSessionSelector s1 = iaa_sSelector remote" "ses_callingSessionSelector s1 = iaa_sSelector loc"
    by (simp_all add: s1_def)
  have sel: "sel_ok (ses_calledSessionSelector s1)" "sel_ok (ses_callingSessionSelector s1)"
    using assms(2,3) by (simp_all add: fields)
  have fit: "2 + length body \<le> length ?b"
    using assms(6) sel by (simp add: body_def accept_item_def requirement_bytes_def length_ssel_bytes)
      (simp add: sel_ok_def)
  have enc: "do {
      c \<leftarrow> encodeConnectAcceptItem 0 c;
      c \<leftarrow> encodeSessionRequirement s1 c;
      c \<leftarrow> encodeCallingSessionSelector s1 c;
      c \<leftarrow> encodeCalledSessionSelector s1 c;
      encodeSessionUserData (word_of_int (int ?n)) c } = puts body c" for c
    unfolding body_def puts_append encodeConnectAcceptItem_def encodeSessionRequirement_def
      encodeCallingSessionSelector_def encodeCalledSessionSelector_def encodeSessionUserData_def
      accept_item_def requirement_bytes_def Let_def encode_selector [OF sel(1)] encode_selector [OF sel(2)]
    by (simp only: of_int_of_nat_eq)
  have p: "put 13 (?b, 0) = Some (splice ?b 0 [13], Suc 0)"
    using fit by (intro put_splice) auto
  note ph = patched_header [OF fit, of 13]
  have "IsoSession_createConnectSpdu self remote loc buffer payload =
      do { (buf, offset) \<leftarrow> puts body (splice ?b 0 [13], 2);
           buf \<leftarrow> wr buf 1 (word_of_int (int offset - 1 - 1 + int ?n));
           Some (s1, framed_part buffer buf (int offset) (int ?n) payload) }"
    unfolding IsoSession_createConnectSpdu_def bc_length_payload [OF assms(4)] Option.bind.simps p Let_def
      s1_def [symmetric] prod.case enc [symmetric]
    by (simp add: bind_assoc numeral_2_eq_2)
  also have "\<dots> = Some (s1, framed_part buffer (splice ?b 0 (connect_header s1 ?n)) (int (length (connect_header s1 ?n))) (int ?n) payload)"
    using ph by (simp add: connect_header_def Let_def body_def [symmetric] add.commute)
  finally show ?thesis
    using that framed_part_ok [OF assms(4,5), of "connect_header s1 ?n" buffer] fit
    by (simp add: connect_header_def Let_def body_def [symmetric])
qed

lemma accept_written:
  assumes "sel_ok (ses_calledSessionSelector self)" "chain_ok payload"
    "0 < bc_partLength (hd payload)" "34 \<le> length (bc_buffer buffer)"
  obtains chain where "IsoSession_createAcceptSpdu self buffer payload = Some chain"
    "framed (accept_header self (length (chain_bytes payload))) payload chain"
proof -
  let ?n = "length (chain_bytes payload)" and ?b = "bc_buffer buffer"
  define body where "body = accept_item (ses_protocolOptions self) @ requirement_bytes self @
      ssel_bytes 0x34 (ses_calledSessionSelector self) @ [0xc1, of_nat ?n]"
  have fit: "2 + length body \<le> length ?b"
    using assms(4) assms(1) by (simp add: body_def accept_item_def requirement_bytes_def length_ssel_bytes)
      (simp add: sel_ok_def)
  have enc: "do {
      c \<leftarrow> encodeConnectAcceptItem (ses_protocolOptions self) c;
      c \<leftarrow> encodeSessionRequirement self c;
      c \<leftarrow> encodeCalledSessionSelector self c;
      encodeSessionUserData (word_of_int (int ?n)) c } = puts body c" for c
    unfolding body_def puts_append encodeConnectAcceptItem_def encodeSessionRequirement_def
      encodeCalledSessionSelector_def encodeSessionUserData_def
      accept_item_def requirement_bytes_def Let_def encode_selector [OF assms(1)]
    by (simp only: of_int_of_nat_eq)
  have p: "put 14 (?b, 0) = Some (splice ?b 0 [14], Suc 0)"
    using fit by (intro put_splice) auto
  note ph = patched_header [OF fit, of 14]
  have "IsoSession_createAcceptSpdu self buffer payload =
      do { (buf, offset) \<leftarrow> puts body (splice ?b 0 [14], 2);
           buf \<leftarrow> wr buf 1 (word_of_int (int offset - 1 - 1 + int ?n));
           Some (framed_part buffer buf (int offset) (int ?n) payload) }"
    unfolding IsoSession_createAcceptSpdu_def bc_length_payload [OF assms(2)] Option.bind.simps p Let_def
      prod.case enc [symmetric]
    by (simp add: bind_assoc numeral_2_eq_2)
  also have "\<dots> = Some (framed_part buffer (splice ?b 0 (accept_header self ?n)) (int (length (accept_header self ?n))) (int ?n) payload)"
    using ph by (simp add: accept_header_def Let_def body_def [symmetric] add.commute)
  finally show ?thesis
    using that framed_part_ok [OF assms(2,3), of "accept_header self ?n" buffer] fit
    by (simp add: accept_header_def Let_def body_def [symmetric])
qed

lemma short_spdu_written:
  assumes "chain_ok payload" "0 < bc_partLength (hd payload)" "7 \<le> length (bc_buffer buffer)"
  defines "n \<equiv> length (chain_bytes payload)"
  shows "\<exists>chain. IsoSession_createFinishSpdu self buffer payload = Some chain \<and>
      framed [9, of_nat (2 + n), 193, of_nat n] payload chain"
    "\<exists>chain. IsoSession_createDisconnectSpdu self buffer payload = Some chain \<and>
      framed [10, of_nat (2 + n), 193, of_nat n] payload chain"
    "\<exists>chain. IsoSession_createAbortSpdu self buffer payload = Some chain \<and>
      framed [25, of_nat (5 + n), 17, 1, 11, 193, of_nat n] payload chain"
    "\<exists>chain. IsoSession_createDataSpdu self buffer payload = Some chain \<and> framed dataSpdu payload chain"
  using assms(3) framed_part_ok [OF assms(1,2), of "[9, of_nat (2 + n), 193, of_nat n]" buffer]
    framed_part_ok [OF assms(1,2), of "[10, of_nat (2 + n), 193, of_nat n]" buffer]
    framed_part_ok [OF assms(1,2), of "[25, of_nat (5 + n), 17, 1, 11, 193, of_nat n]" buffer] assms(1,2)
  by (simp_all add: IsoSession_createFinishSpdu_def IsoSession_createDisconnectSpdu_def IsoSession_createAbortSpdu_def
      IsoSession_createDataSpdu_def bc_length_payload puts_eq n_def framed_def dataSpdu_def part_bytes_def del: puts.simps)

section \<open>What is parsed\<close>

text \<open>The selector of the peer in the place of the own one.\<close>

definition take_sel :: "Selector \<Rightarrow> Selector \<Rightarrow> Selector" where
  "take_sel theirs mine =
     mine\<lparr>sel_size := sel_size theirs,
          sel_value := splice (sel_value mine) 0 (take (sel_size theirs) (sel_value theirs))\<rparr>"

definition same_sel :: "Selector \<Rightarrow> Selector \<Rightarrow> bool" where
  "same_sel a b \<longleftrightarrow> sel_size a = sel_size b \<and> take (sel_size a) (sel_value a) = take (sel_size b) (sel_value b)"

lemma take_sel_same: "sel_ok theirs \<Longrightarrow> sel_ok mine \<Longrightarrow> same_sel (take_sel theirs mine) theirs"
  using splice_read [of 0 "take (sel_size theirs) (sel_value theirs)" "sel_value mine"]
  by (auto simp: same_sel_def take_sel_def sel_ok_def min_def)

lemma parse_accept_item:
  assumes "drop q (bb_buffer msg) = accept_item options @ bs" "int q < n + 2"
  shows "header_loop msg n (int q) s = header_loop msg n (int (q + 8)) (s\<lparr>ses_protocolOptions := options\<rparr>)"
proof -
  let ?b = "bb_buffer msg"
  note r = rdi_at [OF assms(1)]
  have h: "rdi ?b (int q) = Some 5" "rdi ?b (int q + 1) = Some 6"
    "rdi ?b (int q + 2) = Some 19" "rdi ?b (int q + 3) = Some 1" "rdi ?b (int q + 4) = Some options"
    "rdi ?b (int q + 5) = Some 22" "rdi ?b (int q + 6) = Some 1" "rdi ?b (int q + 7) = Some 2"
    using r [of 0] r [of 1] r [of 2] r [of 3] r [of 4] r [of 5] r [of 6] r [of 7]
    by (simp_all add: accept_item_def)
  have e: "accept_loop ?b (int q + 8) True True (int q + 8) (s\<lparr>ses_protocolOptions := options\<rparr>) =
      Some (Some (int q + 8, True, True), s\<lparr>ses_protocolOptions := options\<rparr>)"
    by (subst accept_loop.simps) simp
  have "accept_loop ?b (int q + 8) True False (int q + 5) (s\<lparr>ses_protocolOptions := options\<rparr>) =
      Some (Some (int q + 8, True, True), s\<lparr>ses_protocolOptions := options\<rparr>)"
    using h e by (subst accept_loop.simps) (simp add: add.assoc)
  then have "accept_loop ?b (int q + 8) False False (int q + 2) s =
      Some (Some (int q + 8, True, True), s\<lparr>ses_protocolOptions := options\<rparr>)"
    using h by (subst accept_loop.simps) (simp add: add.assoc)
  then have "parseAcceptParameters s msg (int q + 2) 6 = Some (6, s\<lparr>ses_protocolOptions := options\<rparr>)"
    by (simp add: parseAcceptParameters_def add.assoc)
  then show ?thesis using h assms(2) by (subst header_loop.simps) (simp add: add.assoc)
qed

lemma requirement_bytes_value:
  "(word_of_int (uint (ucast (r div 0x100) :: u8) * 0x100 + uint (ucast (r AND 0x00ff) :: u8)) :: u16) = r"
proof -
  have b: "0 \<le> uint r" "uint r < 65536" using uint_lt2p [of r] by simp_all
  have "uint (ucast (r AND 0x00ff) :: u8) = (uint r AND 255) mod 256"
    by (simp add: unsigned_ucast_eq take_bit_eq_mod uint_and)
  also have "uint r AND 255 = uint r mod 256"
    using take_bit_eq_mask [of 8 "uint r"] by (simp add: take_bit_eq_mod mask_eq_exp_minus_1)
  finally have lo: "uint (ucast (r AND 0x00ff) :: u8) = uint r mod 256" by simp
  have "uint (ucast (r div 0x100) :: u8) = uint r div 256 mod 256"
    by (simp add: unsigned_ucast_eq take_bit_eq_mod uint_div)
  also have "\<dots> = uint r div 256" using b by (intro mod_pos_pos_trivial) (simp_all add: pos_imp_zdiv_nonneg_iff)
  finally show ?thesis using lo by simp
qed

lemma parse_requirement:
  assumes "drop q (bb_buffer msg) = requirement_bytes c @ bs" "int q < n + 2"
  shows "header_loop msg n (int q) s =
    header_loop msg n (int (q + 4)) (s\<lparr>ses_sessionRequirement := ses_sessionRequirement c\<rparr>)"
proof -
  let ?b = "bb_buffer msg" and ?r = "ses_sessionRequirement c"
  note r = rdi_at [OF assms(1)]
  have "rdi ?b (int q) = Some 20" "rdi ?b (int q + 1) = Some 2"
    "rdi ?b (int q + 2) = Some (ucast (?r div 0x100))" "rdi ?b (int q + 3) = Some (ucast (?r AND 0x00ff))"
    using r [of 0] r [of 1] r [of 2] r [of 3] by (simp_all add: requirement_bytes_def)
  then show ?thesis
    using assms(2) requirement_bytes_value [of ?r]
    by (subst header_loop.simps) (simp add: add.assoc)
qed

lemma parse_selector_item:
  assumes "drop q (bb_buffer msg) = ssel_bytes code sel @ bs" "int q < n + 2" "sel_ok sel" "sel_ok mine"
    "int (q + 2 + sel_size sel) \<le> int (length (bb_buffer msg))"
    "mine = (if code = 51 then ses_callingSessionSelector s else ses_calledSessionSelector s)"
    "code = 51 \<or> code = 52"
  shows "header_loop msg n (int q) s = header_loop msg n (int (q + 2 + sel_size sel))
    (if code = 51 then s\<lparr>ses_callingSessionSelector := take_sel sel mine\<rparr>
     else s\<lparr>ses_calledSessionSelector := take_sel sel mine\<rparr>)"
proof -
  let ?b = "bb_buffer msg" and ?m = "sel_size sel"
  have m: "?m \<le> 16" "length (sel_value sel) = 16" using assms(3) by (auto simp: sel_ok_def)
  note r = rdi_at [OF assms(1)]
  have h: "rdi ?b (int q) = Some code" "rdi ?b (int q + 1) = Some (of_nat ?m)"
    using r [of 0] r [of 1] by (simp_all add: ssel_bytes_def)
  have u: "unat (of_nat ?m :: u8) = ?m" "uint (of_nat ?m :: u8) = int ?m" "\<not> (of_nat ?m :: u8) > 16"
    using m(1) by (simp_all add: unat_of_nat word_less_nat_alt uint_nat)
  have "drop (Suc (Suc q)) ?b = take ?m (sel_value sel) @ bs"
    using drop_at [of q ?b "[code, of_nat ?m]"] assms(1) by (simp add: ssel_bytes_def)
  then have "take ?m (drop (nat (int q + 2)) ?b) = take ?m (sel_value sel)"
    using m by (simp add: nat_add_distrib)
  then have p: "read_selector ?b (int q + 2) ?m mine = Some (take_sel sel mine)"
    using assms(4,5) m by (simp add: read_selector_def rd_block_def wr_block_def take_sel_def sel_ok_def)
  have ne: "(51 :: u8) \<notin> {1, 17, 25, 49, 60}" "(52 :: u8) \<notin> {1, 17, 25, 49, 60}" "(51 :: u8) \<noteq> 5" "(52 :: u8) \<noteq> 5"
    "(51 :: u8) \<noteq> 20" "(52 :: u8) \<noteq> 20" "(52 :: u8) \<noteq> 51" "(51 :: u8) \<noteq> 52" by simp_all
  have e: "int q + 2 + uint (of_nat ?m :: u8) = int (q + 2 + ?m)" using u(2) by simp
  from assms(7) show ?thesis
  proof
    assume c: "code = 51"
    then have p1: "read_selector ?b (int q + 2) ?m (ses_callingSessionSelector s) = Some (take_sel sel (ses_callingSessionSelector s))"
      using p assms(6) by simp
    show ?thesis unfolding c using assms(6) c
      by (subst header_loop.simps)
        (simp only: h [unfolded c] u(1,3) ne p1 e assms(2) Option.bind.simps simp_thms if_True if_False)
  next
    assume c: "code = 52"
    then have p2: "read_selector ?b (int q + 2) ?m (ses_calledSessionSelector s) = Some (take_sel sel (ses_calledSessionSelector s))"
      using p assms(6) by simp
    show ?thesis unfolding c using assms(6) c
      by (subst header_loop.simps)
        (simp only: h [unfolded c] u(1,3) ne p2 e assms(2) Option.bind.simps simp_thms if_True if_False)
  qed
qed

lemma parse_user_data:
  assumes "drop q (bb_buffer msg) = [0xc1, l] @ bs" "int q < n + 2"
  shows "header_loop msg n (int q) s = Some (SESSION_OK, s\<lparr>ses_userData :=
    ByteBuffer_wrap bs (bb_size msg - int (q + 2)) (bb_maxSize msg - int (q + 2))\<rparr>)"
proof -
  note r = rdi_at [OF assms(1)]
  have "rdi (bb_buffer msg) (int q) = Some 193" "rdi (bb_buffer msg) (int q + 1) = Some l"
    using r [of 0] r [of 1] by simp_all
  moreover have "drop (nat (int q + 2)) (bb_buffer msg) = bs"
    using drop_at [OF assms(1)] by (simp add: nat_add_distrib)
  ultimately show ?thesis using assms(2) by (subst header_loop.simps) (simp, simp add: add.commute)
qed

lemma parse_headed:
  assumes "chain_bytes chain = [t, of_nat k] @ rest" "length rest = k" "k \<le> 255"
    "header_loop (message_of chain post m) (int k) 2 s = Some (SESSION_OK, s')"
    "(t, ind) \<in> {(13, SESSION_CONNECT), (14, SESSION_CONNECT), (9, SESSION_FINISH), (10, SESSION_DISCONNECT)}"
  shows "IsoSession_parseMessage s (message_of chain post m) = Some (ind, s')"
proof -
  have u: "uint (of_nat k :: u8) = int k"
    using assms(3) by (simp add: uint_nat unat_of_nat del: of_nat_unat)
  have sz: "bb_size (message_of chain post m) = 2 + int k" "bb_buffer (message_of chain post m) = t # of_nat k # rest @ post"
    using assms(1,2) by (simp_all add: message_of_def)
  show ?thesis
    using assms(4,5) u sz
    by (auto simp: IsoSession_parseMessage_def Let_def rd_def parseSessionHeaderParameters_def)
qed

lemma connect_parsed:
  fixes c s :: IsoSession
  defines "calling \<equiv> ses_callingSessionSelector c" and "called \<equiv> ses_calledSessionSelector c"
  assumes "framed (connect_header c (length (chain_bytes payload))) payload chain" "length (chain_bytes payload) \<le> 205"
    "sel_ok calling" "sel_ok called" "sel_ok (ses_callingSessionSelector s)" "sel_ok (ses_calledSessionSelector s)"
  shows "IsoSession_parseMessage s (message_of chain post m) = Some (SESSION_CONNECT,
    s\<lparr>ses_protocolOptions := 0, ses_sessionRequirement := ses_sessionRequirement c,
      ses_callingSessionSelector := take_sel calling (ses_callingSessionSelector s),
      ses_calledSessionSelector := take_sel called (ses_calledSessionSelector s),
      ses_userData := ByteBuffer_wrap (chain_bytes payload @ post) (int (length (chain_bytes payload)))
        (m - int (20 + sel_size calling + sel_size called))\<rparr>)"
proof -
  let ?n = "length (chain_bytes payload)" and ?msg = "message_of chain post m"
  let ?a = "sel_size calling" and ?b = "sel_size called"
  define k where "k = 18 + ?a + ?b + ?n"
  have ab: "?a \<le> 16" "?b \<le> 16" using assms(5,6) by (auto simp: sel_ok_def)
  have lens: "length (ssel_bytes 0x33 calling) = 2 + ?a" "length (ssel_bytes 0x34 called) = 2 + ?b"
    using assms(5,6) by (simp_all add: length_ssel_bytes)
  have cb: "chain_bytes chain = [13, of_nat k] @ accept_item 0 @ requirement_bytes c @ ssel_bytes 0x33 calling @
      ssel_bytes 0x34 called @ [0xc1, of_nat ?n] @ chain_bytes payload"
    using assms(3) lens
    by (simp add: framed_def connect_header_def Let_def calling_def called_def k_def accept_item_def requirement_bytes_def add.commute add.left_commute)
  have len: "length (chain_bytes chain) = 2 + k"
    using lens unfolding cb by (simp add: k_def accept_item_def requirement_bytes_def)
  have buf: "bb_buffer ?msg = chain_bytes chain @ post" "bb_size ?msg = 2 + int k" "bb_maxSize ?msg = m"
    using len by (simp_all add: message_of_def)
  have d2: "drop 2 (bb_buffer ?msg) = accept_item 0 @ requirement_bytes c @ ssel_bytes 0x33 calling @
      ssel_bytes 0x34 called @ [0xc1, of_nat ?n] @ chain_bytes payload @ post"
    unfolding buf cb by simp
  have d10: "drop 10 (bb_buffer ?msg) = requirement_bytes c @ ssel_bytes 0x33 calling @
      ssel_bytes 0x34 called @ [0xc1, of_nat ?n] @ chain_bytes payload @ post"
    using drop_at [OF d2] by (simp add: accept_item_def)
  have d14: "drop 14 (bb_buffer ?msg) = ssel_bytes 0x33 calling @ ssel_bytes 0x34 called @ [0xc1, of_nat ?n] @ chain_bytes payload @ post"
    using drop_at [OF d10] by (simp add: requirement_bytes_def)
  have d3: "drop (16 + ?a) (bb_buffer ?msg) = ssel_bytes 0x34 called @ [0xc1, of_nat ?n] @ chain_bytes payload @ post"
    using drop_at [OF d14] by (simp add: lens)
  have d4: "drop (18 + ?a + ?b) (bb_buffer ?msg) = [0xc1, of_nat ?n] @ chain_bytes payload @ post"
    using drop_at [OF d3] by (simp add: lens algebra_simps)
  have L: "int (length (bb_buffer ?msg)) \<ge> 2 + int k" using len by (simp add: buf)
  let ?s1 = "s\<lparr>ses_protocolOptions := 0\<rparr>"
  let ?s2 = "?s1\<lparr>ses_sessionRequirement := ses_sessionRequirement c\<rparr>"
  let ?s3 = "?s2\<lparr>ses_callingSessionSelector := take_sel calling (ses_callingSessionSelector s)\<rparr>"
  let ?s4 = "?s3\<lparr>ses_calledSessionSelector := take_sel called (ses_calledSessionSelector s)\<rparr>"
  have S3: "header_loop ?msg (int k) (int 14) ?s2 = header_loop ?msg (int k) (int (14 + 2 + ?a))
      (if (0x33 :: u8) = 51 then ?s3 else ?s2\<lparr>ses_calledSessionSelector := take_sel calling (ses_callingSessionSelector s)\<rparr>)"
    by (rule parse_selector_item [OF d14 _ assms(5,7)]) (use L in \<open>simp_all add: k_def\<close>)
  have S4: "header_loop ?msg (int k) (int (16 + ?a)) ?s3 = header_loop ?msg (int k) (int (16 + ?a + 2 + ?b))
      (if (0x34 :: u8) = 51 then ?s3\<lparr>ses_callingSessionSelector := take_sel called (ses_calledSessionSelector s)\<rparr> else ?s4)"
    by (rule parse_selector_item [OF d3 _ assms(6,8)]) (use L in \<open>simp_all add: k_def\<close>)
  have "header_loop ?msg (int k) 2 s = header_loop ?msg (int k) 10 ?s1"
    using parse_accept_item [OF d2, of "int k" s] by (simp add: k_def)
  also have "\<dots> = header_loop ?msg (int k) 14 ?s2"
    using parse_requirement [OF d10, of "int k" ?s1] by (simp add: k_def)
  also have "\<dots> = header_loop ?msg (int k) (int (16 + ?a)) ?s3"
    using S3 by simp
  also have "\<dots> = header_loop ?msg (int k) (int (18 + ?a + ?b)) ?s4"
    using S4 by simp
  also have "\<dots> = Some (SESSION_OK, ?s4\<lparr>ses_userData := ByteBuffer_wrap (chain_bytes payload @ post)
      (bb_size ?msg - int (18 + ?a + ?b + 2)) (bb_maxSize ?msg - int (18 + ?a + ?b + 2))\<rparr>)"
    by (rule parse_user_data [OF d4]) (simp add: k_def)
  finally have H: "header_loop ?msg (int k) 2 s = Some (SESSION_OK, ?s4\<lparr>ses_userData := ByteBuffer_wrap
      (chain_bytes payload @ post) (int ?n) (m - int (20 + ?a + ?b))\<rparr>)"
    by (simp add: buf k_def algebra_simps)
  show ?thesis
  proof (rule parse_headed [OF cb])
    show "k \<le> 255" using ab assms(4) by (simp add: k_def)
  qed (use H lens in \<open>simp_all add: k_def accept_item_def requirement_bytes_def\<close>)
qed

lemma accept_parsed:
  fixes c s :: IsoSession
  defines "called \<equiv> ses_calledSessionSelector c"
  assumes "framed (accept_header c (length (chain_bytes payload))) payload chain" "length (chain_bytes payload) \<le> 205"
    "sel_ok called" "sel_ok (ses_calledSessionSelector s)"
  shows "IsoSession_parseMessage s (message_of chain post m) = Some (SESSION_CONNECT,
    s\<lparr>ses_protocolOptions := ses_protocolOptions c, ses_sessionRequirement := ses_sessionRequirement c,
      ses_calledSessionSelector := take_sel called (ses_calledSessionSelector s),
      ses_userData := ByteBuffer_wrap (chain_bytes payload @ post) (int (length (chain_bytes payload)))
        (m - int (18 + sel_size called))\<rparr>)"
proof -
  let ?n = "length (chain_bytes payload)" and ?msg = "message_of chain post m" and ?b = "sel_size called"
  define k where "k = 16 + ?b + ?n"
  have ab: "?b \<le> 16" using assms(4) by (auto simp: sel_ok_def)
  have lens: "length (ssel_bytes 0x34 called) = 2 + ?b"
    using assms(4) by (simp add: length_ssel_bytes)
  have cb: "chain_bytes chain = [14, of_nat k] @ accept_item (ses_protocolOptions c) @ requirement_bytes c @
      ssel_bytes 0x34 called @ [0xc1, of_nat ?n] @ chain_bytes payload"
    using assms(2) lens
    by (simp add: framed_def accept_header_def Let_def called_def k_def accept_item_def requirement_bytes_def add.commute add.left_commute)
  have len: "length (chain_bytes chain) = 2 + k"
    using lens unfolding cb by (simp add: k_def accept_item_def requirement_bytes_def)
  have buf: "bb_buffer ?msg = chain_bytes chain @ post" "bb_size ?msg = 2 + int k" "bb_maxSize ?msg = m"
    using len by (simp_all add: message_of_def)
  have d2: "drop 2 (bb_buffer ?msg) = accept_item (ses_protocolOptions c) @ requirement_bytes c @
      ssel_bytes 0x34 called @ [0xc1, of_nat ?n] @ chain_bytes payload @ post"
    unfolding buf cb by simp
  have d10: "drop 10 (bb_buffer ?msg) = requirement_bytes c @
      ssel_bytes 0x34 called @ [0xc1, of_nat ?n] @ chain_bytes payload @ post"
    using drop_at [OF d2] by (simp add: accept_item_def)
  have d14: "drop 14 (bb_buffer ?msg) = ssel_bytes 0x34 called @ [0xc1, of_nat ?n] @ chain_bytes payload @ post"
    using drop_at [OF d10] by (simp add: requirement_bytes_def)
  have d4: "drop (16 + ?b) (bb_buffer ?msg) = [0xc1, of_nat ?n] @ chain_bytes payload @ post"
    using drop_at [OF d14] by (simp add: lens algebra_simps)
  have L: "int (length (bb_buffer ?msg)) \<ge> 2 + int k" using len by (simp add: buf)
  let ?s2 = "s\<lparr>ses_protocolOptions := ses_protocolOptions c, ses_sessionRequirement := ses_sessionRequirement c\<rparr>"
  let ?s4 = "?s2\<lparr>ses_calledSessionSelector := take_sel called (ses_calledSessionSelector s)\<rparr>"
  have S4: "header_loop ?msg (int k) (int 14) ?s2 = header_loop ?msg (int k) (int (14 + 2 + ?b))
      (if (0x34 :: u8) = 51 then ?s2\<lparr>ses_callingSessionSelector := take_sel called (ses_calledSessionSelector s)\<rparr> else ?s4)"
    by (rule parse_selector_item [OF d14 _ assms(4,5)]) (use L in \<open>simp_all add: k_def\<close>)
  have "header_loop ?msg (int k) 2 s = header_loop ?msg (int k) 10 (s\<lparr>ses_protocolOptions := ses_protocolOptions c\<rparr>)"
    using parse_accept_item [OF d2, of "int k" s] by (simp add: k_def)
  also have "\<dots> = header_loop ?msg (int k) 14 ?s2"
    using parse_requirement [OF d10, of "int k" "s\<lparr>ses_protocolOptions := ses_protocolOptions c\<rparr>"] by (simp add: k_def)
  also have "\<dots> = header_loop ?msg (int k) (int (16 + ?b)) ?s4"
    using S4 by simp
  also have "\<dots> = Some (SESSION_OK, ?s4\<lparr>ses_userData := ByteBuffer_wrap (chain_bytes payload @ post)
      (bb_size ?msg - int (16 + ?b + 2)) (bb_maxSize ?msg - int (16 + ?b + 2))\<rparr>)"
    by (rule parse_user_data [OF d4]) (simp add: k_def)
  finally have H: "header_loop ?msg (int k) 2 s = Some (SESSION_OK, ?s4\<lparr>ses_userData := ByteBuffer_wrap
      (chain_bytes payload @ post) (int ?n) (m - int (18 + ?b))\<rparr>)"
    by (simp add: buf k_def algebra_simps)
  show ?thesis
  proof (rule parse_headed [OF cb])
    show "k \<le> 255" using ab assms(3) by (simp add: k_def)
  qed (use H lens in \<open>simp_all add: k_def accept_item_def requirement_bytes_def\<close>)
qed

text \<open>
  C27: session PDUs. What \<open>IsoSession_createConnectSpdu\<close> writes in front of a payload is parsed by
  the peer as a connect: it gets the payload as user data, the session requirement, the protocol
  options 0 and both session selectors of the caller; likewise the accept, with the protocol
  options of the acceptor and the called selector. Both hold as long as the length octet can
  hold the length of the PDU, whatever the receive buffer holds behind the message.
\<close>

theorem session_roundtrip:
  assumes "sel_ok (iaa_sSelector remote)" "sel_ok (iaa_sSelector loc)" "sel_ok (ses_calledSessionSelector acc)"
    "sel_ok (ses_callingSessionSelector peer)" "sel_ok (ses_calledSessionSelector peer)"
    "chain_ok payload" "0 < bc_partLength (hd payload)" "52 \<le> length (bc_buffer buffer)"
    "length (chain_bytes payload) \<le> 205"
  shows "(\<exists>s1 chain peer'. IsoSession_createConnectSpdu self remote loc buffer payload = Some (s1, chain) \<and> chain_ok chain \<and>
      IsoSession_parseMessage peer (message_of chain post m) = Some (SESSION_CONNECT, peer') \<and>
      buffer_content (IsoSession_getUserData peer') = chain_bytes payload \<and>
      ses_sessionRequirement peer' = ses_sessionRequirement self \<and> ses_protocolOptions peer' = 0 \<and>
      same_sel (ses_callingSessionSelector peer') (iaa_sSelector loc) \<and>
      same_sel (ses_calledSessionSelector peer') (iaa_sSelector remote)) \<and>
    (\<exists>chain peer'. IsoSession_createAcceptSpdu acc buffer payload = Some chain \<and> chain_ok chain \<and>
      IsoSession_parseMessage peer (message_of chain post m) = Some (SESSION_CONNECT, peer') \<and>
      buffer_content (IsoSession_getUserData peer') = chain_bytes payload \<and>
      ses_sessionRequirement peer' = ses_sessionRequirement acc \<and>
      ses_protocolOptions peer' = ses_protocolOptions acc \<and>
      ses_callingSessionSelector peer' = ses_callingSessionSelector peer \<and>
      same_sel (ses_calledSessionSelector peer') (ses_calledSessionSelector acc))"
proof (intro conjI)
  let ?c = "self\<lparr>ses_calledSessionSelector := iaa_sSelector remote, ses_callingSessionSelector := iaa_sSelector loc\<rparr>"
  obtain chain where C: "IsoSession_createConnectSpdu self remote loc buffer payload = Some (?c, chain)"
    "framed (connect_header ?c (length (chain_bytes payload))) payload chain"
    using connect_written [OF assms(1,2,6-8)] by blast
  show "\<exists>s1 chain peer'. IsoSession_createConnectSpdu self remote loc buffer payload = Some (s1, chain) \<and> chain_ok chain \<and>
      IsoSession_parseMessage peer (message_of chain post m) = Some (SESSION_CONNECT, peer') \<and>
      buffer_content (IsoSession_getUserData peer') = chain_bytes payload \<and>
      ses_sessionRequirement peer' = ses_sessionRequirement self \<and> ses_protocolOptions peer' = 0 \<and>
      same_sel (ses_callingSessionSelector peer') (iaa_sSelector loc) \<and>
      same_sel (ses_calledSessionSelector peer') (iaa_sSelector remote)"
    using C connect_parsed [OF C(2) assms(9), of peer post m] assms(1,2,4,5)
    by (auto simp: IsoSession_getUserData_def buffer_content_def ByteBuffer_wrap_def take_sel_same framed_def)
next
  obtain chain where C: "IsoSession_createAcceptSpdu acc buffer payload = Some chain"
    "framed (accept_header acc (length (chain_bytes payload))) payload chain"
    by (rule accept_written [OF assms(3,6,7)]) (use assms(8) in auto)
  show "\<exists>chain peer'. IsoSession_createAcceptSpdu acc buffer payload = Some chain \<and> chain_ok chain \<and>
      IsoSession_parseMessage peer (message_of chain post m) = Some (SESSION_CONNECT, peer') \<and>
      buffer_content (IsoSession_getUserData peer') = chain_bytes payload \<and>
      ses_sessionRequirement peer' = ses_sessionRequirement acc \<and>
      ses_protocolOptions peer' = ses_protocolOptions acc \<and>
      ses_callingSessionSelector peer' = ses_callingSessionSelector peer \<and>
      same_sel (ses_calledSessionSelector peer') (ses_calledSessionSelector acc)"
    using C accept_parsed [OF C(2) assms(9) assms(3,5), of post m] assms(3,5)
    by (auto simp: IsoSession_getUserData_def buffer_content_def ByteBuffer_wrap_def take_sel_same framed_def)
qed

theorem session_roundtrip_witness:
  "\<exists>s1 chain peer'.
    IsoSession_createConnectSpdu IsoSession_init (zero_address\<lparr>iaa_sSelector := \<lparr>sel_size = 1, sel_value = 7 # replicate 15 0\<rparr>\<rparr>)
      zero_address \<lparr>bc_length = 0, bc_partLength = 0, bc_partMaxLength = 100, bc_buffer = replicate 100 0\<rparr>
      (BufferChain_init 2 2 [] [8, 9]) = Some (s1, chain) \<and>
    IsoSession_parseMessage IsoSession_init (message_of chain [1, 2, 3] 1000) = Some (SESSION_CONNECT, peer') \<and>
    buffer_content (IsoSession_getUserData peer') = [8, 9] \<and> sel_size (ses_calledSessionSelector peer') = 1"
proof -
  let ?remote = "zero_address\<lparr>iaa_sSelector := \<lparr>sel_size = 1, sel_value = 7 # replicate 15 0\<rparr>\<rparr>"
  let ?b = "\<lparr>bc_length = 0, bc_partLength = 0, bc_partMaxLength = 100, bc_buffer = replicate 100 (0 :: u8)\<rparr>"
  let ?p = "BufferChain_init 2 2 [] [8, 9]"
  have h: "sel_ok (iaa_sSelector ?remote)" "sel_ok (iaa_sSelector zero_address)"
    "sel_ok (ses_calledSessionSelector IsoSession_init)" "sel_ok (ses_callingSessionSelector IsoSession_init)"
    "sel_ok (ses_calledSessionSelector IsoSession_init)" "chain_ok ?p" "0 < bc_partLength (hd ?p)"
    "52 \<le> length (bc_buffer ?b)" "length (chain_bytes ?p) \<le> 205"
    by (simp_all add: sel_ok_def zero_address_def IsoSession_init_def BufferChain_init_def part_bytes_def)
  have p: "chain_bytes ?p = [8, 9]" by (simp add: BufferChain_init_def part_bytes_def)
  show ?thesis
    using session_roundtrip [OF h, of IsoSession_init "[1, 2, 3]" 1000] p
    by (fastforce simp: same_sel_def)
qed

lemma session_data_roundtrip:
  assumes "chain_ok payload" "0 < bc_partLength (hd payload)"
  shows "\<exists>chain. IsoSession_createDataSpdu self buffer payload = Some chain \<and> chain_ok chain \<and>
    chain_bytes chain = dataSpdu @ chain_bytes payload \<and>
    IsoSession_parseMessage s (message_of chain post m) = Some (SESSION_DATA, s\<lparr>ses_userData :=
      ByteBuffer_wrap (chain_bytes payload @ post) (int (length (chain_bytes payload))) (m - 4)\<rparr>)"
proof -
  let ?c = "buffer\<lparr>bc_buffer := dataSpdu, bc_partLength := 4, bc_length := 4 + int (length (chain_bytes payload))\<rparr> # payload"
  have "IsoSession_createDataSpdu self buffer payload = Some ?c" "chain_ok ?c" "chain_bytes ?c = dataSpdu @ chain_bytes payload"
    using assms by (simp_all add: IsoSession_createDataSpdu_def bc_length_payload part_bytes_def dataSpdu_def)
  then show ?thesis
    by (auto simp: IsoSession_parseMessage_def message_of_def dataSpdu_def rd_def Let_def)
qed

lemma session_release_roundtrip:
  assumes "chain_ok payload" "0 < bc_partLength (hd payload)" "4 \<le> length (bc_buffer buffer)"
    "length (chain_bytes payload) \<le> 253"
    "(create, ind) \<in> {(IsoSession_createFinishSpdu, SESSION_FINISH), (IsoSession_createDisconnectSpdu, SESSION_DISCONNECT)}"
  shows "\<exists>chain. create self buffer payload = Some chain \<and> chain_ok chain \<and>
    IsoSession_parseMessage s (message_of chain post m) = Some (ind, s\<lparr>ses_userData :=
      ByteBuffer_wrap (chain_bytes payload @ post) (int (length (chain_bytes payload))) (m - 4)\<rparr>)"
proof -
  let ?n = "length (chain_bytes payload)"
  define t :: u8 where "t = (if ind = SESSION_FINISH then 9 else 10)"
  let ?h = "[t, of_nat (2 + ?n), 193, of_nat ?n]"
  define chain where "chain = framed_part buffer (splice (bc_buffer buffer) 0 ?h) 4 (int ?n) payload"
  have c: "create self buffer payload = Some chain"
    using assms(1,3,5) unfolding chain_def
    by (auto simp: IsoSession_createFinishSpdu_def IsoSession_createDisconnectSpdu_def bc_length_payload puts_eq t_def simp del: puts.simps)
  have p: "framed ?h payload chain"
    using framed_part_ok [OF assms(1,2), of ?h buffer] assms(3) unfolding chain_def by simp
  then have b: "chain_bytes chain = [t, of_nat (2 + ?n)] @ [193, of_nat ?n] @ chain_bytes payload"
    by (simp add: framed_def)
  have "header_loop (message_of chain post m) (int (2 + ?n)) (int 2) s = Some (SESSION_OK, s\<lparr>ses_userData :=
      ByteBuffer_wrap (chain_bytes payload @ post) (bb_size (message_of chain post m) - int (2 + 2))
        (bb_maxSize (message_of chain post m) - int (2 + 2))\<rparr>)"
    by (rule parse_user_data) (simp_all add: message_of_def b)
  moreover have "bb_size (message_of chain post m) = 4 + int ?n" "bb_maxSize (message_of chain post m) = m"
    by (simp_all add: message_of_def b)
  ultimately have H: "header_loop (message_of chain post m) (int (2 + ?n)) 2 s = Some (SESSION_OK, s\<lparr>ses_userData :=
      ByteBuffer_wrap (chain_bytes payload @ post) (int ?n) (m - 4)\<rparr>)" by simp
  have "IsoSession_parseMessage s (message_of chain post m) = Some (ind, s\<lparr>ses_userData :=
      ByteBuffer_wrap (chain_bytes payload @ post) (int ?n) (m - 4)\<rparr>)"
    by (rule parse_headed [OF b _ _ H]) (use assms(4,5) in \<open>auto simp: t_def\<close>)
  then show ?thesis using c p by (auto simp: framed_def)
qed

section \<open>Arbitrary messages\<close>

definition session_ok :: "IsoSession \<Rightarrow> bool" where
  "session_ok s \<longleftrightarrow> sel_ok (ses_callingSessionSelector s) \<and> sel_ok (ses_calledSessionSelector s)"

lemma accept_loop_safe:
  assumes "0 \<le> p" "m + 2 \<le> int (length buf)"
  shows "\<exists>r s'. accept_loop buf m a b p s = Some (r, s') \<and> (session_ok s \<longrightarrow> session_ok s')"
  using assms
proof (induction buf m a b p s rule: accept_loop.induct)
  case (1 buf m a b p s)
  show ?case
  proof (cases "p < m")
    case False
    then show ?thesis by (subst accept_loop.simps) auto
  next
    case True
    obtain t l v where r: "rdi buf p = Some t" "rdi buf (p + 1) = Some l" "rdi buf (p + 2) = Some v"
      using True "1.prems" by (simp add: rdi_Some)
    have u: "0 \<le> uint l" by simp
    note IH = "1.IH" [OF True r(1,2)]
    note step = accept_loop.simps [of buf m a b p s, unfolded if_P [OF True]]
    consider "t = 19" | "t = 21" | "t = 22" | "t = 26" | "t \<in> {23, 55, 56, 57, 58}"
      | "t \<notin> {19, 21, 22, 26, 23, 55, 56, 57, 58}" by auto
    then show ?thesis
    proof cases
      case 1
      then show ?thesis
        using IH(1) [OF 1 _ r(3)] r "1.prems" by (subst step) (auto simp: session_ok_def)
    next
      case 2
      then show ?thesis using IH(2) r "1.prems" by (subst step) auto
    next
      case 3
      then show ?thesis using IH(3) [OF _ _ 3 r(3)] r "1.prems" by (subst step) auto
    next
      case 4
      then show ?thesis using IH(4) [OF _ _ _ 4 r(3)] r "1.prems" by (subst step) auto
    next
      case 5
      then have "t \<noteq> 19 \<and> t \<noteq> 21 \<and> t \<noteq> 22 \<and> t \<noteq> 26" by auto
      then show ?thesis
        using IH(5) 5 r "1.prems" u
        by (subst step) (simp only: simp_thms if_True if_False Option.bind.simps True_implies_equals)
    next
      case 6
      then show ?thesis using IH(6) r "1.prems" by (subst step) auto
    qed
  qed
qed

lemma parseAcceptParameters_safe:
  assumes "0 \<le> p" "p + n + 2 \<le> int (length (bb_buffer msg))" "session_ok s"
  shows "\<exists>r s'. parseAcceptParameters s msg p n = Some (r, s') \<and> session_ok s' \<and> - 1 \<le> r"
proof -
  obtain r s' where "accept_loop (bb_buffer msg) (p + n) False False p s = Some (r, s')" "session_ok s'"
    using accept_loop_safe [of p "p + n" "bb_buffer msg" False False s] assms by auto
  then show ?thesis
    by (cases r) (auto simp: parseAcceptParameters_def dest: accept_loop_offset split: prod.splits)
qed

definition header_result :: "ByteBuffer \<Rightarrow> (IsoSessionIndication \<times> IsoSession) option \<Rightarrow> bool" where
  "header_result msg r \<longleftrightarrow> (\<exists>ind s'. r = Some (ind, s') \<and> session_ok s' \<and>
     (ind = SESSION_OK \<longrightarrow> (\<exists>k \<ge> 2. ses_userData s' =
        ByteBuffer_wrap (drop k (bb_buffer msg)) (bb_size msg - int k) (bb_maxSize msg - int k))))"

lemma header_loop_safe:
  assumes "0 \<le> p" "n \<le> 255" "600 \<le> length (bb_buffer msg)" "session_ok s"
  shows "header_result msg (header_loop msg n p s)"
  using assms
proof (induction msg n p s rule: header_loop.induct)
  case (1 msg n p s)
  note ok = "1.prems"(4)
  have error: "header_result msg (Some (SESSION_ERROR, s))" if "session_ok s" for s
    using that by (simp add: header_result_def)
  show ?case
  proof (cases "p < n + 2")
    case False
    then show ?thesis using error [OF ok] by (subst header_loop.simps) simp
  next
    case True
    let ?b = "bb_buffer msg"
    obtain t l v w where r: "rdi ?b p = Some t" "rdi ?b (p + 1) = Some l" "rdi ?b (p + 2) = Some v" "rdi ?b (p + 3) = Some w"
      using True "1.prems" by (simp add: rdi_Some)
    have u: "0 \<le> p + 2 + uint l" "uint l \<le> 255" using "1.prems"(1) uint_u8_bounds [of l] by simp_all
    note IH = "1.IH" [OF True r(1,2)]
    note step = header_loop.simps [of msg n p s, unfolded if_P [OF True]]
    have sel: "\<exists>sel. read_selector ?b (p + 2) (unat l) mine = Some sel \<and> sel_ok sel" if "\<not> l > 16" "sel_ok mine" for mine
      using read_selector_ok [OF that(2), of "unat l" "p + 2" ?b] that(1) True "1.prems" u
      by (auto simp: word_less_nat_alt)
    consider "t \<in> {1, 17, 25, 49, 60}" | "t = 5" | "t = 20" | "t = 51" | "t = 52" | "t = 193"
      | "t \<notin> {1, 17, 25, 49, 60, 5, 20, 51, 52, 193}" by auto
    then show ?thesis
    proof cases
      case 1
      then show ?thesis using IH(1) [OF 1 u(1) "1.prems"(2-4)] r by (subst step) simp
    next
      case 2
      have t: "t \<notin> {1, 17, 25, 49, 60}" using 2 by simp
      have fits: "p + 2 + uint l + 2 \<le> int (length ?b)" using True u(2) "1.prems"(2,3) by linarith
      obtain k s' where a: "parseAcceptParameters s msg (p + 2) (uint l) = Some (k, s')" "session_ok s'" "- 1 \<le> k"
        using parseAcceptParameters_safe [OF _ fits ok] "1.prems"(1) by auto
      show ?thesis
        using IH(2) [OF t 2 a(1) refl] a error [OF a(2)] r t 2 "1.prems"(1-3) by (subst step) auto
    next
      case 3
      then show ?thesis
        using IH(3) [OF _ _ 3 _ r(3,4)] r error [OF ok] "1.prems" by (subst step) (simp add: session_ok_def)
    next
      case 4
      have mine: "sel_ok (ses_callingSessionSelector s)" using ok by (simp add: session_ok_def)
      show ?thesis
      proof (cases "l > 16")
        case True
        then show ?thesis using 4 r error [OF ok] by (subst step) simp
      next
        case False
        obtain sel' where s': "read_selector ?b (p + 2) (unat l) (ses_callingSessionSelector s) = Some sel'" "sel_ok sel'"
          using sel [OF False mine] by blast
        show ?thesis
          using IH(4) [OF _ _ _ 4 False s'(1) u(1) "1.prems"(2,3)] 4 False r s' ok
          by (subst step) (simp add: session_ok_def)
      qed
    next
      case 5
      have mine: "sel_ok (ses_calledSessionSelector s)" using ok by (simp add: session_ok_def)
      show ?thesis
      proof (cases "l > 16")
        case True
        then show ?thesis using 5 r error [OF ok] by (subst step) simp
      next
        case False
        obtain sel' where s': "read_selector ?b (p + 2) (unat l) (ses_calledSessionSelector s) = Some sel'" "sel_ok sel'"
          using sel [OF False mine] by blast
        show ?thesis
          using IH(5) [OF _ _ _ _ 5 False s'(1) u(1) "1.prems"(2,3)] 5 False r s' ok
          by (subst step) (simp add: session_ok_def)
      qed
    next
      case 6
      have "2 \<le> nat (p + 2)" "int (nat (p + 2)) = p + 2" using "1.prems"(1) by auto
      then have "\<exists>k \<ge> 2. ByteBuffer_wrap (drop (nat (p + 2)) ?b) (bb_size msg - (p + 2)) (bb_maxSize msg - (p + 2)) =
          ByteBuffer_wrap (drop k ?b) (bb_size msg - int k) (bb_maxSize msg - int k)" by metis
      then show ?thesis using 6 r ok by (subst step) (simp add: header_result_def session_ok_def)
    next
      case 7
      then show ?thesis using IH(6) "1.prems" r by (subst step) simp
    qed
  qed
qed

text \<open>
  C28: an arbitrary session message. \<open>IsoSession_parseMessage\<close> returns whatever the bytes and the
  lengths in them say, without leaving a receive buffer of 600 bytes or more; the session selectors
  stay within their 16 bytes; the user data of a connect, finish, disconnect or data message is a
  tail of the receive buffer with the size reduced by what was skipped.
\<close>

theorem session_parser_safe:
  assumes "session_ok s" "600 \<le> length (bb_buffer msg)"
  shows "\<exists>ind s'. IsoSession_parseMessage s msg = Some (ind, s') \<and> session_ok s' \<and>
    (ind \<in> {SESSION_CONNECT, SESSION_FINISH, SESSION_DISCONNECT, SESSION_DATA} \<longrightarrow>
      (\<exists>k \<ge> 2. ses_userData s' =
        ByteBuffer_wrap (drop k (bb_buffer msg)) (bb_size msg - int k) (bb_maxSize msg - int k)))"
proof -
  let ?b = "bb_buffer msg"
  have r: "rd ?b 0 = Some (?b ! 0)" "rd ?b 1 = Some (?b ! 1)" "rd ?b 2 = Some (?b ! 2)" "rd ?b 3 = Some (?b ! 3)"
    using assms(2) by (auto simp: rd_def)
  have u: "uint (?b ! 1) \<le> 255" using uint_u8_bounds [of "?b ! 1"] by simp
  obtain h s' where H: "parseSessionHeaderParameters s msg (uint (?b ! 1)) = Some (h, s')" "session_ok s'"
    "h = SESSION_OK \<longrightarrow> (\<exists>k \<ge> 2. ses_userData s' =
       ByteBuffer_wrap (drop k ?b) (bb_size msg - int k) (bb_maxSize msg - int k))"
    using header_loop_safe [OF _ u assms(2,1), of 2]
    by (auto simp: header_result_def parseSessionHeaderParameters_def)
  have four: "\<exists>k \<ge> 2. ByteBuffer_wrap (drop 4 ?b) (bb_size msg - 4) (bb_maxSize msg - 4) =
      ByteBuffer_wrap (drop k ?b) (bb_size msg - int k) (bb_maxSize msg - int k)"
    by (intro exI [of _ 4]) simp
  have keep: "session_ok (s\<lparr>ses_userData := d\<rparr>)" for d using assms(1) by (simp add: session_ok_def)
  show ?thesis
    unfolding IsoSession_parseMessage_def Let_def
    using r H assms(1) four keep by auto
qed

theorem session_parser_safe_witness:
  "\<exists>ind s'. IsoSession_parseMessage IsoSession_init \<lparr>bb_buffer = 13 # 254 # replicate 600 255, bb_maxSize = 600, bb_size = 256\<rparr>
     = Some (ind, s')"
proof -
  have s: "session_ok IsoSession_init" by (simp add: session_ok_def sel_ok_def IsoSession_init_def)
  have b: "600 \<le> length (bb_buffer \<lparr>bb_buffer = 13 # 254 # replicate 600 (255 :: u8), bb_maxSize = 600, bb_size = 256\<rparr>)"
    by simp
  show ?thesis using session_parser_safe [OF s b] by blast
qed

end
