(* ===== verification/Presentation.thy ===== *)
theory Presentation
  imports IsoBuffer BerDecoder
begin

text \<open>
  \<^verbatim>\<open>mms/iso_presentation/iso_presentation.c\<close>: the ISO presentation protocol.

  A presentation PDU is BER: it is written into the first part of a buffer chain in front of its
  payload and parsed from the user data of the session. Positions are C \<open>int\<close>s; \<open>None\<close> is an
  access outside the message's buffer object or a null address. A parser returns its position,
  -1 for an error, or a truth value, as in the code; log messages are left out.
\<close>

section \<open>The state\<close>

record IsoPresentation =
  prs_callingPresentationSelector :: Selector
  prs_calledPresentationSelector :: Selector
  prs_localAddress :: "IsoApplicationAddress option"
  prs_remoteAddress :: "IsoApplicationAddress option"
  prs_peerAddress :: "IsoApplicationAddress option"
  prs_nextContextId :: u8
  prs_acseContextId :: u8
  prs_mmsContextId :: u8
  prs_nextPayload :: ByteBuffer

definition IsoPresentation_initActive ::
    "IsoPresentation \<Rightarrow> IsoApplicationAddress option \<Rightarrow> IsoApplicationAddress option \<Rightarrow> IsoApplicationAddress option \<Rightarrow> IsoPresentation" where
  "IsoPresentation_initActive self localAddress remoteAddress peerAddress =
     self\<lparr>prs_localAddress := localAddress, prs_remoteAddress := remoteAddress, prs_peerAddress := peerAddress\<rparr>"

definition IsoPresentation_initPassive ::
    "IsoPresentation \<Rightarrow> IsoApplicationAddress option \<Rightarrow> IsoApplicationAddress option \<Rightarrow> IsoPresentation" where
  "IsoPresentation_initPassive self localAddress peerAddress =
     self\<lparr>prs_localAddress := localAddress, prs_peerAddress := peerAddress\<rparr>"

definition asn_id_as_acse :: "u8 list" where
  "asn_id_as_acse = [0x52, 0x01, 0x00, 0x01]"

definition asn_id_mms :: "u8 list" where
  "asn_id_mms = [0x28, 0xca, 0x22, 0x02, 0x01]"

definition ber_id :: "u8 list" where
  "ber_id = [0x51, 0x01]"

section \<open>Writing\<close>

text \<open>\<open>BerEncoder_encodeTL\<close> and \<open>BerEncoder_determineLengthSize\<close> at a C \<open>int\<close>.\<close>

definition encode_tl :: "u8 \<Rightarrow> int \<Rightarrow> cursor \<Rightarrow> cursor option" where
  "encode_tl tag n c = BerEncoder_encodeTL tag (word_of_int n) c"

definition length_size :: "int \<Rightarrow> int" where
  "length_size n = int (BerEncoder_determineLengthSize (word_of_int n))"

definition encodeAcceptBer :: "cursor \<Rightarrow> cursor option" where
  "encodeAcceptBer c = do {
     c \<leftarrow> encode_tl 0x30 7 c;
     c \<leftarrow> encode_tl 0x80 1 c;
     c \<leftarrow> put 0 c;
     c \<leftarrow> encode_tl 0x81 2 c;
     puts [0x51, 0x01] c }"

text \<open>The lengths of \<open>encodeUserData\<close>, its result without \<open>encode\<close>, and the writer.\<close>

definition encodedDataSetLength :: "int \<Rightarrow> int" where
  "encodedDataSetLength payloadLength = 3 + (payloadLength + 1) + length_size payloadLength"

definition fullyEncodedDataLength :: "int \<Rightarrow> int" where
  "fullyEncodedDataLength payloadLength =
     encodedDataSetLength payloadLength + (length_size (encodedDataSetLength payloadLength) + 1)"

definition encodedUserDataLength :: "int \<Rightarrow> int" where
  "encodedUserDataLength payloadLength =
     fullyEncodedDataLength payloadLength + 1 + length_size (fullyEncodedDataLength payloadLength)"

definition encodeUserData :: "int \<Rightarrow> u8 \<Rightarrow> cursor \<Rightarrow> cursor option" where
  "encodeUserData payloadLength contextId c = do {
     c \<leftarrow> encode_tl 0x61 (fullyEncodedDataLength payloadLength) c;
     c \<leftarrow> encode_tl 0x30 (encodedDataSetLength payloadLength) c;
     c \<leftarrow> encode_tl 0x02 1 c;
     c \<leftarrow> put contextId c;
     encode_tl 0xa0 payloadLength c }"

definition put_pSelector :: "u8 \<Rightarrow> Selector \<Rightarrow> cursor \<Rightarrow> cursor option" where
  "put_pSelector tag sel c = do {
     c \<leftarrow> encode_tl tag (int (sel_size sel)) c;
     put_from (sel_value sel) 0 (sel_size sel) c }"

text \<open>An item of the presentation context definition list of the connect message.\<close>

definition put_context_item :: "int \<Rightarrow> u8 \<Rightarrow> u8 list \<Rightarrow> cursor \<Rightarrow> cursor option" where
  "put_context_item itemLength contextId syntax c = do {
     c \<leftarrow> encode_tl 0x30 itemLength c;
     c \<leftarrow> encode_tl 0x02 1 c;
     c \<leftarrow> put contextId c;
     c \<leftarrow> encode_tl 0x06 (int (length syntax)) c;
     c \<leftarrow> puts syntax c;
     c \<leftarrow> encode_tl 0x30 4 c;
     c \<leftarrow> encode_tl 0x06 2 c;
     puts ber_id c }"

definition put_mode_selector :: "cursor \<Rightarrow> cursor option" where
  "put_mode_selector c = do {
     c \<leftarrow> encode_tl 0xa0 3 c;
     c \<leftarrow> encode_tl 0x80 1 c;
     put 1 c }"

definition IsoPresentation_createConnectPdu ::
    "IsoPresentation \<Rightarrow> ChainPart \<Rightarrow> BufferChain \<Rightarrow> (IsoPresentation \<times> BufferChain) option" where
  "IsoPresentation_createConnectPdu self writeBuffer payload = do {
     let self = self\<lparr>prs_acseContextId := 1, prs_mmsContextId := 3\<rparr>;
     localAddress \<leftarrow> prs_localAddress self;
     remoteAddress \<leftarrow> prs_remoteAddress self;
     payloadLength \<leftarrow> payload_length payload;
     let pclLength = 27 + int (sel_size (iaa_pSelector localAddress)) + int (sel_size (iaa_pSelector remoteAddress));
     let normalModeLength = 12 + pclLength + encodedUserDataLength payloadLength + 2;
     let contentLength = 5 + normalModeLength + (1 + length_size normalModeLength);
     c \<leftarrow> encode_tl 0x31 contentLength (bc_buffer writeBuffer, 0);
     c \<leftarrow> put_mode_selector c;
     c \<leftarrow> encode_tl 0xa2 normalModeLength c;
     c \<leftarrow> put_pSelector 0x81 (iaa_pSelector localAddress) c;
     c \<leftarrow> put_pSelector 0x82 (iaa_pSelector remoteAddress) c;
     c \<leftarrow> encode_tl 0xa4 35 c;
     c \<leftarrow> put_context_item 15 1 asn_id_as_acse c;
     c \<leftarrow> put_context_item 16 3 asn_id_mms c;
     c \<leftarrow> encodeUserData payloadLength (prs_acseContextId self) c;
     Some (self, framed_part writeBuffer (fst c) (int (snd c)) payloadLength payload) }"

definition IsoPresentation_createCpaMessage :: "IsoPresentation \<Rightarrow> ChainPart \<Rightarrow> BufferChain \<Rightarrow> BufferChain option" where
  "IsoPresentation_createCpaMessage self writeBuffer payload = do {
     localAddress \<leftarrow> prs_localAddress self;
     payloadLength \<leftarrow> payload_length payload;
     let sel = iaa_pSelector localAddress;
     let normalModeLength = (if sel_size sel > 0 then 2 + int (sel_size sel) else 0) + 20 +
       encodedUserDataLength payloadLength;
     let contentLength = 5 + normalModeLength + (length_size normalModeLength + 1);
     c \<leftarrow> encode_tl 0x31 contentLength (bc_buffer writeBuffer, 0);
     c \<leftarrow> put_mode_selector c;
     c \<leftarrow> encode_tl 0xa2 normalModeLength c;
     c \<leftarrow> (if sel_size sel > 0 then put_pSelector 0x83 sel c else Some c);
     c \<leftarrow> encode_tl 0xa5 18 c;
     c \<leftarrow> encodeAcceptBer c;
     c \<leftarrow> encodeAcceptBer c;
     c \<leftarrow> encodeUserData payloadLength (prs_acseContextId self) c;
     Some (framed_part writeBuffer (fst c) (int (snd c)) payloadLength payload) }"

text \<open>The body the two functions for user data share; they differ in the context.\<close>

definition create_user_data :: "u8 \<Rightarrow> ChainPart \<Rightarrow> BufferChain \<Rightarrow> BufferChain option" where
  "create_user_data contextId writeBuffer payload = do {
     payloadLength \<leftarrow> payload_length payload;
     let userDataLengthFieldSize = length_size payloadLength;
     let pdvListLength = payloadLength + (userDataLengthFieldSize + 4);
     let pdvListLengthFieldSize = length_size pdvListLength;
     let presentationLength = pdvListLength + (pdvListLengthFieldSize + 1);
     c \<leftarrow> encode_tl 0x61 presentationLength (bc_buffer writeBuffer, 0);
     c \<leftarrow> encode_tl 0x30 pdvListLength c;
     c \<leftarrow> puts [0x02, 0x01, contextId] c;
     c \<leftarrow> encode_tl 0xa0 payloadLength c;
     Some (framed_part writeBuffer (fst c) (int (snd c)) payloadLength payload) }"

definition IsoPresentation_createUserData :: "IsoPresentation \<Rightarrow> ChainPart \<Rightarrow> BufferChain \<Rightarrow> BufferChain option" where
  "IsoPresentation_createUserData self writeBuffer payload =
     create_user_data (prs_mmsContextId self) writeBuffer payload"

definition IsoPresentation_createUserDataACSE :: "IsoPresentation \<Rightarrow> ChainPart \<Rightarrow> BufferChain \<Rightarrow> BufferChain option" where
  "IsoPresentation_createUserDataACSE self writeBuffer payload =
     create_user_data (prs_acseContextId self) writeBuffer payload"

definition IsoPresentation_createAbortUserMessage :: "IsoPresentation \<Rightarrow> ChainPart \<Rightarrow> BufferChain \<Rightarrow> BufferChain option" where
  "IsoPresentation_createAbortUserMessage self writeBuffer payload = do {
     payloadLength \<leftarrow> payload_length payload;
     let contentLength = encodedUserDataLength payloadLength;
     let contentLength = contentLength + (length_size contentLength + 1);
     c \<leftarrow> encode_tl 0xa0 contentLength (bc_buffer writeBuffer, 0);
     c \<leftarrow> encodeUserData payloadLength (prs_acseContextId self) c;
     Some (framed_part writeBuffer (fst c) (int (snd c)) payloadLength payload) }"

section \<open>Parsing\<close>

text \<open>
  A call \<open>bufPos = BerDecoder_decodeLength(buffer, &len, bufPos, maxBufPos)\<close>: the new position and
  the length. The end of a message is an \<open>int\<close>, so one of \<open>2 ^ 31\<close> and more does not occur; the
  fuel is the one \<open>decodeLength_terminates\<close> shows to be enough.
\<close>

definition decode_len :: "u8 list \<Rightarrow> int \<Rightarrow> int \<Rightarrow> (int \<times> int) option" where
  "decode_len buffer bufPos maxBufPos =
     (if maxBufPos < 2 ^ 31 then
        (case BerDecoder_decodeLength (Suc (nat (maxBufPos - bufPos))) buffer 0 bufPos maxBufPos of
           Ret r \<Rightarrow> Some r
         | _ \<Rightarrow> None)
      else None)"

definition decode_uint :: "u8 list \<Rightarrow> int \<Rightarrow> int \<Rightarrow> u32 option" where
  "decode_uint buffer len bufPos = BerDecoder_decodeUint32 buffer (nat len) (nat bufPos)"

text \<open>
  How a tag and its length advance: a loop that reads a tag at a position and goes on at
  \<open>bufPos + len\<close> makes progress, or has overflowed to a position where the next read fails.
\<close>

definition remaining :: "u8 list \<Rightarrow> int \<Rightarrow> nat" where
  "remaining buffer bufPos = (if bufPos < 0 then 0 else Suc (nat (int (length buffer) - bufPos)))"

lemma decode_len_result:
  assumes "decode_len buf p m = Some (r, l)" "\<not> r < 0" "0 \<le> p"
  shows "p < r" "r \<le> m" "0 \<le> l" "l < 2 ^ 31" "wrap32 (r + l) \<le> m" "m < 2 ^ 31" "r < 2 ^ 31"
    "wrap32 (r + l) = r + l \<or> wrap32 (r + l) < 0"
proof -
  from assms(1) have m: "m < 2 ^ 31" by (auto simp: decode_len_def split: if_splits)
  with assms(1) have d: "BerDecoder_decodeLength (Suc (nat (m - p))) buf 0 p m = Ret (r, l)"
    by (simp add: decode_len_def split: outcome.splits del: BerDecoder_decodeLength.simps)
  have "p < r \<and> r \<le> m \<and> 0 \<le> l \<and> l < 2 ^ 31 \<and> wrap32 (r + l) \<le> m"
    by (rule decodeLength_result [OF d]) (use assms(2,3) m in auto)
  then show "p < r" "r \<le> m" "0 \<le> l" "l < 2 ^ 31" "wrap32 (r + l) \<le> m" "m < 2 ^ 31" "r < 2 ^ 31"
    "wrap32 (r + l) = r + l \<or> wrap32 (r + l) < 0"
    using m assms(3) wrap32_sum [of r l] by auto
qed

lemma remaining_less:
  assumes "rdi buf p = Some b" "p < q \<or> q < 0"
  shows "remaining buf q < remaining buf p"
  using assms by (auto simp: remaining_def rdi_eq_Some)

lemma remaining_step:
  assumes "rdi buf p = Some b" "decode_len buf (p + 1) m = Some (r, l)" "\<not> r < 0"
  shows "remaining buf (wrap32 (r + l)) < remaining buf p" "remaining buf r < remaining buf p"
proof -
  have "0 \<le> p" using assms(1) by (simp add: rdi_eq_Some)
  then have "p + 1 < r" "0 \<le> l" "wrap32 (r + l) = r + l \<or> wrap32 (r + l) < 0"
    using decode_len_result [OF assms(2,3)] by auto
  then show "remaining buf (wrap32 (r + l)) < remaining buf p" "remaining buf r < remaining buf p"
    using assms(1) by (auto intro!: remaining_less)
qed

text \<open>
  The loop of \<open>parseFullyEncodedData\<close>: the position behind the last element (\<open>None\<close>: error) and
  whether user data were found.
\<close>

function pdv_loop :: "u8 list \<Rightarrow> int \<Rightarrow> bool \<Rightarrow> int \<Rightarrow> IsoPresentation \<Rightarrow> ((int \<times> bool) option \<times> IsoPresentation) option" where
  "pdv_loop buf endPos userDataPresent bufPos self =
     (if bufPos < endPos then do {
        tag \<leftarrow> rdi buf bufPos;
        (pos, len) \<leftarrow> decode_len buf (bufPos + 1) endPos;
        if pos < 0 then Some (None, self)
        else if tag = 0x02 then do {
          presentationSelector \<leftarrow> decode_uint buf len pos;
          pdv_loop buf endPos userDataPresent (wrap32 (pos + len)) (self\<lparr>prs_nextContextId := ucast presentationSelector\<rparr>) }
        else if tag = 0xa0 then
          pdv_loop buf endPos True (wrap32 (pos + len))
            (self\<lparr>prs_nextPayload := (prs_nextPayload self)\<lparr>bb_buffer := drop (nat pos) buf, bb_size := len\<rparr>\<rparr>)
        else if tag = 0x00 then pdv_loop buf endPos userDataPresent pos self
        else pdv_loop buf endPos userDataPresent (wrap32 (pos + len)) self }
      else Some (Some (bufPos, userDataPresent), self))"
  by pat_completeness auto

termination
  by (relation "measure (\<lambda>(buf, m, u, p, s). remaining buf p)") (auto simp: remaining_step)

declare pdv_loop.simps [simp del]

definition parseFullyEncodedData :: "IsoPresentation \<Rightarrow> u8 list \<Rightarrow> int \<Rightarrow> int \<Rightarrow> (int \<times> IsoPresentation) option" where
  "parseFullyEncodedData self buf len bufPos = do {
     let endPos = wrap32 (bufPos + len);
     b \<leftarrow> rdi buf bufPos;
     if b \<noteq> 0x30 then Some (- 1, self)
     else do {
       (pos, len) \<leftarrow> decode_len buf (bufPos + 1) endPos;
       if pos < 0 then Some (- 1, self)
       else do {
         (r, self) \<leftarrow> pdv_loop buf (wrap32 (pos + len)) False pos self;
         Some (case r of
                 Some (bufPos, userDataPresent) \<Rightarrow> (if userDataPresent then bufPos else - 1, self)
               | None \<Rightarrow> (- 1, self)) } } }"

text \<open>The loop of \<open>parsePCDLEntry\<close>: the end position, \<open>contextId\<close>, \<open>isAcse\<close> and \<open>isMms\<close>.\<close>

function pcdl_entry_loop ::
    "u8 list \<Rightarrow> int \<Rightarrow> int \<Rightarrow> bool \<Rightarrow> bool \<Rightarrow> int \<Rightarrow> ((int \<times> int \<times> bool \<times> bool) option) option" where
  "pcdl_entry_loop buf endPos contextId isAcse isMms bufPos =
     (if bufPos < endPos then do {
        tag \<leftarrow> rdi buf bufPos;
        (pos, len) \<leftarrow> decode_len buf (bufPos + 1) endPos;
        if pos < 0 then Some None
        else if tag = 0x02 then do {
          v \<leftarrow> decode_uint buf len pos;
          pcdl_entry_loop buf endPos (sint v) isAcse isMms (wrap32 (pos + len)) }
        else if tag = 0x06 then
          (if len = 5 then do {
             name \<leftarrow> rd_block buf pos 5;
             pcdl_entry_loop buf endPos contextId isAcse (isMms \<or> name = asn_id_mms) (wrap32 (pos + len)) }
           else if len = 4 then do {
             name \<leftarrow> rd_block buf pos 4;
             pcdl_entry_loop buf endPos contextId (isAcse \<or> name = asn_id_as_acse) isMms (wrap32 (pos + len)) }
           else pcdl_entry_loop buf endPos contextId isAcse isMms (wrap32 (pos + len)))
        else if tag = 0x00 then pcdl_entry_loop buf endPos contextId isAcse isMms pos
        else pcdl_entry_loop buf endPos contextId isAcse isMms (wrap32 (pos + len)) }
      else Some (Some (bufPos, contextId, isAcse, isMms)))"
  by pat_completeness auto

termination
  by (relation "measure (\<lambda>(buf, m, i, a, b, p). remaining buf p)") (auto simp: remaining_step)

declare pcdl_entry_loop.simps [simp del]

definition parsePCDLEntry :: "IsoPresentation \<Rightarrow> u8 list \<Rightarrow> int \<Rightarrow> int \<Rightarrow> (int \<times> IsoPresentation) option" where
  "parsePCDLEntry self buf totalLength bufPos = do {
     r \<leftarrow> pcdl_entry_loop buf (wrap32 (bufPos + totalLength)) (- 1) False False bufPos;
     Some (case r of
             None \<Rightarrow> (- 1, self)
           | Some (bufPos, contextId, isAcse, isMms) \<Rightarrow>
               if contextId < 0 then (- 1, self)
               else if isAcse = False \<and> isMms = False then (- 1, self)
               else if isMms then (bufPos, self\<lparr>prs_mmsContextId := word_of_int contextId\<rparr>)
               else (bufPos, self\<lparr>prs_acseContextId := word_of_int contextId\<rparr>)) }"

text \<open>
  The parsers return a position behind the one they were called with, or a negative one; from a
  negative one they do not come back.
\<close>

definition advanced :: "int \<Rightarrow> int \<Rightarrow> bool" where
  "advanced p q \<longleftrightarrow> 0 \<le> p \<and> p \<le> q \<or> q < 0"

lemma advanced_simps [simp]: "advanced p p" "advanced p (- 1)"
  by (auto simp: advanced_def)

lemma advanced_trans: "advanced p q \<Longrightarrow> advanced q r \<Longrightarrow> advanced p r"
  by (auto simp: advanced_def)

lemma advanced_step:
  assumes "rdi buf p = Some b" "decode_len buf (p + 1) m = Some (r, l)" "\<not> r < 0"
  shows "advanced r q \<Longrightarrow> advanced p q" "advanced (wrap32 (r + l)) q \<Longrightarrow> advanced p q"
    "advanced r q \<Longrightarrow> remaining buf q < remaining buf p"
proof -
  have p: "0 \<le> p" using assms(1) by (simp add: rdi_eq_Some)
  have r: "p < r" "0 \<le> l" "wrap32 (r + l) = r + l \<or> wrap32 (r + l) < 0"
    using decode_len_result [OF assms(2,3)] p by auto
  have "advanced p r" "advanced p (wrap32 (r + l))" using r p by (auto simp: advanced_def)
  then show "advanced r q \<Longrightarrow> advanced p q" "advanced (wrap32 (r + l)) q \<Longrightarrow> advanced p q"
    by (auto intro: advanced_trans)
  show "advanced r q \<Longrightarrow> remaining buf q < remaining buf p"
    using assms(1) r by (intro remaining_less) (auto simp: advanced_def)
qed

text \<open>An inner element: its tag is skipped, then follow the position and the length of its content.\<close>

lemma inner_step:
  assumes "rdi buf p = Some b" "decode_len buf (p + 1) m = Some (r, l)" "\<not> r < 0"
    "decode_len buf (r + 1) m = Some (r', l')" "\<not> r' < 0"
  shows "advanced (wrap32 (r' + l')) q \<Longrightarrow> advanced p q" "remaining buf (wrap32 (r' + l')) < remaining buf p"
proof -
  have p: "0 \<le> p" using assms(1) by (simp add: rdi_eq_Some)
  have r: "p < r" using decode_len_result [OF assms(2,3)] p by auto
  have r': "r + 1 < r'" "0 \<le> l'" "wrap32 (r' + l') = r' + l' \<or> wrap32 (r' + l') < 0"
    using decode_len_result [OF assms(4,5)] r p by auto
  then have a: "advanced p (wrap32 (r' + l'))" "p < wrap32 (r' + l') \<or> wrap32 (r' + l') < 0"
    using r p by (auto simp: advanced_def)
  show "advanced (wrap32 (r' + l')) q \<Longrightarrow> advanced p q" using a(1) by (rule advanced_trans)
  show "remaining buf (wrap32 (r' + l')) < remaining buf p" using assms(1) a(2) by (rule remaining_less)
qed

lemma pcdl_entry_loop_position:
  "pcdl_entry_loop buf m i a b p = Some (Some (q, i', a', b')) \<Longrightarrow> advanced p q"
proof (induction buf m i a b p rule: pcdl_entry_loop.induct)
  case (1 buf m i a b p)
  note step = "1.prems" [unfolded pcdl_entry_loop.simps [of buf m i a b p]]
  show ?case
  proof (cases "p < m")
    case True
    then obtain tag pos len where r: "rdi buf p = Some tag" "decode_len buf (p + 1) m = Some (pos, len)"
        "\<not> pos < 0"
      using step by (auto split: Option.bind_splits if_splits)
    note IH = "1.IH" [OF True r(1) r(2) refl r(3)] and A = advanced_step [OF r]
    from step True r IH show ?thesis
      by (auto split: Option.bind_splits if_splits intro: A(1,2))
  qed (use step in simp)
qed

lemma parsePCDLEntry_position: "parsePCDLEntry s buf n p = Some (q, s') \<Longrightarrow> advanced p q"
  by (auto simp: parsePCDLEntry_def dest: pcdl_entry_loop_position split: Option.bind_splits option.splits if_splits)

lemma pdv_loop_position:
  "pdv_loop buf m u p s = Some (Some (q, u'), s') \<Longrightarrow> advanced p q"
proof (induction buf m u p s rule: pdv_loop.induct)
  case (1 buf m u p s)
  note step = "1.prems" [unfolded pdv_loop.simps [of buf m u p s]]
  show ?case
  proof (cases "p < m")
    case True
    then obtain tag pos len where r: "rdi buf p = Some tag" "decode_len buf (p + 1) m = Some (pos, len)"
        "\<not> pos < 0"
      using step by (auto split: Option.bind_splits if_splits)
    note IH = "1.IH" [OF True r(1) r(2) refl r(3)] and A = advanced_step [OF r]
    from step True r IH show ?thesis
      by (auto split: Option.bind_splits if_splits intro: A(1,2))
  qed (use step in simp)
qed

lemma parseFullyEncodedData_position:
  assumes "parseFullyEncodedData s buf n p = Some (q, s')"
  shows "advanced p q"
proof (cases "q < 0")
  case False
  with assms obtain b pos len u where "rdi buf p = Some b" "decode_len buf (p + 1) (wrap32 (p + n)) = Some (pos, len)"
      "\<not> pos < 0" "pdv_loop buf (wrap32 (pos + len)) False pos s = Some (Some (q, u), s')"
    by (auto simp: parseFullyEncodedData_def split: Option.bind_splits option.splits if_splits)
  then show ?thesis by (auto dest: pdv_loop_position intro: advanced_step)
qed (simp add: advanced_def)

text \<open>The loop of \<open>parsePresentationContextDefinitionList\<close>, which is the whole function.\<close>

function pcdl_loop :: "u8 list \<Rightarrow> int \<Rightarrow> int \<Rightarrow> IsoPresentation \<Rightarrow> (int \<times> IsoPresentation) option" where
  "pcdl_loop buf endPos bufPos self =
     (if bufPos < endPos then do {
        tag \<leftarrow> rdi buf bufPos;
        (pos, len) \<leftarrow> decode_len buf (bufPos + 1) endPos;
        if pos < 0 then Some (- 1, self)
        else if tag = 0x30 then do {
          (pos, self) \<leftarrow> parsePCDLEntry self buf len pos;
          if pos < 0 then Some (- 1, self)
          else pcdl_loop buf endPos pos self }
        else if tag = 0x00 then pcdl_loop buf endPos pos self
        else pcdl_loop buf endPos (wrap32 (pos + len)) self }
      else Some (bufPos, self))"
  by pat_completeness auto

termination
  by (relation "measure (\<lambda>(buf, m, p, s). remaining buf p)")
    (auto simp: remaining_step dest: parsePCDLEntry_position intro: advanced_step)

declare pcdl_loop.simps [simp del]

definition parsePresentationContextDefinitionList ::
    "IsoPresentation \<Rightarrow> u8 list \<Rightarrow> int \<Rightarrow> int \<Rightarrow> (int \<times> IsoPresentation) option" where
  "parsePresentationContextDefinitionList self buf totalLength bufPos =
     pcdl_loop buf (wrap32 (bufPos + totalLength)) bufPos self"

lemma pcdl_loop_position: "pcdl_loop buf m p s = Some (q, s') \<Longrightarrow> advanced p q"
proof (induction buf m p s rule: pcdl_loop.induct)
  case (1 buf m p s)
  note step = "1.prems" [unfolded pcdl_loop.simps [of buf m p s]]
  show ?case
  proof (cases "p < m \<and> \<not> q < 0")
    case True
    then obtain tag pos len where r: "rdi buf p = Some tag" "decode_len buf (p + 1) m = Some (pos, len)"
        "\<not> pos < 0"
      using step by (auto split: Option.bind_splits if_splits)
    note IH = "1.IH" [OF conjunct1 [OF True] r(1) r(2) refl r(3)] and A = advanced_step [OF r]
    have B: "parsePCDLEntry s buf len pos = Some (pos', s1) \<Longrightarrow> advanced pos' q \<Longrightarrow> advanced p q" for pos' s1
      by (blast intro: A(1) advanced_trans dest: parsePCDLEntry_position)
    from step True r IH show ?thesis
      by (auto split: Option.bind_splits if_splits intro: A(1,2) B)
  qed (use step in \<open>auto simp: advanced_def\<close>)
qed

text \<open>
  The loop of \<open>parseNormalModeParameters\<close>. The position the context definition list returns is
  used as it is, also when it is -1.
\<close>

function normal_mode_loop :: "u8 list \<Rightarrow> int \<Rightarrow> int \<Rightarrow> IsoPresentation \<Rightarrow> (int \<times> IsoPresentation) option" where
  "normal_mode_loop buf endPos bufPos self =
     (if bufPos < endPos then do {
        tag \<leftarrow> rdi buf bufPos;
        (pos, len) \<leftarrow> decode_len buf (bufPos + 1) endPos;
        if pos < 0 then Some (- 1, self)
        else if tag = 0x81 then do {
          sel \<leftarrow> (if len > 16 then Some (prs_callingPresentationSelector self)
                 else read_selector buf pos (nat len) (prs_callingPresentationSelector self));
          normal_mode_loop buf endPos (wrap32 (pos + len)) (self\<lparr>prs_callingPresentationSelector := sel\<rparr>) }
        else if tag = 0x82 then do {
          sel \<leftarrow> (if len > 16 then Some (prs_calledPresentationSelector self)
                 else read_selector buf pos (nat len) (prs_calledPresentationSelector self));
          normal_mode_loop buf endPos (wrap32 (pos + len)) (self\<lparr>prs_calledPresentationSelector := sel\<rparr>) }
        else if tag = 0xa4 then do {
          (pos, self) \<leftarrow> parsePresentationContextDefinitionList self buf len pos;
          normal_mode_loop buf endPos pos self }
        else if tag = 0x61 then do {
          (pos, self) \<leftarrow> parseFullyEncodedData self buf len pos;
          if pos < 0 then Some (- 1, self)
          else normal_mode_loop buf endPos pos self }
        else if tag = 0x00 then normal_mode_loop buf endPos pos self
        else normal_mode_loop buf endPos (wrap32 (pos + len)) self }
      else Some (bufPos, self))"
  by pat_completeness auto

termination
  by (relation "measure (\<lambda>(buf, m, p, s). remaining buf p)")
    (auto simp: remaining_step parsePresentationContextDefinitionList_def
      dest: pcdl_loop_position parseFullyEncodedData_position intro: advanced_step)

declare normal_mode_loop.simps [simp del]

definition parseNormalModeParameters ::
    "IsoPresentation \<Rightarrow> u8 list \<Rightarrow> int \<Rightarrow> int \<Rightarrow> (int \<times> IsoPresentation) option" where
  "parseNormalModeParameters self buf totalLength bufPos =
     normal_mode_loop buf (wrap32 (bufPos + totalLength)) bufPos
       (self\<lparr>prs_calledPresentationSelector := (prs_calledPresentationSelector self)\<lparr>sel_size := 0\<rparr>,
             prs_callingPresentationSelector := (prs_callingPresentationSelector self)\<lparr>sel_size := 0\<rparr>\<rparr>)"

lemma normal_mode_loop_position: "normal_mode_loop buf m p s = Some (q, s') \<Longrightarrow> advanced p q"
proof (induction buf m p s rule: normal_mode_loop.induct)
  case (1 buf m p s)
  note step = "1.prems" [unfolded normal_mode_loop.simps [of buf m p s]]
  show ?case
  proof (cases "p < m \<and> \<not> q < 0")
    case True
    then obtain tag pos len where r: "rdi buf p = Some tag" "decode_len buf (p + 1) m = Some (pos, len)"
        "\<not> pos < 0"
      using step by (auto split: Option.bind_splits if_splits)
    note IH = "1.IH" [OF conjunct1 [OF True] r(1) r(2) refl r(3)] and A = advanced_step [OF r]
    have B: "parsePresentationContextDefinitionList s buf len pos = Some (pos', s1) \<Longrightarrow> advanced pos' q \<Longrightarrow> advanced p q"
      for pos' s1
      by (auto simp: parsePresentationContextDefinitionList_def intro: A(1) advanced_trans dest!: pcdl_loop_position)
    have C: "parseFullyEncodedData s buf len pos = Some (pos', s1) \<Longrightarrow> advanced pos' q \<Longrightarrow> advanced p q" for pos' s1
      by (blast intro: A(1) advanced_trans dest: parseFullyEncodedData_position)
    from step True r IH show ?thesis
      by (auto split: Option.bind_splits if_splits intro: A(1,2) B C)
  qed (use step in \<open>auto simp: advanced_def\<close>)
qed

lemma parseNormalModeParameters_position:
  "parseNormalModeParameters s buf n p = Some (q, s') \<Longrightarrow> advanced p q"
  by (auto simp: parseNormalModeParameters_def dest: normal_mode_loop_position)

text \<open>The loops over the elements of a CPA and of a CP message; the result is the truth value.\<close>

function accept_message_loop :: "u8 list \<Rightarrow> int \<Rightarrow> int \<Rightarrow> IsoPresentation \<Rightarrow> (bool \<times> IsoPresentation) option" where
  "accept_message_loop buf maxBufPos bufPos self =
     (if bufPos < maxBufPos then do {
        tag \<leftarrow> rdi buf bufPos;
        (pos, len) \<leftarrow> decode_len buf (bufPos + 1) maxBufPos;
        if pos < 0 then Some (False, self)
        else if tag = 0xa0 then accept_message_loop buf maxBufPos (wrap32 (pos + len)) self
        else if tag = 0xa2 then do {
          (pos, self) \<leftarrow> parseNormalModeParameters self buf len pos;
          if pos < 0 then Some (False, self)
          else accept_message_loop buf maxBufPos pos self }
        else if tag = 0x00 then accept_message_loop buf maxBufPos pos self
        else accept_message_loop buf maxBufPos (wrap32 (pos + len)) self }
      else Some (True, self))"
  by pat_completeness auto

termination
  by (relation "measure (\<lambda>(buf, m, p, s). remaining buf p)")
    (auto simp: remaining_step dest: parseNormalModeParameters_position intro: advanced_step)

declare accept_message_loop.simps [simp del]

definition IsoPresentation_parseAcceptMessage :: "IsoPresentation \<Rightarrow> ByteBuffer \<Rightarrow> (bool \<times> IsoPresentation) option" where
  "IsoPresentation_parseAcceptMessage self byteBuffer = do {
     let buf = bb_buffer byteBuffer;
     let maxBufPos = bb_size byteBuffer;
     cpTag \<leftarrow> rd buf 0;
     if cpTag \<noteq> 0x31 then Some (False, self)
     else do {
       (pos, len) \<leftarrow> decode_len buf 1 maxBufPos;
       if pos < 0 then Some (False, self)
       else accept_message_loop buf maxBufPos pos self } }"

function connect_loop :: "u8 list \<Rightarrow> int \<Rightarrow> int \<Rightarrow> IsoPresentation \<Rightarrow> (bool \<times> IsoPresentation) option" where
  "connect_loop buf maxBufPos bufPos self =
     (if bufPos < maxBufPos then do {
        tag \<leftarrow> rdi buf bufPos;
        (pos, len) \<leftarrow> decode_len buf (bufPos + 1) maxBufPos;
        if pos < 0 then Some (False, self)
        else if tag = 0xa0 then do {
          b \<leftarrow> rdi buf pos;
          if b \<noteq> 0x80 then Some (False, self)
          else do {
            (pos, len) \<leftarrow> decode_len buf (pos + 1) maxBufPos;
            if pos < 0 then Some (False, self)
            else do {
              modeSelector \<leftarrow> decode_uint buf len pos;
              connect_loop buf maxBufPos (wrap32 (pos + len)) self } } }
        else if tag = 0xa2 then do {
          (pos, self) \<leftarrow> parseNormalModeParameters self buf len pos;
          if pos < 0 then Some (False, self)
          else connect_loop buf maxBufPos pos self }
        else if tag = 0x00 then connect_loop buf maxBufPos pos self
        else connect_loop buf maxBufPos (wrap32 (pos + len)) self }
      else Some (True, self))"
  by pat_completeness auto

termination
  by (relation "measure (\<lambda>(buf, m, p, s). remaining buf p)")
    (auto simp: remaining_step dest: parseNormalModeParameters_position intro: advanced_step
      less_trans [OF remaining_step(1) remaining_step(2)])

declare connect_loop.simps [simp del]

definition IsoPresentation_parseConnect :: "IsoPresentation \<Rightarrow> ByteBuffer \<Rightarrow> (bool \<times> IsoPresentation) option" where
  "IsoPresentation_parseConnect self byteBuffer = do {
     let buf = bb_buffer byteBuffer;
     let maxBufPos = bb_size byteBuffer;
     cpTag \<leftarrow> rd buf 0;
     if cpTag \<noteq> 0x31 then Some (False, self)
     else do {
       (pos, len) \<leftarrow> decode_len buf 1 maxBufPos;
       if pos < 0 then Some (False, self)
       else connect_loop buf maxBufPos pos self } }"

definition IsoPresentation_parseUserData :: "IsoPresentation \<Rightarrow> ByteBuffer \<Rightarrow> (bool \<times> IsoPresentation) option" where
  "IsoPresentation_parseUserData self readBuffer =
     (let n = bb_size readBuffer; buf = bb_buffer readBuffer; fail = Some (False, self) in
      if n < 9 then fail
      else do {
        b \<leftarrow> rdi buf 0;
        if b \<noteq> 0x61 then fail else do {
        (pos, len) \<leftarrow> decode_len buf 1 n;
        if pos < 0 then fail else do {
        b \<leftarrow> rdi buf pos;
        if b \<noteq> 0x30 then fail else do {
        (pos, len) \<leftarrow> decode_len buf (pos + 1) n;
        if pos < 0 then fail else do {
        b \<leftarrow> rdi buf pos;
        if b \<noteq> 0x02 then fail else do {
        b \<leftarrow> rdi buf (pos + 1);
        if b \<noteq> 0x01 then fail else do {
        contextId \<leftarrow> rdi buf (pos + 2);
        let self = self\<lparr>prs_nextContextId := contextId\<rparr>;
        b \<leftarrow> rdi buf (pos + 3);
        if b \<noteq> 0xa0 then Some (False, self) else do {
        lengthByte \<leftarrow> rdi buf (pos + 4);
        (pos, userDataLength) \<leftarrow> decode_len buf (pos + 4) n;
        if pos < 0 then Some (False, self) else do {
        let userDataLength = (if lengthByte = 0x80 then userDataLength - 2 else userDataLength);
        Some (True, self\<lparr>prs_nextPayload :=
          ByteBuffer_wrap (drop (nat pos) buf) userDataLength userDataLength\<rparr>) } } } } } } } } })"

end
