(* ===== verification/Acse.thy ===== *)
theory Acse
  imports Presentation
begin

text \<open>
  \<^verbatim>\<open>mms/iso_acse/acse.c\<close>: the association control service (ACSE).

  An association request (AARQ) names the addresses of both sides, carries the password of the
  caller and the first MMS message; the response (AARE) answers it. The parser fills in the two
  addresses the connection points to and asks the authenticator of the server. The authenticator
  is the function the connection is initialised with; it gets the security token by reference,
  here as argument and result. The token is a \<open>void*\<close>, the authenticator of this program stores a
  bilateral table in it. TLS is not modelled: \<open>tlsSocket\<close> is null.
\<close>

section \<open>The connection\<close>

datatype AcseConnectionState = idle | requestIndicated | connected

datatype AcseIndication = ACSE_ERROR | ACSE_ASSOCIATE | ACSE_ASSOCIATE_FAILED | ACSE_OK | ACSE_ABORT
  | ACSE_RELEASE_REQUEST | ACSE_RELEASE_RESPONSE

datatype AcseAuthenticationMechanism = ACSE_AUTH_NONE | ACSE_AUTH_PASSWORD | ACSE_AUTH_CERTIFICATE
  | ACSE_AUTH_TLS | ACSE_AUTH_MECH_UNKNOWN

text \<open>The member \<open>password\<close> of the union; \<open>None\<close> is a null pointer.\<close>

record AcseAuthenticationParameter =
  aap_mechanism :: AcseAuthenticationMechanism
  aap_octetString :: "u8 list option"
  aap_passwordLength :: int

type_synonym AcseAuthenticator =
  "AcseAuthenticationParameter \<Rightarrow> BilateralTable option \<Rightarrow> IsoApplicationAddress option \<Rightarrow>
   IsoApplicationAddress option \<Rightarrow> (AcseServiceUserDiagnostics \<times> BilateralTable option) option"

record AcseConnection =
  acse_state :: AcseConnectionState
  acse_nextReference :: u32
  acse_userDataBuffer :: "u8 list option"
  acse_userDataBufferSize :: int
  acse_authenticator :: "AcseAuthenticator option"
  acse_localAppAddr :: "IsoApplicationAddress option"
  acse_remoteAppAddr :: "IsoApplicationAddress option"
  acse_securityToken :: "BilateralTable option"

definition AcseConnection_init ::
    "AcseConnection \<Rightarrow> IsoApplicationAddress option \<Rightarrow> IsoApplicationAddress option \<Rightarrow> AcseAuthenticator option \<Rightarrow> AcseConnection" where
  "AcseConnection_init self remoteAppAddr localAppAddr authenticator =
     self\<lparr>acse_state := idle, acse_nextReference := 0, acse_userDataBuffer := None, acse_userDataBufferSize := 0,
          acse_authenticator := authenticator, acse_remoteAppAddr := remoteAppAddr, acse_localAppAddr := localAppAddr\<rparr>"

definition appContextNameMms :: "u8 list" where
  "appContextNameMms = [0x28, 0xca, 0x22, 0x02, 0x03]"

definition auth_mech_password_oid :: "u8 list" where
  "auth_mech_password_oid = [0x52, 0x03, 0x01]"

section \<open>Authentication\<close>

definition checkAuthMechanismName :: "u8 list option \<Rightarrow> int \<Rightarrow> AcseAuthenticationMechanism option" where
  "checkAuthMechanismName authMechanism authMechLen =
     (case authMechanism of
        None \<Rightarrow> Some ACSE_AUTH_NONE
      | Some name \<Rightarrow>
          if authMechLen = 3 then do {
            oid \<leftarrow> rd_block name 0 3;
            Some (if oid = auth_mech_password_oid then ACSE_AUTH_PASSWORD else ACSE_AUTH_MECH_UNKNOWN) }
          else Some ACSE_AUTH_MECH_UNKNOWN)"

text \<open>The union of the parameter is set for a password only (or a certificate, with TLS).\<close>

definition authenticatePeer ::
    "AcseConnection \<Rightarrow> AcseAuthenticator \<Rightarrow> AcseAuthenticationMechanism \<Rightarrow> u8 list option \<Rightarrow> int \<Rightarrow>
     (AcseServiceUserDiagnostics \<times> AcseConnection) option" where
  "authenticatePeer self authenticator mechanism authValue authValueLen = do {
     let authParameter = (if mechanism = ACSE_AUTH_PASSWORD \<or> mechanism = ACSE_AUTH_TLS
       then \<lparr>aap_mechanism = mechanism, aap_octetString = authValue, aap_passwordLength = authValueLen\<rparr>
       else \<lparr>aap_mechanism = mechanism, aap_octetString = None, aap_passwordLength = 0\<rparr>);
     (result, token) \<leftarrow> authenticator authParameter (acse_securityToken self) (acse_localAppAddr self) (acse_remoteAppAddr self);
     Some (result, self\<lparr>acse_securityToken := token\<rparr>) }"

definition checkAuthentication ::
    "AcseConnection \<Rightarrow> u8 list option \<Rightarrow> int \<Rightarrow> u8 list option \<Rightarrow> int \<Rightarrow>
     (AcseServiceUserDiagnostics \<times> AcseConnection) option" where
  "checkAuthentication self authMechanism authMechLen authValue authValueLen =
     (let self = self\<lparr>acse_securityToken := None\<rparr> in
      case acse_authenticator self of
        None \<Rightarrow> Some (ACSE_USER_OK, self)
      | Some authenticator \<Rightarrow> do {
          mechanism \<leftarrow> checkAuthMechanismName authMechanism authMechLen;
          if mechanism = ACSE_AUTH_MECH_UNKNOWN then Some (ACSE_USER_AUTH_MECH_NAME_NOT_RECOGNIZED, self)
          else authenticatePeer self authenticator mechanism authValue authValueLen })"

section \<open>Parsing\<close>

text \<open>
  \<open>parseUserInformation\<close>: the position behind it and whether the user information is valid; the
  arguments are \<open>hasindirectReference\<close> and \<open>isDataValid\<close>.
\<close>

function parseUserInformation ::
    "u8 list \<Rightarrow> int \<Rightarrow> bool \<Rightarrow> bool \<Rightarrow> int \<Rightarrow> AcseConnection \<Rightarrow> ((int \<times> bool) \<times> AcseConnection) option" where
  "parseUserInformation buf maxBufPos hasindirectReference isDataValid bufPos self =
     (if bufPos < maxBufPos then do {
        tag \<leftarrow> rdi buf bufPos;
        (pos, len) \<leftarrow> decode_len buf (bufPos + 1) maxBufPos;
        if pos < 0 then Some ((- 1, False), self)
        else if tag = 0x02 then do {
          ref \<leftarrow> decode_uint buf len pos;
          parseUserInformation buf maxBufPos True isDataValid (wrap32 (pos + len)) (self\<lparr>acse_nextReference := ref\<rparr>) }
        else if tag = 0xa0 then
          parseUserInformation buf maxBufPos hasindirectReference True (wrap32 (pos + len))
            (self\<lparr>acse_userDataBufferSize := len, acse_userDataBuffer := Some (drop (nat pos) buf)\<rparr>)
        else parseUserInformation buf maxBufPos hasindirectReference isDataValid (wrap32 (pos + len)) self }
      else Some ((bufPos, hasindirectReference \<and> isDataValid), self))"
  by pat_completeness auto

termination
  by (relation "measure (\<lambda>(buf, m, a, b, p, s). remaining buf p)") (auto simp: remaining_step)

declare parseUserInformation.simps [simp del]

lemma parseUserInformation_position:
  "parseUserInformation buf m a b p s = Some ((q, v), s') \<Longrightarrow> advanced p q"
proof (induction buf m a b p s rule: parseUserInformation.induct)
  case (1 buf m a b p s)
  note step = "1.prems" [unfolded parseUserInformation.simps [of buf m a b p s]]
  show ?case
  proof (cases "p < m \<and> \<not> q < 0")
    case True
    then obtain tag pos len where r: "rdi buf p = Some tag" "decode_len buf (p + 1) m = Some (pos, len)"
        "\<not> pos < 0"
      using step by (auto split: Option.bind_splits if_splits)
    note IH = "1.IH" [OF conjunct1 [OF True] r(1) r(2) refl r(3)] and A = advanced_step [OF r]
    from step True r IH show ?thesis
      by (auto split: Option.bind_splits if_splits intro: A(1,2))
  qed (use step in \<open>auto simp: advanced_def\<close>)
qed

text \<open>
  The elements of a title and a qualifier in the second form: what the parser stores when the
  address is there and the inner length fits.
\<close>

definition parse_ap_title :: "u8 list \<Rightarrow> int \<Rightarrow> int \<Rightarrow> IsoApplicationAddress option \<Rightarrow> (IsoApplicationAddress option) option" where
  "parse_ap_title buf pos len addr =
     (case addr of
        None \<Rightarrow> Some None
      | Some a \<Rightarrow> do {
          b \<leftarrow> rdi buf pos;
          if b = 0x06 then do {
            innerLength \<leftarrow> rdi buf (pos + 1);
            if uint innerLength = len - 2 then do {
              oid \<leftarrow> BerDecoder_decodeOID buf (nat (pos + 2)) (unat innerLength) (iaa_apTitle a);
              Some (Some (a\<lparr>iaa_apTitle := oid\<rparr>)) }
            else Some (Some a) }
          else Some (Some a) })"

definition parse_ae_qualifier :: "u8 list \<Rightarrow> int \<Rightarrow> int \<Rightarrow> IsoApplicationAddress option \<Rightarrow> (IsoApplicationAddress option) option" where
  "parse_ae_qualifier buf pos len addr =
     (case addr of
        None \<Rightarrow> Some None
      | Some a \<Rightarrow> do {
          b \<leftarrow> rdi buf pos;
          if b = 0x02 then do {
            innerLength \<leftarrow> rdi buf (pos + 1);
            if uint innerLength = len - 2 then do {
              q \<leftarrow> BerDecoder_decodeInt32 (drop 2 buf) (unat innerLength) (nat pos);
              Some (Some (a\<lparr>iaa_aeQualifier := q\<rparr>)) }
            else Some (Some a) }
          else Some (Some a) })"

text \<open>The local variables of the two association parsers.\<close>

record AcseLocals =
  al_authMechanism :: "u8 list option"
  al_authMechLen :: int
  al_authValue :: "u8 list option"
  al_authValueLen :: int
  al_userInfoValid :: bool
  al_result :: u32

definition acse_locals :: AcseLocals where
  "acse_locals = \<lparr>al_authMechanism = None, al_authMechLen = 0, al_authValue = None, al_authValueLen = 0,
     al_userInfoValid = False, al_result = 99\<rparr>"

text \<open>
  The element \<open>user information\<close> (0xbe) of both: the position to go on at and \<open>userInfoValid\<close>, or
  nothing for an error.
\<close>

definition parse_user_element ::
    "u8 list \<Rightarrow> int \<Rightarrow> int \<Rightarrow> int \<Rightarrow> bool \<Rightarrow> AcseConnection \<Rightarrow> ((int \<times> bool) option \<times> AcseConnection) option" where
  "parse_user_element buf maxBufPos pos len userInfoValid self = do {
     b \<leftarrow> rdi buf pos;
     if b \<noteq> 0x28 then Some (Some (wrap32 (pos + len), userInfoValid), self)
     else do {
       (pos, len) \<leftarrow> decode_len buf (pos + 1) maxBufPos;
       if pos < 0 then Some (None, self)
       else do {
         ((pos, valid), self) \<leftarrow> parseUserInformation buf (wrap32 (pos + len)) False False pos self;
         Some (if pos < 0 then None else Some (pos, valid), self) } } }"

lemma parse_user_element_position:
  assumes "parse_user_element buf m r l v s = Some (Some (q, v'), s')" "\<not> r < 0" "0 \<le> l" "l < 2 ^ 31" "r < 2 ^ 31"
  shows "advanced r q"
proof -
  obtain b where b: "rdi buf r = Some b" using assms(1) by (auto simp: parse_user_element_def split: Option.bind_splits)
  show ?thesis
  proof (cases "b = 0x28")
    case True
    then obtain r' l' v1 where i: "decode_len buf (r + 1) m = Some (r', l')" "\<not> r' < 0"
        "parseUserInformation buf (wrap32 (r' + l')) False False r' s = Some ((q, v1), s')"
      using assms(1) b by (auto simp: parse_user_element_def split: Option.bind_splits if_splits)
    have "r < r'" using decode_len_result [OF i(1,2)] assms(2) by auto
    then show ?thesis using parseUserInformation_position [OF i(3)] assms(2) by (auto simp: advanced_def)
  next
    case False
    then have "q = wrap32 (r + l)" using assms(1) b by (auto simp: parse_user_element_def)
    then show ?thesis using wrap32_sum [of r l] assms(2-5) by (auto simp: advanced_def)
  qed
qed

text \<open>
  The loop of \<open>parseAarqPdu\<close>; no locals stand for an early \<open>return ACSE_ASSOCIATE_FAILED\<close>.
\<close>

function aarq_loop ::
    "u8 list \<Rightarrow> int \<Rightarrow> int \<Rightarrow> AcseLocals \<Rightarrow> AcseConnection \<Rightarrow> (AcseLocals option \<times> AcseConnection) option" where
  "aarq_loop buf maxBufPos bufPos al self =
     (if bufPos < maxBufPos then do {
        tag \<leftarrow> rdi buf bufPos;
        (pos, len) \<leftarrow> decode_len buf (bufPos + 1) maxBufPos;
        if pos < 0 then Some (None, self)
        else if tag = 0xa2 then do {
          addr \<leftarrow> parse_ap_title buf pos len (acse_localAppAddr self);
          aarq_loop buf maxBufPos (wrap32 (pos + len)) al (self\<lparr>acse_localAppAddr := addr\<rparr>) }
        else if tag = 0xa3 then do {
          addr \<leftarrow> parse_ae_qualifier buf pos len (acse_localAppAddr self);
          aarq_loop buf maxBufPos (wrap32 (pos + len)) al (self\<lparr>acse_localAppAddr := addr\<rparr>) }
        else if tag = 0xa6 then do {
          addr \<leftarrow> parse_ap_title buf pos len (acse_remoteAppAddr self);
          aarq_loop buf maxBufPos (wrap32 (pos + len)) al (self\<lparr>acse_remoteAppAddr := addr\<rparr>) }
        else if tag = 0xa7 then do {
          addr \<leftarrow> parse_ae_qualifier buf pos len (acse_remoteAppAddr self);
          aarq_loop buf maxBufPos (wrap32 (pos + len)) al (self\<lparr>acse_remoteAppAddr := addr\<rparr>) }
        else if tag = 0x8b then
          aarq_loop buf maxBufPos (wrap32 (pos + len))
            (al\<lparr>al_authMechLen := len, al_authMechanism := Some (drop (nat pos) buf)\<rparr>) self
        else if tag = 0xac then do {
          (pos, len) \<leftarrow> decode_len buf (pos + 1) maxBufPos;
          if pos < 0 then Some (None, self)
          else aarq_loop buf maxBufPos (wrap32 (pos + len))
            (al\<lparr>al_authValueLen := len, al_authValue := Some (drop (nat pos) buf)\<rparr>) self }
        else if tag = 0xbe then do {
          (r, self) \<leftarrow> parse_user_element buf maxBufPos pos len (al_userInfoValid al) self;
          case r of
            None \<Rightarrow> Some (None, self)
          | Some (pos, valid) \<Rightarrow> aarq_loop buf maxBufPos pos (al\<lparr>al_userInfoValid := valid\<rparr>) self }
        else if tag = 0x00 then aarq_loop buf maxBufPos pos al self
        else aarq_loop buf maxBufPos (wrap32 (pos + len)) al self }
      else Some (Some al, self))"
  by pat_completeness auto

text \<open>Positions and lengths the length decoder delivers are non-negative \<open>int\<close>s.\<close>

lemma user_element_step:
  assumes "rdi buf p = Some b" "decode_len buf (p + 1) m = Some (r, l)" "\<not> r < 0"
    "parse_user_element buf m r l v s = Some (Some (q, v'), s')"
  shows "remaining buf q < remaining buf p"
proof -
  have "0 \<le> p" using assms(1) by (simp add: rdi_eq_Some)
  then have "0 \<le> l" "l < 2 ^ 31" "r < 2 ^ 31" using decode_len_result [OF assms(2,3)] by auto
  then have "advanced r q" using parse_user_element_position [OF assms(4,3)] by blast
  then show ?thesis using advanced_step(3) [OF assms(1-3)] by blast
qed

termination aarq_loop
  by (relation "measure (\<lambda>(buf, m, p, a, s). remaining buf p)")
    (auto simp: remaining_step inner_step(2) dest: user_element_step)

declare aarq_loop.simps [simp del]

definition parseAarqPdu :: "AcseConnection \<Rightarrow> u8 list \<Rightarrow> int \<Rightarrow> int \<Rightarrow> (AcseIndication \<times> AcseConnection) option" where
  "parseAarqPdu self buf bufPos maxBufPos = do {
     (r, self) \<leftarrow> aarq_loop buf maxBufPos bufPos acse_locals self;
     case r of
       None \<Rightarrow> Some (ACSE_ASSOCIATE_FAILED, self)
     | Some al \<Rightarrow> do {
         (authResult, self) \<leftarrow> checkAuthentication self (al_authMechanism al) (al_authMechLen al)
           (al_authValue al) (al_authValueLen al);
         Some (if authResult \<noteq> ACSE_USER_OK then ACSE_ASSOCIATE_FAILED
               else if \<not> al_userInfoValid al then ACSE_ASSOCIATE_FAILED
               else ACSE_ASSOCIATE, self) } }"

text \<open>The loop of \<open>parseAarePdu\<close>; an early return is its indication.\<close>

function aare_loop ::
    "u8 list \<Rightarrow> int \<Rightarrow> int \<Rightarrow> AcseLocals \<Rightarrow> AcseConnection \<Rightarrow> ((AcseIndication + AcseLocals) \<times> AcseConnection) option" where
  "aare_loop buf maxBufPos bufPos al self =
     (if bufPos < maxBufPos then do {
        tag \<leftarrow> rdi buf bufPos;
        (pos, len) \<leftarrow> decode_len buf (bufPos + 1) maxBufPos;
        if pos < 0 then Some (Inl ACSE_ERROR, self)
        else if tag = 0xa2 then do {
          (pos, len) \<leftarrow> decode_len buf (pos + 1) maxBufPos;
          if pos < 0 then Some (Inl ACSE_ERROR, self)
          else do {
            result \<leftarrow> decode_uint buf len pos;
            aare_loop buf maxBufPos (wrap32 (pos + len)) (al\<lparr>al_result := result\<rparr>) self } }
        else if tag = 0xa4 then do {
          addr \<leftarrow> parse_ap_title buf pos len (acse_remoteAppAddr self);
          aare_loop buf maxBufPos (wrap32 (pos + len)) al (self\<lparr>acse_remoteAppAddr := addr\<rparr>) }
        else if tag = 0xa5 then do {
          addr \<leftarrow> parse_ae_qualifier buf pos len (acse_remoteAppAddr self);
          aare_loop buf maxBufPos (wrap32 (pos + len)) al (self\<lparr>acse_remoteAppAddr := addr\<rparr>) }
        else if tag = 0xa9 then
          aare_loop buf maxBufPos (wrap32 (pos + len))
            (al\<lparr>al_authMechLen := len, al_authMechanism := Some (drop (nat pos) buf)\<rparr>) self
        else if tag = 0xaa then do {
          (pos, len) \<leftarrow> decode_len buf (pos + 1) maxBufPos;
          if pos < 0 then Some (Inl ACSE_ASSOCIATE_FAILED, self)
          else aare_loop buf maxBufPos (wrap32 (pos + len))
            (al\<lparr>al_authValueLen := len, al_authValue := Some (drop (nat pos) buf)\<rparr>) self }
        else if tag = 0xbe then do {
          (r, self) \<leftarrow> parse_user_element buf maxBufPos pos len (al_userInfoValid al) self;
          case r of
            None \<Rightarrow> Some (Inl ACSE_ERROR, self)
          | Some (pos, valid) \<Rightarrow> aare_loop buf maxBufPos pos (al\<lparr>al_userInfoValid := valid\<rparr>) self }
        else if tag = 0x00 then aare_loop buf maxBufPos pos al self
        else aare_loop buf maxBufPos (wrap32 (pos + len)) al self }
      else Some (Inr al, self))"
  by pat_completeness auto

termination aare_loop
  by (relation "measure (\<lambda>(buf, m, p, a, s). remaining buf p)")
    (auto simp: remaining_step inner_step(2) dest: user_element_step)

declare aare_loop.simps [simp del]

definition parseAarePdu :: "AcseConnection \<Rightarrow> u8 list \<Rightarrow> int \<Rightarrow> int \<Rightarrow> (AcseIndication \<times> AcseConnection) option" where
  "parseAarePdu self buf bufPos maxBufPos = do {
     (r, self) \<leftarrow> aare_loop buf maxBufPos bufPos acse_locals self;
     case r of
       Inl ind \<Rightarrow> Some (ind, self)
     | Inr al \<Rightarrow> do {
         (authResult, self) \<leftarrow> checkAuthentication self (al_authMechanism al) (al_authMechLen al)
           (al_authValue al) (al_authValueLen al);
         Some (if authResult \<noteq> ACSE_USER_OK then ACSE_ASSOCIATE_FAILED
               else if \<not> al_userInfoValid al then ACSE_ERROR
               else if al_result al \<noteq> 0 then ACSE_ASSOCIATE_FAILED
               else ACSE_ASSOCIATE, self) } }"

text \<open>\<open>parseAbrtPdu\<close>.\<close>

function parseAbrtPdu :: "u8 list \<Rightarrow> int \<Rightarrow> int \<Rightarrow> AcseIndication option" where
  "parseAbrtPdu buf bufPos maxBufPos =
     (if bufPos < maxBufPos then do {
        tag \<leftarrow> rdi buf bufPos;
        (pos, len) \<leftarrow> decode_len buf (bufPos + 1) maxBufPos;
        if pos < 0 then Some ACSE_ERROR
        else if tag = 0x80 \<or> tag = 0x81 then
          (if len \<noteq> 1 then Some ACSE_ERROR
           else do {
             v \<leftarrow> rdi buf pos;
             parseAbrtPdu buf (wrap32 (pos + len)) maxBufPos })
        else if tag = 0xb0 then parseAbrtPdu buf (wrap32 (pos + len)) maxBufPos
        else if tag = 0x00 then parseAbrtPdu buf pos maxBufPos
        else Some ACSE_ERROR }
      else Some ACSE_ABORT)"
  by pat_completeness auto

termination parseAbrtPdu
  by (relation "measure (\<lambda>(buf, p, m). remaining buf p)") (auto simp: remaining_step)

declare parseAbrtPdu.simps [simp del]

text \<open>A message type 0 leaves the local \<open>indication\<close> as it is: what the stack held, \<open>stack\<close>.\<close>

definition AcseConnection_parseMessage ::
    "AcseIndication \<Rightarrow> AcseConnection \<Rightarrow> ByteBuffer \<Rightarrow> (AcseIndication \<times> AcseConnection) option" where
  "AcseConnection_parseMessage stack self message = do {
     let buf = bb_buffer message;
     let messageSize = bb_size message;
     messageType \<leftarrow> rd buf 0;
     (pos, len) \<leftarrow> decode_len buf 1 messageSize;
     if pos < 0 then Some (ACSE_ERROR, self)
     else if messageType = 0x60 then parseAarqPdu self buf pos messageSize
     else if messageType = 0x61 then parseAarePdu self buf pos messageSize
     else if messageType = 0x62 then Some (ACSE_RELEASE_REQUEST, self)
     else if messageType = 0x63 then Some (ACSE_RELEASE_RESPONSE, self)
     else if messageType = 0x64 then do {
       ind \<leftarrow> parseAbrtPdu buf pos messageSize;
       Some (ind, self) }
     else if messageType = 0x00 then Some (stack, self)
     else Some (ACSE_ERROR, self) }"

section \<open>Writing\<close>

text \<open>The title of an address in its ten bytes with its length; the bytes before are the stack's.\<close>

definition encoded_title :: "IsoApplicationAddress \<Rightarrow> (u8 list \<times> nat) option" where
  "encoded_title addr = BerEncoder_encodeItuObjectIdentifierToBuffer (iaa_apTitle addr) (replicate 10 0) 10"

definition integer_size :: "bool \<Rightarrow> u32 \<Rightarrow> nat option" where
  "integer_size present value = (if present then BerEncoder_Int32determineEncodedSize value else Some 0)"

text \<open>What an element of \<open>n\<close> bytes adds to the length of the message.\<close>

definition element_size :: "bool \<Rightarrow> nat \<Rightarrow> int" where
  "element_size present n = (if present then 4 + int n else 0)"

definition put_title :: "u8 \<Rightarrow> u8 list \<Rightarrow> nat \<Rightarrow> cursor \<Rightarrow> cursor option" where
  "put_title tag title n c =
     (if n > 0 then do {
        c \<leftarrow> encode_tl tag (int n + 2) c;
        c \<leftarrow> encode_tl 0x06 (int n) c;
        put_from title 0 n c }
      else Some c)"

definition put_integer :: "u8 \<Rightarrow> bool \<Rightarrow> nat \<Rightarrow> u32 \<Rightarrow> cursor \<Rightarrow> cursor option" where
  "put_integer tag present n value c =
     (if present then do {
        c \<leftarrow> encode_tl tag (int n + 2) c;
        c \<leftarrow> encode_tl 0x02 (int n) c;
        BerEncoder_encodeInt32 value c }
      else Some c)"

definition put_context_name :: "cursor \<Rightarrow> cursor option" where
  "put_context_name c = do {
     c \<leftarrow> encode_tl 0xa1 7 c;
     c \<leftarrow> encode_tl 0x06 5 c;
     puts appContextNameMms c }"

definition AcseConnection_createAssociateResponseMessage ::
    "AcseConnection \<Rightarrow> IsoApplicationAddress option \<Rightarrow> u8 \<Rightarrow> ChainPart \<Rightarrow> BufferChain \<Rightarrow> BufferChain option" where
  "AcseConnection_createAssociateResponseMessage self localAppAddr acseResult writeBuffer payload = do {
     payloadLength \<leftarrow> payload_length payload;
     ((title, titleLen), aeq, aei, api) \<leftarrow>
       (case localAppAddr of
          None \<Rightarrow> Some (([], 0), 0, 0, 0)
        | Some a \<Rightarrow> do {
            t \<leftarrow> encoded_title a;
            aeq \<leftarrow> integer_size (iaa_hasAeQualifier a) (iaa_aeQualifier a);
            aei \<leftarrow> integer_size (iaa_hasAeInvocationId a) (iaa_aeInvocationId a);
            api \<leftarrow> integer_size (iaa_hasApInvocationId a) (iaa_apInvocationId a);
            Some (t, aeq, aei, api) });
     let headerContentLen = 9 + 5 + 5 +
       (case localAppAddr of
          None \<Rightarrow> 0
        | Some a \<Rightarrow> element_size (titleLen > 0) titleLen + element_size (iaa_hasAeQualifier a) aeq +
            element_size (iaa_hasAeInvocationId a) aei + element_size (iaa_hasApInvocationId a) api);
     nextRefLength \<leftarrow> BerEncoder_UInt32determineEncodedSize (acse_nextReference self);
     let assocDataLength = payloadLength + 1 + length_size payloadLength + int nextRefLength + 2;
     let userInfoLength = assocDataLength + length_size assocDataLength + 1;
     let userInfoContentLen = userInfoLength + length_size userInfoLength + 1 + 2;
     let contentLength = headerContentLen + userInfoContentLen;
     c \<leftarrow> encode_tl 0x61 contentLength (bc_buffer writeBuffer, 0);
     c \<leftarrow> put_context_name c;
     c \<leftarrow> encode_tl 0xa2 3 c;
     c \<leftarrow> encode_tl 0x02 1 c;
     c \<leftarrow> put acseResult c;
     c \<leftarrow> encode_tl 0xa3 5 c;
     c \<leftarrow> encode_tl 0xa1 3 c;
     c \<leftarrow> encode_tl 0x02 1 c;
     c \<leftarrow> put 0 c;
     c \<leftarrow> (case localAppAddr of
            None \<Rightarrow> Some c
          | Some a \<Rightarrow> do {
              c \<leftarrow> put_title 0xa4 title titleLen c;
              c \<leftarrow> put_integer 0xa5 (iaa_hasAeQualifier a) aeq (iaa_aeQualifier a) c;
              c \<leftarrow> put_integer 0xa6 (iaa_hasApInvocationId a) api (iaa_apInvocationId a) c;
              put_integer 0xa7 (iaa_hasAeInvocationId a) aei (iaa_aeInvocationId a) c });
     c \<leftarrow> encode_tl 0xbe userInfoLength c;
     c \<leftarrow> encode_tl 0x28 assocDataLength c;
     c \<leftarrow> encode_tl 0x02 (int nextRefLength) c;
     c \<leftarrow> BerEncoder_encodeUInt32 (acse_nextReference self) c;
     c \<leftarrow> encode_tl 0xa0 payloadLength c;
     Some (framed_part writeBuffer (fst c) (int (snd c)) payloadLength payload) }"

definition AcseConnection_createAssociateFailedMessage :: "AcseConnection \<Rightarrow> ChainPart \<Rightarrow> BufferChain option" where
  "AcseConnection_createAssociateFailedMessage self writeBuffer =
     AcseConnection_createAssociateResponseMessage self None 1 writeBuffer []"

text \<open>The length the authentication parameter adds, with \<open>authValueStringLength\<close> and \<open>passwordLength\<close>.\<close>

definition auth_sizes :: "AcseAuthenticationParameter option \<Rightarrow> int \<times> int \<times> int" where
  "auth_sizes authParameter =
     (case authParameter of
        None \<Rightarrow> (0, 0, 0)
      | Some par \<Rightarrow>
          if aap_mechanism par = ACSE_AUTH_PASSWORD then
            let passwordLength = aap_passwordLength par;
                authValueStringLength = length_size passwordLength;
                authValueLength = length_size (passwordLength + authValueStringLength + 1)
            in (4 + 5 + 2 + (passwordLength + authValueStringLength) + authValueLength, authValueStringLength, passwordLength)
          else (4 + 5 + 2, 0, 0))"

definition put_authentication :: "AcseAuthenticationParameter option \<Rightarrow> cursor \<Rightarrow> cursor option" where
  "put_authentication authParameter c =
     (case authParameter of
        None \<Rightarrow> Some c
      | Some par \<Rightarrow> do {
          c \<leftarrow> encode_tl 0x8a 2 c;
          c \<leftarrow> put 0x04 c;
          if aap_mechanism par = ACSE_AUTH_PASSWORD then do {
            let (_, authValueStringLength, passwordLength) = auth_sizes authParameter;
            c \<leftarrow> put 0x80 c;
            c \<leftarrow> encode_tl 0x8b 3 c;
            c \<leftarrow> puts auth_mech_password_oid c;
            c \<leftarrow> encode_tl 0xac (authValueStringLength + passwordLength + 1) c;
            c \<leftarrow> encode_tl 0x80 passwordLength c;
            octetString \<leftarrow> aap_octetString par;
            password \<leftarrow> rd_block octetString 0 passwordLength;
            puts password c }
          else put 0 c })"

definition AcseConnection_createAssociateRequestMessage ::
    "AcseConnection \<Rightarrow> IsoApplicationAddress \<Rightarrow> IsoApplicationAddress \<Rightarrow> ChainPart \<Rightarrow> BufferChain \<Rightarrow>
     AcseAuthenticationParameter option \<Rightarrow> BufferChain option" where
  "AcseConnection_createAssociateRequestMessage self remoteAddr localAddr writeBuffer payload authParameter = do {
     payloadLength \<leftarrow> payload_length payload;
     (remoteApTitle, remoteApTitleLen) \<leftarrow> encoded_title remoteAddr;
     (localApTitle, localApTitleLen) \<leftarrow> encoded_title localAddr;
     calledAEQualifierLength \<leftarrow> integer_size (iaa_hasAeQualifier remoteAddr) (iaa_aeQualifier remoteAddr);
     calledAEInvokeIdLength \<leftarrow> integer_size (iaa_hasAeInvocationId remoteAddr) (iaa_aeInvocationId remoteAddr);
     calledAPInvokeIdLength \<leftarrow> integer_size (iaa_hasApInvocationId remoteAddr) (iaa_apInvocationId remoteAddr);
     callingAEQualifierLength \<leftarrow> integer_size (iaa_hasAeQualifier localAddr) (iaa_aeQualifier localAddr);
     callingAEInvokeIdLength \<leftarrow> integer_size (iaa_hasAeInvocationId localAddr) (iaa_aeInvocationId localAddr);
     callingAPInvokeIdLength \<leftarrow> integer_size (iaa_hasApInvocationId localAddr) (iaa_apInvocationId localAddr);
     let contentLength = 9 + element_size (remoteApTitleLen > 0) remoteApTitleLen +
       element_size (iaa_hasAeQualifier remoteAddr) calledAEQualifierLength +
       element_size (iaa_hasAeInvocationId remoteAddr) calledAEInvokeIdLength +
       element_size (iaa_hasApInvocationId remoteAddr) calledAPInvokeIdLength +
       element_size (localApTitleLen > 0) localApTitleLen +
       element_size (iaa_hasAeQualifier localAddr) callingAEQualifierLength +
       element_size (iaa_hasAeInvocationId localAddr) callingAEInvokeIdLength +
       element_size (iaa_hasApInvocationId localAddr) callingAPInvokeIdLength +
       fst (auth_sizes authParameter);
     let assocDataLength = payloadLength + 1 + length_size payloadLength + 1 + 2;
     let userInfoLen = assocDataLength + length_size assocDataLength + 1;
     let contentLength = contentLength + (userInfoLen + length_size userInfoLen + 1);
     c \<leftarrow> encode_tl 0x60 contentLength (bc_buffer writeBuffer, 0);
     c \<leftarrow> put_context_name c;
     c \<leftarrow> put_title 0xa2 remoteApTitle remoteApTitleLen c;
     c \<leftarrow> put_integer 0xa3 (iaa_hasAeQualifier remoteAddr) calledAEQualifierLength (iaa_aeQualifier remoteAddr) c;
     c \<leftarrow> put_integer 0xa4 (iaa_hasApInvocationId remoteAddr) calledAPInvokeIdLength (iaa_apInvocationId remoteAddr) c;
     c \<leftarrow> put_integer 0xa5 (iaa_hasAeInvocationId remoteAddr) calledAEInvokeIdLength (iaa_aeInvocationId remoteAddr) c;
     c \<leftarrow> put_title 0xa6 localApTitle localApTitleLen c;
     c \<leftarrow> put_integer 0xa7 (iaa_hasAeQualifier localAddr) callingAEQualifierLength (iaa_aeQualifier localAddr) c;
     c \<leftarrow> put_integer 0xa8 (iaa_hasApInvocationId localAddr) callingAPInvokeIdLength (iaa_apInvocationId localAddr) c;
     c \<leftarrow> put_integer 0xa9 (iaa_hasAeInvocationId localAddr) callingAEInvokeIdLength (iaa_aeInvocationId localAddr) c;
     c \<leftarrow> put_authentication authParameter c;
     c \<leftarrow> encode_tl 0xbe userInfoLen c;
     c \<leftarrow> encode_tl 0x28 assocDataLength c;
     c \<leftarrow> encode_tl 0x02 1 c;
     c \<leftarrow> put 3 c;
     c \<leftarrow> encode_tl 0xa0 payloadLength c;
     Some (framed_part writeBuffer (fst c) (int (snd c)) payloadLength payload) }"

text \<open>The messages without payload.\<close>

definition acse_message :: "u8 list \<Rightarrow> ChainPart \<Rightarrow> BufferChain option" where
  "acse_message bytes writeBuffer = do {
     (buf, n) \<leftarrow> puts bytes (bc_buffer writeBuffer, 0);
     Some [writeBuffer\<lparr>bc_buffer := buf, bc_partLength := int n, bc_length := int n\<rparr>] }"

definition AcseConnection_createAbortMessage :: "ChainPart \<Rightarrow> bool \<Rightarrow> BufferChain option" where
  "AcseConnection_createAbortMessage writeBuffer isProvider =
     acse_message [0x64, 3, 0x80, 1, if isProvider then 1 else 0] writeBuffer"

definition AcseConnection_createReleaseRequestMessage :: "ChainPart \<Rightarrow> BufferChain option" where
  "AcseConnection_createReleaseRequestMessage writeBuffer = acse_message [0x62, 3, 0x80, 1, 0] writeBuffer"

definition AcseConnection_createReleaseResponseMessage :: "ChainPart \<Rightarrow> BufferChain option" where
  "AcseConnection_createReleaseResponseMessage writeBuffer = acse_message [0x63, 0] writeBuffer"

end
