(* ===== verification/IsoConnection.thy ===== *)
theory IsoConnection
  imports Cotp IsoSession Acse
begin

text \<open>
  \<^verbatim>\<open>mms/iso_server/iso_connection.c\<close>: a connection of the ISO server, which drives the protocol
  layers, and the loop of \<^verbatim>\<open>iso_server.c\<close> that drives the connections.

  The two addresses of the connection are the objects its ACSE connection points to: they are
  \<open>acse_remoteAppAddr\<close> (the peer) and \<open>acse_localAppAddr\<close>. The receive, read and write buffers are the
  ones of the transport connection. What the writers of the layers leave in the send buffer is not
  kept in \<open>ic_sendBuffer\<close>: it is written again before anyone reads it.

  So the model does not show that the response to a request, which lies in the send buffer until it
  is sent, is overwritten when the handler of that request sends a message itself.

  The callbacks of the layers above are parameters; a callback may change the connection itself,
  by the functions of this file. The calls are recorded in \<open>ic_effects\<close>, in order. Locks and TLS are
  left out.
\<close>

section \<open>The connection\<close>

datatype IsoConnectionIndication = ISO_CONNECTION_OPENED | ISO_CONNECTION_READY | ISO_CONNECTION_CLOSED

datatype IsoEffect = Indicated IsoConnectionIndication | MessageReceived nat ByteBuffer

definition ISO_CON_STATE_RUNNING :: int where "ISO_CON_STATE_RUNNING = 1"
definition ISO_CON_STATE_STOPPED :: int where "ISO_CON_STATE_STOPPED = 0"

definition SEND_BUF_SIZE :: int where "SEND_BUF_SIZE = 120000 + 100"
definition RECEIVE_BUF_SIZE :: int where "RECEIVE_BUF_SIZE = 120000 + 100"

text \<open>
  A message handler is named by a number, the parameter it is installed with. The socket is
  there until the connection is closed.
\<close>

record IsoConnection =
  ic_sendBuffer :: "u8 list"
  ic_msgRcvdHandler :: "nat option"
  ic_socket :: bool
  ic_state :: int
  ic_session :: IsoSession
  ic_presentation :: IsoPresentation
  ic_cotp :: CotpConnection
  ic_acse :: AcseConnection
  ic_effects :: "IsoEffect list"

text \<open>
  The server and the layers above: its authenticator, its own address, the connection handler and what the message
  handlers do with a request and the buffer for the response.
\<close>

record IsoServer =
  is_authenticator :: "AcseAuthenticator option"
  is_localAppAddr :: "IsoApplicationAddress option"
  is_connectionHandler :: "IsoConnectionIndication \<Rightarrow> IsoConnection \<Rightarrow> IsoConnection option"
  is_messageHandler :: "nat \<Rightarrow> ByteBuffer \<Rightarrow> ByteBuffer \<Rightarrow> IsoConnection \<Rightarrow> (ByteBuffer \<times> IsoConnection) option"

definition IsoServer_callConnectionHandler :: "IsoServer \<Rightarrow> IsoConnectionIndication \<Rightarrow> IsoConnection \<Rightarrow> IsoConnection option" where
  "IsoServer_callConnectionHandler server indication self =
     is_connectionHandler server indication (self\<lparr>ic_effects := ic_effects self @ [Indicated indication]\<rparr>)"

definition IsoConnection_installListener :: "IsoConnection \<Rightarrow> nat \<Rightarrow> IsoConnection" where
  "IsoConnection_installListener self handler = self\<lparr>ic_msgRcvdHandler := Some handler\<rparr>"

definition IsoConnection_isRunning :: "IsoConnection \<Rightarrow> bool" where
  "IsoConnection_isRunning self \<longleftrightarrow> ic_state self = ISO_CON_STATE_RUNNING"

definition IsoConnection_getSecurityToken :: "IsoConnection \<Rightarrow> BilateralTable option" where
  "IsoConnection_getSecurityToken self = acse_securityToken (ic_acse self)"

definition IsoConnection_getPeerApplicationAddress :: "IsoConnection \<Rightarrow> IsoApplicationAddress option" where
  "IsoConnection_getPeerApplicationAddress self = acse_remoteAppAddr (ic_acse self)"

definition IsoConnection_getCalledApplicationAddress :: "IsoConnection \<Rightarrow> IsoApplicationAddress option" where
  "IsoConnection_getCalledApplicationAddress self = acse_localAppAddr (ic_acse self)"

definition IsoConnection_close :: "IsoConnection \<Rightarrow> IsoConnection" where
  "IsoConnection_close self =
     (if ic_state self \<noteq> ISO_CON_STATE_STOPPED
      then self\<lparr>ic_state := ISO_CON_STATE_STOPPED, ic_socket := False\<rparr> else self)"

section \<open>Sending\<close>

text \<open>A part of the chain whose buffer is the send buffer from a position on; its lengths come later.\<close>

definition part_at :: "u8 list \<Rightarrow> int \<Rightarrow> ChainPart" where
  "part_at buf pos =
     \<lparr>bc_length = 0, bc_partLength = 0, bc_partMaxLength = SEND_BUF_SIZE - pos, bc_buffer = drop (nat pos) buf\<rparr>"

text \<open>\<open>CotpConnection_sendDataMessage\<close> of the connection; a destroyed socket cannot be written to.\<close>

definition send_data :: "IsoConnection \<Rightarrow> BufferChain \<Rightarrow> (CotpIndication \<times> IsoConnection) option" where
  "send_data self chain =
     (if ic_socket self then do {
        (ind, cotp) \<leftarrow> CotpConnection_sendDataMessage (ic_cotp self) chain;
        Some (ind, self\<lparr>ic_cotp := cotp\<rparr>) }
      else None)"

definition IsoConnection_sendMessage :: "IsoConnection \<Rightarrow> ByteBuffer \<Rightarrow> IsoConnection option" where
  "IsoConnection_sendMessage self message =
     (if ic_state self = ISO_CON_STATE_STOPPED then Some self
      else do {
        let payload = BufferChain_init (bb_size message) (bb_size message) [] (bb_buffer message);
        presentation \<leftarrow> IsoPresentation_createUserData (ic_presentation self) (part_at (ic_sendBuffer self) 0) payload;
        session \<leftarrow> IsoSession_createDataSpdu (ic_session self)
          (part_at (ic_sendBuffer self) (bc_partLength (hd presentation))) presentation;
        (indication, self) \<leftarrow> send_data self session;
        Some (if indication \<noteq> COTP_OK then IsoConnection_close self else self) })"

section \<open>Receiving\<close>

definition stop :: "IsoConnection \<Rightarrow> IsoConnection" where
  "stop self = self\<lparr>ic_state := ISO_CON_STATE_STOPPED\<rparr>"

text \<open>Copying a selector of a layer into an address of the connection.\<close>

definition set_peer :: "(IsoApplicationAddress \<Rightarrow> IsoApplicationAddress) \<Rightarrow> IsoConnection \<Rightarrow> IsoConnection" where
  "set_peer f self = self\<lparr>ic_acse := (ic_acse self)\<lparr>acse_remoteAppAddr := map_option f (acse_remoteAppAddr (ic_acse self))\<rparr>\<rparr>"

definition set_called :: "(IsoApplicationAddress \<Rightarrow> IsoApplicationAddress) \<Rightarrow> IsoConnection \<Rightarrow> IsoConnection" where
  "set_called f self = self\<lparr>ic_acse := (ic_acse self)\<lparr>acse_localAppAddr := map_option f (acse_localAppAddr (ic_acse self))\<rparr>\<rparr>"

text \<open>
  The request is handed to the message handler, if there is one; the response is in the send
  buffer, its size is returned.
\<close>

definition call_message_handler :: "IsoServer \<Rightarrow> ByteBuffer \<Rightarrow> IsoConnection \<Rightarrow> (int \<times> IsoConnection) option" where
  "call_message_handler server request self =
     (case ic_msgRcvdHandler self of
        None \<Rightarrow> Some (0, self)
      | Some h \<Rightarrow> do {
          let self = self\<lparr>ic_effects := ic_effects self @ [MessageReceived h request]\<rparr>;
          (response, self) \<leftarrow> is_messageHandler server h request
            (ByteBuffer_wrap (ic_sendBuffer self) 0 SEND_BUF_SIZE) self;
          Some (bb_size response, self\<lparr>ic_sendBuffer := bb_buffer response\<rparr>) })"

text \<open>
  The answer to an association the authenticator has accepted. Null user data are an empty object.
\<close>

definition accept_association :: "IsoServer \<Rightarrow> IsoConnection \<Rightarrow> IsoConnection option" where
  "accept_association server self = do {
     let userData = (case acse_userDataBuffer (ic_acse self) of None \<Rightarrow> [] | Some b \<Rightarrow> b);
     let n = acse_userDataBufferSize (ic_acse self);
     (responseSize, self) \<leftarrow> call_message_handler server (ByteBuffer_wrap userData n n) self;
     if responseSize > 0 then do {
       let buf = ic_sendBuffer self;
       let mms = BufferChain_init responseSize responseSize [] buf;
       called \<leftarrow> acse_localAppAddr (ic_acse self);
       let addr = (if oid_arcCount (iaa_apTitle called) \<noteq> 0 then Some called else is_localAppAddr server);
       acse \<leftarrow> AcseConnection_createAssociateResponseMessage (ic_acse self) addr 0 (part_at buf responseSize) mms;
       presentation \<leftarrow> IsoPresentation_createCpaMessage (ic_presentation self) (part_at buf (bc_length (hd acse))) acse;
       session \<leftarrow> IsoSession_createAcceptSpdu (ic_session self) (part_at buf (bc_length (hd presentation))) presentation;
       (_, self) \<leftarrow> send_data self session;
       IsoServer_callConnectionHandler server ISO_CONNECTION_READY self }
     else Some self }"

definition handle_connect :: "AcseIndication \<Rightarrow> IsoServer \<Rightarrow> ByteBuffer \<Rightarrow> IsoConnection \<Rightarrow> IsoConnection option" where
  "handle_connect stack server sessionUserData self = do {
     let self = set_peer (\<lambda>a. a\<lparr>iaa_sSelector := ses_callingSessionSelector (ic_session self)\<rparr>) self;
     let self = set_called (\<lambda>a. a\<lparr>iaa_sSelector := ses_calledSessionSelector (ic_session self)\<rparr>) self;
     (parsed, presentation) \<leftarrow> IsoPresentation_parseConnect (ic_presentation self) sessionUserData;
     let self = self\<lparr>ic_presentation := presentation\<rparr>;
     if parsed then do {
       let self = set_peer (\<lambda>a. a\<lparr>iaa_pSelector := prs_callingPresentationSelector presentation\<rparr>) self;
       let self = set_called (\<lambda>a. a\<lparr>iaa_pSelector := prs_calledPresentationSelector presentation\<rparr>) self;
       (aIndication, acse) \<leftarrow> AcseConnection_parseMessage stack (ic_acse self) (prs_nextPayload presentation);
       let self = self\<lparr>ic_acse := acse\<rparr>;
       self \<leftarrow> IsoServer_callConnectionHandler server ISO_CONNECTION_OPENED self;
       if aIndication = ACSE_ASSOCIATE then accept_association server self
       else Some (stop self) }
     else Some self }"

definition handle_request :: "IsoServer \<Rightarrow> ByteBuffer \<Rightarrow> IsoConnection \<Rightarrow> IsoConnection option" where
  "handle_request server mmsRequest self = do {
     (responseSize, self) \<leftarrow> call_message_handler server mmsRequest self;
     if responseSize > 0 then do {
       let buf = ic_sendBuffer self;
       let mms = BufferChain_init responseSize responseSize [] buf;
       presentation \<leftarrow> IsoPresentation_createUserData (ic_presentation self) (part_at buf responseSize) mms;
       session \<leftarrow> IsoSession_createDataSpdu (ic_session self) (part_at buf (bc_length (hd presentation))) presentation;
       (_, self) \<leftarrow> send_data self session;
       Some self }
     else Some self }"

definition handle_data :: "IsoServer \<Rightarrow> ByteBuffer \<Rightarrow> IsoConnection \<Rightarrow> IsoConnection option" where
  "handle_data server sessionUserData self = do {
     (parsed, presentation) \<leftarrow> IsoPresentation_parseUserData (ic_presentation self) sessionUserData;
     let self = self\<lparr>ic_presentation := presentation\<rparr>;
     if \<not> parsed then Some (stop self)
     else if prs_nextContextId presentation = prs_mmsContextId presentation
     then handle_request server (prs_nextPayload presentation) self
     else Some self }"

definition handle_finish :: "ByteBuffer \<Rightarrow> IsoConnection \<Rightarrow> IsoConnection option" where
  "handle_finish sessionUserData self = do {
     (parsed, presentation) \<leftarrow> IsoPresentation_parseUserData (ic_presentation self) sessionUserData;
     let self = self\<lparr>ic_presentation := presentation\<rparr>;
     self \<leftarrow>
       (if parsed then do {
          let buf = ic_sendBuffer self;
          acse \<leftarrow> AcseConnection_createReleaseResponseMessage (part_at buf 0);
          presentation \<leftarrow> IsoPresentation_createUserDataACSE (ic_presentation self) (part_at buf (bc_length (hd acse))) acse;
          session \<leftarrow> IsoSession_createDisconnectSpdu (ic_session self) (part_at buf (bc_length (hd presentation))) presentation;
          (_, self) \<leftarrow> send_data self session;
          Some self }
        else Some self);
     Some (stop self) }"

definition handle_message :: "AcseIndication \<Rightarrow> IsoServer \<Rightarrow> IsoConnection \<Rightarrow> IsoConnection option" where
  "handle_message stack server self = do {
     (sIndication, session) \<leftarrow> IsoSession_parseMessage (ic_session self) (CotpConnection_getPayload (ic_cotp self));
     let self = self\<lparr>ic_session := session\<rparr>;
     let sessionUserData = IsoSession_getUserData session;
     self \<leftarrow>
       (if sIndication = SESSION_CONNECT then handle_connect stack server sessionUserData self
        else if sIndication = SESSION_DATA then handle_data server sessionUserData self
        else if sIndication = SESSION_FINISH then handle_finish sessionUserData self
        else Some (stop self));
     Some (self\<lparr>ic_cotp := CotpConnection_resetPayload (ic_cotp self)\<rparr>) }"

text \<open>The two copies of a transport connect, then the response.\<close>

definition handle_transport_connect :: "IsoConnection \<Rightarrow> IsoConnection option" where
  "handle_transport_connect self = do {
     let options = cot_options (ic_cotp self);
     let self = set_peer (\<lambda>a. a\<lparr>iaa_tSelector := opt_tSelSrc options\<rparr>) self;
     let self = set_called (\<lambda>a. a\<lparr>iaa_tSelector := opt_tSelDst options\<rparr>) self;
     (_, cotp) \<leftarrow> CotpConnection_sendConnectionResponseMessage (ic_cotp self);
     Some (self\<lparr>ic_cotp := cotp\<rparr>) }"

definition IsoConnection_handleTcpConnection :: "AcseIndication \<Rightarrow> IsoServer \<Rightarrow> IsoConnection \<Rightarrow> IsoConnection option" where
  "IsoConnection_handleTcpConnection stack server self = do {
     (tpktState, cotp) \<leftarrow> CotpConnection_readToTpktBuffer (ic_cotp self);
     let self = self\<lparr>ic_cotp := cotp\<rparr>;
     let self = (if tpktState = TPKT_ERROR then stop self else self);
     if tpktState \<noteq> TPKT_PACKET_COMPLETE then Some self
     else do {
       (cotpIndication, cotp) \<leftarrow> CotpConnection_parseIncomingMessage (ic_cotp self);
       let self = self\<lparr>ic_cotp := cotp\<rparr>;
       if cotpIndication = COTP_MORE_FRAGMENTS_FOLLOW then Some self
       else if cotpIndication = COTP_CONNECT_INDICATION then handle_transport_connect self
       else if cotpIndication = COTP_DATA_INDICATION then handle_message stack server self
       else Some (stop self) } }"

section \<open>Creation\<close>

text \<open>Zeroed objects (\<open>GLOBAL_CALLOC\<close>), and memory whose contents are not known (\<open>GLOBAL_MALLOC\<close>).\<close>

definition zero_buffer :: ByteBuffer where
  "zero_buffer = \<lparr>bb_buffer = [], bb_maxSize = 0, bb_size = 0\<rparr>"

definition zero_selector :: Selector where
  "zero_selector = \<lparr>sel_size = 0, sel_value = replicate 16 0\<rparr>"

definition zero_cotp :: "Socket \<Rightarrow> CotpConnection" where
  "zero_cotp socket = \<lparr>cot_state = 0, cot_remoteRef = 0, cot_localRef = 0, cot_protocolClass = 0, cot_socket = socket,
     cot_options = \<lparr>opt_tSelSrc = zero_selector, opt_tSelDst = zero_selector, opt_tpduSize = 0\<rparr>,
     cot_isLastDataUnit = False, cot_payload = zero_buffer, cot_writeBuffer = None, cot_readBuffer = zero_buffer,
     cot_packetSize = 0\<rparr>"

definition zero_presentation :: IsoPresentation where
  "zero_presentation = \<lparr>prs_callingPresentationSelector = zero_selector, prs_calledPresentationSelector = zero_selector,
     prs_localAddress = None, prs_remoteAddress = None, prs_peerAddress = None, prs_nextContextId = 0,
     prs_acseContextId = 0, prs_mmsContextId = 0, prs_nextPayload = zero_buffer\<rparr>"

definition zero_acse :: AcseConnection where
  "zero_acse = \<lparr>acse_state = idle, acse_nextReference = 0, acse_userDataBuffer = None, acse_userDataBufferSize = 0,
     acse_authenticator = None, acse_localAppAddr = None, acse_remoteAppAddr = None, acse_securityToken = None\<rparr>"

definition malloc :: "(nat \<Rightarrow> u8) \<Rightarrow> int \<Rightarrow> u8 list" where
  "malloc memory n = map memory [0..<nat n]"

definition TPKT_RFC1006_HEADER_SIZE :: int where "TPKT_RFC1006_HEADER_SIZE = 4"

text \<open>A packet buffer of the transport layer.\<close>

definition packet_buffer :: "(nat \<Rightarrow> u8) \<Rightarrow> ByteBuffer" where
  "packet_buffer memory =
     (let n = COTP_MAX_TPDU_SIZE + TPKT_RFC1006_HEADER_SIZE in ByteBuffer_wrap (malloc memory n) 0 n)"

definition IsoConnection_create :: "(nat \<Rightarrow> u8) \<Rightarrow> u8 list \<Rightarrow> Socket \<Rightarrow> IsoServer \<Rightarrow> IsoConnection option" where
  "IsoConnection_create memory stack socket isoServer = do {
     cotp \<leftarrow> CotpConnection_init stack (zero_cotp socket) socket
       (ByteBuffer_wrap (malloc memory RECEIVE_BUF_SIZE) 0 RECEIVE_BUF_SIZE)
       (packet_buffer memory) (Some (packet_buffer memory));
     Some \<lparr>ic_sendBuffer = malloc memory SEND_BUF_SIZE, ic_msgRcvdHandler = None, ic_socket = True,
       ic_state = ISO_CON_STATE_RUNNING, ic_session = IsoSession_init,
       ic_presentation = IsoPresentation_initPassive zero_presentation (is_localAppAddr isoServer) (Some zero_address),
       ic_cotp = cotp,
       ic_acse = AcseConnection_init zero_acse (Some zero_address) (Some zero_address) (is_authenticator isoServer),
       ic_effects = []\<rparr> }"

text \<open>
  The body of the loop of \<open>handleClientConnections\<close>: a running connection of the array is handled,
  another one destroyed.
\<close>

definition handle_slot :: "AcseIndication \<Rightarrow> IsoServer \<Rightarrow> IsoConnection option \<Rightarrow> (IsoConnection option) option" where
  "handle_slot stack server slot =
     (case slot of
        None \<Rightarrow> Some None
      | Some self \<Rightarrow>
          if IsoConnection_isRunning self
          then map_option Some (IsoConnection_handleTcpConnection stack server self)
          else Some None)"

end
