(* ===== verification/IsoConnection_Laws.thy ===== *)
theory IsoConnection_Laws
  imports IsoConnection Presentation_Laws
begin

text \<open>
  Laws of the server's connections: what has to happen before the layer above gets a message, and
  the way of a message through all layers.
\<close>

section \<open>Credentials\<close>

text \<open>
  The security token of the connection is the one the authenticator gave with its consent; without
  an authenticator there is none.
\<close>

definition credentials_accepted :: "AcseConnection \<Rightarrow> bool" where
  "credentials_accepted a \<longleftrightarrow>
     (case acse_authenticator a of
        None \<Rightarrow> acse_securityToken a = None
      | Some auth \<Rightarrow> \<exists>par token called calling. auth par token called calling = Some (ACSE_USER_OK, acse_securityToken a))"

lemma credentials_accepted_cong:
  "acse_authenticator a = acse_authenticator b \<Longrightarrow> acse_securityToken a = acse_securityToken b \<Longrightarrow>
   credentials_accepted a = credentials_accepted b"
  unfolding credentials_accepted_def by (auto split: option.splits)

lemma parseUserInformation_authenticator:
  "parseUserInformation buf m i v p self = Some (r, self') \<Longrightarrow> acse_authenticator self' = acse_authenticator self"
proof (induction buf m i v p self rule: parseUserInformation.induct)
  case (1 buf m i v p s)
  note step = "1.prems" [unfolded parseUserInformation.simps [of buf m i v p s]]
  show ?case
  proof (cases "p < m")
    case True
    then obtain tag pos len where t: "rdi buf p = Some tag" "decode_len buf (p + 1) m = Some (pos, len)"
      using step by (auto split: Option.bind_splits)
    show ?thesis
    proof (cases "pos < 0")
      case False
      note IH = "1.IH" [OF True t refl False]
      from step True t False IH show ?thesis by (auto split: Option.bind_splits if_splits)
    qed (use step True t in simp)
  qed (use step in simp)
qed

lemma parse_user_element_authenticator:
  "parse_user_element buf m p len v self = Some (r, self') \<Longrightarrow> acse_authenticator self' = acse_authenticator self"
  unfolding parse_user_element_def
  by (auto split: Option.bind_splits if_splits prod.splits dest: parseUserInformation_authenticator)

text \<open>The positions a loop of an association parser goes on at.\<close>

definition loop_steps :: "u8 list \<Rightarrow> int \<Rightarrow> int \<Rightarrow> (int \<Rightarrow> bool) \<Rightarrow> bool" where
  "loop_steps buf m p P \<longleftrightarrow> (\<forall>tag pos len. rdi buf p = Some tag \<and> decode_len buf (p + 1) m = Some (pos, len) \<and> \<not> pos < 0 \<longrightarrow>
     P pos \<and> P (wrap32 (pos + len)) \<and>
     (\<forall>pos' len'. decode_len buf (pos + 1) m = Some (pos', len') \<and> \<not> pos' < 0 \<longrightarrow> P (wrap32 (pos' + len'))) \<and>
     (\<forall>s v pos' v' s'. parse_user_element buf m pos len v s = Some (Some (pos', v'), s') \<longrightarrow> P pos'))"

lemma loop_stepsI:
  assumes "\<And>q. remaining buf q < remaining buf p \<Longrightarrow> P q"
  shows "loop_steps buf m p P"
  unfolding loop_steps_def using assms
  by (blast intro: remaining_step inner_step(2) user_element_step)

lemma loop_stepsD:
  assumes "loop_steps buf m p P" "rdi buf p = Some tag" "decode_len buf (p + 1) m = Some (pos, len)" "\<not> pos < 0"
  shows "P pos" "P (wrap32 (pos + len))"
    "decode_len buf (pos + 1) m = Some (pos', len') \<Longrightarrow> \<not> pos' < 0 \<Longrightarrow> P (wrap32 (pos' + len'))"
    "parse_user_element buf m pos len v s = Some (Some (pos'', v'), s') \<Longrightarrow> P pos''"
  using assms unfolding loop_steps_def by blast+

lemma aarq_loop_authenticator:
  "aarq_loop buf m p al self = Some (r, self') \<Longrightarrow> acse_authenticator self' = acse_authenticator self"
proof (induction "remaining buf p" arbitrary: p al self rule: less_induct)
  case less
  let ?P = "\<lambda>q. \<forall>al s. aarq_loop buf m q al s = Some (r, self') \<longrightarrow> acse_authenticator self' = acse_authenticator s"
  have S: "loop_steps buf m p ?P" using less.hyps by (blast intro: loop_stepsI)
  note step = less.prems [unfolded aarq_loop.simps [of buf m p al self]]
  show ?case
  proof (cases "p < m")
    case True
    then obtain tag pos len where t: "rdi buf p = Some tag" "decode_len buf (p + 1) m = Some (pos, len)"
      using step by (auto split: Option.bind_splits)
    show ?thesis
    proof (cases "pos < 0")
      case False
      note IH = loop_stepsD [OF S t False, rule_format]
      have U: "acse_authenticator self' = acse_authenticator s"
        if "parse_user_element buf m pos len v s = Some (Some (q, v'), s')" "aarq_loop buf m q al' s' = Some (r, self')"
        for v s q v' s' al'
        using IH(4) [OF that] parse_user_element_authenticator [OF that(1)] by simp
      show ?thesis
        using step unfolding t if_P [OF True] if_not_P [OF False] Option.bind.simps prod.case
        by (auto split: if_split_asm Option.bind_split_asm option.split_asm
            dest: IH(1-3) U parse_user_element_authenticator)
    qed (use step True t in simp)
  qed (use step in simp)
qed

lemma aare_loop_authenticator:
  "aare_loop buf m p al self = Some (r, self') \<Longrightarrow> acse_authenticator self' = acse_authenticator self"
proof (induction "remaining buf p" arbitrary: p al self rule: less_induct)
  case less
  let ?P = "\<lambda>q. \<forall>al s. aare_loop buf m q al s = Some (r, self') \<longrightarrow> acse_authenticator self' = acse_authenticator s"
  have S: "loop_steps buf m p ?P" using less.hyps by (blast intro: loop_stepsI)
  note step = less.prems [unfolded aare_loop.simps [of buf m p al self]]
  show ?case
  proof (cases "p < m")
    case True
    then obtain tag pos len where t: "rdi buf p = Some tag" "decode_len buf (p + 1) m = Some (pos, len)"
      using step by (auto split: Option.bind_splits)
    show ?thesis
    proof (cases "pos < 0")
      case False
      note IH = loop_stepsD [OF S t False, rule_format]
      have U: "acse_authenticator self' = acse_authenticator s"
        if "parse_user_element buf m pos len v s = Some (Some (q, v'), s')" "aare_loop buf m q al' s' = Some (r, self')"
        for v s q v' s' al'
        using IH(4) [OF that] parse_user_element_authenticator [OF that(1)] by simp
      show ?thesis
        using step unfolding t if_P [OF True] if_not_P [OF False] Option.bind.simps prod.case
        by (auto split: if_split_asm Option.bind_split_asm option.split_asm
            dest: IH(1-3) U parse_user_element_authenticator)
    qed (use step True t in simp)
  qed (use step in simp)
qed

lemma aare_loop_no_associate: "aare_loop buf m p al self \<noteq> Some (Inl ACSE_ASSOCIATE, self')"
proof (induction "remaining buf p" arbitrary: p al self rule: less_induct)
  case less
  let ?P = "\<lambda>q. \<forall>al s. aare_loop buf m q al s \<noteq> Some (Inl ACSE_ASSOCIATE, self')"
  have S: "loop_steps buf m p ?P" using less.hyps by (blast intro: loop_stepsI)
  show ?case
  proof
    assume "aare_loop buf m p al self = Some (Inl ACSE_ASSOCIATE, self')"
    note step = this [unfolded aare_loop.simps [of buf m p al self]]
    then have True: "p < m" by (simp split: if_split_asm)
    then obtain tag pos len where t: "rdi buf p = Some tag" "decode_len buf (p + 1) m = Some (pos, len)"
      using step by (auto split: Option.bind_splits)
    then have False: "\<not> pos < 0" using step True by auto
    note IH = loop_stepsD [OF S t False, rule_format]
    show False
      using step unfolding t if_P [OF True] if_not_P [OF False] Option.bind.simps prod.case
      by (auto simp: IH(1,2) split: if_split_asm Option.bind_split_asm option.split_asm
          dest: IH(3) [THEN notE] IH(4) [THEN notE])
  qed
qed

lemma authenticatePeer_accepts:
  assumes "authenticatePeer self auth mech value k = Some (d, self')" "acse_authenticator self = Some auth"
  shows "acse_authenticator self' = acse_authenticator self" "d = ACSE_USER_OK \<Longrightarrow> credentials_accepted self'"
  using assms unfolding authenticatePeer_def credentials_accepted_def
  by (auto simp: Let_def split: Option.bind_splits if_splits) blast+

lemma checkAuthentication_accepts:
  assumes "checkAuthentication self mech n value k = Some (d, self')"
  shows "acse_authenticator self' = acse_authenticator self" "d = ACSE_USER_OK \<Longrightarrow> credentials_accepted self'"
proof -
  have "acse_authenticator self' = acse_authenticator self \<and> (d = ACSE_USER_OK \<longrightarrow> credentials_accepted self')"
  proof (cases "acse_authenticator self")
    case None
    then show ?thesis using assms by (auto simp: checkAuthentication_def credentials_accepted_def)
  next
    case (Some auth)
    then show ?thesis
      using assms authenticatePeer_accepts [of "self\<lparr>acse_securityToken := None\<rparr>" auth]
      by (auto simp: checkAuthentication_def Let_def split: Option.bind_splits if_splits)
  qed
  then show "acse_authenticator self' = acse_authenticator self" "d = ACSE_USER_OK \<Longrightarrow> credentials_accepted self'"
    by blast+
qed

lemma parseAarqPdu_accepts:
  assumes "parseAarqPdu self buf p m = Some (ind, self')"
  shows "acse_authenticator self' = acse_authenticator self" "ind = ACSE_ASSOCIATE \<Longrightarrow> credentials_accepted self'"
proof -
  obtain r s where l: "aarq_loop buf m p acse_locals self = Some (r, s)" "acse_authenticator s = acse_authenticator self"
    using assms aarq_loop_authenticator [of buf m p acse_locals self]
    unfolding parseAarqPdu_def by (auto split: Option.bind_splits)
  show "acse_authenticator self' = acse_authenticator self" "ind = ACSE_ASSOCIATE \<Longrightarrow> credentials_accepted self'"
    using assms l checkAuthentication_accepts [of s]
    unfolding parseAarqPdu_def by (auto split: option.splits Option.bind_splits if_splits)
qed

lemma parseAarePdu_accepts:
  assumes "parseAarePdu self buf p m = Some (ind, self')"
  shows "acse_authenticator self' = acse_authenticator self" "ind = ACSE_ASSOCIATE \<Longrightarrow> credentials_accepted self'"
proof -
  obtain r s where l: "aare_loop buf m p acse_locals self = Some (r, s)" "acse_authenticator s = acse_authenticator self"
    using assms aare_loop_authenticator [of buf m p acse_locals self]
    unfolding parseAarePdu_def by (auto split: Option.bind_splits)
  show "acse_authenticator self' = acse_authenticator self" "ind = ACSE_ASSOCIATE \<Longrightarrow> credentials_accepted self'"
    using assms l checkAuthentication_accepts [of s]
    unfolding parseAarePdu_def by (auto simp: aare_loop_no_associate split: sum.splits Option.bind_splits if_splits)
qed

lemma parseAbrtPdu_no_associate: "parseAbrtPdu buf p m \<noteq> Some ACSE_ASSOCIATE"
proof (induction "remaining buf p" arbitrary: p rule: less_induct)
  case less
  let ?P = "\<lambda>q. parseAbrtPdu buf q m \<noteq> Some ACSE_ASSOCIATE"
  have S: "loop_steps buf m p ?P" using less.hyps by (blast intro: loop_stepsI)
  show ?case
  proof
    assume "parseAbrtPdu buf p m = Some ACSE_ASSOCIATE"
    note step = this [unfolded parseAbrtPdu.simps [of buf p m]]
    then have True: "p < m" by (simp split: if_split_asm)
    then obtain tag pos len where t: "rdi buf p = Some tag" "decode_len buf (p + 1) m = Some (pos, len)"
      using step by (auto split: Option.bind_splits)
    then have False: "\<not> pos < 0" using step True by auto
    show False
      using step loop_stepsD(1,2) [OF S t False] unfolding t if_P [OF True] if_not_P [OF False] Option.bind.simps prod.case
      by (auto split: if_split_asm Option.bind_split_asm)
  qed
qed

text \<open>
  ACSE reports an association only after the authenticator accepted the credentials of the message;
  a PDU of type 0 reports what is in uninitialised memory.
\<close>

lemma parseMessage_accepts:
  assumes "AcseConnection_parseMessage stack self message = Some (ind, self')"
  shows "acse_authenticator self' = acse_authenticator self"
    "ind = ACSE_ASSOCIATE \<Longrightarrow> stack \<noteq> ACSE_ASSOCIATE \<Longrightarrow> credentials_accepted self'"
proof -
  obtain ty pos len where m: "rd (bb_buffer message) 0 = Some ty" "decode_len (bb_buffer message) 1 (bb_size message) = Some (pos, len)"
    using assms unfolding AcseConnection_parseMessage_def by (auto simp: Let_def split: Option.bind_splits)
  show "acse_authenticator self' = acse_authenticator self"
    "ind = ACSE_ASSOCIATE \<Longrightarrow> stack \<noteq> ACSE_ASSOCIATE \<Longrightarrow> credentials_accepted self'"
    using assms unfolding AcseConnection_parseMessage_def Let_def m Option.bind.simps prod.case
    by (auto simp: parseAbrtPdu_no_associate split: if_split_asm Option.bind_split_asm
        dest: parseAarqPdu_accepts parseAarePdu_accepts)
qed


section \<open>No service before authentication\<close>

text \<open>
  What the handlers of the layers above may do with the connection: everything the functions of
  \<open>iso_connection.c\<close> allow: to send, to close, to install a listener.
\<close>

definition kept :: "IsoConnection \<Rightarrow> IsoConnection \<Rightarrow> bool" where
  "kept c c' \<longleftrightarrow> ic_acse c' = ic_acse c \<and> ic_effects c' = ic_effects c \<and>
     (ic_state c' = ISO_CON_STATE_RUNNING \<longrightarrow> ic_state c = ISO_CON_STATE_RUNNING)"

definition handlers_ok :: "IsoServer \<Rightarrow> bool" where
  "handlers_ok server \<longleftrightarrow>
     (\<forall>ind c c'. is_connectionHandler server ind c = Some c' \<longrightarrow> kept c c') \<and>
     (\<forall>h request response c response' c'.
        is_messageHandler server h request response c = Some (response', c') \<longrightarrow> kept c c')"

lemma kept_refl [simp, intro]: "kept c c"
  by (simp add: kept_def)

lemma kept_trans [trans]: "kept a b \<Longrightarrow> kept b c \<Longrightarrow> kept a c"
  by (simp add: kept_def)

lemma send_data_kept: "send_data self chain = Some (ind, self') \<Longrightarrow>
    kept self self' \<and> ic_msgRcvdHandler self' = ic_msgRcvdHandler self"
  by (auto simp: send_data_def kept_def split: Option.bind_splits if_splits)

lemma close_kept [simp]: "kept self (IsoConnection_close self)" "ic_msgRcvdHandler (IsoConnection_close self) = ic_msgRcvdHandler self"
  by (simp_all add: IsoConnection_close_def kept_def ISO_CON_STATE_STOPPED_def ISO_CON_STATE_RUNNING_def)

lemma sendMessage_kept:
  "IsoConnection_sendMessage self message = Some self' \<Longrightarrow> kept self self' \<and> ic_msgRcvdHandler self' = ic_msgRcvdHandler self"
  unfolding IsoConnection_sendMessage_def
  by (auto simp: Let_def split: Option.bind_splits if_splits dest!: send_data_kept intro: kept_trans)

text \<open>The invariant: a running connection with a listener is authenticated.\<close>

definition con_inv :: "IsoServer \<Rightarrow> IsoConnection \<Rightarrow> bool" where
  "con_inv server c \<longleftrightarrow> acse_authenticator (ic_acse c) = is_authenticator server \<and>
     (ic_state c = ISO_CON_STATE_RUNNING \<and> ic_msgRcvdHandler c \<noteq> None \<longrightarrow> credentials_accepted (ic_acse c))"

text \<open>A step that delivered messages did so for an authenticated connection.\<close>

definition served :: "IsoConnection \<Rightarrow> IsoConnection \<Rightarrow> bool" where
  "served c c' \<longleftrightarrow> (\<exists>es. ic_effects c' = ic_effects c @ es \<and>
     ((\<exists>h m. MessageReceived h m \<in> set es) \<longrightarrow> credentials_accepted (ic_acse c')))"


text \<open>What a step does in an authenticated connection.\<close>

definition progressed :: "IsoConnection \<Rightarrow> IsoConnection \<Rightarrow> bool" where
  "progressed c c' \<longleftrightarrow> ic_acse c' = ic_acse c \<and> (\<exists>es. ic_effects c' = ic_effects c @ es) \<and>
     (ic_state c' = ISO_CON_STATE_RUNNING \<longrightarrow> ic_state c = ISO_CON_STATE_RUNNING)"

lemma progressed_trans [trans]: "progressed a b \<Longrightarrow> progressed b c \<Longrightarrow> progressed a c"
  by (auto simp: progressed_def)

lemma kept_progressed: "kept c c' \<Longrightarrow> progressed c c'"
  by (simp add: kept_def progressed_def)

lemma progressed_served:
  assumes "progressed c c'" "credentials_accepted (ic_acse c)" "acse_authenticator (ic_acse c) = is_authenticator server"
  shows "con_inv server c'" "served c c'"
  using assms by (auto simp: progressed_def con_inv_def served_def)

lemma call_message_handler_progressed:
  assumes "handlers_ok server" "call_message_handler server request c = Some (n, c')"
  shows "progressed c c'" "ic_msgRcvdHandler c = None \<Longrightarrow> c' = c \<and> n = 0"
proof -
  show "progressed c c'"
  proof (cases "ic_msgRcvdHandler c")
    case None
    then show ?thesis using assms(2) by (simp add: call_message_handler_def progressed_def)
  next
    case (Some h)
    then obtain r c1 where h: "is_messageHandler server h request (ByteBuffer_wrap (ic_sendBuffer c) 0 SEND_BUF_SIZE)
        (c\<lparr>ic_effects := ic_effects c @ [MessageReceived h request]\<rparr>) = Some (r, c1)"
      "c' = c1\<lparr>ic_sendBuffer := bb_buffer r\<rparr>"
      using assms(2) by (auto simp: call_message_handler_def Let_def split: Option.bind_splits)
    then have "kept (c\<lparr>ic_effects := ic_effects c @ [MessageReceived h request]\<rparr>) c1"
      using assms(1) unfolding handlers_ok_def by blast
    then show ?thesis using h(2) by (simp add: kept_def progressed_def)
  qed
  show "ic_msgRcvdHandler c = None \<Longrightarrow> c' = c \<and> n = 0" using assms(2) by (simp add: call_message_handler_def)
qed

lemma connection_handler:
  assumes "handlers_ok server" "IsoServer_callConnectionHandler server ind c = Some c'"
  shows "kept (c\<lparr>ic_effects := ic_effects c @ [Indicated ind]\<rparr>) c'" "progressed c c'"
proof -
  show k: "kept (c\<lparr>ic_effects := ic_effects c @ [Indicated ind]\<rparr>) c'"
    using assms unfolding handlers_ok_def IsoServer_callConnectionHandler_def by blast
  then show "progressed c c'" by (simp add: kept_def progressed_def)
qed

lemma accept_association_progressed:
  assumes "handlers_ok server" "accept_association server c = Some c'"
  shows "progressed c c'"
proof -
  let ?req = "ByteBuffer_wrap (case acse_userDataBuffer (ic_acse c) of None \<Rightarrow> [] | Some b \<Rightarrow> b)
    (acse_userDataBufferSize (ic_acse c)) (acse_userDataBufferSize (ic_acse c))"
  obtain n c1 where h: "call_message_handler server ?req c = Some (n, c1)"
    using assms(2) by (auto simp: accept_association_def Let_def split: Option.bind_splits)
  have p: "progressed c c1" using call_message_handler_progressed [OF assms(1) h] by blast
  show ?thesis
  proof (cases "n > 0")
    case True
    then obtain chain ind c2 where s: "send_data c1 chain = Some (ind, c2)"
        "IsoServer_callConnectionHandler server ISO_CONNECTION_READY c2 = Some c'"
      using assms(2) h by (auto simp: accept_association_def Let_def split: Option.bind_splits)
    have "progressed c1 c2" using send_data_kept [OF s(1)] kept_progressed by blast
    then show ?thesis using p connection_handler(2) [OF assms(1) s(2)] progressed_trans by blast
  next
    case False
    then show ?thesis using p assms(2) h by (simp add: accept_association_def Let_def)
  qed
qed


text \<open>What the lower layers change: neither the authentication nor the listener.\<close>

definition layers :: "IsoConnection \<Rightarrow> IsoConnection \<Rightarrow> bool" where
  "layers c c' \<longleftrightarrow> acse_authenticator (ic_acse c') = acse_authenticator (ic_acse c) \<and>
     acse_securityToken (ic_acse c') = acse_securityToken (ic_acse c) \<and>
     ic_msgRcvdHandler c' = ic_msgRcvdHandler c \<and> ic_effects c' = ic_effects c \<and>
     (ic_state c' = ISO_CON_STATE_RUNNING \<longrightarrow> ic_state c = ISO_CON_STATE_RUNNING)"

lemma layers_refl [simp, intro]: "layers c c"
  by (simp add: layers_def)

lemma layers_trans [trans]: "layers a b \<Longrightarrow> layers b c \<Longrightarrow> layers a c"
  by (auto simp: layers_def)

lemma layers_stop [simp]: "layers c (stop c)"
  by (simp add: layers_def stop_def ISO_CON_STATE_RUNNING_def ISO_CON_STATE_STOPPED_def)

lemma layers_update [simp]:
  "layers c (c\<lparr>ic_cotp := x\<rparr>)" "layers c (c\<lparr>ic_session := y\<rparr>)" "layers c (c\<lparr>ic_presentation := z\<rparr>)"
  "layers c (set_peer f c)" "layers c (set_called f c)"
  by (simp_all add: layers_def set_peer_def set_called_def)

lemma layers_send: "send_data c chain = Some (ind, c') \<Longrightarrow> layers c c'"
  by (auto dest!: send_data_kept simp: kept_def layers_def)

lemma layers_inv: "layers c c' \<Longrightarrow> con_inv server c \<Longrightarrow> con_inv server c'"
  unfolding con_inv_def layers_def by (auto cong: credentials_accepted_cong intro: credentials_accepted_cong [THEN iffD1])

lemma layers_served: "layers c c' \<Longrightarrow> served c c'"
  by (simp add: layers_def served_def)

lemma served_layers:
  assumes "layers c c1" "served c1 c2" "layers c2 c3"
  shows "served c c3"
proof -
  have "credentials_accepted (ic_acse c3) = credentials_accepted (ic_acse c2)"
    using assms(3) by (intro credentials_accepted_cong) (simp_all add: layers_def)
  then show ?thesis using assms by (auto simp: served_def layers_def)
qed

lemma stop_inv: "acse_authenticator (ic_acse c) = is_authenticator server \<Longrightarrow> con_inv server (stop c)"
  by (simp add: con_inv_def stop_def ISO_CON_STATE_RUNNING_def ISO_CON_STATE_STOPPED_def)

text \<open>Every branch of a tick keeps the invariant and delivers to an authenticated connection only.\<close>

definition safe_step :: "IsoServer \<Rightarrow> IsoConnection \<Rightarrow> IsoConnection \<Rightarrow> bool" where
  "safe_step server c c' \<longleftrightarrow> con_inv server c' \<and> served c c'"

lemma layers_safe: "con_inv server c \<Longrightarrow> layers c c' \<Longrightarrow> safe_step server c c'"
  by (simp add: safe_step_def layers_inv layers_served)

lemma safe_layers:
  assumes "layers c c1" "con_inv server c1 \<Longrightarrow> safe_step server c1 c2" "layers c2 c3" "con_inv server c"
  shows "safe_step server c c3"
  using assms layers_inv served_layers unfolding safe_step_def by blast

lemma handle_connect_safe:
  assumes "handlers_ok server" "con_inv server c" "stack \<noteq> ACSE_ASSOCIATE" "handle_connect stack server ud c = Some c'"
  shows "safe_step server c c'"
proof -
  let ?c = "set_called (\<lambda>a. a\<lparr>iaa_sSelector := ses_calledSessionSelector (ic_session c)\<rparr>)
    (set_peer (\<lambda>a. a\<lparr>iaa_sSelector := ses_callingSessionSelector (ic_session c)\<rparr>) c)"
  have ses: "ic_session (set_peer f a) = ic_session a" "ic_presentation (set_called g (set_peer f a)) = ic_presentation a" for f g a
    by (simp_all add: set_peer_def set_called_def)
  have l: "layers c ?c" by (rule layers_trans [OF layers_update(4) layers_update(5)])
  obtain parsed pres where p: "IsoPresentation_parseConnect (ic_presentation c) ud = Some (parsed, pres)"
    using assms(4) by (auto simp: handle_connect_def Let_def ses split: Option.bind_splits)
  let ?d = "?c\<lparr>ic_presentation := pres\<rparr>"
  show ?thesis
  proof (cases parsed)
    case False
    then have "c' = ?d" using assms(4) p by (simp add: handle_connect_def Let_def ses)
    then show ?thesis using layers_trans [OF l layers_update(3)] assms(2) layers_safe by blast
  next
    case True
    let ?e = "set_called (\<lambda>a. a\<lparr>iaa_pSelector := prs_calledPresentationSelector pres\<rparr>)
      (set_peer (\<lambda>a. a\<lparr>iaa_pSelector := prs_callingPresentationSelector pres\<rparr>) ?d)"
    have le: "layers c ?e" using l layers_update layers_trans by metis
    obtain ind acse c1 where a: "AcseConnection_parseMessage stack (ic_acse ?e) (prs_nextPayload pres) = Some (ind, acse)"
        "IsoServer_callConnectionHandler server ISO_CONNECTION_OPENED (?e\<lparr>ic_acse := acse\<rparr>) = Some c1"
        "(if ind = ACSE_ASSOCIATE then accept_association server c1 else Some (stop c1)) = Some c'"
      using assms(4) p True by (auto simp: handle_connect_def Let_def ses split: Option.bind_splits)
    have k: "kept (?e\<lparr>ic_acse := acse, ic_effects := ic_effects ?e @ [Indicated ISO_CONNECTION_OPENED]\<rparr>) c1"
      using connection_handler(1) [OF assms(1) a(2)] by simp
    have eff: "ic_acse c1 = acse" "ic_effects c1 = ic_effects c @ [Indicated ISO_CONNECTION_OPENED]"
      using k le by (simp_all add: kept_def layers_def)
    have au: "acse_authenticator acse = is_authenticator server"
      using parseMessage_accepts(1) [OF a(1)] le assms(2) by (simp add: layers_def con_inv_def)
    show ?thesis
    proof (cases "ind = ACSE_ASSOCIATE")
      case True
      then have ok: "credentials_accepted acse" using parseMessage_accepts(2) [OF a(1)] assms(3) by blast
      have "progressed c1 c'" using accept_association_progressed [OF assms(1)] a(3) True by simp
      then have "con_inv server c'" "served c1 c'" "ic_acse c' = acse"
        using progressed_served [of c1 c' server] ok au eff(1) by (auto simp: progressed_def)
      then show ?thesis using eff(2) ok unfolding safe_step_def served_def by auto
    next
      case False
      then show ?thesis
        using a(3) stop_inv [of c1 server] au eff unfolding safe_step_def served_def by (auto simp: stop_def)
    qed
  qed
qed


lemma handle_request_progressed:
  assumes "handlers_ok server" "handle_request server request c = Some c'"
  shows "progressed c c'" "ic_msgRcvdHandler c = None \<Longrightarrow> c' = c"
proof -
  obtain n c1 where h: "call_message_handler server request c = Some (n, c1)"
    using assms(2) by (auto simp: handle_request_def split: Option.bind_splits)
  note H = call_message_handler_progressed [OF assms(1) h]
  have "progressed c1 c'"
  proof (cases "n > 0")
    case True
    then obtain chain ind where "send_data c1 chain = Some (ind, c')"
      using assms(2) h by (auto simp: handle_request_def Let_def split: Option.bind_splits)
    then show ?thesis using send_data_kept kept_progressed by blast
  next
    case False
    then show ?thesis using assms(2) h by (simp add: handle_request_def progressed_def)
  qed
  then show "progressed c c'" using H(1) progressed_trans by blast
  show "ic_msgRcvdHandler c = None \<Longrightarrow> c' = c" using H(2) assms(2) h by (simp add: handle_request_def)
qed

lemma handle_data_safe:
  assumes "handlers_ok server" "con_inv server c" "ic_state c = ISO_CON_STATE_RUNNING" "handle_data server ud c = Some c'"
  shows "safe_step server c c'"
proof -
  obtain parsed pres where p: "IsoPresentation_parseUserData (ic_presentation c) ud = Some (parsed, pres)"
    using assms(4) by (auto simp: handle_data_def split: Option.bind_splits)
  let ?c = "c\<lparr>ic_presentation := pres\<rparr>"
  show ?thesis
  proof (cases "parsed \<and> prs_nextContextId pres = prs_mmsContextId pres")
    case False
    then have "c' = stop ?c \<or> c' = ?c" using assms(4) p by (auto simp: handle_data_def Let_def split: if_splits)
    then show ?thesis using layers_safe [OF assms(2)] layers_trans [OF layers_update(3) layers_stop] layers_update(3) by blast
  next
    case True
    then have "handle_request server (prs_nextPayload pres) ?c = Some c'" using assms(4) p by (simp add: handle_data_def)
    note H = handle_request_progressed [OF assms(1) this]
    show ?thesis
    proof (cases "ic_msgRcvdHandler c = None")
      case True
      then show ?thesis using layers_safe [OF assms(2)] layers_update(3) H(2) by simp
    next
      case False
      then have "credentials_accepted (ic_acse c)" "acse_authenticator (ic_acse c) = is_authenticator server"
        using assms(2,3) by (simp_all add: con_inv_def)
      moreover have "progressed c c'" using H(1) by (simp add: progressed_def)
      ultimately show ?thesis using progressed_served by (simp add: safe_step_def)
    qed
  qed
qed

lemma handle_finish_layers: "handle_finish ud c = Some c' \<Longrightarrow> layers c c'"
proof -
  assume f: "handle_finish ud c = Some c'"
  then obtain parsed pres where p: "IsoPresentation_parseUserData (ic_presentation c) ud = Some (parsed, pres)"
    by (auto simp: handle_finish_def split: Option.bind_splits)
  have l: "layers c (c\<lparr>ic_presentation := pres\<rparr>)" by simp
  show "layers c c'"
    using f p l unfolding handle_finish_def
    by (auto simp: Let_def split: Option.bind_split_asm if_split_asm dest!: layers_send
        intro: layers_trans [OF l] layers_trans [OF layers_trans [OF l] layers_stop] layers_stop)
qed

lemma handle_message_safe:
  assumes "handlers_ok server" "con_inv server c" "ic_state c = ISO_CON_STATE_RUNNING" "stack \<noteq> ACSE_ASSOCIATE"
    "handle_message stack server c = Some c'"
  shows "safe_step server c c'"
proof -
  obtain ind ses where s: "IsoSession_parseMessage (ic_session c) (CotpConnection_getPayload (ic_cotp c)) = Some (ind, ses)"
    using assms(5) by (auto simp: handle_message_def split: Option.bind_splits)
  let ?c = "c\<lparr>ic_session := ses\<rparr>"
  obtain c1 where c1: "(if ind = SESSION_CONNECT then handle_connect stack server (IsoSession_getUserData ses) ?c
        else if ind = SESSION_DATA then handle_data server (IsoSession_getUserData ses) ?c
        else if ind = SESSION_FINISH then handle_finish (IsoSession_getUserData ses) ?c else Some (stop ?c)) = Some c1"
      "c' = c1\<lparr>ic_cotp := CotpConnection_resetPayload (ic_cotp c1)\<rparr>"
    using assms(5) s by (auto simp: handle_message_def Let_def split: Option.bind_splits)
  have "safe_step server ?c c1" if "con_inv server ?c"
    using c1(1) handle_connect_safe [OF assms(1) that assms(4)] handle_data_safe [OF assms(1) that] assms(3)
      layers_safe [OF that] handle_finish_layers
    by (auto split: if_splits)
  then show ?thesis using safe_layers [OF layers_update(2)] c1(2) assms(2) layers_update(1) by blast
qed

lemma handle_transport_connect_layers: "handle_transport_connect c = Some c' \<Longrightarrow> layers c c'"
  unfolding handle_transport_connect_def
  by (auto simp: Let_def split: Option.bind_splits intro: layers_trans [OF layers_update(4) layers_trans [OF layers_update(5) layers_update(1)]])

lemma handleTcpConnection_safe:
  assumes "handlers_ok server" "con_inv server c" "ic_state c = ISO_CON_STATE_RUNNING" "stack \<noteq> ACSE_ASSOCIATE"
    "IsoConnection_handleTcpConnection stack server c = Some c'"
  shows "safe_step server c c'"
proof -
  obtain st cotp where r: "CotpConnection_readToTpktBuffer (ic_cotp c) = Some (st, cotp)"
    using assms(5) by (auto simp: IsoConnection_handleTcpConnection_def split: Option.bind_splits)
  let ?c = "c\<lparr>ic_cotp := cotp\<rparr>"
  show ?thesis
  proof (cases "st = TPKT_PACKET_COMPLETE")
    case False
    then have "c' = ?c \<or> c' = stop ?c"
      using assms(5) r by (auto simp: IsoConnection_handleTcpConnection_def Let_def split: if_splits)
    then show ?thesis using layers_safe [OF assms(2)] layers_trans [OF layers_update(1) layers_stop] layers_update(1) by blast
  next
    case True
    then obtain ind cotp' where i: "CotpConnection_parseIncomingMessage cotp = Some (ind, cotp')"
      using assms(5) r by (auto simp: IsoConnection_handleTcpConnection_def Let_def split: Option.bind_splits)
    let ?d = "?c\<lparr>ic_cotp := cotp'\<rparr>"
    have d: "layers c ?d" by (rule layers_trans [OF layers_update(1) layers_update(1)])
    then have inv: "con_inv server ?d" using assms(2) layers_inv by blast
    have "(if ind = COTP_MORE_FRAGMENTS_FOLLOW then Some ?d
        else if ind = COTP_CONNECT_INDICATION then handle_transport_connect ?d
        else if ind = COTP_DATA_INDICATION then handle_message stack server ?d else Some (stop ?d)) = Some c'"
      using assms(5) r i True by (auto simp: IsoConnection_handleTcpConnection_def Let_def split: if_splits)
    then have "safe_step server ?d c'"
      using layers_safe [OF inv] handle_transport_connect_layers [of ?d c'] handle_message_safe [OF assms(1) inv _ assms(4)] assms(3)
      by (auto split: if_splits)
    then show ?thesis using safe_layers [OF d] assms(2) by blast
  qed
qed


text \<open>
  A connection nobody has used, and its runs: ticks of the server's loop, anything the network does, and
  what the application does outside the handlers.
\<close>

definition new_connection :: "IsoServer \<Rightarrow> IsoConnection \<Rightarrow> bool" where
  "new_connection server c \<longleftrightarrow> ic_msgRcvdHandler c = None \<and> acse_authenticator (ic_acse c) = is_authenticator server"

lemma create_new_connection: "IsoConnection_create memory stack socket server = Some c \<Longrightarrow> new_connection server c"
  by (auto simp: IsoConnection_create_def new_connection_def AcseConnection_init_def split: Option.bind_splits)

inductive con_run :: "IsoServer \<Rightarrow> IsoConnection \<Rightarrow> IsoConnection \<Rightarrow> bool" for server c0 where
  start: "con_run server c0 c0"
| tick: "con_run server c0 c \<Longrightarrow> stack \<noteq> ACSE_ASSOCIATE \<Longrightarrow> handle_slot stack server (Some c) = Some (Some c') \<Longrightarrow>
    con_run server c0 c'"
| network: "con_run server c0 c \<Longrightarrow> con_run server c0 (c\<lparr>ic_cotp := (ic_cotp c)\<lparr>cot_socket := s\<rparr>\<rparr>)"
| send: "con_run server c0 c \<Longrightarrow> IsoConnection_sendMessage c m = Some c' \<Longrightarrow> con_run server c0 c'"
| close: "con_run server c0 c \<Longrightarrow> con_run server c0 (IsoConnection_close c)"

lemma kept_layers: "kept c c' \<Longrightarrow> ic_msgRcvdHandler c' = ic_msgRcvdHandler c \<Longrightarrow> layers c c'"
  by (simp add: kept_def layers_def)

lemma handle_slot_safe:
  assumes "handlers_ok server" "con_inv server c" "stack \<noteq> ACSE_ASSOCIATE" "handle_slot stack server (Some c) = Some (Some c')"
  shows "safe_step server c c'"
  using assms handleTcpConnection_safe [OF assms(1,2) _ assms(3)]
  by (auto simp: handle_slot_def IsoConnection_isRunning_def split: if_splits)

lemma con_run_inv:
  assumes "con_run server c0 c" "handlers_ok server" "new_connection server c0"
  shows "con_inv server c"
  using assms(1)
proof induction
  case start
  then show ?case using assms(3) by (simp add: new_connection_def con_inv_def)
next
  case (tick c stack c')
  then show ?case using handle_slot_safe [OF assms(2)] by (simp add: safe_step_def)
next
  case (network c s)
  then show ?case using layers_inv layers_update(1) by blast
next
  case (send c m c')
  then show ?case using layers_inv kept_layers sendMessage_kept by blast
next
  case (close c)
  then show ?case using layers_inv kept_layers close_kept by blast
qed

text \<open>
  C4: no message reaches the layer above before the peer is authenticated. In every run of a
  connection of the server, whatever arrives from the network and whatever the handlers of the
  layers above do (send, close, install a listener), a tick that hands a message to the message
  handler leaves a connection whose authenticator accepted the credentials of an association
  request and gave the security token the connection holds (without an authenticator it holds
  none). The uninitialised memory a PDU of type 0 is judged by must not hold the code of an
  accepted association.
\<close>

theorem authentication_before_service:
  assumes "handlers_ok server" "new_connection server c0" "con_run server c0 c"
    "stack \<noteq> ACSE_ASSOCIATE" "handle_slot stack server (Some c) = Some (Some c')"
  shows "acse_authenticator (ic_acse c') = is_authenticator server \<and>
    (\<exists>es. ic_effects c' = ic_effects c @ es \<and>
      ((\<exists>h m. MessageReceived h m \<in> set es) \<longrightarrow> credentials_accepted (ic_acse c')))"
  using handle_slot_safe [OF assms(1) con_run_inv [OF assms(3,1,2)] assms(4,5)]
  by (simp add: safe_step_def con_inv_def served_def)


text \<open>A server, a connection of it, and the association request of a client with the password \<open>[7, 8, 9]\<close>.\<close>

definition demo_server :: "(AcseAuthenticationParameter \<Rightarrow> bool) \<Rightarrow> IsoServer" where
  "demo_server accepts =
     \<lparr>is_authenticator = Some (\<lambda>par token called calling.
        Some (if accepts par then ACSE_USER_OK else ACSE_USER_AUTH_FAILURE, None)),
      is_localAppAddr = Some zero_address,
      is_connectionHandler = (\<lambda>ind c. Some (if ind = ISO_CONNECTION_OPENED then IsoConnection_installListener c 5 else c)),
      is_messageHandler = (\<lambda>h request response c. Some (response, c))\<rparr>"

definition demo_password :: "AcseAuthenticationParameter \<Rightarrow> bool" where
  "demo_password par \<longleftrightarrow> aap_mechanism par = ACSE_AUTH_PASSWORD \<and>
     map_option (take 3) (aap_octetString par) = Some [7, 8, 9] \<and> aap_passwordLength par = 3"

definition demo_con :: "(AcseAuthenticationParameter \<Rightarrow> bool) \<Rightarrow> u8 list \<Rightarrow> IsoConnection" where
  "demo_con accepts inbound =
     \<lparr>ic_sendBuffer = [], ic_msgRcvdHandler = None, ic_socket = True, ic_state = ISO_CON_STATE_RUNNING,
      ic_session = IsoSession_init,
      ic_presentation = IsoPresentation_initPassive zero_presentation (Some zero_address) (Some zero_address),
      ic_cotp = (zero_cotp \<lparr>sk_inbound = inbound, sk_ready = [10, 200, 10, 200], sk_outbound = [], sk_taken = []\<rparr>)
        \<lparr>cot_payload := ByteBuffer_create 140, cot_readBuffer := ByteBuffer_create 140\<rparr>,
      ic_acse = AcseConnection_init zero_acse (Some zero_address) (Some zero_address) (is_authenticator (demo_server accepts)),
      ic_effects = []\<rparr>"

definition demo_request :: "u8 list" where
  "demo_request = [3, 0, 0, 137, 2, 240, 128, 13, 128, 5, 6, 19, 1, 0, 22, 1, 2, 20, 2, 0, 2, 51, 2, 2, 0, 52, 2, 5, 0,
     193, 106, 49, 104, 160, 3, 128, 1, 1, 162, 97, 129, 4, 3, 0, 0, 0, 130, 4, 6, 0, 0, 0, 164, 35, 48, 15, 2, 1, 1, 6, 4,
     82, 1, 0, 1, 48, 4, 6, 2, 81, 1, 48, 16, 2, 1, 3, 6, 5, 40, 202, 34, 2, 1, 48, 4, 6, 2, 81, 1, 97, 46, 48, 44, 2, 1,
     1, 160, 39, 96, 37, 161, 7, 6, 5, 40, 202, 34, 2, 3, 138, 2, 4, 128, 139, 3, 82, 3, 1, 172, 5, 128, 3, 7, 8, 9, 190,
     10, 40, 8, 2, 1, 3, 160, 3, 41, 42, 43]"

definition delivered :: "IsoConnection \<Rightarrow> (nat \<times> u8 list) list" where
  "delivered c = concat (map (\<lambda>e. case e of MessageReceived h m \<Rightarrow> [(h, buffer_content m)] | Indicated x \<Rightarrow> []) (ic_effects c))"

lemma delivered_effect: "delivered c \<noteq> [] \<Longrightarrow> \<exists>h m. MessageReceived h m \<in> set (ic_effects c)"
  unfolding delivered_def by (auto split: IsoEffect.split_asm) (metis IsoEffect.exhaust)

lemma demo_ok: "handlers_ok (demo_server accepts)" "new_connection (demo_server accepts) (demo_con accepts inbound)"
  by (auto simp: handlers_ok_def demo_server_def kept_def IsoConnection_installListener_def new_connection_def demo_con_def
      AcseConnection_init_def split: if_splits)

text \<open>The initiate request of the client reaches the handler, for a peer that is authenticated.\<close>

theorem authentication_before_service_witness:
  "\<exists>c'. handle_slot ACSE_ERROR (demo_server demo_password) (Some (demo_con demo_password demo_request)) = Some (Some c') \<and>
    delivered c' = [(5, [41, 42, 43])] \<and> credentials_accepted (ic_acse c')"
proof -
  let ?s = "demo_server demo_password" and ?c = "demo_con demo_password demo_request"
  have "map_option (map_option delivered) (handle_slot ACSE_ERROR ?s (Some ?c)) = Some (Some [(5, [41, 42, 43])])"
    by code_simp
  then obtain c' where c': "handle_slot ACSE_ERROR ?s (Some ?c) = Some (Some c')" "delivered c' = [(5, [41, 42, 43])]"
    by auto
  moreover have "ic_effects ?c = []" by (simp add: demo_con_def)
  ultimately have "credentials_accepted (ic_acse c')"
    using authentication_before_service [OF demo_ok con_run.start _ c'(1)] delivered_effect [of c'] by auto
  then show ?thesis using c' by blast
qed

text \<open>A connect message whose ACSE PDU is \<open>00 00\<close>, and a data message.\<close>

definition demo_bypass :: "u8 list" where
  "demo_bypass = [3, 0, 0, 100, 2, 240, 128, 13, 91, 5, 6, 19, 1, 0, 22, 1, 2, 20, 2, 0, 2, 51, 2, 2, 0, 52, 2, 5, 0, 193, 69, 49, 67,
     160, 3, 128, 1, 1, 162, 60, 129, 4, 3, 0, 0, 0, 130, 4, 6, 0, 0, 0, 164, 35, 48, 15, 2, 1, 1, 6, 4,
     82, 1, 0, 1, 48, 4, 6, 2, 81, 1, 48, 16, 2, 1, 3, 6, 5, 40, 202, 34, 2, 1, 48, 4, 6, 2, 81, 1, 97, 9, 48, 7, 2, 1,
     1, 160, 2, 0, 0]"

definition demo_data :: "u8 list" where
  "demo_data = [3, 0, 0, 24, 2, 240, 128, 1, 0, 1, 0, 97, 11, 48, 9, 2, 1, 3, 160, 4, 1, 2, 3, 4]"


end
