(* ===== verification/IsoClient.thy ===== *)
theory IsoClient
  imports IsoConnection
begin

text \<open>
  \<^verbatim>\<open>mms/iso_client/iso_client_connection.c\<close>: the client's side of an ISO connection, a state machine
  driven by a tick function.

  As on the server's side the address of the peer is the object the ACSE connection points to, the
  socket's value is kept in the transport connection and \<open>icl_socket\<close> says whether it exists. The
  send buffer is the buffer of \<open>icl_transmitPayloadBuffer\<close>. What a tick finds (the state of a socket that
  is connecting, the clock, uninitialised memory) is its parameter, so is the callback of the layer
  above, which may change the connection by the functions of this file; the calls are recorded in
  \<open>icl_effects\<close>. TLS is left out; \<open>None\<close> also is a wait for a transmit buffer that is in use.
\<close>

section \<open>The connection\<close>

definition STATE_IDLE :: int where "STATE_IDLE = 0"
definition STATE_CONNECTED :: int where "STATE_CONNECTED = 1"
definition STATE_ERROR :: int where "STATE_ERROR = 2"
definition STATE_CONNECTING :: int where "STATE_CONNECTING = 3"

definition ISO_CLIENT_BUFFER_SIZE :: int where "ISO_CLIENT_BUFFER_SIZE = 120000 + 100"

datatype eIsoClientInternalState = INT_STATE_IDLE | INT_STATE_TCP_CONNECTING
  | INT_STATE_WAIT_FOR_COTP_CONNECT_RESP | INT_STATE_WAIT_FOR_ACSE_RESP | INT_STATE_WAIT_FOR_DATA_MSG
  | INT_STATE_CLOSING_CONNECTION | INT_STATE_CLOSE_ON_ERROR | INT_STATE_ERROR

datatype IsoIndication = ISO_IND_ASSOCIATION_SUCCESS | ISO_IND_ASSOCIATION_FAILED | ISO_IND_CLOSED
  | ISO_IND_DATA | ISO_IND_TICK | ISO_IND_IGNORE

datatype SocketState = SOCKET_STATE_CONNECTING | SOCKET_STATE_FAILED | SOCKET_STATE_CONNECTED

record IsoClientConnection =
  icl_localAppAddr :: "IsoApplicationAddress option"
  icl_remoteAppAddr :: "IsoApplicationAddress option"
  icl_authParameter :: "AcseAuthenticationParameter option"
  icl_intState :: eIsoClientInternalState
  icl_state :: int
  icl_nextReadTimeout :: u64
  icl_socket :: bool
  icl_cotp :: CotpConnection
  icl_presentation :: IsoPresentation
  icl_session :: IsoSession
  icl_acse :: AcseConnection
  icl_receiveBuffer :: ByteBuffer
  icl_transmitPayloadBuffer :: ByteBuffer
  icl_transmitBufferMutex :: nat
  icl_receivePayloadBuffer :: ByteBuffer
  icl_acseAuthenticator :: "AcseAuthenticator option"
  icl_cotpReadBuffer :: ByteBuffer
  icl_cotpWriteBuffer :: ByteBuffer
  icl_requestTimeout :: u32
  icl_effects :: "(IsoIndication \<times> ByteBuffer option) list"

type_synonym IsoIndicationCallback =
  "IsoIndication \<Rightarrow> ByteBuffer option \<Rightarrow> IsoClientConnection \<Rightarrow> IsoClientConnection option"

record Tick =
  tk_socketState :: SocketState
  tk_now :: u64
  tk_later :: u64
  tk_stack :: "u8 list"
  tk_indication :: AcseIndication

definition setState :: "IsoClientConnection \<Rightarrow> int \<Rightarrow> IsoClientConnection" where
  "setState self newState = self\<lparr>icl_state := newState\<rparr>"

definition getState :: "IsoClientConnection \<Rightarrow> int" where
  "getState self = icl_state self"

definition setIntState :: "IsoClientConnection \<Rightarrow> eIsoClientInternalState \<Rightarrow> IsoClientConnection" where
  "setIntState self newState = self\<lparr>icl_intState := newState\<rparr>"

definition getIntState :: "IsoClientConnection \<Rightarrow> eIsoClientInternalState" where
  "getIntState self = icl_intState self"

definition IsoClientConnection_create ::
    "(nat \<Rightarrow> u8) \<Rightarrow> Socket \<Rightarrow> IsoApplicationAddress option \<Rightarrow> IsoApplicationAddress option \<Rightarrow> IsoClientConnection" where
  "IsoClientConnection_create memory no_socket localAddr remoteAddr =
     \<lparr>icl_localAppAddr = localAddr, icl_remoteAppAddr = remoteAddr, icl_authParameter = None,
      icl_intState = INT_STATE_IDLE, icl_state = STATE_IDLE, icl_nextReadTimeout = 0, icl_socket = False,
      icl_cotp = zero_cotp no_socket, icl_presentation = zero_presentation,
      icl_session = \<lparr>ses_callingSessionSelector = zero_selector, ses_calledSessionSelector = zero_selector,
        ses_sessionRequirement = 0, ses_protocolOptions = 0, ses_userData = zero_buffer\<rparr>,
      icl_acse = zero_acse,
      icl_receiveBuffer = ByteBuffer_wrap (malloc memory ISO_CLIENT_BUFFER_SIZE) 0 ISO_CLIENT_BUFFER_SIZE,
      icl_transmitPayloadBuffer = ByteBuffer_wrap (malloc memory ISO_CLIENT_BUFFER_SIZE) 0 ISO_CLIENT_BUFFER_SIZE,
      icl_transmitBufferMutex = 1, icl_receivePayloadBuffer = zero_buffer, icl_acseAuthenticator = None,
      icl_cotpReadBuffer = packet_buffer memory, icl_cotpWriteBuffer = packet_buffer memory,
      icl_requestTimeout = 1000, icl_effects = []\<rparr>"

definition IsoClientConnection_setAuthenticator :: "IsoClientConnection \<Rightarrow> AcseAuthenticator option \<Rightarrow> IsoClientConnection" where
  "IsoClientConnection_setAuthenticator self acseAuthenticator = self\<lparr>icl_acseAuthenticator := acseAuthenticator\<rparr>"

definition IsoClientConnection_allocateTransmitBuffer :: "IsoClientConnection \<Rightarrow> (ByteBuffer \<times> IsoClientConnection) option" where
  "IsoClientConnection_allocateTransmitBuffer self =
     (if icl_transmitBufferMutex self = 0 then None
      else let buffer = (icl_transmitPayloadBuffer self)\<lparr>bb_size := 0, bb_maxSize := ISO_CLIENT_BUFFER_SIZE\<rparr>
           in Some (buffer, self\<lparr>icl_transmitBufferMutex := icl_transmitBufferMutex self - 1,
                                icl_transmitPayloadBuffer := buffer\<rparr>))"

definition IsoClientConnection_releaseTransmitBuffer :: "IsoClientConnection \<Rightarrow> IsoClientConnection" where
  "IsoClientConnection_releaseTransmitBuffer self =
     self\<lparr>icl_transmitBufferMutex := icl_transmitBufferMutex self + 1\<rparr>"

definition IsoClientConnection_getPeerApplicationAddress :: "IsoClientConnection \<Rightarrow> IsoApplicationAddress option" where
  "IsoClientConnection_getPeerApplicationAddress self = icl_remoteAppAddr self"

definition IsoClientConnection_getSecurityToken :: "IsoClientConnection \<Rightarrow> BilateralTable option" where
  "IsoClientConnection_getSecurityToken self = acse_securityToken (icl_acse self)"

definition IsoClientConnection_isRunning :: "IsoClientConnection \<Rightarrow> bool" where
  "IsoClientConnection_isRunning self \<longleftrightarrow> getState self = STATE_CONNECTING \<or> getState self = STATE_CONNECTED"

definition releaseSocket :: "IsoClientConnection \<Rightarrow> IsoClientConnection" where
  "releaseSocket self = (if icl_socket self then self\<lparr>icl_socket := False\<rparr> else self)"

section \<open>Sending\<close>

text \<open>A part of a chain in the send buffer; a data message on the connection's socket.\<close>

definition send_part :: "IsoClientConnection \<Rightarrow> int \<Rightarrow> ChainPart" where
  "send_part self pos =
     \<lparr>bc_length = 0, bc_partLength = 0, bc_partMaxLength = ISO_CLIENT_BUFFER_SIZE - pos,
      bc_buffer = drop (nat pos) (bb_buffer (icl_transmitPayloadBuffer self))\<rparr>"

definition client_send :: "IsoClientConnection \<Rightarrow> BufferChain \<Rightarrow> (CotpIndication \<times> IsoClientConnection) option" where
  "client_send self chain =
     (if icl_socket self then do {
        (indication, cotp) \<leftarrow> CotpConnection_sendDataMessage (icl_cotp self) chain;
        Some (indication, self\<lparr>icl_cotp := cotp\<rparr>) }
      else None)"

definition sendConnectionRequestMessage :: "u8 list \<Rightarrow> IsoClientConnection \<Rightarrow> (bool \<times> IsoClientConnection) option" where
  "sendConnectionRequestMessage stack self = do {
     cotp \<leftarrow> CotpConnection_init stack (icl_cotp self) (cot_socket (icl_cotp self)) (icl_receiveBuffer self)
       (icl_cotpReadBuffer self) (Some (icl_cotpWriteBuffer self));
     remote \<leftarrow> icl_remoteAppAddr self;
     local \<leftarrow> icl_localAppAddr self;
     (indication, cotp) \<leftarrow> CotpConnection_sendConnectionRequestMessage cotp remote local;
     Some (indication = COTP_OK, self\<lparr>icl_cotp := cotp\<rparr>) }"

definition sendAcseInitiateRequest :: "IsoClientConnection \<Rightarrow> IsoClientConnection option" where
  "sendAcseInitiateRequest self = do {
     let transmit = icl_transmitPayloadBuffer self;
     let mms = BufferChain_init (bb_size transmit) (bb_size transmit) [] (bb_buffer transmit);
     let peer = (case icl_remoteAppAddr self of Some a \<Rightarrow> a | None \<Rightarrow> zero_address);
     let self = self\<lparr>icl_acse := AcseConnection_init (icl_acse self) (Some peer) (icl_localAppAddr self)
                                  (icl_acseAuthenticator self)\<rparr>;
     remote \<leftarrow> icl_remoteAppAddr self;
     local \<leftarrow> icl_localAppAddr self;
     acse \<leftarrow> AcseConnection_createAssociateRequestMessage (icl_acse self) remote local
       (send_part self (bb_size transmit)) mms (icl_authParameter self);
     let presentation = IsoPresentation_initActive (icl_presentation self) (Some local) (Some remote) (Some peer);
     (presentation, pchain) \<leftarrow> IsoPresentation_createConnectPdu presentation (send_part self (bc_length (hd acse))) acse;
     (session, schain) \<leftarrow> IsoSession_createConnectSpdu IsoSession_init remote local
       (send_part self (bc_length (hd pchain))) pchain;
     let self = self\<lparr>icl_presentation := presentation, icl_session := session\<rparr>;
     (_, self) \<leftarrow> client_send self schain;
     Some (IsoClientConnection_releaseTransmitBuffer self) }"

text \<open>The buffer of the session header is its constant; the presentation header is in an array of 100 octets.\<close>

definition IsoClientConnection_sendMessage :: "u8 list \<Rightarrow> IsoClientConnection \<Rightarrow> ByteBuffer \<Rightarrow> IsoClientConnection option" where
  "IsoClientConnection_sendMessage stack self payloadBuffer =
     (if getState self = STATE_CONNECTED then do {
        let payload = BufferChain_init (bb_size payloadBuffer) (bb_size payloadBuffer) [] (bb_buffer payloadBuffer);
        presentation \<leftarrow> IsoPresentation_createUserData (icl_presentation self)
          \<lparr>bc_length = 0, bc_partLength = 0, bc_partMaxLength = 100, bc_buffer = take 100 stack\<rparr> payload;
        session \<leftarrow> IsoSession_createDataSpdu (icl_session self)
          \<lparr>bc_length = 0, bc_partLength = 0, bc_partMaxLength = 0, bc_buffer = []\<rparr> presentation;
        (indication, self) \<leftarrow> client_send self session;
        Some (if indication \<noteq> COTP_OK then setIntState self INT_STATE_CLOSE_ON_ERROR else self) }
      else Some self)"

definition sendAbortMessage :: "IsoClientConnection \<Rightarrow> IsoClientConnection option" where
  "sendAbortMessage self = do {
     (_, self) \<leftarrow> IsoClientConnection_allocateTransmitBuffer self;
     acse \<leftarrow> AcseConnection_createAbortMessage (send_part self 0) False;
     presentation \<leftarrow> IsoPresentation_createAbortUserMessage (icl_presentation self) (send_part self (bc_length (hd acse))) acse;
     session \<leftarrow> IsoSession_createAbortSpdu (icl_session self) (send_part self (bc_length (hd presentation))) presentation;
     (_, self) \<leftarrow> client_send self session;
     Some (IsoClientConnection_releaseTransmitBuffer self) }"

definition IsoClientConnection_abortAsync :: "IsoClientConnection \<Rightarrow> IsoClientConnection option" where
  "IsoClientConnection_abortAsync self = sendAbortMessage self"

definition IsoClientConnection_release :: "IsoClientConnection \<Rightarrow> IsoClientConnection option" where
  "IsoClientConnection_release self = do {
     (_, self) \<leftarrow> IsoClientConnection_allocateTransmitBuffer self;
     acse \<leftarrow> AcseConnection_createReleaseRequestMessage (send_part self 0);
     presentation \<leftarrow> IsoPresentation_createUserDataACSE (icl_presentation self) (send_part self (bc_length (hd acse))) acse;
     session \<leftarrow> IsoSession_createFinishSpdu (icl_session self) (send_part self (bc_length (hd presentation))) presentation;
     (_, self) \<leftarrow> client_send self session;
     Some (IsoClientConnection_releaseTransmitBuffer self) }"

section \<open>The state machine\<close>

definition notify :: "IsoIndicationCallback \<Rightarrow> IsoIndication \<Rightarrow> ByteBuffer option \<Rightarrow> IsoClientConnection \<Rightarrow> IsoClientConnection option" where
  "notify callback indication payload self =
     callback indication payload (self\<lparr>icl_effects := icl_effects self @ [(indication, payload)]\<rparr>)"

text \<open>A state's branch of the \<open>switch\<close> returns \<open>waits\<close> and \<open>nextState\<close>.\<close>

type_synonym branch = "(bool \<times> eIsoClientInternalState \<times> IsoClientConnection) option"

definition association_failed :: "IsoIndicationCallback \<Rightarrow> IsoClientConnection \<Rightarrow> branch" where
  "association_failed callback self = do {
     self \<leftarrow> notify callback ISO_IND_ASSOCIATION_FAILED None self;
     Some (False, INT_STATE_CLOSE_ON_ERROR, self) }"

definition association_failed_release :: "IsoIndicationCallback \<Rightarrow> IsoClientConnection \<Rightarrow> branch" where
  "association_failed_release callback self =
     association_failed callback (IsoClientConnection_releaseTransmitBuffer self)"

definition set_timeout :: "u64 \<Rightarrow> u32 \<Rightarrow> IsoClientConnection \<Rightarrow> IsoClientConnection" where
  "set_timeout now timeout self = self\<lparr>icl_nextReadTimeout := now + ucast timeout\<rparr>"

definition tcp_connecting :: "IsoIndicationCallback \<Rightarrow> Tick \<Rightarrow> IsoClientConnection \<Rightarrow> branch" where
  "tcp_connecting callback tick self =
     (if tk_socketState tick = SOCKET_STATE_CONNECTED then do {
        (sent, self) \<leftarrow> sendConnectionRequestMessage (tk_stack tick) self;
        if sent then Some (False, INT_STATE_WAIT_FOR_COTP_CONNECT_RESP, set_timeout (tk_now tick) (icl_requestTimeout self) self)
        else association_failed_release callback self }
      else if tk_socketState tick = SOCKET_STATE_FAILED then association_failed_release callback self
      else if tk_now tick > icl_nextReadTimeout self then association_failed_release callback self
      else Some (True, INT_STATE_TCP_CONNECTING, self))"

text \<open>Reading from the socket; one that has been destroyed cannot be read.\<close>

definition client_read :: "IsoClientConnection \<Rightarrow> (TpktState \<times> IsoClientConnection) option" where
  "client_read self =
     (if icl_socket self then do {
        (packetState, cotp) \<leftarrow> CotpConnection_readToTpktBuffer (icl_cotp self);
        Some (packetState, self\<lparr>icl_cotp := cotp\<rparr>) }
      else None)"

definition client_parse :: "IsoClientConnection \<Rightarrow> (CotpIndication \<times> IsoClientConnection) option" where
  "client_parse self = do {
     (indication, cotp) \<leftarrow> CotpConnection_parseIncomingMessage (icl_cotp self);
     Some (indication, self\<lparr>icl_cotp := cotp\<rparr>) }"

definition wait_for_cotp_connect_resp :: "IsoIndicationCallback \<Rightarrow> Tick \<Rightarrow> IsoClientConnection \<Rightarrow> branch" where
  "wait_for_cotp_connect_resp callback tick self =
     (if tk_now tick > icl_nextReadTimeout self then association_failed_release callback self
      else do {
        (packetState, self) \<leftarrow> client_read self;
        if packetState = TPKT_PACKET_COMPLETE then do {
          (cotpIndication, self) \<leftarrow> client_parse self;
          if cotpIndication \<noteq> COTP_CONNECT_INDICATION then association_failed_release callback self
          else do {
            self \<leftarrow> sendAcseInitiateRequest self;
            Some (False, INT_STATE_WAIT_FOR_ACSE_RESP, set_timeout (tk_later tick) (icl_requestTimeout self) self) } }
        else if packetState = TPKT_ERROR then association_failed_release callback self
        else Some (True, INT_STATE_WAIT_FOR_COTP_CONNECT_RESP, self) })"

definition session_message :: "IsoClientConnection \<Rightarrow> (IsoSessionIndication \<times> IsoClientConnection) option" where
  "session_message self = do {
     (indication, session) \<leftarrow> IsoSession_parseMessage (icl_session self) (CotpConnection_getPayload (icl_cotp self));
     Some (indication, self\<lparr>icl_session := session\<rparr>) }"

text \<open>
  The parsing of an accept message by the presentation layer and ACSE. Whatever it finds, the
  connection goes on as an accepted one: \<open>nextState\<close> is overwritten.
\<close>

definition accept_message :: "IsoIndicationCallback \<Rightarrow> Tick \<Rightarrow> IsoClientConnection \<Rightarrow> IsoClientConnection option" where
  "accept_message callback tick self = do {
     (parsed, presentation) \<leftarrow> IsoPresentation_parseAcceptMessage (icl_presentation self) (IsoSession_getUserData (icl_session self));
     let self = self\<lparr>icl_presentation := presentation\<rparr>;
     if \<not> parsed then notify callback ISO_IND_ASSOCIATION_FAILED None self
     else do {
       (acseIndication, acse) \<leftarrow> AcseConnection_parseMessage (tk_indication tick) (icl_acse self) (prs_nextPayload presentation);
       let self = self\<lparr>icl_acse := acse\<rparr>;
       if acseIndication \<noteq> ACSE_ASSOCIATE then notify callback ISO_IND_ASSOCIATION_FAILED None self
       else Some self } }"

definition association_response :: "IsoIndicationCallback \<Rightarrow> Tick \<Rightarrow> IsoClientConnection \<Rightarrow> branch" where
  "association_response callback tick self = do {
     (sessionIndication, self) \<leftarrow> session_message self;
     if sessionIndication \<noteq> SESSION_CONNECT then association_failed callback self
     else do {
       self \<leftarrow> accept_message callback tick self;
       let n = acse_userDataBufferSize (icl_acse self);
       let userData = (case acse_userDataBuffer (icl_acse self) of None \<Rightarrow> [] | Some b \<Rightarrow> b);
       let self = self\<lparr>icl_receivePayloadBuffer := ByteBuffer_wrap userData n n\<rparr>;
       let self = setState self STATE_CONNECTED;
       self \<leftarrow> notify callback ISO_IND_ASSOCIATION_SUCCESS (Some (icl_receivePayloadBuffer self)) self;
       Some (False, INT_STATE_WAIT_FOR_DATA_MSG, self\<lparr>icl_cotp := CotpConnection_resetPayload (icl_cotp self)\<rparr>) } }"

definition wait_for_acse_resp :: "IsoIndicationCallback \<Rightarrow> Tick \<Rightarrow> IsoClientConnection \<Rightarrow> branch" where
  "wait_for_acse_resp callback tick self =
     (if tk_now tick > icl_nextReadTimeout self then association_failed callback self
      else do {
        (packetState, self) \<leftarrow> client_read self;
        if packetState = TPKT_PACKET_COMPLETE then do {
          (cotpIndication, self) \<leftarrow> client_parse self;
          if cotpIndication = COTP_DATA_INDICATION then association_response callback tick self
          else if cotpIndication = COTP_MORE_FRAGMENTS_FOLLOW then Some (True, INT_STATE_WAIT_FOR_ACSE_RESP, self)
          else association_failed callback self }
        else if packetState = TPKT_ERROR then association_failed callback self
        else Some (True, INT_STATE_WAIT_FOR_ACSE_RESP, self) })"

definition data_message :: "IsoIndicationCallback \<Rightarrow> IsoClientConnection \<Rightarrow> branch" where
  "data_message callback self = do {
     (sessionIndication, self) \<leftarrow> session_message self;
     if sessionIndication \<noteq> SESSION_DATA then Some (False, INT_STATE_CLOSE_ON_ERROR, self)
     else do {
       (parsed, presentation) \<leftarrow> IsoPresentation_parseUserData (icl_presentation self) (IsoSession_getUserData (icl_session self));
       let self = self\<lparr>icl_presentation := presentation\<rparr>;
       if \<not> parsed then Some (False, INT_STATE_CLOSE_ON_ERROR, self)
       else do {
         self \<leftarrow> notify callback ISO_IND_DATA (Some (prs_nextPayload presentation)) self;
         Some (False, INT_STATE_WAIT_FOR_DATA_MSG, self\<lparr>icl_cotp := CotpConnection_resetPayload (icl_cotp self)\<rparr>) } } }"

definition wait_for_data_msg :: "IsoIndicationCallback \<Rightarrow> IsoClientConnection \<Rightarrow> branch" where
  "wait_for_data_msg callback self = do {
     (packetState, self) \<leftarrow> client_read self;
     if packetState = TPKT_ERROR then Some (False, INT_STATE_CLOSE_ON_ERROR, self)
     else if packetState = TPKT_PACKET_COMPLETE then do {
       (cotpIndication, self) \<leftarrow> client_parse self;
       case cotpIndication of
         COTP_MORE_FRAGMENTS_FOLLOW \<Rightarrow> Some (False, INT_STATE_WAIT_FOR_DATA_MSG, self)
       | COTP_DISCONNECT_INDICATION \<Rightarrow> Some (False, INT_STATE_CLOSING_CONNECTION, self)
       | COTP_DATA_INDICATION \<Rightarrow> data_message callback self
       | _ \<Rightarrow> Some (False, INT_STATE_CLOSE_ON_ERROR, self) }
     else Some (True, INT_STATE_WAIT_FOR_DATA_MSG, self) }"

definition closing :: "IsoIndicationCallback \<Rightarrow> int \<Rightarrow> eIsoClientInternalState \<Rightarrow> IsoClientConnection \<Rightarrow> branch" where
  "closing callback state nextState self = do {
     self \<leftarrow> notify callback ISO_IND_CLOSED None (setState self state);
     Some (False, nextState, releaseSocket self) }"

definition handle_state :: "IsoIndicationCallback \<Rightarrow> Tick \<Rightarrow> IsoClientConnection \<Rightarrow> branch" where
  "handle_state callback tick self =
     (case getIntState self of
        INT_STATE_IDLE \<Rightarrow> Some (True, INT_STATE_IDLE, self)
      | INT_STATE_ERROR \<Rightarrow> Some (True, INT_STATE_ERROR, self)
      | INT_STATE_TCP_CONNECTING \<Rightarrow> tcp_connecting callback tick self
      | INT_STATE_WAIT_FOR_COTP_CONNECT_RESP \<Rightarrow> wait_for_cotp_connect_resp callback tick self
      | INT_STATE_WAIT_FOR_ACSE_RESP \<Rightarrow> wait_for_acse_resp callback tick self
      | INT_STATE_WAIT_FOR_DATA_MSG \<Rightarrow> wait_for_data_msg callback self
      | INT_STATE_CLOSE_ON_ERROR \<Rightarrow> closing callback STATE_ERROR INT_STATE_ERROR self
      | INT_STATE_CLOSING_CONNECTION \<Rightarrow> closing callback STATE_IDLE INT_STATE_IDLE self)"

definition IsoClientConnection_handleConnection ::
    "IsoIndicationCallback \<Rightarrow> Tick \<Rightarrow> IsoClientConnection \<Rightarrow> (bool \<times> IsoClientConnection) option" where
  "IsoClientConnection_handleConnection callback tick self = do {
     (waits, nextState, self) \<leftarrow> handle_state callback tick self;
     self \<leftarrow> notify callback ISO_IND_TICK None self;
     Some (waits, setIntState self nextState) }"

section \<open>Opening and closing\<close>

text \<open>The new socket, the clock and the result of \<open>Socket_connectAsync\<close> are arguments.\<close>

definition IsoClientConnection_associateAsync ::
    "IsoClientConnection \<Rightarrow> Socket \<Rightarrow> u64 \<Rightarrow> bool \<Rightarrow> u32 \<Rightarrow> u32 \<Rightarrow> bool \<times> IsoClientConnection" where
  "IsoClientConnection_associateAsync self socket now connecting connectTimeoutInMs requestTimeout =
     (let self = self\<lparr>icl_requestTimeout := requestTimeout\<rparr>;
          self = setState self STATE_CONNECTING;
          self = self\<lparr>icl_socket := True, icl_cotp := (icl_cotp self)\<lparr>cot_socket := socket\<rparr>\<rparr>;
          self = setIntState self INT_STATE_TCP_CONNECTING;
          self = set_timeout now connectTimeoutInMs self
      in if connecting then (True, self)
         else let self = self\<lparr>icl_socket := False\<rparr>;
                  self = setIntState self INT_STATE_ERROR;
                  self = setState self STATE_ERROR
              in (False, IsoClientConnection_releaseTransmitBuffer self))"

definition IsoClientConnection_close :: "IsoIndicationCallback \<Rightarrow> Tick \<Rightarrow> IsoClientConnection \<Rightarrow> IsoClientConnection option" where
  "IsoClientConnection_close callback tick self =
     (let intState = getIntState self in
      if intState \<noteq> INT_STATE_IDLE \<and> intState \<noteq> INT_STATE_ERROR \<and> intState \<noteq> INT_STATE_CLOSE_ON_ERROR then do {
        let self = (if intState = INT_STATE_TCP_CONNECTING \<or> intState = INT_STATE_WAIT_FOR_COTP_CONNECT_RESP
                    then IsoClientConnection_releaseTransmitBuffer self else self);
        let self = setIntState self INT_STATE_CLOSING_CONNECTION;
        (_, self) \<leftarrow> IsoClientConnection_handleConnection callback tick self;
        Some (setState self STATE_IDLE) }
      else Some self)"

text \<open>Destroying the connection, up to the memory that is freed.\<close>

definition IsoClientConnection_destroy :: "IsoIndicationCallback \<Rightarrow> Tick \<Rightarrow> IsoClientConnection \<Rightarrow> IsoClientConnection option" where
  "IsoClientConnection_destroy callback tick self = do {
     self \<leftarrow> (if getState self = STATE_CONNECTED then IsoClientConnection_close callback tick self else Some self);
     Some (releaseSocket self) }"

end
