(* ===== verification/IsoClient_Laws.thy ===== *)
theory IsoClient_Laws
  imports IsoClient
begin

text \<open>
  Laws of the client's connections: the states of the state machine, the socket and the transmit
  buffer fit together in every run; what a timeout does; and where the state machine goes wrong.
\<close>

section \<open>The invariant\<close>

text \<open>What the state machine shares with its users: the free transmit buffers, the socket, the state.\<close>

definition life :: "IsoClientConnection \<Rightarrow> nat \<times> bool \<times> int" where
  "life s = (icl_transmitBufferMutex s, icl_socket s, icl_state s)"

fun consistent :: "eIsoClientInternalState \<Rightarrow> nat \<times> bool \<times> int \<Rightarrow> bool" where
  "consistent INT_STATE_IDLE l \<longleftrightarrow> l = (1, False, STATE_IDLE)"
| "consistent INT_STATE_ERROR l \<longleftrightarrow> l = (1, False, STATE_ERROR)"
| "consistent INT_STATE_TCP_CONNECTING l \<longleftrightarrow> l = (0, True, STATE_CONNECTING)"
| "consistent INT_STATE_WAIT_FOR_COTP_CONNECT_RESP l \<longleftrightarrow> l = (0, True, STATE_CONNECTING)"
| "consistent INT_STATE_WAIT_FOR_ACSE_RESP l \<longleftrightarrow> l = (1, True, STATE_CONNECTING)"
| "consistent INT_STATE_WAIT_FOR_DATA_MSG l \<longleftrightarrow> l = (1, True, STATE_CONNECTED)"
| "consistent INT_STATE_CLOSING_CONNECTION l \<longleftrightarrow> l \<in> {(1, True, STATE_CONNECTING), (1, True, STATE_CONNECTED)}"
| "consistent INT_STATE_CLOSE_ON_ERROR l \<longleftrightarrow> l \<in> {(1, True, STATE_CONNECTING), (1, True, STATE_CONNECTED)}"

definition client_inv :: "IsoClientConnection \<Rightarrow> bool" where
  "client_inv s \<longleftrightarrow> consistent (icl_intState s) (life s)"

text \<open>
  What the callback may do with the connection: it may not open or close it (the tick function holds
  \<open>tickMutex\<close>), and what it sends it sends with a buffer of its own.
\<close>

definition callback_ok :: "IsoIndicationCallback \<Rightarrow> bool" where
  "callback_ok callback \<longleftrightarrow> (\<forall>ind payload s s'. callback ind payload s = Some s' \<longrightarrow> life s' = life s)"

named_theorems life_intros

lemma life_simps [simp]:
  "life (setIntState s n) = life s" "life (setState s st) = (icl_transmitBufferMutex s, icl_socket s, st)"
  "life (s\<lparr>icl_cotp := a\<rparr>) = life s" "life (s\<lparr>icl_session := b\<rparr>) = life s" "life (s\<lparr>icl_presentation := c\<rparr>) = life s"
  "life (s\<lparr>icl_acse := d\<rparr>) = life s" "life (s\<lparr>icl_receivePayloadBuffer := e\<rparr>) = life s"
  "life (s\<lparr>icl_effects := f\<rparr>) = life s" "life (s\<lparr>icl_acseAuthenticator := g\<rparr>) = life s" "life (set_timeout t u s) = life s"
  "life (IsoClientConnection_releaseTransmitBuffer s) = (icl_transmitBufferMutex s + 1, icl_socket s, icl_state s)"
  "life (releaseSocket s) = (icl_transmitBufferMutex s, False, icl_state s)"
  by (simp_all add: life_def setIntState_def setState_def set_timeout_def releaseSocket_def
      IsoClientConnection_releaseTransmitBuffer_def)

lemma notify_life [life_intros]: "callback_ok callback \<Longrightarrow> notify callback ind payload s = Some s' \<Longrightarrow> life s' = life s"
  unfolding callback_ok_def notify_def by fastforce

lemma layers_life [life_intros]:
  "client_send s chain = Some (ind, s') \<Longrightarrow> life s' = life s"
  "client_read s = Some (st, s') \<Longrightarrow> life s' = life s"
  "client_parse s = Some (ci, s') \<Longrightarrow> life s' = life s"
  "session_message s = Some (si, s') \<Longrightarrow> life s' = life s"
  "sendConnectionRequestMessage stack s = Some (b, s') \<Longrightarrow> life s' = life s"
  by (auto simp: client_send_def client_read_def client_parse_def session_message_def sendConnectionRequestMessage_def
      split: Option.bind_splits if_splits)

lemma sendAcseInitiateRequest_life [life_intros]:
  "sendAcseInitiateRequest s = Some s' \<Longrightarrow> life s' = (fst (life s) + 1, snd (life s))"
  unfolding sendAcseInitiateRequest_def
  by (auto simp: Let_def split: Option.bind_splits dest!: layers_life(1)) (auto simp: life_def)

lemma accept_message_life [life_intros]:
  assumes "callback_ok callback" "accept_message callback tick s = Some s'"
  shows "life s' = life s"
  using assms(2) unfolding accept_message_def
  by (auto simp: Let_def split: Option.bind_splits if_splits dest!: notify_life [OF assms(1)])

text \<open>The branches of the state machine lead from consistent states to consistent states.\<close>

lemma association_failed_life:
  assumes "callback_ok callback" "association_failed callback s = Some (w, n, s')"
  shows "n = INT_STATE_CLOSE_ON_ERROR \<and> life s' = life s"
  using assms by (auto simp: association_failed_def split: Option.bind_splits dest: notify_life)

lemma association_failed_release_life:
  assumes "callback_ok callback" "association_failed_release callback s = Some (w, n, s')"
  shows "n = INT_STATE_CLOSE_ON_ERROR \<and> life s' = (fst (life s) + 1, snd (life s))"
  using association_failed_life [OF assms(1) assms(2) [unfolded association_failed_release_def]]
  by (auto simp: life_def IsoClientConnection_releaseTransmitBuffer_def)

lemma tcp_connecting_consistent:
  assumes "callback_ok callback" "life s = (0, True, STATE_CONNECTING)" "tcp_connecting callback tick s = Some (w, n, s')"
  shows "consistent n (life s')"
  using assms(2,3) unfolding tcp_connecting_def
  by (auto split: Option.bind_splits if_splits dest!: association_failed_release_life [OF assms(1)] layers_life(5))

lemma wait_for_cotp_connect_resp_consistent:
  assumes "callback_ok callback" "life s = (0, True, STATE_CONNECTING)"
    "wait_for_cotp_connect_resp callback tick s = Some (w, n, s')"
  shows "consistent n (life s')"
  using assms(2,3) unfolding wait_for_cotp_connect_resp_def
  by (auto split: Option.bind_splits if_splits
      dest!: association_failed_release_life [OF assms(1)] layers_life(2,3) sendAcseInitiateRequest_life)

lemma association_response_consistent:
  assumes "callback_ok callback" "life s = (1, True, STATE_CONNECTING)" "association_response callback tick s = Some (w, n, s')"
  shows "consistent n (life s')"
  using assms(2,3) unfolding association_response_def
  by (auto simp: Let_def life_def [of "setState _ _"] split: Option.bind_splits if_splits
      dest!: association_failed_life [OF assms(1)] layers_life(4) accept_message_life [OF assms(1)] notify_life [OF assms(1)])
    (simp_all add: life_def setState_def)

lemma wait_for_acse_resp_consistent:
  assumes "callback_ok callback" "life s = (1, True, STATE_CONNECTING)" "wait_for_acse_resp callback tick s = Some (w, n, s')"
  shows "consistent n (life s')"
  using assms(2,3) unfolding wait_for_acse_resp_def
  by (auto split: Option.bind_splits if_splits
      dest!: association_failed_life [OF assms(1)] layers_life(2,3))
    (erule association_response_consistent [OF assms(1), rotated], simp)

lemma data_message_consistent:
  assumes "callback_ok callback" "life s = (1, True, STATE_CONNECTED)" "data_message callback s = Some (w, n, s')"
  shows "consistent n (life s')"
  using assms(2,3) unfolding data_message_def
  by (auto simp: Let_def split: Option.bind_splits if_splits dest!: layers_life(4) notify_life [OF assms(1)])

lemma wait_for_data_msg_consistent:
  assumes "callback_ok callback" "life s = (1, True, STATE_CONNECTED)" "wait_for_data_msg callback s = Some (w, n, s')"
  shows "consistent n (life s')"
  using assms(2,3) unfolding wait_for_data_msg_def
  by (auto split: Option.bind_splits if_splits CotpIndication.splits dest!: layers_life(2,3))
    (erule data_message_consistent [OF assms(1), rotated], simp)

lemma closing_life:
  assumes "callback_ok callback" "closing callback st next s = Some (w, n, s')"
  shows "n = next \<and> life s' = (fst (life s), False, st)"
  using assms by (auto simp: closing_def split: Option.bind_splits dest!: notify_life) (auto simp: life_def)

lemma handle_state_consistent:
  assumes "callback_ok callback" "client_inv s" "handle_state callback tick s = Some (w, n, s')"
  shows "consistent n (life s')"
  using assms(2,3) unfolding handle_state_def client_inv_def getIntState_def
  by (cases "icl_intState s")
    (auto dest!: closing_life [OF assms(1)] intro: tcp_connecting_consistent [OF assms(1)]
      wait_for_cotp_connect_resp_consistent [OF assms(1)] wait_for_acse_resp_consistent [OF assms(1)]
      wait_for_data_msg_consistent [OF assms(1)])

text \<open>
  The runs of a connection: it is opened with the transmit buffer allocated for the initiate request,
  ticks with any network and clock, and the user sends and closes. Only a connection that is not open
  is opened.
\<close>

inductive client_run :: "IsoIndicationCallback \<Rightarrow> IsoClientConnection \<Rightarrow> IsoClientConnection \<Rightarrow> bool" for callback c0 where
  start: "client_run callback c0 c0"
| associate: "client_run callback c0 c \<Longrightarrow> icl_intState c \<in> {INT_STATE_IDLE, INT_STATE_ERROR} \<Longrightarrow>
    IsoClientConnection_allocateTransmitBuffer c = Some (buffer, c1) \<Longrightarrow>
    IsoClientConnection_associateAsync (c1\<lparr>icl_transmitPayloadBuffer := pdu\<rparr>) socket now connecting t1 t2 = (success, c') \<Longrightarrow>
    client_run callback c0 c'"
| tick: "client_run callback c0 c \<Longrightarrow> IsoClientConnection_handleConnection callback tick c = Some (waits, c') \<Longrightarrow>
    client_run callback c0 c'"
| network: "client_run callback c0 c \<Longrightarrow> client_run callback c0 (c\<lparr>icl_cotp := (icl_cotp c)\<lparr>cot_socket := s\<rparr>\<rparr>)"
| send: "client_run callback c0 c \<Longrightarrow> IsoClientConnection_sendMessage stack c m = Some c' \<Longrightarrow> client_run callback c0 c'"
| abort: "client_run callback c0 c \<Longrightarrow> IsoClientConnection_abortAsync c = Some c' \<Longrightarrow> client_run callback c0 c'"
| release: "client_run callback c0 c \<Longrightarrow> IsoClientConnection_release c = Some c' \<Longrightarrow> client_run callback c0 c'"
| close: "client_run callback c0 c \<Longrightarrow> IsoClientConnection_close callback tick c = Some c' \<Longrightarrow> client_run callback c0 c'"

lemma handleConnection_inv:
  assumes "callback_ok callback" "client_inv c" "IsoClientConnection_handleConnection callback tick c = Some (w, c')"
  shows "client_inv c'"
proof -
  obtain n c1 c2 where h: "handle_state callback tick c = Some (w, n, c1)" "notify callback ISO_IND_TICK None c1 = Some c2"
    "c' = setIntState c2 n"
    using assms(3) by (auto simp: IsoClientConnection_handleConnection_def split: Option.bind_splits)
  then show ?thesis
    using handle_state_consistent [OF assms(1,2) h(1)] notify_life [OF assms(1) h(2)]
    by (simp add: client_inv_def) (simp add: setIntState_def)
qed

lemma sendMessage_inv:
  assumes "client_inv c" "IsoClientConnection_sendMessage stack c m = Some c'"
  shows "client_inv c'"
proof -
  have "c' = c \<or> (\<exists>b. c' = c\<lparr>icl_cotp := b\<rparr>) \<or>
      getState c = STATE_CONNECTED \<and> (\<exists>b. c' = setIntState (c\<lparr>icl_cotp := b\<rparr>) INT_STATE_CLOSE_ON_ERROR)"
    using assms(2) unfolding IsoClientConnection_sendMessage_def client_send_def
    by (auto simp: Let_def split: Option.bind_splits if_splits)
  then show ?thesis
    using assms(1) unfolding client_inv_def getState_def
    by (cases "icl_intState c") (auto simp: life_def setIntState_def STATE_CONNECTED_def STATE_IDLE_def STATE_ERROR_def STATE_CONNECTING_def)
qed

lemma buffered_send_inv:
  assumes "client_inv c" "IsoClientConnection_allocateTransmitBuffer c = Some (b, c1)" "client_send c1 chain = Some (ind, c2)"
  shows "client_inv (IsoClientConnection_releaseTransmitBuffer c2)"
  using assms unfolding client_inv_def IsoClientConnection_allocateTransmitBuffer_def client_send_def
  by (auto simp: Let_def life_def IsoClientConnection_releaseTransmitBuffer_def split: if_splits Option.bind_splits)

lemma abort_inv: "client_inv c \<Longrightarrow> IsoClientConnection_abortAsync c = Some c' \<Longrightarrow> client_inv c'"
  unfolding IsoClientConnection_abortAsync_def sendAbortMessage_def
  by (auto split: Option.bind_splits intro: buffered_send_inv)

lemma release_inv: "client_inv c \<Longrightarrow> IsoClientConnection_release c = Some c' \<Longrightarrow> client_inv c'"
  unfolding IsoClientConnection_release_def
  by (auto split: Option.bind_splits intro: buffered_send_inv)

lemma associate_inv:
  assumes "client_inv c" "icl_intState c \<in> {INT_STATE_IDLE, INT_STATE_ERROR}"
    "IsoClientConnection_allocateTransmitBuffer c = Some (b, c1)"
    "IsoClientConnection_associateAsync (c1\<lparr>icl_transmitPayloadBuffer := pdu\<rparr>) socket now connecting t1 t2 = (success, c')"
  shows "client_inv c'"
  using assms unfolding client_inv_def IsoClientConnection_allocateTransmitBuffer_def IsoClientConnection_associateAsync_def
  by (auto simp: Let_def life_def setState_def setIntState_def set_timeout_def IsoClientConnection_releaseTransmitBuffer_def
      split: if_splits)

lemma close_inv:
  assumes "callback_ok callback" "client_inv c" "IsoClientConnection_close callback tick c = Some c'"
  shows "client_inv c'"
proof (cases "icl_intState c \<in> {INT_STATE_IDLE, INT_STATE_ERROR, INT_STATE_CLOSE_ON_ERROR}")
  case True
  then show ?thesis using assms(2,3) by (auto simp: IsoClientConnection_close_def getIntState_def)
next
  case False
  let ?r = "if icl_intState c = INT_STATE_TCP_CONNECTING \<or> icl_intState c = INT_STATE_WAIT_FOR_COTP_CONNECT_RESP
    then IsoClientConnection_releaseTransmitBuffer c else c"
  let ?c = "setIntState ?r INT_STATE_CLOSING_CONNECTION"
  have inv: "client_inv ?c"
    using assms(2) False unfolding client_inv_def
    by (cases "icl_intState c") (auto simp: life_def setIntState_def IsoClientConnection_releaseTransmitBuffer_def)
  obtain w c1 where h: "IsoClientConnection_handleConnection callback tick ?c = Some (w, c1)" "c' = setState c1 STATE_IDLE"
    using assms(3) False by (auto simp: IsoClientConnection_close_def getIntState_def Let_def split: Option.bind_splits)
  have "icl_intState c1 = INT_STATE_IDLE"
    using h(1) unfolding IsoClientConnection_handleConnection_def handle_state_def closing_def getIntState_def
    by (auto simp: setIntState_def split: Option.bind_splits if_splits)
  then show ?thesis
    using handleConnection_inv [OF assms(1) inv h(1)] h(2) by (simp add: client_inv_def setState_def life_def)
qed

lemma create_inv: "client_inv (IsoClientConnection_create memory no_socket localAddr remoteAddr)"
  by (simp add: client_inv_def life_def IsoClientConnection_create_def)


text \<open>
  C7: in every run the internal state, the state shown to the user, the socket and the transmit buffer
  of a client's connection fit together: there is a socket exactly while the connection is not idle
  and not in the error state, so a tick never reads from a destroyed one; the buffer allocated for
  the initiate request is released exactly once, when the request has left or has failed, and never
  while it is in use; a connection that waits for data is connected. This holds whatever the
  network, the clock and the answers of the peer, as long as the callback itself neither opens nor
  closes the connection nor keeps a transmit buffer.
\<close>

theorem client_invariant:
  assumes "callback_ok callback" "client_run callback (IsoClientConnection_create memory no_socket localAddr remoteAddr) c"
  shows "consistent (icl_intState c) (icl_transmitBufferMutex c, icl_socket c, icl_state c)"
proof -
  from assms(2) have "client_inv c"
  proof induction
    case start
    show ?case by (rule create_inv)
  next
    case (network c s)
    then show ?case by (simp add: client_inv_def)
  next
    case (associate c buffer c1 pdu socket now connecting t1 t2 success c')
    show ?case by (rule associate_inv [OF associate.IH associate.hyps(2-4)])
  qed (erule (1) handleConnection_inv [OF assms(1)] close_inv [OF assms(1)] sendMessage_inv abort_inv release_inv)+
  then show ?thesis by (simp add: client_inv_def life_def)
qed

text \<open>An attempt to connect that fails at once leaves a connection that can be opened again.\<close>

theorem client_invariant_witness:
  "\<exists>c. client_run (\<lambda>i p s. Some s) (IsoClientConnection_create (\<lambda>_. 0) \<lparr>sk_inbound = [], sk_ready = [], sk_outbound = [], sk_taken = []\<rparr> (Some zero_address) (Some zero_address)) c \<and>
    icl_intState c = INT_STATE_TCP_CONNECTING \<and> icl_transmitBufferMutex c = 0 \<and> icl_socket c"
proof -
  let ?c0 = "IsoClientConnection_create (\<lambda>_. 0) \<lparr>sk_inbound = [], sk_ready = [], sk_outbound = [], sk_taken = []\<rparr> (Some zero_address) (Some zero_address)"
  have ok: "callback_ok (\<lambda>i p s. Some s)" by (simp add: callback_ok_def)
  have idle: "icl_intState ?c0 \<in> {INT_STATE_IDLE, INT_STATE_ERROR}" by (simp add: IsoClientConnection_create_def)
  obtain b c1 where a: "IsoClientConnection_allocateTransmitBuffer ?c0 = Some (b, c1)"
    by (simp add: IsoClientConnection_allocateTransmitBuffer_def IsoClientConnection_create_def Let_def)
  obtain ok' c where s: "IsoClientConnection_associateAsync (c1\<lparr>icl_transmitPayloadBuffer := b\<rparr>) \<lparr>sk_inbound = [], sk_ready = [], sk_outbound = [], sk_taken = []\<rparr> 0 True 10 10 = (ok', c)"
    by (cases "IsoClientConnection_associateAsync (c1\<lparr>icl_transmitPayloadBuffer := b\<rparr>) \<lparr>sk_inbound = [], sk_ready = [], sk_outbound = [], sk_taken = []\<rparr> 0 True 10 10") blast
  have r: "client_run (\<lambda>i p s. Some s) ?c0 c" by (rule client_run.associate [OF client_run.start idle a s])
  have "icl_intState c = INT_STATE_TCP_CONNECTING"
    using s by (auto simp: IsoClientConnection_associateAsync_def Let_def setIntState_def set_timeout_def)
  then show ?thesis using client_invariant [OF ok r] r by auto
qed

text \<open>
  C33: an attempt to connect ends. In each of the three states before the association, when the time
  allowed has passed (and the socket is not connected in the meantime), two ticks report the failure
  and the closing, destroy the socket and leave the connection in the error state; the transmit
  buffer is released unless the request had left already.
\<close>

theorem association_times_out:
  assumes "icl_intState c \<in> {INT_STATE_TCP_CONNECTING, INT_STATE_WAIT_FOR_COTP_CONNECT_RESP, INT_STATE_WAIT_FOR_ACSE_RESP}"
    "icl_nextReadTimeout c < tk_now tick" "tk_socketState tick \<noteq> SOCKET_STATE_CONNECTED"
  shows "\<exists>c1 c2. IsoClientConnection_handleConnection (\<lambda>i p s. Some s) tick c = Some (False, c1) \<and>
    IsoClientConnection_handleConnection (\<lambda>i p s. Some s) tick' c1 = Some (False, c2) \<and>
    icl_intState c2 = INT_STATE_ERROR \<and> icl_state c2 = STATE_ERROR \<and> \<not> icl_socket c2 \<and>
    icl_transmitBufferMutex c2 = icl_transmitBufferMutex c + (if icl_intState c = INT_STATE_WAIT_FOR_ACSE_RESP then 0 else 1) \<and>
    icl_effects c2 = icl_effects c @
      [(ISO_IND_ASSOCIATION_FAILED, None), (ISO_IND_TICK, None), (ISO_IND_CLOSED, None), (ISO_IND_TICK, None)]"
  using assms
  by (auto simp: IsoClientConnection_handleConnection_def handle_state_def getIntState_def tcp_connecting_def
      wait_for_cotp_connect_resp_def wait_for_acse_resp_def association_failed_release_def association_failed_def notify_def
      closing_def setIntState_def setState_def releaseSocket_def IsoClientConnection_releaseTransmitBuffer_def)

theorem association_times_out_witness:
  "\<exists>c1 c2. IsoClientConnection_handleConnection (\<lambda>i p s. Some s)
      \<lparr>tk_socketState = SOCKET_STATE_CONNECTING, tk_now = 7, tk_later = 7, tk_stack = [], tk_indication = ACSE_ERROR\<rparr>
      ((IsoClientConnection_create (\<lambda>_. 0) \<lparr>sk_inbound = [], sk_ready = [], sk_outbound = [], sk_taken = []\<rparr> None None)\<lparr>icl_intState := INT_STATE_TCP_CONNECTING, icl_nextReadTimeout := 6\<rparr>)
      = Some (False, c1) \<and>
    IsoClientConnection_handleConnection (\<lambda>i p s. Some s)
      \<lparr>tk_socketState = SOCKET_STATE_CONNECTING, tk_now = 7, tk_later = 7, tk_stack = [], tk_indication = ACSE_ERROR\<rparr> c1 = Some (False, c2) \<and> icl_intState c2 = INT_STATE_ERROR"
  using association_times_out
    [of "(IsoClientConnection_create (\<lambda>_. 0) \<lparr>sk_inbound = [], sk_ready = [], sk_outbound = [], sk_taken = []\<rparr> None None)\<lparr>icl_intState := INT_STATE_TCP_CONNECTING, icl_nextReadTimeout := 6\<rparr>"
      "\<lparr>tk_socketState = SOCKET_STATE_CONNECTING, tk_now = 7, tk_later = 7, tk_stack = [], tk_indication = ACSE_ERROR\<rparr>"
      "\<lparr>tk_socketState = SOCKET_STATE_CONNECTING, tk_now = 7, tk_later = 7, tk_stack = [], tk_indication = ACSE_ERROR\<rparr>"]
  by auto

text \<open>A connected client, for examples.\<close>

definition demo_client :: "CotpConnection \<Rightarrow> IsoClientConnection" where
  "demo_client cotp =
     \<lparr>icl_localAppAddr = Some zero_address, icl_remoteAppAddr = Some zero_address, icl_authParameter = None,
      icl_intState = INT_STATE_WAIT_FOR_DATA_MSG, icl_state = STATE_CONNECTED, icl_nextReadTimeout = 0, icl_socket = True,
      icl_cotp = cotp, icl_presentation = zero_presentation\<lparr>prs_acseContextId := 1, prs_mmsContextId := 3\<rparr>,
      icl_session = IsoSession_init, icl_acse = zero_acse\<lparr>acse_remoteAppAddr := Some zero_address\<rparr>,
      icl_receiveBuffer = zero_buffer, icl_transmitPayloadBuffer = zero_buffer, icl_transmitBufferMutex = 1,
      icl_receivePayloadBuffer = zero_buffer, icl_acseAuthenticator = None, icl_cotpReadBuffer = zero_buffer,
      icl_cotpWriteBuffer = zero_buffer, icl_requestTimeout = 1000, icl_effects = []\<rparr>"

section \<open>Rejected associations\<close>

text \<open>
  C34: a rejected association is reported as a success. When the session is connected but the
  presentation layer or ACSE does not accept the answer (the server rejected the association, or its
  credentials failed), the callback is told that the association failed and at once, with user
  data, that it succeeded; the connection is connected and waits for data: the assignment of the state
  \<open>INT_STATE_CLOSE_ON_ERROR\<close> is overwritten.
\<close>

theorem rejected_association_reported:
  assumes "session_message c = Some (SESSION_CONNECT, c1)"
    "IsoPresentation_parseAcceptMessage (icl_presentation c1) (IsoSession_getUserData (icl_session c1)) = Some (parsed, pres)"
    "parsed \<Longrightarrow> \<exists>ind acse. AcseConnection_parseMessage (tk_indication tick) (icl_acse c1) (prs_nextPayload pres) = Some (ind, acse) \<and>
       ind \<noteq> ACSE_ASSOCIATE"
  shows "\<exists>c' payload. association_response (\<lambda>ind payload c. Some c) tick c = Some (False, INT_STATE_WAIT_FOR_DATA_MSG, c') \<and>
    icl_state c' = STATE_CONNECTED \<and>
    icl_effects c' = icl_effects c @ [(ISO_IND_ASSOCIATION_FAILED, None), (ISO_IND_ASSOCIATION_SUCCESS, Some payload)]"
proof -
  have e: "icl_effects c1 = icl_effects c"
    using assms(1) by (auto simp: session_message_def split: Option.bind_splits)
  show ?thesis
  proof (cases parsed)
    case False
    then show ?thesis
      using assms(1,2) e
      by (simp add: association_response_def accept_message_def notify_def setState_def Let_def)
  next
    case True
    then obtain ind acse where "AcseConnection_parseMessage (tk_indication tick) (icl_acse c1) (prs_nextPayload pres) = Some (ind, acse)"
      "ind \<noteq> ACSE_ASSOCIATE" using assms(3) by blast
    then show ?thesis
      using True assms(1,2) e
      by (simp add: association_response_def accept_message_def notify_def setState_def Let_def)
  qed
qed

text \<open>The answer of a server that rejects the association for good (result 1), after the transport header.\<close>

definition demo_rejection :: "u8 list" where
  "demo_rejection = [14, 90, 5, 6, 19, 1, 0, 22, 1, 2, 20, 2, 0, 2, 52, 2, 5, 0, 193, 72, 49, 70, 160, 3, 128, 1, 1, 162, 63, 165,
     18, 48, 7, 128, 1, 0, 129, 2, 81, 1, 48, 7, 128, 1, 0, 129, 2, 81, 1, 97, 41, 48, 39, 2, 1, 1, 160, 34, 97, 32, 161, 7, 6,
     5, 40, 202, 34, 2, 3, 162, 3, 2, 1, 1, 163, 5, 161, 3, 2, 1, 0, 190, 9, 40, 7, 2, 1, 3, 160, 2, 51, 52]"

definition demo_tick :: Tick where
  "demo_tick = \<lparr>tk_socketState = SOCKET_STATE_CONNECTED, tk_now = 0, tk_later = 0, tk_stack = [], tk_indication = ACSE_ERROR\<rparr>"

theorem rejected_association_reported_witness:
  "\<exists>c' payload. association_response (\<lambda>ind payload c. Some c) demo_tick
      ((demo_client ((zero_cotp \<lparr>sk_inbound = [], sk_ready = [], sk_outbound = [], sk_taken = []\<rparr>)\<lparr>cot_payload := ByteBuffer_wrap demo_rejection 92 92\<rparr>))
        \<lparr>icl_intState := INT_STATE_WAIT_FOR_ACSE_RESP, icl_state := STATE_CONNECTING\<rparr>)
      = Some (False, INT_STATE_WAIT_FOR_DATA_MSG, c') \<and>
    icl_effects c' = [(ISO_IND_ASSOCIATION_FAILED, None), (ISO_IND_ASSOCIATION_SUCCESS, Some payload)]"
proof -
  let ?c = "(demo_client ((zero_cotp \<lparr>sk_inbound = [], sk_ready = [], sk_outbound = [], sk_taken = []\<rparr>)\<lparr>cot_payload := ByteBuffer_wrap demo_rejection 92 92\<rparr>))
    \<lparr>icl_intState := INT_STATE_WAIT_FOR_ACSE_RESP, icl_state := STATE_CONNECTING\<rparr>"
  have "map_option (\<lambda>(i, c1). (i, map_option (\<lambda>(parsed, pres). (parsed, map_option fst
        (AcseConnection_parseMessage (tk_indication demo_tick) (icl_acse c1) (prs_nextPayload pres))))
      (IsoPresentation_parseAcceptMessage (icl_presentation c1) (IsoSession_getUserData (icl_session c1)))))
    (session_message ?c) = Some (SESSION_CONNECT, Some (True, Some ACSE_ASSOCIATE_FAILED))"
    by code_simp
  then obtain c1 parsed pres r where h: "session_message ?c = Some (SESSION_CONNECT, c1)"
    "IsoPresentation_parseAcceptMessage (icl_presentation c1) (IsoSession_getUserData (icl_session c1)) = Some (parsed, pres)"
    "AcseConnection_parseMessage (tk_indication demo_tick) (icl_acse c1) (prs_nextPayload pres) = Some r"
    "fst r = ACSE_ASSOCIATE_FAILED"
    by auto
  have "parsed \<Longrightarrow> \<exists>ind acse. AcseConnection_parseMessage (tk_indication demo_tick) (icl_acse c1) (prs_nextPayload pres) =
      Some (ind, acse) \<and> ind \<noteq> ACSE_ASSOCIATE"
    using h(3,4) by (cases r) simp
  from rejected_association_reported [OF h(1,2) this] show ?thesis by (auto simp: demo_client_def)
qed

text \<open>A client whose network takes nothing any more.\<close>

definition broken_client :: IsoClientConnection where
  "broken_client = demo_client (zero_cotp \<lparr>sk_inbound = [], sk_ready = [], sk_outbound = [], sk_taken = []\<rparr>
     \<lparr>cot_writeBuffer := Some (ByteBuffer_create 40), cot_readBuffer := ByteBuffer_create 40,
       cot_options := \<lparr>opt_tSelSrc = zero_selector, opt_tSelDst = zero_selector, opt_tpduSize = 5\<rparr>\<rparr>)"

definition sending_callback :: IsoIndicationCallback where
  "sending_callback ind payload c =
     (if ind = ISO_IND_TICK then IsoClientConnection_sendMessage (replicate 18 0) c (ByteBuffer_wrap [1, 2] 2 2) else Some c)"

text \<open>
  where else the client's connection is wrong. A message that cannot be sent sets
  \<open>INT_STATE_CLOSE_ON_ERROR\<close>; when it is sent from within the callback the end of the tick overwrites
  the state, and the broken connection stays connected.
  \<open>IsoClientConnection_getPeerApplicationAddress\<close> returns the configured address although the one the
  peer responded with was stored. And an abort of a connection whose socket is gone uses the
  destroyed socket.
\<close>

theorem client_defects:
  "map_option icl_intState (IsoClientConnection_sendMessage (replicate 18 0) broken_client (ByteBuffer_wrap [1, 2] 2 2)) =
     Some INT_STATE_CLOSE_ON_ERROR \<and>
   map_option (\<lambda>(w, c). (icl_intState c, icl_state c)) (IsoClientConnection_handleConnection sending_callback demo_tick broken_client) =
     Some (INT_STATE_WAIT_FOR_DATA_MSG, STATE_CONNECTED) \<and>
   IsoClientConnection_getPeerApplicationAddress
     ((demo_client cotp)\<lparr>icl_acse := (icl_acse (demo_client cotp))\<lparr>acse_remoteAppAddr := Some (zero_address\<lparr>iaa_aeQualifier := 7\<rparr>)\<rparr>\<rparr>)
     = Some zero_address \<and>
   IsoClientConnection_abortAsync (releaseSocket c) = None"
proof (intro conjI)
  show "map_option icl_intState (IsoClientConnection_sendMessage (replicate 18 0) broken_client (ByteBuffer_wrap [1, 2] 2 2)) =
     Some INT_STATE_CLOSE_ON_ERROR"
    by code_simp
  show "map_option (\<lambda>(w, c). (icl_intState c, icl_state c)) (IsoClientConnection_handleConnection sending_callback demo_tick broken_client) =
     Some (INT_STATE_WAIT_FOR_DATA_MSG, STATE_CONNECTED)"
    by code_simp
  show "IsoClientConnection_abortAsync (releaseSocket c) = None"
    by (auto simp: IsoClientConnection_abortAsync_def sendAbortMessage_def IsoClientConnection_allocateTransmitBuffer_def
        releaseSocket_def client_send_def Let_def split: Option.bind_splits)
qed (simp add: IsoClientConnection_getPeerApplicationAddress_def demo_client_def)

end
