(* ===== verification/IsoExchange.thy ===== *)
theory IsoExchange
  imports IsoConnection_Laws IsoClient_Laws
begin

text \<open>
  Client and server together: a message of the layer above passes the presentation, session and
  transport layers of both sides and a network that delivers it in any portions.
\<close>

section \<open>Data messages\<close>

lemma data_pdu_written:
  assumes "chain_ok payload" "0 < bc_partLength (hd payload)" "18 \<le> length (bc_buffer wb)"
  obtains p where "create_user_data ctx wb payload = Some p"
    "\<forall>session buffer. \<exists>s. IsoSession_createDataSpdu session buffer p = Some s \<and> chain_ok s \<and>
      chain_bytes s = dataSpdu @ user_header ctx (length (chain_bytes payload)) @ chain_bytes payload"
proof -
  obtain p where p: "create_user_data ctx wb payload = Some p"
    "framed (user_header ctx (length (chain_bytes payload))) payload p"
    by (rule user_data_written [OF assms])
  have "user_header ctx (length (chain_bytes payload)) \<noteq> []"
    using length_user_header(1) [of ctx "length (chain_bytes payload)"] by fastforce
  then have ok: "chain_ok p" "0 < bc_partLength (hd p)"
    "chain_bytes p = user_header ctx (length (chain_bytes payload)) @ chain_bytes payload"
    using p(2) by (simp_all add: framed_def)
  show ?thesis
    using that [OF p(1)] session_data_roundtrip [OF ok(1,2)] ok(3) by metis
qed

lemma data_pdu_parsed:
  assumes "buffer_ok mb" "buffer_content mb = dataSpdu @ user_header ctx (length bytes) @ bytes" "length bytes < 2 ^ 24 - 20"
  obtains ud b where "IsoSession_parseMessage session mb = Some (SESSION_DATA, session\<lparr>ses_userData := ud\<rparr>)"
    "IsoPresentation_parseUserData pres ud = Some (True, pres\<lparr>prs_nextContextId := ctx, prs_nextPayload := b\<rparr>)"
    "buffer_content b = bytes" "bb_size b = int (length bytes)"
proof -
  define hdr where "hdr = user_header ctx (length bytes)"
  define post where "post = drop (nat (bb_size mb)) (bb_buffer mb)"
  let ?part = "\<lambda>xs. \<lparr>bc_length = int (length xs), bc_partLength = int (length xs), bc_partMaxLength = int (length xs), bc_buffer = xs\<rparr>"
  let ?pay = "[?part bytes]" and ?ch = "[?part (hdr @ bytes)]"
  let ?ud = "message_of ?ch post (bb_maxSize mb - 4)"
  have hdr: "9 \<le> length hdr" by (simp add: hdr_def length_user_header)
  have pay: "chain_bytes ?pay = bytes" "chain_bytes ?ch = hdr @ bytes" by (simp_all add: part_bytes_def)
  have fr: "framed (user_header ctx (length (chain_bytes ?pay))) ?pay ?ch"
    unfolding framed_def pay hdr_def [symmetric] using hdr by (auto simp: part_bytes_def)
  have buf: "bb_buffer mb = dataSpdu @ hdr @ bytes @ post"
  proof -
    have "bb_buffer mb = take (nat (bb_size mb)) (bb_buffer mb) @ post" by (simp add: post_def)
    then show ?thesis using assms(2) by (simp add: buffer_content_def hdr_def)
  qed
  have size: "bb_size mb = 4 + int (length hdr + length bytes)"
  proof -
    have "length (buffer_content mb) = nat (bb_size mb)"
      using assms(1) by (auto simp: buffer_content_def buffer_ok_def min_def)
    then show ?thesis using assms(1,2) by (simp add: buffer_ok_def hdr_def dataSpdu_def)
  qed
  have "IsoSession_parseMessage session mb = Some (SESSION_DATA, session\<lparr>ses_userData := ?ud\<rparr>)"
    unfolding IsoSession_parseMessage_def Let_def using buf size hdr
    by (simp add: dataSpdu_def rd_def ByteBuffer_wrap_def message_of_def part_bytes_def)
  moreover have "IsoPresentation_parseUserData pres ?ud = Some (True, pres\<lparr>prs_nextContextId := ctx, prs_nextPayload :=
      ByteBuffer_wrap (bytes @ post) (int (length bytes)) (int (length bytes))\<rparr>)"
    using user_data_parsed [OF fr, of pres post "bb_maxSize mb - 4"] assms(3) unfolding pay by simp
  ultimately show ?thesis
    by (rule that) (simp_all add: buffer_content_def ByteBuffer_wrap_def)
qed

section \<open>Ticks\<close>

text \<open>Ticks of the server's loop for a slot, and of a client whose application only watches.\<close>

fun server_ticks :: "AcseIndication \<Rightarrow> IsoServer \<Rightarrow> nat \<Rightarrow> IsoConnection option \<Rightarrow> (IsoConnection option) option" where
  "server_ticks stack server 0 slot = Some slot"
| "server_ticks stack server (Suc n) slot = handle_slot stack server slot \<bind> server_ticks stack server n"

fun client_ticks :: "Tick \<Rightarrow> nat \<Rightarrow> IsoClientConnection \<Rightarrow> IsoClientConnection option" where
  "client_ticks tick 0 c = Some c"
| "client_ticks tick (Suc n) c = do {
     (_, c) \<leftarrow> IsoClientConnection_handleConnection (\<lambda>ind payload c. Some c) tick c;
     client_ticks tick n c }"

lemma server_ticks_receive:
  assumes "receive_message n (ic_cotp c) = Some (COTP_DATA_INDICATION, cotp)" "ic_state c = ISO_CON_STATE_RUNNING"
  shows "\<exists>k \<le> n. server_ticks stack server k (Some c) = map_option Some (handle_message stack server (c\<lparr>ic_cotp := cotp\<rparr>))"
  using assms
proof (induction n arbitrary: c)
  case (Suc n)
  obtain st s1 where r: "CotpConnection_readToTpktBuffer (ic_cotp c) = Some (st, s1)"
    using Suc.prems(1) by (auto split: Option.bind_splits)
  have tick: "handle_slot stack server (Some c) = map_option Some (IsoConnection_handleTcpConnection stack server c)"
    using Suc.prems(2) by (simp add: handle_slot_def IsoConnection_isRunning_def)
  have go_on: ?case if "handle_slot stack server (Some c) = Some (Some (c\<lparr>ic_cotp := s2\<rparr>))"
    "receive_message n s2 = Some (COTP_DATA_INDICATION, cotp)" for s2
  proof -
    note hyps = that
    obtain k where "k \<le> n" "server_ticks stack server k (Some (c\<lparr>ic_cotp := s2\<rparr>)) =
        map_option Some (handle_message stack server (c\<lparr>ic_cotp := cotp\<rparr>))"
      using Suc.IH [of "c\<lparr>ic_cotp := s2\<rparr>"] hyps(2) Suc.prems(2) by auto
    then show ?thesis using hyps(1) by (intro exI [of _ "Suc k"]) simp
  qed
  show ?case
  proof (cases st)
    case TPKT_WAITING
    then show ?thesis
      using go_on [of s1] r Suc.prems(1) tick by (simp add: IsoConnection_handleTcpConnection_def)
  next
    case TPKT_ERROR
    then show ?thesis using r Suc.prems(1) by simp
  next
    case TPKT_PACKET_COMPLETE
    then obtain ind s2 where p: "CotpConnection_parseIncomingMessage s1 = Some (ind, s2)"
      using Suc.prems(1) r by (auto split: Option.bind_splits)
    show ?thesis
    proof (cases "ind = COTP_MORE_FRAGMENTS_FOLLOW")
      case True
      then show ?thesis
        using go_on [of s2] r p Suc.prems(1) tick TPKT_PACKET_COMPLETE
        by (simp add: IsoConnection_handleTcpConnection_def)
    next
      case False
      then have "ind = COTP_DATA_INDICATION" "s2 = cotp" using Suc.prems(1) r p TPKT_PACKET_COMPLETE by simp_all
      then show ?thesis
        using r p tick TPKT_PACKET_COMPLETE
        by (intro exI [of _ 1], cases "handle_message stack server (c\<lparr>ic_cotp := cotp\<rparr>)")
          (simp_all add: IsoConnection_handleTcpConnection_def)
    qed
  qed
qed simp

lemma client_ticks_receive:
  assumes "receive_message n (icl_cotp c) = Some (COTP_DATA_INDICATION, cotp)"
    "icl_intState c = INT_STATE_WAIT_FOR_DATA_MSG" "icl_socket c" "n \<noteq> 0"
  shows "\<exists>k < n. client_ticks tick (Suc k) c =
    map_option (\<lambda>(w, next, c). (c\<lparr>icl_effects := icl_effects c @ [(ISO_IND_TICK, None)], icl_intState := next\<rparr>))
      (data_message (\<lambda>ind payload c. Some c)
        (c\<lparr>icl_effects := icl_effects c @ replicate k (ISO_IND_TICK, None), icl_cotp := cotp\<rparr>))"
  using assms(1-3)
proof (induction n arbitrary: c)
  case (Suc n)
  let ?t = "\<lambda>s. s\<lparr>icl_effects := icl_effects s @ [(ISO_IND_TICK, None)]\<rparr>"
  obtain st s1 where r: "CotpConnection_readToTpktBuffer (icl_cotp c) = Some (st, s1)"
    using Suc.prems(1) by (auto split: Option.bind_splits)
  have tick: "IsoClientConnection_handleConnection (\<lambda>ind payload c. Some c) tick c =
      map_option (\<lambda>(w, next, c). (w, c\<lparr>icl_effects := icl_effects c @ [(ISO_IND_TICK, None)], icl_intState := next\<rparr>))
        (wait_for_data_msg (\<lambda>ind payload c. Some c) c)"
    using Suc.prems(2)
    by (cases "wait_for_data_msg (\<lambda>ind payload c. Some c) c")
      (auto simp: IsoClientConnection_handleConnection_def handle_state_def getIntState_def notify_def setIntState_def)
  have same: "c\<lparr>icl_cotp := a, icl_effects := es, icl_intState := INT_STATE_WAIT_FOR_DATA_MSG\<rparr> = c\<lparr>icl_cotp := a, icl_effects := es\<rparr>"
    for a es using Suc.prems(2) by (cases c) simp
  have go_on: ?case
    if "IsoClientConnection_handleConnection (\<lambda>ind payload c. Some c) tick c = Some (w, ?t (c\<lparr>icl_cotp := s2\<rparr>))"
      "receive_message n s2 = Some (COTP_DATA_INDICATION, cotp)" for w s2
  proof -
    note hyps = that
    obtain k where "k < n" "client_ticks tick (Suc k) (?t (c\<lparr>icl_cotp := s2\<rparr>)) =
        map_option (\<lambda>(w, next, c). (c\<lparr>icl_effects := icl_effects c @ [(ISO_IND_TICK, None)], icl_intState := next\<rparr>))
          (data_message (\<lambda>ind payload c. Some c)
            (c\<lparr>icl_effects := icl_effects c @ replicate (Suc k) (ISO_IND_TICK, None), icl_cotp := cotp\<rparr>))"
      using Suc.IH [of "?t (c\<lparr>icl_cotp := s2\<rparr>)"] hyps(2) Suc.prems(2,3) by (auto simp: replicate_append_same)
    then show ?thesis using hyps(1) by (intro exI [of _ "Suc k"]) auto
  qed
  show ?case
  proof (cases st)
    case TPKT_WAITING
    then show ?thesis
      using go_on [of True s1] r Suc.prems tick same by (simp add: wait_for_data_msg_def client_read_def)
  next
    case TPKT_ERROR
    then show ?thesis using r Suc.prems(1) by simp
  next
    case TPKT_PACKET_COMPLETE
    then obtain ind s2 where p: "CotpConnection_parseIncomingMessage s1 = Some (ind, s2)"
      using Suc.prems(1) r by (auto split: Option.bind_splits)
    show ?thesis
    proof (cases "ind = COTP_MORE_FRAGMENTS_FOLLOW")
      case True
      then show ?thesis
        using go_on [of False s2] r p Suc.prems tick TPKT_PACKET_COMPLETE same
        by (simp add: wait_for_data_msg_def client_read_def client_parse_def)
    next
      case False
      then have "ind = COTP_DATA_INDICATION" "s2 = cotp" using Suc.prems(1) r p TPKT_PACKET_COMPLETE by simp_all
      then show ?thesis
        using r p tick TPKT_PACKET_COMPLETE Suc.prems(3)
        by (intro exI [of _ 0]) (simp add: wait_for_data_msg_def client_read_def client_parse_def option.map_comp comp_def
            case_prod_beta bind_map_option Option.map_conv_bind_option)
    qed
  qed
qed simp

section \<open>From end to end\<close>

text \<open>The PDU of a message in a context.\<close>

definition data_pdu :: "u8 \<Rightarrow> ByteBuffer \<Rightarrow> u8 list" where
  "data_pdu ctx m = dataSpdu @ user_header ctx (length (buffer_content m)) @ buffer_content m"

definition sendable :: "ByteBuffer \<Rightarrow> bool" where
  "sendable m \<longleftrightarrow> buffer_ok m \<and> 0 < bb_size m \<and> bb_size m < 2 ^ 24 - 20"

lemma sendable_chain:
  assumes "sendable m"
  shows "chain_ok (BufferChain_init (bb_size m) (bb_size m) [] (bb_buffer m))"
    "0 < bc_partLength (hd (BufferChain_init (bb_size m) (bb_size m) [] (bb_buffer m)))"
    "chain_bytes (BufferChain_init (bb_size m) (bb_size m) [] (bb_buffer m)) = buffer_content m"
    "int (length (buffer_content m)) = bb_size m"
  using assms by (auto simp: sendable_def buffer_ok_def BufferChain_init_def part_bytes_def buffer_content_def min_def)

lemma length_data_pdu: "sendable m \<Longrightarrow> int (length (data_pdu ctx m)) \<le> bb_size m + 22"
  using length_user_header(2) [of ctx "length (buffer_content m)"] sendable_chain(4) [of m]
  by (simp add: data_pdu_def dataSpdu_def)

lemma client_sends:
  assumes "IsoClientConnection_sendMessage stack c m = Some c'" "getState c = STATE_CONNECTED"
    "icl_intState c' \<noteq> INT_STATE_CLOSE_ON_ERROR" "sendable m" "18 \<le> length stack"
  obtains s where "CotpConnection_sendDataMessage (icl_cotp c) s = Some (COTP_OK, icl_cotp c')" "chain_ok s"
    "chain_bytes s = data_pdu (prs_mmsContextId (icl_presentation c)) m"
proof -
  note ch = sendable_chain [OF assms(4)]
  let ?wb = "\<lparr>bc_length = 0, bc_partLength = 0, bc_partMaxLength = 100, bc_buffer = take 100 stack\<rparr>"
  have wb: "18 \<le> length (bc_buffer ?wb)" using assms(5) by simp
  obtain p where p: "create_user_data (prs_mmsContextId (icl_presentation c)) ?wb
      (BufferChain_init (bb_size m) (bb_size m) [] (bb_buffer m)) = Some p"
    "\<forall>session buffer. \<exists>s. IsoSession_createDataSpdu session buffer p = Some s \<and> chain_ok s \<and>
      chain_bytes s = data_pdu (prs_mmsContextId (icl_presentation c)) m"
    by (rule data_pdu_written [OF ch(1,2) wb, where ctx = "prs_mmsContextId (icl_presentation c)", unfolded ch(3), folded data_pdu_def])
  obtain s where s: "IsoSession_createDataSpdu (icl_session c)
      \<lparr>bc_length = 0, bc_partLength = 0, bc_partMaxLength = 0, bc_buffer = []\<rparr> p = Some s" "chain_ok s"
      "chain_bytes s = data_pdu (prs_mmsContextId (icl_presentation c)) m"
    using p(2) by blast
  obtain ind cotp where "CotpConnection_sendDataMessage (icl_cotp c) s = Some (ind, cotp)"
      "c' = (if ind \<noteq> COTP_OK then setIntState (c\<lparr>icl_cotp := cotp\<rparr>) INT_STATE_CLOSE_ON_ERROR else c\<lparr>icl_cotp := cotp\<rparr>)"
    using assms(1,2) p(1) s(1)
    by (auto simp: IsoClientConnection_sendMessage_def IsoPresentation_createUserData_def client_send_def
        split: Option.bind_splits if_splits)
  moreover from this have "ind = COTP_OK" using assms(3) by (auto simp: setIntState_def split: if_splits)
  ultimately show ?thesis using that s(2,3) by auto
qed

lemma server_sends:
  assumes "IsoConnection_sendMessage c m = Some c'" "ic_state c \<noteq> ISO_CON_STATE_STOPPED" "ic_state c' \<noteq> ISO_CON_STATE_STOPPED"
    "sendable m" "18 \<le> length (ic_sendBuffer c)"
  obtains s where "CotpConnection_sendDataMessage (ic_cotp c) s = Some (COTP_OK, ic_cotp c')" "chain_ok s"
    "chain_bytes s = data_pdu (prs_mmsContextId (ic_presentation c)) m"
proof -
  note ch = sendable_chain [OF assms(4)]
  have wb: "18 \<le> length (bc_buffer (part_at (ic_sendBuffer c) 0))" using assms(5) by (simp add: part_at_def)
  obtain p where p: "create_user_data (prs_mmsContextId (ic_presentation c)) (part_at (ic_sendBuffer c) 0)
      (BufferChain_init (bb_size m) (bb_size m) [] (bb_buffer m)) = Some p"
    "\<forall>session buffer. \<exists>s. IsoSession_createDataSpdu session buffer p = Some s \<and> chain_ok s \<and>
      chain_bytes s = data_pdu (prs_mmsContextId (ic_presentation c)) m"
    by (rule data_pdu_written [OF ch(1,2) wb, where ctx = "prs_mmsContextId (ic_presentation c)", unfolded ch(3), folded data_pdu_def])
  obtain s where s: "IsoSession_createDataSpdu (ic_session c) (part_at (ic_sendBuffer c) (bc_partLength (hd p))) p = Some s"
      "chain_ok s" "chain_bytes s = data_pdu (prs_mmsContextId (ic_presentation c)) m"
    using p(2) by blast
  obtain ind cotp where c': "CotpConnection_sendDataMessage (ic_cotp c) s = Some (ind, cotp)"
      "c' = (if ind \<noteq> COTP_OK then IsoConnection_close (c\<lparr>ic_cotp := cotp\<rparr>) else c\<lparr>ic_cotp := cotp\<rparr>)"
    using assms(1,2) p(1) s(1)
    by (auto simp: IsoConnection_sendMessage_def IsoPresentation_createUserData_def send_data_def
        split: Option.bind_splits if_splits)
  moreover from this have "ind = COTP_OK"
    using assms(3) by (auto simp: IsoConnection_close_def split: if_splits)
  ultimately show ?thesis using that s(2,3) by auto
qed

text \<open>The transport layer and the two layers above it, at the receiver.\<close>

lemma pdu_received:
  assumes "tpdu_exponent e cotp" "write_ok (4 + 2 ^ e) cotp" "sendable m" "chain_ok s" "chain_bytes s = data_pdu ctx m"
    "CotpConnection_sendDataMessage cotp s = Some (COTP_OK, cotp')"
    "sk_outbound (cot_socket cotp') = sk_outbound (cot_socket cotp) @ wire"
    "idle_reader (4 + 2 ^ e) peer" "sk_inbound (cot_socket peer) = wire @ rest" "bb_size (cot_payload peer) = 0"
    "bb_size m + 22 \<le> bb_maxSize (cot_payload peer)" "delivering (length wire) peer"
  obtains peer' ud b where "receive_message (length wire) peer = Some (COTP_DATA_INDICATION, peer')"
    "sk_inbound (cot_socket peer') = rest"
    "IsoSession_parseMessage session (cot_payload peer') = Some (SESSION_DATA, session\<lparr>ses_userData := ud\<rparr>)"
    "IsoPresentation_parseUserData pres ud = Some (True, pres\<lparr>prs_nextContextId := ctx, prs_nextPayload := b\<rparr>)"
    "buffer_content b = buffer_content m" "bb_size b = bb_size m"
proof -
  have "bb_size (cot_payload peer) + int (length (chain_bytes s)) \<le> bb_maxSize (cot_payload peer)"
    using length_data_pdu [OF assms(3), of ctx] assms(5,10,11) by simp
  from sent_message_received [OF assms(1,2,4,6-9) this, of "length wire"]
  obtain peer' where r: "receive_message (length wire) peer = Some (COTP_DATA_INDICATION, peer')"
    "sk_inbound (cot_socket peer') = rest" "buffer_ok (cot_payload peer')"
    "buffer_content (cot_payload peer') = buffer_content (cot_payload peer) @ chain_bytes s"
    using assms(12) by blast
  have c: "buffer_content (cot_payload peer') =
      dataSpdu @ user_header ctx (length (buffer_content m)) @ buffer_content m"
    using r(4) assms(5,10) by (simp add: buffer_content_def [of "cot_payload peer"] data_pdu_def)
  have n: "length (buffer_content m) < 2 ^ 24 - 20"
    using sendable_chain(4) [OF assms(3)] assms(3) by (simp add: sendable_def)
  obtain ud b where b: "IsoSession_parseMessage session (cot_payload peer') = Some (SESSION_DATA, session\<lparr>ses_userData := ud\<rparr>)"
    "IsoPresentation_parseUserData pres ud = Some (True, pres\<lparr>prs_nextContextId := ctx, prs_nextPayload := b\<rparr>)"
    "buffer_content b = buffer_content m" "bb_size b = int (length (buffer_content m))"
    by (rule data_pdu_parsed [OF r(3) c n])
  show ?thesis
    using b(4) sendable_chain(4) [OF assms(3)] by (intro that [OF r(1,2) b(1-3)]) simp
qed


text \<open>A message of four octets in two transport packets, received octet by octet.\<close>

definition demo_wire :: "u8 list" where
  "demo_wire = [3, 0, 0, 20, 2, 240, 0, 1, 0, 1, 0, 97, 11, 48, 9, 2, 1, 3, 160, 4, 3, 0, 0, 11, 2, 240, 128, 1, 2, 3, 4]"

definition demo_message :: ByteBuffer where
  "demo_message = ByteBuffer_wrap [1, 2, 3, 4] 4 4"

definition demo_sender :: CotpConnection where
  "demo_sender = demo_connection 4 64 \<lparr>sk_inbound = [], sk_ready = [], sk_outbound = [], sk_taken = replicate 5 (100, 0)\<rparr>"

definition demo_receiver :: CotpConnection where
  "demo_receiver = demo_connection 4 64 \<lparr>sk_inbound = demo_wire @ [3], sk_ready = replicate 62 1, sk_outbound = [], sk_taken = []\<rparr>"

definition mms_contexts :: IsoPresentation where
  "mms_contexts = zero_presentation\<lparr>prs_acseContextId := 1, prs_mmsContextId := 3\<rparr>"

lemma demo_cotp:
  "tpdu_exponent 4 demo_sender" "write_ok (4 + 2 ^ 4) demo_sender" "sendable demo_message" "length demo_wire = 31"
  "idle_reader (4 + 2 ^ 4) demo_receiver" "bb_size (cot_payload demo_receiver) = 0" "bb_maxSize (cot_payload demo_receiver) = 64"
  "sk_inbound (cot_socket demo_receiver) = demo_wire @ [3]" "delivering (length demo_wire) demo_receiver"
  "bb_size demo_message = 4" "buffer_content demo_message = [1, 2, 3, 4]" "sk_outbound (cot_socket demo_sender) = []"
  by (simp_all add: demo_sender_def demo_receiver_def demo_connection_ok)
    (simp_all add: demo_message_def sendable_def buffer_ok_def ByteBuffer_wrap_def demo_wire_def demo_connection_def Let_def
      ByteBuffer_create_def delivering_def buffer_content_def)




end
